(* ===== verification/Prelude.thy ===== *)
theory Prelude
  imports Main "HOL-Library.Word"
begin

text \<open>
  Shared material of the development: the collections of facts the component proofs draw on,
  the state pipeline in which the stateful Go methods are written, decimal printing as
  \<open>fmt.Sprintf("%d")\<close> does it, and list lemmas used by several components.
\<close>

named_theorems enum_simps "printing and parsing tables of the configuration enums"
named_theorems wire_simps "definitions of the byte codecs of the control protocol"
named_theorems keeps_intros "invariant preservation rules of the service state machine"

section \<open>Types shared by all components\<close>

type_synonym byte = "8 word"
type_synonym u16 = "16 word"
type_synonym u32 = "32 word"
type_synonym u64 = "64 word"

text \<open>\<open>time.Duration\<close> and instants, in nanoseconds; \<open>syscall.Signal\<close> is a Go \<open>int\<close>.\<close>

type_synonym duration = int
type_synonym instant = int
type_synonym signal = int

text \<open>A Go function that returns \<open>(T, error)\<close>: the message is not part of the model.\<close>

type_synonym ('e, 'a) result = "'e + 'a"

section \<open>State pipelines\<close>

text \<open>
  A Go statement that changes the state \<open>'s\<close> is a function \<open>'s \<Rightarrow> 's\<close>; a block of statements is the
  list of them, executed in order by \<open>run\<close>.  An \<open>if\<close> without an \<open>else\<close> reads the state it is
  reached in.
\<close>

primrec run :: "('s \<Rightarrow> 's) list \<Rightarrow> 's \<Rightarrow> 's" where
  "run [] w = w"
| "run (f # fs) w = run fs (f w)"

definition when_do :: "('s \<Rightarrow> bool) \<Rightarrow> ('s \<Rightarrow> 's) \<Rightarrow> 's \<Rightarrow> 's" where
  "when_do c f w = (if c w then f w else w)"

lemma when_do_True [simp]: "c w \<Longrightarrow> when_do c f w = f w"
  by (simp add: when_do_def)

lemma when_do_False [simp]: "\<not> c w \<Longrightarrow> when_do c f w = w"
  by (simp add: when_do_def)

definition keeps :: "('s \<Rightarrow> bool) \<Rightarrow> ('s \<Rightarrow> 's) \<Rightarrow> bool" where
  "keeps P f \<longleftrightarrow> (\<forall>w. P w \<longrightarrow> P (f w))"

lemma keepsI: "(\<And>w. P w \<Longrightarrow> P (f w)) \<Longrightarrow> keeps P f"
  by (simp add: keeps_def)

lemma keepsD: "keeps P f \<Longrightarrow> P w \<Longrightarrow> P (f w)"
  by (simp add: keeps_def)

lemma keeps_run [keeps_intros]:
  "keeps P (run [])"
  "keeps P f \<Longrightarrow> keeps P (run fs) \<Longrightarrow> keeps P (run (f # fs))"
  by (simp_all add: keeps_def)

lemma keeps_id: "keeps P (\<lambda>w. w)"
  by (simp add: keeps_def)

lemma keeps_when_do [keeps_intros]: "keeps P f \<Longrightarrow> keeps P (when_do c f)"
  by (simp add: keeps_def when_do_def)

lemma keeps_when_guard:
  "(\<And>w. P w \<Longrightarrow> c w \<Longrightarrow> P (f w)) \<Longrightarrow> keeps P (when_do c f)"
  by (simp add: keeps_def when_do_def)

lemma keeps_if [keeps_intros]:
  "keeps P f \<Longrightarrow> keeps P g \<Longrightarrow> keeps P (\<lambda>w. if c w then f w else g w)"
  by (simp add: keeps_def)

lemma keeps_fold: "(\<And>x. x \<in> set xs \<Longrightarrow> keeps P (f x)) \<Longrightarrow> keeps P (fold f xs)"
  by (induction xs) (auto simp: keeps_def)

section \<open>Decimal printing\<close>

fun digit :: "nat \<Rightarrow> char" where
  "digit n = char_of (48 + n)"

fun itoa :: "nat \<Rightarrow> string" where
  "itoa n = (if n < 10 then [digit n] else itoa (n div 10) @ [digit (n mod 10)])"

declare itoa.simps [simp del]

lemma itoa_nonempty: "itoa n \<noteq> []"
  by (subst itoa.simps) simp

section \<open>Lists\<close>

text \<open>Removal of the first element that satisfies a test, as the Go loops that splice a slice do.\<close>

fun remove_first :: "('a \<Rightarrow> bool) \<Rightarrow> 'a list \<Rightarrow> 'a list" where
  "remove_first p [] = []"
| "remove_first p (x # xs) = (if p x then xs else x # remove_first p xs)"

lemma set_remove_first: "set (remove_first p xs) \<subseteq> set xs"
  by (induction xs) auto

lemma distinct_remove_first: "distinct xs \<Longrightarrow> distinct (remove_first p xs)"
  by (induction xs) (auto dest: subsetD [OF set_remove_first])

lemma remove_first_id: "\<not> (\<exists>x \<in> set xs. p x) \<Longrightarrow> remove_first p xs = xs"
  by (induction xs) auto

lemma remove1_as_remove_first: "remove_first ((=) x) xs = remove1 x xs"
  by (induction xs) auto

lemma length_filter_le_pred:
  "(\<And>x. x \<in> set xs \<Longrightarrow> P x \<Longrightarrow> Q x) \<Longrightarrow> length (filter P xs) \<le> length (filter Q xs)"
  by (induction xs) auto

lemma length_filter_drop_one:
  assumes "distinct xs" "x \<in> set xs" "P x"
  shows "length (filter P xs) = Suc (length (filter (\<lambda>y. P y \<and> y \<noteq> x) xs))"
  using assms
proof (induction xs)
  case (Cons y ys)
  have "x \<notin> set ys \<Longrightarrow> filter (\<lambda>z. P z \<and> z \<noteq> x) ys = filter P ys"
    by (rule filter_cong) auto
  with Cons show ?case by auto
qed simp

text \<open>Removal swaps the last element into the hole, as the listener lists and the console queue do.\<close>

fun find_index :: "('a \<Rightarrow> bool) \<Rightarrow> 'a list \<Rightarrow> nat option" where
  "find_index p [] = None"
| "find_index p (x # xs) = (if p x then Some 0 else map_option Suc (find_index p xs))"

definition swap_remove :: "'a \<Rightarrow> 'a list \<Rightarrow> 'a list" where
  "swap_remove x xs =
    (case find_index ((=) x) xs of None \<Rightarrow> xs | Some i \<Rightarrow> butlast (xs[i := last xs]))"

lemma find_index_None: "find_index p xs = None \<longleftrightarrow> (\<forall>x \<in> set xs. \<not> p x)"
  by (induction xs) auto

lemma find_index_SomeD: "find_index p xs = Some i \<Longrightarrow> i < length xs \<and> p (xs ! i)"
  by (induction xs arbitrary: i) (auto split: if_splits)

end
