(* ===== verification/Wire.thy ===== *)
theory Wire
  imports Prelude
begin

text \<open>
  The byte layer under \<open>pkg/control/protocol.go\<close>: Go's slices of bytes, the little-endian accessors of
  \<open>encoding/binary\<close>, and the contract of a codec.  A Go string on the wire is its byte sequence.  An
  index or a slice bound out of range is a run-time panic in Go; it is the error \<open>Panic\<close> here, so that
  its absence is a theorem and not an assumption.
\<close>

unbundle bit_operations_syntax

type_synonym bytes = "byte list"

datatype wire_error = TooShort | PayloadTooLarge | UnexpectedEOF | WriteFailed | Panic

definition rbind :: "('e, 'a) result \<Rightarrow> ('a \<Rightarrow> ('e, 'b) result) \<Rightarrow> ('e, 'b) result" where
  "rbind r f = (case r of Inl e \<Rightarrow> Inl e | Inr x \<Rightarrow> f x)"

lemma rbind_simps [simp]: "rbind (Inl e) f = Inl e" "rbind (Inr x) f = f x"
  by (simp_all add: rbind_def)

lemma rbind_eq_Inr: "rbind r f = Inr y \<longleftrightarrow> (\<exists>x. r = Inr x \<and> f x = Inr y)"
  by (cases r) auto

lemma rbind_not_Panic:
  "r \<noteq> Inl Panic \<Longrightarrow> (\<And>x. r = Inr x \<Longrightarrow> f x \<noteq> Inl Panic) \<Longrightarrow> rbind r f \<noteq> Inl Panic"
  by (cases r) auto

section \<open>Slices and little-endian integers\<close>

definition at_index :: "bytes \<Rightarrow> nat \<Rightarrow> (wire_error, byte) result" where
  "at_index d i = (if i < length d then Inr (d ! i) else Inl Panic)"

definition slice :: "bytes \<Rightarrow> nat \<Rightarrow> nat \<Rightarrow> (wire_error, bytes) result" where
  "slice d i j = (if i \<le> j \<and> j \<le> length d then Inr (take (j - i) (drop i d)) else Inl Panic)"

definition slice_from :: "bytes \<Rightarrow> nat \<Rightarrow> (wire_error, bytes) result" where
  "slice_from d i = (if i \<le> length d then Inr (drop i d) else Inl Panic)"

definition PutUint16 :: "u16 \<Rightarrow> bytes" where
  "PutUint16 v = [ucast v, ucast (drop_bit 8 v)]"

definition PutUint32 :: "u32 \<Rightarrow> bytes" where
  "PutUint32 v = [ucast v, ucast (drop_bit 8 v), ucast (drop_bit 16 v), ucast (drop_bit 24 v)]"

definition PutUint64 :: "u64 \<Rightarrow> bytes" where
  "PutUint64 v = map (\<lambda>i. ucast (drop_bit (8 * i) v)) [0, 1, 2, 3, 4, 5, 6, 7]"

definition Uint16 :: "bytes \<Rightarrow> (wire_error, u16) result" where
  "Uint16 b = (if length b < 2 then Inl Panic else Inr (ucast (b ! 0) OR push_bit 8 (ucast (b ! 1))))"

definition Uint32 :: "bytes \<Rightarrow> (wire_error, u32) result" where
  "Uint32 b =
    (if length b < 4 then Inl Panic
     else Inr (ucast (b ! 0) OR push_bit 8 (ucast (b ! 1)) OR push_bit 16 (ucast (b ! 2))
               OR push_bit 24 (ucast (b ! 3))))"

definition Uint64 :: "bytes \<Rightarrow> (wire_error, u64) result" where
  "Uint64 b =
    (if length b < 8 then Inl Panic
     else Inr (ucast (b ! 0) OR push_bit 8 (ucast (b ! 1)) OR push_bit 16 (ucast (b ! 2))
               OR push_bit 24 (ucast (b ! 3)) OR push_bit 32 (ucast (b ! 4))
               OR push_bit 40 (ucast (b ! 5)) OR push_bit 48 (ucast (b ! 6)) OR push_bit 56 (ucast (b ! 7))))"

lemma length_Put [simp]:
  "length (PutUint16 v) = 2" "length (PutUint32 w) = 4" "length (PutUint64 x) = 8"
  by (simp_all add: PutUint16_def PutUint32_def PutUint64_def)

lemma Uint16_Put [simp]: "Uint16 (PutUint16 v @ r) = Inr v"
  unfolding Uint16_def PutUint16_def
  by simp (rule bit_word_eqI, auto simp: bit_simps)

text \<open>The byte at position \<open>k\<close>, moved back to its place, is the corresponding window of bits.\<close>

lemma bit_window32: "n < 32 \<Longrightarrow> bit (push_bit k (ucast (ucast (drop_bit k v) :: byte)) :: u32) n \<longleftrightarrow> k \<le> n \<and> n < k + 8 \<and> bit v n"
  for v :: u32
  by (auto simp: bit_simps)

lemma bit_window64: "n < 64 \<Longrightarrow> bit (push_bit k (ucast (ucast (drop_bit k v) :: byte)) :: u64) n \<longleftrightarrow> k \<le> n \<and> n < k + 8 \<and> bit v n"
  for v :: u64
  by (auto simp: bit_simps)

lemma low_window32: "n < 32 \<Longrightarrow> bit (ucast (ucast v :: byte) :: u32) n \<longleftrightarrow> n < 8 \<and> bit v n" for v :: u32
  by (auto simp: bit_simps)

lemma low_window64: "n < 64 \<Longrightarrow> bit (ucast (ucast v :: byte) :: u64) n \<longleftrightarrow> n < 8 \<and> bit v n" for v :: u64
  by (auto simp: bit_simps)

lemma Uint32_Put [simp]: "Uint32 (PutUint32 v @ r) = Inr v"
proof -
  have "(ucast (ucast v :: byte) :: u32) OR push_bit 8 (ucast (ucast (drop_bit 8 v) :: byte))
     OR push_bit 16 (ucast (ucast (drop_bit 16 v) :: byte)) OR push_bit 24 (ucast (ucast (drop_bit 24 v) :: byte)) = v"
  proof (rule bit_word_eqI)
    fix n assume "n < LENGTH(32)"
    then have n: "n < 32" by simp
    have "n < 8 \<or> (8 \<le> n \<and> n < 8 + 8) \<or> (16 \<le> n \<and> n < 16 + 8) \<or> (24 \<le> n \<and> n < 24 + 8)"
      using n by linarith
    then show "bit ((ucast (ucast v :: byte) :: u32) OR push_bit 8 (ucast (ucast (drop_bit 8 v) :: byte))
     OR push_bit 16 (ucast (ucast (drop_bit 16 v) :: byte)) OR push_bit 24 (ucast (ucast (drop_bit 24 v) :: byte))) n = bit v n"
      unfolding bit_or_iff bit_window32 [OF n] low_window32 [OF n] by blast
  qed
  then show ?thesis by (simp add: Uint32_def PutUint32_def)
qed

lemma Uint64_Put [simp]: "Uint64 (PutUint64 v @ r) = Inr v"
proof -
  let ?w = "\<lambda>k. push_bit k (ucast (ucast (drop_bit k v) :: byte)) :: u64"
  have "(ucast (ucast v :: byte) :: u64) OR ?w 8 OR ?w 16 OR ?w 24 OR ?w 32 OR ?w 40 OR ?w 48 OR ?w 56 = v"
  proof (rule bit_word_eqI)
    fix n assume "n < LENGTH(64)"
    then have n: "n < 64" by simp
    have "n < 8 \<or> (8 \<le> n \<and> n < 8 + 8) \<or> (16 \<le> n \<and> n < 16 + 8) \<or> (24 \<le> n \<and> n < 24 + 8)
       \<or> (32 \<le> n \<and> n < 32 + 8) \<or> (40 \<le> n \<and> n < 40 + 8) \<or> (48 \<le> n \<and> n < 48 + 8) \<or> (56 \<le> n \<and> n < 56 + 8)"
      using n by linarith
    then show "bit ((ucast (ucast v :: byte) :: u64) OR ?w 8 OR ?w 16 OR ?w 24 OR ?w 32 OR ?w 40 OR ?w 48 OR ?w 56) n = bit v n"
      unfolding bit_or_iff bit_window64 [OF n] low_window64 [OF n] by blast
  qed
  then show ?thesis by (simp add: Uint64_def PutUint64_def)
qed

lemma Uint_Put_alone [simp]:
  "Uint16 (PutUint16 v) = Inr v" "Uint32 (PutUint32 w) = Inr w" "Uint64 (PutUint64 x) = Inr x"
  using Uint16_Put [of v "[]"] Uint32_Put [of w "[]"] Uint64_Put [of x "[]"] by simp_all

lemma Put_Uint32: "Uint32 d = Inr v \<Longrightarrow> d = PutUint32 v @ drop 4 d"
proof -
  assume u: "Uint32 d = Inr v"
  then obtain a b c e r where d: "d = a # b # c # e # r"
    by (auto simp: Uint32_def split: if_splits) (metis (no_types, opaque_lifting) length_Cons list.exhaust list.size(3) not_less_eq numeral_nat zero_less_Suc)
  have v: "v = ucast a OR push_bit 8 (ucast b) OR push_bit 16 (ucast c) OR push_bit 24 (ucast e)"
    using u d by (simp add: Uint32_def)
  have "ucast v = a" "ucast (drop_bit 8 v) = b" "ucast (drop_bit 16 v) = c" "ucast (drop_bit 24 v) = e"
    unfolding v by (rule bit_word_eqI, auto simp: bit_simps dest: bit_imp_le_length)+
  with d show ?thesis by (simp add: PutUint32_def)
qed

lemma Uint_Panic [simp]:
  "Uint16 b = Inl Panic \<longleftrightarrow> length b < 2" "Uint32 b = Inl Panic \<longleftrightarrow> length b < 4"
  "Uint64 b = Inl Panic \<longleftrightarrow> length b < 8"
  by (simp_all add: Uint16_def Uint32_def Uint64_def)

lemma slice_Panic [simp]:
  "slice d i j = Inl Panic \<longleftrightarrow> \<not> (i \<le> j \<and> j \<le> length d)"
  "slice_from d i = Inl Panic \<longleftrightarrow> length d < i"
  "at_index d i = Inl Panic \<longleftrightarrow> length d \<le> i"
  by (auto simp: slice_def slice_from_def at_index_def)

lemma slice_from_Inr: "slice_from d i = Inr e \<longleftrightarrow> i \<le> length d \<and> e = drop i d"
  by (auto simp: slice_from_def)

text \<open>Conversions between Go's signed integers and the unsigned words that travel.\<close>

definition int32_of :: "u32 \<Rightarrow> int" where "int32_of w = sint w"
definition int64_of :: "u64 \<Rightarrow> int" where "int64_of w = sint w"

definition fits_int32 :: "int \<Rightarrow> bool" where
  "fits_int32 i \<longleftrightarrow> - (2 ^ 31) \<le> i \<and> i < 2 ^ 31"

definition fits_int64 :: "int \<Rightarrow> bool" where
  "fits_int64 i \<longleftrightarrow> - (2 ^ 63) \<le> i \<and> i < 2 ^ 63"

lemma int32_of_word [simp]: "fits_int32 i \<Longrightarrow> int32_of (word_of_int i) = i"
  by (simp add: int32_of_def fits_int32_def sint_sbintrunc' signed_take_bit_int_eq_self)

lemma int64_of_word [simp]: "fits_int64 i \<Longrightarrow> int64_of (word_of_int i) = i"
  by (simp add: int64_of_def fits_int64_def sint_sbintrunc' signed_take_bit_int_eq_self)

lemma unat_u16_of_nat [simp]: "n < 65536 \<Longrightarrow> unat (of_nat n :: u16) = n"
  by (simp add: unat_of_nat)

section \<open>The contract of a codec\<close>

text \<open>
  A decoder that reports how much it consumed, and an encoder for the values in \<open>fits\<close>: decoding
  undoes encoding whatever follows in the buffer, and no input makes the decoder panic.
\<close>

locale codec =
  fixes enc :: "'a \<Rightarrow> bytes"
    and dec :: "bytes \<Rightarrow> (wire_error, 'a \<times> nat) result"
    and fits :: "'a \<Rightarrow> bool"
  assumes dec_enc: "fits x \<Longrightarrow> dec (enc x @ rest) = Inr (x, length (enc x))"
    and dec_total: "dec data \<noteq> Inl Panic"
    and dec_bound: "dec data = Inr (x, n) \<Longrightarrow> n \<le> length data"
begin

lemma prefix_free:
  assumes "fits x" "fits y" "enc x @ r = enc y @ s"
  shows "x = y \<and> r = s"
proof -
  have "Inr (x, length (enc x)) = (Inr (y, length (enc y)) :: (wire_error, 'a \<times> nat) result)"
    using dec_enc [OF assms(1), of r] dec_enc [OF assms(2), of s] assms(3) by simp
  with assms(3) show ?thesis by auto
qed

lemma enc_inj: "inj_on enc {x. fits x}"
  by (rule inj_onI) (use prefix_free [of _ _ "[]" "[]"] in simp)

text \<open>A decoder that reads one value and goes on with the rest of the slice.\<close>

lemma dec_then:
  assumes "fits x"
  shows "rbind (dec (enc x @ rest)) (\<lambda>(v, n). rbind (slice_from (enc x @ rest) n) (k v)) = k x rest"
  using dec_enc [OF assms] by (simp add: slice_from_def)

lemma dec_then_total:
  assumes "\<And>v r. k v r \<noteq> Inl Panic"
  shows "rbind (dec data) (\<lambda>(v, n). rbind (slice_from data n) (k v)) \<noteq> Inl Panic"
proof (rule rbind_not_Panic [OF dec_total])
  fix x assume x: "dec data = Inr x"
  obtain v n where "x = (v, n)" by (cases x)
  with x dec_bound [of data v n] assms
  show "(case x of (v, n) \<Rightarrow> rbind (slice_from data n) (k v)) \<noteq> Inl Panic"
    by (simp add: slice_from_def)
qed

end

end
