(* ===== verification/Types.thy ===== *)
theory Types
  imports Prelude
begin

text \<open>
  \<open>pkg/service/types.go\<close>: the enumerations of the service package, their \<open>String\<close> methods, the
  \<open>Parse\<close> functions of the configuration enums, and the exit status of a child process.

  A Go enumeration is a \<open>uint8\<close> with named constants.  It is a datatype here, with the constant's
  value in \<open>iota_T\<close>; a \<open>String\<close> method is modelled on the raw byte, so that its default branch
  (a value outside the declared constants) is part of the model.
\<close>

unbundle bit_operations_syntax

section \<open>Service states, types and dependency kinds\<close>

datatype ServiceState = StateStopped | StateStarting | StateStarted | StateStopping

fun iota_ServiceState :: "ServiceState \<Rightarrow> byte" where
  "iota_ServiceState StateStopped = 0"
| "iota_ServiceState StateStarting = 1"
| "iota_ServiceState StateStarted = 2"
| "iota_ServiceState StateStopping = 3"

definition sprintf_enum :: "string \<Rightarrow> byte \<Rightarrow> string" where
  "sprintf_enum name b = name @ ''('' @ itoa (unat b) @ '')''"

definition ServiceState_String :: "byte \<Rightarrow> string" where
  "ServiceState_String s =
    (if s = iota_ServiceState StateStopped then ''STOPPED''
     else if s = iota_ServiceState StateStarting then ''STARTING''
     else if s = iota_ServiceState StateStarted then ''STARTED''
     else if s = iota_ServiceState StateStopping then ''STOPPING''
     else sprintf_enum ''ServiceState'' s)"

definition IsFinal :: "ServiceState \<Rightarrow> bool" where
  "IsFinal s \<longleftrightarrow> s = StateStopped \<or> s = StateStarted"

datatype ServiceType =
  TypePlaceholder | TypeProcess | TypeBGProcess | TypeScripted | TypeInternal | TypeTriggered

fun iota_ServiceType :: "ServiceType \<Rightarrow> byte" where
  "iota_ServiceType TypePlaceholder = 0"
| "iota_ServiceType TypeProcess = 1"
| "iota_ServiceType TypeBGProcess = 2"
| "iota_ServiceType TypeScripted = 3"
| "iota_ServiceType TypeInternal = 4"
| "iota_ServiceType TypeTriggered = 5"

definition ServiceType_String :: "byte \<Rightarrow> string" where
  "ServiceType_String t =
    (if t = iota_ServiceType TypePlaceholder then ''placeholder''
     else if t = iota_ServiceType TypeProcess then ''process''
     else if t = iota_ServiceType TypeBGProcess then ''bgprocess''
     else if t = iota_ServiceType TypeScripted then ''scripted''
     else if t = iota_ServiceType TypeInternal then ''internal''
     else if t = iota_ServiceType TypeTriggered then ''triggered''
     else sprintf_enum ''ServiceType'' t)"

datatype DependencyType =
  DepRegular | DepSoft | DepWaitsFor | DepMilestone | DepBefore | DepAfter | DepPreparedBy

fun iota_DependencyType :: "DependencyType \<Rightarrow> byte" where
  "iota_DependencyType DepRegular = 0"
| "iota_DependencyType DepSoft = 1"
| "iota_DependencyType DepWaitsFor = 2"
| "iota_DependencyType DepMilestone = 3"
| "iota_DependencyType DepBefore = 4"
| "iota_DependencyType DepAfter = 5"
| "iota_DependencyType DepPreparedBy = 6"

definition DependencyType_String :: "byte \<Rightarrow> string" where
  "DependencyType_String d =
    (if d = iota_DependencyType DepRegular then ''regular''
     else if d = iota_DependencyType DepSoft then ''soft''
     else if d = iota_DependencyType DepWaitsFor then ''waits-for''
     else if d = iota_DependencyType DepMilestone then ''milestone''
     else if d = iota_DependencyType DepBefore then ''before''
     else if d = iota_DependencyType DepAfter then ''after''
     else if d = iota_DependencyType DepPreparedBy then ''prepared-by''
     else sprintf_enum ''DependencyType'' d)"

section \<open>Events, shutdown types and stop reasons\<close>

datatype ServiceEvent =
  EventStarted | EventStopped | EventFailedStart | EventStartCancelled | EventStopCancelled
  | EventPressureMemory | EventPressureCPU | EventPressureIO

fun iota_ServiceEvent :: "ServiceEvent \<Rightarrow> byte" where
  "iota_ServiceEvent EventStarted = 0"
| "iota_ServiceEvent EventStopped = 1"
| "iota_ServiceEvent EventFailedStart = 2"
| "iota_ServiceEvent EventStartCancelled = 3"
| "iota_ServiceEvent EventStopCancelled = 4"
| "iota_ServiceEvent EventPressureMemory = 5"
| "iota_ServiceEvent EventPressureCPU = 6"
| "iota_ServiceEvent EventPressureIO = 7"

definition ServiceEvent_String :: "byte \<Rightarrow> string" where
  "ServiceEvent_String e =
    (if e = iota_ServiceEvent EventStarted then ''STARTED''
     else if e = iota_ServiceEvent EventStopped then ''STOPPED''
     else if e = iota_ServiceEvent EventFailedStart then ''FAILEDSTART''
     else if e = iota_ServiceEvent EventStartCancelled then ''STARTCANCELLED''
     else if e = iota_ServiceEvent EventStopCancelled then ''STOPCANCELLED''
     else if e = iota_ServiceEvent EventPressureMemory then ''PRESSURE-MEMORY''
     else if e = iota_ServiceEvent EventPressureCPU then ''PRESSURE-CPU''
     else if e = iota_ServiceEvent EventPressureIO then ''PRESSURE-IO''
     else sprintf_enum ''ServiceEvent'' e)"

datatype ShutdownType =
  ShutdownNone | ShutdownRemain | ShutdownHalt | ShutdownPoweroff | ShutdownReboot
  | ShutdownSoftReboot | ShutdownKexec

fun iota_ShutdownType :: "ShutdownType \<Rightarrow> byte" where
  "iota_ShutdownType ShutdownNone = 0"
| "iota_ShutdownType ShutdownRemain = 1"
| "iota_ShutdownType ShutdownHalt = 2"
| "iota_ShutdownType ShutdownPoweroff = 3"
| "iota_ShutdownType ShutdownReboot = 4"
| "iota_ShutdownType ShutdownSoftReboot = 5"
| "iota_ShutdownType ShutdownKexec = 6"

definition ShutdownType_String :: "byte \<Rightarrow> string" where
  "ShutdownType_String s =
    (if s = iota_ShutdownType ShutdownNone then ''none''
     else if s = iota_ShutdownType ShutdownRemain then ''remain''
     else if s = iota_ShutdownType ShutdownHalt then ''halt''
     else if s = iota_ShutdownType ShutdownPoweroff then ''poweroff''
     else if s = iota_ShutdownType ShutdownReboot then ''reboot''
     else if s = iota_ShutdownType ShutdownSoftReboot then ''softreboot''
     else if s = iota_ShutdownType ShutdownKexec then ''kexec''
     else sprintf_enum ''ShutdownType'' s)"

datatype StoppedReason =
  ReasonNormal | ReasonDepRestart | ReasonDepFailed | ReasonFailed | ReasonExecFailed
  | ReasonTimedOut | ReasonTerminated

fun iota_StoppedReason :: "StoppedReason \<Rightarrow> byte" where
  "iota_StoppedReason ReasonNormal = 0"
| "iota_StoppedReason ReasonDepRestart = 1"
| "iota_StoppedReason ReasonDepFailed = 2"
| "iota_StoppedReason ReasonFailed = 3"
| "iota_StoppedReason ReasonExecFailed = 4"
| "iota_StoppedReason ReasonTimedOut = 5"
| "iota_StoppedReason ReasonTerminated = 6"

definition StoppedReason_String :: "byte \<Rightarrow> string" where
  "StoppedReason_String r =
    (if r = iota_StoppedReason ReasonNormal then ''normal''
     else if r = iota_StoppedReason ReasonDepRestart then ''dependency-restart''
     else if r = iota_StoppedReason ReasonDepFailed then ''dependency-failed''
     else if r = iota_StoppedReason ReasonFailed then ''failed''
     else if r = iota_StoppedReason ReasonExecFailed then ''exec-failed''
     else if r = iota_StoppedReason ReasonTimedOut then ''timed-out''
     else if r = iota_StoppedReason ReasonTerminated then ''terminated''
     else sprintf_enum ''StoppedReason'' r)"

definition DidFinish :: "StoppedReason \<Rightarrow> bool" where
  "DidFinish r \<longleftrightarrow> r = ReasonTerminated"

section \<open>Configuration enums\<close>

datatype enum_error = UnknownValue string

datatype SystemAction = ActionNone | ActionReboot | ActionPoweroff | ActionHalt | ActionExit

fun iota_SystemAction :: "SystemAction \<Rightarrow> byte" where
  "iota_SystemAction ActionNone = 0"
| "iota_SystemAction ActionReboot = 1"
| "iota_SystemAction ActionPoweroff = 2"
| "iota_SystemAction ActionHalt = 3"
| "iota_SystemAction ActionExit = 4"

definition SystemAction_String :: "byte \<Rightarrow> string" where
  [enum_simps]: "SystemAction_String a =
    (if a = iota_SystemAction ActionNone then ''none''
     else if a = iota_SystemAction ActionReboot then ''reboot''
     else if a = iota_SystemAction ActionPoweroff then ''poweroff''
     else if a = iota_SystemAction ActionHalt then ''halt''
     else if a = iota_SystemAction ActionExit then ''exit''
     else sprintf_enum ''SystemAction'' a)"

definition ParseSystemAction :: "string \<Rightarrow> (enum_error, SystemAction) result" where
  [enum_simps]: "ParseSystemAction s =
    (if s = '''' \<or> s = ''none'' then Inr ActionNone
     else if s = ''reboot'' then Inr ActionReboot
     else if s = ''poweroff'' then Inr ActionPoweroff
     else if s = ''halt'' then Inr ActionHalt
     else if s = ''exit'' then Inr ActionExit
     else Inl (UnknownValue s))"

fun AsShutdownType :: "SystemAction \<Rightarrow> ShutdownType" where
  "AsShutdownType ActionReboot = ShutdownReboot"
| "AsShutdownType ActionPoweroff = ShutdownPoweroff"
| "AsShutdownType ActionHalt = ShutdownHalt"
| "AsShutdownType _ = ShutdownNone"

datatype OOMPolicy = OOMContinue | OOMStop | OOMKill

fun iota_OOMPolicy :: "OOMPolicy \<Rightarrow> byte" where
  "iota_OOMPolicy OOMContinue = 0"
| "iota_OOMPolicy OOMStop = 1"
| "iota_OOMPolicy OOMKill = 2"

definition OOMPolicy_String :: "byte \<Rightarrow> string" where
  [enum_simps]: "OOMPolicy_String p =
    (if p = iota_OOMPolicy OOMContinue then ''continue''
     else if p = iota_OOMPolicy OOMStop then ''stop''
     else if p = iota_OOMPolicy OOMKill then ''kill''
     else sprintf_enum ''OOMPolicy'' p)"

definition ParseOOMPolicy :: "string \<Rightarrow> (enum_error, OOMPolicy) result" where
  [enum_simps]: "ParseOOMPolicy s =
    (if s = '''' \<or> s = ''continue'' then Inr OOMContinue
     else if s = ''stop'' then Inr OOMStop
     else if s = ''kill'' then Inr OOMKill
     else Inl (UnknownValue s))"

datatype AutoRestartMode = RestartNever | RestartAlways | RestartOnFailure

fun iota_AutoRestartMode :: "AutoRestartMode \<Rightarrow> byte" where
  "iota_AutoRestartMode RestartNever = 0"
| "iota_AutoRestartMode RestartAlways = 1"
| "iota_AutoRestartMode RestartOnFailure = 2"

definition AutoRestartMode_String :: "byte \<Rightarrow> string" where
  "AutoRestartMode_String a =
    (if a = iota_AutoRestartMode RestartNever then ''never''
     else if a = iota_AutoRestartMode RestartAlways then ''always''
     else if a = iota_AutoRestartMode RestartOnFailure then ''on-failure''
     else sprintf_enum ''AutoRestartMode'' a)"

datatype LogType = LogNone | LogToFile | LogToBuffer | LogToPipe | LogToCommand

datatype TimeoutFailureMode =
  TimeoutFailureTerminate | TimeoutFailureAbort | TimeoutFailureKill

fun iota_TimeoutFailureMode :: "TimeoutFailureMode \<Rightarrow> byte" where
  "iota_TimeoutFailureMode TimeoutFailureTerminate = 0"
| "iota_TimeoutFailureMode TimeoutFailureAbort = 1"
| "iota_TimeoutFailureMode TimeoutFailureKill = 2"

definition TimeoutFailureMode_String :: "byte \<Rightarrow> string" where
  [enum_simps]: "TimeoutFailureMode_String m =
    (if m = iota_TimeoutFailureMode TimeoutFailureAbort then ''abort''
     else if m = iota_TimeoutFailureMode TimeoutFailureKill then ''kill''
     else ''terminate'')"

definition ParseTimeoutFailureMode :: "string \<Rightarrow> (enum_error, TimeoutFailureMode) result" where
  [enum_simps]: "ParseTimeoutFailureMode s =
    (if s = '''' \<or> s = ''terminate'' then Inr TimeoutFailureTerminate
     else if s = ''abort'' then Inr TimeoutFailureAbort
     else if s = ''kill'' then Inr TimeoutFailureKill
     else Inl (UnknownValue s))"

datatype ExitType = ExitTypeMain | ExitTypeCgroup

fun iota_ExitType :: "ExitType \<Rightarrow> byte" where
  "iota_ExitType ExitTypeMain = 0"
| "iota_ExitType ExitTypeCgroup = 1"

definition ExitType_String :: "byte \<Rightarrow> string" where
  [enum_simps]: "ExitType_String t =
    (if t = iota_ExitType ExitTypeCgroup then ''cgroup'' else ''main'')"

definition ParseExitType :: "string \<Rightarrow> (enum_error, ExitType) result" where
  [enum_simps]: "ParseExitType s =
    (if s = '''' \<or> s = ''main'' then Inr ExitTypeMain
     else if s = ''cgroup'' then Inr ExitTypeCgroup
     else Inl (UnknownValue s))"

datatype NotifyAccess = NotifyAccessMain | NotifyAccessAll | NotifyAccessExec | NotifyAccessNone

fun iota_NotifyAccess :: "NotifyAccess \<Rightarrow> byte" where
  "iota_NotifyAccess NotifyAccessMain = 0"
| "iota_NotifyAccess NotifyAccessAll = 1"
| "iota_NotifyAccess NotifyAccessExec = 2"
| "iota_NotifyAccess NotifyAccessNone = 3"

definition NotifyAccess_String :: "byte \<Rightarrow> string" where
  [enum_simps]: "NotifyAccess_String n =
    (if n = iota_NotifyAccess NotifyAccessAll then ''all''
     else if n = iota_NotifyAccess NotifyAccessExec then ''exec''
     else if n = iota_NotifyAccess NotifyAccessNone then ''none''
     else ''main'')"

definition ParseNotifyAccess :: "string \<Rightarrow> (enum_error, NotifyAccess) result" where
  [enum_simps]: "ParseNotifyAccess s =
    (if s = '''' \<or> s = ''main'' then Inr NotifyAccessMain
     else if s = ''all'' then Inr NotifyAccessAll
     else if s = ''exec'' then Inr NotifyAccessExec
     else if s = ''none'' then Inr NotifyAccessNone
     else Inl (UnknownValue s))"

datatype KillMode = KillModeProcess | KillModeControlGroup | KillModeMixed | KillModeNone

fun iota_KillMode :: "KillMode \<Rightarrow> byte" where
  "iota_KillMode KillModeProcess = 0"
| "iota_KillMode KillModeControlGroup = 1"
| "iota_KillMode KillModeMixed = 2"
| "iota_KillMode KillModeNone = 3"

definition KillMode_String :: "byte \<Rightarrow> string" where
  [enum_simps]: "KillMode_String m =
    (if m = iota_KillMode KillModeControlGroup then ''control-group''
     else if m = iota_KillMode KillModeMixed then ''mixed''
     else if m = iota_KillMode KillModeNone then ''none''
     else ''process'')"

definition ParseKillMode :: "string \<Rightarrow> (enum_error, KillMode) result" where
  [enum_simps]: "ParseKillMode s =
    (if s = '''' \<or> s = ''process'' then Inr KillModeProcess
     else if s = ''control-group'' then Inr KillModeControlGroup
     else if s = ''mixed'' then Inr KillModeMixed
     else if s = ''none'' then Inr KillModeNone
     else Inl (UnknownValue s))"

datatype RestartMode = RestartModeNormal | RestartModeDirect

fun iota_RestartMode :: "RestartMode \<Rightarrow> byte" where
  "iota_RestartMode RestartModeNormal = 0"
| "iota_RestartMode RestartModeDirect = 1"

definition RestartMode_String :: "byte \<Rightarrow> string" where
  [enum_simps]: "RestartMode_String m =
    (if m = iota_RestartMode RestartModeDirect then ''direct'' else ''normal'')"

definition ParseRestartMode :: "string \<Rightarrow> (enum_error, RestartMode) result" where
  [enum_simps]: "ParseRestartMode s =
    (if s = '''' \<or> s = ''normal'' then Inr RestartModeNormal
     else if s = ''direct'' then Inr RestartModeDirect
     else Inl (UnknownValue s))"

subsection \<open>The contract of a configuration enum\<close>

text \<open>
  What the loader and the status printer rely on for a configuration enum: the printed form of
  a constant is parsed back to it, the empty value selects the default, a parser accepts nothing
  but the printed forms and the empty value, and reports the value it rejects.
\<close>

locale config_enum =
  fixes iota :: "'e \<Rightarrow> byte"
    and str :: "byte \<Rightarrow> string"
    and parse :: "string \<Rightarrow> (enum_error, 'e) result"
    and dflt :: 'e
  assumes parse_str: "parse (str (iota x)) = Inr x"
    and parse_empty: "parse [] = Inr dflt"
    and parse_accepts: "parse s = Inr x \<Longrightarrow> s = [] \<or> s = str (iota x)"
    and parse_rejects: "parse s = Inl e \<Longrightarrow> e = UnknownValue s"
    and str_nonempty: "str (iota x) \<noteq> []"
begin

lemma str_inj: "str (iota x) = str (iota y) \<Longrightarrow> x = y"
  by (metis parse_str Inr_inject)

lemma iota_inj: "iota x = iota y \<Longrightarrow> x = y"
  by (metis str_inj)

lemma parse_iff: "parse s = Inr x \<longleftrightarrow> s = str (iota x) \<or> (s = [] \<and> x = dflt)"
  using parse_str parse_empty parse_accepts by force

lemma parse_error_iff: "parse s = Inl e \<longleftrightarrow> e = UnknownValue s \<and> s \<noteq> [] \<and> s \<notin> (\<lambda>x. str (iota x)) ` UNIV"
proof (cases "parse s")
  case (Inl a)
  with parse_rejects parse_empty parse_str show ?thesis by fastforce
next
  case (Inr b)
  with parse_accepts show ?thesis by auto
qed

end

interpretation system_action: config_enum iota_SystemAction SystemAction_String ParseSystemAction ActionNone
proof
  show "ParseSystemAction (SystemAction_String (iota_SystemAction x)) = Inr x" for x
    by (cases x) (simp_all add: enum_simps)
  show "SystemAction_String (iota_SystemAction x) \<noteq> []" for x
    by (cases x) (simp_all add: enum_simps)
qed (auto simp: enum_simps split: if_splits)

interpretation oom_policy: config_enum iota_OOMPolicy OOMPolicy_String ParseOOMPolicy OOMContinue
proof
  show "ParseOOMPolicy (OOMPolicy_String (iota_OOMPolicy x)) = Inr x" for x
    by (cases x) (simp_all add: enum_simps)
  show "OOMPolicy_String (iota_OOMPolicy x) \<noteq> []" for x
    by (cases x) (simp_all add: enum_simps)
qed (auto simp: enum_simps split: if_splits)

interpretation timeout_failure_mode:
  config_enum iota_TimeoutFailureMode TimeoutFailureMode_String ParseTimeoutFailureMode TimeoutFailureTerminate
proof
  show "ParseTimeoutFailureMode (TimeoutFailureMode_String (iota_TimeoutFailureMode x)) = Inr x" for x
    by (cases x) (simp_all add: enum_simps)
qed (auto simp: enum_simps split: if_splits)

interpretation exit_type: config_enum iota_ExitType ExitType_String ParseExitType ExitTypeMain
proof
  show "ParseExitType (ExitType_String (iota_ExitType x)) = Inr x" for x
    by (cases x) (simp_all add: enum_simps)
qed (auto simp: enum_simps split: if_splits)

interpretation notify_access:
  config_enum iota_NotifyAccess NotifyAccess_String ParseNotifyAccess NotifyAccessMain
proof
  show "ParseNotifyAccess (NotifyAccess_String (iota_NotifyAccess x)) = Inr x" for x
    by (cases x) (simp_all add: enum_simps)
qed (auto simp: enum_simps split: if_splits)

interpretation kill_mode: config_enum iota_KillMode KillMode_String ParseKillMode KillModeProcess
proof
  show "ParseKillMode (KillMode_String (iota_KillMode x)) = Inr x" for x
    by (cases x) (simp_all add: enum_simps)
qed (auto simp: enum_simps split: if_splits)

interpretation restart_mode: config_enum iota_RestartMode RestartMode_String ParseRestartMode RestartModeNormal
proof
  show "ParseRestartMode (RestartMode_String (iota_RestartMode x)) = Inr x" for x
    by (cases x) (simp_all add: enum_simps)
qed (auto simp: enum_simps split: if_splits)

section \<open>Exit status\<close>

text \<open>
  \<open>syscall.WaitStatus\<close> on Linux is the raw \<open>uint32\<close> of \<open>wait4(2)\<close>: the low seven bits are 0 for a
  normal exit and 0x7F for a stopped child, any other value is the terminating signal; bit 7 is the
  core-dump flag and the next byte the exit code.
\<close>

type_synonym WaitStatus = u32

definition ws_exited :: "WaitStatus \<Rightarrow> bool" where
  "ws_exited w \<longleftrightarrow> w AND 0x7F = 0"

definition ws_signaled :: "WaitStatus \<Rightarrow> bool" where
  "ws_signaled w \<longleftrightarrow> w AND 0x7F \<noteq> 0x7F \<and> w AND 0x7F \<noteq> 0"

definition ws_exit_status :: "WaitStatus \<Rightarrow> int" where
  "ws_exit_status w = (if ws_exited w then uint (drop_bit 8 w AND 0xFF) else -1)"

definition ws_signal :: "WaitStatus \<Rightarrow> signal" where
  "ws_signal w = (if ws_signaled w then uint (w AND 0x7F) else -1)"

definition ws_core_dump :: "WaitStatus \<Rightarrow> bool" where
  "ws_core_dump w \<longleftrightarrow> ws_signaled w \<and> w AND 0x80 \<noteq> 0"

record ExitStatus =
  es_WaitStatus :: WaitStatus
  HasStatus :: bool
  ExecFailed :: bool
  ExecStage :: byte
  ExecErrno :: "32 word"

definition no_exit_status :: ExitStatus where
  "no_exit_status = \<lparr>es_WaitStatus = 0, HasStatus = False, ExecFailed = False, ExecStage = 0, ExecErrno = 0\<rparr>"

definition Exited :: "ExitStatus \<Rightarrow> bool" where
  "Exited e \<longleftrightarrow> HasStatus e \<and> ws_exited (es_WaitStatus e)"

definition ExitCode :: "ExitStatus \<Rightarrow> int" where
  "ExitCode e = (if Exited e then ws_exit_status (es_WaitStatus e) else -1)"

definition Signaled :: "ExitStatus \<Rightarrow> bool" where
  "Signaled e \<longleftrightarrow> HasStatus e \<and> ws_signaled (es_WaitStatus e)"

definition exit_Signal :: "ExitStatus \<Rightarrow> signal" where
  "exit_Signal e = ws_signal (es_WaitStatus e)"

definition SiCode :: "ExitStatus \<Rightarrow> int" where
  "SiCode e =
    (if \<not> HasStatus e then 0
     else if ExecFailed e then 0
     else if ws_exited (es_WaitStatus e) then 1
     else if ws_signaled (es_WaitStatus e)
       then (if ws_core_dump (es_WaitStatus e) then 3 else 2)
     else 0)"

definition SiStatus :: "ExitStatus \<Rightarrow> int" where
  "SiStatus e =
    (if \<not> HasStatus e then 0
     else if ws_exited (es_WaitStatus e) then ws_exit_status (es_WaitStatus e)
     else if ws_signaled (es_WaitStatus e) then ws_signal (es_WaitStatus e)
     else 0)"

text \<open>\<open>ServiceFlags\<close>: the behavioural flags of a service.\<close>

record ServiceFlags =
  RWReadyFlag :: bool
  LogReadyFlag :: bool
  RunsOnConsole :: bool
  StartsOnConsole :: bool
  SharesConsole :: bool
  PassCSFD :: bool
  StartInterruptible :: bool
  Skippable :: bool
  SignalProcessOnly :: bool
  AlwaysChain :: bool
  KillAllOnStop :: bool
  UnmaskIntr :: bool

lemma not_exited_and_signaled: "Exited e \<Longrightarrow> \<not> Signaled e"
  by (simp add: Exited_def Signaled_def ws_exited_def ws_signaled_def)

lemma ws_exit_status_byte: "ws_exited w \<Longrightarrow> 0 \<le> ws_exit_status w \<and> ws_exit_status w \<le> 255"
proof -
  have "drop_bit 8 w AND 0xFF \<le> (0xFF :: u32)"
    by (rule word_and_le1)
  then show "ws_exited w \<Longrightarrow> 0 \<le> ws_exit_status w \<and> ws_exit_status w \<le> 255"
    by (simp add: ws_exit_status_def word_le_def)
qed

lemma ws_signal_range: "ws_signaled w \<Longrightarrow> 1 \<le> ws_signal w \<and> ws_signal w \<le> 126"
proof -
  assume s: "ws_signaled w"
  have le: "uint (w AND 0x7F) \<le> 127"
    using word_and_le1 [of w "0x7F"] by (simp add: word_le_def)
  have ne: "uint (w AND 0x7F) \<noteq> 127" "uint (w AND 0x7F) \<noteq> 0"
    using s by (simp_all add: ws_signaled_def word_uint_eq_iff)
  have "1 \<le> uint (w AND 0x7F)" "uint (w AND 0x7F) \<le> 126"
    using ne le uint_ge_0 [of "w AND 0x7F"] by linarith+
  with s show ?thesis by (simp add: ws_signal_def)
qed

text \<open>
  Every configuration enum of \<open>types.go\<close> round-trips: the \<open>String\<close> form of each declared
  constant is accepted by the matching \<open>Parse\<close> function and gives that constant back.
\<close>

lemma config_enums_roundtrip:
  "ParseSystemAction (SystemAction_String (iota_SystemAction a)) = Inr a
   \<and> ParseOOMPolicy (OOMPolicy_String (iota_OOMPolicy p)) = Inr p
   \<and> ParseTimeoutFailureMode (TimeoutFailureMode_String (iota_TimeoutFailureMode m)) = Inr m
   \<and> ParseExitType (ExitType_String (iota_ExitType t)) = Inr t
   \<and> ParseNotifyAccess (NotifyAccess_String (iota_NotifyAccess n)) = Inr n
   \<and> ParseKillMode (KillMode_String (iota_KillMode k)) = Inr k
   \<and> ParseRestartMode (RestartMode_String (iota_RestartMode r)) = Inr r"
  by (intro conjI system_action.parse_str oom_policy.parse_str timeout_failure_mode.parse_str
      exit_type.parse_str notify_access.parse_str kill_mode.parse_str restart_mode.parse_str)

text \<open>
  The siginfo pair sent on the wire classifies a recorded wait status: code 1 exactly
  for a normal exit, whose status is then the exit code in 0..255; code 2 or 3 (core dump) exactly
  for a death by signal, whose status is then the signal in 1..126; no exec failure reports a code.
\<close>

lemma siginfo_classifies:
  assumes "HasStatus e" and "\<not> ExecFailed e"
  shows "(SiCode e = 1 \<longleftrightarrow> Exited e) \<and> (SiCode e \<in> {2, 3} \<longleftrightarrow> Signaled e)
    \<and> (SiCode e = 3 \<longleftrightarrow> ws_core_dump (es_WaitStatus e))
    \<and> (Exited e \<longrightarrow> SiStatus e = ExitCode e \<and> 0 \<le> SiStatus e \<and> SiStatus e \<le> 255)
    \<and> (Signaled e \<longrightarrow> SiStatus e = exit_Signal e \<and> 1 \<le> SiStatus e \<and> SiStatus e \<le> 126)"
proof -
  let ?w = "es_WaitStatus e"
  have excl: "\<not> (ws_exited ?w \<and> ws_signaled ?w)"
    by (simp add: ws_exited_def ws_signaled_def)
  have "Exited e \<Longrightarrow> SiStatus e = ExitCode e \<and> 0 \<le> SiStatus e \<and> SiStatus e \<le> 255"
    using assms ws_exit_status_byte [of ?w] by (simp add: Exited_def ExitCode_def SiStatus_def)
  moreover have "Signaled e \<Longrightarrow> SiStatus e = exit_Signal e \<and> 1 \<le> SiStatus e \<and> SiStatus e \<le> 126"
    using assms excl ws_signal_range [of ?w] by (auto simp: Signaled_def exit_Signal_def SiStatus_def)
  ultimately show ?thesis
    using assms excl by (auto simp: SiCode_def Exited_def Signaled_def ws_core_dump_def)
qed

text \<open>The child was killed by signal 9 and dumped core (raw status 0x89).\<close>

lemma siginfo_classifies_witness:
  "let e = no_exit_status\<lparr>es_WaitStatus := 0x89, HasStatus := True\<rparr>
   in HasStatus e \<and> \<not> ExecFailed e \<and> SiCode e = 3 \<and> Signaled e \<and> SiStatus e \<le> 126"
proof -
  let ?e = "no_exit_status\<lparr>es_WaitStatus := 0x89, HasStatus := True\<rparr>"
  have h: "HasStatus ?e" "\<not> ExecFailed ?e" by (simp_all add: no_exit_status_def)
  have s: "Signaled ?e" by (simp add: Signaled_def ws_signaled_def no_exit_status_def)
  have c: "ws_core_dump (es_WaitStatus ?e)" by (simp add: ws_core_dump_def ws_signaled_def no_exit_status_def)
  from siginfo_classifies [OF h] h s c show ?thesis unfolding Let_def by blast
qed

end
