(* ===== verification/Protocol.thy ===== *)
theory Protocol
  imports Wire Types
begin

text \<open>
  \<open>pkg/control/protocol.go\<close>: the messages of the control socket.  One definition per \<open>Encode\<close> and
  \<open>Decode\<close> function, in the order of the file; a buffer that Go allocates and fills by offsets is the
  concatenation of its fields.  The codes of commands, replies and notifications are tables.
\<close>

unbundle bit_operations_syntax

section \<open>Codes\<close>

definition command_codes :: "(string \<times> byte) list" where
  "command_codes =
   [(''CmdQueryVersion'', 0), (''CmdFindService'', 1), (''CmdLoadService'', 2),
    (''CmdStartService'', 3), (''CmdStopService'', 4), (''CmdWakeService'', 5),
    (''CmdReleaseService'', 6), (''CmdUnpinService'', 7), (''CmdListServices'', 8),
    (''CmdUnloadService'', 9), (''CmdShutdown'', 10), (''CmdAddDep'', 11), (''CmdRmDep'', 12),
    (''CmdQueryLoadMech'', 13), (''CmdEnableService'', 14), (''CmdQueryServiceName'', 15),
    (''CmdReloadService'', 16), (''CmdSetEnv'', 17), (''CmdServiceStatus'', 18),
    (''CmdSetTrigger'', 19), (''CmdCatLog'', 20), (''CmdSignal'', 21),
    (''CmdQueryServiceDscDir'', 22), (''CmdCloseHandle'', 23), (''CmdGetAllEnv'', 24),
    (''CmdListServices5'', 25), (''CmdServiceStatus5'', 26), (''CmdListenEnv'', 27),
    (''CmdServiceStatus6'', 28), (''CmdEnableServiceV7'', 29), (''CmdBootTime'', 40),
    (''CmdDisableService'', 41), (''CmdQueryDependents'', 42), (''CmdPauseService'', 43),
    (''CmdContinueService'', 44), (''CmdOnceService'', 45), (''CmdQueryDependencies'', 46),
    (''CmdQueryDescription'', 47), (''CmdRunAction'', 48), (''CmdListActions'', 49),
    (''CmdScheduleShutdown'', 35), (''CmdCancelShutdown'', 36), (''CmdQueryShutdown'', 37),
    (''CmdReloadAll'', 38), (''CmdReloadSignal'', 39), (''CmdResetEnv'', 50),
    (''CmdQueryMetadata'', 51), (''CmdActivateProfile'', 52), (''CmdQueryProfile'', 53),
    (''CmdListProfiles'', 54), (''CmdQueryBundleMembers'', 55), (''CmdWallNotice'', 56),
    (''CmdResetFailed'', 57), (''CmdFreezeService'', 58), (''CmdThawService'', 59)]"

definition reply_codes :: "(string \<times> byte) list" where
  "reply_codes =
   [(''RplyACK'', 50), (''RplyNAK'', 51), (''RplyBadReq'', 52), (''RplyOOM'', 53),
    (''RplyServiceLoadErr'', 54), (''RplyServiceOOM'', 55), (''RplyCPVersion'', 58),
    (''RplyServiceRecord'', 59), (''RplyNoService'', 60), (''RplyAlreadySS'', 61),
    (''RplySvcInfo'', 62), (''RplyListDone'', 63), (''RplyLoaderMech'', 64),
    (''RplyDependents'', 65), (''RplyServiceName2'', 66), (''RplyPinnedStopped'', 67),
    (''RplyPinnedStarted'', 68), (''RplyShuttingDown'', 69), (''RplyServiceStatus'', 70),
    (''RplyServiceDescErr'', 71), (''RplyServiceLoadErr2'', 72), (''RplySvcLog'', 73),
    (''RplySignalNoPID'', 74), (''RplySignalBadSig'', 75), (''RplySignalErr'', 76),
    (''RplyServiceDscDir'', 77), (''RplyEnvList'', 78), (''RplyPreACK'', 79),
    (''RplyBootTime'', 90), (''RplyNotStopped'', 91), (''RplyServiceName'', 92),
    (''RplyDependencies'', 93), (''RplyDescription'', 94), (''RplyActionOutput'', 95),
    (''RplyActionList'', 96), (''RplyShutdownStatus'', 97), (''RplyReloadAllResult'', 98),
    (''RplyMetadata'', 99), (''RplyProfile'', 110), (''RplyProfileList'', 111),
    (''RplyActivateResult'', 112), (''RplyBundleMembers'', 113), (''RplyManualRefused'', 114)]"

definition info_codes :: "(string \<times> byte) list" where
  "info_codes =
   [(''InfoServiceEvent'', 100), (''InfoServiceEvent5'', 101), (''InfoEnvEvent'', 102)]"

definition CPVersion :: u16 where "CPVersion = 7"
definition MinCompatVersion :: u16 where "MinCompatVersion = 1"

definition StatusFlagHasPID :: byte where "StatusFlagHasPID = push_bit 0 1"
definition StatusFlagMarkedActive :: byte where "StatusFlagMarkedActive = push_bit 1 1"
definition StatusFlagWaitingDeps :: byte where "StatusFlagWaitingDeps = push_bit 2 1"
definition StatusFlagHasConsole :: byte where "StatusFlagHasConsole = push_bit 3 1"
definition StatusFlagStartFailed :: byte where "StatusFlagStartFailed = push_bit 4 1"

definition MaxPayloadSize :: nat where "MaxPayloadSize = 65535"
definition CatLogFlagClear :: byte where "CatLogFlagClear = push_bit 0 1"
definition EnvEventFlagOverride :: byte where "EnvEventFlagOverride = 1"

section \<open>Packets\<close>

text \<open>
  A writer is given by which of its \<open>Write\<close> calls succeed; the result holds the chunks that were
  written.  A reader is the bytes it still has to deliver.
\<close>

definition WritePacket :: "(bytes \<Rightarrow> bool) \<Rightarrow> byte \<Rightarrow> bytes \<Rightarrow> wire_error option \<times> bytes list" where
  "WritePacket write pktType payload =
    (let pLen = length payload; hdr = pktType # PutUint16 (of_nat pLen) in
     if pLen > MaxPayloadSize then (Some PayloadTooLarge, [])
     else if pLen \<le> 256 then
       (let buf = hdr @ payload in if write buf then (None, [buf]) else (Some WriteFailed, []))
     else if \<not> write hdr then (Some WriteFailed, [])
     else if pLen > 0 then
       (if write payload then (None, [hdr, payload]) else (Some WriteFailed, [hdr]))
     else (None, [hdr]))"

definition ReadFull :: "nat \<Rightarrow> bytes \<Rightarrow> (wire_error, bytes \<times> bytes) result" where
  "ReadFull n r = (if length r < n then Inl UnexpectedEOF else Inr (take n r, drop n r))"

definition ReadPacket :: "bytes \<Rightarrow> (wire_error, byte \<times> bytes \<times> bytes) result" where
  "ReadPacket r =
    rbind (ReadFull 3 r) (\<lambda>(hdr, r).
    rbind (at_index hdr 0) (\<lambda>pktType.
    rbind (rbind (slice_from hdr 1) Uint16) (\<lambda>pLen.
    if unat pLen > MaxPayloadSize then Inl PayloadTooLarge
    else if pLen > 0 then
      rbind (ReadFull (unat pLen) r) (\<lambda>(payload, r). Inr (pktType, payload, r))
    else Inr (pktType, [], r))))"

section \<open>Names and handles\<close>

definition EncodeServiceName :: "bytes \<Rightarrow> bytes" where
  "EncodeServiceName name = PutUint16 (of_nat (length name)) @ name"

definition DecodeServiceName :: "bytes \<Rightarrow> (wire_error, bytes \<times> nat) result" where
  "DecodeServiceName data =
    (if length data < 2 then Inl TooShort
     else rbind (Uint16 data) (\<lambda>nl. let nameLen = unat nl in
       if length data < 2 + nameLen then Inl TooShort
       else rbind (slice data 2 (2 + nameLen)) (\<lambda>name. Inr (name, 2 + nameLen))))"

definition EncodeMetadata :: "bytes \<Rightarrow> bytes \<Rightarrow> bytes \<Rightarrow> bytes" where
  "EncodeMetadata author version usage =
    EncodeServiceName author @ EncodeServiceName version @ EncodeServiceName usage"

definition DecodeMetadata :: "bytes \<Rightarrow> (wire_error, bytes \<times> bytes \<times> bytes) result" where
  "DecodeMetadata data =
    rbind (DecodeServiceName data) (\<lambda>(author, n). rbind (slice_from data n) (\<lambda>data.
    rbind (DecodeServiceName data) (\<lambda>(version, n). rbind (slice_from data n) (\<lambda>data.
    rbind (DecodeServiceName data) (\<lambda>(usage, n). Inr (author, version, usage))))))"

definition EncodeHandle :: "u32 \<Rightarrow> bytes" where
  "EncodeHandle h = PutUint32 h"

definition DecodeHandle :: "bytes \<Rightarrow> (wire_error, u32) result" where
  "DecodeHandle data = (if length data < 4 then Inl TooShort else Uint32 data)"

section \<open>Service status\<close>

text \<open>What the encoders read from a \<open>service.Service\<close>; a zero modification time is \<open>None\<close>.\<close>

record svc_view =
  sv_Name :: bytes
  sv_State :: ServiceState
  sv_TargetState :: ServiceState
  sv_Type :: ServiceType
  sv_PID :: int
  sv_IsMarkedActive :: bool
  sv_HasConsole :: bool
  sv_DidStartFail :: bool
  sv_StopReason :: StoppedReason
  sv_ExitStatus :: ExitStatus
  sv_LoadModTime :: "int option"

definition encodeStatusFlags :: "svc_view \<Rightarrow> byte" where
  "encodeStatusFlags svc =
    (if sv_PID svc > 0 then StatusFlagHasPID else 0)
    OR (if sv_IsMarkedActive svc then StatusFlagMarkedActive else 0)
    OR (if sv_HasConsole svc then StatusFlagHasConsole else 0)
    OR (if sv_DidStartFail svc then StatusFlagStartFailed else 0)"

record ServiceStatusInfo =
  State :: byte
  TargetState :: byte
  SvcType :: byte
  Flags :: byte
  PID :: int
  si_ExitStatus :: int

definition EncodeServiceStatus :: "svc_view \<Rightarrow> bytes" where
  "EncodeServiceStatus svc =
    [iota_ServiceState (sv_State svc), iota_ServiceState (sv_TargetState svc),
     iota_ServiceType (sv_Type svc), encodeStatusFlags svc]
    @ PutUint32 (word_of_int (sv_PID svc)) @ PutUint32 (word_of_int (ExitCode (sv_ExitStatus svc)))"

definition DecodeServiceStatus :: "bytes \<Rightarrow> (wire_error, ServiceStatusInfo) result" where
  "DecodeServiceStatus data =
    (if length data < 12 then Inl TooShort
     else rbind (at_index data 0) (\<lambda>st. rbind (at_index data 1) (\<lambda>ta.
          rbind (at_index data 2) (\<lambda>ty. rbind (at_index data 3) (\<lambda>fl.
          rbind (rbind (slice_from data 4) Uint32) (\<lambda>pid. rbind (rbind (slice_from data 8) Uint32) (\<lambda>es.
          Inr \<lparr>State = st, TargetState = ta, SvcType = ty, Flags = fl, PID = int32_of pid,
               si_ExitStatus = int32_of es\<rparr>)))))))"

record ServiceStatusInfo5 =
  State5 :: byte
  TargetState5 :: byte
  Flags5 :: byte
  StopReason5 :: byte
  ExecStage5 :: u16
  SiCode5 :: int
  SiStatus5 :: int

text \<open>After a failed exec the last four bytes of the zeroed buffer are not written.\<close>

definition EncodeServiceStatus5 :: "svc_view \<Rightarrow> bytes" where
  "EncodeServiceStatus5 svc =
    [iota_ServiceState (sv_State svc), iota_ServiceState (sv_TargetState svc),
     encodeStatusFlags svc, iota_StoppedReason (sv_StopReason svc)]
    @ (let es = sv_ExitStatus svc in
       if ExecFailed es then PutUint16 (ucast (ExecStage es)) @ PutUint32 (ExecErrno es) @ [0, 0, 0, 0]
       else PutUint16 0 @ PutUint32 (word_of_int (SiCode es)) @ PutUint32 (word_of_int (SiStatus es)))"

definition DecodeServiceStatus5 :: "bytes \<Rightarrow> (wire_error, ServiceStatusInfo5) result" where
  "DecodeServiceStatus5 data =
    (if length data < 14 then Inl TooShort
     else rbind (at_index data 0) (\<lambda>st. rbind (at_index data 1) (\<lambda>ta.
          rbind (at_index data 2) (\<lambda>fl. rbind (at_index data 3) (\<lambda>sr.
          rbind (rbind (slice_from data 4) Uint16) (\<lambda>stage.
          rbind (rbind (slice_from data 6) Uint32) (\<lambda>code. rbind (rbind (slice_from data 10) Uint32) (\<lambda>status.
          Inr \<lparr>State5 = st, TargetState5 = ta, Flags5 = fl, StopReason5 = sr, ExecStage5 = stage,
               SiCode5 = int32_of code, SiStatus5 = int32_of status\<rparr>))))))))"

definition EncodeSvcInfo5 :: "svc_view \<Rightarrow> bytes" where
  "EncodeSvcInfo5 svc =
    PutUint16 (of_nat (length (sv_Name svc))) @ sv_Name svc @ EncodeServiceStatus5 svc"

definition DecodeSvcInfo5 :: "bytes \<Rightarrow> (wire_error, (bytes \<times> ServiceStatusInfo5) \<times> nat) result" where
  "DecodeSvcInfo5 data =
    rbind (DecodeServiceName data) (\<lambda>(name, n).
    if length data < n + 14 then Inl TooShort
    else rbind (rbind (slice_from data n) DecodeServiceStatus5) (\<lambda>status. Inr ((name, status), n + 14)))"

definition EncodeServiceEvent5 :: "u32 \<Rightarrow> byte \<Rightarrow> svc_view \<Rightarrow> bytes" where
  "EncodeServiceEvent5 handle event svc = PutUint32 handle @ [event] @ EncodeServiceStatus5 svc"

definition DecodeServiceEvent5 :: "bytes \<Rightarrow> (wire_error, u32 \<times> byte \<times> ServiceStatusInfo5) result" where
  "DecodeServiceEvent5 data =
    (if length data < 19 then Inl TooShort
     else rbind (Uint32 data) (\<lambda>handle. rbind (at_index data 4) (\<lambda>event.
          rbind (rbind (slice_from data 5) DecodeServiceStatus5) (\<lambda>status. Inr (handle, event, status)))))"

record SvcInfoEntry =
  Name :: bytes
  e_State :: byte
  e_TargetState :: byte
  e_SvcType :: byte
  e_Flags :: byte
  e_PID :: int

definition EncodeSvcInfo :: "svc_view \<Rightarrow> bytes" where
  "EncodeSvcInfo svc =
    PutUint16 (of_nat (length (sv_Name svc))) @ sv_Name svc
    @ [iota_ServiceState (sv_State svc), iota_ServiceState (sv_TargetState svc),
       iota_ServiceType (sv_Type svc), encodeStatusFlags svc]
    @ PutUint32 (word_of_int (sv_PID svc))"

definition DecodeSvcInfo :: "bytes \<Rightarrow> (wire_error, SvcInfoEntry \<times> nat) result" where
  "DecodeSvcInfo data =
    rbind (DecodeServiceName data) (\<lambda>(name, n).
    if length data < n + 8 then Inl TooShort
    else rbind (at_index data n) (\<lambda>st. rbind (at_index data (n + 1)) (\<lambda>ta.
         rbind (at_index data (n + 2)) (\<lambda>ty. rbind (at_index data (n + 3)) (\<lambda>fl.
         rbind (rbind (slice_from data (n + 4)) Uint32) (\<lambda>pid.
         Inr (\<lparr>Name = name, e_State = st, e_TargetState = ta, e_SvcType = ty, e_Flags = fl,
               e_PID = int32_of pid\<rparr>, n + 8)))))))"

section \<open>Boot timing\<close>

record BootTimeEntry =
  bt_Name :: bytes
  StartupNs :: int
  bt_State :: byte
  bt_SvcType :: byte
  bt_PID :: int

record BootTimeInfo =
  KernelUptimeNs :: int
  BootStartNs :: int
  BootReadyNs :: int
  BootSvcName :: bytes
  Services :: "BootTimeEntry list"

definition encode_boot_entry :: "BootTimeEntry \<Rightarrow> bytes" where
  "encode_boot_entry s =
    PutUint16 (of_nat (length (bt_Name s))) @ bt_Name s @ PutUint64 (word_of_int (StartupNs s))
    @ [bt_State s, bt_SvcType s] @ PutUint32 (word_of_int (bt_PID s))"

definition EncodeBootTime :: "BootTimeInfo \<Rightarrow> bytes" where
  "EncodeBootTime info =
    PutUint64 (word_of_int (KernelUptimeNs info)) @ PutUint64 (word_of_int (BootStartNs info))
    @ PutUint64 (word_of_int (BootReadyNs info))
    @ PutUint16 (of_nat (length (BootSvcName info))) @ BootSvcName info
    @ PutUint16 (of_nat (length (Services info))) @ concat (map encode_boot_entry (Services info))"

fun decode_boot_entries :: "nat \<Rightarrow> bytes \<Rightarrow> nat \<Rightarrow> (wire_error, BootTimeEntry list) result" where
  "decode_boot_entries 0 data off = Inr []"
| "decode_boot_entries (Suc i) data off =
    (if length data < off + 2 then Inl TooShort
     else rbind (rbind (slice_from data off) Uint16) (\<lambda>nl. let sNameLen = unat nl; off = off + 2 in
       if length data < off + sNameLen + 14 then Inl TooShort
       else rbind (slice data off (off + sNameLen)) (\<lambda>name.
            rbind (rbind (slice_from data (off + sNameLen)) Uint64) (\<lambda>ns.
            rbind (at_index data (off + sNameLen + 8)) (\<lambda>st.
            rbind (at_index data (off + sNameLen + 9)) (\<lambda>ty.
            rbind (rbind (slice_from data (off + sNameLen + 10)) Uint32) (\<lambda>pid.
            rbind (decode_boot_entries i data (off + (sNameLen + 14))) (\<lambda>es.
            Inr (\<lparr>bt_Name = name, StartupNs = int64_of ns, bt_State = st, bt_SvcType = ty,
                  bt_PID = int32_of pid\<rparr> # es))))))))) "

definition DecodeBootTime :: "bytes \<Rightarrow> (wire_error, BootTimeInfo) result" where
  "DecodeBootTime data =
    (if length data < 28 then Inl TooShort
     else rbind (Uint64 data) (\<lambda>ku. rbind (rbind (slice_from data 8) Uint64) (\<lambda>bs.
          rbind (rbind (slice_from data 16) Uint64) (\<lambda>br.
          if length data < 24 + 2 then Inl TooShort
          else rbind (rbind (slice_from data 24) Uint16) (\<lambda>nl. let nameLen = unat nl; off = 26 in
            if length data < off + nameLen then Inl TooShort
            else rbind (slice data off (off + nameLen)) (\<lambda>name. let off = off + nameLen in
              if length data < off + 2 then Inl TooShort
              else rbind (rbind (slice_from data off) Uint16) (\<lambda>numSvcs.
                rbind (decode_boot_entries (unat numSvcs) data (off + 2)) (\<lambda>es.
                Inr \<lparr>KernelUptimeNs = int64_of ku, BootStartNs = int64_of bs, BootReadyNs = int64_of br,
                     BootSvcName = name, Services = es\<rparr>))))))))"

section \<open>Logs\<close>

definition EncodeCatLogRequest :: "u32 \<Rightarrow> bool \<Rightarrow> bytes" where
  "EncodeCatLogRequest handle clear = (if clear then CatLogFlagClear else 0) # PutUint32 handle"

definition DecodeCatLogRequest :: "bytes \<Rightarrow> (wire_error, byte \<times> u32) result" where
  "DecodeCatLogRequest data =
    (if length data < 5 then Inl TooShort
     else rbind (at_index data 0) (\<lambda>flags. rbind (rbind (slice_from data 1) Uint32) (\<lambda>h. Inr (flags, h))))"

definition EncodeSvcLog :: "bytes \<Rightarrow> bytes" where
  "EncodeSvcLog logData = 0 # PutUint32 (of_nat (length logData)) @ logData"

text \<open>The bound check is in \<open>uint32\<close> and so is the sum \<open>5+bufLen\<close>, also as the slice bound.\<close>

definition DecodeSvcLog :: "bytes \<Rightarrow> (wire_error, byte \<times> bytes) result" where
  "DecodeSvcLog data =
    (if length data < 5 then Inl TooShort
     else rbind (at_index data 0) (\<lambda>flags. rbind (rbind (slice_from data 1) Uint32) (\<lambda>bufLen.
       if (of_nat (length data) :: u32) < 5 + bufLen then Inl TooShort
       else rbind (slice data 5 (unat (5 + bufLen))) (\<lambda>logData. Inr (flags, logData)))))"

section \<open>Environment\<close>

definition EncodeSetEnv :: "u32 \<Rightarrow> bytes \<Rightarrow> bytes \<Rightarrow> bool \<Rightarrow> bytes" where
  "EncodeSetEnv handle key value unset =
    (let valBytes = (if unset then [] else value) in
     PutUint32 handle @ PutUint16 (of_nat (length key)) @ key @ PutUint16 (of_nat (length valBytes)) @ valBytes)"

definition DecodeSetEnv :: "bytes \<Rightarrow> (wire_error, u32 \<times> bytes \<times> bytes \<times> bool) result" where
  "DecodeSetEnv data =
    (if length data < 8 then Inl TooShort
     else rbind (Uint32 data) (\<lambda>handle. rbind (rbind (slice_from data 4) Uint16) (\<lambda>nl. let nameLen = unat nl in
       if length data < 6 + nameLen + 2 then Inl TooShort
       else rbind (slice data 6 (6 + nameLen)) (\<lambda>key. let off = 6 + nameLen in
         rbind (rbind (slice_from data off) Uint16) (\<lambda>vl. let valueLen = unat vl in
         if valueLen = 0 then Inr (handle, key, [], True)
         else if length data < off + 2 + valueLen then Inl TooShort
         else rbind (slice data (off + 2) (off + 2 + valueLen)) (\<lambda>value. Inr (handle, key, value, False)))))))"

definition encode_env_pair :: "bytes \<times> bytes \<Rightarrow> bytes" where
  "encode_env_pair kv =
    PutUint16 (of_nat (length (fst kv))) @ fst kv @ PutUint16 (of_nat (length (snd kv))) @ snd kv"

text \<open>The Go map is given by the list of its pairs in the order the iteration yields them.\<close>

definition EncodeEnvList :: "(bytes \<times> bytes) list \<Rightarrow> bytes" where
  "EncodeEnvList env = PutUint16 (of_nat (length env)) @ concat (map encode_env_pair env)"

fun decode_env_pairs ::
  "nat \<Rightarrow> bytes \<Rightarrow> nat \<Rightarrow> (bytes \<rightharpoonup> bytes) \<Rightarrow> (wire_error, bytes \<rightharpoonup> bytes) result" where
  "decode_env_pairs 0 data off env = Inr env"
| "decode_env_pairs (Suc i) data off env =
    (if length data < off + 2 then Inl TooShort
     else rbind (rbind (slice_from data off) Uint16) (\<lambda>kl. let kLen = unat kl; off = off + 2 in
       if length data < off + kLen + 2 then Inl TooShort
       else rbind (slice data off (off + kLen)) (\<lambda>key. let off = off + kLen in
         rbind (rbind (slice_from data off) Uint16) (\<lambda>vl. let vLen = unat vl; off = off + 2 in
         if length data < off + vLen then Inl TooShort
         else rbind (slice data off (off + vLen)) (\<lambda>value.
              decode_env_pairs i data (off + vLen) (env(key \<mapsto> value)))))))"

definition DecodeEnvList :: "bytes \<Rightarrow> (wire_error, bytes \<rightharpoonup> bytes) result" where
  "DecodeEnvList data =
    (if length data < 2 then Inl TooShort
     else rbind (Uint16 data) (\<lambda>count. decode_env_pairs (unat count) data 2 Map.empty))"

section \<open>Dependencies and events\<close>

definition EncodeDepRequest :: "u32 \<Rightarrow> u32 \<Rightarrow> byte \<Rightarrow> bytes" where
  "EncodeDepRequest handleFrom handleTo depType = PutUint32 handleFrom @ PutUint32 handleTo @ [depType]"

definition DecodeDepRequest :: "bytes \<Rightarrow> (wire_error, u32 \<times> u32 \<times> byte) result" where
  "DecodeDepRequest data =
    (if length data < 9 then Inl TooShort
     else rbind (Uint32 data) (\<lambda>hf. rbind (rbind (slice_from data 4) Uint32) (\<lambda>ht.
          rbind (at_index data 8) (\<lambda>ty. Inr (hf, ht, ty)))))"

definition EncodeServiceEvent :: "u32 \<Rightarrow> byte \<Rightarrow> svc_view \<Rightarrow> bytes" where
  "EncodeServiceEvent handle event svc = PutUint32 handle @ [event] @ EncodeServiceStatus svc"

definition DecodeServiceEvent :: "bytes \<Rightarrow> (wire_error, u32 \<times> byte \<times> ServiceStatusInfo) result" where
  "DecodeServiceEvent data =
    (if length data < 17 then Inl TooShort
     else rbind (Uint32 data) (\<lambda>handle. rbind (at_index data 4) (\<lambda>event.
          rbind (rbind (slice_from data 5) DecodeServiceStatus) (\<lambda>status. Inr (handle, event, status)))))"

definition EncodeEnvEvent :: "bytes \<Rightarrow> bool \<Rightarrow> bytes" where
  "EncodeEnvEvent varString override =
    (if override then EnvEventFlagOverride else 0) # PutUint16 (of_nat (length varString)) @ varString"

definition DecodeEnvEvent :: "bytes \<Rightarrow> (wire_error, byte \<times> bytes) result" where
  "DecodeEnvEvent data =
    (if length data < 3 then Inl TooShort
     else rbind (at_index data 0) (\<lambda>flags. rbind (rbind (slice_from data 1) Uint16) (\<lambda>vl. let varLen = unat vl in
       if length data < 3 + varLen then Inl TooShort
       else rbind (slice data 3 (3 + varLen)) (\<lambda>s. Inr (flags, s)))))"

definition EncodeServiceStatus6 :: "svc_view \<Rightarrow> bytes" where
  "EncodeServiceStatus6 svc =
    EncodeServiceStatus5 svc
    @ (case sv_LoadModTime svc of Some t \<Rightarrow> PutUint64 (word_of_int t) | None \<Rightarrow> replicate 8 0)"

definition DecodeServiceStatus6 :: "bytes \<Rightarrow> (wire_error, ServiceStatusInfo5 \<times> int) result" where
  "DecodeServiceStatus6 data =
    (if length data < 22 then Inl TooShort
     else rbind (DecodeServiceStatus5 data) (\<lambda>s5.
          rbind (rbind (slice_from data 14) Uint64) (\<lambda>t. Inr (s5, int64_of t))))"

section \<open>Profile results\<close>

definition EncodeStringList :: "bytes list \<Rightarrow> bytes" where
  "EncodeStringList items =
    PutUint16 (of_nat (length items)) @ concat (map (\<lambda>s. PutUint16 (of_nat (length s)) @ s) items)"

fun decode_strings :: "nat \<Rightarrow> bytes \<Rightarrow> nat \<Rightarrow> (wire_error, bytes list \<times> nat) result" where
  "decode_strings 0 data off = Inr ([], off)"
| "decode_strings (Suc i) data off =
    (if length data < off + 2 then Inl TooShort
     else rbind (rbind (slice_from data off) Uint16) (\<lambda>l. let sl = unat l; off = off + 2 in
       if length data < off + sl then Inl TooShort
       else rbind (slice data off (off + sl)) (\<lambda>s.
            rbind (decode_strings i data (off + sl)) (\<lambda>(ss, off). Inr (s # ss, off)))))"

definition DecodeStringList :: "bytes \<Rightarrow> (wire_error, bytes list \<times> nat) result" where
  "DecodeStringList data =
    (if length data < 2 then Inl TooShort
     else rbind (Uint16 data) (\<lambda>n. decode_strings (unat n) data 2))"

definition EncodeActivateResult :: "bytes \<Rightarrow> bytes list \<Rightarrow> bytes list \<Rightarrow> bytes list \<Rightarrow> bytes" where
  "EncodeActivateResult active stopped started kept =
    EncodeServiceName active @ EncodeStringList stopped @ EncodeStringList started @ EncodeStringList kept"

definition DecodeActivateResult ::
  "bytes \<Rightarrow> (wire_error, bytes \<times> bytes list \<times> bytes list \<times> bytes list) result" where
  "DecodeActivateResult data =
    rbind (DecodeServiceName data) (\<lambda>(active, n). rbind (slice_from data n) (\<lambda>data.
    rbind (DecodeStringList data) (\<lambda>(stopped, n). rbind (slice_from data n) (\<lambda>data.
    rbind (DecodeStringList data) (\<lambda>(started, n). rbind (slice_from data n) (\<lambda>data.
    rbind (DecodeStringList data) (\<lambda>(kept, n). Inr (active, stopped, started, kept))))))))"

end
