(* ===== verification/Roundtrip.thy ===== *)
theory Roundtrip
  imports Protocol
begin

text \<open>
  The control protocol is lossless and its decoders are safe: every \<open>Decode\<close> function undoes its
  \<open>Encode\<close> function on the values that fit the length fields, also when more bytes follow, and no
  input makes a decoder panic, with one exception (\<open>DecodeSvcLog\<close>) which is characterised exactly.
\<close>

section \<open>Slices of a buffer built by concatenation\<close>

lemma slice_append [simp]:
  "slice (pre @ xs @ r) (length pre) (length pre + length xs) = Inr xs"
  by (simp add: slice_def)

lemma slice_at:
  "i = length pre \<Longrightarrow> j = length pre + length xs \<Longrightarrow> slice (pre @ xs @ r) i j = Inr xs"
  by simp

lemma slice_from_at: "i = length pre \<Longrightarrow> slice_from (pre @ r) i = Inr r"
  by (simp add: slice_from_def)

definition fits_len :: "'a list \<Rightarrow> bool" where
  "fits_len xs \<longleftrightarrow> length xs < 65536"

lemma unat_len [simp]: "fits_len xs \<Longrightarrow> unat (of_nat (length xs) :: u16) = length xs"
  by (simp add: fits_len_def)

lemma not_Panic_if: "(c \<Longrightarrow> r \<noteq> Inl Panic) \<Longrightarrow> (\<not> c \<Longrightarrow> s \<noteq> Inl Panic) \<Longrightarrow> (if c then r else s) \<noteq> Inl Panic"
  by simp

lemma read_not_Panic:
  "i + 2 \<le> length d \<Longrightarrow> rbind (slice_from d i) Uint16 \<noteq> Inl Panic"
  "i + 4 \<le> length d \<Longrightarrow> rbind (slice_from d i) Uint32 \<noteq> Inl Panic"
  "i + 8 \<le> length d \<Longrightarrow> rbind (slice_from d i) Uint64 \<noteq> Inl Panic"
  by (simp_all add: slice_from_def)

lemma rbind_pair_not_Panic:
  "r \<noteq> Inl Panic \<Longrightarrow> (\<And>a b. f a b \<noteq> Inl Panic) \<Longrightarrow> rbind r (\<lambda>(a, b). f a b) \<noteq> Inl Panic"
  by (cases r) auto

lemmas total_intros = read_not_Panic not_Panic_if rbind_not_Panic

section \<open>Packets\<close>

lemma ReadPacket_hdr:
  assumes "fits_len p"
  shows "ReadPacket ((t # PutUint16 (of_nat (length p))) @ p @ rest) = Inr (t, p, rest)"
proof -
  have hdr: "ReadFull 3 ((t # PutUint16 (of_nat (length p))) @ p @ rest) = Inr (t # PutUint16 (of_nat (length p)), p @ rest)"
    by (simp add: ReadFull_def PutUint16_def)
  have pos: "(of_nat (length p) :: u16) > 0 \<longleftrightarrow> p \<noteq> []"
    using unat_len [OF assms] by (auto simp: word_greater_zero_iff unat_eq_0)
  have "\<not> MaxPayloadSize < length p" using assms by (simp add: MaxPayloadSize_def fits_len_def)
  with pos show ?thesis
    unfolding ReadPacket_def hdr
    by (simp add: at_index_def slice_from_def assms ReadFull_def)
qed

lemma WritePacket_bytes:
  assumes "WritePacket write t p = (None, chunks)"
  shows "fits_len p \<and> concat chunks = (t # PutUint16 (of_nat (length p))) @ p"
  using assms
  by (auto simp: WritePacket_def Let_def fits_len_def MaxPayloadSize_def split: if_splits)

text \<open>The packets of a connection, written one after the other, and read back one after the other.\<close>

fun write_all :: "(bytes \<Rightarrow> bool) \<Rightarrow> (byte \<times> bytes) list \<Rightarrow> (wire_error, bytes) result" where
  "write_all wr [] = Inr []"
| "write_all wr ((t, p) # ps) =
    (case WritePacket wr t p of
       (Some e, _) \<Rightarrow> Inl e
     | (None, chunks) \<Rightarrow> rbind (write_all wr ps) (\<lambda>bs. Inr (concat chunks @ bs)))"

fun read_all :: "nat \<Rightarrow> bytes \<Rightarrow> (wire_error, (byte \<times> bytes) list \<times> bytes) result" where
  "read_all 0 r = Inr ([], r)"
| "read_all (Suc n) r =
    rbind (ReadPacket r) (\<lambda>(t, p, r). rbind (read_all n r) (\<lambda>(ps, r). Inr ((t, p) # ps, r)))"

text \<open>
  Property C38.  The packets of a connection survive the stream: whatever was written without error
  is read back packet by packet, the same types and payloads in the same order, and the bytes that
  follow are left in the stream.
\<close>

theorem packet_stream_roundtrip:
  assumes "write_all wr ps = Inr bs"
  shows "read_all (length ps) (bs @ rest) = Inr (ps, rest)"
  using assms
proof (induction ps arbitrary: bs)
  case (Cons tp ps)
  obtain t p where tp: "tp = (t, p)" by (cases tp)
  from Cons.prems tp obtain chunks bs' where w: "WritePacket wr t p = (None, chunks)"
    and bs': "write_all wr ps = Inr bs'" "bs = concat chunks @ bs'"
    by (auto simp: rbind_eq_Inr split: prod.splits option.splits)
  note wp = WritePacket_bytes [OF w]
  then have "ReadPacket (bs @ rest) = Inr (t, p, bs' @ rest)"
    using ReadPacket_hdr [of p t "bs' @ rest"] bs'(2) by simp
  with Cons.IH [OF bs'(1)] tp show ?case by simp
qed simp

theorem packet_stream_roundtrip_witness:
  "let ps = [(3, [1, 2, 3]), (20, []), (50, [255])]; bs = [3, 3, 0, 1, 2, 3, 20, 0, 0, 50, 1, 0, 255]
   in write_all (\<lambda>_. True) ps = Inr bs \<and> read_all 3 (bs @ [9]) = Inr (ps, [9])"
proof -
  have w: "write_all (\<lambda>_. True) [(3, [1, 2, 3]), (20, []), (50, [255])] =
      Inr [3, 3, 0, 1, 2, 3, 20, 0, 0, 50, 1, 0, 255]"
    by (simp add: WritePacket_def MaxPayloadSize_def PutUint16_def)
  from packet_stream_roundtrip [OF w, of "[9]"] w show ?thesis by (simp add: numeral_3_eq_3)
qed

section \<open>Names and lists of names\<close>

interpretation service_name: codec EncodeServiceName DecodeServiceName fits_len
proof
  show "DecodeServiceName (EncodeServiceName x @ rest) = Inr (x, length (EncodeServiceName x))"
    if "fits_len x" for x rest
    using that slice_at [of 2 "PutUint16 (of_nat (length x))" "2 + length x" x rest]
    by (simp add: DecodeServiceName_def EncodeServiceName_def)
  show "DecodeServiceName data \<noteq> Inl Panic" for data
    unfolding DecodeServiceName_def Let_def by (intro total_intros) auto
  show "n \<le> length data" if "DecodeServiceName data = Inr (x, n)" for data x n
    using that by (auto simp: DecodeServiceName_def Let_def rbind_eq_Inr split: if_splits)
qed

definition fits_strings :: "bytes list \<Rightarrow> bool" where
  "fits_strings ss \<longleftrightarrow> fits_len ss \<and> (\<forall>s \<in> set ss. fits_len s)"

lemma decode_strings_enc:
  assumes "\<forall>s \<in> set ss. fits_len s" "off = length pre"
  shows "decode_strings (length ss) (pre @ concat (map (\<lambda>s. PutUint16 (of_nat (length s)) @ s) ss) @ rest) off
    = Inr (ss, off + length (concat (map (\<lambda>s. PutUint16 (of_nat (length s)) @ s) ss)))"
  using assms
proof (induction ss arbitrary: pre off)
  case (Cons s ss)
  let ?h = "PutUint16 (of_nat (length s))"
  let ?tl = "concat (map (\<lambda>s. PutUint16 (of_nat (length s)) @ s) ss) @ rest"
  have s: "fits_len s" using Cons.prems by simp
  have r: "slice_from (pre @ ?h @ s @ ?tl) off = Inr (?h @ s @ ?tl)"
    using Cons.prems(2) by (intro slice_from_at)
  have sl: "slice (pre @ ?h @ s @ ?tl) (off + 2) (off + 2 + length s) = Inr s"
    using slice_at [of "off + 2" "pre @ ?h" "off + 2 + length s" s ?tl] Cons.prems(2) by simp
  have ih: "decode_strings (length ss) (pre @ ?h @ s @ ?tl) (off + 2 + length s) =
      Inr (ss, off + 2 + length s + length (concat (map (\<lambda>s. PutUint16 (of_nat (length s)) @ s) ss)))"
    using Cons.IH [of "off + 2 + length s" "pre @ ?h @ s"] Cons.prems by simp
  show ?case
    using Cons.prems(2) s r sl ih by (simp add: Let_def)
qed simp

lemma decode_strings_total: "decode_strings n data off \<noteq> Inl Panic"
proof (induction n arbitrary: off)
  case (Suc n)
  then show ?case
    unfolding decode_strings.simps Let_def by (intro total_intros) auto
qed simp

lemma decode_strings_bound: "decode_strings n data off = Inr (ss, m) \<Longrightarrow> off \<le> length data \<Longrightarrow> m \<le> length data"
proof (induction n arbitrary: off ss)
  case (Suc n)
  from Suc.prems(1) show ?case
    by (auto simp: rbind_eq_Inr Let_def split: if_splits intro: Suc.IH)
qed simp

interpretation string_list: codec EncodeStringList DecodeStringList fits_strings
proof
  show "DecodeStringList (EncodeStringList x @ rest) = Inr (x, length (EncodeStringList x))"
    if "fits_strings x" for x rest
    using that decode_strings_enc [of x 2 "PutUint16 (of_nat (length x))" rest]
    by (simp add: DecodeStringList_def EncodeStringList_def fits_strings_def)
  show "DecodeStringList data \<noteq> Inl Panic" for data
    unfolding DecodeStringList_def by (intro total_intros decode_strings_total) auto
  show "n \<le> length data" if "DecodeStringList data = Inr (x, n)" for data x n
    using that by (auto simp: DecodeStringList_def rbind_eq_Inr split: if_splits dest: decode_strings_bound)
qed

text \<open>
  Strings, metadata and activation results decode to what was encoded, with any bytes
  after them; and the string encoding is prefix-free, so that no two messages share a beginning.
\<close>

lemma strings_roundtrip:
  assumes "fits_len a" and "fits_len v" and "fits_len u"
    and "fits_strings xs" and "fits_strings ys" and "fits_strings zs"
  shows "DecodeMetadata (EncodeMetadata a v u @ rest) = Inr (a, v, u)
    \<and> DecodeActivateResult (EncodeActivateResult a xs ys zs @ rest) = Inr (a, xs, ys, zs)
    \<and> (EncodeServiceName a @ r = EncodeServiceName v @ s \<longrightarrow> a = v \<and> r = s)
    \<and> (EncodeStringList xs @ r = EncodeStringList ys @ s \<longrightarrow> xs = ys \<and> r = s)"
  using service_name.prefix_free [OF assms(1,2), of r s] string_list.prefix_free [OF assms(4,5), of r s]
  by (simp add: DecodeMetadata_def EncodeMetadata_def DecodeActivateResult_def EncodeActivateResult_def
      service_name.dec_enc string_list.dec_enc slice_from_def assms)

lemma strings_roundtrip_witness:
  "fits_len [97 :: byte] \<and> DecodeActivateResult (EncodeActivateResult [97] [[98]] [] [[], [99]] @ [0]) =
     Inr ([97], [[98]], [], [[], [99]])"
proof -
  have f: "fits_len [97 :: byte]" "fits_strings [[98]]" "fits_strings []" "fits_strings [[], [99]]"
    by (simp_all add: fits_len_def fits_strings_def)
  from strings_roundtrip [OF f(1,1,1,2,3,4), of "[0]"] f(1) show ?thesis by blast
qed

section \<open>Status\<close>

text \<open>What a client that decodes a status must see of the service.\<close>

definition status_of :: "svc_view \<Rightarrow> ServiceStatusInfo" where
  "status_of svc =
    \<lparr>State = iota_ServiceState (sv_State svc), TargetState = iota_ServiceState (sv_TargetState svc),
     SvcType = iota_ServiceType (sv_Type svc), Flags = encodeStatusFlags svc, PID = sv_PID svc,
     si_ExitStatus = ExitCode (sv_ExitStatus svc)\<rparr>"

definition status5_of :: "svc_view \<Rightarrow> ServiceStatusInfo5" where
  "status5_of svc =
    (let es = sv_ExitStatus svc in
     \<lparr>State5 = iota_ServiceState (sv_State svc), TargetState5 = iota_ServiceState (sv_TargetState svc),
      Flags5 = encodeStatusFlags svc, StopReason5 = iota_StoppedReason (sv_StopReason svc),
      ExecStage5 = (if ExecFailed es then ucast (ExecStage es) else 0),
      SiCode5 = (if ExecFailed es then sint (ExecErrno es) else SiCode es),
      SiStatus5 = (if ExecFailed es then 0 else SiStatus es)\<rparr>)"

definition info_of :: "svc_view \<Rightarrow> SvcInfoEntry" where
  "info_of svc =
    \<lparr>Name = sv_Name svc, e_State = iota_ServiceState (sv_State svc),
     e_TargetState = iota_ServiceState (sv_TargetState svc), e_SvcType = iota_ServiceType (sv_Type svc),
     e_Flags = encodeStatusFlags svc, e_PID = sv_PID svc\<rparr>"

lemma ExitCode_fits: "fits_int32 (ExitCode e)"
  using ws_exit_status_byte [of "es_WaitStatus e"] by (auto simp: ExitCode_def fits_int32_def Exited_def)

lemma SiCode_fits: "fits_int32 (SiCode e)"
  by (simp add: SiCode_def fits_int32_def)

lemma SiStatus_fits: "fits_int32 (SiStatus e)"
  using ws_exit_status_byte [of "es_WaitStatus e"] ws_signal_range [of "es_WaitStatus e"]
  by (auto simp: SiStatus_def fits_int32_def)

lemmas exit_fits = ExitCode_fits SiCode_fits SiStatus_fits

lemma length_status [simp]: "length (EncodeServiceStatus svc) = 12" "length (EncodeServiceStatus5 svc) = 14"
  by (simp_all add: EncodeServiceStatus_def EncodeServiceStatus5_def Let_def)

lemma drop_Put [simp]:
  "drop 2 (PutUint16 a @ r) = r" "drop 4 (PutUint32 b @ r) = r" "drop 8 (PutUint64 c @ r) = r"
  by simp_all

lemma Uint32_zeros: "Uint32 (0 # 0 # 0 # 0 # r) = Inr 0"
  by (simp add: Uint32_def)

lemma Uint64_zeros: "Uint64 (replicate 8 0 @ r) = Inr 0"
  by (simp add: Uint64_def numeral_eq_Suc)

lemma int_of_zero [simp]: "int32_of 0 = 0" "int64_of 0 = 0"
  by (simp_all add: int32_of_def int64_of_def)

lemma status_dec: "fits_int32 (sv_PID svc) \<Longrightarrow> DecodeServiceStatus (EncodeServiceStatus svc @ rest) = Inr (status_of svc)"
  by (simp add: DecodeServiceStatus_def EncodeServiceStatus_def at_index_def slice_from_def status_of_def
      exit_fits numeral_nat)

lemma status5_dec: "DecodeServiceStatus5 (EncodeServiceStatus5 svc @ rest) = Inr (status5_of svc)"
proof (cases "ExecFailed (sv_ExitStatus svc)")
  case True
  then show ?thesis
    by (simp add: DecodeServiceStatus5_def EncodeServiceStatus5_def at_index_def slice_from_def status5_of_def
      Let_def Uint32_zeros int32_of_def [symmetric] numeral_nat)
next
  case False
  then show ?thesis
    by (simp add: DecodeServiceStatus5_def EncodeServiceStatus5_def at_index_def slice_from_def status5_of_def
      Let_def exit_fits numeral_nat)
qed

lemma status5_dec_alone: "DecodeServiceStatus5 (EncodeServiceStatus5 svc) = Inr (status5_of svc)"
  using status5_dec [of svc "[]"] by simp

lemma status_dec_alone: "fits_int32 (sv_PID svc) \<Longrightarrow> DecodeServiceStatus (EncodeServiceStatus svc) = Inr (status_of svc)"
  using status_dec [of svc "[]"] by simp

lemma status6_dec:
  assumes "\<forall>t. sv_LoadModTime svc = Some t \<longrightarrow> fits_int64 t"
  shows "DecodeServiceStatus6 (EncodeServiceStatus6 svc @ rest) =
     Inr (status5_of svc, case sv_LoadModTime svc of Some t \<Rightarrow> t | None \<Rightarrow> 0)"
proof (cases "sv_LoadModTime svc")
  case None
  then show ?thesis
    using slice_from_at [of 14 "EncodeServiceStatus5 svc" "replicate 8 0 @ rest"] Uint64_zeros [of rest]
    by (simp add: DecodeServiceStatus6_def EncodeServiceStatus6_def status5_dec)
next
  case (Some t)
  then show ?thesis
    using slice_from_at [of 14 "EncodeServiceStatus5 svc" "PutUint64 (word_of_int t) @ rest"] assms
    by (simp add: DecodeServiceStatus6_def EncodeServiceStatus6_def status5_dec)
qed

lemma event_dec:
  "fits_int32 (sv_PID svc) \<Longrightarrow> DecodeServiceEvent (EncodeServiceEvent h ev svc @ rest) = Inr (h, ev, status_of svc)"
  "DecodeServiceEvent5 (EncodeServiceEvent5 h ev svc @ rest) = Inr (h, ev, status5_of svc)"
  using slice_from_at [of 5 "PutUint32 h @ [ev]" "EncodeServiceStatus svc @ rest"]
    slice_from_at [of 5 "PutUint32 h @ [ev]" "EncodeServiceStatus5 svc @ rest"]
  by (simp_all add: DecodeServiceEvent_def EncodeServiceEvent_def DecodeServiceEvent5_def
      EncodeServiceEvent5_def at_index_def nth_append status_dec status5_dec)

lemma info5_dec:
  assumes "fits_len (sv_Name svc)"
  shows "DecodeSvcInfo5 (EncodeSvcInfo5 svc @ rest) = Inr ((sv_Name svc, status5_of svc), length (EncodeSvcInfo5 svc))"
proof -
  have e: "EncodeSvcInfo5 svc @ rest = EncodeServiceName (sv_Name svc) @ EncodeServiceStatus5 svc @ rest"
    by (simp add: EncodeSvcInfo5_def EncodeServiceName_def)
  show ?thesis
    unfolding DecodeSvcInfo5_def e
    by (simp add: service_name.dec_enc [OF assms] slice_from_at status5_dec)
      (simp add: EncodeSvcInfo5_def EncodeServiceName_def)
qed

lemma info_dec:
  assumes "fits_len (sv_Name svc)" "fits_int32 (sv_PID svc)"
  shows "DecodeSvcInfo (EncodeSvcInfo svc @ rest) = Inr (info_of svc, length (EncodeSvcInfo svc))"
proof -
  let ?n = "EncodeServiceName (sv_Name svc)"
  let ?st = "[iota_ServiceState (sv_State svc), iota_ServiceState (sv_TargetState svc),
       iota_ServiceType (sv_Type svc), encodeStatusFlags svc]"
  have e: "EncodeSvcInfo svc @ rest = ?n @ ?st @ PutUint32 (word_of_int (sv_PID svc)) @ rest"
    by (simp add: EncodeSvcInfo_def EncodeServiceName_def)
  have pid: "slice_from (?n @ ?st @ PutUint32 (word_of_int (sv_PID svc)) @ rest) (length ?n + 4) =
      Inr (PutUint32 (word_of_int (sv_PID svc)) @ rest)"
    using slice_from_at [of "length ?n + 4" "?n @ ?st"] by simp
  show ?thesis
    unfolding DecodeSvcInfo_def e service_name.dec_enc [OF assms(1)]
    using pid assms(2)
    by (simp add: at_index_def nth_append info_of_def) (simp add: EncodeSvcInfo_def EncodeServiceName_def)
qed

text \<open>
  Property C39.  A client sees the service as it is: every status message (versions 1, 5 and 6), list
  entry and event notification decodes to the state, target, flags, PID, stop reason and exit data of
  the service it was built from, for any PID and exit status that fit in 32 bits.
\<close>

theorem status_roundtrip:
  assumes "fits_len (sv_Name svc)" and "fits_int32 (sv_PID svc)"
    and "\<forall>t. sv_LoadModTime svc = Some t \<longrightarrow> fits_int64 t"
  shows "DecodeServiceStatus (EncodeServiceStatus svc @ rest) = Inr (status_of svc)
    \<and> DecodeServiceStatus5 (EncodeServiceStatus5 svc @ rest) = Inr (status5_of svc)
    \<and> DecodeServiceStatus6 (EncodeServiceStatus6 svc @ rest) =
        Inr (status5_of svc, case sv_LoadModTime svc of Some t \<Rightarrow> t | None \<Rightarrow> 0)
    \<and> DecodeServiceEvent (EncodeServiceEvent h ev svc @ rest) = Inr (h, ev, status_of svc)
    \<and> DecodeServiceEvent5 (EncodeServiceEvent5 h ev svc @ rest) = Inr (h, ev, status5_of svc)
    \<and> DecodeSvcInfo (EncodeSvcInfo svc @ rest) = Inr (info_of svc, length (EncodeSvcInfo svc))
    \<and> DecodeSvcInfo5 (EncodeSvcInfo5 svc @ rest) = Inr ((sv_Name svc, status5_of svc), length (EncodeSvcInfo5 svc))"
  using assms by (simp add: status_dec status5_dec status6_dec event_dec info_dec info5_dec)

definition sample_view :: svc_view where
  "sample_view = \<lparr>sv_Name = [110, 116, 112], sv_State = StateStarted, sv_TargetState = StateStarted,
     sv_Type = TypeProcess, sv_PID = 4711, sv_IsMarkedActive = True, sv_HasConsole = False,
     sv_DidStartFail = False, sv_StopReason = ReasonNormal, sv_ExitStatus = no_exit_status,
     sv_LoadModTime = Some 1700000000\<rparr>"

theorem status_roundtrip_witness:
  "fits_len (sv_Name sample_view) \<and> fits_int32 (sv_PID sample_view)
   \<and> PID (status_of sample_view) = 4711
   \<and> DecodeServiceStatus6 (EncodeServiceStatus6 sample_view) = Inr (status5_of sample_view, 1700000000)"
proof -
  have h: "fits_len (sv_Name sample_view)" "fits_int32 (sv_PID sample_view)"
    "\<forall>t. sv_LoadModTime sample_view = Some t \<longrightarrow> fits_int64 t"
    by (simp_all add: sample_view_def fits_len_def fits_int32_def fits_int64_def)
  from status_roundtrip [OF h, of "[]"] h show ?thesis
    by (simp add: sample_view_def status_of_def)
qed

section \<open>Boot timing\<close>

definition fits_boot_entry :: "BootTimeEntry \<Rightarrow> bool" where
  "fits_boot_entry s \<longleftrightarrow> fits_len (bt_Name s) \<and> fits_int64 (StartupNs s) \<and> fits_int32 (bt_PID s)"

definition fits_boot :: "BootTimeInfo \<Rightarrow> bool" where
  "fits_boot info \<longleftrightarrow> fits_int64 (KernelUptimeNs info) \<and> fits_int64 (BootStartNs info)
     \<and> fits_int64 (BootReadyNs info) \<and> fits_len (BootSvcName info) \<and> fits_len (Services info)
     \<and> (\<forall>s \<in> set (Services info). fits_boot_entry s)"

lemma boot_entry_eta:
  "\<lparr>bt_Name = bt_Name s, StartupNs = StartupNs s, bt_State = bt_State s, bt_SvcType = bt_SvcType s,
     bt_PID = bt_PID s\<rparr> = s"
  by (cases s) simp

lemma boot_entry_step:
  assumes "fits_boot_entry s" "off = length pre"
  shows "decode_boot_entries (Suc n) (pre @ encode_boot_entry s @ tail) off =
    rbind (decode_boot_entries n (pre @ encode_boot_entry s @ tail) (off + length (encode_boot_entry s))) (\<lambda>es. Inr (s # es))"
proof -
  let ?h = "PutUint16 (of_nat (length (bt_Name s)))" and ?ns = "PutUint64 (word_of_int (StartupNs s))"
  let ?pid = "PutUint32 (word_of_int (bt_PID s))" and ?l = "length (bt_Name s)"
  let ?d = "pre @ encode_boot_entry s @ tail"
  have d: "?d = pre @ ?h @ bt_Name s @ ?ns @ [bt_State s, bt_SvcType s] @ ?pid @ tail"
    by (simp add: encode_boot_entry_def)
  have len: "length ?d = off + 2 + ?l + 14 + length tail" using assms(2) unfolding d by simp
  have "slice_from ?d off = Inr (?h @ bt_Name s @ ?ns @ [bt_State s, bt_SvcType s] @ ?pid @ tail)"
    unfolding d by (rule slice_from_at) (simp add: assms)
  moreover have "slice ?d (off + 2) (off + 2 + ?l) = Inr (bt_Name s)"
    unfolding d using slice_at [of "off + 2" "pre @ ?h" "off + 2 + ?l" "bt_Name s"] assms(2) by simp
  moreover have "slice_from ?d (off + 2 + ?l) = Inr (?ns @ [bt_State s, bt_SvcType s] @ ?pid @ tail)"
    unfolding d using slice_from_at [of "off + 2 + ?l" "pre @ ?h @ bt_Name s"] assms(2) by simp
  moreover have "slice_from ?d (off + 2 + ?l + 10) = Inr (?pid @ tail)"
    unfolding d using slice_from_at [of "off + 2 + ?l + 10" "pre @ ?h @ bt_Name s @ ?ns @ [bt_State s, bt_SvcType s]"] assms(2) by simp
  moreover have "at_index ?d (off + 2 + ?l + 8) = Inr (bt_State s)" "at_index ?d (off + 2 + ?l + 9) = Inr (bt_SvcType s)"
    unfolding d using assms(2) by (simp_all add: at_index_def nth_append)
  moreover have off': "off + length (encode_boot_entry s) = off + 2 + (?l + 14)"
    by (simp add: encode_boot_entry_def)
  ultimately show ?thesis
    using assms len unfolding off' by (simp add: Let_def fits_boot_entry_def boot_entry_eta add.assoc)
qed

lemma boot_entries_dec:
  assumes "\<forall>s \<in> set ss. fits_boot_entry s" "off = length pre"
  shows "decode_boot_entries (length ss) (pre @ concat (map encode_boot_entry ss) @ rest) off = Inr ss"
  using assms
proof (induction ss arbitrary: pre off)
  case (Cons s ss)
  then have "decode_boot_entries (length ss) ((pre @ encode_boot_entry s) @ concat (map encode_boot_entry ss) @ rest)
      (off + length (encode_boot_entry s)) = Inr ss"
    by (intro Cons.IH) auto
  with Cons.prems show ?case
    using boot_entry_step [of s off pre "length ss" "concat (map encode_boot_entry ss) @ rest"] by simp
qed simp

text \<open>
  Boot timing survives the wire: kernel uptime, start and ready times, the boot
  service and every per-service entry come back unchanged and in order.
\<close>

lemma boot_time_roundtrip:
  assumes "fits_boot info"
  shows "DecodeBootTime (EncodeBootTime info @ rest) = Inr info"
proof -
  let ?a = "PutUint64 (word_of_int (KernelUptimeNs info))" and ?b = "PutUint64 (word_of_int (BootStartNs info))"
  let ?c = "PutUint64 (word_of_int (BootReadyNs info))" and ?h = "PutUint16 (of_nat (length (BootSvcName info)))"
  let ?k = "PutUint16 (of_nat (length (Services info)))" and ?es = "concat (map encode_boot_entry (Services info))"
  let ?name = "BootSvcName info" and ?d = "EncodeBootTime info @ rest"
  have d: "?d = ?a @ ?b @ ?c @ ?h @ ?name @ ?k @ ?es @ rest" by (simp add: EncodeBootTime_def)
  have "slice_from ?d 8 = Inr (?b @ ?c @ ?h @ ?name @ ?k @ ?es @ rest)"
    unfolding d by (rule slice_from_at) simp
  moreover have "slice_from ?d 16 = Inr (?c @ ?h @ ?name @ ?k @ ?es @ rest)"
    unfolding d using slice_from_at [of 16 "?a @ ?b"] by simp
  moreover have "slice_from ?d 24 = Inr (?h @ ?name @ ?k @ ?es @ rest)"
    unfolding d using slice_from_at [of 24 "?a @ ?b @ ?c"] by simp
  moreover have "slice ?d 26 (26 + length ?name) = Inr ?name"
    unfolding d using slice_at [of 26 "?a @ ?b @ ?c @ ?h" "26 + length ?name" ?name] by simp
  moreover have "slice_from ?d (26 + length ?name) = Inr (?k @ ?es @ rest)"
    unfolding d using slice_from_at [of "26 + length ?name" "?a @ ?b @ ?c @ ?h @ ?name"] by simp
  moreover have "decode_boot_entries (length (Services info)) ?d (28 + length ?name) = Inr (Services info)"
    unfolding d using boot_entries_dec [of "Services info" "28 + length ?name" "?a @ ?b @ ?c @ ?h @ ?name @ ?k" rest] assms
    by (simp add: fits_boot_def)
  moreover have "Uint64 ?d = Inr (word_of_int (KernelUptimeNs info))" unfolding d by simp
  moreover have "length ?d \<ge> 28 + length ?name" unfolding d by simp
  moreover have "\<lparr>KernelUptimeNs = KernelUptimeNs info, BootStartNs = BootStartNs info,
      BootReadyNs = BootReadyNs info, BootSvcName = ?name, Services = Services info\<rparr> = info" by simp
  ultimately show ?thesis
    using assms by (simp add: DecodeBootTime_def Let_def fits_boot_def)
qed

lemma boot_time_roundtrip_witness:
  "let info = \<lparr>KernelUptimeNs = 5, BootStartNs = 7, BootReadyNs = 0, BootSvcName = [98],
     Services = [\<lparr>bt_Name = [120], StartupNs = 1000, bt_State = 2, bt_SvcType = 1, bt_PID = 42\<rparr>]\<rparr>
   in fits_boot info \<and> DecodeBootTime (EncodeBootTime info) = Inr info"
proof -
  let ?info = "\<lparr>KernelUptimeNs = 5, BootStartNs = 7, BootReadyNs = 0, BootSvcName = [98],
     Services = [\<lparr>bt_Name = [120], StartupNs = 1000, bt_State = 2, bt_SvcType = 1, bt_PID = 42\<rparr>]\<rparr>"
  have f: "fits_boot ?info"
    by (simp add: fits_boot_def fits_boot_entry_def fits_len_def fits_int32_def fits_int64_def)
  from boot_time_roundtrip [OF f, of "[]"] f show ?thesis unfolding Let_def append_Nil2 by blast
qed

section \<open>Requests, environment and logs\<close>

lemma env_pairs_dec:
  assumes "\<forall>(k, v) \<in> set kvs. fits_len k \<and> fits_len v" "off = length pre"
  shows "decode_env_pairs (length kvs) (pre @ concat (map encode_env_pair kvs) @ rest) off m =
    Inr (foldl (\<lambda>m (k, v). m(k \<mapsto> v)) m kvs)"
  using assms
proof (induction kvs arbitrary: pre off m)
  case (Cons kv kvs)
  obtain k v where kv: "kv = (k, v)" by (cases kv)
  let ?hk = "PutUint16 (of_nat (length k))" and ?hv = "PutUint16 (of_nat (length v))"
  let ?t = "concat (map encode_env_pair kvs) @ rest"
  let ?d = "pre @ ?hk @ k @ ?hv @ v @ ?t"
  have "slice_from ?d off = Inr (?hk @ k @ ?hv @ v @ ?t)"
    by (rule slice_from_at) (simp add: Cons.prems)
  moreover have "slice ?d (off + 2) (off + 2 + length k) = Inr k"
    using slice_at [of "off + 2" "pre @ ?hk" "off + 2 + length k" k] Cons.prems(2) by simp
  moreover have "slice_from ?d (off + 2 + length k) = Inr (?hv @ v @ ?t)"
    using slice_from_at [of "off + 2 + length k" "pre @ ?hk @ k"] Cons.prems(2) by simp
  moreover have "slice ?d (off + 2 + length k + 2) (off + 2 + length k + 2 + length v) = Inr v"
    using slice_at [of "off + 2 + length k + 2" "pre @ ?hk @ k @ ?hv" "off + 2 + length k + 2 + length v" v] Cons.prems(2) by simp
  moreover have "decode_env_pairs (length kvs) ?d (off + 2 + length k + 2 + length v) (m(k \<mapsto> v)) =
      Inr (foldl (\<lambda>m (k, v). m(k \<mapsto> v)) (m(k \<mapsto> v)) kvs)"
  proof -
    have o: "off + 2 + length k + 2 + length v = length (pre @ ?hk @ k @ ?hv @ v)" using Cons.prems(2) by simp
    have f: "\<forall>(k, v) \<in> set kvs. fits_len k \<and> fits_len v" using Cons.prems(1) by simp
    from Cons.IH [OF f o, of "m(k \<mapsto> v)"] show ?thesis by (simp only: append_assoc)
  qed
  moreover have "length ?d \<ge> off + 2 + length k + 2 + length v" using Cons.prems(2) by simp
  moreover have "fits_len k" "fits_len v" using Cons.prems(1) kv by auto
  ultimately have "decode_env_pairs (Suc (length kvs)) ?d off m =
      Inr (foldl (\<lambda>m (k, v). m(k \<mapsto> v)) (m(k \<mapsto> v)) kvs)"
    by (simp add: Let_def)
  then show ?case
    by (simp only: kv encode_env_pair_def [of "(k, v)"] fst_conv snd_conv list.map list.size(4) One_nat_def
        add_0_right add_Suc_right concat.simps(2) append_assoc foldl_Cons prod.case)
qed simp

lemma foldl_upd_map_of:
  "distinct (map fst kvs) \<Longrightarrow> foldl (\<lambda>m (k, v). m(k \<mapsto> v)) m kvs = m ++ map_of kvs"
proof (induction kvs arbitrary: m)
  case (Cons kv kvs)
  obtain k v where kv: "kv = (k, v)" by (cases kv)
  with Cons.prems have "map_of kvs k = None" by (simp add: map_of_eq_None_iff)
  with Cons kv show ?case by (auto simp: map_add_def fun_eq_iff split: option.splits)
qed simp

text \<open>
  The environment of a service survives the wire: the decoded map is the map that was
  encoded, whatever order the iteration over the Go map took.
\<close>

lemma env_list_roundtrip:
  assumes "distinct (map fst kvs)" and "fits_len kvs" and "\<forall>(k, v) \<in> set kvs. fits_len k \<and> fits_len v"
  shows "DecodeEnvList (EncodeEnvList kvs @ rest) = Inr (map_of kvs)"
  using assms env_pairs_dec [OF assms(3), of 2 "PutUint16 (of_nat (length kvs))" rest Map.empty]
  by (simp add: DecodeEnvList_def EncodeEnvList_def foldl_upd_map_of)

lemma env_list_roundtrip_witness:
  "let kvs = [([65], [49]), ([66], [])] in fits_len kvs \<and>
     DecodeEnvList (EncodeEnvList kvs) = Inr [[65] \<mapsto> [49], [66] \<mapsto> []]"
proof -
  let ?kvs = "[([65], [49]), ([66], [])] :: (bytes \<times> bytes) list"
  have h: "distinct (map fst ?kvs)" "fits_len ?kvs" "\<forall>(k, v) \<in> set ?kvs. fits_len k \<and> fits_len v"
    by (simp_all add: fits_len_def)
  from env_list_roundtrip [OF h, of "[]"] h(2) show ?thesis
    by (simp add: Let_def fun_upd_twist)
qed

text \<open>
  A set-env request decodes to its handle, key and value, but a request to set a
  variable to the empty string is indistinguishable from a request to unset it.
\<close>

lemma set_env_roundtrip:
  assumes "fits_len key" and "fits_len value"
  shows "DecodeSetEnv (EncodeSetEnv h key value unset @ rest) =
    Inr (h, key, if unset then [] else value, unset \<or> value = [])"
proof -
  define val where "val = (if unset then [] else value)"
  have val: "fits_len val" using assms(2) by (simp add: val_def fits_len_def)
  let ?h = "PutUint32 h" and ?hk = "PutUint16 (of_nat (length key))" and ?hv = "PutUint16 (of_nat (length val))"
  let ?d = "?h @ ?hk @ key @ ?hv @ val @ rest"
  have d: "EncodeSetEnv h key value unset @ rest = ?d"
    by (simp add: EncodeSetEnv_def val_def)
  have "slice_from ?d 4 = Inr (?hk @ key @ ?hv @ val @ rest)"
    by (rule slice_from_at) simp
  moreover have "slice ?d 6 (6 + length key) = Inr key"
    using slice_at [of 6 "?h @ ?hk" "6 + length key" key] by simp
  moreover have "slice_from ?d (6 + length key) = Inr (?hv @ val @ rest)"
    using slice_from_at [of "6 + length key" "?h @ ?hk @ key"] by simp
  moreover have "slice ?d (8 + length key) (8 + length key + length val) = Inr val"
    using slice_at [of "8 + length key" "?h @ ?hk @ key @ ?hv" "8 + length key + length val" val] by simp
  ultimately have "DecodeSetEnv ?d = Inr (h, key, val, val = [])"
    using assms(1) val by (simp add: DecodeSetEnv_def Let_def)
  then show ?thesis unfolding d by (simp add: val_def)
qed

lemma set_env_roundtrip_witness:
  "fits_len [65 :: byte] \<and> fits_len ([] :: bytes) \<and> DecodeSetEnv (EncodeSetEnv 7 [65] [] False) = Inr (7, [65], [], True)"
proof -
  have h: "fits_len [65 :: byte]" "fits_len ([] :: bytes)" by (simp_all add: fits_len_def)
  from set_env_roundtrip [OF h, of 7 False "[]"] h show ?thesis by simp
qed

text \<open>
  The small requests and notifications decode to what was encoded: handles, log
  requests, log replies shorter than 4 GiB, dependency requests and environment events.
\<close>

lemma requests_roundtrip:
  assumes "length logData + 5 < 2 ^ 32" and "fits_len var"
  shows "DecodeHandle (EncodeHandle h @ rest) = Inr h
    \<and> DecodeCatLogRequest (EncodeCatLogRequest h clear @ rest) = Inr (if clear then CatLogFlagClear else 0, h)
    \<and> DecodeSvcLog (EncodeSvcLog logData) = Inr (0, logData)
    \<and> DecodeDepRequest (EncodeDepRequest h h' ty @ rest) = Inr (h, h', ty)
    \<and> DecodeEnvEvent (EncodeEnvEvent var override @ rest) = Inr (if override then EnvEventFlagOverride else 0, var)"
proof -
  have "DecodeHandle (EncodeHandle h @ rest) = Inr h"
    by (simp add: DecodeHandle_def EncodeHandle_def)
  moreover have "DecodeCatLogRequest (EncodeCatLogRequest h clear @ rest) = Inr (if clear then CatLogFlagClear else 0, h)"
    by (simp add: DecodeCatLogRequest_def EncodeCatLogRequest_def at_index_def slice_from_def)
  moreover have "DecodeSvcLog (EncodeSvcLog logData) = Inr (0, logData)"
  proof -
    let ?n = "length logData"
    have "unat (of_nat (5 + ?n) :: u32) = 5 + ?n" using assms(1) by (simp add: unat_of_nat del: of_nat_add)
    moreover have "(of_nat (5 + ?n) :: u32) = 5 + of_nat ?n" by simp
    ultimately have u: "unat (5 + of_nat ?n :: u32) = 5 + ?n" by metis
    have len: "(of_nat (length (EncodeSvcLog logData)) :: u32) = 5 + of_nat ?n"
      by (simp add: EncodeSvcLog_def)
    have "slice (EncodeSvcLog logData) 5 (5 + ?n) = Inr logData"
      using slice_at [of 5 "0 # PutUint32 (of_nat ?n)" "5 + ?n" logData "[]"] by (simp add: EncodeSvcLog_def)
    moreover have "slice_from (EncodeSvcLog logData) 1 = Inr (PutUint32 (of_nat ?n) @ logData)"
      by (simp add: EncodeSvcLog_def slice_from_def)
    moreover have "at_index (EncodeSvcLog logData) 0 = Inr 0"
      by (simp add: EncodeSvcLog_def at_index_def)
    moreover have "length (EncodeSvcLog logData) = 5 + ?n" by (simp add: EncodeSvcLog_def)
    ultimately show ?thesis
      using len by (simp add: DecodeSvcLog_def u del: of_nat_add)
  qed
  moreover have "DecodeDepRequest (EncodeDepRequest h h' ty @ rest) = Inr (h, h', ty)"
    using slice_from_at [of 4 "PutUint32 h"]
    by (simp add: DecodeDepRequest_def EncodeDepRequest_def at_index_def nth_append)
  moreover have "DecodeEnvEvent (EncodeEnvEvent var override @ rest) = Inr (if override then EnvEventFlagOverride else 0, var)"
    using slice_at [of 3 "(if override then EnvEventFlagOverride else 0) # PutUint16 (of_nat (length var))" "3 + length var" var rest] assms(2)
    by (simp add: DecodeEnvEvent_def EncodeEnvEvent_def at_index_def slice_from_def)
  ultimately show ?thesis by blast
qed

lemma requests_roundtrip_witness:
  "fits_len [65 :: byte, 61] \<and> DecodeSvcLog (EncodeSvcLog [104, 105]) = Inr (0, [104, 105])
   \<and> DecodeEnvEvent (EncodeEnvEvent [65, 61] True) = Inr (EnvEventFlagOverride, [65, 61])"
proof -
  have h: "length [104, 105 :: byte] + 5 < 2 ^ 32" "fits_len [65 :: byte, 61]"
    by (simp_all add: fits_len_def)
  from requests_roundtrip [OF h, of 0 "[]" False 0 0 True] h(2) show ?thesis by simp
qed

section \<open>No decoder panics, but one\<close>

lemma status_total: "DecodeServiceStatus data \<noteq> Inl Panic" "DecodeServiceStatus5 data \<noteq> Inl Panic"
  unfolding DecodeServiceStatus_def DecodeServiceStatus5_def by (intro total_intros; auto)+

lemma boot_entries_total: "decode_boot_entries n data off \<noteq> Inl Panic"
proof (induction n arbitrary: off)
  case (Suc n)
  then show ?case
    unfolding decode_boot_entries.simps Let_def by (intro total_intros) auto
qed simp

lemma env_pairs_total: "decode_env_pairs n data off m \<noteq> Inl Panic"
proof (induction n arbitrary: off m)
  case (Suc n)
  then show ?case
    unfolding decode_env_pairs.simps Let_def by (intro total_intros) auto
qed simp

text \<open>
  No bytes a peer may send make a decoder index out of range, for every decoder of the
  protocol other than \<open>DecodeSvcLog\<close>.
\<close>

lemma decoders_never_panic:
  "DecodeServiceName data \<noteq> Inl Panic \<and> DecodeMetadata data \<noteq> Inl Panic \<and> DecodeHandle data \<noteq> Inl Panic
   \<and> DecodeServiceStatus data \<noteq> Inl Panic \<and> DecodeServiceStatus5 data \<noteq> Inl Panic
   \<and> DecodeServiceStatus6 data \<noteq> Inl Panic \<and> DecodeSvcInfo data \<noteq> Inl Panic \<and> DecodeSvcInfo5 data \<noteq> Inl Panic
   \<and> DecodeServiceEvent data \<noteq> Inl Panic \<and> DecodeServiceEvent5 data \<noteq> Inl Panic
   \<and> DecodeBootTime data \<noteq> Inl Panic \<and> DecodeCatLogRequest data \<noteq> Inl Panic \<and> DecodeSetEnv data \<noteq> Inl Panic
   \<and> DecodeEnvList data \<noteq> Inl Panic \<and> DecodeDepRequest data \<noteq> Inl Panic \<and> DecodeEnvEvent data \<noteq> Inl Panic
   \<and> DecodeStringList data \<noteq> Inl Panic \<and> DecodeActivateResult data \<noteq> Inl Panic \<and> ReadPacket data \<noteq> Inl Panic"
proof (intro conjI)
  note one = service_name.dec_total string_list.dec_total
  show "DecodeServiceName data \<noteq> Inl Panic" "DecodeStringList data \<noteq> Inl Panic" by (rule one)+
  show "DecodeServiceStatus data \<noteq> Inl Panic" "DecodeServiceStatus5 data \<noteq> Inl Panic" by (rule status_total)+
  show "DecodeMetadata data \<noteq> Inl Panic"
    unfolding DecodeMetadata_def
    by (intro service_name.dec_then_total rbind_not_Panic one) (simp split: prod.splits)
  show "DecodeActivateResult data \<noteq> Inl Panic"
    unfolding DecodeActivateResult_def
    by (intro service_name.dec_then_total string_list.dec_then_total rbind_not_Panic one) (simp split: prod.splits)
  show "DecodeHandle data \<noteq> Inl Panic" by (simp add: DecodeHandle_def)
  show "DecodeServiceStatus6 data \<noteq> Inl Panic"
    unfolding DecodeServiceStatus6_def by (intro total_intros status_total; auto)
  show "DecodeSvcInfo data \<noteq> Inl Panic" "DecodeSvcInfo5 data \<noteq> Inl Panic"
    unfolding DecodeSvcInfo_def DecodeSvcInfo5_def
    by (intro rbind_pair_not_Panic one total_intros status_total; auto)+
  show "DecodeServiceEvent data \<noteq> Inl Panic" "DecodeServiceEvent5 data \<noteq> Inl Panic"
    unfolding DecodeServiceEvent_def DecodeServiceEvent5_def by (intro total_intros status_total; auto simp: status_total slice_from_Inr)+
  show "DecodeBootTime data \<noteq> Inl Panic"
    unfolding DecodeBootTime_def Let_def by (intro total_intros boot_entries_total; auto)
  show "DecodeCatLogRequest data \<noteq> Inl Panic" "DecodeDepRequest data \<noteq> Inl Panic" "DecodeEnvEvent data \<noteq> Inl Panic"
    unfolding DecodeCatLogRequest_def DecodeDepRequest_def DecodeEnvEvent_def Let_def by (intro total_intros; auto)+
  show "DecodeSetEnv data \<noteq> Inl Panic"
    unfolding DecodeSetEnv_def Let_def by (intro total_intros; auto)
  show "DecodeEnvList data \<noteq> Inl Panic"
    unfolding DecodeEnvList_def by (intro total_intros env_pairs_total; auto)
  show "ReadPacket data \<noteq> Inl Panic"
  proof (cases "length data < 3")
    case False
    then have "ReadPacket data = rbind (Uint16 (drop 1 (take 3 data))) (\<lambda>pLen.
        if unat pLen > MaxPayloadSize then Inl PayloadTooLarge
        else if pLen > 0 then rbind (ReadFull (unat pLen) (drop 3 data)) (\<lambda>(payload, r). Inr (data ! 0, payload, r))
        else Inr (data ! 0, [], drop 3 data))"
      by (auto simp: ReadPacket_def ReadFull_def at_index_def slice_from_def)
    also have "\<dots> \<noteq> Inl Panic"
      using False by (intro total_intros rbind_pair_not_Panic; simp add: ReadFull_def split: prod.splits)
    finally show ?thesis .
  qed (simp add: ReadPacket_def ReadFull_def)
qed

lemma wrap5: "unat (5 + len :: u32) < 5 \<longleftrightarrow> 2 ^ 32 - 5 \<le> uint len"
proof -
  have u: "uint (5 + len) = (5 + uint len) mod 4294967296" using uint_word_ariths(1) [of 5 len] by simp
  have b: "0 \<le> uint len" "uint len < 4294967296" using uint_lt2p [of len] by simp_all
  have n: "unat (5 + len) < 5 \<longleftrightarrow> uint (5 + len) < 5" unfolding unat_eq_nat_uint by linarith
  have p: "2 ^ 32 - 5 = (4294967291 :: int)" by simp
  show ?thesis
  proof (cases "4294967291 \<le> uint len")
    case True
    have "(5 + uint len) mod 4294967296 = (5 + uint len - 4294967296) mod 4294967296" by (metis minus_mod_self2)
    also have "\<dots> = 5 + uint len - 4294967296" using True b by (intro mod_pos_pos_trivial) linarith+
    finally have "uint (5 + len) < 5" using b(2) unfolding u by linarith
    with True show ?thesis unfolding n p by blast
  next
    case False
    then have "(5 + uint len) mod 4294967296 = 5 + uint len" using b by (intro mod_pos_pos_trivial) linarith+
    with b(1) have "\<not> uint (5 + len) < 5" unfolding u by linarith
    with False show ?thesis unfolding n p by blast
  qed
qed

text \<open>
  \<open>DecodeSvcLog\<close> adds the declared length in 32 bits: with a length field of at least
  \<open>2^32 - 5\<close> the sum wraps to less than 5, the bound check passes and the slice expression panics.
  For replies shorter than 4 GiB this is the only way it can panic.
\<close>

lemma DecodeSvcLog_panics_iff:
  assumes "length data < 2 ^ 32"
  shows "DecodeSvcLog data = Inl Panic \<longleftrightarrow>
    (\<exists>fl len rest. data = fl # PutUint32 len @ rest \<and> 2 ^ 32 - 5 \<le> uint len)"
proof (cases "length data < 5")
  case True
  then have "data \<noteq> fl # PutUint32 len @ rest" for fl len rest by auto
  with True show ?thesis by (simp add: DecodeSvcLog_def)
next
  case False
  then obtain fl d where d: "data = fl # d" by (cases data) auto
  obtain len where len: "Uint32 d = Inr len" using False d by (simp add: Uint32_def)
  have fields: "(\<exists>fl len' rest. data = fl # PutUint32 len' @ rest \<and> P len') \<longleftrightarrow> P len" for P
  proof
    show "P len" if "\<exists>fl len' rest. data = fl # PutUint32 len' @ rest \<and> P len'"
      using that len d by auto
    show "\<exists>fl len' rest. data = fl # PutUint32 len' @ rest \<and> P len'" if "P len"
      using that len d False Put_Uint32 [of d len] by (intro exI [of _ fl] exI [of _ len] exI [of _ "drop 4 d"]) simp
  qed
  have dec: "DecodeSvcLog data = (if (of_nat (length data) :: u32) < 5 + len then Inl TooShort
       else rbind (slice data 5 (unat (5 + len))) (\<lambda>logData. Inr (fl, logData)))"
    using False d len by (simp add: DecodeSvcLog_def at_index_def slice_from_def)
  have nat_len: "unat (of_nat (length data) :: u32) = length data"
    using assms by (simp add: unat_of_nat)
  have wrap: "unat (5 + len) < 5 \<longleftrightarrow> 2 ^ 32 - 5 \<le> uint len"
    using wrap5 [of len] .
  show ?thesis
  proof (cases "(of_nat (length data) :: u32) < 5 + len")
    case True
    then have "length data < unat (5 + len)" using nat_len by (simp add: word_less_nat_alt)
    with False wrap True show ?thesis unfolding fields dec by simp
  next
    case False
    then have "unat (5 + len) \<le> length data" using nat_len by (simp add: word_less_nat_alt)
    with False wrap show ?thesis unfolding fields dec by (auto simp: slice_def)
  qed
qed

lemma DecodeSvcLog_panics_iff_witness:
  "DecodeSvcLog [0, 255, 255, 255, 255] = Inl Panic"
proof -
  have h: "length [0, 255, 255, 255, 255 :: byte] < 2 ^ 32" by simp
  have "\<exists>fl len rest. [0, 255, 255, 255, 255 :: byte] = fl # PutUint32 len @ rest \<and> 2 ^ 32 - 5 \<le> uint len"
    by (intro exI [of _ 0] exI [of _ "0xFFFFFFFF"] exI [of _ "[]"]) (simp add: PutUint32_def)
  with DecodeSvcLog_panics_iff [OF h] show ?thesis by blast
qed

text \<open>
  The codes are unambiguous: no two commands and no two replies share a code, and no
  reply code is the code of an unsolicited notification, so a client can always tell the answer to
  its request from a push event that arrives in between.
\<close>

lemma codes_unambiguous:
  "distinct (map snd command_codes) \<and> distinct (map snd reply_codes) \<and> distinct (map snd info_codes)
   \<and> set (map snd reply_codes) \<inter> set (map snd info_codes) = {}"
  by (simp add: command_codes_def reply_codes_def info_codes_def)

end
