(* ===== verification/Environment.thy ===== *)
theory Environment
  imports Prelude
begin

text \<open>
  The environment a service process gets: the daemon-wide environment of \<open>ServiceSet\<close>
  (\<open>pkg/service/set.go\<close>, \<open>SetGlobalEnv\<close> to \<open>notifyEnvListenersSnapshot\<close>), with its index for constant-time
  updates and its cached snapshot, and the pass/unset/search-path filters of a record
  (\<open>pkg/service/record.go\<close>, \<open>applyBucketDEnvFilters\<close>).  An index out of range is a Go panic and is
  the value \<open>None\<close> here.
\<close>

section \<open>Entries\<close>

text \<open>\<open>strings.Cut(e, "=")\<close>: the text before and after the first \<open>=\<close>, if there is one.\<close>

fun cut_eq :: "string \<Rightarrow> (string \<times> string) option" where
  "cut_eq [] = None"
| "cut_eq (c # cs) =
    (if c = CHR ''='' then Some ([], cs) else map_option (\<lambda>(k, v). (c # k, v)) (cut_eq cs))"

definition entry :: "string \<Rightarrow> string \<Rightarrow> string" where
  "entry k v = k @ CHR ''='' # v"

lemma cut_eq_entry [simp]: "CHR ''='' \<notin> set k \<Longrightarrow> cut_eq (entry k v) = Some (k, v)"
  by (induction k) (auto simp: entry_def)

lemma cut_eq_SomeD: "cut_eq e = Some (k, v) \<Longrightarrow> e = entry k v \<and> CHR ''='' \<notin> set k"
  by (induction e arbitrary: k) (auto simp: entry_def split: if_splits)

definition env_key :: "string \<Rightarrow> string option" where
  "env_key e = map_option fst (cut_eq e)"

section \<open>The daemon-wide environment\<close>

record GlobalEnv =
  globalEnv :: "string list"
  globalEnvVer :: u64
  globalEnvSnap :: "string list option"
  globalEnvSnapV :: u64
  globalEnvIdx :: "string \<rightharpoonup> nat"
  envListeners :: "nat list"

text \<open>What a listener is told: its identity, the variable string and the override flag.\<close>

type_synonym env_event = "nat \<times> string \<times> bool"

definition empty_env :: GlobalEnv where
  "empty_env = \<lparr>globalEnv = [], globalEnvVer = 0, globalEnvSnap = None, globalEnvSnapV = 0,
     globalEnvIdx = Map.empty, envListeners = []\<rparr>"

fun index_entries :: "nat \<Rightarrow> string list \<Rightarrow> (string \<rightharpoonup> nat) \<Rightarrow> (string \<rightharpoonup> nat)" where
  "index_entries i [] m = m"
| "index_entries i (e # es) m =
    index_entries (Suc i) es (case cut_eq e of Some (k, _) \<Rightarrow> m(k \<mapsto> i) | None \<Rightarrow> m)"

definition SetGlobalEnv :: "string list \<Rightarrow> GlobalEnv \<Rightarrow> GlobalEnv" where
  "SetGlobalEnv env g = g\<lparr>globalEnv := env, globalEnvIdx := index_entries 0 env Map.empty,
     globalEnvVer := globalEnvVer g + 1\<rparr>"

definition GetGlobalEnv :: "GlobalEnv \<Rightarrow> string list \<times> GlobalEnv" where
  "GetGlobalEnv g =
    (case globalEnvSnap g of
       Some snap \<Rightarrow> if globalEnvSnapV g = globalEnvVer g then (snap, g)
         else (globalEnv g, g\<lparr>globalEnvSnap := Some (globalEnv g), globalEnvSnapV := globalEnvVer g\<rparr>)
     | None \<Rightarrow> (globalEnv g, g\<lparr>globalEnvSnap := Some (globalEnv g), globalEnvSnapV := globalEnvVer g\<rparr>))"

definition notifyEnvListeners :: "GlobalEnv \<Rightarrow> string \<Rightarrow> bool \<Rightarrow> env_event list" where
  "notifyEnvListeners g s override = map (\<lambda>l. (l, s, override)) (envListeners g)"

definition GlobalSetEnv :: "string \<Rightarrow> string \<Rightarrow> GlobalEnv \<Rightarrow> (GlobalEnv \<times> env_event list) option" where
  "GlobalSetEnv key value g =
    (let varStr = entry key value
     in case globalEnvIdx g key of
          Some idx \<Rightarrow>
            if idx < length (globalEnv g)
            then Some (g\<lparr>globalEnv := (globalEnv g)[idx := varStr], globalEnvVer := globalEnvVer g + 1\<rparr>,
                       notifyEnvListeners g varStr True)
            else None
        | None \<Rightarrow>
            Some (g\<lparr>globalEnvIdx := (globalEnvIdx g)(key \<mapsto> length (globalEnv g)),
                    globalEnv := globalEnv g @ [varStr], globalEnvVer := globalEnvVer g + 1\<rparr>,
                  notifyEnvListeners g varStr False))"

definition GlobalUnsetEnv :: "string \<Rightarrow> GlobalEnv \<Rightarrow> (GlobalEnv \<times> env_event list) option" where
  "GlobalUnsetEnv key g =
    (case globalEnvIdx g key of
       None \<Rightarrow> Some (g, [])
     | Some idx \<Rightarrow>
        (let n = length (globalEnv g); lst = n - 1
         in if n = 0 \<or> idx > lst then None
            else let moved = globalEnv g ! lst;
                     env = (if idx \<noteq> lst then (globalEnv g)[idx := moved] else globalEnv g);
                     ix = (if idx \<noteq> lst
                           then (case cut_eq moved of Some (k, _) \<Rightarrow> (globalEnvIdx g)(k \<mapsto> idx)
                                 | None \<Rightarrow> globalEnvIdx g)
                           else globalEnvIdx g)
              in Some (g\<lparr>globalEnv := take lst env, globalEnvIdx := ix(key := None),
                         globalEnvVer := globalEnvVer g + 1\<rparr>,
                       notifyEnvListeners g key True)))"

definition AddEnvListener :: "nat \<Rightarrow> GlobalEnv \<Rightarrow> GlobalEnv" where
  "AddEnvListener l g = g\<lparr>envListeners := envListeners g @ [l]\<rparr>"

definition RemoveEnvListener :: "nat \<Rightarrow> GlobalEnv \<Rightarrow> GlobalEnv" where
  "RemoveEnvListener l g = g\<lparr>envListeners := swap_remove l (envListeners g)\<rparr>"

section \<open>The index and the snapshot are coherent\<close>

text \<open>The environment as a map, the abstract view of the entry list.\<close>

definition env_map :: "string list \<Rightarrow> (string \<rightharpoonup> string)" where
  "env_map es = map_of (List.map_filter cut_eq es)"

definition idx_ok :: "GlobalEnv \<Rightarrow> bool" where
  "idx_ok g \<longleftrightarrow> (\<forall>k i. globalEnvIdx g k = Some i \<longleftrightarrow>
      i < length (globalEnv g) \<and> env_key (globalEnv g ! i) = Some k)"

definition snap_ok :: "GlobalEnv \<Rightarrow> bool" where
  "snap_ok g \<longleftrightarrow> globalEnvSnapV g \<le> globalEnvVer g
     \<and> (globalEnvSnapV g = globalEnvVer g \<longrightarrow> globalEnvSnap g \<in> {None, Some (globalEnv g)})"

lemma idx_okD: "idx_ok g \<Longrightarrow> globalEnvIdx g k = Some i \<Longrightarrow> i < length (globalEnv g) \<and> env_key (globalEnv g ! i) = Some k"
  by (simp add: idx_ok_def)

lemma idx_ok_unique:
  assumes "idx_ok g" "i < length (globalEnv g)" "j < length (globalEnv g)"
    "env_key (globalEnv g ! i) = Some k" "env_key (globalEnv g ! j) = Some k"
  shows "i = j"
  using assms unfolding idx_ok_def by (metis option.inject)

text \<open>With unique keys a lookup is membership of the entry.\<close>

lemma env_map_Some:
  assumes uniq: "\<And>i j k. \<lbrakk>i < length es; j < length es; env_key (es ! i) = Some k; env_key (es ! j) = Some k\<rbrakk> \<Longrightarrow> i = j"
  shows "env_map es k = Some v \<longleftrightarrow> (\<exists>i < length es. cut_eq (es ! i) = Some (k, v))"
proof -
  have "env_map es k = Some v \<longleftrightarrow> (k, v) \<in> set (List.map_filter cut_eq es)"
    if "distinct (map fst (List.map_filter cut_eq es))"
    using that by (simp add: env_map_def)
  moreover have "distinct (map fst (List.map_filter cut_eq es))"
    using uniq
  proof (induction es)
    case (Cons e es)
    have tl: "distinct (map fst (List.map_filter cut_eq es))"
      by (rule Cons.IH) (use Cons.prems [of "Suc _" "Suc _"] in auto)
    show ?case
    proof (cases "cut_eq e")
      case None
      with tl show ?thesis by (simp add: List.map_filter_simps)
    next
      case (Some kv)
      have "fst kv \<notin> fst ` set (List.map_filter cut_eq es)"
      proof
        assume "fst kv \<in> fst ` set (List.map_filter cut_eq es)"
        then obtain j kv' where "j < length es" "cut_eq (es ! j) = Some kv'" "fst kv' = fst kv"
          by (auto simp: List.map_filter_def in_set_conv_nth)
        then show False
          using Cons.prems [of 0 "Suc j" "fst kv"] Some by (simp add: env_key_def)
      qed
      with tl Some show ?thesis by (simp add: List.map_filter_simps)
    qed
  qed simp
  ultimately show ?thesis
    by (auto simp: List.map_filter_def in_set_conv_nth) force+
qed

lemma env_map_idx_ok:
  assumes "idx_ok g"
  shows "env_map (globalEnv g) k =
    (case globalEnvIdx g k of None \<Rightarrow> None | Some i \<Rightarrow> map_option snd (cut_eq (globalEnv g ! i)))"
proof -
  have eq: "env_map (globalEnv g) k = Some v \<longleftrightarrow> (\<exists>i < length (globalEnv g). cut_eq (globalEnv g ! i) = Some (k, v))" for v
    by (rule env_map_Some) (use idx_ok_unique [OF assms] in blast)
  show ?thesis
  proof (cases "globalEnvIdx g k")
    case None
    then have "\<not> (\<exists>i < length (globalEnv g). cut_eq (globalEnv g ! i) = Some (k, v))" for v
      using assms None unfolding idx_ok_def env_key_def
      by (metis (no_types, lifting) fst_conv option.map(2) option.distinct(1))
    with eq None show ?thesis by (metis (no_types, lifting) option.case(1) not_Some_eq)
  next
    case (Some i)
    with idx_okD [OF assms Some] eq show ?thesis
      by (auto simp: env_key_def)
  qed
qed

lemma idx_okI_map:
  assumes "\<And>k i. globalEnvIdx g k = Some i \<Longrightarrow> i < length (globalEnv g) \<and> env_key (globalEnv g ! i) = Some k"
    and "\<And>k i. i < length (globalEnv g) \<Longrightarrow> env_key (globalEnv g ! i) = Some k \<Longrightarrow> globalEnvIdx g k = Some i"
  shows "idx_ok g"
  using assms unfolding idx_ok_def by blast


lemma env_map_ext:
  assumes "idx_ok g" "idx_ok g'"
    and "\<And>k v. (\<exists>i < length (globalEnv g'). cut_eq (globalEnv g' ! i) = Some (k, v)) \<longleftrightarrow> m k = Some v"
  shows "env_map (globalEnv g') = m"
proof
  fix k
  have "env_map (globalEnv g') k = Some v \<longleftrightarrow> m k = Some v" for v
    using env_map_Some [of "globalEnv g'" k v] idx_ok_unique [OF assms(2)] assms(3) by blast
  then show "env_map (globalEnv g') k = m k"
    by (metis not_Some_eq)
qed

lemma env_map_mem:
  assumes "idx_ok g"
  shows "(\<exists>i < length (globalEnv g). cut_eq (globalEnv g ! i) = Some (k, v)) \<longleftrightarrow> env_map (globalEnv g) k = Some v"
  using env_map_Some [of "globalEnv g" k v] idx_ok_unique [OF assms] by blast

lemma GlobalSetEnv_new:
  assumes ok: "idx_ok g" and key: "CHR ''='' \<notin> set key" and new: "globalEnvIdx g key = None"
  shows "\<exists>g'. GlobalSetEnv key v g = Some (g', notifyEnvListeners g (entry key v) False)
     \<and> idx_ok g' \<and> env_map (globalEnv g') = (env_map (globalEnv g))(key \<mapsto> v)"
proof -
  let ?g = "g\<lparr>globalEnvIdx := (globalEnvIdx g)(key \<mapsto> length (globalEnv g)),
     globalEnv := globalEnv g @ [entry key v], globalEnvVer := globalEnvVer g + 1\<rparr>"
  have ek: "env_key (entry key v) = Some key" using key by (simp add: env_key_def)
  have fresh: "i < length (globalEnv g) \<Longrightarrow> env_key (globalEnv g ! i) \<noteq> Some key" for i
    using ok new unfolding idx_ok_def by (metis option.distinct(1))
  have ok': "idx_ok ?g"
  proof (rule idx_okI_map)
    fix k i
    show "i < length (globalEnv ?g) \<and> env_key (globalEnv ?g ! i) = Some k" if "globalEnvIdx ?g k = Some i"
      using that ek idx_okD [OF ok, of k i] by (auto simp: nth_append split: if_splits)
    show "globalEnvIdx ?g k = Some i" if "i < length (globalEnv ?g)" "env_key (globalEnv ?g ! i) = Some k"
      using that ek ok fresh [of i] by (cases "i < length (globalEnv g)") (auto simp: nth_append idx_ok_def)
  qed
  have "env_map (globalEnv ?g) = (env_map (globalEnv g))(key \<mapsto> v)"
  proof (rule env_map_ext [OF ok ok'])
    fix k' v'
    have "cut_eq (entry key v) = Some (key, v)" using key by simp
    then have "(\<exists>i < length (globalEnv ?g). cut_eq (globalEnv ?g ! i) = Some (k', v')) \<longleftrightarrow>
        (\<exists>i < length (globalEnv g). cut_eq (globalEnv g ! i) = Some (k', v')) \<or> (k', v') = (key, v)"
      by (simp add: nth_append Ex_less_Suc) auto
    also have "\<dots> \<longleftrightarrow> ((env_map (globalEnv g))(key \<mapsto> v)) k' = Some v'"
      using env_map_mem [OF ok, of k' v'] env_map_idx_ok [OF ok, of key] new by auto
    finally show "(\<exists>i < length (globalEnv ?g). cut_eq (globalEnv ?g ! i) = Some (k', v')) \<longleftrightarrow>
        ((env_map (globalEnv g))(key \<mapsto> v)) k' = Some v'" .
  qed
  with ok' new show ?thesis by (auto simp: GlobalSetEnv_def Let_def)
qed

lemma GlobalSetEnv_override:
  assumes ok: "idx_ok g" and key: "CHR ''='' \<notin> set key" and old: "globalEnvIdx g key = Some idx"
  shows "\<exists>g'. GlobalSetEnv key v g = Some (g', notifyEnvListeners g (entry key v) True)
     \<and> idx_ok g' \<and> env_map (globalEnv g') = (env_map (globalEnv g))(key \<mapsto> v)"
proof -
  let ?g = "g\<lparr>globalEnv := (globalEnv g)[idx := entry key v], globalEnvVer := globalEnvVer g + 1\<rparr>"
  have ek: "env_key (entry key v) = Some key" using key by (simp add: env_key_def)
  note at = idx_okD [OF ok old]
  have ok': "idx_ok ?g"
    using ok ek at unfolding idx_ok_def by (auto simp: nth_list_update)
  have "env_map (globalEnv ?g) = (env_map (globalEnv g))(key \<mapsto> v)"
  proof (rule env_map_ext [OF ok ok'])
    fix k' v'
    have c: "cut_eq (entry key v) = Some (key, v)" using key by simp
    have other: "i < length (globalEnv g) \<Longrightarrow> cut_eq (globalEnv g ! i) = Some (key, u) \<Longrightarrow> i = idx" for i u
      using idx_ok_unique [OF ok, of i idx key] at by (simp add: env_key_def)
    have "(\<exists>i < length (globalEnv ?g). cut_eq (globalEnv ?g ! i) = Some (k', v')) \<longleftrightarrow>
        (if k' = key then v' = v else (\<exists>i < length (globalEnv g). cut_eq (globalEnv g ! i) = Some (k', v')))"
    proof (cases "k' = key")
      case True
      then show ?thesis using c at other by (auto simp: nth_list_update split: if_splits)
    next
      case False
      then have "cut_eq ((globalEnv g)[idx := entry key v] ! i) = Some (k', v') \<longleftrightarrow> cut_eq (globalEnv g ! i) = Some (k', v')"
        if "i < length (globalEnv g)" for i
        using at c that by (cases "i = idx") (auto simp: env_key_def)
      with False show ?thesis by auto
    qed
    also have "\<dots> \<longleftrightarrow> ((env_map (globalEnv g))(key \<mapsto> v)) k' = Some v'"
      using env_map_mem [OF ok, of k' v'] by auto
    finally show "(\<exists>i < length (globalEnv ?g). cut_eq (globalEnv ?g ! i) = Some (k', v')) \<longleftrightarrow>
        ((env_map (globalEnv g))(key \<mapsto> v)) k' = Some v'" .
  qed
  with ok' old at show ?thesis by (auto simp: GlobalSetEnv_def Let_def)
qed

text \<open>Removal moves the last entry into the hole: the entries that remain are all but the removed one.\<close>

lemma swap_last_nth:
  assumes "idx < length xs"
  shows "(\<exists>i < length xs - 1. P ((take (length xs - 1) (xs[idx := last xs])) ! i))
     \<longleftrightarrow> (\<exists>i < length xs. i \<noteq> idx \<and> P (xs ! i))"
proof -
  have l: "last xs = xs ! (length xs - 1)" using assms by (intro last_conv_nth) auto
  show ?thesis
  proof
    assume "\<exists>i < length xs - 1. P ((take (length xs - 1) (xs[idx := last xs])) ! i)"
    then obtain i where "i < length xs - 1" "P (xs[idx := last xs] ! i)" by auto
    then show "\<exists>i < length xs. i \<noteq> idx \<and> P (xs ! i)"
      using l by (cases "i = idx") (auto intro: exI [of _ "length xs - 1"] exI [of _ i])
  next
    assume "\<exists>i < length xs. i \<noteq> idx \<and> P (xs ! i)"
    then obtain i where i: "i < length xs" "i \<noteq> idx" "P (xs ! i)" by auto
    show "\<exists>i < length xs - 1. P ((take (length xs - 1) (xs[idx := last xs])) ! i)"
    proof (cases "i = length xs - 1")
      case True
      then have "idx < length xs - 1" using assms i(2) by linarith
      then show ?thesis using True i l assms by (intro exI [of _ idx]) auto
    next
      case False
      then show ?thesis using i by (intro exI [of _ i]) auto
    qed
  qed
qed

lemma unset_state:
  assumes ok: "idx_ok g" and old: "globalEnvIdx g key = Some idx"
  shows "\<exists>ix. GlobalUnsetEnv key g =
      Some (g\<lparr>globalEnv := take (length (globalEnv g) - 1) ((globalEnv g)[idx := last (globalEnv g)]),
              globalEnvIdx := ix, globalEnvVer := globalEnvVer g + 1\<rparr>, notifyEnvListeners g key True)
    \<and> (\<forall>k i. ix k = Some i \<longleftrightarrow> i < length (globalEnv g) - 1
         \<and> env_key ((globalEnv g)[idx := last (globalEnv g)] ! i) = Some k)"
proof -
  let ?n = "length (globalEnv g) - 1"
  note at = idx_okD [OF ok old]
  have l: "last (globalEnv g) = globalEnv g ! ?n" using at by (intro last_conv_nth) auto
  have uniq: "i < length (globalEnv g) \<Longrightarrow> env_key (globalEnv g ! i) = Some k \<longleftrightarrow> globalEnvIdx g k = Some i" for i k
    using ok by (simp add: idx_ok_def)
  show ?thesis
  proof (cases "idx = ?n")
    case True
    have "(globalEnv g)[idx := last (globalEnv g)] = globalEnv g" using True l by simp
    moreover have "((globalEnvIdx g)(key := None)) k = Some i \<longleftrightarrow> i < ?n \<and> env_key (globalEnv g ! i) = Some k" for k i
    proof -
      have "i < length (globalEnv g) \<longleftrightarrow> i < ?n \<or> i = ?n" using at by auto
      then show ?thesis
        using True at old uniq [of i k] uniq [of ?n k] idx_okD [OF ok, of k i] by auto
    qed
    moreover have "globalEnv g \<noteq> []" using at by auto
    ultimately show ?thesis
      using True old by (intro exI [of _ "(globalEnvIdx g)(key := None)"]) (simp add: GlobalUnsetEnv_def)
  next
    case False
    with at have lt: "idx < ?n" by linarith
    define ix where "ix = (case env_key (globalEnv g ! ?n) of Some k \<Rightarrow> (globalEnvIdx g)(k \<mapsto> idx) | None \<Rightarrow> globalEnvIdx g)(key := None)"
    have "GlobalUnsetEnv key g =
      Some (g\<lparr>globalEnv := take ?n ((globalEnv g)[idx := last (globalEnv g)]),
              globalEnvIdx := ix, globalEnvVer := globalEnvVer g + 1\<rparr>, notifyEnvListeners g key True)"
      using False lt old l by (auto simp: GlobalUnsetEnv_def Let_def ix_def env_key_def split: option.splits)
    moreover have "ix k = Some i \<longleftrightarrow> i < ?n \<and> env_key ((globalEnv g)[idx := last (globalEnv g)] ! i) = Some k" for k i
    proof (cases "k = key")
      case True
      then show ?thesis
        using old lt l uniq [of i key] uniq [of ?n key] by (cases "i = idx") (auto simp: ix_def)
    next
      case False
      obtain n where n: "length (globalEnv g) = Suc n" using at by (cases "length (globalEnv g)") auto
      have i: "globalEnvIdx g k = Some j \<longleftrightarrow> j < Suc n \<and> env_key (globalEnv g ! j) = Some k" for j
        using uniq [of j k] idx_okD [OF ok, of k j] n by auto
      have one: "j < Suc n \<Longrightarrow> env_key (globalEnv g ! j) = Some k \<Longrightarrow> env_key (globalEnv g ! n) = Some k \<Longrightarrow> j = n" for j
        using i [of j] i [of n] by simp
      show ?thesis
        using False at lt l n i [of i] one [of i]
        by (cases "i = idx") (auto simp: ix_def less_Suc_eq split: option.splits if_splits)
    qed
    ultimately show ?thesis by blast
  qed
qed

lemma GlobalUnsetEnv_present:
  assumes ok: "idx_ok g" and old: "globalEnvIdx g key = Some idx"
  shows "\<exists>g'. GlobalUnsetEnv key g = Some (g', notifyEnvListeners g key True)
     \<and> idx_ok g' \<and> env_map (globalEnv g') = (env_map (globalEnv g))(key := None)"
proof -
  note at = idx_okD [OF ok old]
  obtain ix where ix: "GlobalUnsetEnv key g =
      Some (g\<lparr>globalEnv := take (length (globalEnv g) - 1) ((globalEnv g)[idx := last (globalEnv g)]),
              globalEnvIdx := ix, globalEnvVer := globalEnvVer g + 1\<rparr>, notifyEnvListeners g key True)"
    and ixs: "\<And>k i. ix k = Some i \<longleftrightarrow> i < length (globalEnv g) - 1
         \<and> env_key ((globalEnv g)[idx := last (globalEnv g)] ! i) = Some k"
    using unset_state [OF assms] by blast
  let ?g = "g\<lparr>globalEnv := take (length (globalEnv g) - 1) ((globalEnv g)[idx := last (globalEnv g)]),
              globalEnvIdx := ix, globalEnvVer := globalEnvVer g + 1\<rparr>"
  have ok': "idx_ok ?g"
    by (rule idx_okI_map) (simp_all add: ixs)
  have "env_map (globalEnv ?g) = (env_map (globalEnv g))(key := None)"
  proof (rule env_map_ext [OF ok ok'])
    fix k' v'
    have "(\<exists>i < length (globalEnv ?g). cut_eq (globalEnv ?g ! i) = Some (k', v')) \<longleftrightarrow>
        (\<exists>i < length (globalEnv g). i \<noteq> idx \<and> cut_eq (globalEnv g ! i) = Some (k', v'))"
      using swap_last_nth [of idx "globalEnv g" "\<lambda>e. cut_eq e = Some (k', v')"] at
      by simp
    also have "\<dots> \<longleftrightarrow> k' \<noteq> key \<and> (\<exists>i < length (globalEnv g). cut_eq (globalEnv g ! i) = Some (k', v'))"
    proof -
      have "i = idx \<longleftrightarrow> k' = key" if "i < length (globalEnv g)" "cut_eq (globalEnv g ! i) = Some (k', v')" for i
        using at that idx_ok_unique [OF ok, of i idx key] by (auto simp: env_key_def)
      then show ?thesis by blast
    qed
    also have "\<dots> \<longleftrightarrow> ((env_map (globalEnv g))(key := None)) k' = Some v'"
      using env_map_mem [OF ok, of k' v'] by auto
    finally show "(\<exists>i < length (globalEnv ?g). cut_eq (globalEnv ?g ! i) = Some (k', v')) \<longleftrightarrow>
        ((env_map (globalEnv g))(key := None)) k' = Some v'" .
  qed
  with ok' ix show ?thesis by blast
qed

text \<open>
  Setting a variable never panics, keeps the index exact, and is an update of the
  environment seen as a map; every listener is told the new entry, with the override flag exactly
  when the variable existed.
\<close>

lemma GlobalSetEnv_refines_map:
  assumes "idx_ok g" and "CHR ''='' \<notin> set key"
  shows "\<exists>g'. GlobalSetEnv key v g = Some (g', notifyEnvListeners g (entry key v) (globalEnvIdx g key \<noteq> None))
     \<and> idx_ok g' \<and> env_map (globalEnv g') = (env_map (globalEnv g))(key \<mapsto> v)"
  using GlobalSetEnv_new [OF assms, of v] GlobalSetEnv_override [OF assms, of _ v]
  by (cases "globalEnvIdx g key") auto

definition sample_env :: GlobalEnv where
  "sample_env = SetGlobalEnv [''A=1'', ''B=2'', ''C=3''] (AddEnvListener 7 empty_env)"

lemma less_3_cases: "i < Suc (Suc (Suc 0)) \<longleftrightarrow> i = 0 \<or> i = 1 \<or> i = (2 :: nat)"
  by auto

lemma sample_env_ok: "idx_ok sample_env"
proof (rule idx_okI_map)
  fix k i
  show "i < length (globalEnv sample_env) \<and> env_key (globalEnv sample_env ! i) = Some k" if "globalEnvIdx sample_env k = Some i"
    using that by (auto simp: sample_env_def SetGlobalEnv_def AddEnvListener_def empty_env_def env_key_def split: if_splits)
  assume "i < length (globalEnv sample_env)" and key: "env_key (globalEnv sample_env ! i) = Some k"
  then consider "i = 0" | "i = 1" | "i = 2"
    by (auto simp: sample_env_def SetGlobalEnv_def less_3_cases)
  then show "globalEnvIdx sample_env k = Some i"
    using key by cases (auto simp: sample_env_def SetGlobalEnv_def AddEnvListener_def empty_env_def env_key_def)
qed

lemma GlobalSetEnv_refines_map_witness:
  "\<exists>g'. GlobalSetEnv ''B'' ''x'' sample_env = Some (g', [(7, ''B=x'', True)])
     \<and> idx_ok g' \<and> env_map (globalEnv g') = (env_map (globalEnv sample_env))(''B'' \<mapsto> ''x'')"
  using GlobalSetEnv_refines_map [OF sample_env_ok, of "''B''" "''x''"]
  by (simp add: sample_env_def SetGlobalEnv_def AddEnvListener_def empty_env_def notifyEnvListeners_def entry_def)

text \<open>
  Unsetting a variable never panics, although the removal moves the last entry into
  the hole: the index stays exact and the environment loses exactly that key.  Listeners are told
  only when the variable existed.
\<close>

lemma GlobalUnsetEnv_refines_map:
  assumes "idx_ok g"
  shows "\<exists>g'. GlobalUnsetEnv key g =
       Some (g', if globalEnvIdx g key = None then [] else notifyEnvListeners g key True)
     \<and> idx_ok g' \<and> env_map (globalEnv g') = (env_map (globalEnv g))(key := None)"
proof (cases "globalEnvIdx g key")
  case None
  then have "env_map (globalEnv g) key = None" using env_map_idx_ok [OF assms] by simp
  with None assms show ?thesis by (simp add: GlobalUnsetEnv_def fun_upd_idem)
next
  case (Some idx)
  with GlobalUnsetEnv_present [OF assms Some] show ?thesis by simp
qed

lemma GlobalUnsetEnv_refines_map_witness:
  "\<exists>g'. GlobalUnsetEnv ''A'' sample_env = Some (g', [(7, ''A'', True)])
     \<and> idx_ok g' \<and> env_map (globalEnv g') = (env_map (globalEnv sample_env))(''A'' := None)"
  using GlobalUnsetEnv_refines_map [OF sample_env_ok, of "''A''"]
  by (simp add: sample_env_def SetGlobalEnv_def AddEnvListener_def empty_env_def notifyEnvListeners_def)

lemma u64_bump: "(a :: u64) \<le> b \<Longrightarrow> b \<noteq> - 1 \<Longrightarrow> a < b + 1"
proof -
  assume a: "a \<le> b" "b \<noteq> - 1"
  have n: "b + 1 \<noteq> 0" using a(2) by (simp add: add_eq_0_iff2)
  then have "unat (b + 1) = Suc (unat b)" by (simp add: unatSuc add.commute)
  with a(1) show ?thesis by (simp add: word_less_nat_alt word_le_nat_alt)
qed

text \<open>
  The cached snapshot is never stale: a read returns the current entries, and every
  operation keeps the cache coherent as long as the 64-bit version counter has not wrapped.
\<close>

lemma GlobalEnv_snapshot_fresh:
  assumes "snap_ok g" and "globalEnvVer g \<noteq> - 1"
  shows "fst (GetGlobalEnv g) = globalEnv g \<and> snap_ok (snd (GetGlobalEnv g)) \<and> snap_ok (SetGlobalEnv es g)
    \<and> (\<forall>g' evs. GlobalSetEnv k v g = Some (g', evs) \<or> GlobalUnsetEnv k g = Some (g', evs) \<longrightarrow> snap_ok g')"
proof -
  have bump: "snap_ok g'" if "globalEnvVer g' = globalEnvVer g + 1" "globalEnvSnapV g' = globalEnvSnapV g" for g'
    using u64_bump [OF _ assms(2)] assms(1) that by (simp add: snap_ok_def) (metis order.strict_iff_order)
  have "snap_ok g'" if "GlobalSetEnv k v g = Some (g', evs)" for g' evs
    using that by (auto intro!: bump simp: GlobalSetEnv_def Let_def split: option.splits if_splits)
  moreover have "snap_ok g'" if "GlobalUnsetEnv k g = Some (g', evs)" for g' evs
  proof (cases "globalEnvIdx g k")
    case None
    with that assms show ?thesis by (simp add: GlobalUnsetEnv_def)
  next
    case (Some idx)
    have "globalEnvVer g' = globalEnvVer g + 1 \<and> globalEnvSnapV g' = globalEnvSnapV g"
      using that by (auto simp: GlobalUnsetEnv_def Let_def Some simp del: One_nat_def split: if_splits)
    then show ?thesis by (blast intro: bump)
  qed
  moreover have "fst (GetGlobalEnv g) = globalEnv g" "snap_ok (snd (GetGlobalEnv g))"
    using assms(1) by (auto simp: GetGlobalEnv_def snap_ok_def split: option.splits)
  moreover have "snap_ok (SetGlobalEnv es g)"
    by (rule bump) (simp_all add: SetGlobalEnv_def)
  ultimately show ?thesis by blast
qed

lemma GlobalEnv_snapshot_fresh_witness:
  "snap_ok sample_env \<and> fst (GetGlobalEnv sample_env) = [''A=1'', ''B=2'', ''C=3'']"
proof -
  have s: "snap_ok sample_env" "globalEnvVer sample_env \<noteq> - 1"
    by (simp_all add: snap_ok_def sample_env_def SetGlobalEnv_def AddEnvListener_def empty_env_def)
  from GlobalEnv_snapshot_fresh [OF this] s(1) show ?thesis
    by (simp add: sample_env_def SetGlobalEnv_def)
qed

section \<open>The environment of one service\<close>

text \<open>
  \<open>BuildEnvSlice\<close>, \<open>BuildFullEnv\<close> and \<open>BuildEnvWithFile\<close> append the record's own variables after the
  daemon's; the Go maps are lists of pairs in the order the iteration yields them.  A file that cannot
  be read counts as an empty one.
\<close>

definition BuildEnvSlice :: "(string \<times> string) list \<Rightarrow> string list" where
  "BuildEnvSlice extraEnv = map (\<lambda>(k, v). k @ ''='' @ v) extraEnv"

fun indexByteFast :: "string \<Rightarrow> char \<Rightarrow> int" where
  "indexByteFast [] c = -1"
| "indexByteFast (x # xs) c =
    (if x = c then 0 else let i = indexByteFast xs c in if i < 0 then i else i + 1)"

definition has_prefix :: "string \<Rightarrow> string \<Rightarrow> bool" where
  "has_prefix pre s \<longleftrightarrow> length s \<ge> length pre \<and> take (length pre) s = pre"

definition replaceOrAppendEnv :: "string list \<Rightarrow> string \<Rightarrow> string \<Rightarrow> string list" where
  "replaceOrAppendEnv env name value =
    (let pre = name @ ''='' in
     case find_index (has_prefix pre) env of
       Some i \<Rightarrow> env[i := pre @ value]
     | None \<Rightarrow> env @ [pre @ value])"

record env_filters =
  passEnvironment :: "string list"
  passEnvSet :: bool
  unsetEnvironment :: "string list"
  execSearchPath :: string

definition keep_entry :: "env_filters \<Rightarrow> string \<Rightarrow> bool" where
  "keep_entry sr kv =
    (let eq = indexByteFast kv (CHR ''=''); name = take (nat eq) kv
     in if eq \<le> 0 then False
        else if passEnvSet sr \<and> name \<notin> set (passEnvironment sr @ [''SLINIT_SERVICENAME'', ''SLINIT_SERVICEDSCDIR'']) then False
        else name \<notin> set (unsetEnvironment sr))"

definition applyBucketDEnvFilters :: "env_filters \<Rightarrow> string list \<Rightarrow> string list" where
  "applyBucketDEnvFilters sr env =
    (if \<not> passEnvSet sr \<and> unsetEnvironment sr = [] \<and> execSearchPath sr = [] then env
     else let out = filter (keep_entry sr) env
       in if execSearchPath sr \<noteq> [] then replaceOrAppendEnv out ''PATH'' (execSearchPath sr) else out)"

definition BuildFullEnv :: "env_filters \<Rightarrow> string list \<Rightarrow> (string \<times> string) list \<Rightarrow> string list" where
  "BuildFullEnv sr genv extraEnv =
    (if genv = [] \<and> BuildEnvSlice extraEnv = [] then []
     else applyBucketDEnvFilters sr (genv @ BuildEnvSlice extraEnv))"

definition BuildEnvWithFile ::
  "env_filters \<Rightarrow> string list \<Rightarrow> (string \<times> string) list option \<Rightarrow> (string \<times> string) list \<Rightarrow> string list" where
  "BuildEnvWithFile sr genv file extraEnv =
    (let fileEnv = (case file of Some m \<Rightarrow> m | None \<Rightarrow> [])
     in if genv = [] \<and> fileEnv = [] \<and> BuildEnvSlice extraEnv = [] then []
        else applyBucketDEnvFilters sr (genv @ map (\<lambda>(k, v). k @ ''='' @ v) fileEnv @ BuildEnvSlice extraEnv))"

lemma indexByteFast_cut:
  "indexByteFast s (CHR ''='') = (case cut_eq s of None \<Rightarrow> -1 | Some (k, _) \<Rightarrow> int (length k))"
  by (induction s) (auto split: option.splits)

lemma keep_entry_iff:
  "keep_entry sr kv \<longleftrightarrow> (\<exists>k v. cut_eq kv = Some (k, v) \<and> k \<noteq> []
     \<and> (passEnvSet sr \<longrightarrow> k \<in> set (passEnvironment sr) \<union> {''SLINIT_SERVICENAME'', ''SLINIT_SERVICEDSCDIR''})
     \<and> k \<notin> set (unsetEnvironment sr))"
proof (cases "cut_eq kv")
  case (Some p)
  obtain k v where kv: "p = (k, v)" by (cases p)
  with Some have "take (length k) kv = k" using cut_eq_SomeD [of kv k v] by (simp add: entry_def)
  with Some kv show ?thesis by (auto simp: keep_entry_def indexByteFast_cut Let_def)
qed (simp add: keep_entry_def indexByteFast_cut)

lemma replaceOrAppendEnv_mem: "name @ ''='' @ value \<in> set (replaceOrAppendEnv env name value)"
  by (auto simp: replaceOrAppendEnv_def Let_def dest: find_index_SomeD intro: set_update_memI split: option.splits)

lemma set_replaceOrAppendEnv:
  "set (replaceOrAppendEnv env name value) \<subseteq> insert (name @ ''='' @ value) (set env)"
  by (auto simp: replaceOrAppendEnv_def Let_def split: option.splits dest: subsetD [OF set_update_subset_insert])

text \<open>
  What the filters of a service let through: with an allow-list in force every
  entry of the result names an allowed variable (or is the search path), no entry names a removed
  variable (the search path apart), and a configured search path is always present.
\<close>

lemma env_filters_effect:
  assumes "out = applyBucketDEnvFilters sr env"
  shows "(\<forall>e \<in> set out. e \<noteq> ''PATH='' @ execSearchPath sr \<longrightarrow> e \<in> set env
       \<and> (passEnvSet sr \<longrightarrow> (\<exists>k v. e = entry k v \<and> k \<noteq> [] \<and>
            k \<in> set (passEnvironment sr) \<union> {''SLINIT_SERVICENAME'', ''SLINIT_SERVICEDSCDIR''}))
       \<and> (\<forall>k \<in> set (unsetEnvironment sr). CHR ''='' \<notin> set k \<longrightarrow> (\<forall>v. e \<noteq> entry k v)))
    \<and> (execSearchPath sr \<noteq> [] \<longrightarrow> ''PATH='' @ execSearchPath sr \<in> set out)"
proof -
  have kept: "e \<in> set env \<and> (passEnvSet sr \<or> unsetEnvironment sr \<noteq> [] \<or> execSearchPath sr \<noteq> [] \<longrightarrow> keep_entry sr e)"
    if "e \<in> set out" "e \<noteq> ''PATH='' @ execSearchPath sr" for e
    using that assms set_replaceOrAppendEnv [of "filter (keep_entry sr) env" "''PATH''" "execSearchPath sr"]
    by (auto simp: applyBucketDEnvFilters_def Let_def split: if_splits)
  have "\<exists>k v. e = entry k v \<and> k \<noteq> [] \<and>
           k \<in> set (passEnvironment sr) \<union> {''SLINIT_SERVICENAME'', ''SLINIT_SERVICEDSCDIR''}"
    if "passEnvSet sr" "keep_entry sr e" for e
    using that unfolding keep_entry_iff by (blast dest: cut_eq_SomeD)
  moreover have "e \<noteq> entry k v"
    if "keep_entry sr e" "CHR ''='' \<notin> set k" "k \<in> set (unsetEnvironment sr)" for e k v
    using that by (auto simp: keep_entry_iff)
  moreover have "''PATH='' @ execSearchPath sr \<in> set out" if "execSearchPath sr \<noteq> []"
    using that assms replaceOrAppendEnv_mem [of "''PATH''" "execSearchPath sr"]
    by (simp add: applyBucketDEnvFilters_def)
  moreover have "unsetEnvironment sr \<noteq> []" if "k \<in> set (unsetEnvironment sr)" for k
    using that by auto
  ultimately show ?thesis using kept by blast
qed

lemma env_filters_effect_witness:
  "let sr = \<lparr>passEnvironment = [''HOME'', ''LANG''], passEnvSet = True, unsetEnvironment = [''LANG''],
             execSearchPath = ''/bin''\<rparr>;
       out = applyBucketDEnvFilters sr [''HOME=/r'', ''LANG=C'', ''X=1'', ''PATH=/usr'']
   in out = [''HOME=/r'', ''PATH=/bin''] \<and> ''HOME=/r'' \<in> set [''HOME=/r'', ''LANG=C'', ''X=1'', ''PATH=/usr'']
      \<and> ''PATH=/bin'' \<in> set out"
proof -
  let ?sr = "\<lparr>passEnvironment = [''HOME'', ''LANG''], passEnvSet = True, unsetEnvironment = [''LANG''],
             execSearchPath = ''/bin''\<rparr>"
  have out: "applyBucketDEnvFilters ?sr [''HOME=/r'', ''LANG=C'', ''X=1'', ''PATH=/usr''] = [''HOME=/r'', ''PATH=/bin'']"
    by code_simp
  show ?thesis
    using env_filters_effect [OF out [symmetric]] by (simp add: out Let_def)
qed

end
