(* ===== verification/LogBuffer.thy ===== *)
theory LogBuffer
  imports Prelude
begin

text \<open>
  \<open>pkg/service/logbuffer.go\<close>: the bounded in-memory log of a service.  One turn of \<open>readLoop\<close> is
  \<open>read_chunk\<close> on the bytes the pipe delivered; bytes are HOL characters.  The pipe ends are the
  descriptors \<open>os.Pipe\<close> returned, or \<open>None\<close> for a nil file.
\<close>

record LogBuffer =
  lb_buf :: string
  bufMax :: int
  pipeR :: "nat option"
  pipeW :: "nat option"
  lb_running :: bool

definition defaultLogBufMax :: int where "defaultLogBufMax = 8192"

definition NewLogBuffer :: "int \<Rightarrow> LogBuffer" where
  "NewLogBuffer maxSize =
    \<lparr>lb_buf = [], bufMax = (if maxSize \<le> 0 then defaultLogBufMax else maxSize),
     pipeR = None, pipeW = None, lb_running = False\<rparr>"

definition CreatePipe :: "(nat \<times> nat) option \<Rightarrow> LogBuffer \<Rightarrow> nat option \<times> LogBuffer" where
  "CreatePipe ospipe lb =
    (case ospipe of
       None \<Rightarrow> (None, lb)
     | Some (r, w) \<Rightarrow> (Some w, lb\<lparr>pipeR := Some r, pipeW := Some w\<rparr>))"

definition CloseWriteEnd :: "LogBuffer \<Rightarrow> LogBuffer" where
  "CloseWriteEnd lb = lb\<lparr>pipeW := None\<rparr>"

definition StartReader :: "LogBuffer \<Rightarrow> LogBuffer" where
  "StartReader lb = (if pipeR lb = None then lb else if lb_running lb then lb else lb\<lparr>lb_running := True\<rparr>)"

definition read_chunk :: "string \<Rightarrow> LogBuffer \<Rightarrow> LogBuffer" where
  "read_chunk tmp lb =
    (let n = int (length tmp); remaining = bufMax lb - int (length (lb_buf lb))
     in if n > 0 \<and> remaining > 0
        then lb\<lparr>lb_buf := lb_buf lb @ take (nat (if n > remaining then remaining else n)) tmp\<rparr>
        else lb)"

definition GetBuffer :: "LogBuffer \<Rightarrow> string" where
  "GetBuffer lb = lb_buf lb"

definition GetBufferAndClear :: "LogBuffer \<Rightarrow> string \<times> LogBuffer" where
  "GetBufferAndClear lb = (lb_buf lb, lb\<lparr>lb_buf := []\<rparr>)"

definition restart_note :: string where
  "restart_note = ''(slinit: note: service restarted)'' @ [CHR 0x0A]"

definition AppendRestartMarker :: "LogBuffer \<Rightarrow> LogBuffer" where
  "AppendRestartMarker lb =
    (if lb_buf lb = [] then lb
     else let msg = (if last (lb_buf lb) \<noteq> CHR 0x0A then CHR 0x0A # restart_note else restart_note);
              remaining = bufMax lb - int (length (lb_buf lb))
       in if remaining < int (length msg) then lb else lb\<lparr>lb_buf := lb_buf lb @ msg\<rparr>)"

definition lb_bounded :: "LogBuffer \<Rightarrow> bool" where
  "lb_bounded lb \<longleftrightarrow> int (length (lb_buf lb)) \<le> bufMax lb"

lemma read_chunk_take:
  assumes "lb_bounded lb"
  shows "read_chunk tmp lb = lb\<lparr>lb_buf := take (nat (bufMax lb)) (lb_buf lb @ tmp)\<rparr>"
proof -
  have "nat (bufMax lb - int (length (lb_buf lb))) = nat (bufMax lb) - length (lb_buf lb)"
    by simp
  then show ?thesis
    using assms by (auto simp: read_chunk_def lb_bounded_def Let_def)
qed

lemma read_chunk_bounded: "lb_bounded lb \<Longrightarrow> lb_bounded (read_chunk tmp lb)"
  by (simp add: read_chunk_take) (simp add: lb_bounded_def)

lemma fold_read_chunk:
  "lb_bounded lb \<Longrightarrow> fold read_chunk chunks lb = lb\<lparr>lb_buf := take (nat (bufMax lb)) (lb_buf lb @ concat chunks)\<rparr>"
proof (induction chunks arbitrary: lb)
  case Nil
  then show ?case by (simp add: lb_bounded_def)
next
  case (Cons c chunks)
  have "lb_bounded (read_chunk c lb)" by (rule read_chunk_bounded [OF Cons.prems])
  from Cons.IH [OF this] show ?case
    by (simp add: read_chunk_take [OF Cons.prems] min_def)
qed

text \<open>
  However the pipe splits a service's output into chunks, the buffer holds the first
  \<open>bufMax\<close> bytes of what was there and of the output that followed, and never more than \<open>bufMax\<close>;
  clearing it returns exactly those bytes and leaves an empty, bounded buffer, and a restart marker
  is added whole or not at all.
\<close>

lemma log_buffer_prefix:
  assumes "lb_bounded lb"
  shows "GetBuffer (fold read_chunk chunks lb) = take (nat (bufMax lb)) (GetBuffer lb @ concat chunks)
    \<and> lb_bounded (fold read_chunk chunks lb)
    \<and> fst (GetBufferAndClear lb) = GetBuffer lb \<and> GetBuffer (snd (GetBufferAndClear lb)) = []
    \<and> lb_bounded (AppendRestartMarker lb)
    \<and> GetBuffer (AppendRestartMarker lb) \<in>
        {GetBuffer lb, GetBuffer lb @ restart_note, GetBuffer lb @ CHR 0x0A # restart_note}"
  using assms
  by (auto simp: fold_read_chunk GetBuffer_def GetBufferAndClear_def AppendRestartMarker_def Let_def)
    (auto simp: lb_bounded_def)

lemma log_buffer_prefix_witness:
  "let lb = NewLogBuffer 4
   in lb_bounded lb \<and> GetBuffer (fold read_chunk [''ab'', ''cde'', ''f''] lb) = ''abcd''"
proof -
  have b: "lb_bounded (NewLogBuffer 4)" by (simp add: lb_bounded_def NewLogBuffer_def)
  from log_buffer_prefix [OF b, of "[''ab'', ''cde'', ''f'']"] b show ?thesis
    by (simp add: Let_def GetBuffer_def NewLogBuffer_def)
qed

end
