(* ===== verification/StartLimit.thy ===== *)
theory StartLimit
  imports Prelude
begin

text \<open>
  \<open>pkg/service/startlimit.go\<close>: the limiter behind \<open>--parallel-start-limit\<close>.  The Go map
  \<open>starting\<close> is an association list with one entry per key; a waiter's channel is represented by its
  service, and closing the channel by adding the service to \<open>woken\<close>, from where the waiting goroutine
  takes it.  \<open>now\<close> is the value of \<open>time.Now()\<close> during the call.
\<close>

section \<open>The limiter\<close>

record 's StartLimiter =
  maxConcurrent :: int
  slowThreshold :: duration
  starting :: "('s \<times> instant) list"
  fastCount :: int
  waiters :: "'s list"
  woken :: "'s list"

definition second :: duration where "second = 1000000000"

definition NewStartLimiter :: "int \<Rightarrow> duration \<Rightarrow> 's StartLimiter" where
  "NewStartLimiter mx thr =
    \<lparr>maxConcurrent = mx, slowThreshold = (if thr \<le> 0 then 10 * second else thr),
     starting = [], fastCount = 0, waiters = [], woken = []\<rparr>"

definition map_put :: "'s \<Rightarrow> 'v \<Rightarrow> ('s \<times> 'v) list \<Rightarrow> ('s \<times> 'v) list" where
  "map_put k v m = (k, v) # filter (\<lambda>(k', _). k' \<noteq> k) m"

definition map_delete :: "'s \<Rightarrow> ('s \<times> 'v) list \<Rightarrow> ('s \<times> 'v) list" where
  "map_delete k m = filter (\<lambda>(k', _). k' \<noteq> k) m"

definition is_fast :: "duration \<Rightarrow> instant \<Rightarrow> 's \<times> instant \<Rightarrow> bool" where
  "is_fast thr now e \<longleftrightarrow> now - snd e < thr"

definition count_fast :: "instant \<Rightarrow> 's StartLimiter \<Rightarrow> int" where
  "count_fast now sl = int (length (filter (is_fast (slowThreshold sl) now) (starting sl)))"

definition refreshFastCount :: "instant \<Rightarrow> 's StartLimiter \<Rightarrow> 's StartLimiter" where
  "refreshFastCount now sl = sl\<lparr>fastCount := count_fast now sl\<rparr>"

definition Acquire :: "instant \<Rightarrow> 's \<Rightarrow> 's StartLimiter \<Rightarrow> bool \<times> 's StartLimiter" where
  "Acquire now svc sl =
    (if maxConcurrent sl \<le> 0 then (True, sl)
     else let sl = refreshFastCount now sl
       in if fastCount sl < maxConcurrent sl
          then (True, sl\<lparr>starting := map_put svc now (starting sl), fastCount := fastCount sl + 1\<rparr>)
          else (False, sl\<lparr>waiters := waiters sl @ [svc]\<rparr>))"

text \<open>The loop of \<open>wakeNext\<close> runs over the queue of waiters, which only this loop shortens.\<close>

fun wake_loop :: "instant \<Rightarrow> 's list \<Rightarrow> 's StartLimiter \<Rightarrow> 's StartLimiter" where
  "wake_loop now [] sl = sl\<lparr>waiters := []\<rparr>"
| "wake_loop now (w # ws) sl =
    (let sl = refreshFastCount now sl
     in if fastCount sl \<ge> maxConcurrent sl then sl\<lparr>waiters := w # ws\<rparr>
        else wake_loop now ws
          (sl\<lparr>starting := map_put w now (starting sl), fastCount := fastCount sl + 1,
              woken := woken sl @ [w]\<rparr>))"

definition wakeNext :: "instant \<Rightarrow> 's StartLimiter \<Rightarrow> 's StartLimiter" where
  "wakeNext now sl = wake_loop now (waiters sl) sl"

definition sl_Release :: "instant \<Rightarrow> 's \<Rightarrow> 's StartLimiter \<Rightarrow> 's StartLimiter" where
  "sl_Release now svc sl =
    (if maxConcurrent sl \<le> 0 then sl
     else wakeNext now
       (if svc \<in> fst ` set (starting sl)
        then sl\<lparr>starting := map_delete svc (starting sl), fastCount := max 0 (fastCount sl - 1)\<rparr>
        else sl))"

definition CancelWait :: "'s \<Rightarrow> 's StartLimiter \<Rightarrow> 's StartLimiter" where
  "CancelWait svc sl =
    (if maxConcurrent sl \<le> 0 then sl else sl\<lparr>waiters := remove_first ((=) svc) (waiters sl)\<rparr>)"

definition ActiveCount :: "instant \<Rightarrow> 's StartLimiter \<Rightarrow> int \<times> 's StartLimiter" where
  "ActiveCount now sl = (let sl = refreshFastCount now sl in (fastCount sl, sl))"

definition TotalStarting :: "'s StartLimiter \<Rightarrow> int" where
  "TotalStarting sl = int (length (starting sl))"

definition WaiterCount :: "'s StartLimiter \<Rightarrow> int" where
  "WaiterCount sl = int (length (waiters sl))"

section \<open>At most \<open>maxConcurrent\<close> fast starters\<close>

lemma length_filter_map_put:
  "length (filter P (map_put k v m)) \<le> Suc (length (filter P m))"
proof -
  have "length (filter P (filter (\<lambda>(k', _). k' \<noteq> k) m)) \<le> length (filter P m)"
    by (induction m) auto
  then show ?thesis by (simp add: map_put_def)
qed

lemma length_filter_map_delete: "length (filter P (map_delete k m)) \<le> length (filter P m)"
  by (induction m) (auto simp: map_delete_def)

lemma count_fast_put: "count_fast t (sl\<lparr>starting := map_put s now (starting sl)\<rparr>) \<le> count_fast t sl + 1"
  using length_filter_map_put [of "is_fast (slowThreshold sl) t" s now "starting sl"]
  by (simp add: count_fast_def)

lemma count_fast_delete: "count_fast t (sl\<lparr>starting := map_delete s (starting sl)\<rparr>) \<le> count_fast t sl"
  using length_filter_map_delete [of "is_fast (slowThreshold sl) t" s "starting sl"]
  by (simp add: count_fast_def)

lemma count_fast_antimono: "now \<le> t \<Longrightarrow> count_fast t sl \<le> count_fast now sl"
  unfolding count_fast_def by (auto intro!: length_filter_le_pred simp: is_fast_def)

lemma count_fast_frame [simp]:
  "count_fast t (sl\<lparr>fastCount := c\<rparr>) = count_fast t sl"
  "count_fast t (sl\<lparr>waiters := ws\<rparr>) = count_fast t sl"
  "count_fast t (sl\<lparr>woken := ws\<rparr>) = count_fast t sl"
  by (simp_all add: count_fast_def)

definition within_limit :: "instant \<Rightarrow> 's StartLimiter \<Rightarrow> bool" where
  "within_limit now sl \<longleftrightarrow> maxConcurrent sl \<le> 0 \<or> count_fast now sl \<le> maxConcurrent sl"

lemma wake_loop_limit:
  assumes "count_fast now sl \<le> maxConcurrent sl"
  shows "count_fast now (wake_loop now ws sl) \<le> maxConcurrent sl"
  using assms
proof (induction ws arbitrary: sl)
  case (Cons w ws)
  show ?case
  proof (cases "count_fast now sl \<ge> maxConcurrent sl")
    case True
    with Cons.prems show ?thesis by (simp add: refreshFastCount_def Let_def)
  next
    case False
    define sl' where "sl' = refreshFastCount now sl\<lparr>starting := map_put w now (starting sl),
      fastCount := count_fast now sl + 1, woken := woken sl @ [w]\<rparr>"
    have step: "wake_loop now (w # ws) sl = wake_loop now ws sl'"
      using False by (simp add: refreshFastCount_def sl'_def Let_def)
    have "count_fast now sl' = count_fast now (sl\<lparr>starting := map_put w now (starting sl)\<rparr>)"
      by (simp add: sl'_def refreshFastCount_def count_fast_def)
    then have "count_fast now sl' \<le> maxConcurrent sl'"
      using count_fast_put [where t = now and sl = sl and s = w and now = now] False by (simp add: sl'_def refreshFastCount_def)
    from Cons.IH [OF this] show ?thesis
      unfolding step by (simp add: sl'_def refreshFastCount_def)
  qed
qed simp

lemma wake_loop_frame [simp]:
  "maxConcurrent (wake_loop now ws sl) = maxConcurrent sl"
  "slowThreshold (wake_loop now ws sl) = slowThreshold sl"
  by (induction ws arbitrary: sl) (auto simp: Let_def refreshFastCount_def)

text \<open>A loop that leaves waiters behind stops because every slot is taken.\<close>

lemma wake_loop_full:
  "waiters (wake_loop now ws sl) \<noteq> [] \<Longrightarrow>
     maxConcurrent sl \<le> count_fast now (wake_loop now ws sl)"
proof (induction ws arbitrary: sl)
  case (Cons w ws)
  show ?case
  proof (cases "count_fast now sl \<ge> maxConcurrent sl")
    case True
    then show ?thesis by (simp add: refreshFastCount_def Let_def)
  next
    case False
    with Cons.prems Cons.IH [of "sl\<lparr>starting := map_put w now (starting sl),
        fastCount := count_fast now sl + 1, woken := woken sl @ [w]\<rparr>"]
    show ?thesis by (simp add: refreshFastCount_def Let_def)
  qed
qed simp

lemma wake_loop_fifo:
  "\<exists>k \<le> length ws. woken (wake_loop now ws sl) = woken sl @ take k ws
      \<and> waiters (wake_loop now ws sl) = drop k ws"
proof (induction ws arbitrary: sl)
  case (Cons w ws)
  show ?case
  proof (cases "count_fast now sl \<ge> maxConcurrent sl")
    case True
    then show ?thesis by (intro exI [of _ 0]) (simp add: refreshFastCount_def Let_def)
  next
    case False
    let ?sl = "sl\<lparr>starting := map_put w now (starting sl), fastCount := count_fast now sl + 1,
        woken := woken sl @ [w]\<rparr>"
    from Cons.IH [of ?sl] obtain k where k: "k \<le> length ws"
      "woken (wake_loop now ws ?sl) = woken sl @ w # take k ws" "waiters (wake_loop now ws ?sl) = drop k ws"
      by auto
    then show ?thesis
      using False by (intro exI [of _ "Suc k"]) (simp add: refreshFastCount_def Let_def)
  qed
qed simp

text \<open>
  Property C9.  With a positive limit, no operation of the limiter ever lets the number of services
  that are starting and not yet slow exceed \<open>maxConcurrent\<close>, at the time of the call and at every
  later time: acquiring, releasing (which wakes waiters) and cancelling all keep the bound.
\<close>

theorem limiter_bound:
  assumes "within_limit now sl" and "now \<le> t"
  shows "within_limit t (snd (Acquire now s sl)) \<and> within_limit t (sl_Release now s sl)
    \<and> within_limit t (CancelWait s sl)"
proof -
  have mono: "within_limit now sl' \<Longrightarrow> within_limit t sl'" for sl' :: "'a StartLimiter"
    using count_fast_antimono [OF assms(2), of sl'] by (auto simp: within_limit_def)
  have acq: "within_limit now (snd (Acquire now s sl))"
    using assms(1) count_fast_put [where t = now and sl = sl and s = s and now = now]
    by (auto simp: within_limit_def Acquire_def Let_def refreshFastCount_def count_fast_def)
  have del: "count_fast now (sl\<lparr>starting := map_delete s (starting sl), fastCount := c\<rparr>) \<le> count_fast now sl" for c
    using count_fast_delete [where t = now and sl = sl and s = s] by (simp add: count_fast_def)
  have rel: "within_limit now (sl_Release now s sl)"
    using assms(1) wake_loop_limit [of now sl] order.trans [OF del]
      wake_loop_limit [of now "sl\<lparr>starting := map_delete s (starting sl), fastCount := max 0 (fastCount sl - 1)\<rparr>"]
    by (auto simp: within_limit_def sl_Release_def wakeNext_def)
  have can: "within_limit now (CancelWait s sl)"
    using assms(1) by (auto simp: within_limit_def CancelWait_def)
  from acq rel can show ?thesis by (blast intro: mono)
qed

theorem limiter_bound_witness:
  "let sl = \<lparr>maxConcurrent = 1, slowThreshold = 10, starting = [(7, 3)], fastCount = 1,
             waiters = [8 :: nat, 9], woken = []\<rparr>
   in within_limit 5 sl \<and> within_limit 20 (sl_Release 5 7 sl) \<and> woken (sl_Release 5 7 sl) = [8]"
proof -
  let ?sl = "\<lparr>maxConcurrent = 1, slowThreshold = 10, starting = [(7, 3)], fastCount = 1,
             waiters = [8 :: nat, 9], woken = []\<rparr>"
  have w: "within_limit 5 ?sl" by (simp add: within_limit_def count_fast_def is_fast_def)
  have r: "woken (sl_Release 5 7 ?sl) = [8]"
    by (simp add: sl_Release_def wakeNext_def map_delete_def map_put_def refreshFastCount_def count_fast_def is_fast_def)
  from limiter_bound [OF w, of 20 7] w r show ?thesis by (simp add: Let_def)
qed

text \<open>
  Property C10.  Releasing a slot loses no waiter: the waiters woken are a prefix of the queue, in
  order, the rest keep their order, and a waiter is left behind only when every slot is taken again.
\<close>

theorem release_wakes_in_order:
  assumes "maxConcurrent sl > 0"
  shows "\<exists>k \<le> length (waiters sl).
      woken (sl_Release now s sl) = woken sl @ take k (waiters sl)
    \<and> waiters (sl_Release now s sl) = drop k (waiters sl)
    \<and> (k < length (waiters sl) \<longrightarrow> maxConcurrent sl \<le> count_fast now (sl_Release now s sl))"
proof -
  define sl' where "sl' = (if s \<in> fst ` set (starting sl)
      then sl\<lparr>starting := map_delete s (starting sl), fastCount := max 0 (fastCount sl - 1)\<rparr> else sl)"
  have sl': "sl_Release now s sl = wake_loop now (waiters sl) sl'"
    and same: "woken sl' = woken sl" "maxConcurrent sl' = maxConcurrent sl"
    using assms by (auto simp: sl_Release_def wakeNext_def sl'_def)
  obtain k where k: "k \<le> length (waiters sl)" "woken (wake_loop now (waiters sl) sl') = woken sl' @ take k (waiters sl)"
    "waiters (wake_loop now (waiters sl) sl') = drop k (waiters sl)"
    using wake_loop_fifo by blast
  have "k < length (waiters sl) \<longrightarrow> maxConcurrent sl' \<le> count_fast now (wake_loop now (waiters sl) sl')"
    using k(3) wake_loop_full [of now "waiters sl" sl'] by simp
  with k same show ?thesis unfolding sl' by auto
qed

theorem release_wakes_in_order_witness:
  "let sl = \<lparr>maxConcurrent = 2, slowThreshold = 10, starting = [(1, 0), (2, 9)], fastCount = 2,
             waiters = [3 :: nat, 4, 5], woken = []\<rparr>
   in maxConcurrent sl > 0 \<and> (\<exists>k \<le> length (waiters sl). woken (sl_Release 12 2 sl) = take k (waiters sl)
        \<and> waiters (sl_Release 12 2 sl) = drop k (waiters sl))"
proof -
  let ?sl = "\<lparr>maxConcurrent = 2, slowThreshold = 10, starting = [(1, 0), (2, 9)], fastCount = 2,
             waiters = [3 :: nat, 4, 5], woken = []\<rparr>"
  have m: "maxConcurrent ?sl > 0" by simp
  from release_wakes_in_order [OF m, of 12 2] obtain k where "k \<le> length (waiters ?sl)"
    "woken (sl_Release 12 2 ?sl) = take k (waiters ?sl)" "waiters (sl_Release 12 2 ?sl) = drop k (waiters ?sl)"
    by auto
  with m show ?thesis unfolding Let_def by blast
qed

end
