(* ===== verification/UIDPool.thy ===== *)
theory UIDPool
  imports Prelude
begin

text \<open>
  \<open>pkg/service/uidpool.go\<close>: the allocator of transient user ids behind \<open>dynamic-user = yes\<close>.
  The scan of \<open>Allocate\<close> runs a \<open>uint32\<close> counter up to an inclusive bound, so it is written as a
  partial function: a pool that ends at the largest \<open>uint32\<close> and is full would never leave the loop.
  The interface the service record relies on is the locale \<open>uid_pool\<close>.
\<close>

section \<open>The allocator\<close>

record UIDPool =
  uid_min :: u32
  uid_max :: u32
  inUse :: "u32 \<rightharpoonup> string"

definition dynamicUIDMin :: u32 where "dynamicUIDMin = 61184"
definition dynamicUIDMax :: u32 where "dynamicUIDMax = 65519"

definition NewUIDPool :: "u32 \<Rightarrow> u32 \<Rightarrow> UIDPool" where
  "NewUIDPool mn mx =
    (let (mn, mx) = (if mn = 0 \<and> mx = 0 then (dynamicUIDMin, dynamicUIDMax) else (mn, mx));
         (mn, mx) = (if mx < mn then (mx, mn) else (mn, mx))
     in \<lparr>uid_min = mn, uid_max = mx, inUse = Map.empty\<rparr>)"

datatype pool_error = PoolExhausted

partial_function (option) alloc_scan :: "UIDPool \<Rightarrow> u32 \<Rightarrow> u32 option option" where
  "alloc_scan p uid =
    (if uid \<le> uid_max p
     then if inUse p uid = None then Some (Some uid) else alloc_scan p (uid + 1)
     else Some None)"

declare alloc_scan.simps [code]

definition Allocate :: "string \<Rightarrow> UIDPool \<Rightarrow> ((pool_error, u32) result \<times> UIDPool) option" where
  "Allocate owner p =
    (case alloc_scan p (uid_min p) of
       None \<Rightarrow> None
     | Some None \<Rightarrow> Some (Inl PoolExhausted, p)
     | Some (Some uid) \<Rightarrow> Some (Inr uid, p\<lparr>inUse := (inUse p)(uid \<mapsto> owner)\<rparr>))"

definition uid_Release :: "u32 \<Rightarrow> UIDPool \<Rightarrow> UIDPool" where
  "uid_Release uid p = p\<lparr>inUse := (inUse p)(uid := None)\<rparr>"

definition InUse :: "u32 \<Rightarrow> UIDPool \<Rightarrow> bool" where
  "InUse uid p \<longleftrightarrow> inUse p uid \<noteq> None"

definition Owner :: "u32 \<Rightarrow> UIDPool \<Rightarrow> string" where
  "Owner uid p = (case inUse p uid of None \<Rightarrow> '''' | Some o' \<Rightarrow> o')"

definition Range :: "UIDPool \<Rightarrow> u32 \<times> u32" where
  "Range p = (uid_min p, uid_max p)"

section \<open>The scan returns the smallest free id\<close>

lemma word_le_next:
  fixes a b :: u32
  assumes "a \<le> b" "a \<noteq> b"
  shows "unat (a + 1) = Suc (unat a)" "a + 1 \<le> b"
proof -
  have lt: "unat a < unat b"
    using assms by (metis order.not_eq_order_implies_strict word_less_nat_alt)
  then have "Suc (unat a) < 2 ^ 32"
    using unsigned_less [of b, where ?'a = nat] by simp
  then show e: "unat (a + 1) = Suc (unat a)"
    by (simp add: unat_word_ariths)
  show "a + 1 \<le> b"
    using lt e by (simp add: word_le_nat_alt)
qed

lemma alloc_scan_spec:
  assumes bound: "uid_max p \<noteq> - 1"
  shows "\<exists>r. alloc_scan p uid = Some r \<and>
    (case r of
       Some v \<Rightarrow> uid \<le> v \<and> v \<le> uid_max p \<and> inUse p v = None
          \<and> (\<forall>u. uid \<le> u \<and> u < v \<longrightarrow> inUse p u \<noteq> None)
     | None \<Rightarrow> (\<forall>u. uid \<le> u \<and> u \<le> uid_max p \<longrightarrow> inUse p u \<noteq> None))"
proof (induction "unat (uid_max p) + 1 - unat uid" arbitrary: uid)
  case 0
  then have "\<not> uid \<le> uid_max p" by (simp add: word_le_nat_alt)
  then show ?case by (subst alloc_scan.simps) (auto simp: word_le_nat_alt)
next
  case (Suc n)
  have lemax: "uid \<le> uid_max p" using Suc.hyps(2) by (simp add: word_le_nat_alt)
  show ?case
  proof (cases "inUse p uid")
    case None
    then show ?thesis using lemax by (subst alloc_scan.simps) auto
  next
    case (Some o')
    have "uid \<noteq> - 1" using lemax bound word_le_next [of "uid" "- 1"] by (metis word_order.extremum_unique)
    then have next': "unat (uid + 1) = Suc (unat uid)"
      using word_le_next(1) [of uid "- 1"] by simp
    then have "n = unat (uid_max p) + 1 - unat (uid + 1)" using Suc.hyps(2) by simp
    from Suc.hyps(1) [OF this] obtain r where r: "alloc_scan p (uid + 1) = Some r"
      "case r of Some v \<Rightarrow> uid + 1 \<le> v \<and> v \<le> uid_max p \<and> inUse p v = None
          \<and> (\<forall>u. uid + 1 \<le> u \<and> u < v \<longrightarrow> inUse p u \<noteq> None)
       | None \<Rightarrow> (\<forall>u. uid + 1 \<le> u \<and> u \<le> uid_max p \<longrightarrow> inUse p u \<noteq> None)"
      by blast
    have eq: "alloc_scan p uid = Some r"
      using Some lemax r(1) by (subst alloc_scan.simps) simp
    have step: "uid \<le> u \<longleftrightarrow> u = uid \<or> uid + 1 \<le> u" for u
      using next' word_le_next(2) [of uid u] by (auto simp: word_le_nat_alt)
    show ?thesis
      using eq r(2) Some by (auto simp: step split: option.splits)
  qed
qed

lemma Allocate_cases:
  assumes "uid_max p \<noteq> - 1"
  obtains (Free) u where "Allocate owner p = Some (Inr u, p\<lparr>inUse := (inUse p)(u \<mapsto> owner)\<rparr>)"
    "uid_min p \<le> u" "u \<le> uid_max p" "inUse p u = None"
    "\<And>v. uid_min p \<le> v \<Longrightarrow> v < u \<Longrightarrow> inUse p v \<noteq> None"
  | (Full) "Allocate owner p = Some (Inl PoolExhausted, p)"
    "\<And>v. uid_min p \<le> v \<Longrightarrow> v \<le> uid_max p \<Longrightarrow> inUse p v \<noteq> None"
proof -
  from alloc_scan_spec [OF assms, of "uid_min p"] obtain r where r: "alloc_scan p (uid_min p) = Some r"
    "case r of Some v \<Rightarrow> uid_min p \<le> v \<and> v \<le> uid_max p \<and> inUse p v = None
        \<and> (\<forall>u. uid_min p \<le> u \<and> u < v \<longrightarrow> inUse p u \<noteq> None)
     | None \<Rightarrow> (\<forall>u. uid_min p \<le> u \<and> u \<le> uid_max p \<longrightarrow> inUse p u \<noteq> None)"
    by blast
  show ?thesis
  proof (cases r)
    case None
    with r show ?thesis by (intro that(2)) (auto simp: Allocate_def)
  next
    case (Some u)
    with r show ?thesis by (intro that(1) [of u]) (auto simp: Allocate_def)
  qed
qed

section \<open>What a client relies on\<close>

text \<open>
  The contract of a pool of ids: an allocation hands out an id that was free and marks it, leaving
  every other id alone; releasing an id frees exactly that id.  \<open>valid\<close> is kept by both operations.
\<close>

locale uid_pool =
  fixes alloc :: "string \<Rightarrow> 'p \<Rightarrow> ((pool_error, u32) result \<times> 'p) option"
    and release :: "u32 \<Rightarrow> 'p \<Rightarrow> 'p"
    and used :: "u32 \<Rightarrow> 'p \<Rightarrow> bool"
    and valid :: "'p \<Rightarrow> bool"
  assumes alloc_returns: "valid p \<Longrightarrow> \<exists>r. alloc o' p = Some r"
    and alloc_valid: "valid p \<Longrightarrow> alloc o' p = Some (r, p') \<Longrightarrow> valid p'"
    and alloc_fresh: "valid p \<Longrightarrow> alloc o' p = Some (Inr u, p') \<Longrightarrow>
       \<not> used u p \<and> (\<forall>v. used v p' \<longleftrightarrow> v = u \<or> used v p)"
    and alloc_fail: "valid p \<Longrightarrow> alloc o' p = Some (Inl e, p') \<Longrightarrow> p' = p"
    and release_valid: "valid p \<Longrightarrow> valid (release u p)"
    and release_used: "valid p \<Longrightarrow> used v (release u p) \<longleftrightarrow> v \<noteq> u \<and> used v p"
begin

lemma two_owners_differ:
  assumes "valid p" "alloc a p = Some (Inr u, p1)" "alloc b p1 = Some (Inr v, p2)"
  shows "u \<noteq> v"
  using assms alloc_fresh alloc_valid by metis

lemma alloc_release_used:
  assumes "valid p" "alloc a p = Some (Inr u, p1)"
  shows "used v (release u p1) \<longleftrightarrow> used v p"
  using assms alloc_fresh [OF assms] release_used alloc_valid by metis

end

interpretation uidpool: uid_pool Allocate uid_Release InUse "\<lambda>p. uid_max p \<noteq> - 1"
proof
  fix p :: UIDPool and o' r u p' e v
  assume v: "uid_max p \<noteq> - 1"
  show "\<exists>r. Allocate o' p = Some r" using v by (rule Allocate_cases [of p o']) blast+
  show "Allocate o' p = Some (r, p') \<Longrightarrow> uid_max p' \<noteq> - 1"
    using v by (rule Allocate_cases [of p o']) (use v in auto)
  show "Allocate o' p = Some (Inr u, p') \<Longrightarrow> \<not> InUse u p \<and> (\<forall>v. InUse v p' \<longleftrightarrow> v = u \<or> InUse v p)"
    using v by (rule Allocate_cases [of p o']) (auto simp: InUse_def)
  show "Allocate o' p = Some (Inl e, p') \<Longrightarrow> p' = p"
    using v by (rule Allocate_cases [of p o']) auto
  show "uid_max (uid_Release u p) \<noteq> - 1" using v by (simp add: uid_Release_def)
  show "InUse v (uid_Release u p) \<longleftrightarrow> v \<noteq> u \<and> InUse v p"
    by (simp add: uid_Release_def InUse_def)
qed

text \<open>
  On a pool whose range does not end at the largest \<open>uint32\<close> (the default range
  61184..65519 does not), \<open>Allocate\<close> always returns: the smallest free id of the range, recorded for
  its owner, or the exhaustion error with the pool unchanged exactly when every id is taken.
\<close>

lemma Allocate_smallest_free:
  assumes "uid_max p \<noteq> - 1"
  shows "(\<exists>u. Allocate owner p = Some (Inr u, p\<lparr>inUse := (inUse p)(u \<mapsto> owner)\<rparr>)
            \<and> \<not> InUse u p \<and> uid_min p \<le> u \<and> u \<le> uid_max p
            \<and> (\<forall>v. uid_min p \<le> v \<and> v < u \<longrightarrow> InUse v p))
       \<or> (Allocate owner p = Some (Inl PoolExhausted, p)
            \<and> (\<forall>v. uid_min p \<le> v \<and> v \<le> uid_max p \<longrightarrow> InUse v p))"
  using assms by (rule Allocate_cases [of p owner]) (auto simp: InUse_def)

lemma Allocate_smallest_free_witness:
  "let p = uid_Release 61184 ((NewUIDPool 0 0)\<lparr>inUse := [61184 \<mapsto> ''a'', 61185 \<mapsto> ''b'']\<rparr>)
   in uid_max p \<noteq> - 1 \<and> Allocate ''c'' p = Some (Inr 61184, p\<lparr>inUse := (inUse p)(61184 \<mapsto> ''c'')\<rparr>)"
proof -
  let ?p = "uid_Release 61184 ((NewUIDPool 0 0)\<lparr>inUse := [61184 \<mapsto> ''a'', 61185 \<mapsto> ''b'']\<rparr>)"
  have m: "uid_max ?p \<noteq> - 1" "uid_min ?p = 61184" "inUse ?p 61184 = None"
    by (simp_all add: uid_Release_def NewUIDPool_def dynamicUIDMin_def dynamicUIDMax_def)
  from Allocate_smallest_free [OF m(1), of "''c''"] m show ?thesis
    by (auto simp: Let_def InUse_def uid_Release_def NewUIDPool_def dynamicUIDMin_def dynamicUIDMax_def
        dest: word_le_less_eq [THEN iffD1])
qed

text \<open>
  Two allocations with no release in between never hand out the same id, and
  releasing an id gives back exactly the set of free ids from before it was allocated.
\<close>

lemma Allocate_exclusive:
  assumes "uid_max p \<noteq> - 1" "Allocate a p = Some (Inr u, p1)"
  shows "(\<forall>b v p2. Allocate b p1 = Some (Inr v, p2) \<longrightarrow> v \<noteq> u)
    \<and> (\<forall>v. InUse v (uid_Release u p1) \<longleftrightarrow> InUse v p)"
  using uidpool.two_owners_differ [OF assms] uidpool.alloc_release_used [OF assms] by metis

lemma Allocate_exclusive_witness:
  "let p = NewUIDPool 10 20; p1 = p\<lparr>inUse := [10 \<mapsto> ''a'']\<rparr>
   in Allocate ''a'' p = Some (Inr 10, p1) \<and> \<not> InUse 10 (uid_Release 10 p1)"
proof -
  let ?p = "NewUIDPool 10 20"
  have m: "uid_max ?p \<noteq> - 1" "Allocate ''a'' ?p = Some (Inr 10, ?p\<lparr>inUse := [10 \<mapsto> ''a'']\<rparr>)"
    by (simp_all add: NewUIDPool_def Allocate_def alloc_scan.simps)
  from Allocate_exclusive [OF m] m(2) show ?thesis
    by (simp add: Let_def InUse_def NewUIDPool_def)
qed

end
