(* ===== verification/World.thy ===== *)
theory World
  imports Types StartLimit UIDPool
begin

text \<open>
  The state the service manager works on: the dynamic part of \<open>ServiceRecord\<close> (\<open>pkg/service/record.go\<close>),
  the dependency links (\<open>dependency.go\<close>), the process-related state of the concrete service types, and
  the \<open>ServiceSet\<close> (\<open>set.go\<close>) with its queues.  Pointers to services and to dependency links are
  identifiers into the stores \<open>recs\<close>, \<open>procs\<close>, \<open>cfgs\<close> and \<open>deps\<close>, so that the aliasing of a link between
  the dependent's \<open>dependsOn\<close> and the dependency's \<open>dependents\<close> is kept.  What leaves the daemon (events
  to listeners, log lines of the service life cycle, signals, spawned processes, system actions) is
  appended to \<open>trace\<close>.  What the operating system answers is read from \<open>os\<close>.
\<close>

section \<open>Configuration of a service\<close>

text \<open>The concrete service types that are modelled; each embeds a \<open>ServiceRecord\<close>.\<close>

datatype service_impl = Internal | Triggered | Scripted | Process

type_synonym svc = nat
type_synonym depid = nat

record svc_cfg =
  serviceName :: string
  impl :: service_impl
  svcFlags :: ServiceFlags
  autoRestart :: AutoRestartMode
  smoothRecovery :: bool
  manualStart :: bool
  stopWhenUnneeded :: bool
  restartMode :: RestartMode
  normalExitCodes :: "int list"
  normalExitSignals :: "signal list"
  restartForceExitCodes :: "int list"
  chainTo :: string
  failureAction :: SystemAction
  successAction :: SystemAction
  startLimitAction :: SystemAction
  rebootArgument :: string
  jobTimeout :: duration
  runtimeMax :: duration
  dynamicUser :: bool
  fdStoreMax :: int

text \<open>Start-up protocol of a process: none, a notification pipe, or a polled command.\<close>

datatype readiness = NoReadiness | ReadyPipe | ReadyCheck

record proc_cfg =
  command :: "string list"
  stopCommand :: "string list"
  preStartCommand :: "string list"
  startTimeout :: duration
  stopTimeout :: duration
  ready_via :: readiness
  watchdogTimeout :: duration
  termSignal :: signal
  restartKillSignal :: signal
  finalKillSignal :: signal
  surviveFinalKillSignal :: bool
  killMode :: KillMode
  timeoutStartFailureMode :: TimeoutFailureMode
  timeoutStopFailureMode :: TimeoutFailureMode
  timeoutAbortSec :: duration
  restartDelay :: duration
  restartDelayStep :: duration
  restartDelayCap :: duration
  restartRandomizedDelay :: duration
  restartMaxDelay :: duration
  restartInterval :: duration
  maxRestartCount :: int
  hasCgroup :: bool
  exitType :: ExitType

section \<open>Dynamic state\<close>

record ServiceRecord =
  state :: ServiceState
  desired :: ServiceState
  requiredBy :: int
  startExplicit :: bool
  dependsOn :: "depid list"
  dependents :: "depid list"
  InPropQueue :: bool
  InStopQueue :: bool
  haveConsole :: bool
  pinnedStopped :: bool
  pinnedStarted :: bool
  deptPinnedStarted :: bool
  markedDown :: bool
  waitingForDeps :: bool
  waitingForConsole :: bool
  waitingForStartSlot :: bool
  propRequire :: bool
  propRelease :: bool
  propFailure :: bool
  propStart :: bool
  propStop :: bool
  propPinDpt :: bool
  startFailed :: bool
  startSkipped :: bool
  startedEmitted :: bool
  inAutoRestart :: bool
  inUserRestart :: bool
  restartLimitExhausted :: bool
  forceStop :: bool
  stopReason :: StoppedReason
  startRequestTime :: "instant option"
  startedTime :: "instant option"
  stoppedTime :: "instant option"
  jobTimeoutTimer :: bool
  runtimeMaxTimer :: bool
  dynamicUID :: u32
  notifySock :: bool
  listeners :: "nat list"

record ServiceDep =
  From :: svc
  To :: svc
  WaitingOn :: bool
  HoldingAcq :: bool
  DepType :: DependencyType

datatype timerPurpose = timerNone | timerStartTimeout | timerStopTimeout | timerRestartDelay | timerAbortTimeout

text \<open>
  \<open>pid\<close> is the main process of a process service or the start command of a scripted one (\<open>startPID\<close>);
  \<open>stopPID\<close> the stop command.  \<open>monitoring\<close> tells whether a \<open>monitorProcess\<close>, \<open>monitorStart\<close> or
  \<open>monitorStop\<close> goroutine is selecting on the exit channel and the timer.
\<close>

record proc_state =
  pid :: int
  stopPID :: int
  exitStatus :: ExitStatus
  timer :: timerPurpose
  timerArmed :: bool
  monitoring :: bool
  readyCh :: bool
  readyPipeRead :: bool
  pendingStopSignal :: signal
  stopIssued :: bool
  doingSmoothRecov :: bool
  currentRestartDelay :: duration
  restartIntervalTime :: instant
  restartIntervalCount :: int
  lastStartTime :: instant
  isTriggered :: bool

section \<open>The environment\<close>

text \<open>
  What the operating system and the checks that read it (dynamic user aside) answer to a service that
  is brought up or down; \<open>predicate_results\<close> are the configured conditions and assertions, each with
  its result and whether it is an assertion.
\<close>

record os_answers =
  notify_socket_ok :: bool
  predicate_results :: "(bool \<times> bool) list"
  required_paths_ok :: bool
  activation_socket_ok :: bool
  pre_start_ok :: bool
  output_setup_ok :: bool
  start_process :: "int option"
  stop_process :: "int option"
  jitter_draw :: duration
  cgroup_populated :: bool

datatype effect =
    Event svc ServiceEvent nat
  | LogStarted svc
  | LogStopped svc
  | LogFailed svc bool
  | OnSystemAction SystemAction string
  | OnBootReady
  | OnRWReady
  | Spawned svc int
  | Signalled svc int signal
  | KilledCgroup svc signal
  | Inactive

section \<open>The service set\<close>

record world =
  recs :: "svc \<Rightarrow> ServiceRecord"
  procs :: "svc \<Rightarrow> proc_state"
  deps :: "depid \<Rightarrow> ServiceDep"
  cfgs :: "svc \<Rightarrow> svc_cfg"
  pcfgs :: "svc \<Rightarrow> proc_cfg"
  os :: "svc \<Rightarrow> os_answers"
  records :: "(string \<times> svc) list"
  aliases :: "(string \<times> svc) list"
  loader :: "string \<Rightarrow> svc option"
  propQueue :: "svc list"
  stopQueue :: "svc list"
  consoleQueue :: "svc list"
  activeServices :: int
  restartEnabled :: bool
  shutdownType :: ShutdownType
  startLimiter :: "svc StartLimiter option"
  uidPool :: UIDPool
  bootServiceName :: string
  bootReadyTime :: "instant option"
  rwReady :: bool
  logReady :: bool
  restartLog :: "instant list"
  now :: instant
  trace :: "effect list"
  outOfFuel :: bool

text \<open>Assignments to one record, to one process state, to one link; a step of the trace.\<close>

definition modr :: "svc \<Rightarrow> (ServiceRecord \<Rightarrow> ServiceRecord) \<Rightarrow> world \<Rightarrow> world" where
  "modr s f w = w\<lparr>recs := (recs w)(s := f (recs w s))\<rparr>"

definition modp :: "svc \<Rightarrow> (proc_state \<Rightarrow> proc_state) \<Rightarrow> world \<Rightarrow> world" where
  "modp s f w = w\<lparr>procs := (procs w)(s := f (procs w s))\<rparr>"

definition modd :: "depid \<Rightarrow> (ServiceDep \<Rightarrow> ServiceDep) \<Rightarrow> world \<Rightarrow> world" where
  "modd d f w = w\<lparr>deps := (deps w)(d := f (deps w d))\<rparr>"

definition emit :: "effect list \<Rightarrow> world \<Rightarrow> world" where
  "emit es w = w\<lparr>trace := trace w @ es\<rparr>"

text \<open>\<open>ss.records\<close> is a Go map with one service per name; this is the list of its services.\<close>

definition svcs :: "world \<Rightarrow> svc list" where
  "svcs w = map snd (records w)"

definition IsHard :: "ServiceDep \<Rightarrow> bool" where
  "IsHard d \<longleftrightarrow> DepType d = DepRegular \<or> DepType d = DepPreparedBy \<or> (DepType d = DepMilestone \<and> WaitingOn d)"

definition IsOnlyOrdering :: "ServiceDep \<Rightarrow> bool" where
  "IsOnlyOrdering d \<longleftrightarrow> DepType d = DepBefore \<or> DepType d = DepAfter"

definition NewServiceDep :: "svc \<Rightarrow> svc \<Rightarrow> DependencyType \<Rightarrow> ServiceDep" where
  "NewServiceDep from to ty = \<lparr>From = from, To = to, WaitingOn = False, HoldingAcq = False, DepType = ty\<rparr>"

end
