(* ===== verification/Cascade.thy ===== *)
theory Cascade
  imports World
begin

text \<open>
  Queues, reference counting and the stop cascade of \<open>pkg/service/record.go\<close> and \<open>set.go\<close>.  A release
  that reaches zero may stop its service, and stopping a service may release others: \<open>Release\<close> takes
  what it calls to stop a service as an argument, and \<open>doStop\<close> closes the recursion with a fuel that
  is proved to be enough in the theory \<open>Termination\<close>.
\<close>

section \<open>Predicates on a record\<close>

definition IsStartPinned :: "ServiceRecord \<Rightarrow> bool" where
  "IsStartPinned r \<longleftrightarrow> pinnedStarted r \<or> deptPinnedStarted r"

definition IsFundamentallyStopped :: "ServiceRecord \<Rightarrow> bool" where
  "IsFundamentallyStopped r \<longleftrightarrow> state r = StateStopped \<or> (state r = StateStarting \<and> waitingForDeps r)"

definition CanInterruptStop :: "ServiceRecord \<Rightarrow> bool" where
  "CanInterruptStop r \<longleftrightarrow> waitingForDeps r \<and> \<not> forceStop r"

definition IsForceRestartExit :: "svc_cfg \<Rightarrow> ExitStatus \<Rightarrow> bool" where
  "IsForceRestartExit c es \<longleftrightarrow> Exited es \<and> ExitCode es \<in> set (restartForceExitCodes c)"

definition IsNormalExit :: "svc_cfg \<Rightarrow> ExitStatus \<Rightarrow> bool" where
  "IsNormalExit c es \<longleftrightarrow>
    (if Exited es then ExitCode es \<in> set (normalExitCodes c)
     else Signaled es \<and> exit_Signal es \<in> set (normalExitSignals c))"

section \<open>Queues of the service set\<close>

definition AddPropQueue :: "svc \<Rightarrow> world \<Rightarrow> world" where
  "AddPropQueue s = when_do (\<lambda>w. \<not> InPropQueue (recs w s))
     (run [modr s (\<lambda>r. r\<lparr>InPropQueue := True\<rparr>), \<lambda>w. w\<lparr>propQueue := propQueue w @ [s]\<rparr>])"

definition AddTransitionQueue :: "svc \<Rightarrow> world \<Rightarrow> world" where
  "AddTransitionQueue s = when_do (\<lambda>w. \<not> InStopQueue (recs w s))
     (run [modr s (\<lambda>r. r\<lparr>InStopQueue := True\<rparr>), \<lambda>w. w\<lparr>stopQueue := stopQueue w @ [s]\<rparr>])"

definition ServiceActive :: "svc \<Rightarrow> world \<Rightarrow> world" where
  "ServiceActive s w = w\<lparr>activeServices := activeServices w + 1\<rparr>"

definition ServiceInactive :: "svc \<Rightarrow> world \<Rightarrow> world" where
  "ServiceInactive s w = emit [Inactive] (w\<lparr>activeServices := activeServices w - 1\<rparr>)"

definition IsShuttingDown :: "world \<Rightarrow> bool" where
  "IsShuttingDown w \<longleftrightarrow> \<not> restartEnabled w"

definition AppendConsoleQueue :: "svc \<Rightarrow> world \<Rightarrow> world" where
  "AppendConsoleQueue s w = w\<lparr>consoleQueue := consoleQueue w @ [s]\<rparr>"

definition UnqueueConsole :: "svc \<Rightarrow> world \<Rightarrow> world" where
  "UnqueueConsole s w = w\<lparr>consoleQueue := swap_remove s (consoleQueue w)\<rparr>"

definition notifyListeners :: "svc \<Rightarrow> ServiceEvent \<Rightarrow> world \<Rightarrow> world" where
  "notifyListeners s e w = emit (map (Event s e) (listeners (recs w s))) w"

section \<open>Reference counting\<close>

definition dec_required :: "svc \<Rightarrow> world \<Rightarrow> world" where
  "dec_required s = modr s (\<lambda>r. r\<lparr>requiredBy := requiredBy r - 1\<rparr>)"

definition release_tail :: "(svc \<Rightarrow> world \<Rightarrow> world) \<Rightarrow> bool \<Rightarrow> svc \<Rightarrow> world \<Rightarrow> world" where
  "release_tail stop issueStop s = when_do (\<lambda>w. requiredBy (recs w s) = 0) (run [
     when_do (\<lambda>w. state (recs w s) = StateStopping \<and> desired (recs w s) = StateStarted
         \<and> \<not> IsStartPinned (recs w s))
       (notifyListeners s EventStartCancelled),
     modr s (\<lambda>r. r\<lparr>desired := StateStopped\<rparr>),
     when_do (\<lambda>w. \<not> IsStartPinned (recs w s)) (run [
       modr s (\<lambda>r. r\<lparr>propRelease := \<not> propRequire r\<rparr>),
       modr s (\<lambda>r. r\<lparr>propRequire := False\<rparr>),
       when_do (\<lambda>w. propRelease (recs w s)) (AddPropQueue s),
       when_do (\<lambda>w. state (recs w s) \<noteq> StateStopped \<and> state (recs w s) \<noteq> StateStopping \<and> issueStop)
         (run [modr s (\<lambda>r. r\<lparr>stopReason := ReasonNormal\<rparr>), stop s])])])"

definition Release :: "(svc \<Rightarrow> world \<Rightarrow> world) \<Rightarrow> bool \<Rightarrow> svc \<Rightarrow> world \<Rightarrow> world" where
  "Release stop issueStop s = run [dec_required s, release_tail stop issueStop s]"

definition require_tail :: "svc \<Rightarrow> world \<Rightarrow> world" where
  "require_tail s = when_do (\<lambda>w. \<not> (manualStart (cfgs w s) \<and> \<not> startExplicit (recs w s)))
     (when_do (\<lambda>w. requiredBy (recs w s) = 1 \<and> state (recs w s) \<noteq> StateStarting
         \<and> state (recs w s) \<noteq> StateStarted)
       (run [modr s (\<lambda>r. r\<lparr>propStart := True\<rparr>), AddPropQueue s]))"

definition Require :: "svc \<Rightarrow> world \<Rightarrow> world" where
  "Require s = run [modr s (\<lambda>r. r\<lparr>requiredBy := requiredBy r + 1\<rparr>), require_tail s]"

section \<open>Forced stops and wake-ups\<close>

definition ForcedStop :: "svc \<Rightarrow> world \<Rightarrow> world" where
  "ForcedStop s = when_do (\<lambda>w. state (recs w s) \<noteq> StateStopped) (run [
     modr s (\<lambda>r. r\<lparr>forceStop := True\<rparr>),
     when_do (\<lambda>w. \<not> IsStartPinned (recs w s))
       (run [modr s (\<lambda>r. r\<lparr>propStop := True\<rparr>), AddPropQueue s])])"

definition UnrecoverableStop :: "svc \<Rightarrow> world \<Rightarrow> world" where
  "UnrecoverableStop s = run [modr s (\<lambda>r. r\<lparr>desired := StateStopped\<rparr>), ForcedStop s]"

definition dependencyStarted :: "svc \<Rightarrow> world \<Rightarrow> world" where
  "dependencyStarted s = when_do (\<lambda>w. (state (recs w s) = StateStarting \<or> state (recs w s) = StateStarted)
       \<and> waitingForDeps (recs w s))
     (AddTransitionQueue s)"

definition stopCheckDependents :: "svc \<Rightarrow> world \<Rightarrow> bool" where
  "stopCheckDependents s w \<longleftrightarrow>
    (\<forall>d \<in> set (dependents (recs w s)). \<not> (IsHard (deps w d) \<and> HoldingAcq (deps w d) \<and> \<not> WaitingOn (deps w d)))"

definition dependentStopped :: "svc \<Rightarrow> world \<Rightarrow> world" where
  "dependentStopped s = run [
     when_do (\<lambda>w. state (recs w s) = StateStopping \<and> waitingForDeps (recs w s)) (AddTransitionQueue s),
     when_do (\<lambda>w. stopWhenUnneeded (cfgs w s) \<and> state (recs w s) = StateStarted
         \<and> \<not> startExplicit (recs w s) \<and> \<not> pinnedStarted (recs w s) \<and> stopCheckDependents s w)
       (run [modr s (\<lambda>r. r\<lparr>desired := StateStopped\<rparr>), modr s (\<lambda>r. r\<lparr>propStop := True\<rparr>), AddPropQueue s])]"

text \<open>A link is let go: its flag is cleared and the dependency released.\<close>

definition drop_link :: "(svc \<Rightarrow> world \<Rightarrow> world) \<Rightarrow> bool \<Rightarrow> depid \<Rightarrow> svc \<Rightarrow> world \<Rightarrow> world" where
  "drop_link stop issueStop d s = when_do (\<lambda>w. HoldingAcq (deps w d))
     (run [modd d (\<lambda>x. x\<lparr>HoldingAcq := False\<rparr>), Release stop issueStop s])"

definition drop_explicit :: "(svc \<Rightarrow> world \<Rightarrow> world) \<Rightarrow> bool \<Rightarrow> svc \<Rightarrow> world \<Rightarrow> world" where
  "drop_explicit stop issueStop s = when_do (\<lambda>w. startExplicit (recs w s))
     (run [modr s (\<lambda>r. r\<lparr>startExplicit := False\<rparr>), Release stop issueStop s])"

definition stop_waiting :: "depid \<Rightarrow> svc \<Rightarrow> world \<Rightarrow> world" where
  "stop_waiting d from = when_do (\<lambda>w. WaitingOn (deps w d))
     (run [modd d (\<lambda>x. x\<lparr>WaitingOn := False\<rparr>), dependencyStarted from])"

section \<open>Stopping the dependents\<close>

definition stop_hard_dependent :: "(svc \<Rightarrow> world \<Rightarrow> world) \<Rightarrow> bool \<Rightarrow> svc \<Rightarrow> svc \<Rightarrow> world \<Rightarrow> world" where
  "stop_hard_dependent stop restartDeps s from = run [
     when_do (\<lambda>w. forceStop (recs w s)) (\<lambda>w.
       if desired (recs w s) = StateStopped
       then run [modr from (\<lambda>r. r\<lparr>stopReason := ReasonDepFailed\<rparr>), UnrecoverableStop from] w
       else ForcedStop from w),
     when_do (\<lambda>w. state (recs w from) \<noteq> StateStopped) (\<lambda>w.
       if desired (recs w s) = StateStopped
       then when_do (\<lambda>w. desired (recs w from) \<noteq> StateStopped) (run [
              modr from (\<lambda>r. r\<lparr>desired := StateStopped\<rparr>),
              drop_explicit stop True from,
              modr from (\<lambda>r. r\<lparr>propStop := True\<rparr>),
              AddPropQueue from]) w
       else when_do (\<lambda>w. restartDeps \<and> state (recs w from) \<noteq> StateStopping) (run [
              modr from (\<lambda>r. r\<lparr>stopReason := ReasonDepRestart\<rparr>),
              modr from (\<lambda>r. r\<lparr>inUserRestart := True\<rparr>),
              modr from (\<lambda>r. r\<lparr>propStop := True\<rparr>),
              AddPropQueue from]) w)]"

definition stop_dependent ::
  "(svc \<Rightarrow> world \<Rightarrow> world) \<Rightarrow> bool \<Rightarrow> bool \<Rightarrow> svc \<Rightarrow> depid \<Rightarrow> world \<Rightarrow> world" where
  "stop_dependent stop forRestart restartDeps s d w =
    (let from = From (deps w d) in
     if IsHard (deps w d) then stop_hard_dependent stop restartDeps s from w
     else when_do (\<lambda>w. \<not> forRestart) (run [stop_waiting d from, drop_link stop False d s]) w)"

definition stopDependents ::
  "(svc \<Rightarrow> world \<Rightarrow> world) \<Rightarrow> bool \<Rightarrow> bool \<Rightarrow> svc \<Rightarrow> world \<Rightarrow> bool \<times> world" where
  "stopDependents stop forRestart restartDeps s w =
    fold (\<lambda>d (allStopped, w).
        (allStopped \<and> \<not> (IsHard (deps w d) \<and> \<not> IsFundamentallyStopped (recs w (From (deps w d)))),
         stop_dependent stop forRestart restartDeps s d w))
      (dependents (recs w s)) (True, w)"

section \<open>What a concrete service type contributes\<close>

definition GetExitStatus :: "svc \<Rightarrow> world \<Rightarrow> ExitStatus" where
  "GetExitStatus s w = (if impl (cfgs w s) = Process then exitStatus (procs w s) else no_exit_status)"

definition process_CheckRestart :: "svc \<Rightarrow> world \<Rightarrow> bool \<times> world" where
  "process_CheckRestart s w =
    (let c = pcfgs w s; p = procs w s in
     if maxRestartCount c > 0 then
       if now w - restartIntervalTime p < restartInterval c then
         if restartIntervalCount p \<ge> maxRestartCount c then (False, w)
         else (True, modp s (\<lambda>p. p\<lparr>restartIntervalCount := restartIntervalCount p + 1\<rparr>) w)
       else (True, modp s (\<lambda>p. p\<lparr>restartIntervalTime := now w, restartIntervalCount := 1,
                                currentRestartDelay := restartDelay c\<rparr>) w)
     else (True, w))"

definition CheckRestart :: "svc \<Rightarrow> world \<Rightarrow> bool \<times> world" where
  "CheckRestart s w = (if impl (cfgs w s) = Process then process_CheckRestart s w else (True, w))"

definition CanInterruptStart :: "svc \<Rightarrow> world \<Rightarrow> bool" where
  "CanInterruptStart s w =
    (case impl (cfgs w s) of
       Internal \<Rightarrow> True
     | Triggered \<Rightarrow> True
     | Scripted \<Rightarrow> waitingForDeps (recs w s) \<or> StartInterruptible (svcFlags (cfgs w s))
     | Process \<Rightarrow> waitingForDeps (recs w s) \<or> pid (procs w s) > 0)"

definition InterruptStart :: "svc \<Rightarrow> world \<Rightarrow> bool \<times> world" where
  "InterruptStart s w =
    (case impl (cfgs w s) of
       Internal \<Rightarrow> (True, w)
     | Triggered \<Rightarrow> (True, w)
     | Scripted \<Rightarrow>
         if waitingForDeps (recs w s) then (True, w)
         else if pid (procs w s) > 0 \<and> StartInterruptible (svcFlags (cfgs w s))
           then (False, emit [Signalled s (pid (procs w s)) 2] w)
         else (pid (procs w s) \<le> 0, w)
     | Process \<Rightarrow>
         if waitingForDeps (recs w s) then (True, w)
         else if pid (procs w s) > 0 then (False, emit [Signalled s (pid (procs w s)) 2] w)
         else (True, w))"

section \<open>doStop\<close>

text \<open>SIGHUP, SIGINT, SIGUSR1, SIGUSR2 and SIGTERM are administrative.\<close>

definition wants_restart :: "svc_cfg \<Rightarrow> ExitStatus \<Rightarrow> bool" where
  "wants_restart c es \<longleftrightarrow>
    (case autoRestart c of
       RestartAlways \<Rightarrow> \<not> IsNormalExit c es
     | RestartOnFailure \<Rightarrow> \<not> IsNormalExit c es \<and>
         (if Signaled es then exit_Signal es \<notin> {1, 2, 10, 12, 15} else Exited es \<and> ExitCode es \<noteq> 0)
     | RestartNever \<Rightarrow> False)"

definition auto_restart :: "svc \<Rightarrow> world \<Rightarrow> bool \<times> world" where
  "auto_restart s w =
    (let es = GetExitStatus s w; c = cfgs w s in
     if desired (recs w s) = StateStarted \<and> (IsForceRestartExit c es \<or> wants_restart c es)
     then let (ok, w) = CheckRestart s w
       in (ok, run [modr s (\<lambda>r. r\<lparr>inAutoRestart := ok\<rparr>), modr s (\<lambda>r. r\<lparr>restartLimitExhausted := \<not> ok\<rparr>)] w)
     else (False, modr s (\<lambda>r. r\<lparr>restartLimitExhausted := False\<rparr>) w))"

definition enter_stopping :: "bool \<Rightarrow> svc \<Rightarrow> world \<Rightarrow> world" where
  "enter_stopping allDepsStopped s = run [
     modr s (\<lambda>r. r\<lparr>state := StateStopping\<rparr>),
     modr s (\<lambda>r. r\<lparr>waitingForDeps := \<not> allDepsStopped\<rparr>),
     when_do (\<lambda>w. allDepsStopped) (AddTransitionQueue s)]"

definition stop_finish :: "bool \<Rightarrow> svc \<Rightarrow> world \<Rightarrow> world" where
  "stop_finish allDepsStopped s w =
    (case state (recs w s) of
       StateStarted \<Rightarrow> enter_stopping allDepsStopped s w
     | StateStarting \<Rightarrow>
         if \<not> waitingForDeps (recs w s) \<and> \<not> waitingForConsole (recs w s) then
           if \<not> CanInterruptStart s w then w
           else let (ok, w) = InterruptStart s w
             in if \<not> ok then notifyListeners s EventStartCancelled w
                else run [notifyListeners s EventStartCancelled, enter_stopping allDepsStopped s] w
         else run [
           when_do (\<lambda>w. waitingForConsole (recs w s))
             (run [UnqueueConsole s, modr s (\<lambda>r. r\<lparr>waitingForConsole := False\<rparr>)]),
           notifyListeners s EventStartCancelled,
           enter_stopping allDepsStopped s] w
     | _ \<Rightarrow> w)"

definition do_stop :: "(svc \<Rightarrow> world \<Rightarrow> world) \<Rightarrow> bool \<Rightarrow> svc \<Rightarrow> world \<Rightarrow> world" where
  "do_stop stop withRestart s w =
    (if IsStartPinned (recs w s) then w
     else let w = run [modr s (\<lambda>r. r\<lparr>inAutoRestart := False\<rparr>), modr s (\<lambda>r. r\<lparr>inUserRestart := False\<rparr>)] w;
              restartDeps = (withRestart \<and> restartMode (cfgs w s) \<noteq> RestartModeDirect);
              (forRestart, w) = (if withRestart then (True, w) else auto_restart s w);
              w = when_do (\<lambda>w. \<not> forRestart) (drop_explicit stop False s) w;
              (allDepsStopped, w) = stopDependents stop forRestart restartDeps s w
       in stop_finish allDepsStopped s w)"

primrec doStopN :: "nat \<Rightarrow> bool \<Rightarrow> svc \<Rightarrow> world \<Rightarrow> world" where
  "doStopN 0 withRestart s w = w\<lparr>outOfFuel := True\<rparr>"
| "doStopN (Suc n) withRestart s w = do_stop (doStopN n False) withRestart s w"

definition stop_fuel :: "world \<Rightarrow> nat" where
  "stop_fuel w = Suc (length (filter (\<lambda>s. startExplicit (recs w s)) (svcs w)))"

definition doStop :: "bool \<Rightarrow> svc \<Rightarrow> world \<Rightarrow> world" where
  "doStop withRestart s w = doStopN (stop_fuel w) withRestart s w"

end
