(* ===== verification/Lifecycle.thy ===== *)
theory Lifecycle
  imports Cascade
begin

text \<open>
  The life cycle of one service in \<open>pkg/service/record.go\<close>, with the concrete types of \<open>internal.go\<close>,
  \<open>triggered.go\<close>, \<open>scripted.go\<close> and \<open>process.go\<close>.  Passing the console on (\<open>PullConsoleQueue\<close>) may bring
  another service up, which may pass it on again: the operations take the function that pulls the
  console queue as an argument, and the recursion is closed over the length of that queue.
\<close>

section \<open>Timers, user ids, health log\<close>

definition cancelJobTimeoutTimer :: "svc \<Rightarrow> world \<Rightarrow> world" where
  "cancelJobTimeoutTimer s = modr s (\<lambda>r. r\<lparr>jobTimeoutTimer := False\<rparr>)"

definition armJobTimeoutTimer :: "svc \<Rightarrow> world \<Rightarrow> world" where
  "armJobTimeoutTimer s = run [cancelJobTimeoutTimer s,
     when_do (\<lambda>w. jobTimeout (cfgs w s) > 0) (modr s (\<lambda>r. r\<lparr>jobTimeoutTimer := True\<rparr>))]"

definition cancelRuntimeMaxTimer :: "svc \<Rightarrow> world \<Rightarrow> world" where
  "cancelRuntimeMaxTimer s = modr s (\<lambda>r. r\<lparr>runtimeMaxTimer := False\<rparr>)"

definition armRuntimeMaxTimer :: "svc \<Rightarrow> world \<Rightarrow> world" where
  "armRuntimeMaxTimer s = run [cancelRuntimeMaxTimer s,
     when_do (\<lambda>w. runtimeMax (cfgs w s) > 0) (modr s (\<lambda>r. r\<lparr>runtimeMaxTimer := True\<rparr>))]"

definition allocateDynamicUID :: "svc \<Rightarrow> world \<Rightarrow> bool \<times> world" where
  "allocateDynamicUID s w =
    (if \<not> dynamicUser (cfgs w s) \<or> dynamicUID (recs w s) \<noteq> 0 then (True, w)
     else case Allocate (serviceName (cfgs w s)) (uidPool w) of
            None \<Rightarrow> (False, w\<lparr>outOfFuel := True\<rparr>)
          | Some (Inl e, p) \<Rightarrow> (False, w\<lparr>uidPool := p\<rparr>)
          | Some (Inr uid, p) \<Rightarrow> (True, modr s (\<lambda>r. r\<lparr>dynamicUID := uid\<rparr>) (w\<lparr>uidPool := p\<rparr>)))"

definition releaseDynamicUID :: "svc \<Rightarrow> world \<Rightarrow> world" where
  "releaseDynamicUID s = when_do (\<lambda>w. dynamicUID (recs w s) \<noteq> 0)
     (run [\<lambda>w. w\<lparr>uidPool := uid_Release (dynamicUID (recs w s)) (uidPool w)\<rparr>,
           modr s (\<lambda>r. r\<lparr>dynamicUID := 0\<rparr>)])"

definition restartLogHorizon :: duration where
  "restartLogHorizon = 3600 * second"

definition NoteRestart :: "world \<Rightarrow> world" where
  "NoteRestart w = w\<lparr>restartLog := filter (\<lambda>ts. ts > now w - restartLogHorizon) (restartLog w) @ [now w]\<rparr>"

text \<open>\<open>armTimer\<close> and \<open>cancelTimer\<close> of process and scripted services.\<close>

definition cancelTimer :: "svc \<Rightarrow> world \<Rightarrow> world" where
  "cancelTimer s = modp s (\<lambda>p. p\<lparr>timerArmed := False, timer := timerNone\<rparr>)"

definition armTimer :: "timerPurpose \<Rightarrow> svc \<Rightarrow> world \<Rightarrow> world" where
  "armTimer purpose s = run [cancelTimer s, modp s (\<lambda>p. p\<lparr>timerArmed := True, timer := purpose\<rparr>)]"

section \<open>Start limiter\<close>

definition limiter_release :: "svc \<Rightarrow> world \<Rightarrow> world" where
  "limiter_release s w = w\<lparr>startLimiter := map_option (sl_Release (now w) s) (startLimiter w)\<rparr>"

section \<open>Starting\<close>

definition start_check_dep :: "depid \<Rightarrow> bool \<times> world \<Rightarrow> bool \<times> world" where
  "start_check_dep d = (\<lambda>(allStarted, w).
    let to = To (deps w d) in
    if IsOnlyOrdering (deps w d) \<and> state (recs w to) \<noteq> StateStarting then (allStarted, w)
    else if state (recs w to) \<noteq> StateStarted then (False, modd d (\<lambda>x. x\<lparr>WaitingOn := True\<rparr>) w)
    else (allStarted, w))"

definition start_check_dept :: "depid \<Rightarrow> world \<Rightarrow> world" where
  "start_check_dept d = when_do (\<lambda>w. \<not> WaitingOn (deps w d) \<and> IsOnlyOrdering (deps w d)
       \<and> state (recs w (From (deps w d))) = StateStarting)
     (modd d (\<lambda>x. x\<lparr>WaitingOn := True\<rparr>))"

definition startCheckDependencies :: "svc \<Rightarrow> world \<Rightarrow> bool \<times> world" where
  "startCheckDependencies s w =
    (let (allStarted, w) = fold start_check_dep (dependsOn (recs w s)) (True, w)
     in (allStarted, fold start_check_dept (dependents (recs w s)) w))"

definition checkDepsStarted :: "svc \<Rightarrow> world \<Rightarrow> bool" where
  "checkDepsStarted s w \<longleftrightarrow> (\<forall>d \<in> set (dependsOn (recs w s)). \<not> WaitingOn (deps w d))"

definition initiateStart :: "svc \<Rightarrow> world \<Rightarrow> world" where
  "initiateStart s = run [
     modr s (\<lambda>r. r\<lparr>startFailed := False\<rparr>),
     modr s (\<lambda>r. r\<lparr>startedEmitted := False\<rparr>),
     modr s (\<lambda>r. r\<lparr>startSkipped := False\<rparr>),
     \<lambda>w. modr s (\<lambda>r. r\<lparr>startRequestTime := Some (now w)\<rparr>) w,
     modr s (\<lambda>r. r\<lparr>state := StateStarting\<rparr>),
     modr s (\<lambda>r. r\<lparr>waitingForDeps := True\<rparr>),
     armJobTimeoutTimer s,
     \<lambda>w. let (ready, w) = startCheckDependencies s w in if ready then AddTransitionQueue s w else w]"

text \<open>\<open>failedToStart\<close> up to its last statement, the call of \<open>Stopped\<close> on an immediate stop.\<close>

definition fail_dependent :: "svc \<Rightarrow> depid \<Rightarrow> world \<Rightarrow> world" where
  "fail_dependent s d = run [
     \<lambda>w. let from = From (deps w d) in
       if DepType (deps w d) \<in> {DepRegular, DepPreparedBy, DepMilestone}
       then when_do (\<lambda>w. state (recs w from) = StateStarting)
              (run [modr from (\<lambda>r. r\<lparr>propFailure := True\<rparr>), AddPropQueue from]) w
       else stop_waiting d from w,
     drop_link (doStop False) False d s]"

definition failed_core :: "bool \<Rightarrow> svc \<Rightarrow> world \<Rightarrow> world" where
  "failed_core depFailed s = run [
     when_do (\<lambda>w. startLimiter w \<noteq> None) (\<lambda>w.
       if waitingForStartSlot (recs w s)
       then run [\<lambda>w. w\<lparr>startLimiter := map_option (CancelWait s) (startLimiter w)\<rparr>,
                 modr s (\<lambda>r. r\<lparr>waitingForStartSlot := False\<rparr>)] w
       else limiter_release s w),
     modr s (\<lambda>r. r\<lparr>desired := StateStopped\<rparr>),
     when_do (\<lambda>w. waitingForConsole (recs w s))
       (run [UnqueueConsole s, modr s (\<lambda>r. r\<lparr>waitingForConsole := False\<rparr>)]),
     drop_explicit (doStop False) False s,
     \<lambda>w. fold (fail_dependent s) (dependents (recs w s)) w,
     modr s (\<lambda>r. r\<lparr>startFailed := True\<rparr>),
     emit [LogFailed s depFailed],
     notifyListeners s EventFailedStart,
     modr s (\<lambda>r. r\<lparr>pinnedStarted := False\<rparr>)]"

definition reattach_soft :: "svc \<Rightarrow> depid \<Rightarrow> world \<Rightarrow> world" where
  "reattach_soft s d = when_do (\<lambda>w. \<not> IsHard (deps w d) \<and> \<not> HoldingAcq (deps w d)
       \<and> (state (recs w (From (deps w d))) = StateStarted \<or> state (recs w (From (deps w d))) = StateStarting))
     (run [modd d (\<lambda>x. x\<lparr>HoldingAcq := True\<rparr>), modr s (\<lambda>r. r\<lparr>requiredBy := requiredBy r + 1\<rparr>)])"

definition doStart :: "svc \<Rightarrow> world \<Rightarrow> world" where
  "doStart s w =
    (let wasActive = (state (recs w s) \<noteq> StateStopped);
         w = modr s (\<lambda>r. r\<lparr>desired := StateStarted\<rparr>) w
     in if pinnedStopped (recs w s) then (if \<not> wasActive then failed_core False s w else w)
        else if markedDown (recs w s) then modr s (\<lambda>r. r\<lparr>desired := StateStopped\<rparr>) w
        else if wasActive then
          (if state (recs w s) \<noteq> StateStopping \<or> \<not> CanInterruptStop (recs w s) then w
           else run [notifyListeners s EventStopCancelled, initiateStart s] w)
        else run [
          \<lambda>w. fold (reattach_soft s) (dependents (recs w s)) w,
          ServiceActive s,
          modr s (\<lambda>r. r\<lparr>propRequire := \<not> propRelease r\<rparr>),
          modr s (\<lambda>r. r\<lparr>propRelease := False\<rparr>),
          when_do (\<lambda>w. propRequire (recs w s)) (AddPropQueue s),
          initiateStart s] w)"

definition acquire_explicit :: "svc \<Rightarrow> world \<Rightarrow> world" where
  "acquire_explicit s = when_do (\<lambda>w. \<not> startExplicit (recs w s))
     (run [modr s (\<lambda>r. r\<lparr>requiredBy := requiredBy r + 1\<rparr>), modr s (\<lambda>r. r\<lparr>startExplicit := True\<rparr>)])"

definition Start :: "svc \<Rightarrow> world \<Rightarrow> world" where
  "Start s = when_do (\<lambda>w. \<not> pinnedStopped (recs w s)) (run [
     when_do (\<lambda>w. markedDown (recs w s)) (modr s (\<lambda>r. r\<lparr>markedDown := False\<rparr>)),
     acquire_explicit s,
     doStart s])"

definition Restart :: "svc \<Rightarrow> world \<Rightarrow> bool \<times> world" where
  "Restart s w =
    (if state (recs w s) = StateStarted
     then (True, run [modr s (\<lambda>r. r\<lparr>stopReason := ReasonNormal\<rparr>), modr s (\<lambda>r. r\<lparr>forceStop := True\<rparr>), doStop True s] w)
     else (False, w))"

section \<open>Started\<close>

definition releaseConsole :: "(world \<Rightarrow> world) \<Rightarrow> svc \<Rightarrow> world \<Rightarrow> world" where
  "releaseConsole pull s = run [modr s (\<lambda>r. r\<lparr>haveConsole := False\<rparr>), pull]"

definition signal_readiness :: "svc \<Rightarrow> world \<Rightarrow> world" where
  "signal_readiness s = run [
     when_do (\<lambda>w. bootServiceName w \<noteq> [] \<and> serviceName (cfgs w s) = bootServiceName w \<and> bootReadyTime w = None)
       (run [\<lambda>w. w\<lparr>bootReadyTime := Some (now w)\<rparr>, emit [OnBootReady]]),
     when_do (\<lambda>w. RWReadyFlag (svcFlags (cfgs w s)) \<and> \<not> rwReady w)
       (run [\<lambda>w. w\<lparr>rwReady := True\<rparr>, emit [OnRWReady]]),
     when_do (\<lambda>w. LogReadyFlag (svcFlags (cfgs w s)) \<and> \<not> logReady w) (\<lambda>w. w\<lparr>logReady := True\<rparr>)]"

definition started_dependent :: "depid \<Rightarrow> world \<Rightarrow> world" where
  "started_dependent d = when_do (\<lambda>w. WaitingOn (deps w d))
     (run [\<lambda>w. dependencyStarted (From (deps w d)) w, modd d (\<lambda>x. x\<lparr>WaitingOn := False\<rparr>)])"

definition Started :: "(world \<Rightarrow> world) \<Rightarrow> svc \<Rightarrow> world \<Rightarrow> world" where
  "Started pull s = when_do (\<lambda>w. \<not> startedEmitted (recs w s)) (run [
     modr s (\<lambda>r. r\<lparr>startedEmitted := True\<rparr>),
     cancelJobTimeoutTimer s,
     limiter_release s,
     when_do (\<lambda>w. \<not> RunsOnConsole (svcFlags (cfgs w s)))
       (when_do (\<lambda>w. haveConsole (recs w s)) (releaseConsole pull s)),
     \<lambda>w. modr s (\<lambda>r. r\<lparr>startedTime := Some (now w)\<rparr>) w,
     signal_readiness s,
     emit [LogStarted s],
     modr s (\<lambda>r. r\<lparr>state := StateStarted\<rparr>),
     notifyListeners s EventStarted,
     armRuntimeMaxTimer s,
     \<lambda>w. if forceStop (recs w s) \<or> desired (recs w s) = StateStopped then doStop False s w
         else fold started_dependent (dependents (recs w s)) w])"

definition markSkippedStart :: "(world \<Rightarrow> world) \<Rightarrow> svc \<Rightarrow> world \<Rightarrow> world" where
  "markSkippedStart pull s = run [modr s (\<lambda>r. r\<lparr>startSkipped := True\<rparr>), Started pull s]"

section \<open>Loading by name\<close>

definition FindService :: "string \<Rightarrow> world \<Rightarrow> svc option" where
  "FindService name w =
    (case map_of (records w) name of Some s \<Rightarrow> Some s | None \<Rightarrow> map_of (aliases w) name)"

text \<open>
  The loader is a parameter of the state machine here: it gives a fresh, stopped service without links,
  which is registered. The loader of the program, which also makes records and links, is the subject of
  the theory \<open>Loader\<close>.
\<close>

definition LoadService :: "string \<Rightarrow> world \<Rightarrow> svc option \<times> world" where
  "LoadService name w =
    (case FindService name w of
       Some s \<Rightarrow> (Some s, w)
     | None \<Rightarrow>
        (case loader w name of
           Some s \<Rightarrow> (Some s, w\<lparr>records := (name, s) # records w\<rparr>)
         | None \<Rightarrow> (None, w)))"

section \<open>Stopped\<close>

definition chooseStoppedAction :: "bool \<Rightarrow> svc \<Rightarrow> world \<Rightarrow> SystemAction" where
  "chooseStoppedAction willRestart s w =
    (let r = recs w s; es = GetExitStatus s w;
         cleanFinish = (stopReason r = ReasonTerminated \<and> Exited es \<and> ExitCode es = 0)
     in if willRestart \<or> IsShuttingDown w then ActionNone
        else if startFailed r \<or> stopReason r = ReasonFailed \<or> stopReason r = ReasonExecFailed
             \<or> stopReason r = ReasonTimedOut \<or> (stopReason r = ReasonTerminated \<and> \<not> cleanFinish)
        then failureAction (cfgs w s)
        else if cleanFinish then successAction (cfgs w s) else ActionNone)"

definition system_action :: "SystemAction \<Rightarrow> svc \<Rightarrow> world \<Rightarrow> world" where
  "system_action act s = when_do (\<lambda>w. act \<noteq> ActionNone) (\<lambda>w. emit [OnSystemAction act (rebootArgument (cfgs w s))] w)"

definition should_chain :: "bool \<Rightarrow> svc \<Rightarrow> world \<Rightarrow> bool" where
  "should_chain willRestart s w \<longleftrightarrow> chainTo (cfgs w s) \<noteq> [] \<and> \<not> IsShuttingDown w \<and>
     (AlwaysChain (svcFlags (cfgs w s)) \<or>
      (DidFinish (stopReason (recs w s)) \<and> Exited (GetExitStatus s w) \<and> ExitCode (GetExitStatus s w) = 0
       \<and> \<not> willRestart))"

definition chain_next :: "svc \<Rightarrow> world \<Rightarrow> world" where
  "chain_next s w = (case LoadService (chainTo (cfgs w s)) w of (None, w) \<Rightarrow> w | (Some t, w) \<Rightarrow> Start t w)"

definition break_soft :: "svc \<Rightarrow> depid \<Rightarrow> world \<Rightarrow> world" where
  "break_soft s d = when_do (\<lambda>w. \<not> IsHard (deps w d))
     (run [\<lambda>w. stop_waiting d (From (deps w d)) w, drop_link (doStop False) False d s])"

definition restart_prepared :: "depid \<Rightarrow> world \<Rightarrow> world" where
  "restart_prepared d = when_do (\<lambda>w. DepType (deps w d) = DepPreparedBy) (\<lambda>w. snd (Restart (To (deps w d)) w))"

text \<open>The monitoring goroutine is told to end; sockets, pipes and loggers are closed.\<close>

definition BecomingInactive :: "svc \<Rightarrow> world \<Rightarrow> world" where
  "BecomingInactive s = when_do (\<lambda>w. impl (cfgs w s) \<in> {Scripted, Process}) (modp s (\<lambda>p. p\<lparr>monitoring := False\<rparr>))"

definition exhaust_limit :: "svc \<Rightarrow> world \<Rightarrow> world" where
  "exhaust_limit s = when_do (\<lambda>w. restartLimitExhausted (recs w s)) (run [
     modr s (\<lambda>r. r\<lparr>startFailed := True\<rparr>),
     modr s (\<lambda>r. r\<lparr>desired := StateStopped\<rparr>),
     modr s (\<lambda>r. r\<lparr>restartLimitExhausted := False\<rparr>),
     \<lambda>w. system_action (startLimitAction (cfgs w s)) s w])"

definition will_restart :: "ServiceRecord \<Rightarrow> bool" where
  "will_restart r \<longleftrightarrow> desired r = StateStarted \<and> \<not> pinnedStopped r \<and> \<not> restartLimitExhausted r"

definition after_stopped :: "bool \<Rightarrow> svc \<Rightarrow> world \<Rightarrow> world" where
  "after_stopped willRestart s w =
    (if willRestart
     then run [NoteRestart, \<lambda>w. fold restart_prepared (dependsOn (recs w s)) w, initiateStart s] w
     else run [BecomingInactive s,
       \<lambda>w. if startExplicit (recs w s) then drop_explicit (doStop False) False s w
           else when_do (\<lambda>w. requiredBy (recs w s) = 0) (ServiceInactive s) w] w)"

definition Stopped :: "(world \<Rightarrow> world) \<Rightarrow> svc \<Rightarrow> world \<Rightarrow> world" where
  "Stopped pull s w =
    (let w = run [
           \<lambda>w. modr s (\<lambda>r. r\<lparr>stoppedTime := Some (now w)\<rparr>) w,
           cancelRuntimeMaxTimer s,
           cancelJobTimeoutTimer s,
           releaseDynamicUID s,
           modr s (\<lambda>r. r\<lparr>notifySock := False\<rparr>),
           when_do (\<lambda>w. haveConsole (recs w s)) (releaseConsole pull s),
           modr s (\<lambda>r. r\<lparr>forceStop := False\<rparr>)] w;
         willRestart = will_restart (recs w s)
     in run [
          exhaust_limit s,
          when_do (\<lambda>w. \<not> willRestart) (\<lambda>w. fold (break_soft s) (dependents (recs w s)) w),
          \<lambda>w. fold (\<lambda>d w. dependentStopped (To (deps w d)) w) (dependsOn (recs w s)) w,
          modr s (\<lambda>r. r\<lparr>state := StateStopped\<rparr>),
          after_stopped willRestart s,
          \<lambda>w. system_action (chooseStoppedAction willRestart s w) s w,
          when_do (\<lambda>w. \<not> startFailed (recs w s)) (run [
            emit [LogStopped s],
            \<lambda>w. if should_chain willRestart s w then chain_next s w else w]),
          notifyListeners s EventStopped] w)"

definition failedToStart :: "(world \<Rightarrow> world) \<Rightarrow> bool \<Rightarrow> bool \<Rightarrow> svc \<Rightarrow> world \<Rightarrow> world" where
  "failedToStart pull depFailed immediateStop s =
    run [failed_core depFailed s, when_do (\<lambda>w. immediateStop) (Stopped pull s)]"

section \<open>Bringing a service up and down\<close>

datatype PredicateOutcome = PredOK | PredSkip | PredFailed

definition CheckPredicates :: "(bool \<times> bool) list \<Rightarrow> PredicateOutcome" where
  "CheckPredicates ps =
    (if \<exists>(ok, isAssert) \<in> set ps. \<not> ok \<and> isAssert then PredFailed
     else if \<exists>(ok, isAssert) \<in> set ps. \<not> ok then PredSkip
     else PredOK)"

text \<open>
  \<open>startProcess\<close> of a process service; the set-up of its output, sockets and notification pipe is the
  answer \<open>output_setup_ok\<close>, fork and exec the answer \<open>start_process\<close>.
\<close>

definition startProcess :: "(world \<Rightarrow> world) \<Rightarrow> svc \<Rightarrow> world \<Rightarrow> bool \<times> world" where
  "startProcess pull s w =
    (let w = modp s (\<lambda>p. p\<lparr>lastStartTime := now w, stopIssued := False, exitStatus := no_exit_status\<rparr>) w
     in if \<not> output_setup_ok (os w s) then (False, w)
        else case start_process (os w s) of
          None \<Rightarrow> (False, w)
        | Some p \<Rightarrow>
           (True, run [
              modp s (\<lambda>ps. ps\<lparr>pid := p\<rparr>), emit [Spawned s p], modp s (\<lambda>ps. ps\<lparr>monitoring := True\<rparr>),
              \<lambda>w. case ready_via (pcfgs w s) of
                NoReadiness \<Rightarrow> run [cancelTimer s, Started pull s] w
              | via \<Rightarrow> run [
                  modp s (\<lambda>ps. ps\<lparr>readyCh := True, readyPipeRead := (via = ReadyPipe)\<rparr>),
                  when_do (\<lambda>w. startTimeout (pcfgs w s) > 0) (armTimer timerStartTimeout s)] w] w))"

definition check_start :: "svc \<Rightarrow> world \<Rightarrow> PredicateOutcome" where
  "check_start s w = CheckPredicates (predicate_results (os w s))"

definition scripted_BringUp :: "(world \<Rightarrow> world) \<Rightarrow> svc \<Rightarrow> world \<Rightarrow> bool \<times> world" where
  "scripted_BringUp pull s w =
    (if command (pcfgs w s) = [] then (True, Started pull s w)
     else let (ok, w) = allocateDynamicUID s w in
       if \<not> ok then (False, w)
       else case check_start s w of
         PredFailed \<Rightarrow> (False, w)
       | PredSkip \<Rightarrow> (True, markSkippedStart pull s w)
       | PredOK \<Rightarrow>
          if \<not> required_paths_ok (os w s) \<or> \<not> output_setup_ok (os w s) then (False, w)
          else case start_process (os w s) of
            None \<Rightarrow> (False, w)
          | Some p \<Rightarrow>
             (True, run [
                modp s (\<lambda>ps. ps\<lparr>pid := p\<rparr>), emit [Spawned s p], modp s (\<lambda>ps. ps\<lparr>monitoring := True\<rparr>),
                when_do (\<lambda>w. startTimeout (pcfgs w s) > 0) (armTimer timerStartTimeout s)] w))"

definition process_BringUp :: "(world \<Rightarrow> world) \<Rightarrow> svc \<Rightarrow> world \<Rightarrow> bool \<times> world" where
  "process_BringUp pull s w =
    (if command (pcfgs w s) = [] then (False, w)
     else let (ok, w) = allocateDynamicUID s w in
       if \<not> ok then (False, w)
       else if fdStoreMax (cfgs w s) > 0 \<and> \<not> notify_socket_ok (os w s) then (False, w)
       else let w = when_do (\<lambda>w. fdStoreMax (cfgs w s) > 0) (modr s (\<lambda>r. r\<lparr>notifySock := True\<rparr>)) w
         in case check_start s w of
           PredFailed \<Rightarrow> (False, w)
         | PredSkip \<Rightarrow> (True, markSkippedStart pull s w)
         | PredOK \<Rightarrow>
            if \<not> required_paths_ok (os w s) \<or> \<not> activation_socket_ok (os w s)
               \<or> (preStartCommand (pcfgs w s) \<noteq> [] \<and> \<not> pre_start_ok (os w s))
            then (False, w)
            else startProcess pull s w)"

definition BringUp :: "(world \<Rightarrow> world) \<Rightarrow> svc \<Rightarrow> world \<Rightarrow> bool \<times> world" where
  "BringUp pull s w =
    (case impl (cfgs w s) of
       Internal \<Rightarrow> (True, Started pull s w)
     | Triggered \<Rightarrow> (True, when_do (\<lambda>w. isTriggered (procs w s)) (Started pull s) w)
     | Scripted \<Rightarrow> scripted_BringUp pull s w
     | Process \<Rightarrow> process_BringUp pull s w)"

definition pickStopSignal :: "svc \<Rightarrow> world \<Rightarrow> signal \<times> world" where
  "pickStopSignal s w =
    (let c = pcfgs w s; pend = pendingStopSignal (procs w s); term = (if termSignal c = 0 then 15 else termSignal c) in
     if pend \<noteq> 0 then (pend, modp s (\<lambda>p. p\<lparr>pendingStopSignal := 0\<rparr>) w)
     else if inAutoRestart (recs w s) \<and> restartKillSignal c \<noteq> 0 then (restartKillSignal c, w)
     else (term, w))"

definition killCgroupTree :: "signal \<Rightarrow> svc \<Rightarrow> world \<Rightarrow> world" where
  "killCgroupTree sig s = when_do (\<lambda>w. hasCgroup (pcfgs w s)) (emit [KilledCgroup s sig])"

definition arm_stop_timeout :: "svc \<Rightarrow> world \<Rightarrow> world" where
  "arm_stop_timeout s = when_do (\<lambda>w. stopTimeout (pcfgs w s) > 0) (armTimer timerStopTimeout s)"

text \<open>\<open>BringDown\<close> of a process service; control commands and the pre-stop hook are not modelled.\<close>

definition process_BringDown :: "(world \<Rightarrow> world) \<Rightarrow> svc \<Rightarrow> world \<Rightarrow> world" where
  "process_BringDown pull s w =
    (let w = modp s (\<lambda>p. p\<lparr>readyPipeRead := False\<rparr>) w in
     if pid (procs w s) \<le> 0 then run [cancelTimer s, Stopped pull s] w
     else if stopPID (procs w s) > 0 \<or> stopIssued (procs w s) then w
     else case (if stopCommand (pcfgs w s) = [] then None else stop_process (os w s)) of
       Some p \<Rightarrow> run [modp s (\<lambda>ps. ps\<lparr>stopPID := p\<rparr>), emit [Spawned s p],
                    modp s (\<lambda>ps. ps\<lparr>stopIssued := True\<rparr>), arm_stop_timeout s] w
     | None \<Rightarrow>
        if killMode (pcfgs w s) = KillModeNone
        then run [modp s (\<lambda>ps. ps\<lparr>stopIssued := True\<rparr>), arm_stop_timeout s] w
        else let (sig, w) = pickStopSignal s w in run [
          emit [Signalled s (pid (procs w s)) sig],
          modp s (\<lambda>ps. ps\<lparr>stopIssued := True\<rparr>),
          when_do (\<lambda>w. KillAllOnStop (svcFlags (cfgs w s)) \<or> killMode (pcfgs w s) = KillModeControlGroup)
            (killCgroupTree sig s),
          arm_stop_timeout s] w)"

definition scripted_BringDown :: "(world \<Rightarrow> world) \<Rightarrow> svc \<Rightarrow> world \<Rightarrow> world" where
  "scripted_BringDown pull s w =
    (case (if stopCommand (pcfgs w s) = [] then None else stop_process (os w s)) of
       None \<Rightarrow> Stopped pull s w
     | Some p \<Rightarrow> run [modp s (\<lambda>ps. ps\<lparr>stopPID := p\<rparr>), emit [Spawned s p],
                    modp s (\<lambda>ps. ps\<lparr>monitoring := True\<rparr>), arm_stop_timeout s] w)"

definition BringDown :: "(world \<Rightarrow> world) \<Rightarrow> svc \<Rightarrow> world \<Rightarrow> world" where
  "BringDown pull s w =
    (case impl (cfgs w s) of
       Internal \<Rightarrow> Stopped pull s w
     | Triggered \<Rightarrow> Stopped pull s w
     | Scripted \<Rightarrow> scripted_BringDown pull s w
     | Process \<Rightarrow> process_BringDown pull s w)"

section \<open>All dependencies started; the console\<close>

definition bring_up_or_fail :: "(world \<Rightarrow> world) \<Rightarrow> svc \<Rightarrow> world \<Rightarrow> world" where
  "bring_up_or_fail pull s w =
    (let (ok, w) = BringUp pull s w in
     if ok then w
     else run [modr s (\<lambda>r. r\<lparr>state := StateStopping\<rparr>), failedToStart pull False True s] w)"

definition queueForConsole :: "svc \<Rightarrow> world \<Rightarrow> world" where
  "queueForConsole s = run [modr s (\<lambda>r. r\<lparr>waitingForConsole := True\<rparr>), AppendConsoleQueue s]"

definition allDepsStarted :: "(world \<Rightarrow> world) \<Rightarrow> svc \<Rightarrow> world \<Rightarrow> world" where
  "allDepsStarted pull s w =
    (if StartsOnConsole (svcFlags (cfgs w s)) \<and> \<not> haveConsole (recs w s) then queueForConsole s w
     else let w = modr s (\<lambda>r. r\<lparr>waitingForDeps := False\<rparr>) w in
       case startLimiter w of
         Some sl \<Rightarrow>
           if IsShuttingDown w then bring_up_or_fail pull s w
           else let (ok, sl) = Acquire (now w) s sl; w = w\<lparr>startLimiter := Some sl\<rparr>
             in if ok then bring_up_or_fail pull s w
                else modr s (\<lambda>r. r\<lparr>waitingForStartSlot := True\<rparr>) w
       | None \<Rightarrow> bring_up_or_fail pull s w)"

definition AcquiredConsole :: "(world \<Rightarrow> world) \<Rightarrow> svc \<Rightarrow> world \<Rightarrow> world" where
  "AcquiredConsole pull s = run [
     modr s (\<lambda>r. r\<lparr>waitingForConsole := False\<rparr>),
     modr s (\<lambda>r. r\<lparr>haveConsole := True\<rparr>),
     \<lambda>w. if state (recs w s) \<noteq> StateStarting then releaseConsole pull s w
         else if checkDepsStarted s w then allDepsStarted pull s w
         else releaseConsole pull s w]"

primrec pullN :: "nat \<Rightarrow> world \<Rightarrow> world" where
  "pullN 0 w = w\<lparr>outOfFuel := True\<rparr>"
| "pullN (Suc n) w =
    (case consoleQueue w of
       [] \<Rightarrow> w
     | front # q \<Rightarrow> AcquiredConsole (pullN n) front (w\<lparr>consoleQueue := q\<rparr>))"

definition PullConsoleQueue :: "world \<Rightarrow> world" where
  "PullConsoleQueue w = pullN (Suc (length (consoleQueue w))) w"

end
