(* ===== verification/Scheduler.thy ===== *)
theory Scheduler
  imports Lifecycle
begin

text \<open>
  The scheduling loop of \<open>pkg/service/set.go\<close>, the requests of operators and of the loader, and the
  handlers of what happens outside: processes that exit, timers that fire, notifications, start slots
  that become free.  Everything runs under \<open>queueMu\<close>, so that one request or handler, with the queues
  drained at its end, is one step; \<open>processQueues\<close> is \<open>None\<close> when the loop does not end.
\<close>

section \<open>Propagation and transitions\<close>

definition ReleaseDependencies :: "svc \<Rightarrow> world \<Rightarrow> world" where
  "ReleaseDependencies s w =
    fold (\<lambda>d w. drop_link (doStop False) True d (To (deps w d)) w) (dependsOn (recs w s)) w"

text \<open>\<open>Require\<close> and then the flag of the link.\<close>

definition acquire_link :: "depid \<Rightarrow> world \<Rightarrow> world" where
  "acquire_link d w = run [Require (To (deps w d)), modd d (\<lambda>x. x\<lparr>HoldingAcq := True\<rparr>)] w"

definition mark_pin :: "svc \<Rightarrow> world \<Rightarrow> world" where
  "mark_pin t = run [modr t (\<lambda>r. r\<lparr>propPinDpt := True\<rparr>), AddPropQueue t]"

definition propagate_pin :: "svc \<Rightarrow> world \<Rightarrow> world" where
  "propagate_pin s w =
    (let w = modr s (\<lambda>r. r\<lparr>propPinDpt := False\<rparr>) w;
         deptPin = (\<exists>d \<in> set (dependents (recs w s)). IsHard (deps w d) \<and> IsStartPinned (recs w (From (deps w d))))
     in if deptPin = deptPinnedStarted (recs w s) then w
        else run [
          modr s (\<lambda>r. r\<lparr>deptPinnedStarted := deptPin\<rparr>),
          \<lambda>w. fold (\<lambda>d. when_do (\<lambda>w. IsHard (deps w d) \<and> deptPinnedStarted (recs w (To (deps w d))) \<noteq> deptPin)
                     (\<lambda>w. mark_pin (To (deps w d)) w))
                (dependsOn (recs w s)) w,
          when_do (\<lambda>w. \<not> deptPinnedStarted (recs w s) \<and> \<not> pinnedStarted (recs w s)
              \<and> (desired (recs w s) = StateStopped \<or> forceStop (recs w s)) \<and> state (recs w s) = StateStarted)
            (doStop False s)] w)"

definition DoPropagation :: "(world \<Rightarrow> world) \<Rightarrow> svc \<Rightarrow> world \<Rightarrow> world" where
  "DoPropagation pull s = run [
     when_do (\<lambda>w. propRequire (recs w s)) (run [
       \<lambda>w. fold (\<lambda>d. when_do (\<lambda>w. \<not> IsOnlyOrdering (deps w d)) (acquire_link d)) (dependsOn (recs w s)) w,
       modr s (\<lambda>r. r\<lparr>propRequire := False\<rparr>)]),
     when_do (\<lambda>w. propRelease (recs w s)) (run [
       ReleaseDependencies s,
       modr s (\<lambda>r. r\<lparr>propRelease := False\<rparr>)]),
     when_do (\<lambda>w. propFailure (recs w s)) (run [
       modr s (\<lambda>r. r\<lparr>propFailure := False\<rparr>),
       modr s (\<lambda>r. r\<lparr>stopReason := ReasonDepFailed\<rparr>),
       modr s (\<lambda>r. r\<lparr>state := StateStopped\<rparr>),
       failedToStart pull True True s]),
     when_do (\<lambda>w. propStart (recs w s)) (run [
       modr s (\<lambda>r. r\<lparr>propStart := False\<rparr>),
       doStart s]),
     when_do (\<lambda>w. propStop (recs w s)) (run [
       modr s (\<lambda>r. r\<lparr>propStop := False\<rparr>),
       \<lambda>w. doStop (inUserRestart (recs w s)) s w]),
     when_do (\<lambda>w. propPinDpt (recs w s)) (propagate_pin s)]"

definition ExecuteTransition :: "(world \<Rightarrow> world) \<Rightarrow> svc \<Rightarrow> world \<Rightarrow> world" where
  "ExecuteTransition pull s w =
    (case state (recs w s) of
       StateStarting \<Rightarrow>
         when_do (checkDepsStarted s)
           (run [modr s (\<lambda>r. r\<lparr>waitingForDeps := False\<rparr>), allDepsStarted pull s]) w
     | StateStopping \<Rightarrow>
         when_do (stopCheckDependents s)
           (run [modr s (\<lambda>r. r\<lparr>waitingForDeps := False\<rparr>), BringDown pull s]) w
     | _ \<Rightarrow> w)"

section \<open>The scheduling loop\<close>

definition propagate_one :: "svc \<Rightarrow> world \<Rightarrow> world" where
  "propagate_one s = run [modr s (\<lambda>r. r\<lparr>InPropQueue := False\<rparr>), DoPropagation PullConsoleQueue s]"

definition drain_props :: "world \<Rightarrow> world" where
  "drain_props w = fold propagate_one (propQueue w) (w\<lparr>propQueue := []\<rparr>)"

definition transition_one :: "world \<Rightarrow> world" where
  "transition_one w =
    (case stopQueue w of
       [] \<Rightarrow> w
     | s # q \<Rightarrow> run [modr s (\<lambda>r. r\<lparr>InStopQueue := False\<rparr>), ExecuteTransition PullConsoleQueue s] (w\<lparr>stopQueue := q\<rparr>))"

definition queues_idle :: "world \<Rightarrow> bool" where
  "queues_idle w \<longleftrightarrow> propQueue w = [] \<and> stopQueue w = []"

partial_function (option) processQueues :: "world \<Rightarrow> world option" where
  "processQueues w = (if queues_idle w then Some w else processQueues (transition_one (drain_props w)))"

declare processQueues.simps [code]

section \<open>Requests\<close>

definition Stop :: "bool \<Rightarrow> svc \<Rightarrow> world \<Rightarrow> world" where
  "Stop bringDown s w =
    (let w = when_do (\<lambda>w. startExplicit (recs w s))
               (run [modr s (\<lambda>r. r\<lparr>startExplicit := False\<rparr>), dec_required s]) w;
         w = when_do (\<lambda>w. bringDown \<or> requiredBy (recs w s) = 0) (modr s (\<lambda>r. r\<lparr>desired := StateStopped\<rparr>)) w
     in if IsStartPinned (recs w s) then w
        else let bringDown' = (bringDown \<or> requiredBy (recs w s) = 0);
                 w = when_do (\<lambda>w. requiredBy (recs w s) = 0) (run [
                       modr s (\<lambda>r. r\<lparr>propRelease := \<not> propRequire r\<rparr>),
                       when_do (\<lambda>w. propRelease (recs w s)) (AddPropQueue s)]) w
          in when_do (\<lambda>w. bringDown' \<and> state (recs w s) \<noteq> StateStopped)
               (run [modr s (\<lambda>r. r\<lparr>stopReason := ReasonNormal\<rparr>), doStop False s]) w)"

definition wake_dependent :: "svc \<Rightarrow> depid \<Rightarrow> bool \<times> world \<Rightarrow> bool \<times> world" where
  "wake_dependent s d = (\<lambda>(found, w).
    if \<not> IsOnlyOrdering (deps w d) \<and> (state (recs w (From (deps w d))) = StateStarted
        \<or> state (recs w (From (deps w d))) = StateStarting)
    then (True, when_do (\<lambda>w. \<not> HoldingAcq (deps w d))
           (run [modd d (\<lambda>x. x\<lparr>HoldingAcq := True\<rparr>), modr s (\<lambda>r. r\<lparr>requiredBy := requiredBy r + 1\<rparr>)]) w)
    else (found, w))"

definition Wake :: "svc \<Rightarrow> world \<Rightarrow> bool \<times> world" where
  "Wake s w =
    (if pinnedStopped (recs w s) \<or> (manualStart (cfgs w s) \<and> \<not> startExplicit (recs w s)) then (False, w)
     else let (found, w) = fold (wake_dependent s) (dependents (recs w s)) (False, w)
       in if found then (True, doStart s w) else (False, w))"

definition PinStart :: "svc \<Rightarrow> world \<Rightarrow> world" where
  "PinStart s = when_do (\<lambda>w. \<not> pinnedStarted (recs w s)) (run [
     when_do (\<lambda>w. \<not> deptPinnedStarted (recs w s)) (\<lambda>w.
       fold (\<lambda>d. when_do (\<lambda>w. IsHard (deps w d) \<and> \<not> deptPinnedStarted (recs w (To (deps w d))))
              (\<lambda>w. mark_pin (To (deps w d)) w))
         (dependsOn (recs w s)) w),
     modr s (\<lambda>r. r\<lparr>pinnedStarted := True\<rparr>)])"

definition PinStop :: "svc \<Rightarrow> world \<Rightarrow> world" where
  "PinStop s = modr s (\<lambda>r. r\<lparr>pinnedStopped := True\<rparr>)"

text \<open>An early return leaves the stop pin in place when the service is pinned by a dependent.\<close>

definition Unpin :: "svc \<Rightarrow> world \<Rightarrow> world" where
  "Unpin s w =
    (let unpin_stopped = when_do (\<lambda>w. pinnedStopped (recs w s)) (modr s (\<lambda>r. r\<lparr>pinnedStopped := False\<rparr>)) in
     if \<not> pinnedStarted (recs w s) then unpin_stopped w
     else let w = modr s (\<lambda>r. r\<lparr>pinnedStarted := False\<rparr>) w in
       if deptPinnedStarted (recs w s) then w
       else run [
         \<lambda>w. fold (\<lambda>d. when_do (\<lambda>w. IsHard (deps w d) \<and> deptPinnedStarted (recs w (To (deps w d))))
                    (\<lambda>w. mark_pin (To (deps w d)) w))
               (dependsOn (recs w s)) w,
         when_do (\<lambda>w. state (recs w s) = StateStarted) (run [
           when_do (\<lambda>w. requiredBy (recs w s) = 0)
             (run [modr s (\<lambda>r. r\<lparr>propRelease := True\<rparr>), AddPropQueue s]),
           when_do (\<lambda>w. desired (recs w s) = StateStopped \<or> forceStop (recs w s)) (doStop False s)]),
         unpin_stopped] w)"

definition StartService :: "svc \<Rightarrow> world \<Rightarrow> world option" where
  "StartService s w = processQueues (Start s w)"

definition WakeService :: "svc \<Rightarrow> world \<Rightarrow> world option" where
  "WakeService s w = processQueues (snd (Wake s w))"

definition StopService :: "svc \<Rightarrow> world \<Rightarrow> world option" where
  "StopService s w = processQueues (Stop True s w)"

definition ForceStopService :: "svc \<Rightarrow> world \<Rightarrow> world option" where
  "ForceStopService s w = processQueues (ForcedStop s w)"

text \<open>The order of the services is that of the iteration over the Go map.\<close>

definition StopAllServices :: "ShutdownType \<Rightarrow> svc list \<Rightarrow> world \<Rightarrow> world option" where
  "StopAllServices ty snapshot w =
    processQueues (fold (\<lambda>s. run [Stop False s, Unpin s]) snapshot
      (w\<lparr>restartEnabled := False, shutdownType := ty\<rparr>))"

section \<open>Dependency links at run time\<close>

text \<open>\<open>AddDep\<close> with a fresh link \<open>d\<close>.\<close>

definition AddDep :: "depid \<Rightarrow> svc \<Rightarrow> svc \<Rightarrow> DependencyType \<Rightarrow> world \<Rightarrow> world" where
  "AddDep d s to ty = run [
     \<lambda>w. w\<lparr>deps := (deps w)(d := NewServiceDep s to ty)\<rparr>,
     modr s (\<lambda>r. r\<lparr>dependsOn := dependsOn r @ [d]\<rparr>),
     modr to (\<lambda>r. r\<lparr>dependents := dependents r @ [d]\<rparr>),
     when_do (\<lambda>w. ty \<noteq> DepBefore \<and> ty \<noteq> DepAfter
         \<and> (ty = DepRegular \<or> ty = DepPreparedBy \<or> state (recs w to) = StateStarted \<or> state (recs w to) = StateStarting)
         \<and> (state (recs w s) = StateStarting \<or> state (recs w s) = StateStarted))
       (acquire_link d)]"

definition unlink_dependent :: "depid \<Rightarrow> world \<Rightarrow> world" where
  "unlink_dependent d w = modr (To (deps w d)) (\<lambda>r. r\<lparr>dependents := remove_first ((=) d) (dependents r)\<rparr>) w"

definition rmDep :: "depid \<Rightarrow> svc \<Rightarrow> world \<Rightarrow> world" where
  "rmDep d s = run [
     unlink_dependent d,
     when_do (\<lambda>w. HoldingAcq (deps w d)) (\<lambda>w. Release (doStop False) True (To (deps w d)) w),
     modr s (\<lambda>r. r\<lparr>dependsOn := remove_first ((=) d) (dependsOn r)\<rparr>)]"

definition RmDep :: "svc \<Rightarrow> svc \<Rightarrow> DependencyType \<Rightarrow> world \<Rightarrow> bool \<times> world" where
  "RmDep s to ty w =
    (case find (\<lambda>d. To (deps w d) = to \<and> DepType (deps w d) = ty) (dependsOn (recs w s)) of
       None \<Rightarrow> (False, w)
     | Some d \<Rightarrow> (True, rmDep d s w))"

section \<open>Handlers\<close>

text \<open>A child that exited: its wait status, and the stage and error number of a failed exec.\<close>

record ChildExit =
  ce_Status :: WaitStatus
  ce_ExecErr :: "(byte \<times> 32 word) option"

definition ExitedClean :: "ChildExit \<Rightarrow> bool" where
  "ExitedClean e \<longleftrightarrow> ce_ExecErr e = None \<and> ws_exited (ce_Status e) \<and> ws_exit_status (ce_Status e) = 0"

definition handleStartExit :: "ChildExit \<Rightarrow> svc \<Rightarrow> world \<Rightarrow> world option" where
  "handleStartExit exit s w =
    (let w = run [modp s (\<lambda>p. p\<lparr>pid := 0, monitoring := False\<rparr>), cancelTimer s] w in
     processQueues (
       if ce_ExecErr exit \<noteq> None
       then run [modr s (\<lambda>r. r\<lparr>stopReason := ReasonExecFailed\<rparr>), failedToStart PullConsoleQueue False True s] w
       else if ExitedClean exit then
         (if stopReason (recs w s) = ReasonTimedOut then failedToStart PullConsoleQueue False True s w
          else Started PullConsoleQueue s w)
       else run [
         when_do (\<lambda>w. stopReason (recs w s) \<noteq> ReasonTimedOut) (modr s (\<lambda>r. r\<lparr>stopReason := ReasonFailed\<rparr>)),
         failedToStart PullConsoleQueue False True s] w))"

definition handleStopExit :: "svc \<Rightarrow> world \<Rightarrow> world option" where
  "handleStopExit s w = processQueues (run [
     modp s (\<lambda>p. p\<lparr>stopPID := 0, monitoring := False\<rparr>), cancelTimer s, Stopped PullConsoleQueue s] w)"

definition scripted_handleTimer :: "svc \<Rightarrow> world \<Rightarrow> world option" where
  "scripted_handleTimer s w =
    (let purpose = timer (procs w s); w = modp s (\<lambda>p. p\<lparr>timer := timerNone\<rparr>) w in
     case purpose of
       timerStartTimeout \<Rightarrow>
         let w = run [
               when_do (\<lambda>w. pid (procs w s) > 0) (\<lambda>w. emit [Signalled s (pid (procs w s)) 9] w),
               modr s (\<lambda>r. r\<lparr>stopReason := ReasonTimedOut\<rparr>)] w
         in if pid (procs w s) \<le> 0 then processQueues (failedToStart PullConsoleQueue False True s w) else Some w
     | timerStopTimeout \<Rightarrow>
         Some (run [
           when_do (\<lambda>w. stopPID (procs w s) > 0) (\<lambda>w. emit [Signalled s (stopPID (procs w s)) 9] w),
           when_do (\<lambda>w. KillAllOnStop (svcFlags (cfgs w s))) (killCgroupTree 9 s)] w)
     | _ \<Rightarrow> Some w)"

definition SetTrigger :: "bool \<Rightarrow> svc \<Rightarrow> world \<Rightarrow> world" where
  "SetTrigger triggered s = run [
     modp s (\<lambda>p. p\<lparr>isTriggered := triggered\<rparr>),
     when_do (\<lambda>w. triggered \<and> state (recs w s) = StateStarting \<and> \<not> waitingForDeps (recs w s))
       (Started PullConsoleQueue s)]"

text \<open>The goroutine that waits for a start slot, after its channel was closed.\<close>

definition slot_granted :: "svc \<Rightarrow> world \<Rightarrow> world option" where
  "slot_granted s w = processQueues (run [
     \<lambda>w. w\<lparr>startLimiter := map_option (\<lambda>sl. sl\<lparr>woken := remove1 s (woken sl)\<rparr>) (startLimiter w)\<rparr>,
     modr s (\<lambda>r. r\<lparr>waitingForStartSlot := False\<rparr>),
     bring_up_or_fail PullConsoleQueue s] w)"

definition runtime_max_fired :: "svc \<Rightarrow> world \<Rightarrow> world option" where
  "runtime_max_fired s w =
    (if state (recs w s) \<noteq> StateStarted then Some w else processQueues (Stop True s w))"

definition job_timeout_fired :: "svc \<Rightarrow> world \<Rightarrow> world option" where
  "job_timeout_fired s w =
    (if state (recs w s) \<noteq> StateStarting then Some w
     else processQueues (run [
       modr s (\<lambda>r. r\<lparr>stopReason := ReasonTimedOut\<rparr>),
       modr s (\<lambda>r. r\<lparr>startFailed := True\<rparr>),
       UnrecoverableStop s] w))"

end
