(* ===== verification/ProcessService.thy ===== *)
theory ProcessService
  imports Scheduler
begin

text \<open>
  The handlers of \<open>pkg/service/process.go\<close>: readiness, child exit, smooth recovery and the timers of a
  process service.  The health checker, the watchdog reader, cron, the virtual terminal and the
  finish command act outside the state modelled here.
\<close>

section \<open>Signals and delays\<close>

definition killsToGroup :: "svc \<Rightarrow> world \<Rightarrow> bool" where
  "killsToGroup s w \<longleftrightarrow> KillAllOnStop (svcFlags (cfgs w s)) \<or> killMode (pcfgs w s) \<in> {KillModeControlGroup, KillModeMixed}"

definition FinalKillSignal :: "proc_cfg \<Rightarrow> signal" where
  "FinalKillSignal c = (if finalKillSignal c = 0 then 9 else finalKillSignal c)"

definition stopTimeoutSignal :: "proc_cfg \<Rightarrow> signal" where
  "stopTimeoutSignal c =
    (case timeoutStopFailureMode c of
       TimeoutFailureAbort \<Rightarrow> 6
     | TimeoutFailureKill \<Rightarrow> FinalKillSignal c
     | TimeoutFailureTerminate \<Rightarrow> 0)"

definition startTimeoutSignal :: "proc_cfg \<Rightarrow> signal" where
  "startTimeoutSignal c =
    (case timeoutStartFailureMode c of
       TimeoutFailureAbort \<Rightarrow> 6
     | TimeoutFailureKill \<Rightarrow> 9
     | TimeoutFailureTerminate \<Rightarrow> 2)"

text \<open>\<open>jitter(max)\<close> is a number drawn from the half-open interval from 0 to \<open>max\<close>.\<close>

definition jitter :: "duration \<Rightarrow> duration \<Rightarrow> duration" where
  "jitter draw mx = (if mx \<le> 0 then 0 else draw mod mx)"

definition nextRestartDelay :: "duration \<Rightarrow> proc_cfg \<Rightarrow> proc_state \<Rightarrow> duration \<times> proc_state" where
  "nextRestartDelay draw c p =
    (let (delay, p) =
       (if restartDelayStep c \<le> 0 then (restartDelay c, p)
        else let cur = (if currentRestartDelay p < restartDelay c then restartDelay c else currentRestartDelay p);
                 cap = (if restartDelayCap c \<le> 0 then 60 * second else restartDelayCap c)
          in (cur, p\<lparr>currentRestartDelay := (if cur + restartDelayStep c > cap then cap else cur + restartDelayStep c)\<rparr>));
         total = delay + jitter draw (restartRandomizedDelay c)
     in (if restartMaxDelay c > 0 \<and> total > restartMaxDelay c then restartMaxDelay c else total, p))"

section \<open>Exit of the main process\<close>

definition handleUnexpectedTermination :: "svc \<Rightarrow> world \<Rightarrow> world option" where
  "handleUnexpectedTermination s w =
    Option.bind (processQueues (run [
        modr s (\<lambda>r. r\<lparr>stopReason := ReasonTerminated\<rparr>),
        modr s (\<lambda>r. r\<lparr>forceStop := True\<rparr>),
        doStop False s] w))
      (\<lambda>w. if state (recs w s) = StateStopping \<and> desired (recs w s) = StateStarted \<and> \<not> IsStartPinned (recs w s)
           then processQueues (initiateStart s w) else Some w)"

definition recover_now :: "svc \<Rightarrow> world \<Rightarrow> world option" where
  "recover_now s w =
    (let (ok, w) = startProcess PullConsoleQueue s w;
         w = modp s (\<lambda>p. p\<lparr>doingSmoothRecov := False\<rparr>) w
     in if ok then Some w else handleUnexpectedTermination s w)"

definition doSmoothRecovery :: "svc \<Rightarrow> world \<Rightarrow> world option" where
  "doSmoothRecovery s w =
    (let w = modp s (\<lambda>p. p\<lparr>readyPipeRead := False\<rparr>) w;
         (effectiveDelay, p) = nextRestartDelay (jitter_draw (os w s)) (pcfgs w s) (procs w s);
         w = modp s (\<lambda>_. p) w
     in if now w - lastStartTime (procs w s) \<ge> effectiveDelay then recover_now s w
        else Some (armTimer timerRestartDelay s w))"

definition dispatchAfterExit :: "ServiceState \<Rightarrow> svc \<Rightarrow> world \<Rightarrow> world option" where
  "dispatchAfterExit st s w =
    (case st of
       StateStarting \<Rightarrow>
         processQueues (run [modr s (\<lambda>r. r\<lparr>stopReason := ReasonFailed\<rparr>), failedToStart PullConsoleQueue False True s] w)
     | StateStopping \<Rightarrow>
         processQueues (run [modp s (\<lambda>p. p\<lparr>stopIssued := False\<rparr>), Stopped PullConsoleQueue s] w)
     | StateStarted \<Rightarrow>
         (let (ok, w) = (if smoothRecovery (cfgs w s) then process_CheckRestart s w else (False, w)) in
          if ok then doSmoothRecovery s (modp s (\<lambda>p. p\<lparr>doingSmoothRecov := True\<rparr>) w)
          else handleUnexpectedTermination s w)
     | StateStopped \<Rightarrow> Some w)"

definition exit_status_of :: "ChildExit \<Rightarrow> ExitStatus" where
  "exit_status_of e =
    \<lparr>es_WaitStatus = ce_Status e, HasStatus = True, ExecFailed = (ce_ExecErr e \<noteq> None),
     ExecStage = (case ce_ExecErr e of Some (st, _) \<Rightarrow> st | None \<Rightarrow> 0),
     ExecErrno = (case ce_ExecErr e of Some (_, n) \<Rightarrow> n | None \<Rightarrow> 0)\<rparr>"

text \<open>
  With \<open>exit-type=cgroup\<close> and a populated cgroup the rest is left to \<open>waitCgroupThenDispatch\<close>, which
  later runs \<open>dispatchAfterExit\<close> with the state seen here.
\<close>

definition handleChildExit :: "ChildExit \<Rightarrow> svc \<Rightarrow> world \<Rightarrow> world option" where
  "handleChildExit exit s w =
    (let w = run [
           when_do (\<lambda>w. KillAllOnStop (svcFlags (cfgs w s))) (killCgroupTree 9 s),
           modp s (\<lambda>p. p\<lparr>exitStatus := exit_status_of exit, pid := 0, monitoring := False\<rparr>),
           cancelTimer s,
           modp s (\<lambda>p. p\<lparr>readyPipeRead := False\<rparr>)] w
     in if ce_ExecErr exit \<noteq> None
        then processQueues (run [
          modr s (\<lambda>r. r\<lparr>stopReason := ReasonExecFailed\<rparr>),
          modr s (\<lambda>r. r\<lparr>state := StateStopping\<rparr>),
          failedToStart PullConsoleQueue False True s] w)
        else if exitType (pcfgs w s) = ExitTypeCgroup \<and> state (recs w s) \<noteq> StateStarting
             \<and> hasCgroup (pcfgs w s) \<and> cgroup_populated (os w s)
        then Some w
        else dispatchAfterExit (state (recs w s)) s w)"

section \<open>Readiness and timers\<close>

definition handleReadyNotification :: "bool \<Rightarrow> svc \<Rightarrow> world \<Rightarrow> world option" where
  "handleReadyNotification ready s w =
    (let keepPipe = (ready \<and> watchdogTimeout (pcfgs w s) > 0 \<and> state (recs w s) = StateStarting);
         w = modp s (\<lambda>p. p\<lparr>readyCh := False\<rparr>) w;
         w = when_do (\<lambda>w. \<not> keepPipe) (modp s (\<lambda>p. p\<lparr>readyPipeRead := False\<rparr>)) w
     in if state (recs w s) \<noteq> StateStarting then Some w
        else if ready then processQueues (run [cancelTimer s, Started PullConsoleQueue s] w)
        else processQueues (run [cancelTimer s, modr s (\<lambda>r. r\<lparr>stopReason := ReasonFailed\<rparr>),
               failedToStart PullConsoleQueue False False s] w))"

text \<open>Final escalation of a stop, shared by the stop and the abort timeout.\<close>

definition final_kill :: "svc \<Rightarrow> world \<Rightarrow> world" where
  "final_kill s = when_do (\<lambda>w. \<not> surviveFinalKillSignal (pcfgs w s)) (\<lambda>w.
     let sig = FinalKillSignal (pcfgs w s) in run [
       when_do (\<lambda>w. pid (procs w s) > 0) (\<lambda>w. emit [Signalled s (pid (procs w s)) sig] w),
       when_do (killsToGroup s) (killCgroupTree sig s),
       when_do (\<lambda>w. stopPID (procs w s) > 0) (\<lambda>w. emit [Signalled s (stopPID (procs w s)) 9] w)] w)"

definition handleTimerExpired :: "svc \<Rightarrow> world \<Rightarrow> world option" where
  "handleTimerExpired s w =
    (let purpose = timer (procs w s); c = pcfgs w s; w = modp s (\<lambda>p. p\<lparr>timer := timerNone\<rparr>) w in
     case purpose of
       timerNone \<Rightarrow> Some w
     | timerStartTimeout \<Rightarrow>
         Some (when_do (\<lambda>w. pid (procs w s) > 0) (run [
           \<lambda>w. emit [Signalled s (pid (procs w s)) (startTimeoutSignal c)] w,
           modr s (\<lambda>r. r\<lparr>stopReason := ReasonTimedOut\<rparr>),
           failedToStart PullConsoleQueue False False s]) w)
     | timerStopTimeout \<Rightarrow>
         Some (
           if stopTimeoutSignal c \<noteq> 0
           then run [
             when_do (\<lambda>w. pid (procs w s) > 0) (\<lambda>w. emit [Signalled s (pid (procs w s)) (stopTimeoutSignal c)] w),
             when_do (killsToGroup s) (killCgroupTree (stopTimeoutSignal c) s),
             when_do (\<lambda>w. timeoutStopFailureMode c = TimeoutFailureAbort) (armTimer timerAbortTimeout s)] w
           else if timeoutAbortSec c > 0 \<and> pid (procs w s) > 0
           then run [
             \<lambda>w. emit [Signalled s (pid (procs w s)) 6] w,
             armTimer timerAbortTimeout s] w
           else final_kill s w)
     | timerAbortTimeout \<Rightarrow> Some (final_kill s w)
     | timerRestartDelay \<Rightarrow>
         if doingSmoothRecov (procs w s) then recover_now s w else Some w)"

text \<open>The stop command has ended: the main process gets the termination signal.\<close>

definition stop_command_exited :: "svc \<Rightarrow> world \<Rightarrow> world" where
  "stop_command_exited s = run [
     modp s (\<lambda>p. p\<lparr>stopPID := 0\<rparr>),
     when_do (\<lambda>w. pid (procs w s) > 0) (\<lambda>w.
       emit [Signalled s (pid (procs w s)) (if termSignal (pcfgs w s) = 0 then 15 else termSignal (pcfgs w s))] w)]"

end
