(* ===== verification/Ledger.thy ===== *)
theory Ledger
  imports ProcessService
begin

text \<open>
  An abstract view of the state machine.  The ledger of a world is what reference counting, the queues
  and the console depend on; every operation of the scheduler, however long its cascade, changes the
  ledger only by the primitive entries of \<open>prim\<close>.  A property of the ledger that the primitive entries
  keep is therefore kept by every operation: this is proved once, in the locale \<open>ledger_inv\<close>, and used
  for each invariant by an interpretation.
\<close>

section \<open>Ledger and primitive entries\<close>

definition rec_view ::
  "ServiceRecord \<Rightarrow> (int \<times> bool \<times> bool) \<times> (depid list \<times> depid list) \<times> bool \<times> bool" where
  "rec_view r = ((requiredBy r, startExplicit r, haveConsole r), (dependsOn r, dependents r), InPropQueue r, InStopQueue r)"

definition dep_view :: "ServiceDep \<Rightarrow> svc \<times> svc \<times> bool \<times> DependencyType" where
  "dep_view d = (From d, To d, HoldingAcq d, DepType d)"

definition ledger where
  "ledger w = (\<lambda>s. rec_view (recs w s), \<lambda>d. dep_view (deps w d), propQueue w, stopQueue w)"

text \<open>The dependency graph, which no operation on a loaded set of services changes.\<close>

definition graph :: "world \<Rightarrow> (svc \<Rightarrow> depid list \<times> depid list) \<times> (depid \<Rightarrow> svc \<times> svc \<times> DependencyType)" where
  "graph w = (\<lambda>s. (dependsOn (recs w s), dependents (recs w s)),
              \<lambda>d. (From (deps w d), To (deps w d), DepType (deps w d)))"

definition wf_in :: "world \<Rightarrow> bool" where
  "wf_in w \<longleftrightarrow>
    (\<forall>s. distinct (dependents (recs w s)) \<and> (\<forall>d \<in> set (dependents (recs w s)). To (deps w d) = s))"

definition wf_out :: "world \<Rightarrow> bool" where
  "wf_out w \<longleftrightarrow>
    (\<forall>s. distinct (dependsOn (recs w s)) \<and>
         (\<forall>d \<in> set (dependsOn (recs w s)). From (deps w d) = s \<and> d \<in> set (dependents (recs w (To (deps w d))))))"

lemma wf_graph:
  assumes g: "graph w = graph w'"
  shows "wf_in w \<longleftrightarrow> wf_in w'" "wf_out w \<longleftrightarrow> wf_out w'"
proof -
  from g have r: "dependsOn (recs w s) = dependsOn (recs w' s)" "dependents (recs w s) = dependents (recs w' s)" for s
    by (auto simp: graph_def dest: fun_cong)
  from g have d: "From (deps w d) = From (deps w' d)" "To (deps w d) = To (deps w' d)" for d
    by (auto simp: graph_def dest: fun_cong)
  show "wf_in w \<longleftrightarrow> wf_in w'" "wf_out w \<longleftrightarrow> wf_out w'" by (simp_all add: wf_in_def wf_out_def r d)
qed

inductive prim :: "world \<Rightarrow> world \<Rightarrow> bool" where
  inert: "ledger w' = ledger w \<Longrightarrow> prim w w'"
| take_explicit: "\<not> startExplicit (recs w s) \<Longrightarrow>
    prim w (modr s (\<lambda>r. r\<lparr>requiredBy := requiredBy r + 1, startExplicit := True\<rparr>) w)"
| drop_explicit: "startExplicit (recs w s) \<Longrightarrow>
    prim w (modr s (\<lambda>r. r\<lparr>startExplicit := False, requiredBy := requiredBy r - 1\<rparr>) w)"
| take_link: "d \<in> set (dependents (recs w (To (deps w d)))) \<Longrightarrow>
    prim w (modr (To (deps w d)) (\<lambda>r. r\<lparr>requiredBy := requiredBy r + 1\<rparr>) (modd d (\<lambda>x. x\<lparr>HoldingAcq := True\<rparr>) w))"
| drop_link: "d \<in> set (dependents (recs w (To (deps w d)))) \<Longrightarrow> HoldingAcq (deps w d) \<Longrightarrow>
    prim w (modr (To (deps w d)) (\<lambda>r. r\<lparr>requiredBy := requiredBy r - 1\<rparr>) (modd d (\<lambda>x. x\<lparr>HoldingAcq := False\<rparr>) w))"
| queue_prop: "\<not> InPropQueue (recs w s) \<Longrightarrow>
    prim w ((modr s (\<lambda>r. r\<lparr>InPropQueue := True\<rparr>) w)\<lparr>propQueue := propQueue w @ [s]\<rparr>)"
| queue_stop: "\<not> InStopQueue (recs w s) \<Longrightarrow>
    prim w ((modr s (\<lambda>r. r\<lparr>InStopQueue := True\<rparr>) w)\<lparr>stopQueue := stopQueue w @ [s]\<rparr>)"
| console_off: "prim w (modr s (\<lambda>r. r\<lparr>haveConsole := False\<rparr>) w)"

lemma ledger_graph: "ledger w' = ledger w \<Longrightarrow> graph w' = graph w"
  by (auto simp: ledger_def graph_def rec_view_def dep_view_def fun_eq_iff)

lemma graph_modr:
  "(\<And>r. dependsOn (f r) = dependsOn r \<and> dependents (f r) = dependents r) \<Longrightarrow> graph (modr s f w) = graph w"
  by (auto simp: graph_def modr_def)

lemma graph_modd:
  "(\<And>d. From (f d) = From d \<and> To (f d) = To d \<and> DepType (f d) = DepType d) \<Longrightarrow> graph (modd x f w) = graph w"
  by (auto simp: graph_def modd_def)

lemma graph_other:
  "graph (w\<lparr>propQueue := q\<rparr>) = graph w" "graph (w\<lparr>stopQueue := q\<rparr>) = graph w"
  by (simp_all add: graph_def)

lemma prim_graph: "prim w w' \<Longrightarrow> graph w' = graph w"
proof (induction rule: prim.induct)
  case (inert w' w)
  then show ?case by (rule ledger_graph)
qed (simp_all add: graph_modr graph_modd graph_other)

lemma ledger_modr: "(\<And>r. rec_view (f r) = rec_view r) \<Longrightarrow> ledger (modr s f w) = ledger w"
  by (auto simp: ledger_def modr_def)

lemma ledger_modd: "(\<And>d. dep_view (f d) = dep_view d) \<Longrightarrow> ledger (modd x f w) = ledger w"
  by (auto simp: ledger_def modd_def)

lemma ledger_other:
  "ledger (modp s g w) = ledger w" "ledger (emit es w) = ledger w"
  by (simp_all add: ledger_def modp_def emit_def)

lemma modr_modr: "modr s f (modr s g w) = modr s (\<lambda>r. f (g r)) w"
  by (simp add: modr_def)

lemma ledger_uid: "ledger (w\<lparr>uidPool := p\<rparr>) = ledger w" "ledger (w\<lparr>outOfFuel := b\<rparr>) = ledger w"
  by (simp_all add: ledger_def)

section \<open>Every operation is a sequence of primitive entries\<close>

locale ledger_inv =
  fixes P :: "world \<Rightarrow> bool"
    and G :: "(svc \<Rightarrow> depid list \<times> depid list) \<times> (depid \<Rightarrow> svc \<times> svc \<times> DependencyType)"
  assumes prim_closed: "P w \<Longrightarrow> prim w w' \<Longrightarrow> P w'"
    and graph_fixed: "P w \<Longrightarrow> graph w = G"
    and graph_wf: "P w \<Longrightarrow> wf_in w"
begin

lemma same_ledger: "P w \<Longrightarrow> ledger w' = ledger w \<Longrightarrow> P w'"
  by (blast intro: prim_closed prim.inert)

lemma keeps_ledger: "(\<And>w. ledger (f w) = ledger w) \<Longrightarrow> keeps P f"
  by (auto intro: keepsI same_ledger)

lemma keeps_modr: "(\<And>r. rec_view (f r) = rec_view r) \<Longrightarrow> keeps P (modr s f)"
  by (rule keeps_ledger) (rule ledger_modr)

lemma keeps_modd: "(\<And>r. dep_view (f r) = dep_view r) \<Longrightarrow> keeps P (modd d f)"
  by (rule keeps_ledger) (rule ledger_modd)

lemma keeps_modp: "keeps P (modp s g)"
  by (rule keeps_ledger) (rule ledger_other)

lemma keeps_emit: "keeps P (emit es)"
  by (rule keeps_ledger) (rule ledger_other)

lemmas atoms = keeps_modr keeps_modd keeps_modp keeps_emit

lemma gr_dependents: "P w \<Longrightarrow> dependents (recs w s) = snd (fst G s)"
  using graph_fixed [of w] by (auto simp: graph_def dest: fun_cong)

lemma gr_dependsOn: "P w \<Longrightarrow> dependsOn (recs w s) = fst (fst G s)"
  using graph_fixed [of w] by (auto simp: graph_def dest: fun_cong)

lemma gr_To: "P w \<Longrightarrow> To (deps w d) = fst (snd (snd G d))"
  using graph_fixed [of w] by (auto simp: graph_def dest: fun_cong)

lemma keeps_bind_pair:
  "keeps P (\<lambda>w. snd (f w)) \<Longrightarrow> (\<And>b. keeps P (g b)) \<Longrightarrow> keeps P (\<lambda>w. case f w of (b, w') \<Rightarrow> g b w')"
  by (auto simp: keeps_def case_prod_beta)

text \<open>A loop over the links of a service, read at its start.\<close>

lemma keeps_dependents_loop:
  assumes "\<And>d. d \<in> set (snd (fst G s)) \<Longrightarrow> keeps P (f d)"
  shows "keeps P (\<lambda>w. fold f (dependents (recs w s)) w)"
proof (rule keepsI)
  fix w assume w: "P w"
  then have "keeps P (fold f (dependents (recs w s)))"
    by (intro keeps_fold assms) (simp add: gr_dependents)
  with w show "P (fold f (dependents (recs w s)) w)" by (blast dest: keepsD)
qed

lemma keeps_dependsOn_loop:
  assumes "\<And>d. d \<in> set (fst (fst G s)) \<Longrightarrow> keeps P (f d)"
  shows "keeps P (\<lambda>w. fold f (dependsOn (recs w s)) w)"
proof (rule keepsI)
  fix w assume w: "P w"
  then have "keeps P (fold f (dependsOn (recs w s)))"
    by (intro keeps_fold assms) (simp add: gr_dependsOn)
  with w show "P (fold f (dependsOn (recs w s)) w)" by (blast dest: keepsD)
qed

lemma keeps_queues: "keeps P (AddPropQueue s)" "keeps P (AddTransitionQueue s)"
proof -
  show "keeps P (AddPropQueue s)"
    unfolding AddPropQueue_def
  proof (rule keeps_when_guard)
    fix w assume "P w" "\<not> InPropQueue (recs w s)"
    then have "P ((modr s (\<lambda>r. r\<lparr>InPropQueue := True\<rparr>) w)\<lparr>propQueue := propQueue w @ [s]\<rparr>)"
      by (blast intro: prim_closed prim.queue_prop)
    then show "P (run [modr s (\<lambda>r. r\<lparr>InPropQueue := True\<rparr>), \<lambda>w. w\<lparr>propQueue := propQueue w @ [s]\<rparr>] w)"
      by (simp add: modr_def)
  qed
  show "keeps P (AddTransitionQueue s)"
    unfolding AddTransitionQueue_def
  proof (rule keeps_when_guard)
    fix w assume "P w" "\<not> InStopQueue (recs w s)"
    then have "P ((modr s (\<lambda>r. r\<lparr>InStopQueue := True\<rparr>) w)\<lparr>stopQueue := stopQueue w @ [s]\<rparr>)"
      by (blast intro: prim_closed prim.queue_stop)
    then show "P (run [modr s (\<lambda>r. r\<lparr>InStopQueue := True\<rparr>), \<lambda>w. w\<lparr>stopQueue := stopQueue w @ [s]\<rparr>] w)"
      by (simp add: modr_def)
  qed
qed

lemma keeps_notify: "keeps P (notifyListeners s e)"
  by (rule keeps_ledger) (simp add: notifyListeners_def ledger_other)

lemma keeps_release_tail:
  assumes "\<And>s. keeps P (stop s)"
  shows "keeps P (release_tail stop b s)"
  unfolding release_tail_def
  by (intro keeps_intros keeps_queues keeps_notify atoms assms) (simp_all add: rec_view_def)

lemma keeps_drop_explicit:
  assumes "\<And>s. keeps P (stop s)"
  shows "keeps P (drop_explicit stop b s)"
  unfolding drop_explicit_def
proof (rule keeps_when_guard)
  fix w assume w: "P w" "startExplicit (recs w s)"
  then have "P (modr s (\<lambda>r. r\<lparr>startExplicit := False, requiredBy := requiredBy r - 1\<rparr>) w)"
    by (intro prim_closed [OF _ prim.drop_explicit])
  then have "P (release_tail stop b s (modr s (\<lambda>r. r\<lparr>startExplicit := False, requiredBy := requiredBy r - 1\<rparr>) w))"
    by (rule keepsD [OF keeps_release_tail [OF assms]])
  also have "modr s (\<lambda>r. r\<lparr>startExplicit := False, requiredBy := requiredBy r - 1\<rparr>) w =
      dec_required s (modr s (\<lambda>r. r\<lparr>startExplicit := False\<rparr>) w)"
    by (simp add: dec_required_def modr_modr)
  finally show "P (run [modr s (\<lambda>r. r\<lparr>startExplicit := False\<rparr>), Release stop b s] w)"
    by (simp only: Release_def run.simps)
qed

lemma keeps_drop_link:
  assumes "\<And>s. keeps P (stop s)" and "s = fst (snd (snd G d))" and "d \<in> set (snd (fst G s))"
  shows "keeps P (drop_link stop b d s)"
  unfolding drop_link_def
proof (rule keeps_when_guard)
  fix w assume w: "P w" "HoldingAcq (deps w d)"
  have s: "To (deps w d) = s" using gr_To [OF w(1)] assms(2) by simp
  have "d \<in> set (dependents (recs w (To (deps w d))))"
    using gr_dependents [OF w(1)] assms(3) s by simp
  from prim_closed [OF w(1) prim.drop_link [OF this w(2)]]
  have "P (dec_required s (modd d (\<lambda>x. x\<lparr>HoldingAcq := False\<rparr>) w))"
    unfolding s dec_required_def .
  then have "P (release_tail stop b s (dec_required s (modd d (\<lambda>x. x\<lparr>HoldingAcq := False\<rparr>) w)))"
    by (rule keepsD [OF keeps_release_tail [OF assms(1)]])
  then show "P (run [modd d (\<lambda>x. x\<lparr>HoldingAcq := False\<rparr>), Release stop b s] w)"
    by (simp only: Release_def run.simps)
qed

lemma keeps_require_tail: "keeps P (require_tail s)"
  unfolding require_tail_def
  by (intro keeps_intros keeps_queues atoms) (simp_all add: rec_view_def)

lemma keeps_take_link:
  assumes "s = fst (snd (snd G d))" and "d \<in> set (snd (fst G s))" and "P w"
  shows "P (modr s (\<lambda>r. r\<lparr>requiredBy := requiredBy r + 1\<rparr>) (modd d (\<lambda>x. x\<lparr>HoldingAcq := True\<rparr>) w))"
proof -
  have s: "To (deps w d) = s" using gr_To [OF assms(3)] assms(1) by simp
  have "d \<in> set (dependents (recs w (To (deps w d))))"
    using gr_dependents [OF assms(3)] assms(2) s by simp
  from prim.take_link [OF this] assms(3) show ?thesis unfolding s by (blast intro: prim_closed)
qed

text \<open>The flag of the link may be set before the tail of \<open>Require\<close>, which does not read it.\<close>

lemma require_tail_modd: "modd d f (require_tail s w) = require_tail s (modd d f w)"
  by (simp add: require_tail_def when_do_def AddPropQueue_def modr_def modd_def)

lemma keeps_acquire_link:
  assumes "d \<in> set (snd (fst G (fst (snd (snd G d)))))"
  shows "keeps P (acquire_link d)"
proof (rule keepsI)
  fix w assume w: "P w"
  let ?t = "fst (snd (snd G d))"
  have t: "To (deps w d) = ?t" using gr_To [OF w] .
  have "P (require_tail ?t (modr ?t (\<lambda>r. r\<lparr>requiredBy := requiredBy r + 1\<rparr>) (modd d (\<lambda>x. x\<lparr>HoldingAcq := True\<rparr>) w)))"
    using keeps_require_tail keeps_take_link [OF refl assms w] by (blast dest: keepsD)
  also have "modr ?t (\<lambda>r. r\<lparr>requiredBy := requiredBy r + 1\<rparr>) (modd d (\<lambda>x. x\<lparr>HoldingAcq := True\<rparr>) w) =
      modd d (\<lambda>x. x\<lparr>HoldingAcq := True\<rparr>) (modr ?t (\<lambda>r. r\<lparr>requiredBy := requiredBy r + 1\<rparr>) w)"
    by (simp add: modr_def modd_def)
  finally show "P (acquire_link d w)"
    by (simp add: acquire_link_def Require_def t require_tail_modd)
qed

lemma keeps_ForcedStop: "keeps P (ForcedStop s)" "keeps P (UnrecoverableStop s)"
  unfolding ForcedStop_def UnrecoverableStop_def
  by (intro keeps_intros keeps_queues atoms; simp add: rec_view_def)+

lemma keeps_wakeups: "keeps P (dependencyStarted s)" "keeps P (dependentStopped s)" "keeps P (stop_waiting d s)"
  unfolding dependencyStarted_def dependentStopped_def stop_waiting_def
  by (intro keeps_intros keeps_queues atoms; simp add: rec_view_def dep_view_def)+

lemma keeps_stop_hard:
  assumes "\<And>s. keeps P (stop s)"
  shows "keeps P (stop_hard_dependent stop b s t)"
  unfolding stop_hard_dependent_def
  by (intro keeps_intros keeps_queues keeps_ForcedStop keeps_drop_explicit atoms assms)
    (simp_all add: rec_view_def)

lemma graph_dependent:
  assumes "P w" "d \<in> set (snd (fst G s))"
  shows "s = fst (snd (snd G d))"
  using assms graph_wf [OF assms(1)] gr_dependents [OF assms(1)] gr_To [OF assms(1)]
  unfolding wf_in_def by metis

lemma keeps_if_P: "(\<And>w. P w \<Longrightarrow> keeps P f) \<Longrightarrow> keeps P f"
  by (auto simp: keeps_def)

lemma keeps_drop_dependent:
  assumes "\<And>s. keeps P (stop s)" "d \<in> set (snd (fst G s))"
  shows "keeps P (drop_link stop b d s)"
proof (rule keeps_if_P)
  fix w assume "P w"
  from keeps_drop_link [OF assms(1) graph_dependent [OF this assms(2)] assms(2)]
  show "keeps P (drop_link stop b d s)" .
qed

lemma keeps_stop_dependent:
  assumes "\<And>s. keeps P (stop s)" "d \<in> set (snd (fst G s))"
  shows "keeps P (stop_dependent stop b c s d)"
proof (rule keepsI)
  fix w assume w: "P w"
  have soft: "keeps P (when_do (\<lambda>w. \<not> b) (run [stop_waiting d t, drop_link stop False d s]))" for t
    by (intro keeps_intros keeps_wakeups keeps_drop_dependent assms)
  show "P (stop_dependent stop b c s d w)"
    unfolding stop_dependent_def Let_def
    using w by (auto intro: keepsD [OF soft] keepsD [OF keeps_stop_hard [OF assms(1)]] simp del: run.simps)
qed

lemma fold_snd_keeps:
  assumes "\<And>d. d \<in> set ds \<Longrightarrow> keeps P (\<lambda>w. snd (f d (b d, w)))"
    and "\<And>d b c w. snd (f d (b, w)) = snd (f d (c, w))"
    and "P w"
  shows "P (snd (fold f ds (c, w)))"
  using assms(1,3)
proof (induction ds arbitrary: c w)
  case (Cons d ds)
  have "P (snd (f d (c, w)))"
    using Cons.prems assms(2) [of d c w "b d"] by (auto dest: keepsD)
  then have "P (snd (fold f ds (fst (f d (c, w)), snd (f d (c, w)))))"
    by (intro Cons.IH) (use Cons.prems in auto)
  then show ?case by simp
qed simp

lemma P_stopDependents:
  assumes "\<And>s. keeps P (stop s)" "P w"
  shows "P (snd (stopDependents stop b c s w))"
  unfolding stopDependents_def
  using assms by (intro fold_snd_keeps) (auto intro!: keeps_stop_dependent simp: gr_dependents)

lemma P_CheckRestart: "P w \<Longrightarrow> P (snd (CheckRestart s w))" "P w \<Longrightarrow> P (snd (process_CheckRestart s w))"
  using keeps_modp by (auto simp: CheckRestart_def process_CheckRestart_def Let_def dest: keepsD)

lemma P_auto_restart: "P w \<Longrightarrow> P (snd (auto_restart s w))"
proof -
  assume w: "P w"
  have m: "keeps P (run [modr s (\<lambda>r. r\<lparr>inAutoRestart := ok\<rparr>), modr s (\<lambda>r. r\<lparr>restartLimitExhausted := \<not> ok\<rparr>)])" for ok
    by (intro keeps_intros atoms) (simp_all add: rec_view_def)
  have n: "keeps P (modr s (\<lambda>r. r\<lparr>restartLimitExhausted := False\<rparr>))"
    by (intro atoms) (simp add: rec_view_def)
  show ?thesis
    using w P_CheckRestart(1) [OF w, of s]
    by (auto simp: auto_restart_def Let_def case_prod_beta simp del: run.simps intro: keepsD [OF m] keepsD [OF n])
qed

lemma keeps_enter_stopping: "keeps P (enter_stopping b s)"
  unfolding enter_stopping_def
  by (intro keeps_intros keeps_queues atoms) (simp_all add: rec_view_def)

lemma keeps_unqueue: "keeps P (UnqueueConsole s)"
  by (rule keeps_ledger) (simp add: ledger_def UnqueueConsole_def)

lemma P_InterruptStart: "P w \<Longrightarrow> P (snd (InterruptStart s w))"
  using keeps_emit by (auto simp: InterruptStart_def split: service_impl.splits dest: keepsD)

lemma keeps_stop_finish: "keeps P (stop_finish b s)"
proof (rule keepsI)
  fix w assume w: "P w"
  have a: "keeps P (run [notifyListeners s EventStartCancelled, enter_stopping b s])"
    by (intro keeps_intros keeps_notify keeps_enter_stopping)
  have c: "keeps P (run [when_do (\<lambda>w. waitingForConsole (recs w s))
             (run [UnqueueConsole s, modr s (\<lambda>r. r\<lparr>waitingForConsole := False\<rparr>)]),
           notifyListeners s EventStartCancelled, enter_stopping b s])"
    by (intro keeps_intros keeps_notify keeps_enter_stopping keeps_unqueue atoms) (simp add: rec_view_def)
  have i: "keeps P (\<lambda>w. let (ok, w) = InterruptStart s w
             in if \<not> ok then notifyListeners s EventStartCancelled w
                else run [notifyListeners s EventStartCancelled, enter_stopping b s] w)"
    unfolding Let_def
    by (intro keeps_bind_pair keeps_if keeps_notify a keepsI P_InterruptStart)
  show "P (stop_finish b s w)"
    using w by (cases "state (recs w s)")
      (auto simp: stop_finish_def simp del: run.simps
        intro: keepsD [OF a] keepsD [OF c] keepsD [OF i [unfolded Let_def]] keepsD [OF keeps_enter_stopping])
qed

lemma keeps_do_stop:
  assumes "\<And>s. keeps P (stop s)"
  shows "keeps P (do_stop stop b s)"
proof (rule keepsI)
  fix w assume w: "P w"
  define w1 where "w1 = run [modr s (\<lambda>r. r\<lparr>inAutoRestart := False\<rparr>), modr s (\<lambda>r. r\<lparr>inUserRestart := False\<rparr>)] w"
  have "keeps P (run [modr s (\<lambda>r. r\<lparr>inAutoRestart := False\<rparr>), modr s (\<lambda>r. r\<lparr>inUserRestart := False\<rparr>)])"
    by (intro keeps_intros atoms) (simp_all add: rec_view_def)
  with w have w1: "P w1" unfolding w1_def by (blast dest: keepsD)
  define fw where "fw = (if b then (True, w1) else auto_restart s w1)"
  have fw: "P (snd fw)" using w1 P_auto_restart by (simp add: fw_def)
  define w2 where "w2 = when_do (\<lambda>w. \<not> fst fw) (drop_explicit stop False s) (snd fw)"
  have w2: "P w2"
    unfolding w2_def using fw by (intro keepsD [OF keeps_when_do [OF keeps_drop_explicit [OF assms]]])
  have "P (snd (stopDependents stop (fst fw) c s w2))" for c
    by (rule P_stopDependents [OF assms w2])
  then have "P (stop_finish (fst (stopDependents stop (fst fw) c s w2)) s (snd (stopDependents stop (fst fw) c s w2)))" for c
    by (rule keepsD [OF keeps_stop_finish])
  then show "P (do_stop stop b s w)"
    using w unfolding do_stop_def w1_def [symmetric] Let_def fw_def [symmetric]
    by (auto simp: case_prod_beta w2_def [symmetric])
qed

lemma keeps_outOfFuel: "keeps P (\<lambda>w. w\<lparr>outOfFuel := True\<rparr>)"
  by (rule keeps_ledger) (simp add: ledger_def)

lemma keeps_doStopN: "keeps P (doStopN n b s)"
proof (induction n arbitrary: b s)
  case 0
  show ?case using keeps_outOfFuel by (simp add: keeps_def)
next
  case (Suc n)
  with keeps_do_stop [of "doStopN n False"] show ?case by (simp add: keeps_def)
qed

lemma keeps_doStop: "keeps P (doStop b s)"
  using keeps_doStopN by (auto simp: keeps_def doStop_def)

end

section \<open>The life cycle\<close>

context ledger_inv
begin

lemma keeps_timers:
  "keeps P (cancelJobTimeoutTimer s)" "keeps P (armJobTimeoutTimer s)"
  "keeps P (cancelRuntimeMaxTimer s)" "keeps P (armRuntimeMaxTimer s)"
  "keeps P (cancelTimer s)" "keeps P (armTimer purpose s)"
  unfolding cancelJobTimeoutTimer_def armJobTimeoutTimer_def cancelRuntimeMaxTimer_def
    armRuntimeMaxTimer_def cancelTimer_def armTimer_def
  by (intro keeps_intros atoms; simp add: rec_view_def)+

lemma keeps_bookkeeping:
  "keeps P NoteRestart" "keeps P (limiter_release s)" "keeps P (ServiceActive s)" "keeps P (AppendConsoleQueue s)"
  "keeps P (ServiceInactive s)"
  by (rule keeps_ledger, simp add: NoteRestart_def limiter_release_def ServiceActive_def AppendConsoleQueue_def
      ServiceInactive_def ledger_def emit_def)+

lemma keeps_set_now: "keeps P (\<lambda>w. modr s (\<lambda>r. r\<lparr>startRequestTime := Some (now w)\<rparr>) w)"
  "keeps P (\<lambda>w. modr s (\<lambda>r. r\<lparr>startedTime := Some (now w)\<rparr>) w)"
  "keeps P (\<lambda>w. modr s (\<lambda>r. r\<lparr>stoppedTime := Some (now w)\<rparr>) w)"
  by (rule keeps_ledger, rule ledger_modr, simp add: rec_view_def)+

lemma P_allocate: "P w \<Longrightarrow> P (snd (allocateDynamicUID s w))"
  by (erule same_ledger)
    (auto simp: allocateDynamicUID_def ledger_modr ledger_uid rec_view_def split: option.splits sum.splits prod.splits)

lemma keeps_releaseUID: "keeps P (releaseDynamicUID s)"
  unfolding releaseDynamicUID_def
  by (intro keeps_intros atoms, rule keeps_ledger) (simp_all add: ledger_def rec_view_def)

lemma P_startCheck: "P w \<Longrightarrow> P (snd (startCheckDependencies s w))"
proof -
  assume w: "P w"
  have dep: "keeps P (\<lambda>w. snd (start_check_dep d (b, w)))" for d b
    by (rule keeps_ledger) (simp add: start_check_dep_def Let_def ledger_modd dep_view_def)
  have eq: "snd (start_check_dep d (b, w)) = snd (start_check_dep d (c, w))" for d b c w
    by (simp add: start_check_dep_def Let_def)
  have "P (snd (fold start_check_dep (dependsOn (recs w s)) (True, w)))"
    by (rule fold_snd_keeps [OF dep eq w])
  moreover have "keeps P (start_check_dept d)" for d
    unfolding start_check_dept_def by (intro keeps_intros atoms) (simp add: dep_view_def)
  then have "keeps P (\<lambda>w. fold start_check_dept (dependents (recs w s)) w)"
    by (intro keeps_dependents_loop)
  ultimately show ?thesis
    by (auto simp: startCheckDependencies_def case_prod_beta dest: keepsD)
qed

lemma keeps_initiateStart: "keeps P (initiateStart s)"
proof -
  have "keeps P (\<lambda>w. let (ready, w) = startCheckDependencies s w in if ready then AddTransitionQueue s w else w)"
    unfolding Let_def by (intro keeps_bind_pair keeps_if keeps_queues keeps_id keepsI P_startCheck)
  then show ?thesis
    unfolding initiateStart_def
    by (intro keeps_intros keeps_timers keeps_set_now atoms) (simp_all add: rec_view_def)
qed

lemma keeps_drop_here: "keeps P (drop_explicit (doStop False) b s)"
  by (intro keeps_drop_explicit keeps_doStop)

lemma keeps_fail_dependent:
  assumes "d \<in> set (snd (fst G s))"
  shows "keeps P (fail_dependent s d)"
proof -
  have q: "keeps P (when_do q (run [modr t (\<lambda>r. r\<lparr>propFailure := True\<rparr>), AddPropQueue t]))" for q t
    by (intro keeps_intros keeps_queues atoms) (simp_all add: rec_view_def)
  have "keeps P (\<lambda>w. let from = From (deps w d) in
       if DepType (deps w d) \<in> {DepRegular, DepPreparedBy, DepMilestone}
       then when_do (\<lambda>w. state (recs w from) = StateStarting)
              (run [modr from (\<lambda>r. r\<lparr>propFailure := True\<rparr>), AddPropQueue from]) w
       else stop_waiting d from w)"
    unfolding Let_def
    by (rule keepsI) (auto simp del: run.simps intro: keepsD [OF q] keepsD [OF keeps_wakeups(3)])
  then show ?thesis
    unfolding fail_dependent_def by (intro keeps_intros keeps_drop_dependent keeps_doStop assms)
qed

lemma keeps_failed_core: "keeps P (failed_core b s)"
proof -
  have "keeps P (\<lambda>w. w\<lparr>startLimiter := map_option (CancelWait s) (startLimiter w)\<rparr>)"
    by (rule keeps_ledger) (simp add: ledger_def)
  then show ?thesis
    unfolding failed_core_def
    by (intro keeps_intros keeps_bookkeeping keeps_unqueue keeps_drop_here keeps_dependents_loop
        keeps_fail_dependent keeps_notify atoms) (simp_all add: rec_view_def)
qed

lemma keeps_reattach:
  assumes "d \<in> set (snd (fst G s))"
  shows "keeps P (reattach_soft s d)"
  unfolding reattach_soft_def
  by (rule keeps_when_guard) (simp add: keeps_take_link [OF graph_dependent assms] assms)

lemma keeps_doStart: "keeps P (doStart s)"
proof (rule keepsI)
  fix w assume w: "P w"
  have m: "keeps P (modr s (\<lambda>r. r\<lparr>desired := x\<rparr>))" for x
    by (intro atoms) (simp add: rec_view_def)
  have a: "keeps P (run [notifyListeners s EventStopCancelled, initiateStart s])"
    by (intro keeps_intros keeps_notify keeps_initiateStart)
  have b: "keeps P (run [
          \<lambda>w. fold (reattach_soft s) (dependents (recs w s)) w,
          ServiceActive s,
          modr s (\<lambda>r. r\<lparr>propRequire := \<not> propRelease r\<rparr>),
          modr s (\<lambda>r. r\<lparr>propRelease := False\<rparr>),
          when_do (\<lambda>w. propRequire (recs w s)) (AddPropQueue s),
          initiateStart s])"
    by (intro keeps_intros keeps_dependents_loop keeps_reattach keeps_bookkeeping keeps_queues
        keeps_initiateStart atoms) (simp_all add: rec_view_def)
  show "P (doStart s w)"
    using w unfolding doStart_def Let_def
    by (auto intro: keepsD [OF m] keepsD [OF a] keepsD [OF b] keepsD [OF keeps_failed_core] simp del: run.simps)
qed

lemma keeps_acquire_explicit: "keeps P (acquire_explicit s)"
  unfolding acquire_explicit_def
proof (rule keeps_when_guard)
  fix w assume w: "P w" "\<not> startExplicit (recs w s)"
  from prim_closed [OF w(1) prim.take_explicit [OF w(2)]]
  show "P (run [modr s (\<lambda>r. r\<lparr>requiredBy := requiredBy r + 1\<rparr>), modr s (\<lambda>r. r\<lparr>startExplicit := True\<rparr>)] w)"
    by (simp add: modr_modr)
qed

lemma keeps_Start: "keeps P (Start s)"
  unfolding Start_def
  by (intro keeps_intros keeps_acquire_explicit keeps_doStart atoms) (simp add: rec_view_def)

lemma P_Restart: "P w \<Longrightarrow> P (snd (Restart s w))"
proof -
  have "keeps P (run [modr s (\<lambda>r. r\<lparr>stopReason := ReasonNormal\<rparr>), modr s (\<lambda>r. r\<lparr>forceStop := True\<rparr>), doStop True s])"
    by (intro keeps_intros keeps_doStop atoms) (simp_all add: rec_view_def)
  then show "P w \<Longrightarrow> P (snd (Restart s w))"
    by (auto simp: Restart_def simp del: run.simps dest: keepsD)
qed

lemma keeps_signal: "keeps P (signal_readiness s)"
proof -
  have "keeps P (\<lambda>w. w\<lparr>bootReadyTime := Some (now w)\<rparr>)" "keeps P (\<lambda>w. w\<lparr>rwReady := True\<rparr>)"
    "keeps P (\<lambda>w. w\<lparr>logReady := True\<rparr>)"
    by (rule keeps_ledger, simp add: ledger_def)+
  then show ?thesis unfolding signal_readiness_def by (intro keeps_intros atoms)
qed

lemma keeps_started_dependent: "keeps P (started_dependent d)"
proof -
  have "keeps P (\<lambda>w. dependencyStarted (From (deps w d)) w)"
    using keeps_wakeups(1) by (simp add: keeps_def)
  then show ?thesis
    unfolding started_dependent_def by (intro keeps_intros atoms) (simp_all add: dep_view_def)
qed

lemma keeps_chain: "keeps P (chain_next s)"
proof (rule keepsI)
  fix w assume w: "P w"
  have "P (snd (LoadService nm w))" for nm
    using w by (rule same_ledger) (auto simp: LoadService_def ledger_def split: option.splits)
  then have "P (snd (LoadService (chainTo (cfgs w s)) w))" .
  then show "P (chain_next s w)"
    by (cases "LoadService (chainTo (cfgs w s)) w")
      (auto simp: chain_next_def split: option.splits intro: keepsD [OF keeps_Start])
qed

lemma keeps_system_action: "keeps P (system_action act s)"
  unfolding system_action_def by (rule keeps_ledger) (simp add: when_do_def ledger_other)

lemma keeps_break_soft:
  assumes "d \<in> set (snd (fst G s))"
  shows "keeps P (break_soft s d)"
proof -
  have "keeps P (\<lambda>w. stop_waiting d (From (deps w d)) w)"
    using keeps_wakeups(3) by (simp add: keeps_def)
  then show ?thesis
    unfolding break_soft_def by (intro keeps_intros keeps_drop_dependent keeps_doStop assms)
qed

lemma keeps_exhaust: "keeps P (exhaust_limit s)"
proof -
  have "keeps P (\<lambda>w. system_action (startLimitAction (cfgs w s)) s w)"
    using keeps_system_action by (simp add: keeps_def)
  then show ?thesis
    unfolding exhaust_limit_def by (intro keeps_intros atoms) (simp_all add: rec_view_def)
qed

lemma keeps_after_stopped: "keeps P (after_stopped b s)"
proof (rule keepsI)
  fix w assume w: "P w"
  have "keeps P (restart_prepared d)" for d
    unfolding restart_prepared_def by (rule keeps_when_guard) (rule P_Restart)
  then have a: "keeps P (run [NoteRestart, \<lambda>w. fold restart_prepared (dependsOn (recs w s)) w, initiateStart s])"
    by (intro keeps_intros keeps_bookkeeping keeps_dependsOn_loop keeps_initiateStart)
  have c: "keeps P (run [BecomingInactive s,
       \<lambda>w. if startExplicit (recs w s) then drop_explicit (doStop False) False s w
           else when_do (\<lambda>w. requiredBy (recs w s) = 0) (ServiceInactive s) w])"
    unfolding BecomingInactive_def
    by (intro keeps_intros keeps_drop_here keeps_bookkeeping atoms)
  show "P (after_stopped b s w)"
    using w by (auto simp: after_stopped_def simp del: run.simps intro: keepsD [OF a] keepsD [OF c])
qed

end

text \<open>
  Operations that may pass the console on: it is enough that passing it on keeps the property in the
  worlds where some service has the console.
\<close>

locale ledger_pull = ledger_inv P G for P G +
  fixes pull :: "world \<Rightarrow> world"
  assumes pull_closed: "P w \<Longrightarrow> haveConsole (recs w s) \<Longrightarrow> P (releaseConsole pull s w)"
    and graph_out: "P w \<Longrightarrow> wf_out w"
begin

lemma graph_dependency:
  assumes "P w" "d \<in> set (fst (fst G s))"
  shows "d \<in> set (snd (fst G (fst (snd (snd G d)))))"
  using assms graph_out [OF assms(1)] gr_dependsOn [OF assms(1)] gr_dependents [OF assms(1)] gr_To [OF assms(1)]
  unfolding wf_out_def by metis

lemma keeps_release_console: "keeps P (when_do (\<lambda>w. haveConsole (recs w s)) (releaseConsole pull s))"
  by (rule keeps_when_guard) (rule pull_closed)

lemma keeps_Started: "keeps P (Started pull s)"
proof -
  have fin: "keeps P (\<lambda>w. if forceStop (recs w s) \<or> desired (recs w s) = StateStopped then doStop False s w
         else fold started_dependent (dependents (recs w s)) w)"
    by (intro keeps_intros keeps_doStop keeps_dependents_loop keeps_started_dependent)
  have con: "keeps P (when_do (\<lambda>w. \<not> RunsOnConsole (svcFlags (cfgs w s)))
       (when_do (\<lambda>w. haveConsole (recs w s)) (releaseConsole pull s)))"
    by (intro keeps_when_do keeps_release_console)
  show ?thesis
    unfolding Started_def
    by (intro con fin keeps_when_do keeps_run keeps_timers keeps_bookkeeping keeps_set_now keeps_signal keeps_notify atoms)
      (simp_all add: rec_view_def)
qed

lemma keeps_skipped: "keeps P (markSkippedStart pull s)"
  unfolding markSkippedStart_def by (intro keeps_intros keeps_Started atoms) (simp add: rec_view_def)

lemma keeps_Stopped: "keeps P (Stopped pull s)"
proof (rule keepsI)
  fix w assume w: "P w"
  let ?pre = "[\<lambda>w. modr s (\<lambda>r. r\<lparr>stoppedTime := Some (now w)\<rparr>) w, cancelRuntimeMaxTimer s,
           cancelJobTimeoutTimer s, releaseDynamicUID s, modr s (\<lambda>r. r\<lparr>notifySock := False\<rparr>),
           when_do (\<lambda>w. haveConsole (recs w s)) (releaseConsole pull s),
           modr s (\<lambda>r. r\<lparr>forceStop := False\<rparr>)]"
  have "keeps P (run ?pre)"
    by (intro keeps_run keeps_timers keeps_set_now keeps_releaseUID keeps_release_console atoms)
      (simp_all add: rec_view_def)
  with w have w1: "P (run ?pre w)" by (blast dest: keepsD)
  have act: "keeps P (\<lambda>w. system_action (chooseStoppedAction b s w) s w)" for b
    using keeps_system_action by (simp add: keeps_def)
  have dep: "keeps P (\<lambda>w. dependentStopped (To (deps w d)) w)" for d
    using keeps_wakeups(2) by (simp add: keeps_def)
  have "keeps P (run [
          exhaust_limit s,
          when_do (\<lambda>w. \<not> b) (\<lambda>w. fold (break_soft s) (dependents (recs w s)) w),
          \<lambda>w. fold (\<lambda>d w. dependentStopped (To (deps w d)) w) (dependsOn (recs w s)) w,
          modr s (\<lambda>r. r\<lparr>state := StateStopped\<rparr>),
          after_stopped b s,
          \<lambda>w. system_action (chooseStoppedAction b s w) s w,
          when_do (\<lambda>w. \<not> startFailed (recs w s)) (run [
            emit [LogStopped s],
            \<lambda>w. if should_chain b s w then chain_next s w else w]),
          notifyListeners s EventStopped])" for b
    by (intro keeps_intros keeps_exhaust keeps_dependents_loop keeps_break_soft keeps_dependsOn_loop dep
        keeps_after_stopped act keeps_chain keeps_id keeps_notify atoms) (simp_all add: rec_view_def)
  from keepsD [OF this w1] show "P (Stopped pull s w)"
    unfolding Stopped_def Let_def .
qed

lemma keeps_failedToStart: "keeps P (failedToStart pull b c s)"
  unfolding failedToStart_def by (intro keeps_intros keeps_failed_core keeps_Stopped)

lemma P_startProcess: "P w \<Longrightarrow> P (snd (startProcess pull s w))"
proof -
  assume w: "P w"
  have m: "keeps P (\<lambda>w. case ready_via (pcfgs w s) of
                NoReadiness \<Rightarrow> run [cancelTimer s, Started pull s] w
              | via \<Rightarrow> run [
                  modp s (\<lambda>ps. ps\<lparr>readyCh := True, readyPipeRead := (via = ReadyPipe)\<rparr>),
                  when_do (\<lambda>w. startTimeout (pcfgs w s) > 0) (armTimer timerStartTimeout s)] w)"
  proof (rule keepsI)
    fix w assume w: "P w"
    have a: "keeps P (run [cancelTimer s, Started pull s])"
      by (intro keeps_intros keeps_timers keeps_Started)
    have c: "keeps P (run [modp s f, when_do q (armTimer timerStartTimeout s)])" for f q
      by (intro keeps_intros keeps_timers atoms)
    show "P (case ready_via (pcfgs w s) of
                NoReadiness \<Rightarrow> run [cancelTimer s, Started pull s] w
              | via \<Rightarrow> run [
                  modp s (\<lambda>ps. ps\<lparr>readyCh := True, readyPipeRead := (via = ReadyPipe)\<rparr>),
                  when_do (\<lambda>w. startTimeout (pcfgs w s) > 0) (armTimer timerStartTimeout s)] w)"
      using w by (auto split: readiness.splits simp del: run.simps intro: keepsD [OF a] keepsD [OF c])
  qed
  have n: "keeps P (run [modp s (\<lambda>ps. ps\<lparr>pid := p\<rparr>), emit [Spawned s p], modp s (\<lambda>ps. ps\<lparr>monitoring := True\<rparr>),
      \<lambda>w. case ready_via (pcfgs w s) of
                NoReadiness \<Rightarrow> run [cancelTimer s, Started pull s] w
              | via \<Rightarrow> run [
                  modp s (\<lambda>ps. ps\<lparr>readyCh := True, readyPipeRead := (via = ReadyPipe)\<rparr>),
                  when_do (\<lambda>w. startTimeout (pcfgs w s) > 0) (armTimer timerStartTimeout s)] w])" for p
    by (intro keeps_run atoms m)
  with w show ?thesis
    unfolding startProcess_def Let_def
    by (auto split: option.splits simp del: run.simps intro!: keepsD [OF n] keepsD [OF keeps_modp])
qed

lemma P_scripted_BringUp: "P w \<Longrightarrow> P (snd (scripted_BringUp pull s w))"
proof -
  assume w: "P w"
  have n: "keeps P (run [modp s (\<lambda>ps. ps\<lparr>pid := p\<rparr>), emit [Spawned s p], modp s (\<lambda>ps. ps\<lparr>monitoring := True\<rparr>),
                when_do (\<lambda>w. startTimeout (pcfgs w s) > 0) (armTimer timerStartTimeout s)])" for p
    by (intro keeps_intros keeps_timers atoms)
  show ?thesis
    using w P_allocate [OF w, of s] keepsD [OF keeps_Started w]
    by (auto simp: scripted_BringUp_def Let_def split: prod.splits PredicateOutcome.splits option.splits
        simp del: run.simps intro: keepsD [OF keeps_skipped] keepsD [OF n])
qed

lemma P_process_BringUp: "P w \<Longrightarrow> P (snd (process_BringUp pull s w))"
proof -
  assume w: "P w"
  have n: "keeps P (when_do c (modr s (\<lambda>r. r\<lparr>notifySock := True\<rparr>)))" for c
    by (intro keeps_intros atoms) (simp add: rec_view_def)
  show ?thesis
    using w P_allocate [OF w, of s]
    by (auto simp: process_BringUp_def Let_def split: prod.splits PredicateOutcome.splits
        intro!: keepsD [OF keeps_skipped] keepsD [OF n] P_startProcess)
qed

lemma P_BringUp: "P w \<Longrightarrow> P (snd (BringUp pull s w))"
  by (auto simp: BringUp_def P_scripted_BringUp P_process_BringUp split: service_impl.splits
      intro: keepsD [OF keeps_Started] keepsD [OF keeps_when_do [OF keeps_Started]])

lemma P_pickStopSignal: "P w \<Longrightarrow> P (snd (pickStopSignal s w))"
  by (auto simp: pickStopSignal_def Let_def intro: keepsD [OF keeps_modp])

lemma keeps_arm_stop: "keeps P (arm_stop_timeout s)" "keeps P (killCgroupTree sig s)"
  unfolding arm_stop_timeout_def killCgroupTree_def by (intro keeps_intros keeps_timers atoms)+

lemma keeps_process_BringDown: "keeps P (process_BringDown pull s)"
proof (rule keepsI)
  fix w assume w: "P w"
  have a: "keeps P (run [cancelTimer s, Stopped pull s])"
    by (intro keeps_intros keeps_timers keeps_Stopped)
  have b: "keeps P (run [modp s (\<lambda>ps. ps\<lparr>stopPID := p\<rparr>), emit [Spawned s p],
                    modp s (\<lambda>ps. ps\<lparr>stopIssued := True\<rparr>), arm_stop_timeout s])" for p
    by (intro keeps_intros keeps_arm_stop atoms)
  have c: "keeps P (run [modp s (\<lambda>ps. ps\<lparr>stopIssued := True\<rparr>), arm_stop_timeout s])"
    by (intro keeps_intros keeps_arm_stop atoms)
  have d: "keeps P (run [emit es, modp s (\<lambda>ps. ps\<lparr>stopIssued := True\<rparr>),
          when_do q (killCgroupTree sig s), arm_stop_timeout s])" for es q sig
    by (intro keeps_intros keeps_arm_stop atoms)
  have m: "P (modp s f w)" for f using w by (rule keepsD [OF keeps_modp])
  show "P (process_BringDown pull s w)"
    using P_pickStopSignal [OF m] m
    unfolding process_BringDown_def Let_def
    by (auto split: option.splits prod.splits simp del: run.simps
        intro: keepsD [OF a] keepsD [OF b] keepsD [OF c] intro!: keepsD [OF d] dest: sym) (metis snd_conv)+
qed

lemma keeps_BringDown: "keeps P (BringDown pull s)"
proof (rule keepsI)
  fix w assume w: "P w"
  have n: "keeps P (run [modp s (\<lambda>ps. ps\<lparr>stopPID := p\<rparr>), emit [Spawned s p],
                    modp s (\<lambda>ps. ps\<lparr>monitoring := True\<rparr>), arm_stop_timeout s])" for p
    by (intro keeps_intros keeps_arm_stop atoms)
  have "P (scripted_BringDown pull s w)"
    using w by (auto simp: scripted_BringDown_def split: option.splits simp del: run.simps
        intro: keepsD [OF keeps_Stopped] keepsD [OF n])
  with w show "P (BringDown pull s w)"
    by (auto simp: BringDown_def split: service_impl.splits
        intro: keepsD [OF keeps_Stopped] keepsD [OF keeps_process_BringDown])
qed

lemma keeps_bring_up_or_fail: "keeps P (bring_up_or_fail pull s)"
proof -
  have n: "keeps P (run [modr s (\<lambda>r. r\<lparr>state := StateStopping\<rparr>), failedToStart pull False True s])"
    by (intro keeps_intros keeps_failedToStart atoms) (simp add: rec_view_def)
  have up: "keeps P (\<lambda>w. snd (BringUp pull s w))"
    by (intro keepsI P_BringUp)
  show ?thesis
    unfolding bring_up_or_fail_def Let_def
    by (rule keeps_bind_pair [OF up], rule keeps_if [OF keeps_id n])
qed

lemma keeps_allDepsStarted: "keeps P (allDepsStarted pull s)"
proof (rule keepsI)
  fix w assume w: "P w"
  have m: "keeps P (modr s (\<lambda>r. r\<lparr>waitingForDeps := False\<rparr>))" "keeps P (modr s (\<lambda>r. r\<lparr>waitingForStartSlot := True\<rparr>))"
    by (intro atoms; simp add: rec_view_def)+
  have q: "keeps P (queueForConsole s)"
    unfolding queueForConsole_def by (intro keeps_intros keeps_bookkeeping atoms) (simp add: rec_view_def)
  have l: "keeps P (\<lambda>w. w\<lparr>startLimiter := x\<rparr>)" for x
    by (rule keeps_ledger) (simp add: ledger_def)
  show "P (allDepsStarted pull s w)"
    using w unfolding allDepsStarted_def Let_def
    by (auto split: option.splits prod.splits
        intro!: keepsD [OF q] keepsD [OF keeps_bring_up_or_fail] keepsD [OF m(2)] keepsD [OF l] keepsD [OF m(1)])
qed

lemma keeps_propagate_pin: "keeps P (propagate_pin s)"
proof (rule keepsI)
  fix w assume w: "P w"
  have "keeps P (\<lambda>w. mark_pin (To (deps w d)) w)" for d
    unfolding mark_pin_def
    by (rule keepsI, erule keepsD [rotated], intro keeps_intros keeps_queues atoms) (simp add: rec_view_def)
  then have b: "keeps P (run [
          modr s (\<lambda>r. r\<lparr>deptPinnedStarted := x\<rparr>),
          \<lambda>w. fold (\<lambda>d. when_do (q d) (\<lambda>w. mark_pin (To (deps w d)) w)) (dependsOn (recs w s)) w,
          when_do c (doStop False s)])" for x q c
    by (intro keeps_intros keeps_dependsOn_loop keeps_doStop atoms) (simp_all add: rec_view_def)
  have m: "keeps P (modr s (\<lambda>r. r\<lparr>propPinDpt := False\<rparr>))"
    by (intro atoms) (simp add: rec_view_def)
  show "P (propagate_pin s w)"
    using keepsD [OF m w] unfolding propagate_pin_def Let_def
    by (auto simp del: run.simps intro: keepsD [OF b])
qed

lemma keeps_ReleaseDependencies: "keeps P (ReleaseDependencies s)"
  unfolding ReleaseDependencies_def
proof (rule keeps_dependsOn_loop, rule keepsI)
  fix d w assume d: "d \<in> set (fst (fst G s))" and w: "P w"
  from graph_dependency [OF w d] have "keeps P (drop_link (doStop False) True d (fst (snd (snd G d))))"
    by (intro keeps_drop_link keeps_doStop refl)
  with w gr_To [OF w] show "P (drop_link (doStop False) True d (To (deps w d)) w)"
    by (simp add: keeps_def)
qed

lemma keeps_DoPropagation: "keeps P (DoPropagation pull s)"
proof -
  have acq: "keeps P (acquire_link d)" if "d \<in> set (fst (fst G s))" for d
    by (rule keeps_if_P) (rule keeps_acquire_link [OF graph_dependency [OF _ that]])
  have stp: "keeps P (\<lambda>w. doStop (inUserRestart (recs w s)) s w)"
    using keeps_doStop by (simp add: keeps_def)
  show ?thesis
    unfolding DoPropagation_def
    by (intro acq stp keeps_run keeps_when_do keeps_dependsOn_loop keeps_ReleaseDependencies keeps_failedToStart
        keeps_doStart keeps_propagate_pin atoms) (simp_all add: rec_view_def)
qed

lemma keeps_ExecuteTransition: "keeps P (ExecuteTransition pull s)"
proof (rule keepsI)
  fix w assume w: "P w"
  have n: "keeps P (when_do (checkDepsStarted s)
           (run [modr s (\<lambda>r. r\<lparr>waitingForDeps := False\<rparr>), allDepsStarted pull s]))"
    "keeps P (when_do (stopCheckDependents s)
           (run [modr s (\<lambda>r. r\<lparr>waitingForDeps := False\<rparr>), BringDown pull s]))"
    by (intro keeps_intros keeps_allDepsStarted keeps_BringDown atoms; simp add: rec_view_def)+
  show "P (ExecuteTransition pull s w)"
    using w by (auto simp: ExecuteTransition_def split: ServiceState.splits simp del: run.simps
        intro: keepsD [OF n(1)] keepsD [OF n(2)])
qed

end

section \<open>Requests\<close>

context ledger_inv
begin

lemma keeps_Stop: "keeps P (Stop b s)"
proof (rule keepsI)
  fix w assume w: "P w"
  define w1 where "w1 = when_do (\<lambda>w. startExplicit (recs w s))
               (run [modr s (\<lambda>r. r\<lparr>startExplicit := False\<rparr>), dec_required s]) w"
  have w1: "P w1"
  proof (cases "startExplicit (recs w s)")
    case True
    from prim_closed [OF w prim.drop_explicit [OF True]] True show ?thesis
      by (simp add: w1_def dec_required_def modr_modr)
  qed (simp add: w1_def w)
  have m: "keeps P (when_do c (modr s (\<lambda>r. r\<lparr>desired := StateStopped\<rparr>)))" for c
    by (intro keeps_intros atoms) (simp add: rec_view_def)
  have a: "keeps P (when_do c (run [
                       modr s (\<lambda>r. r\<lparr>propRelease := \<not> propRequire r\<rparr>),
                       when_do (\<lambda>w. propRelease (recs w s)) (AddPropQueue s)]))" for c
    by (intro keeps_intros keeps_queues atoms) (simp add: rec_view_def)
  have d: "keeps P (when_do c (run [modr s (\<lambda>r. r\<lparr>stopReason := ReasonNormal\<rparr>), doStop False s]))" for c
    by (intro keeps_intros keeps_doStop atoms) (simp add: rec_view_def)
  show "P (Stop b s w)"
    unfolding Stop_def w1_def [symmetric] Let_def
    by (auto simp del: run.simps intro!: keepsD [OF m] keepsD [OF a] keepsD [OF d] w1)
qed

lemma P_Wake: "P w \<Longrightarrow> P (snd (Wake s w))"
proof -
  assume w: "P w"
  have t: "keeps P (when_do (\<lambda>w. \<not> HoldingAcq (deps w d))
           (run [modd d (\<lambda>x. x\<lparr>HoldingAcq := True\<rparr>), modr s (\<lambda>r. r\<lparr>requiredBy := requiredBy r + 1\<rparr>)]))"
    if "d \<in> set (snd (fst G s))" for d
    using that graph_dependent [OF _ that] by (intro keeps_when_guard) (simp add: keeps_take_link)
  have "P (snd (fold (wake_dependent s) (dependents (recs w s)) (False, w)))"
  proof (rule fold_snd_keeps [OF _ _ w])
    fix d assume d: "d \<in> set (dependents (recs w s))"
    then show "keeps P (\<lambda>w. snd (wake_dependent s d (False, w)))"
      using t [of d] by (auto simp: wake_dependent_def gr_dependents [OF w] keeps_def)
  qed (simp add: wake_dependent_def)
  then show ?thesis
    using w by (auto simp: Wake_def case_prod_beta intro: keepsD [OF keeps_doStart])
qed

lemma keeps_mark_pins:
  "keeps P (\<lambda>w. fold (\<lambda>d. when_do (q d) (\<lambda>w. mark_pin (To (deps w d)) w)) (dependsOn (recs w s)) w)"
proof -
  have "keeps P (\<lambda>w. mark_pin (To (deps w d)) w)" for d
    unfolding mark_pin_def
    by (rule keepsI, erule keepsD [rotated], intro keeps_intros keeps_queues atoms) (simp add: rec_view_def)
  then show ?thesis by (intro keeps_dependsOn_loop keeps_when_do)
qed

lemma keeps_pins: "keeps P (PinStart s)" "keeps P (PinStop s)"
  unfolding PinStart_def PinStop_def
  by (intro keeps_mark_pins keeps_when_do keeps_run atoms; simp add: rec_view_def)+

lemma keeps_Unpin: "keeps P (Unpin s)"
proof (rule keepsI)
  fix w assume w: "P w"
  have u: "keeps P (when_do c (modr s (\<lambda>r. r\<lparr>pinnedStopped := False\<rparr>)))" for c
    by (intro keeps_intros atoms) (simp add: rec_view_def)
  have m: "keeps P (modr s (\<lambda>r. r\<lparr>pinnedStarted := False\<rparr>))"
    by (intro atoms) (simp add: rec_view_def)
  have x: "keeps P (run [
         \<lambda>w. fold (\<lambda>d. when_do (\<lambda>w. IsHard (deps w d) \<and> deptPinnedStarted (recs w (To (deps w d))))
                    (\<lambda>w. mark_pin (To (deps w d)) w))
               (dependsOn (recs w s)) w,
         when_do (\<lambda>w. state (recs w s) = StateStarted) (run [
           when_do (\<lambda>w. requiredBy (recs w s) = 0)
             (run [modr s (\<lambda>r. r\<lparr>propRelease := True\<rparr>), AddPropQueue s]),
           when_do (\<lambda>w. desired (recs w s) = StateStopped \<or> forceStop (recs w s)) (doStop False s)]),
         when_do (\<lambda>w. pinnedStopped (recs w s)) (modr s (\<lambda>r. r\<lparr>pinnedStopped := False\<rparr>))])"
    by (intro keeps_mark_pins u keeps_when_do keeps_run keeps_queues keeps_doStop atoms) (simp add: rec_view_def)
  show "P (Unpin s w)"
    unfolding Unpin_def Let_def
    using w by (auto simp del: run.simps intro!: keepsD [OF u] keepsD [OF x] keepsD [OF m])
qed

end

section \<open>The console queue\<close>

text \<open>Properties that also survive a service getting the console.\<close>

locale ledger_console = ledger_inv P G for P G +
  assumes console_on: "P w \<Longrightarrow> P (modr s (\<lambda>r. r\<lparr>haveConsole := True\<rparr>) w)"
    and links_out: "P w \<Longrightarrow> wf_out w"
begin

lemma pull_step:
  assumes "keeps P pull"
  shows "ledger_pull P G pull"
proof
  fix w s assume w: "P w"
  from prim_closed [OF w prim.console_off] have "P (modr s (\<lambda>r. r\<lparr>haveConsole := False\<rparr>) w)" .
  then show "P (releaseConsole pull s w)"
    using assms by (auto simp: releaseConsole_def dest: keepsD)
qed (rule links_out)

lemma keeps_AcquiredConsole:
  assumes "keeps P pull"
  shows "keeps P (AcquiredConsole pull s)"
proof -
  note pull = pull_step [OF assms]
  have rel: "keeps P (releaseConsole pull s)"
    using keepsD [OF assms] prim_closed [OF _ prim.console_off]
    by (auto simp: releaseConsole_def keeps_def)
  have fin: "keeps P (\<lambda>w. if state (recs w s) \<noteq> StateStarting then releaseConsole pull s w
         else if checkDepsStarted s w then allDepsStarted pull s w else releaseConsole pull s w)"
    by (intro keeps_if rel ledger_pull.keeps_allDepsStarted [OF pull])
  have on: "keeps P (modr s (\<lambda>r. r\<lparr>haveConsole := True\<rparr>))"
    by (rule keepsI) (rule console_on)
  show ?thesis
    unfolding AcquiredConsole_def by (intro on fin keeps_run atoms) (simp add: rec_view_def)
qed

lemma keeps_pullN: "keeps P (pullN n)"
proof (induction n)
  case 0
  show ?case using keeps_outOfFuel by (simp add: keeps_def)
next
  case (Suc n)
  have "P (AcquiredConsole (pullN n) s (w\<lparr>consoleQueue := q\<rparr>))" if "P w" for s q w
    by (rule keepsD [OF keeps_AcquiredConsole [OF Suc.IH]], rule same_ledger [OF that]) (simp add: ledger_def)
  then show ?case by (auto simp: keeps_def split: list.splits)
qed

lemma keeps_PullConsoleQueue: "keeps P PullConsoleQueue"
  by (rule keepsI) (simp only: PullConsoleQueue_def keepsD [OF keeps_pullN])

end

sublocale ledger_console \<subseteq> ledger_pull P G PullConsoleQueue
  by (rule pull_step [OF keeps_PullConsoleQueue])

section \<open>The scheduling loop\<close>

text \<open>
  A property of the world between two steps of the loop, given the services of the current batch that
  are still to be propagated.  It survives a life-cycle operation whatever the batch is, and it follows
  the queues when a batch is taken, when a service leaves it, and when a transition is taken.
\<close>

locale scheduler_inv =
  fixes P :: "svc list \<Rightarrow> world \<Rightarrow> bool"
    and G :: "(svc \<Rightarrow> depid list \<times> depid list) \<times> (depid \<Rightarrow> svc \<times> svc \<times> DependencyType)"
  assumes operations: "ledger_pull (P R) G PullConsoleQueue"
    and take_batch: "P [] w \<Longrightarrow> P (propQueue w) (w\<lparr>propQueue := []\<rparr>)"
    and next_of_batch: "P (s # R) w \<Longrightarrow> P R (modr s (\<lambda>r. r\<lparr>InPropQueue := False\<rparr>) w)"
    and take_transition: "P [] w \<Longrightarrow> stopQueue w = s # q \<Longrightarrow>
      P [] (modr s (\<lambda>r. r\<lparr>InStopQueue := False\<rparr>) (w\<lparr>stopQueue := q\<rparr>))"

sublocale scheduler_inv \<subseteq> ops: ledger_pull "P R" G PullConsoleQueue for R
  by (rule operations)

context scheduler_inv
begin

lemma P_batch: "P R w \<Longrightarrow> P [] (fold propagate_one R w)"
proof (induction R arbitrary: w)
  case (Cons s R)
  have "P R (DoPropagation PullConsoleQueue s (modr s (\<lambda>r. r\<lparr>InPropQueue := False\<rparr>) w))"
    using Cons.prems by (intro keepsD [OF ops.keeps_DoPropagation] next_of_batch)
  from Cons.IH [OF this] show ?case by (simp add: propagate_one_def)
qed simp

lemma keeps_drain: "keeps (P []) drain_props"
  unfolding drain_props_def by (intro keepsI P_batch take_batch)

lemma keeps_transition: "keeps (P []) transition_one"
proof (rule keepsI)
  fix w assume w: "P [] w"
  show "P [] (transition_one w)"
  proof (cases "stopQueue w")
    case (Cons s q)
    from keepsD [OF ops.keeps_ExecuteTransition take_transition [OF w Cons]] Cons
    show ?thesis by (simp add: transition_one_def)
  qed (simp add: transition_one_def w)
qed

lemma P_processQueues:
  assumes "processQueues w = Some w'" and "P [] w"
  shows "P [] w'"
proof -
  have "P [] w \<longrightarrow> P [] w'"
  proof (rule processQueues.raw_induct [where P = "\<lambda>w w'. P [] w \<longrightarrow> P [] w'", OF _ assms(1)])
    fix pq w w'
    assume ih: "\<And>w w'. pq w = Some w' \<Longrightarrow> P [] w \<longrightarrow> P [] w'"
      and eq: "(if queues_idle w then Some w else pq (transition_one (drain_props w))) = Some w'"
    show "P [] w \<longrightarrow> P [] w'"
      using ih [of "transition_one (drain_props w)" w'] eq keepsD [OF keeps_transition] keepsD [OF keeps_drain]
      by (auto split: if_splits)
  qed
  with assms(2) show ?thesis by blast
qed

end

end
