(* ===== verification/Machine.thy ===== *)
theory Machine
  imports Ledger
begin

text \<open>
  The service manager as a state machine: an \<open>event\<close> is one call that reaches the service set from
  outside (a request of the control socket, a process that ends, a timer that fires, a notification, a
  free start slot, the clock), \<open>handle\<close> runs it to its end, and \<open>reachable\<close> are the worlds that
  sequences of events lead to from a set of services without links.  The clock and the answers of
  the operating system change between events.
\<close>

section \<open>Events\<close>

datatype event =
    EvStart svc | EvWake svc | EvStop svc | EvForceStop svc | EvRelease svc
  | EvPinStart svc | EvPinStop svc | EvUnpin svc
  | EvTrigger bool svc
  | EvAddDep depid svc svc DependencyType | EvRmDep svc svc DependencyType
  | EvShutdown ShutdownType "svc list"
  | EvChildExit ChildExit svc | EvCgroupEmpty ServiceState svc | EvStopCommandExit svc
  | EvReady bool svc | EvTimer svc
  | EvStartExit ChildExit svc | EvStopExit svc | EvScriptTimer svc
  | EvSlot svc | EvRuntimeMax svc | EvJobTimeout svc
  | EvClock instant "svc \<Rightarrow> os_answers"

primrec handle :: "event \<Rightarrow> world \<Rightarrow> world option" where
  "handle (EvStart s) = StartService s"
| "handle (EvWake s) = WakeService s"
| "handle (EvStop s) = StopService s"
| "handle (EvForceStop s) = ForceStopService s"
| "handle (EvRelease s) = (\<lambda>w. processQueues (Stop False s w))"
| "handle (EvPinStart s) = (\<lambda>w. Some (PinStart s w))"
| "handle (EvPinStop s) = (\<lambda>w. Some (PinStop s w))"
| "handle (EvUnpin s) = (\<lambda>w. processQueues (Unpin s w))"
| "handle (EvTrigger b s) = (\<lambda>w. processQueues (SetTrigger b s w))"
| "handle (EvAddDep d s to ty) = (\<lambda>w. Some (AddDep d s to ty w))"
| "handle (EvRmDep s to ty) = (\<lambda>w. processQueues (snd (RmDep s to ty w)))"
| "handle (EvShutdown ty snapshot) = StopAllServices ty snapshot"
| "handle (EvChildExit exit s) = handleChildExit exit s"
| "handle (EvCgroupEmpty st s) = dispatchAfterExit st s"
| "handle (EvStopCommandExit s) = (\<lambda>w. Some (stop_command_exited s w))"
| "handle (EvReady ready s) = handleReadyNotification ready s"
| "handle (EvTimer s) = handleTimerExpired s"
| "handle (EvStartExit exit s) = handleStartExit exit s"
| "handle (EvStopExit s) = handleStopExit s"
| "handle (EvScriptTimer s) = scripted_handleTimer s"
| "handle (EvSlot s) = slot_granted s"
| "handle (EvRuntimeMax s) = runtime_max_fired s"
| "handle (EvJobTimeout s) = job_timeout_fired s"
| "handle (EvClock t answers) = (\<lambda>w. Some (w\<lparr>now := t, os := answers\<rparr>))"

text \<open>A new link is a new object.\<close>

definition fresh_link :: "depid \<Rightarrow> world \<Rightarrow> bool" where
  "fresh_link d w \<longleftrightarrow> (\<forall>s. d \<notin> set (dependsOn (recs w s)) \<and> d \<notin> set (dependents (recs w s)))"

definition allowed :: "event \<Rightarrow> world \<Rightarrow> bool" where
  "allowed ev w = (case ev of EvAddDep d s to ty \<Rightarrow> fresh_link d w | _ \<Rightarrow> True)"

inductive step :: "world \<Rightarrow> event \<Rightarrow> world \<Rightarrow> bool" where
  step: "allowed ev w \<Longrightarrow> handle ev w = Some w' \<Longrightarrow> step w ev w'"

inductive_cases stepE: "step w ev w'"

definition initial :: "world \<Rightarrow> bool" where
  "initial w \<longleftrightarrow> propQueue w = [] \<and> stopQueue w = [] \<and>
    (\<forall>s. state (recs w s) = StateStopped \<and> requiredBy (recs w s) = 0 \<and> \<not> startExplicit (recs w s) \<and>
         dependsOn (recs w s) = [] \<and> dependents (recs w s) = [] \<and>
         \<not> InPropQueue (recs w s) \<and> \<not> InStopQueue (recs w s) \<and> \<not> haveConsole (recs w s))"

inductive reachable :: "world \<Rightarrow> bool" where
  init: "initial w \<Longrightarrow> reachable w"
| after: "reachable w \<Longrightarrow> step w ev w' \<Longrightarrow> reachable w'"

section \<open>Handlers keep what the operations keep\<close>

text \<open>A handler whose end is not reached has the value \<open>None\<close> and nothing to keep.\<close>

definition okeeps :: "(world \<Rightarrow> bool) \<Rightarrow> (world \<Rightarrow> world option) \<Rightarrow> bool" where
  "okeeps P f \<longleftrightarrow> (\<forall>w w'. P w \<longrightarrow> f w = Some w' \<longrightarrow> P w')"

lemma okeepsI: "(\<And>w w'. P w \<Longrightarrow> f w = Some w' \<Longrightarrow> P w') \<Longrightarrow> okeeps P f"
  by (simp add: okeeps_def)

lemma okeepsD: "okeeps P f \<Longrightarrow> P w \<Longrightarrow> f w = Some w' \<Longrightarrow> P w'"
  by (auto simp: okeeps_def)

lemma okeeps_Some: "keeps P f \<Longrightarrow> okeeps P (\<lambda>w. Some (f w))"
  by (auto simp: okeeps_def keeps_def)

lemma okeeps_if: "okeeps P f \<Longrightarrow> okeeps P g \<Longrightarrow> okeeps P (\<lambda>w. if c w then f w else g w)"
  unfolding okeeps_def by (metis (full_types))

lemma okeeps_comp: "okeeps P f \<Longrightarrow> keeps P g \<Longrightarrow> okeeps P (\<lambda>w. f (g w))"
  unfolding okeeps_def keeps_def by metis

lemma okeeps_let: "keeps P g \<Longrightarrow> okeeps P f \<Longrightarrow> okeeps P (\<lambda>w. let w = g w in f w)"
  by (simp add: okeeps_comp)

lemma okeeps_pair:
  "keeps P (\<lambda>w. snd (g w)) \<Longrightarrow> (\<And>b. okeeps P (f b)) \<Longrightarrow> okeeps P (\<lambda>w. case g w of (b, w') \<Rightarrow> f b w')"
  unfolding okeeps_def keeps_def case_prod_beta by metis

context scheduler_inv
begin

lemma okeeps_queues: "okeeps (P []) processQueues"
  by (rule okeepsI) (rule P_processQueues)

lemma okeeps_pq: "keeps (P []) f \<Longrightarrow> okeeps (P []) (\<lambda>w. processQueues (f w))"
  by (rule okeeps_comp [OF okeeps_queues])

lemmas ops_atoms = ops.keeps_modr ops.keeps_modp ops.keeps_emit

lemmas ops_keeps = ops.keeps_doStop ops.keeps_Start ops.keeps_initiateStart ops.keeps_Started ops.keeps_Stopped
  ops.keeps_failedToStart ops.keeps_bring_up_or_fail ops.keeps_timers ops.keeps_ForcedStop ops.keeps_Stop
  ops.keeps_pins ops.keeps_Unpin ops.keeps_arm_stop

lemma keeps_reason: "keeps (P []) (modr s (\<lambda>r. r\<lparr>stopReason := x\<rparr>))"
  "keeps (P []) (modr s (\<lambda>r. r\<lparr>forceStop := b\<rparr>))" "keeps (P []) (modr s (\<lambda>r. r\<lparr>state := st\<rparr>))"
  "keeps (P []) (modr s (\<lambda>r. r\<lparr>startFailed := b\<rparr>))" "keeps (P []) (modr s (\<lambda>r. r\<lparr>waitingForStartSlot := b\<rparr>))"
  by (intro ops.keeps_modr, simp add: rec_view_def)+

lemma keeps_signal_now: "keeps (P []) (\<lambda>w. emit (es w) w)"
  by (rule ops.keeps_ledger) (rule ledger_other)

lemma okeeps_unexpected: "okeeps (P []) (handleUnexpectedTermination s)"
proof (rule okeepsI)
  fix w w' assume w: "P [] w" and h: "handleUnexpectedTermination s w = Some w'"
  have a: "okeeps (P []) (\<lambda>w. processQueues (run [modr s (\<lambda>r. r\<lparr>stopReason := ReasonTerminated\<rparr>),
        modr s (\<lambda>r. r\<lparr>forceStop := True\<rparr>), doStop False s] w))"
    by (intro okeeps_pq keeps_intros ops_keeps keeps_reason)
  have b: "okeeps (P []) (\<lambda>w. processQueues (initiateStart s w))"
    by (intro okeeps_pq ops_keeps)
  from h obtain w1 where w1: "processQueues (run [modr s (\<lambda>r. r\<lparr>stopReason := ReasonTerminated\<rparr>),
        modr s (\<lambda>r. r\<lparr>forceStop := True\<rparr>), doStop False s] w) = Some w1"
    and h1: "(if state (recs w1 s) = StateStopping \<and> desired (recs w1 s) = StateStarted \<and> \<not> IsStartPinned (recs w1 s)
           then processQueues (initiateStart s w1) else Some w1) = Some w'"
    by (auto simp: handleUnexpectedTermination_def bind_eq_Some_conv simp del: run.simps)
  from okeepsD [OF a w w1] h1 show "P [] w'"
    by (auto split: if_splits intro: okeepsD [OF b])
qed

lemma okeeps_recover_now: "okeeps (P []) (recover_now s)"
proof -
  have sp: "keeps (P []) (\<lambda>w. snd (startProcess PullConsoleQueue s w))"
    by (rule keepsI) (rule ops.P_startProcess)
  have fin: "okeeps (P []) (\<lambda>w. if ok then Some (modp s f w) else handleUnexpectedTermination s (modp s f w))" for ok f
    by (intro okeeps_if okeeps_Some okeeps_comp [OF okeeps_unexpected] ops.keeps_modp)
  show ?thesis
    unfolding recover_now_def Let_def by (rule okeeps_pair [OF sp fin])
qed

lemma okeeps_smooth: "okeeps (P []) (doSmoothRecovery s)"
proof (rule okeepsI)
  fix w w' assume w: "P [] w" and h: "doSmoothRecovery s w = Some w'"
  have m: "P [] (modp s f (modp s g w))" for f g
    using w by (intro keepsD [OF ops.keeps_modp])
  from h show "P [] w'"
    by (auto simp: doSmoothRecovery_def Let_def case_prod_beta split: if_splits
        intro: okeepsD [OF okeeps_recover_now m] keepsD [OF ops.keeps_timers(6) m])
qed

lemma okeeps_dispatch: "okeeps (P []) (dispatchAfterExit st s)"
proof (rule okeepsI)
  fix w w' assume w: "P [] w" and h: "dispatchAfterExit st s w = Some w'"
  have a: "okeeps (P []) (\<lambda>w. processQueues (run [modr s (\<lambda>r. r\<lparr>stopReason := ReasonFailed\<rparr>),
      failedToStart PullConsoleQueue False True s] w))"
    by (intro okeeps_pq keeps_intros ops_keeps keeps_reason)
  have b: "okeeps (P []) (\<lambda>w. processQueues (run [modp s (\<lambda>p. p\<lparr>stopIssued := False\<rparr>), Stopped PullConsoleQueue s] w))"
    by (intro okeeps_pq keeps_intros ops_keeps ops.keeps_modp)
  have c: "keeps (P []) (\<lambda>w. snd (if smoothRecovery (cfgs w s) then process_CheckRestart s w else (False, w)))"
    by (rule keepsI) (simp add: ops.P_CheckRestart)
  have d: "okeeps (P []) (\<lambda>w. if ok then doSmoothRecovery s (modp s (\<lambda>p. p\<lparr>doingSmoothRecov := True\<rparr>) w)
      else handleUnexpectedTermination s w)" for ok
    by (intro okeeps_if okeeps_unexpected okeeps_comp [OF okeeps_smooth] ops.keeps_modp)
  show "P [] w'"
    using h okeepsD [OF a w] okeepsD [OF b w] okeepsD [OF okeeps_pair [OF c d] w] w
    by (cases st) (simp_all add: dispatchAfterExit_def del: run.simps)
qed

lemma okeeps_child_exit: "okeeps (P []) (handleChildExit exit s)"
proof -
  have a: "keeps (P []) (run [
           when_do (\<lambda>w. KillAllOnStop (svcFlags (cfgs w s))) (killCgroupTree 9 s),
           modp s (\<lambda>p. p\<lparr>exitStatus := exit_status_of exit, pid := 0, monitoring := False\<rparr>),
           cancelTimer s,
           modp s (\<lambda>p. p\<lparr>readyPipeRead := False\<rparr>)])"
    by (intro keeps_intros ops_keeps ops.keeps_modp)
  have b: "okeeps (P []) (\<lambda>w. processQueues (run [modr s (\<lambda>r. r\<lparr>stopReason := ReasonExecFailed\<rparr>),
          modr s (\<lambda>r. r\<lparr>state := StateStopping\<rparr>), failedToStart PullConsoleQueue False True s] w))"
    by (intro okeeps_pq keeps_intros ops_keeps keeps_reason)
  have c: "okeeps (P []) (\<lambda>w. dispatchAfterExit (state (recs w s)) s w)"
    using okeepsD [OF okeeps_dispatch] by (auto intro: okeepsI)
  show ?thesis
    unfolding handleChildExit_def
    by (intro okeeps_let [OF a] okeeps_if b c okeeps_Some keeps_id)
qed

lemma okeeps_ready: "okeeps (P []) (handleReadyNotification ready s)"
proof (rule okeepsI)
  fix w w' assume w: "P [] w" and h: "handleReadyNotification ready s w = Some w'"
  have a: "okeeps (P []) (\<lambda>w. processQueues (run [cancelTimer s, Started PullConsoleQueue s] w))"
    by (intro okeeps_pq keeps_intros ops_keeps)
  have b: "okeeps (P []) (\<lambda>w. processQueues (run [cancelTimer s, modr s (\<lambda>r. r\<lparr>stopReason := ReasonFailed\<rparr>),
               failedToStart PullConsoleQueue False False s] w))"
    by (intro okeeps_pq keeps_intros ops_keeps keeps_reason)
  have m: "P [] (when_do c (modp s f) (modp s g w))" for c f g
    using w by (intro keepsD [OF keeps_when_do [OF ops.keeps_modp]] keepsD [OF ops.keeps_modp])
  have "okeeps (P []) (\<lambda>w. if state (recs w s) \<noteq> StateStarting then Some w
        else if ready then processQueues (run [cancelTimer s, Started PullConsoleQueue s] w)
        else processQueues (run [cancelTimer s, modr s (\<lambda>r. r\<lparr>stopReason := ReasonFailed\<rparr>),
               failedToStart PullConsoleQueue False False s] w))"
    by (intro okeeps_if okeeps_Some keeps_id a b)
  from okeepsD [OF this m] h show "P [] w'"
    unfolding handleReadyNotification_def Let_def by blast
qed

lemma keeps_final_kill: "keeps (P []) (final_kill s)"
  unfolding final_kill_def Let_def
proof (rule keeps_when_guard)
  fix w assume w: "P [] w"
  have "keeps (P []) (run [
       when_do (\<lambda>w. pid (procs w s) > 0) (\<lambda>w. emit [Signalled s (pid (procs w s)) sig] w),
       when_do (killsToGroup s) (killCgroupTree sig s),
       when_do (\<lambda>w. stopPID (procs w s) > 0) (\<lambda>w. emit [Signalled s (stopPID (procs w s)) 9] w)])" for sig
    by (intro keeps_intros ops_keeps keeps_signal_now)
  from keepsD [OF this w] show "P [] (run [
       when_do (\<lambda>w. pid (procs w s) > 0) (\<lambda>w'. emit [Signalled s (pid (procs w' s)) (FinalKillSignal (pcfgs w s))] w'),
       when_do (killsToGroup s) (killCgroupTree (FinalKillSignal (pcfgs w s)) s),
       when_do (\<lambda>w. stopPID (procs w s) > 0) (\<lambda>w. emit [Signalled s (stopPID (procs w s)) 9] w)] w)" .
qed

lemma keeps_timeout_step:
  "keeps (P []) (when_do (\<lambda>w. pid (procs w s) > 0) (run [
           \<lambda>w. emit [Signalled s (pid (procs w s)) sig] w,
           modr s (\<lambda>r. r\<lparr>stopReason := ReasonTimedOut\<rparr>),
           failedToStart PullConsoleQueue False False s]))"
  "keeps (P []) (run [
             when_do (\<lambda>w. pid (procs w s) > 0) (\<lambda>w. emit [Signalled s (pid (procs w s)) sig] w),
             when_do (killsToGroup s) (killCgroupTree sig s),
             when_do c (armTimer timerAbortTimeout s)])"
  "keeps (P []) (run [\<lambda>w. emit [Signalled s (pid (procs w s)) sig] w, armTimer timerAbortTimeout s])"
  by (intro keeps_intros ops_keeps keeps_signal_now keeps_reason)+

lemma okeeps_timer: "okeeps (P []) (handleTimerExpired s)"
proof (rule okeepsI)
  fix w w' assume w: "P [] w" and h: "handleTimerExpired s w = Some w'"
  have m: "P [] (modp s f w)" for f using w by (rule keepsD [OF ops.keeps_modp])
  show "P [] w'"
  proof (cases "timer (procs w s)")
    case timerStopTimeout
    with h keepsD [OF keeps_timeout_step(2) m] keepsD [OF keeps_timeout_step(3) m] keepsD [OF keeps_final_kill m]
    show ?thesis by (auto simp: handleTimerExpired_def Let_def simp del: run.simps split: if_splits)
  next
    case timerRestartDelay
    with h okeepsD [OF okeeps_recover_now m] m show ?thesis
      by (simp add: handleTimerExpired_def Let_def split: if_splits) blast
  qed (use h m keepsD [OF keeps_timeout_step(1) m] keepsD [OF keeps_final_kill m]
      in \<open>auto simp: handleTimerExpired_def Let_def simp del: run.simps\<close>)
qed

lemma okeeps_script_start: "okeeps (P []) (handleStartExit exit s)"
proof -
  have a: "keeps (P []) (run [modp s (\<lambda>p. p\<lparr>pid := 0, monitoring := False\<rparr>), cancelTimer s])"
    by (intro keeps_intros ops_keeps ops.keeps_modp)
  have b: "keeps (P []) (run [modr s (\<lambda>r. r\<lparr>stopReason := ReasonExecFailed\<rparr>), failedToStart PullConsoleQueue False True s])"
    "keeps (P []) (run [
         when_do (\<lambda>w. stopReason (recs w s) \<noteq> ReasonTimedOut) (modr s (\<lambda>r. r\<lparr>stopReason := ReasonFailed\<rparr>)),
         failedToStart PullConsoleQueue False True s])"
    by (intro keeps_intros ops_keeps keeps_reason)+
  show ?thesis
    unfolding handleStartExit_def
    by (intro okeeps_let [OF a] okeeps_pq keeps_if b ops_keeps)
qed

lemma okeeps_script_stop: "okeeps (P []) (handleStopExit s)"
  unfolding handleStopExit_def by (intro okeeps_pq keeps_intros ops_keeps ops.keeps_modp)

lemma okeeps_script_timer: "okeeps (P []) (scripted_handleTimer s)"
proof (rule okeepsI)
  fix w w' assume w: "P [] w" and h: "scripted_handleTimer s w = Some w'"
  have m: "P [] (modp s f w)" for f using w by (rule keepsD [OF ops.keeps_modp])
  have a: "okeeps (P []) (\<lambda>w. let w = run [
               when_do (\<lambda>w. pid (procs w s) > 0) (\<lambda>w. emit [Signalled s (pid (procs w s)) 9] w),
               modr s (\<lambda>r. r\<lparr>stopReason := ReasonTimedOut\<rparr>)] w
         in if pid (procs w s) \<le> 0 then processQueues (failedToStart PullConsoleQueue False True s w) else Some w)"
    by (rule okeeps_let; intro okeeps_if okeeps_pq okeeps_Some keeps_intros keeps_id ops_keeps keeps_signal_now keeps_reason)
  have b: "okeeps (P []) (\<lambda>w. Some (run [
           when_do (\<lambda>w. stopPID (procs w s) > 0) (\<lambda>w. emit [Signalled s (stopPID (procs w s)) 9] w),
           when_do (\<lambda>w. KillAllOnStop (svcFlags (cfgs w s))) (killCgroupTree 9 s)] w))"
    by (intro okeeps_Some keeps_intros ops_keeps keeps_signal_now)
  show "P [] w'"
    using h okeepsD [OF a m] okeepsD [OF b m] m
    by (cases "timer (procs w s)") (auto simp: scripted_handleTimer_def simp del: run.simps)
qed

lemma okeeps_slot: "okeeps (P []) (slot_granted s)"
proof -
  have "keeps (P []) (\<lambda>w. w\<lparr>startLimiter := map_option (\<lambda>sl. sl\<lparr>woken := remove1 s (woken sl)\<rparr>) (startLimiter w)\<rparr>)"
    by (rule ops.keeps_ledger) (simp add: ledger_def)
  then show ?thesis
    unfolding slot_granted_def by (intro okeeps_pq keeps_intros ops_keeps keeps_reason)
qed

lemma okeeps_limits: "okeeps (P []) (runtime_max_fired s)" "okeeps (P []) (job_timeout_fired s)"
  unfolding runtime_max_fired_def job_timeout_fired_def
  by (intro okeeps_if okeeps_pq okeeps_Some keeps_intros keeps_id ops_keeps keeps_reason)+

lemma keeps_shutdown: "keeps (P []) (\<lambda>w. fold (\<lambda>s. run [Stop False s, Unpin s]) snapshot
      (w\<lparr>restartEnabled := False, shutdownType := ty\<rparr>))"
proof -
  have a: "keeps (P []) (\<lambda>w. w\<lparr>restartEnabled := False, shutdownType := ty\<rparr>)"
    by (rule ops.keeps_ledger) (simp add: ledger_def)
  have b: "keeps (P []) (fold (\<lambda>s. run [Stop False s, Unpin s]) snapshot)"
    by (intro keeps_fold keeps_intros ops_keeps)
  show ?thesis by (intro keepsI keepsD [OF b] keepsD [OF a])
qed

lemma okeeps_StopAll: "okeeps (P []) (StopAllServices ty snapshot)"
  unfolding StopAllServices_def by (rule okeeps_pq [OF keeps_shutdown])

lemma keeps_trigger: "keeps (P []) (SetTrigger b s)" "keeps (P []) (stop_command_exited s)"
  unfolding SetTrigger_def stop_command_exited_def
  by (intro keeps_intros ops_keeps keeps_signal_now ops.keeps_modp)+

lemma okeeps_requests:
  "okeeps (P []) (StartService s)" "okeeps (P []) (WakeService s)" "okeeps (P []) (StopService s)"
  "okeeps (P []) (ForceStopService s)"
  unfolding StartService_def WakeService_def StopService_def ForceStopService_def
  by (intro okeeps_pq ops_keeps keepsI ops.P_Wake; assumption?)+

text \<open>Every event that leaves the links alone.\<close>

lemma okeeps_handle:
  assumes "\<nexists>d s to ty. ev = EvAddDep d s to ty" "\<nexists>s to ty. ev = EvRmDep s to ty"
  shows "okeeps (P []) (handle ev)"
proof (cases ev)
  case (EvClock t answers)
  have "keeps (P []) (\<lambda>w. w\<lparr>now := t, os := answers\<rparr>)"
    by (rule ops.keeps_ledger) (simp add: ledger_def)
  with EvClock show ?thesis by (simp add: okeeps_Some)
qed (use assms in \<open>simp_all add: okeeps_requests okeeps_pq okeeps_Some ops_keeps keeps_trigger okeeps_StopAll
      okeeps_child_exit okeeps_dispatch okeeps_ready okeeps_timer okeeps_script_start okeeps_script_stop
      okeeps_script_timer okeeps_slot okeeps_limits\<close>)

end

end
