(* ===== verification/Construct.thy ===== *)
theory Construct
  imports Machine
begin

text \<open>
  The constructors: \<open>NewServiceRecord\<close>, \<open>NewInternalService\<close>, \<open>NewTriggeredService\<close>,
  \<open>NewScriptedService\<close>, \<open>NewProcessService\<close> and \<open>NewServiceSet\<close>, whose fields that Go leaves at their zero
  values are written out, and \<open>AddService\<close>.  A service set holds one configuration for each of its
  services; it starts as an \<open>initial\<close> world.
\<close>

definition no_flags :: ServiceFlags where
  "no_flags = \<lparr>RWReadyFlag = False, LogReadyFlag = False, RunsOnConsole = False, StartsOnConsole = False,
     SharesConsole = False, PassCSFD = False, StartInterruptible = False, Skippable = False,
     SignalProcessOnly = False, AlwaysChain = False, KillAllOnStop = False, UnmaskIntr = False\<rparr>"

definition NewServiceRecord :: ServiceRecord where
  "NewServiceRecord =
    \<lparr>state = StateStopped, desired = StateStopped, requiredBy = 0, startExplicit = False,
     dependsOn = [], dependents = [], InPropQueue = False, InStopQueue = False, haveConsole = False,
     pinnedStopped = False, pinnedStarted = False, deptPinnedStarted = False, markedDown = False,
     waitingForDeps = False, waitingForConsole = False, waitingForStartSlot = False,
     propRequire = False, propRelease = False, propFailure = False, propStart = False, propStop = False,
     propPinDpt = False, startFailed = False, startSkipped = False, startedEmitted = False,
     inAutoRestart = False, inUserRestart = False, restartLimitExhausted = False, forceStop = False,
     stopReason = ReasonNormal, startRequestTime = None, startedTime = None, stoppedTime = None,
     jobTimeoutTimer = False, runtimeMaxTimer = False, dynamicUID = 0, notifySock = False, listeners = []\<rparr>"

definition new_config :: "service_impl \<Rightarrow> string \<Rightarrow> svc_cfg" where
  "new_config i name =
    \<lparr>serviceName = name, impl = i, svcFlags = no_flags, autoRestart = RestartNever, smoothRecovery = False,
     manualStart = False, stopWhenUnneeded = False, restartMode = RestartModeNormal, normalExitCodes = [],
     normalExitSignals = [], restartForceExitCodes = [], chainTo = [], failureAction = ActionNone,
     successAction = ActionNone, startLimitAction = ActionNone, rebootArgument = [], jobTimeout = 0,
     runtimeMax = 0, dynamicUser = False, fdStoreMax = 0\<rparr>"

definition NewProcessService :: proc_cfg where
  "NewProcessService =
    \<lparr>command = [], stopCommand = [], preStartCommand = [], startTimeout = 60 * second, stopTimeout = 10 * second,
     ready_via = NoReadiness, watchdogTimeout = 0, termSignal = 15, restartKillSignal = 0, finalKillSignal = 0,
     surviveFinalKillSignal = False, killMode = KillModeProcess, timeoutStartFailureMode = TimeoutFailureTerminate,
     timeoutStopFailureMode = TimeoutFailureTerminate, timeoutAbortSec = 0, restartDelay = 200000000,
     restartDelayStep = 0, restartDelayCap = 0, restartRandomizedDelay = 0, restartMaxDelay = 0,
     restartInterval = 10 * second, maxRestartCount = 3, hasCgroup = False, exitType = ExitTypeMain\<rparr>"

definition no_process :: proc_state where
  "no_process =
    \<lparr>pid = 0, stopPID = 0, exitStatus = no_exit_status, timer = timerNone, timerArmed = False, monitoring = False,
     readyCh = False, readyPipeRead = False, pendingStopSignal = 0, stopIssued = False, doingSmoothRecov = False,
     currentRestartDelay = 0, restartIntervalTime = 0, restartIntervalCount = 0, lastStartTime = 0,
     isTriggered = False\<rparr>"

definition NewServiceSet ::
  "(svc \<Rightarrow> svc_cfg) \<Rightarrow> (svc \<Rightarrow> proc_cfg) \<Rightarrow> (svc \<Rightarrow> os_answers) \<Rightarrow> (string \<Rightarrow> svc option) \<Rightarrow> world" where
  "NewServiceSet cs ps answers ld =
    \<lparr>recs = (\<lambda>_. NewServiceRecord), procs = (\<lambda>_. no_process), deps = (\<lambda>_. NewServiceDep 0 0 DepRegular),
     cfgs = cs, pcfgs = ps, os = answers, records = [], aliases = [], loader = ld,
     propQueue = [], stopQueue = [], consoleQueue = [], activeServices = 0, restartEnabled = True,
     shutdownType = ShutdownNone, startLimiter = None, uidPool = NewUIDPool 0 0, bootServiceName = [],
     bootReadyTime = None, rwReady = False, logReady = False, restartLog = [], now = 0, trace = [],
     outOfFuel = False\<rparr>"

definition AddService :: "svc \<Rightarrow> world \<Rightarrow> world" where
  "AddService s w = w\<lparr>records := (serviceName (cfgs w s), s) # filter (\<lambda>(n, _). n \<noteq> serviceName (cfgs w s)) (records w)\<rparr>"

lemma NewServiceSet_initial: "initial (NewServiceSet cs ps answers ld)"
  by (simp add: initial_def NewServiceSet_def NewServiceRecord_def)

lemma AddService_initial: "initial w \<Longrightarrow> initial (AddService s w)"
  by (simp add: initial_def AddService_def)

section \<open>An operating system that answers yes\<close>

definition willing :: "int \<Rightarrow> os_answers" where
  "willing p = \<lparr>notify_socket_ok = True, predicate_results = [], required_paths_ok = True,
     activation_socket_ok = True, pre_start_ok = True, output_setup_ok = True, start_process = Some p,
     stop_process = Some (p + 1), jitter_draw = 0, cgroup_populated = False\<rparr>"

text \<open>Sequences of events, and the worlds they lead to.\<close>

primrec handle_all :: "event list \<Rightarrow> world \<Rightarrow> world option" where
  "handle_all [] w = Some w"
| "handle_all (ev # evs) w = Option.bind (handle ev w) (handle_all evs)"

end
