(* ===== verification/Evaluate.thy ===== *)
theory Evaluate
  imports Construct
begin

text \<open>
  Evaluation of the state machine on concrete worlds by rewriting.  The stores stay chains of updates of
  their initial value, with one entry per service, so that a run of several events is evaluated by
  \<open>simp\<close> with the collection \<open>eval\<close>: the values of a new service set and of a new record, and the
  definitions of the operations.
\<close>

named_theorems eval "values of the constructors and definitions of the operations"

section \<open>A set of internal services\<close>

definition internal_cfg :: svc_cfg where
  "internal_cfg = new_config Internal []"

definition internals :: world where
  "internals = NewServiceSet (\<lambda>_. internal_cfg) (\<lambda>_. NewProcessService) (\<lambda>_. willing 100) (\<lambda>_. None)"

lemma internals_eval [eval]:
  "recs internals = (\<lambda>_. NewServiceRecord)" "procs internals = (\<lambda>_. no_process)"
  "deps internals = (\<lambda>_. NewServiceDep 0 0 DepRegular)"
  "cfgs internals = (\<lambda>_. internal_cfg)" "pcfgs internals = (\<lambda>_. NewProcessService)" "os internals = (\<lambda>_. willing 100)"
  "propQueue internals = []" "stopQueue internals = []" "consoleQueue internals = []"
  "startLimiter internals = None" "restartEnabled internals" "bootServiceName internals = []"
  "records internals = []" "trace internals = []" "now internals = 0" "activeServices internals = 0"
  "restartLog internals = []" "\<not> outOfFuel internals"
  by (simp_all add: internals_def NewServiceSet_def)

lemma internals_initial: "initial internals"
  by (simp add: internals_def NewServiceSet_initial)

lemma internal_cfg_eval [eval]:
  "impl internal_cfg = Internal" "svcFlags internal_cfg = no_flags" "autoRestart internal_cfg = RestartNever"
  "\<not> manualStart internal_cfg" "\<not> stopWhenUnneeded internal_cfg" "chainTo internal_cfg = []"
  "jobTimeout internal_cfg = 0" "runtimeMax internal_cfg = 0" "restartMode internal_cfg = RestartModeNormal"
  "normalExitCodes internal_cfg = []" "normalExitSignals internal_cfg = []" "restartForceExitCodes internal_cfg = []"
  "failureAction internal_cfg = ActionNone" "successAction internal_cfg = ActionNone"
  "startLimitAction internal_cfg = ActionNone" "\<not> smoothRecovery internal_cfg" "\<not> dynamicUser internal_cfg"
  "fdStoreMax internal_cfg = 0"
  by (simp_all add: internal_cfg_def new_config_def)

lemma no_flags_eval [eval]:
  "\<not> RWReadyFlag no_flags" "\<not> LogReadyFlag no_flags" "\<not> RunsOnConsole no_flags" "\<not> StartsOnConsole no_flags"
  "\<not> AlwaysChain no_flags" "\<not> KillAllOnStop no_flags" "\<not> StartInterruptible no_flags"
  by (simp_all add: no_flags_def)

lemma NewServiceRecord_eval [eval]:
  "state NewServiceRecord = StateStopped" "desired NewServiceRecord = StateStopped"
  "requiredBy NewServiceRecord = 0" "\<not> startExplicit NewServiceRecord"
  "dependsOn NewServiceRecord = []" "dependents NewServiceRecord = []"
  "\<not> InPropQueue NewServiceRecord" "\<not> InStopQueue NewServiceRecord" "\<not> haveConsole NewServiceRecord"
  "\<not> pinnedStopped NewServiceRecord" "\<not> pinnedStarted NewServiceRecord" "\<not> deptPinnedStarted NewServiceRecord"
  "\<not> markedDown NewServiceRecord" "\<not> waitingForDeps NewServiceRecord" "\<not> waitingForConsole NewServiceRecord"
  "\<not> waitingForStartSlot NewServiceRecord" "\<not> propRequire NewServiceRecord" "\<not> propRelease NewServiceRecord"
  "\<not> propFailure NewServiceRecord" "\<not> propStart NewServiceRecord" "\<not> propStop NewServiceRecord"
  "\<not> propPinDpt NewServiceRecord" "\<not> startFailed NewServiceRecord" "\<not> forceStop NewServiceRecord"
  "\<not> startedEmitted NewServiceRecord" "\<not> restartLimitExhausted NewServiceRecord"
  "\<not> inUserRestart NewServiceRecord" "\<not> inAutoRestart NewServiceRecord"
  "stopReason NewServiceRecord = ReasonNormal" "listeners NewServiceRecord = []" "dynamicUID NewServiceRecord = 0"
  by (simp_all add: NewServiceRecord_def)

lemma no_exit_status_eval [eval]: "\<not> Exited no_exit_status" "\<not> Signaled no_exit_status"
  by (simp_all add: Exited_def Signaled_def no_exit_status_def)

lemma no_process_eval [eval]:
  "pid no_process = 0" "stopPID no_process = 0" "exitStatus no_process = no_exit_status" "timer no_process = timerNone"
  "\<not> monitoring no_process" "\<not> stopIssued no_process" "\<not> doingSmoothRecov no_process"
  "restartIntervalTime no_process = 0" "restartIntervalCount no_process = 0" "lastStartTime no_process = 0"
  "currentRestartDelay no_process = 0" "pendingStopSignal no_process = 0" "\<not> isTriggered no_process"
  by (simp_all add: no_process_def)

section \<open>Definitions of the operations\<close>

text \<open>
  An operation is unfolded when it is applied to a world, and only the world of a pipeline, a loop or an
  assignment is simplified, not the statements still to come.
\<close>

lemma eval_cong:
  "w = w' \<Longrightarrow> run fs w = run fs w'"
  "w = w' \<Longrightarrow> when_do c f w = when_do c f w'"
  "xs = ys \<Longrightarrow> w = w' \<Longrightarrow> fold g xs w = fold g ys w'"
  "w = w' \<Longrightarrow> modr s h w = modr s h w'"
  "w = w' \<Longrightarrow> modd d h' w = modd d h' w'"
  "a = a' \<Longrightarrow> Let a body = Let a' body"
  by simp_all

lemmas loops_eval [eval] = fold_simps Let_def

lemmas state_eval [eval] = modr_def modd_def modp_def when_do_def emit_def notifyListeners_def
  AddPropQueue_def [THEN fun_cong] AddTransitionQueue_def [THEN fun_cong] ServiceActive_def ServiceInactive_def NewServiceDep_def
  IsOnlyOrdering_def IsHard_def IsStartPinned_def IsShuttingDown_def

lemmas start_eval [eval] = StartService_def Start_def [THEN fun_cong] acquire_explicit_def [THEN fun_cong] doStart_def initiateStart_def [THEN fun_cong]
  startCheckDependencies_def start_check_dep_def [THEN fun_cong] start_check_dept_def [THEN fun_cong] reattach_soft_def [THEN fun_cong]
  armJobTimeoutTimer_def [THEN fun_cong] cancelJobTimeoutTimer_def [THEN fun_cong] cancelRuntimeMaxTimer_def [THEN fun_cong] armRuntimeMaxTimer_def [THEN fun_cong]
  Require_def [THEN fun_cong] require_tail_def [THEN fun_cong] checkDepsStarted_def allDepsStarted_def bring_up_or_fail_def BringUp_def
  Started_def [THEN fun_cong] limiter_release_def signal_readiness_def [THEN fun_cong] started_dependent_def [THEN fun_cong] dependencyStarted_def [THEN fun_cong] AddDep_def [THEN fun_cong]
  acquire_link_def

lemmas stop_eval [eval] = StopService_def Stop_def dec_required_def [THEN fun_cong] doStop_def stop_fuel_def svcs_def do_stop_def
  auto_restart_def GetExitStatus_def IsForceRestartExit_def wants_restart_def IsNormalExit_def drop_explicit_def [THEN fun_cong]
  drop_link_def [THEN fun_cong] Release_def [THEN fun_cong] release_tail_def [THEN fun_cong] stopDependents_def stop_dependent_def stop_hard_dependent_def [THEN fun_cong]
  stop_waiting_def [THEN fun_cong] IsFundamentallyStopped_def stop_finish_def enter_stopping_def [THEN fun_cong] ReleaseDependencies_def
  stopCheckDependents_def BringDown_def Stopped_def releaseDynamicUID_def [THEN fun_cong] will_restart_def exhaust_limit_def [THEN fun_cong]
  break_soft_def [THEN fun_cong] dependentStopped_def [THEN fun_cong] after_stopped_def BecomingInactive_def [THEN fun_cong] chooseStoppedAction_def
  system_action_def [THEN fun_cong] should_chain_def DidFinish_def

lemmas loop_eval [eval] = processQueues.simps queues_idle_def drain_props_def propagate_one_def [THEN fun_cong] DoPropagation_def [THEN fun_cong]
  transition_one_def ExecuteTransition_def

section \<open>Reachability of concrete worlds\<close>

lemma reachable_by:
  "reachable w \<Longrightarrow> allowed ev w \<Longrightarrow> handle ev w = Some w' \<Longrightarrow> reachable w'"
  by (rule reachable.after) (auto intro: step)

text \<open>Service 0 with a regular dependency on service 1, not started yet; and after a start request.\<close>

definition pair_linked :: world where
  "pair_linked = AddDep 0 0 1 DepRegular internals"

lemma pair_linked_reachable: "reachable pair_linked"
proof (rule reachable_by)
  show "reachable internals" by (intro reachable.init internals_initial)
  show "allowed (EvAddDep 0 0 1 DepRegular) internals" by (simp add: allowed_def fresh_link_def eval)
qed (simp add: pair_linked_def)

lemma pair_start:
  "\<exists>w. StartService 0 pair_linked = Some w \<and> reachable w \<and>
     state (recs w 0) = StateStarted \<and> state (recs w 1) = StateStarted \<and>
     requiredBy (recs w 1) = 1 \<and> HoldingAcq (deps w 0) \<and> dependents (recs w 1) = [0]"
proof -
  have "case StartService 0 pair_linked of None \<Rightarrow> False | Some w \<Rightarrow>
     state (recs w 0) = StateStarted \<and> state (recs w 1) = StateStarted \<and>
     requiredBy (recs w 1) = 1 \<and> HoldingAcq (deps w 0) \<and> dependents (recs w 1) = [0]"
    by (simp add: pair_linked_def eval cong: eval_cong del: List.fold.simps)
  then obtain w where w: "StartService 0 pair_linked = Some w"
     "state (recs w 0) = StateStarted" "state (recs w 1) = StateStarted"
     "requiredBy (recs w 1) = 1" "HoldingAcq (deps w 0)" "dependents (recs w 1) = [0]"
    by (auto split: option.splits)
  have "reachable w"
    by (rule reachable_by [OF pair_linked_reachable, of "EvStart 0"]) (simp_all add: allowed_def w)
  with w show ?thesis by blast
qed

text \<open>A dependency that is added to a started service: the dependency is queued, nothing more.\<close>

lemma late_link:
  "\<exists>w. StartService 0 internals = Some w \<and> reachable (AddDep 0 0 1 DepRegular w) \<and>
     state (recs (AddDep 0 0 1 DepRegular w) 0) = StateStarted \<and>
     state (recs (AddDep 0 0 1 DepRegular w) 1) = StateStopped \<and>
     requiredBy (recs (AddDep 0 0 1 DepRegular w) 1) = 1 \<and> HoldingAcq (deps (AddDep 0 0 1 DepRegular w) 0) \<and>
     propQueue (AddDep 0 0 1 DepRegular w) = [1]"
proof -
  have "case StartService 0 internals of None \<Rightarrow> False | Some w \<Rightarrow> fresh_link 0 w \<and>
     state (recs (AddDep 0 0 1 DepRegular w) 0) = StateStarted \<and>
     state (recs (AddDep 0 0 1 DepRegular w) 1) = StateStopped \<and>
     requiredBy (recs (AddDep 0 0 1 DepRegular w) 1) = 1 \<and> HoldingAcq (deps (AddDep 0 0 1 DepRegular w) 0) \<and>
     propQueue (AddDep 0 0 1 DepRegular w) = [1]"
    by (simp add: eval fresh_link_def cong: eval_cong del: List.fold.simps)
  then obtain w where w: "StartService 0 internals = Some w" "fresh_link 0 w"
     "state (recs (AddDep 0 0 1 DepRegular w) 0) = StateStarted"
     "state (recs (AddDep 0 0 1 DepRegular w) 1) = StateStopped"
     "requiredBy (recs (AddDep 0 0 1 DepRegular w) 1) = 1" "HoldingAcq (deps (AddDep 0 0 1 DepRegular w) 0)"
     "propQueue (AddDep 0 0 1 DepRegular w) = [1]"
    by (auto split: option.splits)
  have "reachable w"
    by (rule reachable_by [OF reachable.init [OF internals_initial], of "EvStart 0"]) (simp_all add: allowed_def w)
  then have "reachable (AddDep 0 0 1 DepRegular w)"
    by (rule reachable_by [of _ "EvAddDep 0 0 1 DepRegular"]) (simp_all add: allowed_def w)
  with w show ?thesis by blast
qed

section \<open>A soft dependency under a common dependent\<close>

text \<open>
  Service 0 requires 1 and 2, and 1 waits for 2; \<open>triangle_started\<close> is the world after a start request
  for 0, as the evaluation gives it.
\<close>

definition triangle :: "event list" where
  "triangle = [EvAddDep 0 0 1 DepRegular, EvAddDep 1 0 2 DepRegular, EvAddDep 2 1 2 DepWaitsFor]"

definition triangle_started :: world where
  "triangle_started = internals
    \<lparr>deps := (\<lambda>_. \<lparr>From = 0, To = 0, WaitingOn = False, HoldingAcq = False, DepType = DepRegular\<rparr>)
       (1 := \<lparr>From = 0, To = 2, WaitingOn = False, HoldingAcq = True, DepType = DepRegular\<rparr>,
        2 := \<lparr>From = 1, To = 2, WaitingOn = False, HoldingAcq = True, DepType = DepWaitsFor\<rparr>,
        0 := \<lparr>From = 0, To = 1, WaitingOn = False, HoldingAcq = True, DepType = DepRegular\<rparr>),
     activeServices := 3, propQueue := [], stopQueue := [], startLimiter := None,
     trace := [LogStarted 2, LogStarted 1, LogStarted 0],
     recs := (\<lambda>_. NewServiceRecord)
       (2 := NewServiceRecord\<lparr>dependents := [1, 2], propStart := False, desired := StateStarted,
          propRelease := False, startFailed := False, startSkipped := False, startRequestTime := Some 0,
          InStopQueue := False, waitingForDeps := False, startedEmitted := True, jobTimeoutTimer := False,
          startedTime := Some 0, state := StateStarted, runtimeMaxTimer := False, requiredBy := 3,
          InPropQueue := False, propRequire := False\<rparr>,
        1 := NewServiceRecord\<lparr>dependents := [0], dependsOn := [2], requiredBy := 1, propStart := False,
          desired := StateStarted, propRelease := False, startFailed := False, startSkipped := False,
          startRequestTime := Some 0, InPropQueue := False, propRequire := False, InStopQueue := False,
          waitingForDeps := False, startedEmitted := True, jobTimeoutTimer := False, startedTime := Some 0,
          state := StateStarted, runtimeMaxTimer := False\<rparr>,
        0 := NewServiceRecord\<lparr>dependsOn := [0, 1], requiredBy := 1, startExplicit := True,
          desired := StateStarted, propRelease := False, startFailed := False, startSkipped := False,
          startRequestTime := Some 0, InPropQueue := False, propRequire := False, InStopQueue := False,
          waitingForDeps := False, startedEmitted := True, jobTimeoutTimer := False, startedTime := Some 0,
          state := StateStarted, runtimeMaxTimer := False\<rparr>)\<rparr>"

lemma triangle_start: "handle_all (triangle @ [EvStart 0]) internals = Some triangle_started"
  by (simp add: triangle_def triangle_started_def eval cong: eval_cong del: List.fold.simps)

end
