(* ===== verification/Invariants.thy ===== *)
theory Invariants
  imports Evaluate
begin

text \<open>
  Invariants of the reachable worlds.  \<open>refs_ok\<close>: a service is required at least as often as links
  hold it and operators asked for it, so that it is never released under a dependent.  \<open>queue_ok\<close>: the
  flags \<open>InPropQueue\<close> and \<open>InStopQueue\<close> say exactly which services are queued, so that none is queued twice
  and none that is marked as queued is ever left out.  Both are interpretations of the ledger locales;
  adding and removing links, which change the graph, are treated apart.
\<close>

section \<open>The invariants\<close>

definition holders :: "world \<Rightarrow> svc \<Rightarrow> nat" where
  "holders w s = length (filter (\<lambda>d. HoldingAcq (deps w d)) (dependents (recs w s)))"

definition refs_ok :: "world \<Rightarrow> bool" where
  "refs_ok w \<longleftrightarrow> (\<forall>s. int (holders w s) + of_bool (startExplicit (recs w s)) \<le> requiredBy (recs w s))"

definition queue_ok :: "svc list \<Rightarrow> world \<Rightarrow> bool" where
  "queue_ok R w \<longleftrightarrow>
    distinct (R @ propQueue w) \<and> (\<forall>s. InPropQueue (recs w s) \<longleftrightarrow> s \<in> set (R @ propQueue w)) \<and>
    distinct (stopQueue w) \<and> (\<forall>s. InStopQueue (recs w s) \<longleftrightarrow> s \<in> set (stopQueue w))"

definition base_inv ::
  "(svc \<Rightarrow> depid list \<times> depid list) \<times> (depid \<Rightarrow> svc \<times> svc \<times> DependencyType) \<Rightarrow> svc list \<Rightarrow> world \<Rightarrow> bool" where
  "base_inv G R w \<longleftrightarrow> graph w = G \<and> wf_in w \<and> refs_ok w \<and> queue_ok R w"

definition full_inv ::
  "(svc \<Rightarrow> depid list \<times> depid list) \<times> (depid \<Rightarrow> svc \<times> svc \<times> DependencyType) \<Rightarrow> svc list \<Rightarrow> world \<Rightarrow> bool" where
  "full_inv G R w \<longleftrightarrow> base_inv G R w \<and> wf_out w"

lemma holders_eq:
  "dependents (recs w' s) = dependents (recs w s) \<Longrightarrow>
   (\<And>d. d \<in> set (dependents (recs w s)) \<Longrightarrow> HoldingAcq (deps w' d) = HoldingAcq (deps w d)) \<Longrightarrow>
   holders w' s = holders w s"
  unfolding holders_def by (metis (mono_tags, lifting) filter_cong)

lemma holders_raise:
  assumes "wf_in w"
  shows "holders (modd d (\<lambda>x. x\<lparr>HoldingAcq := True\<rparr>) w) s \<le> Suc (holders w s)"
proof -
  have dist: "distinct (dependents (recs w s))" using assms by (simp add: wf_in_def)
  let ?P = "\<lambda>e. HoldingAcq (deps (modd d (\<lambda>x. x\<lparr>HoldingAcq := True\<rparr>) w) e)"
  have le: "length (filter (\<lambda>e. ?P e \<and> e \<noteq> d) (dependents (recs w s))) \<le> holders w s"
    unfolding holders_def by (rule length_filter_le_pred) (auto simp: modd_def)
  have "length (filter ?P (dependents (recs w s))) \<le> Suc (length (filter (\<lambda>e. ?P e \<and> e \<noteq> d) (dependents (recs w s))))"
  proof (cases "d \<in> set (dependents (recs w s))")
    case True
    with length_filter_drop_one [OF dist True, of ?P] show ?thesis by (simp add: modd_def)
  next
    case False
    then have "filter ?P (dependents (recs w s)) = filter (\<lambda>e. ?P e \<and> e \<noteq> d) (dependents (recs w s))"
      by (intro filter_cong) auto
    then show ?thesis by simp
  qed
  with le show ?thesis by (simp add: holders_def modd_def)
qed

lemma holders_lower:
  assumes "wf_in w" "d \<in> set (dependents (recs w s))" "HoldingAcq (deps w d)"
  shows "holders w s = Suc (holders (modd d (\<lambda>x. x\<lparr>HoldingAcq := False\<rparr>) w) s)"
proof -
  have "distinct (dependents (recs w s))" using assms(1) by (simp add: wf_in_def)
  from length_filter_drop_one [OF this assms(2), of "\<lambda>e. HoldingAcq (deps w e)"] assms(3)
  have "holders w s = Suc (length (filter (\<lambda>e. HoldingAcq (deps w e) \<and> e \<noteq> d) (dependents (recs w s))))"
    by (simp add: holders_def)
  also have "filter (\<lambda>e. HoldingAcq (deps w e) \<and> e \<noteq> d) (dependents (recs w s)) =
      filter (\<lambda>e. HoldingAcq (deps (modd d (\<lambda>x. x\<lparr>HoldingAcq := False\<rparr>) w) e)) (dependents (recs w s))"
    by (rule filter_cong) (auto simp: modd_def)
  finally show ?thesis by (simp add: holders_def modd_def)
qed

lemma holders_modr:
  "(\<And>r. dependents (f r) = dependents r) \<Longrightarrow> holders (modr t f w) s = holders w s"
  by (simp add: holders_def modr_def)

lemma holders_elsewhere:
  assumes "wf_in w" "s \<noteq> To (deps w d)"
  shows "holders (modd d f w) s = holders w s"
proof -
  have "d \<notin> set (dependents (recs w s))" using assms by (auto simp: wf_in_def)
  then show ?thesis by (intro holders_eq) (auto simp: modd_def)
qed

lemma recs_modd [simp]: "recs (modd d f w) = recs w"
  by (simp add: modd_def)

lemma refs_prim: "prim w w' \<Longrightarrow> wf_in w \<Longrightarrow> refs_ok w \<Longrightarrow> refs_ok w'"
proof (induction rule: prim.induct)
  case (inert w' w)
  then have "rec_view (recs w' s) = rec_view (recs w s)" "dep_view (deps w' d) = dep_view (deps w d)" for s d
    by (auto simp: ledger_def dest: fun_cong)
  then have "holders w' s = holders w s" "startExplicit (recs w' s) = startExplicit (recs w s)"
      "requiredBy (recs w' s) = requiredBy (recs w s)" for s
    by (auto intro!: holders_eq simp: rec_view_def dep_view_def)
  with inert show ?case by (simp add: refs_ok_def)
next
  case (take_explicit w s)
  from spec [OF take_explicit(3) [unfolded refs_ok_def], of s] take_explicit show ?case
    by (auto simp: refs_ok_def holders_def modr_def)
next
  case (drop_explicit w s)
  from spec [OF drop_explicit(3) [unfolded refs_ok_def], of s] drop_explicit show ?case
    by (auto simp: refs_ok_def holders_def modr_def)
next
  case (take_link d w)
  let ?t = "To (deps w d)" and ?w = "modd d (\<lambda>x. x\<lparr>HoldingAcq := True\<rparr>) w"
  show ?case
    unfolding refs_ok_def
  proof
    fix s
    have "int (holders w s) + of_bool (startExplicit (recs w s)) \<le> requiredBy (recs w s)"
      using take_link by (simp add: refs_ok_def)
    then show "int (holders (modr ?t (\<lambda>r. r\<lparr>requiredBy := requiredBy r + 1\<rparr>) ?w) s)
        + of_bool (startExplicit (recs (modr ?t (\<lambda>r. r\<lparr>requiredBy := requiredBy r + 1\<rparr>) ?w) s))
        \<le> requiredBy (recs (modr ?t (\<lambda>r. r\<lparr>requiredBy := requiredBy r + 1\<rparr>) ?w) s)"
      using take_link holders_raise [of w d s] holders_elsewhere [of w s d]
      by (cases "s = ?t") (auto simp: holders_modr, auto simp: modr_def)
  qed
next
  case (drop_link d w)
  let ?t = "To (deps w d)" and ?w = "modd d (\<lambda>x. x\<lparr>HoldingAcq := False\<rparr>) w"
  show ?case
    unfolding refs_ok_def
  proof
    fix s
    have "int (holders w s) + of_bool (startExplicit (recs w s)) \<le> requiredBy (recs w s)"
      using drop_link by (simp add: refs_ok_def)
    then show "int (holders (modr ?t (\<lambda>r. r\<lparr>requiredBy := requiredBy r - 1\<rparr>) ?w) s)
        + of_bool (startExplicit (recs (modr ?t (\<lambda>r. r\<lparr>requiredBy := requiredBy r - 1\<rparr>) ?w) s))
        \<le> requiredBy (recs (modr ?t (\<lambda>r. r\<lparr>requiredBy := requiredBy r - 1\<rparr>) ?w) s)"
      using drop_link holders_lower [of w d ?t] holders_elsewhere [of w s d]
      by (cases "s = ?t") (auto simp: holders_modr, auto simp: modr_def)
  qed
qed (auto simp: refs_ok_def holders_def modr_def split: if_splits)

lemma queue_prim: "prim w w' \<Longrightarrow> queue_ok R w \<Longrightarrow> queue_ok R w'"
proof (induction rule: prim.induct)
  case (inert w' w)
  then have "rec_view (recs w' s) = rec_view (recs w s)" "propQueue w' = propQueue w" "stopQueue w' = stopQueue w" for s
    by (auto simp: ledger_def dest: fun_cong)
  with inert show ?case by (simp add: queue_ok_def rec_view_def)
qed (auto simp: queue_ok_def modr_def modd_def split: if_splits)

lemma base_prim: "base_inv G R w \<Longrightarrow> prim w w' \<Longrightarrow> base_inv G R w'"
  using prim_graph [of w w'] wf_graph(1) [of w' w] refs_prim [of w w'] queue_prim [of w w' R]
  by (simp add: base_inv_def)

interpretation base: ledger_inv "base_inv G R" G for G R
  by unfold_locales (auto simp: base_prim, simp_all add: base_inv_def)

interpretation full: ledger_console "full_inv G R" G for G R
proof unfold_locales
  fix w w' s
  show "full_inv G R w \<Longrightarrow> prim w w' \<Longrightarrow> full_inv G R w'"
    using base_prim [of G R w w'] prim_graph [of w w'] wf_graph(2) [of w' w] by (simp add: full_inv_def)
  show "full_inv G R w \<Longrightarrow> graph w = G" "full_inv G R w \<Longrightarrow> wf_in w" "full_inv G R w \<Longrightarrow> wf_out w"
    by (simp_all add: full_inv_def base_inv_def)
  show "full_inv G R w \<Longrightarrow> full_inv G R (modr s (\<lambda>r. r\<lparr>haveConsole := True\<rparr>) w)"
    by (auto simp: full_inv_def base_inv_def graph_def wf_in_def wf_out_def refs_ok_def queue_ok_def holders_def
        modr_def fun_eq_iff)
qed

interpretation loop: scheduler_inv "full_inv G" G for G
  by unfold_locales (auto simp: full_inv_def base_inv_def graph_def wf_in_def wf_out_def refs_ok_def queue_ok_def
      holders_def modr_def fun_eq_iff)

section \<open>Links that come and go\<close>

definition sound :: "world \<Rightarrow> bool" where
  "sound w \<longleftrightarrow> full_inv (graph w) [] w"

lemma sound_unfold: "sound w \<longleftrightarrow> wf_in w \<and> wf_out w \<and> refs_ok w \<and> queue_ok [] w"
  by (auto simp: sound_def full_inv_def base_inv_def)

lemma soundI: "full_inv G [] w \<Longrightarrow> sound w"
  by (auto simp: sound_def full_inv_def base_inv_def)

definition new_link :: "depid \<Rightarrow> svc \<Rightarrow> svc \<Rightarrow> DependencyType \<Rightarrow> world \<Rightarrow> world" where
  "new_link d s to ty = run [
     \<lambda>w. w\<lparr>deps := (deps w)(d := NewServiceDep s to ty)\<rparr>,
     modr s (\<lambda>r. r\<lparr>dependsOn := dependsOn r @ [d]\<rparr>),
     modr to (\<lambda>r. r\<lparr>dependents := dependents r @ [d]\<rparr>)]"

lemma new_link_view:
  "dependsOn (recs (new_link d s to ty w) t) = dependsOn (recs w t) @ (if t = s then [d] else [])"
  "dependents (recs (new_link d s to ty w) t) = dependents (recs w t) @ (if t = to then [d] else [])"
  "deps (new_link d s to ty w) = (deps w)(d := NewServiceDep s to ty)"
  "requiredBy (recs (new_link d s to ty w) t) = requiredBy (recs w t)"
  "startExplicit (recs (new_link d s to ty w) t) = startExplicit (recs w t)"
  "InPropQueue (recs (new_link d s to ty w) t) = InPropQueue (recs w t)"
  "InStopQueue (recs (new_link d s to ty w) t) = InStopQueue (recs w t)"
  "propQueue (new_link d s to ty w) = propQueue w" "stopQueue (new_link d s to ty w) = stopQueue w"
  by (auto simp: new_link_def modr_def)

lemma sound_new_link:
  assumes "sound w" "fresh_link d w"
  shows "sound (new_link d s to ty w)"
proof -
  let ?w = "new_link d s to ty w"
  have f: "d \<notin> set (dependsOn (recs w t))" "d \<notin> set (dependents (recs w t))" for t
    using assms(2) by (auto simp: fresh_link_def)
  have dist: "distinct (dependents (recs w t))" "distinct (dependsOn (recs w t))" for t
    using assms(1) by (auto simp: sound_unfold wf_in_def wf_out_def)
  have ins: "e \<in> set (dependents (recs w t)) \<Longrightarrow> To (deps w e) = t" for e t
    using assms(1) by (auto simp: sound_unfold wf_in_def)
  have outs: "e \<in> set (dependsOn (recs w t)) \<Longrightarrow> From (deps w e) = t \<and> e \<in> set (dependents (recs w (To (deps w e))))" for e t
    using assms(1) by (auto simp: sound_unfold wf_out_def)
  have i: "wf_in ?w"
    using f ins dist by (auto simp: wf_in_def new_link_view NewServiceDep_def)
  have o: "wf_out ?w"
    using f outs dist by (auto simp: wf_out_def new_link_view NewServiceDep_def)
  have "filter (\<lambda>e. HoldingAcq (deps ?w e)) (dependents (recs w t)) = filter (\<lambda>e. HoldingAcq (deps w e)) (dependents (recs w t))" for t
    using f by (intro filter_cong) (auto simp: new_link_view)
  then have "holders ?w t = holders w t" for t
    by (simp add: holders_def new_link_view(2) ) (simp add: new_link_view NewServiceDep_def)
  then have "refs_ok ?w" using assms(1) by (simp add: sound_unfold refs_ok_def new_link_view)
  moreover have "queue_ok [] ?w" using assms(1) by (simp add: sound_unfold queue_ok_def new_link_view)
  ultimately show ?thesis using i o by (simp add: sound_unfold)
qed

lemma sound_AddDep:
  assumes "sound w" "fresh_link d w"
  shows "sound (AddDep d s to ty w)"
proof -
  let ?w = "new_link d s to ty w"
  have w: "full_inv (graph ?w) [] ?w" using sound_new_link [OF assms] by (simp add: sound_def)
  have "d \<in> set (snd (fst (graph ?w) (fst (snd (snd (graph ?w) d)))))"
    by (simp add: graph_def new_link_view NewServiceDep_def)
  then have "keeps (full_inv (graph ?w) []) (when_do c (acquire_link d))" for c
    by (intro keeps_when_do full.keeps_acquire_link)
  from keepsD [OF this w] show ?thesis
    unfolding AddDep_def new_link_def by (auto intro: soundI)
qed

lemma unlink_view:
  "dependents (recs (unlink_dependent d w) t) = (if t = To (deps w d) then remove1 d (dependents (recs w t)) else dependents (recs w t))"
  "dependsOn (recs (unlink_dependent d w) t) = dependsOn (recs w t)"
  "deps (unlink_dependent d w) = deps w"
  "requiredBy (recs (unlink_dependent d w) t) = requiredBy (recs w t)"
  "startExplicit (recs (unlink_dependent d w) t) = startExplicit (recs w t)"
  "InPropQueue (recs (unlink_dependent d w) t) = InPropQueue (recs w t)"
  "InStopQueue (recs (unlink_dependent d w) t) = InStopQueue (recs w t)"
  "propQueue (unlink_dependent d w) = propQueue w" "stopQueue (unlink_dependent d w) = stopQueue w"
  by (auto simp: unlink_dependent_def modr_def remove1_as_remove_first)

text \<open>After the link left \<open>dependents\<close> and its reference was given back.\<close>

definition unlinked :: "depid \<Rightarrow> world \<Rightarrow> world" where
  "unlinked d w = when_do (\<lambda>w. HoldingAcq (deps w d)) (\<lambda>w. dec_required (To (deps w d)) w) (unlink_dependent d w)"

lemma filter_remove1_distinct:
  "distinct xs \<Longrightarrow> filter P (remove1 d xs) = filter (\<lambda>e. P e \<and> e \<noteq> d) xs"
proof (induction xs)
  case (Cons x xs)
  then have "d \<notin> set xs \<Longrightarrow> filter P xs = filter (\<lambda>e. P e \<and> e \<noteq> d) xs" by (intro filter_cong) auto
  with Cons show ?case by auto
qed simp

lemma holders_unlink:
  assumes w: "wf_in w" and d: "d \<in> set (dependents (recs w (To (deps w d))))"
  shows "holders (unlink_dependent d w) s =
    holders w s - of_bool (s = To (deps w d) \<and> HoldingAcq (deps w d))"
    and "HoldingAcq (deps w d) \<Longrightarrow> holders w (To (deps w d)) > 0"
proof -
  let ?t = "To (deps w d)"
  let ?rest = "filter (\<lambda>e. HoldingAcq (deps w e) \<and> e \<noteq> d) (dependents (recs w ?t))"
  have dist: "distinct (dependents (recs w ?t))" using w by (simp add: wf_in_def)
  note drop = length_filter_drop_one [OF dist d, of "\<lambda>e. HoldingAcq (deps w e)"]
  have "holders (unlink_dependent d w) ?t = length ?rest"
    using dist by (simp add: holders_def unlink_view filter_remove1_distinct)
  moreover have "\<not> HoldingAcq (deps w d) \<Longrightarrow> length ?rest = holders w ?t"
    unfolding holders_def by (rule arg_cong [where f = length], rule filter_cong) auto
  ultimately have "holders (unlink_dependent d w) ?t = holders w ?t - of_bool (HoldingAcq (deps w d))"
    using drop by (cases "HoldingAcq (deps w d)") (simp_all add: holders_def)
  then show "holders (unlink_dependent d w) s =
    holders w s - of_bool (s = ?t \<and> HoldingAcq (deps w d))"
    by (cases "s = ?t") (simp_all add: holders_def unlink_view)
  show "HoldingAcq (deps w d) \<Longrightarrow> holders w ?t > 0"
    using drop by (simp add: holders_def)
qed

lemma unlinked_view:
  "holders (unlinked d w) s = holders (unlink_dependent d w) s"
  "startExplicit (recs (unlinked d w) s) = startExplicit (recs w s)"
  "requiredBy (recs (unlinked d w) s) = requiredBy (recs w s) - of_bool (s = To (deps w d) \<and> HoldingAcq (deps w d))"
  "graph (unlinked d w) = graph (unlink_dependent d w)"
  "queue_ok R (unlinked d w) = queue_ok R w"
proof -
  show "graph (unlinked d w) = graph (unlink_dependent d w)"
    by (simp add: unlinked_def when_do_def dec_required_def graph_modr)
  show "holders (unlinked d w) s = holders (unlink_dependent d w) s"
    by (simp add: unlinked_def when_do_def holders_modr dec_required_def)
  have "InPropQueue (recs (unlinked d w) t) = InPropQueue (recs w t)" "InStopQueue (recs (unlinked d w) t) = InStopQueue (recs w t)"
    "propQueue (unlinked d w) = propQueue w" "stopQueue (unlinked d w) = stopQueue w" for t
    by (simp_all add: unlinked_def when_do_def dec_required_def unlink_view modr_def)
  then show "queue_ok R (unlinked d w) = queue_ok R w" by (simp add: queue_ok_def)
qed (simp_all add: unlinked_def when_do_def dec_required_def unlink_view modr_def)

lemma base_unlinked:
  assumes w: "sound w" and d: "d \<in> set (dependents (recs w (To (deps w d))))"
  shows "base_inv (graph (unlink_dependent d w)) [] (unlinked d w)"
proof -
  have i: "wf_in w" "refs_ok w" "queue_ok [] w" using w by (simp_all add: sound_unfold)
  have "int (holders (unlinked d w) s) + of_bool (startExplicit (recs (unlinked d w) s)) \<le> requiredBy (recs (unlinked d w) s)" for s
  proof -
    have "int (holders w s) + of_bool (startExplicit (recs w s)) \<le> requiredBy (recs w s)"
      using i(2) by (simp add: refs_ok_def)
    then show ?thesis
      using holders_unlink [OF i(1) d]
      by (cases "s = To (deps w d) \<and> HoldingAcq (deps w d)") (auto simp: unlinked_view of_nat_diff)
  qed
  moreover have "wf_in (unlink_dependent d w)"
    using i(1) by (simp add: wf_in_def unlink_view distinct_remove1 set_remove1_eq)
  ultimately show ?thesis
    using i(3) wf_graph(1) [OF unlinked_view(4)] by (simp add: base_inv_def refs_ok_def unlinked_view(4,5))
qed

lemma rmDep_decompose:
  "rmDep d s w = modr s (\<lambda>r. r\<lparr>dependsOn := remove1 d (dependsOn r)\<rparr>)
     (when_do (\<lambda>_. HoldingAcq (deps w d)) (release_tail (doStop False) True (To (deps w d))) (unlinked d w))"
  by (simp add: rmDep_def Release_def unlinked_def unlink_view when_do_def remove1_as_remove_first dec_required_def)

lemma sound_rmDep:
  assumes w: "sound w" and d: "d \<in> set (dependsOn (recs w s))"
  shows "sound (rmDep d s w)"
proof -
  let ?G = "graph (unlink_dependent d w)"
  define w2 where "w2 = when_do (\<lambda>_. HoldingAcq (deps w d)) (release_tail (doStop False) True (To (deps w d))) (unlinked d w)"
  have fd: "From (deps w d) = s" "d \<in> set (dependents (recs w (To (deps w d))))"
    using w d by (auto simp: sound_unfold wf_out_def)
  have "keeps (base_inv ?G []) (when_do (\<lambda>_. HoldingAcq (deps w d)) (release_tail (doStop False) True (To (deps w d))))"
    by (intro keeps_when_do base.keeps_release_tail base.keeps_doStop)
  from keepsD [OF this base_unlinked [OF w fd(2)]] have w2: "base_inv ?G [] w2" by (simp add: w2_def)
  then have g: "dependsOn (recs w2 t) = dependsOn (recs w t)"
    "dependents (recs w2 t) = (if t = To (deps w d) then remove1 d (dependents (recs w t)) else dependents (recs w t))"
    "From (deps w2 e) = From (deps w e)" "To (deps w2 e) = To (deps w e)" for t e
    by (simp_all add: base_inv_def graph_def unlink_view fun_eq_iff)
  let ?w3 = "modr s (\<lambda>r. r\<lparr>dependsOn := remove1 d (dependsOn r)\<rparr>) w2"
  have dist: "distinct (dependsOn (recs w t))" for t using w by (auto simp: sound_unfold wf_out_def)
  have outs: "e \<in> set (dependsOn (recs w t)) \<Longrightarrow> From (deps w e) = t \<and> e \<in> set (dependents (recs w (To (deps w e))))" for e t
    using w by (auto simp: sound_unfold wf_out_def)
  have m: "e \<noteq> d \<Longrightarrow> e \<in> set (dependents (recs w x)) \<Longrightarrow> e \<in> set (dependents (recs ?w3 x))" for e x
    by (auto simp: modr_def g)
  have "wf_out ?w3"
    unfolding wf_out_def
  proof
    fix t
    have e: "e \<in> set (dependsOn (recs ?w3 t)) \<Longrightarrow> e \<in> set (dependsOn (recs w t)) \<and> e \<noteq> d" for e
      using dist [of t] fd(1) outs [of e t] by (auto simp: modr_def g split: if_splits)
    show "distinct (dependsOn (recs ?w3 t)) \<and> (\<forall>e\<in>set (dependsOn (recs ?w3 t)).
        From (deps ?w3 e) = t \<and> e \<in> set (dependents (recs ?w3 (To (deps ?w3 e)))))"
      using dist [of t] e outs [of _ t] m by (auto simp: modr_def g distinct_remove1)
  qed
  moreover have "wf_in ?w3" "refs_ok ?w3" "queue_ok [] ?w3"
    using w2 by (auto simp: base_inv_def wf_in_def refs_ok_def queue_ok_def holders_def modr_def)
  ultimately show ?thesis by (simp add: rmDep_decompose w2_def [symmetric] sound_unfold)
qed

lemma sound_RmDep: "sound w \<Longrightarrow> sound (snd (RmDep s to ty w))"
  by (auto simp: RmDep_def sound_rmDep find_Some_iff split: option.splits)

section \<open>Reachable worlds\<close>

lemma sound_okeeps:
  assumes "\<And>G. okeeps (full_inv G []) f" "sound w" "f w = Some w'"
  shows "sound w'"
  using okeepsD [OF assms(1) _ assms(3), of "graph w"] assms(2) by (auto simp: sound_def [of w] intro: soundI)

lemma sound_step: "step w ev w' \<Longrightarrow> sound w \<Longrightarrow> sound w'"
proof (erule stepE)
  assume w: "sound w" and ev: "allowed ev w" "handle ev w = Some w'"
  show "sound w'"
  proof (cases "(\<exists>d s to ty. ev = EvAddDep d s to ty) \<or> (\<exists>s to ty. ev = EvRmDep s to ty)")
    case True
    then show ?thesis
      using w ev by (auto simp: allowed_def sound_AddDep intro: sound_okeeps [OF loop.okeeps_queues] sound_RmDep)
  next
    case False
    then have "okeeps (full_inv G []) (handle ev)" for G by (intro loop.okeeps_handle) auto
    from sound_okeeps [OF this w ev(2)] show ?thesis .
  qed
qed

lemma sound_initial: "initial w \<Longrightarrow> sound w"
  by (auto simp: initial_def sound_unfold wf_in_def wf_out_def refs_ok_def queue_ok_def holders_def)

lemma reachable_sound: "reachable w \<Longrightarrow> sound w"
  by (induction rule: reachable.induct) (auto intro: sound_initial sound_step)

lemma reachable_settled:
  assumes "sound w" "processQueues w = Some w'"
  shows "queues_idle w'" "\<not> InPropQueue (recs w' s)" "\<not> InStopQueue (recs w' s)"
proof -
  show idle: "queues_idle w'"
  proof (rule processQueues.raw_induct [where P = "\<lambda>_ w'. queues_idle w'", OF _ assms(2)])
    fix pq w w'
    assume "\<And>w w'. pq w = Some w' \<Longrightarrow> queues_idle w'"
      and "(if queues_idle w then Some w else pq (transition_one (drain_props w))) = Some w'"
    then show "queues_idle w'" by (auto split: if_splits)
  qed
  have "sound w'" using sound_okeeps [OF loop.okeeps_queues assms] .
  with idle show "\<not> InPropQueue (recs w' s)" "\<not> InStopQueue (recs w' s)"
    by (auto simp: sound_unfold queue_ok_def queues_idle_def)
qed

section \<open>Nobody gets the console\<close>

definition no_console :: "world \<Rightarrow> bool" where
  "no_console w \<longleftrightarrow> (\<forall>s. \<not> haveConsole (recs w s))"

definition dark_base ::
  "(svc \<Rightarrow> depid list \<times> depid list) \<times> (depid \<Rightarrow> svc \<times> svc \<times> DependencyType) \<Rightarrow> svc list \<Rightarrow> world \<Rightarrow> bool" where
  "dark_base G R w \<longleftrightarrow> graph w = G \<and> wf_in w \<and> no_console w"

definition dark_inv ::
  "(svc \<Rightarrow> depid list \<times> depid list) \<times> (depid \<Rightarrow> svc \<times> svc \<times> DependencyType) \<Rightarrow> svc list \<Rightarrow> world \<Rightarrow> bool" where
  "dark_inv G R w \<longleftrightarrow> graph w = G \<and> wf_in w \<and> wf_out w \<and> no_console w"

lemma no_console_prim: "prim w w' \<Longrightarrow> no_console w \<Longrightarrow> no_console w'"
proof (induction rule: prim.induct)
  case (inert w' w)
  then have "rec_view (recs w' s) = rec_view (recs w s)" for s
    by (auto simp: ledger_def dest: fun_cong)
  with inert show ?case by (simp add: no_console_def rec_view_def)
qed (auto simp: no_console_def modr_def modd_def)

interpretation darkb: ledger_inv "dark_base G R" G for G R
proof
  fix w w'
  show "dark_base G R w \<Longrightarrow> prim w w' \<Longrightarrow> dark_base G R w'"
    using no_console_prim [of w w'] prim_graph [of w w'] wf_graph(1) [of w' w] by (simp add: dark_base_def)
qed (simp_all add: dark_base_def)

lemma dark_operations: "ledger_pull (dark_inv G R) G PullConsoleQueue"
proof unfold_locales
  fix w w' s
  show "dark_inv G R w \<Longrightarrow> prim w w' \<Longrightarrow> dark_inv G R w'"
    using no_console_prim [of w w'] prim_graph [of w w'] wf_graph [of w' w] by (simp add: dark_inv_def)
  show "dark_inv G R w \<Longrightarrow> haveConsole (recs w s) \<Longrightarrow> dark_inv G R (releaseConsole PullConsoleQueue s w)"
    by (simp add: dark_inv_def no_console_def)
qed (simp_all add: dark_inv_def)

lemma dark_other:
  "dark_inv G R w \<Longrightarrow> dark_inv G R' (w\<lparr>propQueue := q\<rparr>)" "dark_inv G R w \<Longrightarrow> dark_inv G R' (w\<lparr>stopQueue := q\<rparr>)"
  "dark_inv G R w \<Longrightarrow> dark_inv G R' (modr s (\<lambda>r. r\<lparr>InPropQueue := b\<rparr>) w)"
  "dark_inv G R w \<Longrightarrow> dark_inv G R' (modr s (\<lambda>r. r\<lparr>InStopQueue := b\<rparr>) w)"
  by (simp_all add: dark_inv_def graph_other graph_modr wf_graph [of "modr s f w" w for f]
      wf_graph [OF graph_other(1)] wf_graph [OF graph_other(2)]) (simp_all add: no_console_def modr_def)

interpretation dark: scheduler_inv "dark_inv G" G for G
  by (rule scheduler_inv.intro) (assumption | rule dark_operations dark_other)+

definition dark :: "world \<Rightarrow> bool" where
  "dark w \<longleftrightarrow> sound w \<and> no_console w"

lemma dark_by_okeeps:
  assumes "\<And>G. okeeps (dark_inv G []) f" "dark w" "f w = Some w'"
  shows "no_console w'"
  using okeepsD [OF assms(1) _ assms(3), of "graph w"] assms(2) by (auto simp: dark_def dark_inv_def sound_unfold)

lemma no_console_new_link: "no_console w \<Longrightarrow> no_console (new_link d s to ty w)"
  by (simp add: no_console_def new_link_def modr_def)

lemma no_console_AddDep:
  assumes "dark w" "fresh_link d w"
  shows "no_console (AddDep d s to ty w)"
proof -
  let ?w = "new_link d s to ty w"
  have "d \<in> set (snd (fst (graph ?w) (fst (snd (snd (graph ?w) d)))))"
    by (simp add: graph_def new_link_view NewServiceDep_def)
  then have "keeps (dark_base (graph ?w) []) (when_do c (acquire_link d))" for c
    by (intro keeps_when_do darkb.keeps_acquire_link)
  moreover have "dark_base (graph ?w) [] ?w"
    using assms sound_new_link [of w d s to ty] no_console_new_link
    by (simp add: dark_base_def dark_def sound_unfold)
  ultimately have "dark_base (graph ?w) [] (when_do c (acquire_link d) ?w)" for c
    by (rule keepsD)
  then show ?thesis unfolding AddDep_def new_link_def by (simp add: dark_base_def)
qed

lemma no_console_RmDep:
  assumes "dark w"
  shows "no_console (snd (RmDep s to ty w))"
proof -
  have "no_console (rmDep d s w)" if d: "d \<in> set (dependsOn (recs w s))" for d
  proof -
    let ?G = "graph (unlink_dependent d w)"
    have w: "sound w" "d \<in> set (dependents (recs w (To (deps w d))))"
      using assms d by (auto simp: dark_def sound_unfold wf_out_def)
    have "no_console (unlinked d w)"
      using assms by (simp add: dark_def no_console_def unlinked_def when_do_def dec_required_def unlink_dependent_def modr_def)
    then have b: "dark_base ?G [] (unlinked d w)"
      using base_unlinked [OF w] by (simp add: dark_base_def base_inv_def)
    have "keeps (dark_base ?G []) (when_do (\<lambda>_. HoldingAcq (deps w d)) (release_tail (doStop False) True (To (deps w d))))"
      by (intro keeps_when_do darkb.keeps_release_tail darkb.keeps_doStop)
    from keepsD [OF this b] show ?thesis
      by (simp add: rmDep_decompose dark_base_def no_console_def modr_def)
  qed
  then show ?thesis
    using assms by (auto simp: RmDep_def dark_def find_Some_iff split: option.splits)
qed

lemma dark_step: "step w ev w' \<Longrightarrow> dark w \<Longrightarrow> dark w'"
proof (erule stepE)
  assume w: "dark w" and ev: "allowed ev w" "handle ev w = Some w'"
  then have s: "sound w'" using sound_step [of w ev w'] step.intros by (simp add: dark_def)
  have "no_console w'"
  proof (cases "(\<exists>d s to ty. ev = EvAddDep d s to ty) \<or> (\<exists>s to ty. ev = EvRmDep s to ty)")
    case True
    then show ?thesis
    proof (elim disjE exE)
      fix d s to ty assume "ev = EvAddDep d s to ty"
      with w ev show ?thesis by (auto simp: allowed_def no_console_AddDep)
    next
      fix s to ty assume e: "ev = EvRmDep s to ty"
      have "dark (snd (RmDep s to ty w))"
        using w no_console_RmDep sound_RmDep by (simp add: dark_def)
      with dark_by_okeeps [OF dark.okeeps_queues] ev e show ?thesis by simp
    qed
  next
    case False
    then have "okeeps (dark_inv G []) (handle ev)" for G by (intro dark.okeeps_handle) auto
    from dark_by_okeeps [OF this w ev(2)] show ?thesis .
  qed
  with s show "dark w'" by (simp add: dark_def)
qed

lemma reachable_dark: "reachable w \<Longrightarrow> dark w"
proof (induction rule: reachable.induct)
  case (init w)
  then show ?case by (simp add: dark_def sound_initial) (simp add: initial_def no_console_def)
qed (rule dark_step)

section \<open>New links\<close>

text \<open>All links with an identifier from \<open>n\<close> on are unused.\<close>

definition links_below :: "depid \<Rightarrow> world \<Rightarrow> bool" where
  "links_below n w \<longleftrightarrow> (\<forall>d\<ge>n. fresh_link d w)"

lemma links_graph: "graph w' = graph w \<Longrightarrow> links_below n w' = links_below n w"
  by (auto simp: links_below_def fresh_link_def graph_def fun_eq_iff)

lemma links_rmDep:
  assumes w: "sound w" and d: "d \<in> set (dependsOn (recs w s))" and l: "links_below n w"
  shows "links_below n (rmDep d s w)"
proof -
  let ?G = "graph (unlink_dependent d w)"
  define w2 where "w2 = when_do (\<lambda>_. HoldingAcq (deps w d)) (release_tail (doStop False) True (To (deps w d))) (unlinked d w)"
  have fd: "d \<in> set (dependents (recs w (To (deps w d))))"
    using w d by (auto simp: sound_unfold wf_out_def)
  have "keeps (base_inv ?G []) (when_do (\<lambda>_. HoldingAcq (deps w d)) (release_tail (doStop False) True (To (deps w d))))"
    by (intro keeps_when_do base.keeps_release_tail base.keeps_doStop)
  from keepsD [OF this base_unlinked [OF w fd]] have "graph w2 = ?G" by (simp add: w2_def base_inv_def)
  then have "links_below n w2"
    using l links_graph [of w2 "unlink_dependent d w" n]
    by (auto simp: links_below_def fresh_link_def unlink_view dest: notin_set_remove1 split: if_splits)
  then show ?thesis
    by (auto simp: rmDep_decompose w2_def [symmetric] links_below_def fresh_link_def modr_def dest: notin_set_remove1 split: if_splits)
qed

lemma links_AddDep:
  assumes "sound w" "links_below n w"
  shows "links_below (Suc n) (AddDep n s to ty w)"
proof -
  let ?w = "new_link n s to ty w"
  have f: "fresh_link n w" using assms(2) by (simp add: links_below_def)
  have w: "full_inv (graph ?w) [] ?w" using sound_new_link [OF assms(1) f] by (simp add: sound_def)
  have "n \<in> set (snd (fst (graph ?w) (fst (snd (snd (graph ?w) n)))))"
    by (simp add: graph_def new_link_view NewServiceDep_def)
  then have "keeps (full_inv (graph ?w) []) (when_do c (acquire_link n))" for c
    by (intro keeps_when_do full.keeps_acquire_link)
  from keepsD [OF this w] have "graph (AddDep n s to ty w) = graph ?w"
    unfolding AddDep_def new_link_def by (simp add: full_inv_def base_inv_def)
  moreover have "links_below (Suc n) ?w"
    using assms(2) by (auto simp: links_below_def fresh_link_def new_link_view)
  ultimately show ?thesis using links_graph by metis
qed

end
