(* ===== verification/Guarantees.thy ===== *)
theory Guarantees
  imports Invariants
begin

text \<open>
  What the service state machine guarantees on every reachable world, and two of its defects shown on
  concrete runs: the console is never handed to anybody, and a soft dependency can be acquired twice and
  released once.
\<close>

section \<open>Reference counts and queues\<close>

text \<open>
  Property C1.  In every reachable world each service is required at least as often as links hold it
  and operators asked for it explicitly: whatever cascade of starts, failures, restarts and stops ran,
  no reference of a dependent was given back twice.
\<close>

theorem reachable_references:
  assumes "reachable w"
  shows "int (length (filter (\<lambda>d. HoldingAcq (deps w d)) (dependents (recs w s))))
    + of_bool (startExplicit (recs w s)) \<le> requiredBy (recs w s)"
  using reachable_sound [OF assms] by (simp add: sound_unfold refs_ok_def holders_def)

theorem reachable_references_witness:
  "\<exists>w. StartService 0 pair_linked = Some w \<and> reachable w \<and> requiredBy (recs w 1) = 1 \<and>
     length (filter (\<lambda>d. HoldingAcq (deps w d)) (dependents (recs w 1))) = 1 \<and> \<not> startExplicit (recs w 1)"
proof -
  obtain w where w: "StartService 0 pair_linked = Some w" "reachable w" "requiredBy (recs w 1) = 1"
    "HoldingAcq (deps w 0)" "dependents (recs w 1) = [0]"
    using pair_start by blast
  from reachable_references [OF w(2), of 1] w show ?thesis
    by (intro exI [of _ w]) (auto split: if_splits)
qed

text \<open>
  Property C2.  In every reachable world the two queues hold each service at most once and the flags
  on the records say exactly which services are queued, so that a service marked as queued is never
  left out.
\<close>

theorem reachable_queue_flags:
  assumes "reachable w"
  shows "distinct (propQueue w) \<and> distinct (stopQueue w) \<and>
    (\<forall>s. InPropQueue (recs w s) \<longleftrightarrow> s \<in> set (propQueue w)) \<and>
    (\<forall>s. InStopQueue (recs w s) \<longleftrightarrow> s \<in> set (stopQueue w))"
  using reachable_sound [OF assms] by (simp add: sound_unfold queue_ok_def)

theorem reachable_queue_flags_witness:
  "\<exists>w. StartService 0 internals = Some w \<and> reachable (AddDep 0 0 1 DepRegular w) \<and>
     propQueue (AddDep 0 0 1 DepRegular w) = [1] \<and> InPropQueue (recs (AddDep 0 0 1 DepRegular w) 1) \<and>
     \<not> InPropQueue (recs (AddDep 0 0 1 DepRegular w) 0)"
proof -
  obtain w where w: "StartService 0 internals = Some w" "reachable (AddDep 0 0 1 DepRegular w)"
    "propQueue (AddDep 0 0 1 DepRegular w) = [1]"
    using late_link by blast
  from reachable_queue_flags [OF w(2)] w show ?thesis by auto
qed



section \<open>Two defects\<close>

text \<open>
  The console is handed from the service that has it to the first that waits for it, and
  it starts with nobody: in every reachable world no service has the console.  A service that starts on
  the console is therefore put on the waiting queue each time its dependencies are started, and it is
  never brought up from there.
\<close>

lemma console_never_granted:
  assumes "reachable w"
  shows "\<not> haveConsole (recs w s) \<and>
    (StartsOnConsole (svcFlags (cfgs w s)) \<longrightarrow>
      allDepsStarted PullConsoleQueue s w = (modr s (\<lambda>r. r\<lparr>waitingForConsole := True\<rparr>) w)\<lparr>consoleQueue := consoleQueue w @ [s]\<rparr>)"
  using reachable_dark [OF assms]
  by (auto simp: dark_def no_console_def allDepsStarted_def queueForConsole_def AppendConsoleQueue_def modr_def)

lemma console_never_granted_witness:
  "let w = NewServiceSet (\<lambda>_. internal_cfg\<lparr>svcFlags := no_flags\<lparr>StartsOnConsole := True\<rparr>\<rparr>) (\<lambda>_. NewProcessService)
     (\<lambda>_. willing 100) (\<lambda>_. None)
   in reachable w \<and> StartsOnConsole (svcFlags (cfgs w 0)) \<and> consoleQueue (allDepsStarted PullConsoleQueue 0 w) = [0] \<and>
      state (recs (allDepsStarted PullConsoleQueue 0 w) 0) = StateStopped"
proof -
  let ?w = "NewServiceSet (\<lambda>_. internal_cfg\<lparr>svcFlags := no_flags\<lparr>StartsOnConsole := True\<rparr>\<rparr>) (\<lambda>_. NewProcessService)
     (\<lambda>_. willing 100) (\<lambda>_. None)"
  have r: "reachable ?w" by (intro reachable.init NewServiceSet_initial)
  have f: "StartsOnConsole (svcFlags (cfgs ?w 0))" by (simp add: NewServiceSet_def)
  from console_never_granted [OF r, of 0] r f show ?thesis
    by (simp add: Let_def) (simp add: NewServiceSet_def NewServiceRecord_def modr_def)
qed

text \<open>
  References can be lost in the other direction.  Service 0 requires 1 and 2, and 1 waits
  for 2.  When 0 is started, 2 attaches to 1, which is already starting, and then 1 acquires 2 again as
  part of its own start: 2 is required three times by two links.  After 0 is stopped, nothing holds 2
  and nobody asked for it, and it is still required once and still started.
\<close>

lemma soft_dependency_acquired_twice:
  "handle_all (triangle @ [EvStart 0]) internals = Some triangle_started \<and>
   requiredBy (recs triangle_started 2) = 3 \<and> dependents (recs triangle_started 2) = [1, 2] \<and>
   (\<exists>w. StopService 0 triangle_started = Some w \<and>
     state (recs w 0) = StateStopped \<and> state (recs w 1) = StateStopped \<and>
     state (recs w 2) = StateStarted \<and> requiredBy (recs w 2) = 1 \<and> \<not> startExplicit (recs w 2) \<and>
     dependents (recs w 2) = [1, 2] \<and> \<not> HoldingAcq (deps w 1) \<and> \<not> HoldingAcq (deps w 2))"
proof -
  have "case StopService 0 triangle_started of None \<Rightarrow> False | Some w \<Rightarrow>
     state (recs w 0) = StateStopped \<and> state (recs w 1) = StateStopped \<and>
     state (recs w 2) = StateStarted \<and> requiredBy (recs w 2) = 1 \<and> \<not> startExplicit (recs w 2) \<and>
     dependents (recs w 2) = [1, 2] \<and> \<not> HoldingAcq (deps w 1) \<and> \<not> HoldingAcq (deps w 2)"
    by (simp add: triangle_started_def eval cong: eval_cong del: List.fold.simps)
  then have "\<exists>w. StopService 0 triangle_started = Some w \<and>
     state (recs w 0) = StateStopped \<and> state (recs w 1) = StateStopped \<and>
     state (recs w 2) = StateStarted \<and> requiredBy (recs w 2) = 1 \<and> \<not> startExplicit (recs w 2) \<and>
     dependents (recs w 2) = [1, 2] \<and> \<not> HoldingAcq (deps w 1) \<and> \<not> HoldingAcq (deps w 2)"
    by (simp split: option.splits)
  then show ?thesis using triangle_start by (simp add: triangle_started_def [THEN arg_cong [where f = recs]])
qed

text \<open>
  A regular dependency added to a started service acquires and queues the dependency and
  returns: the service is started, its hard dependency is stopped and waits in the queue for the next
  request.
\<close>

lemma added_dependency_not_started:
  "\<exists>w. StartService 0 internals = Some w \<and> reachable (AddDep 0 0 1 DepRegular w) \<and>
     state (recs (AddDep 0 0 1 DepRegular w) 0) = StateStarted \<and>
     state (recs (AddDep 0 0 1 DepRegular w) 1) = StateStopped \<and>
     requiredBy (recs (AddDep 0 0 1 DepRegular w) 1) = 1 \<and> propQueue (AddDep 0 0 1 DepRegular w) = [1]"
  using late_link by blast

end
