(* ===== verification/Termination.thy ===== *)
theory Termination
  imports Evaluate
begin

text \<open>
  The stop cascade ends.  \<open>doStop\<close> calls itself only when it takes away the explicit activation of a
  dependent, so the depth of the recursion is bounded by the number of explicitly activated services:
  with \<open>stop_fuel\<close> the model never runs out of fuel, and more fuel gives the same result.
\<close>

section \<open>Explicit activations\<close>

definition explicit_set :: "world \<Rightarrow> svc set" where
  "explicit_set w = {s. startExplicit (recs w s)}"

definition fuelled :: "nat \<Rightarrow> world \<Rightarrow> bool" where
  "fuelled k w \<longleftrightarrow> finite (explicit_set w) \<and> card (explicit_set w) \<le> k \<and> \<not> outOfFuel w"

lemma fuelled_mono: "fuelled k w \<Longrightarrow> k \<le> k' \<Longrightarrow> fuelled k' w"
  by (simp add: fuelled_def)

lemma fuelled_same:
  "(\<And>s. startExplicit (recs w' s) = startExplicit (recs w s)) \<Longrightarrow> outOfFuel w' = outOfFuel w \<Longrightarrow>
   fuelled k w' = fuelled k w"
  by (simp add: fuelled_def explicit_set_def)

lemma fuelled_atoms:
  "(\<And>r. startExplicit (f r) = startExplicit r) \<Longrightarrow> keeps (fuelled k) (modr s f)"
  "keeps (fuelled k) (modd d g)" "keeps (fuelled k) (modp s h)" "keeps (fuelled k) (emit es)"
  "keeps (fuelled k) (notifyListeners s e)" "keeps (fuelled k) (UnqueueConsole s)"
  by (rule keepsI, subst fuelled_same [where w' = "_ w" for w]; simp add: modr_def modd_def modp_def emit_def
      notifyListeners_def UnqueueConsole_def)+

lemma fuelled_queues: "keeps (fuelled k) (AddPropQueue s)" "keeps (fuelled k) (AddTransitionQueue s)"
proof -
  have "keeps (fuelled k) (\<lambda>w. w\<lparr>propQueue := q w\<rparr>)" "keeps (fuelled k) (\<lambda>w. w\<lparr>stopQueue := q w\<rparr>)" for q
    by (rule keepsI, simp add: fuelled_def explicit_set_def)+
  then show "keeps (fuelled k) (AddPropQueue s)" "keeps (fuelled k) (AddTransitionQueue s)"
    unfolding AddPropQueue_def AddTransitionQueue_def by (intro keeps_intros fuelled_atoms; simp)+
qed

text \<open>Taking an explicit activation away makes room for one more call.\<close>

lemma fuelled_drop:
  assumes "fuelled (Suc k) w" "startExplicit (recs w s)"
  shows "fuelled k (modr s (\<lambda>r. r\<lparr>startExplicit := False\<rparr>) w)"
proof -
  have e: "explicit_set (modr s (\<lambda>r. r\<lparr>startExplicit := False\<rparr>) w) = explicit_set w - {s}"
    by (auto simp: explicit_set_def modr_def)
  have "s \<in> explicit_set w" "finite (explicit_set w)" using assms by (simp_all add: explicit_set_def fuelled_def)
  then have "card (explicit_set w) = Suc (card (explicit_set w - {s}))" by (rule card.remove [rotated])
  then show ?thesis using assms e by (simp add: fuelled_def modr_def)
qed

lemma fuelled_positive: "fuelled k w \<Longrightarrow> startExplicit (recs w s) \<Longrightarrow> \<exists>j. k = Suc j"
  by (cases k) (auto simp: fuelled_def explicit_set_def)

section \<open>The operations of the cascade\<close>

text \<open>A release that may not stop its service does not use its argument.\<close>

lemma quiet_release: "Release stop False s = Release stop' False s"
  by (simp add: Release_def release_tail_def when_do_def fun_eq_iff)

lemma quiet_drop: "drop_link stop False d s = drop_link stop' False d s"
  "drop_explicit stop False s = drop_explicit stop' False s"
  unfolding drop_link_def drop_explicit_def by (simp_all add: quiet_release [of stop s stop'])

lemma fuelled_release_tail:
  assumes "\<forall>s. keeps (fuelled k) (stop s)"
  shows "keeps (fuelled k) (release_tail stop b s)"
  unfolding release_tail_def using assms by (intro keeps_intros fuelled_queues fuelled_atoms; simp)

lemma fuelled_Release:
  "(b \<Longrightarrow> \<forall>s. keeps (fuelled k) (stop s)) \<Longrightarrow> keeps (fuelled k) (Release stop b s)"
proof -
  have r: "keeps (fuelled k) (Release stop b s)" if "\<forall>s. keeps (fuelled k) (stop s)" for stop b
    unfolding Release_def dec_required_def using that by (intro keeps_run fuelled_release_tail fuelled_atoms; simp)
  assume "b \<Longrightarrow> \<forall>s. keeps (fuelled k) (stop s)"
  with r [of stop b] r [of "\<lambda>_ w. w" False] quiet_release [of stop s "\<lambda>_ w. w"] show ?thesis
    by (cases b) (simp_all add: keeps_id)
qed

lemma fuelled_drop_explicit:
  assumes "\<And>j. b \<Longrightarrow> k = Suc j \<Longrightarrow> \<forall>s. keeps (fuelled j) (stop s)"
  shows "keeps (fuelled k) (drop_explicit stop b s)"
  unfolding drop_explicit_def
proof (rule keeps_when_guard)
  fix w assume w: "fuelled k w" "startExplicit (recs w s)"
  then obtain j where k: "k = Suc j" using fuelled_positive by blast
  have "fuelled j (Release stop b s (modr s (\<lambda>r. r\<lparr>startExplicit := False\<rparr>) w))"
    using keepsD [OF fuelled_Release [of b j stop s]] assms k fuelled_drop [of j w s] w by blast
  then show "fuelled k (run [modr s (\<lambda>r. r\<lparr>startExplicit := False\<rparr>), Release stop b s] w)"
    using k by (simp add: fuelled_mono [of j])
qed

lemma fuelled_drop_link: "keeps (fuelled k) (drop_link stop False d s)"
  unfolding drop_link_def by (intro keeps_intros fuelled_Release fuelled_atoms) simp

lemma fuelled_ForcedStop: "keeps (fuelled k) (ForcedStop s)" "keeps (fuelled k) (UnrecoverableStop s)"
  unfolding ForcedStop_def UnrecoverableStop_def
  by (intro keeps_intros fuelled_queues fuelled_atoms; simp)+

lemma fuelled_waiting: "keeps (fuelled k) (dependencyStarted s)" "keeps (fuelled k) (stop_waiting d s)"
  unfolding dependencyStarted_def stop_waiting_def
  by (intro keeps_intros fuelled_queues fuelled_atoms; simp)+

lemma fuelled_hard:
  assumes "\<And>j. k = Suc j \<Longrightarrow> \<forall>s. keeps (fuelled j) (stop s)"
  shows "keeps (fuelled k) (stop_hard_dependent stop b s t)"
  unfolding stop_hard_dependent_def
  by (intro keeps_intros fuelled_ForcedStop fuelled_queues fuelled_drop_explicit assms fuelled_atoms; simp)

lemma fuelled_dependent:
  assumes "\<And>j. k = Suc j \<Longrightarrow> \<forall>s. keeps (fuelled j) (stop s)"
  shows "keeps (fuelled k) (stop_dependent stop b c s d)"
proof (rule keepsI)
  fix w assume w: "fuelled k w"
  have soft: "keeps (fuelled k) (when_do (\<lambda>w. \<not> b) (run [stop_waiting d t, drop_link stop False d s]))" for t
    by (intro keeps_intros fuelled_waiting fuelled_drop_link)
  show "fuelled k (stop_dependent stop b c s d w)"
    unfolding stop_dependent_def Let_def
    using w by (auto intro: keepsD [OF soft] keepsD [OF fuelled_hard [OF assms]] simp del: run.simps)
qed

text \<open>One step of the loop over the dependents; the world does not depend on the flag that it carries.\<close>

definition dependents_step ::
  "(svc \<Rightarrow> world \<Rightarrow> world) \<Rightarrow> bool \<Rightarrow> bool \<Rightarrow> svc \<Rightarrow> depid \<Rightarrow> bool \<times> world \<Rightarrow> bool \<times> world" where
  "dependents_step stop forRestart restartDeps s d = (\<lambda>(allStopped, w).
     (allStopped \<and> \<not> (IsHard (deps w d) \<and> \<not> IsFundamentallyStopped (recs w (From (deps w d)))),
      stop_dependent stop forRestart restartDeps s d w))"

lemma stopDependents_loop:
  "stopDependents stop b c s w = fold (dependents_step stop b c s) (dependents (recs w s)) (True, w)"
  unfolding stopDependents_def dependents_step_def [abs_def] ..

lemma fuelled_loop:
  assumes "\<And>j. k = Suc j \<Longrightarrow> \<forall>s. keeps (fuelled j) (stop s)" "fuelled k w"
  shows "fuelled k (snd (fold (dependents_step stop b c s) ds (f, w)))"
  using assms(2)
proof (induction ds arbitrary: f w)
  case (Cons d ds)
  then show ?case
    using keepsD [OF fuelled_dependent [OF assms(1)]] by (simp add: dependents_step_def)
qed simp

lemma loop_cong:
  assumes agree: "\<And>j s w. k = Suc j \<Longrightarrow> fuelled j w \<Longrightarrow> stop s w = stop' s w"
    and keep: "\<And>j. k = Suc j \<Longrightarrow> \<forall>s. keeps (fuelled j) (stop s)" and w: "fuelled k w"
    and one: "\<And>d w. fuelled k w \<Longrightarrow> stop_dependent stop b c s d w = stop_dependent stop' b c s d w"
  shows "fold (dependents_step stop b c s) ds (f, w) = fold (dependents_step stop' b c s) ds (f, w)"
  using w
proof (induction ds arbitrary: f w)
  case (Cons d ds)
  have "fuelled k (stop_dependent stop b c s d w)" by (rule keepsD [OF fuelled_dependent [OF keep] Cons.prems])
  with Cons.IH one [OF Cons.prems, of d] show ?case by (simp add: dependents_step_def)
qed simp

section \<open>doStop\<close>

lemma fuelled_pairs:
  assumes "fuelled k w"
  shows "fuelled k (snd (auto_restart s w))" "fuelled k (snd (InterruptStart s w))"
proof -
  have "fuelled k (snd (CheckRestart s w))"
    using assms by (auto simp: CheckRestart_def process_CheckRestart_def Let_def intro: keepsD [OF fuelled_atoms(3)])
  moreover have "keeps (fuelled k) (run [modr s (\<lambda>r. r\<lparr>inAutoRestart := ok\<rparr>), modr s (\<lambda>r. r\<lparr>restartLimitExhausted := \<not> ok\<rparr>)])"
    "keeps (fuelled k) (modr s (\<lambda>r. r\<lparr>restartLimitExhausted := False\<rparr>))" for ok
    by (intro keeps_intros fuelled_atoms; simp)+
  ultimately show "fuelled k (snd (auto_restart s w))"
    using assms by (auto simp: auto_restart_def Let_def case_prod_beta simp del: run.simps dest: keepsD)
  show "fuelled k (snd (InterruptStart s w))"
    using assms by (auto simp: InterruptStart_def split: service_impl.splits intro: keepsD [OF fuelled_atoms(4)])
qed

lemma fuelled_stop_finish:
  assumes "fuelled k w"
  shows "fuelled k (stop_finish b s w)"
proof -
  have e: "keeps (fuelled k) (enter_stopping b s)"
    unfolding enter_stopping_def by (intro keeps_intros fuelled_queues fuelled_atoms; simp)
  have a: "keeps (fuelled k) (run [notifyListeners s EventStartCancelled, enter_stopping b s])"
    by (intro keeps_intros fuelled_atoms e)
  have c: "keeps (fuelled k) (run [when_do (\<lambda>w. waitingForConsole (recs w s))
             (run [UnqueueConsole s, modr s (\<lambda>r. r\<lparr>waitingForConsole := False\<rparr>)]),
           notifyListeners s EventStartCancelled, enter_stopping b s])"
    by (intro keeps_intros fuelled_atoms e; simp)
  show ?thesis
    using assms fuelled_pairs(2) [OF assms, of s]
    by (cases "state (recs w s)")
      (auto simp: stop_finish_def Let_def case_prod_beta simp del: run.simps
        intro: keepsD [OF a] keepsD [OF c] keepsD [OF e] keepsD [OF fuelled_atoms(5)])
qed

text \<open>The parts of \<open>do_stop\<close> around the loop over the dependents.\<close>

definition stop_prepare ::
  "(svc \<Rightarrow> world \<Rightarrow> world) \<Rightarrow> bool \<Rightarrow> svc \<Rightarrow> world \<Rightarrow> bool \<times> world" where
  "stop_prepare stop withRestart s w =
    (let w = run [modr s (\<lambda>r. r\<lparr>inAutoRestart := False\<rparr>), modr s (\<lambda>r. r\<lparr>inUserRestart := False\<rparr>)] w;
         (forRestart, w) = (if withRestart then (True, w) else auto_restart s w)
     in (forRestart, when_do (\<lambda>w. \<not> forRestart) (drop_explicit stop False s) w))"

lemma do_stop_parts:
  "do_stop stop r s w =
    (if IsStartPinned (recs w s) then w
     else let (f, w1) = stop_prepare stop r s w;
              (all, w2) = stopDependents stop f (r \<and> restartMode (cfgs w s) \<noteq> RestartModeDirect) s w1
       in stop_finish all s w2)"
  by (simp add: do_stop_def stop_prepare_def Let_def case_prod_beta modr_def)

lemma fuelled_prepare:
  assumes "fuelled k w"
  shows "fuelled k (snd (stop_prepare stop r s w))"
proof -
  let ?w = "run [modr s (\<lambda>r. r\<lparr>inAutoRestart := False\<rparr>), modr s (\<lambda>r. r\<lparr>inUserRestart := False\<rparr>)] w"
  have "keeps (fuelled k) (run [modr s (\<lambda>r. r\<lparr>inAutoRestart := False\<rparr>), modr s (\<lambda>r. r\<lparr>inUserRestart := False\<rparr>)])"
    by (intro keeps_intros fuelled_atoms; simp)
  from keepsD [OF this assms] have w: "fuelled k ?w" .
  have d: "keeps (fuelled k) (when_do c (drop_explicit stop False s))" for c
    by (intro keeps_intros fuelled_drop_explicit) simp
  show ?thesis
    using w fuelled_pairs(1) [OF w, of s] keepsD [OF d]
    by (simp add: stop_prepare_def Let_def case_prod_beta del: run.simps)
qed

lemma fuelled_do_stop:
  assumes "\<And>j. k = Suc j \<Longrightarrow> \<forall>s. keeps (fuelled j) (stop s)" "fuelled k w"
  shows "fuelled k (do_stop stop r s w)"
  using assms(2) fuelled_loop [OF assms(1) fuelled_prepare [OF assms(2)]]
  by (simp add: do_stop_parts Let_def case_prod_beta stopDependents_loop fuelled_stop_finish)

lemma fuelled_doStopN: "k < n \<Longrightarrow> fuelled k w \<Longrightarrow> fuelled k (doStopN n r s w)"
proof (induction n arbitrary: k r s w)
  case (Suc n)
  have "\<forall>s. keeps (fuelled j) (doStopN n False s)" if "k = Suc j" for j
    using Suc that by (auto intro: keepsI)
  from fuelled_do_stop [OF this Suc.prems(2)] show ?case by simp
qed simp

section \<open>More fuel, same result\<close>

lemma release_agree:
  assumes "\<And>s w. fuelled j w \<Longrightarrow> stop s w = stop' s w" "fuelled j w"
  shows "Release stop b s w = Release stop' b s w"
proof -
  let ?pre = "run [dec_required s,
     when_do (\<lambda>w. state (recs w s) = StateStopping \<and> desired (recs w s) = StateStarted \<and> \<not> IsStartPinned (recs w s))
       (notifyListeners s EventStartCancelled),
     modr s (\<lambda>r. r\<lparr>desired := StateStopped\<rparr>),
     modr s (\<lambda>r. r\<lparr>propRelease := \<not> propRequire r\<rparr>),
     modr s (\<lambda>r. r\<lparr>propRequire := False\<rparr>),
     when_do (\<lambda>w. propRelease (recs w s)) (AddPropQueue s),
     modr s (\<lambda>r. r\<lparr>stopReason := ReasonNormal\<rparr>)]"
  have "keeps (fuelled j) ?pre"
    unfolding dec_required_def by (intro keeps_intros fuelled_queues fuelled_atoms; simp)
  from assms(1) [OF keepsD [OF this assms(2)], of s] show ?thesis
    by (simp add: Release_def release_tail_def when_do_def split del: if_split cong: if_cong)
qed

lemma drop_agree:
  assumes "\<And>j s w. k = Suc j \<Longrightarrow> fuelled j w \<Longrightarrow> stop s w = stop' s w" "fuelled k w"
  shows "drop_explicit stop b s w = drop_explicit stop' b s w"
proof (cases "startExplicit (recs w s)")
  case True
  with assms(2) obtain j where k: "k = Suc j" using fuelled_positive by blast
  from release_agree [of j stop stop', OF assms(1) [OF k]] fuelled_drop [of j w s] assms(2) k True
  show ?thesis by (simp add: drop_explicit_def)
qed (simp add: drop_explicit_def)

lemma hard_agree:
  assumes "\<And>j s w. k = Suc j \<Longrightarrow> fuelled j w \<Longrightarrow> stop s w = stop' s w" "fuelled k w"
  shows "stop_hard_dependent stop b s t w = stop_hard_dependent stop' b s t w"
proof -
  have a: "keeps (fuelled k) (when_do (\<lambda>w. forceStop (recs w s)) (\<lambda>w.
       if desired (recs w s) = StateStopped
       then run [modr t (\<lambda>r. r\<lparr>stopReason := ReasonDepFailed\<rparr>), UnrecoverableStop t] w
       else ForcedStop t w))"
    by (intro keeps_intros fuelled_ForcedStop fuelled_atoms; simp)
  have b: "keeps (fuelled k) (modr t (\<lambda>r. r\<lparr>desired := StateStopped\<rparr>))"
    by (intro fuelled_atoms) simp
  from drop_agree [where b = True and s = t, OF assms(1) keepsD [OF b keepsD [OF a assms(2)]]]
  show ?thesis by (simp add: stop_hard_dependent_def when_do_def split del: if_split cong: if_cong)
qed

lemma dependent_agree:
  assumes "\<And>j s w. k = Suc j \<Longrightarrow> fuelled j w \<Longrightarrow> stop s w = stop' s w" "fuelled k w"
  shows "stop_dependent stop b c s d w = stop_dependent stop' b c s d w"
  using hard_agree [of k stop stop', OF assms] quiet_drop(1) [of stop d s stop']
  by (simp add: stop_dependent_def Let_def when_do_def)

lemma do_stop_agree:
  assumes agree: "\<And>j s w. k = Suc j \<Longrightarrow> fuelled j w \<Longrightarrow> stop s w = stop' s w"
    and keep: "\<And>j. k = Suc j \<Longrightarrow> \<forall>s. keeps (fuelled j) (stop s)" and w: "fuelled k w"
  shows "do_stop stop r s w = do_stop stop' r s w"
proof -
  have p: "stop_prepare stop r s w = stop_prepare stop' r s w"
    by (simp add: stop_prepare_def quiet_drop(2) [of stop s stop'])
  have "stopDependents stop f c s w1 = stopDependents stop' f c s w1" if "fuelled k w1" for f c w1
    using loop_cong [OF agree keep that dependent_agree [OF agree]] by (simp add: stopDependents_loop)
  from this [OF fuelled_prepare [OF w]] show ?thesis
    by (simp add: do_stop_parts p [symmetric] case_prod_beta)
qed

lemma doStopN_more: "k < n \<Longrightarrow> n \<le> m \<Longrightarrow> fuelled k w \<Longrightarrow> doStopN n r s w = doStopN m r s w"
proof (induction n arbitrary: m k r s w)
  case (Suc n)
  then obtain m' where m: "m = Suc m'" "n \<le> m'" by (cases m) auto
  have agree: "doStopN n False t u = doStopN m' False t u" if "k = Suc j" "fuelled j u" for j t u
    using Suc.IH [of j m' u] Suc.prems(1) m that by simp
  have keep: "\<forall>t. keeps (fuelled j) (doStopN n False t)" if "k = Suc j" for j
    using fuelled_doStopN Suc.prems(1) that by (auto intro: keepsI)
  from do_stop_agree [OF agree keep Suc.prems(3)] m show ?case by simp
qed simp

lemma stop_fuel_enough:
  assumes "\<forall>s. startExplicit (recs w s) \<longrightarrow> s \<in> set (svcs w)" "\<not> outOfFuel w"
  shows "fuelled (length (filter (\<lambda>s. startExplicit (recs w s)) (svcs w))) w"
proof -
  have "explicit_set w = set (filter (\<lambda>s. startExplicit (recs w s)) (svcs w))"
    using assms(1) by (auto simp: explicit_set_def)
  with card_length [of "filter (\<lambda>s. startExplicit (recs w s)) (svcs w)"] assms(2) show ?thesis
    by (simp add: fuelled_def)
qed

text \<open>
  Property C4.  \<open>doStop\<close> always returns: when every explicitly activated service is registered, the
  recursion of the stop cascade is at most one deeper than the number of explicitly activated services.
  The model does not run out of fuel, and any larger bound gives the same result.
\<close>

theorem doStop_terminates:
  assumes "\<forall>s. startExplicit (recs w s) \<longrightarrow> s \<in> set (svcs w)" and "\<not> outOfFuel w"
  shows "\<not> outOfFuel (doStop r s w) \<and> (\<forall>m. stop_fuel w \<le> m \<longrightarrow> doStopN m r s w = doStop r s w)"
proof -
  let ?k = "length (filter (\<lambda>s. startExplicit (recs w s)) (svcs w))"
  have f: "fuelled ?k w" "?k < stop_fuel w"
    using stop_fuel_enough [OF assms] by (simp_all add: stop_fuel_def)
  from fuelled_doStopN [OF f(2,1), of r s] doStopN_more [OF f(2) _ f(1)] show ?thesis
    by (simp add: doStop_def fuelled_def)
qed

theorem doStop_terminates_witness:
  "let w = internals\<lparr>records := [([], 0)], recs := (\<lambda>_. NewServiceRecord\<lparr>dependents := []\<rparr>)
        (0 := NewServiceRecord\<lparr>state := StateStarted, startExplicit := True, requiredBy := 1\<rparr>)\<rparr>
   in stop_fuel w = 2 \<and> \<not> outOfFuel (doStop False 0 w) \<and> doStopN 7 False 0 w = doStop False 0 w"
proof -
  let ?w = "internals\<lparr>records := [([], 0)], recs := (\<lambda>_. NewServiceRecord\<lparr>dependents := []\<rparr>)
        (0 := NewServiceRecord\<lparr>state := StateStarted, startExplicit := True, requiredBy := 1\<rparr>)\<rparr>"
  have h: "\<forall>s. startExplicit (recs ?w s) \<longrightarrow> s \<in> set (svcs ?w)" "\<not> outOfFuel ?w"
    by (simp_all add: svcs_def eval)
  have f: "stop_fuel ?w = 2" by (simp add: stop_fuel_def svcs_def)
  from doStop_terminates [OF h, of False 0] f show ?thesis by (simp add: Let_def)
qed

end
