(* ===== verification/Behaviour.thy ===== *)
theory Behaviour
  imports Evaluate
begin

text \<open>
  Behaviour of process services over time: how often a service may restart itself, how long it waits
  before it does, how a stop that takes too long is escalated, and what becomes of a smooth recovery
  that has to wait.
\<close>

section \<open>Rate limit of restarts\<close>

text \<open>The times, of a sequence of restart requests, at which a restart is granted.\<close>

primrec granted :: "svc \<Rightarrow> instant list \<Rightarrow> world \<Rightarrow> instant list" where
  "granted s [] w = []"
| "granted s (t # ts) w =
    (let (ok, w') = process_CheckRestart s (w\<lparr>now := t\<rparr>) in (if ok then [t] else []) @ granted s ts w')"

lemma granted_set: "set (granted s ts w) \<subseteq> set ts"
  by (induction ts arbitrary: w) (auto simp: case_prod_beta)

definition in_window :: "duration \<Rightarrow> instant \<Rightarrow> instant \<Rightarrow> bool" where
  "in_window len x t \<longleftrightarrow> x \<le> t \<and> t < x + len"

text \<open>
  Requests from \<open>x\<close> on, in a window that began at \<open>T\<close> with \<open>n\<close> restarts: if it began after \<open>x\<close>, the next
  window begins after the end of the interval from \<open>x\<close>; otherwise at most one more window reaches into it.
\<close>

lemma granted_bound:
  assumes "sorted ts" "0 < mx" "0 \<le> n" "n \<le> mx" "\<forall>t \<in> set ts. x \<le> t"
    and "len = restartInterval (pcfgs w s)" "mx = maxRestartCount (pcfgs w s)"
    and "n = restartIntervalCount (procs w s)" "T = restartIntervalTime (procs w s)"
  shows "int (length (filter (in_window len x) (granted s ts w))) \<le> (if x \<le> T then mx - n else 2 * mx - n)"
  using assms
proof (induction ts arbitrary: w n T)
  case (Cons t ts)
  let ?c = "pcfgs w s" and ?p = "procs w s"
  have later: "filter (in_window len x) (granted s ts u) = []" if "x + len \<le> t" for u
  proof -
    have "\<forall>y \<in> set ts. t \<le> y" using Cons.prems by simp
    then have "\<forall>y \<in> set (granted s ts u). \<not> in_window len x y"
      using granted_set [of s ts u] that by (force simp: in_window_def)
    then show ?thesis by (simp add: filter_empty_conv)
  qed
  show ?case
  proof (cases "t - T < len")
    case old: True
    show ?thesis
    proof (cases "n \<ge> mx")
      case True
      have "granted s (t # ts) w = granted s ts (w\<lparr>now := t\<rparr>)"
        using old True Cons.prems by (simp add: process_CheckRestart_def Let_def)
      with Cons.IH [of n "w\<lparr>now := t\<rparr>" T] Cons.prems show ?thesis by simp
    next
      case False
      let ?w = "modp s (\<lambda>p. p\<lparr>restartIntervalCount := restartIntervalCount p + 1\<rparr>) (w\<lparr>now := t\<rparr>)"
      have "granted s (t # ts) w = t # granted s ts ?w"
        using old False Cons.prems by (simp add: process_CheckRestart_def Let_def)
      with Cons.IH [of "n + 1" ?w T] Cons.prems False show ?thesis
        by (simp add: modp_def split: if_splits)
    qed
  next
    case new: False
    let ?w = "modp s (\<lambda>p. p\<lparr>restartIntervalTime := t, restartIntervalCount := 1,
        currentRestartDelay := restartDelay ?c\<rparr>) (w\<lparr>now := t\<rparr>)"
    have g: "granted s (t # ts) w = t # granted s ts ?w"
      using new Cons.prems by (simp add: process_CheckRestart_def Let_def)
    have ih: "int (length (filter (in_window len x) (granted s ts ?w))) \<le> (if x \<le> t then mx - 1 else 2 * mx - 1)"
      using Cons.IH [of 1 ?w t] Cons.prems by (simp add: modp_def)
    show ?thesis
    proof (cases "x \<le> T")
      case True
      then have "x + len \<le> t" using new by simp
      moreover from this have "\<not> in_window len x t" by (simp add: in_window_def)
      ultimately show ?thesis unfolding g using later True Cons.prems(2-4) by simp
    next
      case False
      then show ?thesis unfolding g using ih Cons.prems(2-5) by simp
    qed
  qed
qed simp

lemma count_mono:
  "0 \<le> restartIntervalCount (procs w s) \<and> restartIntervalCount (procs w s) \<le> maxRestartCount (pcfgs w s) \<Longrightarrow>
   0 < maxRestartCount (pcfgs w s) \<Longrightarrow> process_CheckRestart s (w\<lparr>now := t\<rparr>) = (ok, w') \<Longrightarrow>
   pcfgs w' = pcfgs w \<and> 0 \<le> restartIntervalCount (procs w' s) \<and>
   restartIntervalCount (procs w' s) \<le> maxRestartCount (pcfgs w' s)"
  by (auto simp: process_CheckRestart_def Let_def modp_def split: if_splits)

text \<open>
  Property C11.  However often restarts are asked for, at most twice \<open>maxRestartCount\<close> of them are
  granted within any period as long as \<open>restartInterval\<close>.
\<close>

theorem restart_rate_limited:
  assumes "sorted ts" "0 < maxRestartCount (pcfgs w s)"
    and "0 \<le> restartIntervalCount (procs w s)" "restartIntervalCount (procs w s) \<le> maxRestartCount (pcfgs w s)"
  shows "int (length (filter (in_window (restartInterval (pcfgs w s)) x) (granted s ts w)))
    \<le> 2 * maxRestartCount (pcfgs w s)"
  using assms
proof (induction ts arbitrary: w)
  case (Cons t ts)
  show ?case
  proof (cases "x \<le> t")
    case True
    with Cons.prems have "\<forall>u \<in> set (t # ts). x \<le> u" by auto
    from granted_bound [OF Cons.prems this refl refl refl refl] Cons.prems show ?thesis
      by (simp del: granted.simps split: if_splits)
  next
    case False
    obtain ok w' where c: "process_CheckRestart s (w\<lparr>now := t\<rparr>) = (ok, w')" by force
    have "\<not> in_window (restartInterval (pcfgs w s)) x t" using False by (simp add: in_window_def)
    then show ?thesis
      using Cons.IH [of w'] Cons.prems count_mono [OF _ _ c] c by auto
  qed
qed simp

theorem restart_rate_limited_witness:
  "let ts = [0, 9 * second, 9 * second + 1, 10 * second, 10 * second + 1, 10 * second + 2, 10 * second + 3]
   in sorted ts \<and> granted 0 ts internals = butlast ts \<and>
      int (length (filter (in_window (10 * second) (9 * second)) (granted 0 ts internals))) \<le> 6"
proof -
  let ?ts = "[0, 9 * second, 9 * second + 1, 10 * second, 10 * second + 1, 10 * second + 2, 10 * second + 3]"
  have p: "restartInterval NewProcessService = 10 * second" "maxRestartCount NewProcessService = 3"
    by (simp_all add: NewProcessService_def)
  have s: "sorted ?ts" by (simp add: second_def)
  have g: "granted 0 ?ts internals = butlast ?ts"
    by (simp add: process_CheckRestart_def eval p second_def)
  from restart_rate_limited [OF s, of internals 0 "9 * second"] s g show ?thesis
    by (simp add: Let_def eval p)
qed

section \<open>Delays between restarts\<close>

lemma jitter_range: "0 < mx \<Longrightarrow> 0 \<le> jitter draw mx \<and> jitter draw mx < mx"
  by (simp add: jitter_def)

lemma backoff_counter:
  assumes "0 < restartDelayStep c" "restartRandomizedDelay c \<le> 0"
    and "currentRestartDelay p \<le> restartDelay c"
  defines "cap \<equiv> (if restartDelayCap c \<le> 0 then 60 * second else restartDelayCap c)"
  shows "max (restartDelay c) (currentRestartDelay (((\<lambda>p. snd (nextRestartDelay draw c p)) ^^ k) p))
    = max (restartDelay c) (min cap (restartDelay c + int k * restartDelayStep c))"
proof (induction k)
  case 0
  show ?case using assms by (simp add: max_def min_def)
next
  case (Suc k)
  let ?q = "((\<lambda>p. snd (nextRestartDelay draw c p)) ^^ k) p"
  have "currentRestartDelay (snd (nextRestartDelay draw c ?q)) =
      min cap (max (restartDelay c) (currentRestartDelay ?q) + restartDelayStep c)"
    using assms(1) by (auto simp: nextRestartDelay_def cap_def Let_def max_def min_def)
  then show ?case using Suc assms(1) by (auto simp: algebra_simps max_def min_def split: if_splits)
qed

text \<open>
  The delay before a recovery grows linearly with the recoveries that went before, from
  \<open>restartDelay\<close> in steps of \<open>restartDelayStep\<close> up to the cap (60 seconds when none is configured), it is
  never below \<open>restartDelay\<close>, and \<open>restartMaxDelay\<close> bounds it in any case.
\<close>

lemma restart_delay_backoff:
  assumes "0 < restartDelayStep c" and "restartRandomizedDelay c \<le> 0"
    and "currentRestartDelay p \<le> restartDelay c"
  shows "fst (nextRestartDelay draw c (((\<lambda>p. snd (nextRestartDelay draw c p)) ^^ k) p)) =
    (let delay = max (restartDelay c)
           (min (if restartDelayCap c \<le> 0 then 60 * second else restartDelayCap c)
             (restartDelay c + int k * restartDelayStep c))
     in if restartMaxDelay c > 0 then min delay (restartMaxDelay c) else delay)"
proof -
  let ?q = "((\<lambda>p. snd (nextRestartDelay draw c p)) ^^ k) p"
  have "fst (nextRestartDelay draw c ?q) =
      (let delay = max (restartDelay c) (currentRestartDelay ?q)
       in if restartMaxDelay c > 0 then min delay (restartMaxDelay c) else delay)"
    using assms(1,2) by (auto simp: nextRestartDelay_def jitter_def Let_def max_def min_def)
  then show ?thesis using backoff_counter [OF assms, where draw = draw and k = k] by simp
qed

lemma restart_delay_backoff_witness:
  "let c = NewProcessService\<lparr>restartDelay := 2, restartDelayStep := 3, restartDelayCap := 7\<rparr>
   in fst (nextRestartDelay 0 c no_process) = 2 \<and>
      fst (nextRestartDelay 0 c (((\<lambda>p. snd (nextRestartDelay 0 c p)) ^^ 5) no_process)) = 7"
proof -
  let ?c = "NewProcessService\<lparr>restartDelay := 2, restartDelayStep := 3, restartDelayCap := 7\<rparr>"
  have h: "0 < restartDelayStep ?c" "restartRandomizedDelay ?c \<le> 0" "currentRestartDelay no_process \<le> restartDelay ?c"
    "restartMaxDelay ?c = 0"
    by (simp_all add: NewProcessService_def no_process_def)
  from restart_delay_backoff [OF h(1-3), of 0 0] restart_delay_backoff [OF h(1-3), of 0 5] h(4) show ?thesis
    by (simp add: Let_def)
qed

text \<open>
  Whatever the configuration, a configured \<open>restartMaxDelay\<close> bounds every delay, jitter
  included, and without it the delay exceeds the base value by less than the configured jitter.
\<close>

lemma restart_delay_bounded:
  assumes "0 < restartRandomizedDelay c"
  shows "(0 < restartMaxDelay c \<longrightarrow> fst (nextRestartDelay draw c p) \<le> restartMaxDelay c) \<and>
    (restartMaxDelay c \<le> 0 \<and> restartDelayStep c \<le> 0 \<longrightarrow>
      restartDelay c \<le> fst (nextRestartDelay draw c p) \<and>
      fst (nextRestartDelay draw c p) < restartDelay c + restartRandomizedDelay c)"
  using jitter_range [OF assms, of draw] by (auto simp: nextRestartDelay_def Let_def case_prod_beta)

lemma restart_delay_bounded_witness:
  "let c = NewProcessService\<lparr>restartRandomizedDelay := 5, restartDelay := 20\<rparr>
   in 0 < restartRandomizedDelay c \<and> fst (nextRestartDelay 17 c no_process) < 25"
proof -
  let ?c = "NewProcessService\<lparr>restartRandomizedDelay := 5, restartDelay := 20\<rparr>"
  have h: "0 < restartRandomizedDelay ?c" "restartMaxDelay ?c \<le> 0" "restartDelayStep ?c \<le> 0"
    by (simp_all add: NewProcessService_def)
  from restart_delay_bounded [OF h(1), of 17 no_process] h show ?thesis by (simp add: Let_def)
qed

section \<open>Escalation of a stop\<close>

lemma group_kill:
  "when_do (killsToGroup s) (killCgroupTree sig s) u =
    emit (if killsToGroup s u \<and> hasCgroup (pcfgs u s) then [KilledCgroup s sig] else []) u"
  by (simp add: killCgroupTree_def when_do_def emit_def)

lemma emit_emit: "emit es (emit es' w) = emit (es' @ es) w"
  by (simp add: emit_def)

lemma final_kill_signals:
  assumes "\<not> surviveFinalKillSignal (pcfgs w s)" "pid (procs w s) > 0"
  shows "\<exists>es. trace (final_kill s w) = trace w @ Signalled s (pid (procs w s)) (FinalKillSignal (pcfgs w s)) # es"
  using assms by (auto simp: final_kill_def Let_def killCgroupTree_def [THEN fun_cong] emit_def when_do_def)

text \<open>
  Property C12.  A process that does not end when it is asked to is killed: after the stop timeout and
  at most one more timeout the main process has been sent the final kill signal, in every failure mode,
  unless the service is configured to survive it.
\<close>

theorem stop_timeout_kills:
  assumes "timer (procs w s) = timerStopTimeout" and "pid (procs w s) > 0"
    and "\<not> surviveFinalKillSignal (pcfgs w s)"
  shows "\<exists>w1 w2 es. handleTimerExpired s w = Some w1 \<and> handleTimerExpired s w1 = Some w2 \<and>
    trace w2 = trace w @ es \<and> Signalled s (pid (procs w s)) (FinalKillSignal (pcfgs w s)) \<in> set es"
proof -
  let ?w = "modp s (\<lambda>p. p\<lparr>timer := timerNone\<rparr>) w" and ?c = "pcfgs w s" and ?p = "pid (procs w s)"
  let ?sig = "Signalled s ?p (FinalKillSignal ?c)"
  have pid: "pid (procs ?w s) = ?p" by (simp add: modp_def)
  have f: "FinalKillSignal ?c \<noteq> 0" by (simp add: FinalKillSignal_def)
  have idle: "handleTimerExpired s u = Some (modp s (\<lambda>p. p\<lparr>timer := timerNone\<rparr>) u)" if "timer (procs u s) = timerNone" for u
    using that by (simp add: handleTimerExpired_def Let_def)
  have fin: "\<exists>es. trace (final_kill s u) = trace u @ ?sig # es"
    if "pcfgs u s = ?c" "pid (procs u s) = ?p" for u
    using final_kill_signals [of u s] that assms by simp
  have fk: "timer (procs (final_kill s u) s) = timer (procs u s)" for u
    by (simp add: final_kill_def Let_def emit_def killCgroupTree_def [THEN fun_cong] when_do_def)
  consider (abort) "timeoutStopFailureMode ?c = TimeoutFailureAbort \<or> (timeoutStopFailureMode ?c = TimeoutFailureTerminate \<and> timeoutAbortSec ?c > 0)"
    | (kill) "timeoutStopFailureMode ?c = TimeoutFailureKill"
    | (direct) "timeoutStopFailureMode ?c = TimeoutFailureTerminate" "\<not> timeoutAbortSec ?c > 0"
    by (cases "timeoutStopFailureMode ?c") auto
  then show ?thesis
  proof cases
    case abort
    then obtain es where "handleTimerExpired s w = Some (armTimer timerAbortTimeout s (emit es ?w))"
      using assms(1,2) f
      by (cases "timeoutStopFailureMode ?c")
        (auto simp: handleTimerExpired_def Let_def stopTimeoutSignal_def group_kill emit_emit pid)
    then obtain w1 es where w1: "handleTimerExpired s w = Some w1" "trace w1 = trace w @ es"
      "timer (procs w1 s) = timerAbortTimeout" "pcfgs w1 s = ?c" "pid (procs w1 s) = ?p"
      by (auto simp: armTimer_def cancelTimer_def emit_def modp_def)
    let ?u = "modp s (\<lambda>p. p\<lparr>timer := timerNone\<rparr>) w1"
    have "handleTimerExpired s w1 = Some (final_kill s ?u)"
      using w1(3) by (simp add: handleTimerExpired_def Let_def)
    moreover have "pcfgs ?u s = ?c" "pid (procs ?u s) = ?p" "trace ?u = trace w1"
      using w1(4,5) by (simp_all add: modp_def)
    ultimately show ?thesis using w1(1,2) fin [of ?u] by fastforce
  next
    case kill
    have "\<exists>w1 es. handleTimerExpired s w = Some w1 \<and> trace w1 = trace w @ ?sig # es \<and> timer (procs w1 s) = timerNone"
      using kill assms(1,2) f
      by (auto simp: handleTimerExpired_def Let_def stopTimeoutSignal_def group_kill emit_def modp_def)
    then obtain w1 es where "handleTimerExpired s w = Some w1" "trace w1 = trace w @ ?sig # es" "timer (procs w1 s) = timerNone"
      by blast
    then show ?thesis using idle [of w1] by (auto simp: modp_def)
  next
    case direct
    have "handleTimerExpired s w = Some (final_kill s ?w)"
      using direct assms(1) by (simp add: handleTimerExpired_def Let_def stopTimeoutSignal_def)
    moreover obtain es where "trace (final_kill s ?w) = trace w @ ?sig # es"
      using fin [of ?w] by (auto simp: modp_def)
    ultimately show ?thesis using idle [of "final_kill s ?w"] fk [of ?w] by (auto simp: modp_def)
  qed
qed

theorem stop_timeout_kills_witness:
  "let w = internals\<lparr>procs := (\<lambda>_. no_process\<lparr>pid := 42, timer := timerStopTimeout\<rparr>)\<rparr>
   in \<exists>w1 w2 es. handleTimerExpired 0 w = Some w1 \<and> handleTimerExpired 0 w1 = Some w2 \<and> trace w2 = es \<and> Signalled 0 42 9 \<in> set es"
proof -
  let ?w = "internals\<lparr>procs := (\<lambda>_. no_process\<lparr>pid := 42, timer := timerStopTimeout\<rparr>)\<rparr>"
  have h: "timer (procs ?w 0) = timerStopTimeout" "pid (procs ?w 0) > 0" "\<not> surviveFinalKillSignal (pcfgs ?w 0)"
    by (simp_all add: eval NewProcessService_def)
  from stop_timeout_kills [OF h] show ?thesis
    by (auto simp: Let_def eval FinalKillSignal_def NewProcessService_def)
qed

section \<open>A recovery that has to wait\<close>

text \<open>
  A process service with smooth recovery whose process ends earlier than \<open>restartDelay\<close>
  after its start stays in the state \<open>StateStarted\<close> without a process: the timer that should restart it is
  armed by the handler of the exit, and that handler was the last thing the monitoring goroutine did, so
  nothing waits for the timer.
\<close>

lemma smooth_recovery_unattended:
  assumes "state (recs w s) = StateStarted" "smoothRecovery (cfgs w s)" "exitType (pcfgs w s) = ExitTypeMain"
    and "ce_ExecErr exit = None" "maxRestartCount (pcfgs w s) \<le> 0"
    and "restartDelayStep (pcfgs w s) \<le> 0" "restartRandomizedDelay (pcfgs w s) \<le> 0" "restartMaxDelay (pcfgs w s) \<le> 0"
    and "now w - lastStartTime (procs w s) < restartDelay (pcfgs w s)"
  shows "\<exists>w'. handleChildExit exit s w = Some w' \<and> state (recs w' s) = StateStarted \<and> pid (procs w' s) = 0 \<and>
    timer (procs w' s) = timerRestartDelay \<and> timerArmed (procs w' s) \<and> doingSmoothRecov (procs w' s) \<and>
    \<not> monitoring (procs w' s)"
proof -
  let ?u = "run [
           when_do (\<lambda>w. KillAllOnStop (svcFlags (cfgs w s))) (killCgroupTree 9 s),
           modp s (\<lambda>p. p\<lparr>exitStatus := exit_status_of exit, pid := 0, monitoring := False\<rparr>),
           cancelTimer s,
           modp s (\<lambda>p. p\<lparr>readyPipeRead := False\<rparr>)] w"
  have u: "recs ?u = recs w" "cfgs ?u = cfgs w" "pcfgs ?u = pcfgs w" "os ?u = os w" "now ?u = now w"
    "pid (procs ?u s) = 0" "\<not> monitoring (procs ?u s)" "lastStartTime (procs ?u s) = lastStartTime (procs w s)"
    by (simp_all add: when_do_def killCgroupTree_def [THEN fun_cong] emit_def modp_def cancelTimer_def)
  have "handleChildExit exit s w = dispatchAfterExit StateStarted s ?u"
    unfolding handleChildExit_def Let_def using assms u by (simp del: run.simps)
  also have "\<dots> = doSmoothRecovery s (modp s (\<lambda>p. p\<lparr>doingSmoothRecov := True\<rparr>) ?u)"
    using assms u by (simp add: dispatchAfterExit_def process_CheckRestart_def Let_def del: run.simps)
  finally have "handleChildExit exit s w = doSmoothRecovery s (modp s (\<lambda>p. p\<lparr>doingSmoothRecov := True\<rparr>) ?u)" .
  then show ?thesis
    using assms u
    by (simp add: doSmoothRecovery_def nextRestartDelay_def jitter_def Let_def armTimer_def cancelTimer_def modp_def del: run.simps)
      (simp add: modp_def cancelTimer_def)
qed

lemma smooth_recovery_unattended_witness:
  "let w = internals\<lparr>cfgs := (\<lambda>_. new_config Process []\<lparr>smoothRecovery := True\<rparr>),
        pcfgs := (\<lambda>_. NewProcessService\<lparr>maxRestartCount := 0\<rparr>),
        recs := (\<lambda>_. NewServiceRecord\<lparr>state := StateStarted\<rparr>), procs := (\<lambda>_. no_process\<lparr>pid := 100, monitoring := True\<rparr>)\<rparr>
   in \<exists>w'. handleChildExit \<lparr>ce_Status = 0, ce_ExecErr = None\<rparr> 0 w = Some w' \<and> pid (procs w' 0) = 0 \<and>
        state (recs w' 0) = StateStarted \<and> \<not> monitoring (procs w' 0)"
proof -
  let ?w = "internals\<lparr>cfgs := (\<lambda>_. new_config Process []\<lparr>smoothRecovery := True\<rparr>),
        pcfgs := (\<lambda>_. NewProcessService\<lparr>maxRestartCount := 0\<rparr>),
        recs := (\<lambda>_. NewServiceRecord\<lparr>state := StateStarted\<rparr>), procs := (\<lambda>_. no_process\<lparr>pid := 100, monitoring := True\<rparr>)\<rparr>"
  have h: "state (recs ?w 0) = StateStarted" "smoothRecovery (cfgs ?w 0)" "exitType (pcfgs ?w 0) = ExitTypeMain"
    "ce_ExecErr \<lparr>ce_Status = 0, ce_ExecErr = None\<rparr> = None" "maxRestartCount (pcfgs ?w 0) \<le> 0"
    "restartDelayStep (pcfgs ?w 0) \<le> 0" "restartRandomizedDelay (pcfgs ?w 0) \<le> 0" "restartMaxDelay (pcfgs ?w 0) \<le> 0"
    "now ?w - lastStartTime (procs ?w 0) < restartDelay (pcfgs ?w 0)"
    by (simp_all add: eval NewProcessService_def)
  from smooth_recovery_unattended [OF h] show ?thesis unfolding Let_def by blast
qed

section \<open>A start slot for a stopped service\<close>

lemmas slot_eval = Acquire_def sl_Release_def refreshFastCount_def count_fast_def is_fast_def map_put_def
  map_delete_def wakeNext_def NewStartLimiter_def SetTrigger_def [THEN fun_cong] slot_granted_def
  InterruptStart_def CanInterruptStart_def second_def

definition limited :: world where
  "limited = internals\<lparr>startLimiter := Some (NewStartLimiter 1 0),
     cfgs := (\<lambda>_. internal_cfg)(0 := internal_cfg\<lparr>impl := Triggered\<rparr>)\<rparr>"

text \<open>
  Stopping a service that waits for a start slot does not take it off the waiting list of
  the limiter.  With one slot, service 0 starts and waits for its trigger, service 1 waits for the slot
  and is stopped.  When 0 is triggered the slot goes to 1, which is started although it was stopped and
  nobody wants it; it is stopped once more, and the count of active services is 0 while service 0 runs.
\<close>

lemma stopped_waiter_is_started:
  "\<exists>w w'. handle_all [EvStart 0, EvStart 1, EvStop 1, EvTrigger True 0] limited = Some w \<and>
     state (recs w 1) = StateStopped \<and> desired (recs w 1) = StateStopped \<and> activeServices w = 1 \<and>
     map_option woken (startLimiter w) = Some [1] \<and>
     handle (EvSlot 1) w = Some w' \<and> LogStarted 1 \<in> set (drop (length (trace w)) (trace w')) \<and>
     state (recs w' 0) = StateStarted \<and> activeServices w' = 0"
proof -
  have "case handle_all [EvStart 0, EvStart 1, EvStop 1, EvTrigger True 0] limited of None \<Rightarrow> False | Some w \<Rightarrow>
     state (recs w 1) = StateStopped \<and> desired (recs w 1) = StateStopped \<and> activeServices w = 1 \<and>
     map_option woken (startLimiter w) = Some [1] \<and>
     (case handle (EvSlot 1) w of None \<Rightarrow> False | Some w' \<Rightarrow> LogStarted 1 \<in> set (drop (length (trace w)) (trace w')) \<and>
     state (recs w' 0) = StateStarted \<and> activeServices w' = 0)"
    by (simp add: limited_def slot_eval eval cong: eval_cong del: List.fold.simps)
  then show ?thesis by (auto split: option.splits)
qed

end
