(* ===== verification/Depth.thy ===== *)
theory Depth
  imports Evaluate
begin

text \<open>
  Dependency depths and the search for cycles (\<open>pkg/service/depth.go\<close>).  The depth of a service is a
  field of its record that only this component writes; it is kept in a store of its own.  The two loops
  run over graphs of any size, so they are partial functions: \<open>None\<close> stands for a loop that does not end,
  and they are shown to end when only finitely many services are concerned.
\<close>

section \<open>The search for cycles\<close>

definition nexts :: "world \<Rightarrow> svc \<Rightarrow> svc list" where
  "nexts w s = map (\<lambda>d. To (deps w d)) (dependsOn (recs w s))"

partial_function (option) circular_loop ::
  "(svc \<Rightarrow> svc list) \<Rightarrow> svc \<Rightarrow> svc list \<Rightarrow> svc list \<Rightarrow> bool option" where
  "circular_loop nx fr visited queue =
    (if queue = [] then Some False
     else let cur = hd queue; q = tl queue in
       if cur = fr then Some True
       else if cur \<in> set visited then circular_loop nx fr visited q
       else circular_loop nx fr (cur # visited) (q @ filter (\<lambda>t. t \<notin> set (cur # visited)) (nx cur)))"

declare circular_loop.simps [code]

definition CheckCircularDep :: "svc \<Rightarrow> svc \<Rightarrow> world \<Rightarrow> bool option" where
  "CheckCircularDep fr to w = circular_loop (nexts w) fr [] [to]"

definition edges :: "('a \<Rightarrow> 'a list) \<Rightarrow> ('a \<times> 'a) set" where
  "edges nx = {(s, t). t \<in> set (nx s)}"

lemma reach_closed: "(\<forall>v\<in>V. set (nx v) \<subseteq> V) \<Longrightarrow> (edges nx)\<^sup>* `` V = V"
proof
  assume c: "\<forall>v\<in>V. set (nx v) \<subseteq> V"
  show "(edges nx)\<^sup>* `` V \<subseteq> V"
  proof
    fix y assume "y \<in> (edges nx)\<^sup>* `` V"
    then obtain x where x: "x \<in> V" and "(x, y) \<in> (edges nx)\<^sup>*" by blast
    from this(2) show "y \<in> V" by (induction rule: rtrancl_induct) (use x c in \<open>auto simp: edges_def\<close>)
  qed
qed auto

lemma reach_expand: "N \<subseteq> set (nx cur) \<Longrightarrow> (edges nx)\<^sup>* `` (V \<union> Q \<union> N \<union> {cur}) = (edges nx)\<^sup>* `` (V \<union> Q \<union> {cur})"
proof -
  assume "N \<subseteq> set (nx cur)"
  then have "(edges nx)\<^sup>* `` N \<subseteq> (edges nx)\<^sup>* `` {cur}"
    by (auto simp: edges_def intro: converse_rtrancl_into_rtrancl)
  then show ?thesis by (auto simp only: Image_Un)
qed

lemma circular_loop_correct:
  assumes "finite R" "set queue \<subseteq> R" "set visited \<subseteq> R" "\<forall>s\<in>R. set (nx s) \<subseteq> R"
    and "fr \<notin> set visited" "\<forall>v\<in>set visited. set (nx v) \<subseteq> set visited \<union> set queue"
  shows "circular_loop nx fr visited queue = Some (fr \<in> (edges nx)\<^sup>* `` (set visited \<union> set queue))"
  using assms
proof (induction "(visited, queue)" arbitrary: visited queue
    rule: wf_induct_rule [OF wf_measures [of "[\<lambda>p. card (R - set (fst p)), \<lambda>p. length (snd p)]"]])
  case (1 visited queue)
  show ?case
  proof (cases queue)
    case Nil
    have "(edges nx)\<^sup>* `` set visited = set visited" using reach_closed "1.prems"(6) Nil by auto
    with "1.prems"(5) Nil show ?thesis by (subst circular_loop.simps) (auto simp: Let_def)
  next
    case (Cons cur q)
    show ?thesis
    proof (cases "cur = fr")
      case True
      then show ?thesis using Cons by (subst circular_loop.simps) (auto simp: Let_def)
    next
      case nf: False
      show ?thesis
      proof (cases "cur \<in> set visited")
        case True
        have cl: "\<forall>v\<in>set visited. set (nx v) \<subseteq> set visited \<union> set q"
          using "1.prems"(6) Cons True by auto
        have "circular_loop nx fr visited q = Some (fr \<in> (edges nx)\<^sup>* `` (set visited \<union> set q))"
          using "1.hyps" [OF _ "1.prems"(1) _ "1.prems"(3-5) cl] "1.prems"(2) Cons by simp
        then show ?thesis using Cons nf True by (subst circular_loop.simps) (auto simp: Let_def insert_absorb)
      next
        case False
        let ?q = "q @ filter (\<lambda>t. t \<notin> set (cur # visited)) (nx cur)"
        have "card (R - set (cur # visited)) < card (R - set visited)"
          using "1.prems"(1,2) Cons False by (intro psubset_card_mono) auto
        moreover have cl: "\<forall>v\<in>set (cur # visited). set (nx v) \<subseteq> set (cur # visited) \<union> set ?q"
          using "1.prems"(6) Cons by auto
        moreover have qR: "set ?q \<subseteq> R" using "1.prems"(2,4) Cons by auto
        ultimately have ih: "circular_loop nx fr (cur # visited) ?q =
            Some (fr \<in> (edges nx)\<^sup>* `` (set (cur # visited) \<union> set ?q))"
          using "1.hyps" [OF _ "1.prems"(1) qR _ "1.prems"(4) _ cl] "1.prems"(2,3,5) Cons nf by simp
        have "(edges nx)\<^sup>* `` (set (cur # visited) \<union> set ?q) = (edges nx)\<^sup>* `` (set visited \<union> set queue)"
          using reach_expand [of "set (filter (\<lambda>t. t \<notin> set (cur # visited)) (nx cur))" nx cur "set visited" "set q"]
            Cons by (auto simp: Un_ac)
        with ih nf False Cons show ?thesis by (subst circular_loop.simps) (simp add: Let_def)
      qed
    qed
  qed
qed

text \<open>
  Property C36.  When finitely many services can be reached from the new dependency, the search for
  cycles ends, and it answers yes exactly when the new dependency leads back to the service that is to
  depend on it.
\<close>

theorem CheckCircularDep_correct:
  assumes "finite ((edges (nexts w))\<^sup>* `` {to})"
  shows "CheckCircularDep fr to w = Some ((to, fr) \<in> (edges (nexts w))\<^sup>*)"
proof -
  let ?R = "(edges (nexts w))\<^sup>* `` {to}"
  have "\<forall>s\<in>?R. set (nexts w s) \<subseteq> ?R"
    by (auto simp: edges_def intro: rtrancl_into_rtrancl)
  from circular_loop_correct [OF assms _ _ this, where queue = "[to]" and visited = "[]" and fr = fr] show ?thesis
    by (simp add: CheckCircularDep_def)
qed

theorem CheckCircularDep_correct_witness:
  "finite ((edges (nexts pair_linked))\<^sup>* `` {0}) \<and> CheckCircularDep 1 0 pair_linked = Some True"
proof -
  have n: "nexts pair_linked s = (if s = 0 then [1] else [])" for s
    by (simp add: nexts_def pair_linked_def eval)
  then have e: "edges (nexts pair_linked) = {(0, 1)}" by (auto simp: edges_def split: if_splits)
  have "(edges (nexts pair_linked))\<^sup>* `` {0} \<subseteq> (edges (nexts pair_linked))\<^sup>* `` {0, 1}" by auto
  also have "\<dots> = {0, 1}" by (subst reach_closed) (auto simp: n)
  finally have f: "finite ((edges (nexts pair_linked))\<^sup>* `` {0})" by (rule finite_subset) simp
  have "(0, 1) \<in> (edges (nexts pair_linked))\<^sup>*" by (auto simp: e)
  with CheckCircularDep_correct [OF f, of 1] f show ?thesis by simp
qed

section \<open>Recalculating depths\<close>

definition MaxDepDepth :: int where
  "MaxDepDepth = 32"

type_synonym depths = "svc \<Rightarrow> int"

record DepDepthUpdater =
  changed :: "(svc \<times> int) list"
  committed :: bool

definition calcDepth :: "world \<Rightarrow> depths \<Rightarrow> svc \<Rightarrow> int" where
  "calcDepth w dp s =
    fold (\<lambda>t depth. let d = dp t + 1 in if depth < d then d else depth) (nexts w s) 0"

definition AddPotentialUpdate :: "svc \<Rightarrow> depths \<Rightarrow> DepDepthUpdater \<Rightarrow> DepDepthUpdater" where
  "AddPotentialUpdate s dp u = u\<lparr>changed := changed u @ [(s, dp s)]\<rparr>"

definition hasService :: "svc \<Rightarrow> DepDepthUpdater \<Rightarrow> bool" where
  "hasService s u = list_ex (\<lambda>snap. fst snap = s) (changed u)"

definition queue_dependents :: "svc list \<Rightarrow> depths \<Rightarrow> DepDepthUpdater \<Rightarrow> DepDepthUpdater" where
  "queue_dependents ss dp u = fold (\<lambda>s u. if hasService s u then u else AddPotentialUpdate s dp u) ss u"

definition users :: "world \<Rightarrow> svc \<Rightarrow> svc list" where
  "users w s = map (\<lambda>d. From (deps w d)) (dependents (recs w s))"

partial_function (option) process_loop ::
  "world \<Rightarrow> nat \<Rightarrow> depths \<Rightarrow> DepDepthUpdater \<Rightarrow> (bool \<times> depths \<times> DepDepthUpdater) option" where
  "process_loop w i dp u =
    (if i < length (changed u) then
       let s = fst (changed u ! i); newDepth = calcDepth w dp s in
       if MaxDepDepth < newDepth then Some (False, dp, u)
       else if newDepth \<noteq> dp s then
         let dp' = dp(s := newDepth) in process_loop w (Suc i) dp' (queue_dependents (users w s) dp' u)
       else process_loop w (Suc i) dp u
     else Some (True, dp, u))"

declare process_loop.simps [code]

text \<open>The answer is the store of depths after the run and whether the run succeeded.\<close>

definition ProcessUpdates :: "world \<Rightarrow> depths \<Rightarrow> DepDepthUpdater \<Rightarrow> (bool \<times> depths \<times> DepDepthUpdater) option" where
  "ProcessUpdates w dp u = process_loop w 0 dp u"

definition Commit :: "DepDepthUpdater \<Rightarrow> DepDepthUpdater" where
  "Commit u = u\<lparr>committed := True, changed := []\<rparr>"

definition Rollback :: "depths \<Rightarrow> DepDepthUpdater \<Rightarrow> depths \<times> DepDepthUpdater" where
  "Rollback dp u =
    (if committed u then (dp, u)
     else (fold (\<lambda>snap dp. dp(fst snap := snd snap)) (changed u) dp, u\<lparr>changed := []\<rparr>))"

definition new_updater :: DepDepthUpdater where
  "new_updater = \<lparr>changed = [], committed = False\<rparr>"

definition queued :: "DepDepthUpdater \<Rightarrow> svc set" where
  "queued u = fst ` set (changed u)"

lemma hasService_queued [simp]: "hasService s u \<longleftrightarrow> s \<in> queued u"
  by (auto simp: hasService_def queued_def list_ex_iff)

lemma AddPotentialUpdate_simps [simp]:
  "queued (AddPotentialUpdate s dp u) = insert s (queued u)"
  "changed (AddPotentialUpdate s dp u) = changed u @ [(s, dp s)]"
  "committed (AddPotentialUpdate s dp u) = committed u"
  by (simp_all add: AddPotentialUpdate_def queued_def)

lemma queue_dependents_props:
  "queued (queue_dependents ss dp u) = queued u \<union> set ss"
  "committed (queue_dependents ss dp u) = committed u"
  "set ss \<subseteq> queued u \<Longrightarrow> queue_dependents ss dp u = u"
  "\<exists>l. changed (queue_dependents ss dp u) = changed u @ l \<and> (\<forall>(s, d)\<in>set l. s \<notin> queued u \<and> d = dp s)"
proof -
  show "queued (queue_dependents ss dp u) = queued u \<union> set ss"
    unfolding queue_dependents_def by (induction ss arbitrary: u) auto
  show "committed (queue_dependents ss dp u) = committed u"
    unfolding queue_dependents_def by (induction ss arbitrary: u) auto
  show "set ss \<subseteq> queued u \<Longrightarrow> queue_dependents ss dp u = u"
    unfolding queue_dependents_def by (induction ss arbitrary: u) auto
  show "\<exists>l. changed (queue_dependents ss dp u) = changed u @ l \<and> (\<forall>(s, d)\<in>set l. s \<notin> queued u \<and> d = dp s)"
    unfolding queue_dependents_def
  proof (induction ss arbitrary: u)
    case (Cons a ss)
    show ?case
    proof (cases "a \<in> queued u")
      case False
      from Cons [of "AddPotentialUpdate a dp u"] obtain l where
        "changed (fold (\<lambda>s u. if hasService s u then u else AddPotentialUpdate s dp u) ss (AddPotentialUpdate a dp u))
          = changed u @ (a, dp a) # l"
        "\<forall>(s, d)\<in>set l. s \<notin> queued u \<and> d = dp s" by auto
      with False show ?thesis by (intro exI [of _ "(a, dp a) # l"]) simp
    qed (use Cons in simp)
  qed simp
qed

text \<open>
  What holds of the updater between two rounds: every snapshot is the depth the service had at the
  beginning, services that are not queued still have it, and those already looked at are within the limit.
\<close>

definition tracks :: "depths \<Rightarrow> depths \<Rightarrow> DepDepthUpdater \<Rightarrow> bool" where
  "tracks dp0 dp u \<longleftrightarrow>
    \<not> committed u \<and> (\<forall>(s, d)\<in>set (changed u). d = dp0 s) \<and> (\<forall>s. s \<notin> queued u \<longrightarrow> dp s = dp0 s)"

definition seen_within :: "nat \<Rightarrow> depths \<Rightarrow> DepDepthUpdater \<Rightarrow> bool" where
  "seen_within i dp u \<longleftrightarrow> (\<forall>snap\<in>set (take i (changed u)). dp (fst snap) \<le> MaxDepDepth)"

lemma tracks_round:
  assumes "tracks dp0 dp u" "s \<in> queued u"
  shows "tracks dp0 (dp(s := n)) (queue_dependents ss (dp(s := n)) u)"
proof -
  obtain l where l: "changed (queue_dependents ss (dp(s := n)) u) = changed u @ l"
      "\<forall>(t, d)\<in>set l. t \<notin> queued u \<and> d = (dp(s := n)) t"
    using queue_dependents_props(4) by blast
  then have "\<forall>(t, d)\<in>set l. d = dp0 t" using assms by (fastforce simp: tracks_def)
  then show ?thesis
    using assms l(1) by (auto simp: tracks_def queue_dependents_props)
qed

lemma seen_within_round:
  assumes "seen_within i dp u" "i < length (changed u)" "s = fst (changed u ! i)" "n \<le> MaxDepDepth"
  shows "seen_within (Suc i) (dp(s := n)) (queue_dependents ss (dp(s := n)) u)"
proof -
  obtain l where l: "changed (queue_dependents ss (dp(s := n)) u) = changed u @ l"
    using queue_dependents_props(4) by blast
  show ?thesis
    unfolding seen_within_def l using assms by (auto simp: seen_within_def take_Suc_conv_app_nth)
qed

lemma process_loop_correct:
  assumes "finite R" "queued u \<subseteq> R" "\<forall>s\<in>R. set (users w s) \<subseteq> R"
    and "tracks dp0 dp u" "seen_within i dp u"
  shows "\<exists>ok dp' u'. process_loop w i dp u = Some (ok, dp', u') \<and> tracks dp0 dp' u' \<and>
    (ok \<longrightarrow> (\<forall>s\<in>queued u'. dp' s \<le> MaxDepDepth)) \<and> queued u \<subseteq> queued u'"
  using assms
proof (induction "(i, dp, u)" arbitrary: i dp u
    rule: wf_induct_rule [OF wf_measures [of "[\<lambda>(i, dp, u). card (R - queued u), \<lambda>(i, dp, u). length (changed u) - i]"]])
  case (1 i dp u)
  show ?case
  proof (cases "i < length (changed u)")
    case True
    define s where "s = fst (changed u ! i)"
    define n where "n = calcDepth w dp s"
    have s: "s \<in> queued u" using True by (auto simp: s_def queued_def)
    have keep: "dp(s := dp s) = dp" by simp
    show ?thesis
    proof (cases "n \<le> MaxDepDepth")
      case False
      then show ?thesis
        using True 1(5) by (subst process_loop.simps) (auto simp: Let_def s_def n_def)
    next
      case small: True
      let ?dp = "dp(s := n)" and ?u = "queue_dependents (if n = dp s then [] else users w s) (dp(s := n)) u"
      have step: "process_loop w i dp u = process_loop w (Suc i) ?dp ?u"
        using True small by (subst process_loop.simps) (simp add: Let_def s_def n_def queue_dependents_def)
      have q: "queued ?u = queued u \<union> (if n = dp s then {} else set (users w s))"
        by (simp add: queue_dependents_props)
      have R: "queued ?u \<subseteq> R" using q s 1(3,4) by auto
      have "((Suc i, ?dp, ?u), (i, dp, u)) \<in>
        measures [\<lambda>(i, dp, u). card (R - queued u), \<lambda>(i, dp, u). length (changed u) - i]"
      proof (cases "queued ?u = queued u")
        case True
        with q have "set (if n = dp s then [] else users w s) \<subseteq> queued u" by auto
        then have "?u = u" by (rule queue_dependents_props(3))
        then show ?thesis using \<open>i < length (changed u)\<close> by simp
      next
        case False
        then have "card (R - queued ?u) < card (R - queued u)"
          using R q 1(2) by (intro psubset_card_mono) auto
        then show ?thesis by simp
      qed
      from 1(1) [OF this 1(2) R 1(4) tracks_round [OF 1(5) s]] seen_within_round [OF 1(6) True s_def small]
      show ?thesis unfolding step using q by blast
    qed
  next
    case False
    then show ?thesis
      using 1(5,6) by (subst process_loop.simps) (auto simp: seen_within_def queued_def)
  qed
qed

lemma Rollback_tracks:
  assumes "tracks dp0 dp u"
  shows "fst (Rollback dp u) = dp0"
proof -
  have "fold (\<lambda>snap dp. dp(fst snap := snd snap)) l dp s = (if s \<in> fst ` set l then dp0 s else dp s)"
    if "\<forall>(s, d)\<in>set l. d = dp0 s" for l s
    using that by (induction l arbitrary: dp) auto
  then show ?thesis
    using assms by (auto simp: Rollback_def tracks_def queued_def)
qed

lemma tracks_requests: "tracks dp dp (fold (\<lambda>s. AddPotentialUpdate s dp) ss new_updater)"
proof -
  have "tracks dp dp u \<Longrightarrow> tracks dp dp (AddPotentialUpdate s dp u)" for s u
    by (auto simp: tracks_def)
  then have "tracks dp dp u \<Longrightarrow> tracks dp dp (fold (\<lambda>s. AddPotentialUpdate s dp) ss u)" for u
    by (induction ss arbitrary: u) simp_all
  moreover have "tracks dp dp new_updater" by (simp add: tracks_def new_updater_def)
  ultimately show ?thesis .
qed

lemma queued_requests: "queued (fold (\<lambda>s. AddPotentialUpdate s dp) ss u) = queued u \<union> set ss"
  by (induction ss arbitrary: u) auto

lemma new_updater_queued [simp]: "queued new_updater = {}"
  by (simp add: new_updater_def queued_def)

lemma update_correct:
  assumes "finite ((edges (users w))\<^sup>* `` set ss)"
  shows "\<exists>ok dp' u'. ProcessUpdates w dp (fold (\<lambda>s. AddPotentialUpdate s dp) ss new_updater) = Some (ok, dp', u') \<and>
    tracks dp dp' u' \<and> (ok \<longrightarrow> (\<forall>s\<in>queued u'. dp' s \<le> MaxDepDepth)) \<and> set ss \<subseteq> queued u'"
proof -
  let ?R = "(edges (users w))\<^sup>* `` set ss"
  have "\<forall>s\<in>?R. set (users w s) \<subseteq> ?R" by (auto simp: edges_def intro: rtrancl_into_rtrancl)
  moreover have "set ss \<subseteq> ?R" by auto
  ultimately show ?thesis
    using process_loop_correct [OF assms _ _ tracks_requests [of dp ss], of w 0]
    by (simp add: ProcessUpdates_def queued_requests seen_within_def)
qed

section \<open>Properties\<close>

text \<open>
  Property C37.  A recalculation of depths ends: whatever services are queued for it, when finitely many
  services depend on them, directly or not, the run gives an answer; and when it reports success, every
  service it was asked about, and every service it went on to, is within the depth limit.
\<close>

theorem ProcessUpdates_returns:
  assumes "finite ((edges (users w))\<^sup>* `` set ss)"
  shows "\<exists>ok dp' u'. ProcessUpdates w dp (fold (\<lambda>s. AddPotentialUpdate s dp) ss new_updater) = Some (ok, dp', u') \<and>
    (ok \<longrightarrow> (\<forall>s\<in>set ss \<union> queued u'. dp' s \<le> MaxDepDepth))"
  using update_correct [OF assms, of dp] by blast

lemma pair_update:
  fixes u :: DepDepthUpdater
  defines "u \<equiv> fold (\<lambda>s. AddPotentialUpdate s (\<lambda>_. 5)) [1] new_updater"
  shows "finite ((edges (users pair_linked))\<^sup>* `` set [1])"
    "\<exists>dp' u'. ProcessUpdates pair_linked (\<lambda>_. 5) u = Some (True, dp', u') \<and> dp' 0 = 1 \<and> dp' 1 = 0"
proof -
  have g: "users pair_linked s = (if s = 1 then [0] else [])" "nexts pair_linked s = (if s = 0 then [1] else [])" for s
    by (simp_all add: users_def nexts_def pair_linked_def eval)
  then have "finite ((edges (users pair_linked))\<^sup>* `` set [0, 1])" by (subst reach_closed) auto
  then show "finite ((edges (users pair_linked))\<^sup>* `` set [1])" by (rule rev_finite_subset) auto
  show "\<exists>dp' u'. ProcessUpdates pair_linked (\<lambda>_. 5) u = Some (True, dp', u') \<and> dp' 0 = 1 \<and> dp' 1 = 0"
    by (simp add: u_def ProcessUpdates_def process_loop.simps new_updater_def AddPotentialUpdate_def calcDepth_def
        MaxDepDepth_def queue_dependents_def hasService_def g Let_def del: hasService_queued)
qed

theorem ProcessUpdates_returns_witness:
  "\<exists>dp' u'. ProcessUpdates pair_linked (\<lambda>_. 5) (fold (\<lambda>s. AddPotentialUpdate s (\<lambda>_. 5)) [1] new_updater)
      = Some (True, dp', u') \<and> dp' 1 \<le> MaxDepDepth"
proof -
  from ProcessUpdates_returns [OF pair_update(1), of "\<lambda>_. 5"] pair_update(2) show ?thesis by auto
qed

text \<open>
  A recalculation that is rolled back leaves no trace: every service has the depth it had
  when the recalculation was asked for, however far the run got.
\<close>

lemma Rollback_restores:
  assumes "finite ((edges (users w))\<^sup>* `` set ss)"
    and "ProcessUpdates w dp (fold (\<lambda>s. AddPotentialUpdate s dp) ss new_updater) = Some (ok, dp', u')"
  shows "Rollback dp' u' = (dp, u'\<lparr>changed := []\<rparr>)"
proof -
  from update_correct [OF assms(1), of dp] assms(2) have t: "tracks dp dp' u'" by simp
  from Rollback_tracks [OF t] t show ?thesis by (auto simp: Rollback_def tracks_def)
qed

lemma Rollback_restores_witness:
  "\<exists>dp' u'. ProcessUpdates pair_linked (\<lambda>_. 5) (AddPotentialUpdate 1 (\<lambda>_. 5) new_updater) = Some (True, dp', u') \<and>
    dp' 0 = 1 \<and> dp' 1 = 0 \<and> fst (Rollback dp' u') = (\<lambda>_. 5)"
proof -
  let ?u = "fold (\<lambda>s. AddPotentialUpdate s (\<lambda>_. 5)) [1] new_updater"
  obtain dp' u' where "ProcessUpdates pair_linked (\<lambda>_. 5) ?u = Some (True, dp', u')" "dp' 0 = 1" "dp' 1 = 0"
    using pair_update(2) by blast
  with Rollback_restores [OF pair_update(1) this(1)] show ?thesis by simp
qed

text \<open>
  Services 0 and 1 both depend on 2, service 0 also on 1, and 2 gets a dependency on 3; the depths are
  those of the graph without the last link.
\<close>

definition diamond :: world where
  "diamond = AddDep 3 2 3 DepRegular (AddDep 2 1 2 DepRegular (AddDep 1 0 2 DepRegular
    (AddDep 0 0 1 DepRegular internals)))"

lemma diamond_graph:
  "nexts diamond 0 = [1, 2]" "nexts diamond (Suc 0) = [2]" "nexts diamond 2 = [3]" "nexts diamond 3 = []"
  "users diamond 0 = []" "users diamond (Suc 0) = [0]" "users diamond 2 = [0, 1]" "users diamond 3 = [2]"
  by (simp_all add: nexts_def users_def diamond_def eval)

text \<open>
  A service that is already in the list is not looked at again, even when one of its
  dependencies gets deeper after its turn: a successful run can leave a service whose depth is not the
  one its dependencies give it.
\<close>

lemma depth_can_be_stale:
  "\<exists>dp' u'. ProcessUpdates diamond ((\<lambda>_. 0)(0 := 2, 1 := 1))
        (AddPotentialUpdate 2 ((\<lambda>_. 0)(0 := 2, 1 := 1)) new_updater) = Some (True, dp', u') \<and>
      dp' 0 = 2 \<and> calcDepth diamond dp' 0 = 3"
  by (simp add: ProcessUpdates_def process_loop.simps new_updater_def AddPotentialUpdate_def calcDepth_def
      MaxDepDepth_def queue_dependents_def hasService_def diamond_graph Let_def del: hasService_queued)

end
