(* ===== verification/Profile.thy ===== *)
theory Profile
  imports Evaluate "HOL-Library.List_Lexorder" "HOL-Library.Char_ord" "HOL-Library.Multiset"
begin

text \<open>
  Service profiles (\<open>pkg/service/profile.go\<close>): services carry tags, one profile may be active, and
  activating another one brings down what belongs to the old profile only and brings up what belongs to
  the new one only.  The set iterates over a Go map, so the order of iteration is an argument.
\<close>

section \<open>State and operations\<close>

record profile_state =
  activeProfile :: string
  Profiles :: "svc \<Rightarrow> string list"

record ProfileActivationResult =
  res_Previous :: string
  res_Active :: string
  res_Stopped :: "string list"
  res_Started :: "string list"
  res_Kept :: "string list"

datatype profile_error = NoServiceDeclares string

definition InProfile :: "string \<Rightarrow> string list \<Rightarrow> bool" where
  "InProfile name tags \<longleftrightarrow> tags = [] \<or> list_ex (\<lambda>p. p = name) tags"

definition SetActiveProfile :: "string \<Rightarrow> profile_state \<Rightarrow> profile_state" where
  "SetActiveProfile name ps = ps\<lparr>activeProfile := name\<rparr>"

definition ListProfiles :: "svc list \<Rightarrow> profile_state \<Rightarrow> string list" where
  "ListProfiles order ps = sort (remdups (concat (map (Profiles ps) order)))"

definition ProfileAllows :: "string list \<Rightarrow> profile_state \<Rightarrow> bool" where
  "ProfileAllows tags ps \<longleftrightarrow>
    activeProfile ps = '''' \<or> tags = [] \<or> list_ex (\<lambda>p. p = activeProfile ps) tags"

text \<open>The class of a service in a swap of the profiles \<open>old\<close> and \<open>new\<close>.\<close>

datatype swap_verdict = ToStop | ToStart | Keep

definition swap_class :: "string \<Rightarrow> string \<Rightarrow> string list \<Rightarrow> swap_verdict" where
  "swap_class old new tags =
    (if tags = [] then Keep
     else let inOld = (old \<noteq> '''' \<and> InProfile old tags); inNew = (new \<noteq> '''' \<and> InProfile new tags)
       in if inOld \<and> \<not> inNew then ToStop else if \<not> inOld \<and> inNew then ToStart else Keep)"

definition ActivateProfile ::
  "svc list \<Rightarrow> string \<Rightarrow> profile_state \<Rightarrow> world \<Rightarrow>
    (profile_error + ProfileActivationResult) \<times> profile_state \<times> world" where
  "ActivateProfile order newProfile ps w =
    (let old = activeProfile ps; name = (\<lambda>s. serviceName (cfgs w s));
         res = \<lparr>res_Previous = old, res_Active = newProfile, res_Stopped = [], res_Started = [], res_Kept = []\<rparr>
     in if newProfile = old then (Inr res, ps, w)
        else if newProfile \<noteq> '''' \<and> \<not> list_ex (\<lambda>s. list_ex (\<lambda>p. p = newProfile) (Profiles ps s)) order
        then (Inl (NoServiceDeclares newProfile), ps, w)
        else
          let toStop = filter (\<lambda>s. swap_class old newProfile (Profiles ps s) = ToStop) order;
              toStart = filter (\<lambda>s. swap_class old newProfile (Profiles ps s) = ToStart) order;
              keep = filter (\<lambda>s. swap_class old newProfile (Profiles ps s) = Keep) order;
              w1 = fold (BringDown PullConsoleQueue) toStop w;
              w2 = fold (\<lambda>s w. snd (BringUp PullConsoleQueue s w)) toStart w1
          in (Inr (res\<lparr>res_Stopped := sort (map name toStop), res_Started := sort (map name toStart),
                     res_Kept := sort (map name (filter (\<lambda>s. Profiles ps s \<noteq> []) keep))\<rparr>),
              ps\<lparr>activeProfile := newProfile\<rparr>, w2))"

section \<open>Properties\<close>

lemma swap_class_active:
  "swap_class old new tags = ToStop \<Longrightarrow> \<not> (new \<noteq> '''' \<and> InProfile new tags)"
  "swap_class old new tags = ToStart \<Longrightarrow> InProfile new tags"
  by (auto simp: swap_class_def Let_def split: if_splits)

lemma ListProfiles_declared:
  "set (ListProfiles order ps) = (\<Union>s\<in>set order. set (Profiles ps s)) \<and> sorted (ListProfiles order ps) \<and>
    distinct (ListProfiles order ps)"
  by (auto simp: ListProfiles_def)

text \<open>Two internal services, one for the profile \<open>a\<close> and one for \<open>b\<close>; \<open>a\<close> is active.\<close>

definition swap_world :: world where
  "swap_world = internals\<lparr>records := [(''sa'', 0), (''sb'', 1)],
     cfgs := (\<lambda>_. internal_cfg)(0 := internal_cfg\<lparr>serviceName := ''sa''\<rparr>, 1 := internal_cfg\<lparr>serviceName := ''sb''\<rparr>)\<rparr>"

definition swap_tags :: profile_state where
  "swap_tags = \<lparr>activeProfile = ''a'', Profiles = (\<lambda>s. if s = 0 then [''a''] else [''b''])\<rparr>"

text \<open>
  Activating another profile gives an error, and changes nothing, when no loaded service
  declares it.  Otherwise the report does not depend on the order of iteration: the tagged services of
  the set are split into those that are stopped (in the old profile, not in the new one), those that are
  started (in the new one, not in the old one) and the rest, each list sorted by name.
\<close>

lemma ActivateProfile_report:
  assumes "mset order = mset (svcs w)" and "p \<noteq> activeProfile ps"
  shows "case ActivateProfile order p ps w of
      (Inl e, ps', w') \<Rightarrow>
        e = NoServiceDeclares p \<and> p \<notin> set (ListProfiles (svcs w) ps) \<and> p \<noteq> '''' \<and> ps' = ps \<and> w' = w
    | (Inr r, ps', w') \<Rightarrow>
        (p = '''' \<or> p \<in> set (ListProfiles (svcs w) ps)) \<and> ps' = SetActiveProfile p ps \<and>
        (let tagged = filter (\<lambda>s. Profiles ps s \<noteq> []) (svcs w);
             cls = (\<lambda>s. swap_class (activeProfile ps) p (Profiles ps s));
             names = (\<lambda>c. sort (map (\<lambda>s. serviceName (cfgs w s)) (filter (\<lambda>s. cls s = c) tagged)))
         in res_Previous r = activeProfile ps \<and> res_Active r = p \<and>
            res_Stopped r = names ToStop \<and> res_Started r = names ToStart \<and> res_Kept r = names Keep)"
proof -
  have same: "sort (map f (filter P order)) = sort (map f (filter P (svcs w)))" for f :: "svc \<Rightarrow> string" and P
    using assms(1) by (intro properties_for_sort) (simp_all add: mset_filter)
  have set: "set order = set (svcs w)" using assms(1) by (rule mset_eq_setD)
  have tag: "(Profiles ps s \<noteq> [] \<and> swap_class (activeProfile ps) p (Profiles ps s) = ToStop) =
        (swap_class (activeProfile ps) p (Profiles ps s) = ToStop)"
      "(Profiles ps s \<noteq> [] \<and> swap_class (activeProfile ps) p (Profiles ps s) = ToStart) =
        (swap_class (activeProfile ps) p (Profiles ps s) = ToStart)" for s
    by (auto simp: swap_class_def)
  show ?thesis
    using assms(2)
    by (auto simp: ActivateProfile_def Let_def same set ListProfiles_declared [THEN conjunct1] SetActiveProfile_def
        list_ex_iff tag conj_commute [of "_ = Keep"])
qed

lemma ActivateProfile_report_witness:
  "case ActivateProfile [1, 0] ''b'' swap_tags swap_world of
      (Inl e, _) \<Rightarrow> False
    | (Inr r, _) \<Rightarrow> res_Stopped r = [''sa''] \<and> res_Started r = [''sb''] \<and> res_Kept r = []"
proof -
  have "mset [1, 0] = mset (svcs swap_world)" "''b'' \<noteq> activeProfile swap_tags"
    by (simp_all add: swap_world_def swap_tags_def svcs_def)
  from ActivateProfile_report [OF this] show ?thesis
    by (simp add: case_prod_beta swap_world_def swap_tags_def svcs_def swap_class_def InProfile_def Let_def
      ListProfiles_def split: sum.splits)
qed

lemma swap_evaluates:
  "\<exists>r ps'. ActivateProfile [0, 1] ''b'' swap_tags w = (Inr r, ps', snd (BringUp PullConsoleQueue 1 (BringDown PullConsoleQueue 0 w))) \<and>
    res_Stopped r = [serviceName (cfgs w 0)] \<and> res_Started r = [serviceName (cfgs w 1)]"
  by (simp add: swap_tags_def ActivateProfile_def swap_class_def InProfile_def Let_def)

text \<open>
  The swap calls \<open>BringDown\<close> and \<open>BringUp\<close> on the services themselves, beside the state
  machine.  An internal service of the old profile that an operator started still counts as wanted, so
  bringing it down starts it again; the service of the new profile is started, but nothing wants it, so
  it is stopped by the next run of the queues.  The report says the opposite.
\<close>

lemma profile_swap_inverted:
  "\<exists>w r ps' w' w''. StartService 0 swap_world = Some w \<and>
     ActivateProfile [0, 1] ''b'' swap_tags w = (Inr r, ps', w') \<and> res_Stopped r = [''sa''] \<and> res_Started r = [''sb''] \<and>
     processQueues w' = Some w'' \<and> state (recs w'' 0) = StateStarted \<and> state (recs w'' 1) = StateStopped"
proof -
  have "case StartService 0 swap_world of None \<Rightarrow> False | Some w \<Rightarrow> cfgs w = cfgs swap_world \<and>
     (case processQueues (snd (BringUp PullConsoleQueue 1 (BringDown PullConsoleQueue 0 w))) of None \<Rightarrow> False | Some w' \<Rightarrow>
        state (recs w' 0) = StateStarted \<and> state (recs w' 1) = StateStopped)"
    by (simp add: swap_world_def eval NoteRestart_def cong: eval_cong del: List.fold.simps)
  then obtain w w'' where w: "StartService 0 swap_world = Some w" "cfgs w = cfgs swap_world"
    "processQueues (snd (BringUp PullConsoleQueue 1 (BringDown PullConsoleQueue 0 w))) = Some w''"
    "state (recs w'' 0) = StateStarted" "state (recs w'' 1) = StateStopped"
    by (auto split: option.splits)
  obtain r ps' where "ActivateProfile [0, 1] ''b'' swap_tags w =
      (Inr r, ps', snd (BringUp PullConsoleQueue 1 (BringDown PullConsoleQueue 0 w)))"
    "res_Stopped r = [serviceName (cfgs w 0)]" "res_Started r = [serviceName (cfgs w 1)]"
    using swap_evaluates by blast
  moreover have "serviceName (cfgs swap_world 0) = ''sa''" "serviceName (cfgs swap_world 1) = ''sb''"
    by (simp_all add: swap_world_def)
  ultimately show ?thesis using w by auto
qed

end
