(* ===== verification/Connection.thy ===== *)
theory Connection
  imports Depth Profile Protocol Environment LogBuffer
begin

text \<open>
  The control connection (\<open>pkg/control/connection.go\<close>) and the part of the server it uses
  (\<open>server.go\<close>).  A handler takes the connection and the server and gives \<open>None\<close> when the call does not
  come back (a run of the queues that does not end, a panic), and otherwise whether the last write
  succeeded and the new states.  What the handlers read from outside (the configuration of a service
  that the state machine does not use, files, the answers of the kernel, the loader) are fields of the
  server.
\<close>

unbundle bit_operations_syntax

section \<open>State\<close>

text \<open>Fields of a \<open>ServiceRecord\<close> that only the control connection uses.\<close>

record svc_meta =
  refuseManualStart :: bool
  refuseManualStop :: bool
  enableVia :: string
  serviceDir :: string
  reloadSignal :: signal
  description :: string
  author :: string
  version :: string
  usage :: string
  bundleMembers :: "string list"
  extraCommands :: "(string \<times> string list) list"
  extraStartedCommands :: "(string \<times> string list) list"
  controlCommands :: "(string \<times> string list) list"
  logType :: LogType
  logFile :: string
  logConsumer :: "svc option"
  consumerFor :: "svc option"
  provides :: string
  loadModTime :: "int option"
  freezable :: bool

datatype load_error = NotFoundErr | ParseErr | LoadErr | OtherErr

datatype server_effect =
    ShutdownFunc byte
  | WallFunc byte duration bool string
  | WallReminder byte duration string
  | WallNotice string
  | PersistEnable svc svc
  | PersistDisable svc svc
  | ControlCommand svc string
  | SignalSent svc signal
  | FreezerWrite svc bool

record Server =
  services :: world
  depths :: depths
  profiles :: profile_state
  globals :: GlobalEnv
  extraEnv :: "svc \<Rightarrow> (string \<times> string) list"
  meta :: "svc \<Rightarrow> svc_meta"
  paused :: "svc \<Rightarrow> bool"
  logBuffers :: "svc \<Rightarrow> LogBuffer option"
  nextLink :: depid
  pins :: "(string \<times> string) list"
  pinsEnabled :: bool
  scheduledTimer :: bool
  scheduledReminders :: "duration list"
  scheduledType :: byte
  scheduledDeadline :: "instant option"
  scheduledMessage :: string
  kernelUptime :: duration
  bootStartTime :: "instant option"
  loadError :: "string \<Rightarrow> load_error"
  hasLoader :: bool
  ReloadService :: "svc \<Rightarrow> world \<Rightarrow> svc option \<times> world"
  serviceDirs :: "string list"
  cwd :: string
  absPath :: "string \<Rightarrow> string option"
  readFile :: "string \<Rightarrow> string option"
  killOk :: "svc \<Rightarrow> signal \<Rightarrow> bool"
  killError :: string
  freezerOk :: "svc \<Rightarrow> bool"
  runAction :: "string list \<Rightarrow> string option \<times> string"
  effects :: "server_effect list"

record Connection =
  connId :: nat
  handles :: "(u32 \<times> svc) list"
  revHandles :: "(svc \<times> u32) list"
  nextHandle :: u32
  listenEnv :: bool
  connClosed :: bool
  writable :: bool
  peerAuthorized :: bool
  replies :: "(byte \<times> bytes) list"

type_synonym ctl = "Connection \<times> Server"
type_synonym handler = "ctl \<Rightarrow> (bool \<times> ctl) option"

definition raw :: "string \<Rightarrow> bytes" where
  "raw s = map of_char s"

definition str :: "bytes \<Rightarrow> string" where
  "str b = map (\<lambda>x. char_of (unat x)) b"

definition newConnection :: "nat \<Rightarrow> u32 option \<Rightarrow> u32 \<Rightarrow> Connection" where
  "newConnection i peer ownUID =
    \<lparr>connId = i, handles = [], revHandles = [], nextHandle = 1, listenEnv = False, connClosed = False, writable = True,
     peerAuthorized = (case peer of None \<Rightarrow> False | Some uid \<Rightarrow> uid = 0 \<or> uid = ownUID), replies = []\<rparr>"

section \<open>Handlers in sequence\<close>

text \<open>A handler stops at the first write that fails; the last packet decides its result.\<close>

definition writePacket :: "byte \<Rightarrow> bytes \<Rightarrow> Connection \<Rightarrow> bool \<times> Connection" where
  "writePacket pktType payload c =
    (if connClosed c then (False, c)
     else case fst (WritePacket (\<lambda>_. writable c) pktType payload) of
       None \<Rightarrow> (True, c\<lparr>replies := replies c @ [(pktType, payload)]\<rparr>)
     | Some e \<Rightarrow> (False, c))"

definition rply :: "string \<Rightarrow> byte" where
  "rply name = the (map_of reply_codes name)"

definition reply :: "string \<Rightarrow> bytes \<Rightarrow> handler" where
  "reply name payload = (\<lambda>(c, sv). let (ok, c) = writePacket (rply name) payload c in Some (ok, c, sv))"

primrec steps :: "handler list \<Rightarrow> handler" where
  "steps [] x = Some (True, x)"
| "steps (h # hs) x = (case h x of None \<Rightarrow> None | Some (ok, x') \<Rightarrow> if ok then steps hs x' else Some (False, x'))"

definition on_world :: "(world \<Rightarrow> world option) \<Rightarrow> handler" where
  "on_world f = (\<lambda>(c, sv). case f (services sv) of None \<Rightarrow> None | Some w \<Rightarrow> Some (True, c, sv\<lparr>services := w\<rparr>))"

definition on_server :: "(Server \<Rightarrow> Server) \<Rightarrow> handler" where
  "on_server f = (\<lambda>(c, sv). Some (True, c, f sv))"

definition skip :: handler where
  "skip x = Some (True, x)"

abbreviation BadReq :: handler where
  "BadReq \<equiv> reply ''RplyBadReq'' []"

abbreviation ACK :: handler where
  "ACK \<equiv> reply ''RplyACK'' []"

abbreviation NAK :: handler where
  "NAK \<equiv> reply ''RplyNAK'' []"

section \<open>Handles and listeners\<close>

definition AddListener :: "nat \<Rightarrow> svc \<Rightarrow> world \<Rightarrow> world" where
  "AddListener l s = modr s (\<lambda>r. r\<lparr>listeners := listeners r @ [l]\<rparr>)"

definition RemoveListener :: "nat \<Rightarrow> svc \<Rightarrow> world \<Rightarrow> world" where
  "RemoveListener l s = modr s (\<lambda>r. r\<lparr>listeners := swap_remove l (listeners r)\<rparr>)"

definition getService :: "u32 \<Rightarrow> Connection \<Rightarrow> svc option" where
  "getService h c = map_of (handles c) h"

definition findHandle :: "svc \<Rightarrow> Connection \<Rightarrow> u32 option" where
  "findHandle s c = map_of (revHandles c) s"

definition allocHandle :: "svc \<Rightarrow> ctl \<Rightarrow> u32 \<times> ctl" where
  "allocHandle s x =
    (let (c, sv) = x in
     case findHandle s c of
       Some h \<Rightarrow> (h, c, sv)
     | None \<Rightarrow>
        let h = nextHandle c in
        (h, c\<lparr>nextHandle := nextHandle c + 1, handles := map_put h s (handles c), revHandles := map_put s h (revHandles c)\<rparr>,
         sv\<lparr>services := AddListener (connId c) s (services sv)\<rparr>))"

definition close_conn :: "ctl \<Rightarrow> ctl" where
  "close_conn x =
    (let (c, sv) = x in
     if connClosed c then x
     else
       (c\<lparr>connClosed := True\<rparr>,
        sv\<lparr>services := fold (RemoveListener (connId c)) (map fst (revHandles c)) (services sv),
           globals := (if listenEnv c then RemoveEnvListener (connId c) (globals sv) else globals sv)\<rparr>))"

text \<open>
  The frame of most handlers: the payload starts with a handle, and the handle names a service.
\<close>

definition on_service :: "bytes \<Rightarrow> (svc \<Rightarrow> handler) \<Rightarrow> handler" where
  "on_service payload k x =
    (case DecodeHandle payload of
       Inl e \<Rightarrow> BadReq x
     | Inr h \<Rightarrow> (case getService h (fst x) of None \<Rightarrow> BadReq x | Some s \<Rightarrow> k s x))"

text \<open>The optional flags byte after the handle.\<close>

definition flags_of :: "bytes \<Rightarrow> byte" where
  "flags_of payload = (if length payload \<ge> 5 then payload ! 4 else 0)"

definition sendPreACK :: "byte \<Rightarrow> handler" where
  "sendPreACK flags = (if flags AND 0x80 \<noteq> 0 then reply ''RplyPreACK'' [] else skip)"

end
