(* ===== verification/ServiceName.thy ===== *)
theory ServiceName
  imports Wire
begin

text \<open>
  The validation of service names, \<open>pkg/config/validate.go\<close>. The control connection calls it on the
  names of its requests and the configuration parser on the names of the dependency settings.
\<close>

text \<open>
  \<open>ValidateServiceName\<close> (\<open>pkg/config/validate.go\<close>).  A rune of value 128 or more is made of bytes of value
  128 or more, and no byte of another rune is; skipping the bytes one by one passes over the same names.
\<close>

definition MaxServiceNameLen :: nat where
  "MaxServiceNameLen = 65535"

definition name_byte_ok :: "byte \<Rightarrow> bool" where
  "name_byte_ok ch \<longleftrightarrow>
    ch \<ge> 128 \<or> (97 \<le> ch \<and> ch \<le> 122) \<or> (65 \<le> ch \<and> ch \<le> 90) \<or> (48 \<le> ch \<and> ch \<le> 57) \<or>
    ch = 46 \<or> ch = 95 \<or> ch = 45 \<or> ch = 47"

definition ValidateServiceName :: "bytes \<Rightarrow> bool" where
  "ValidateServiceName name \<longleftrightarrow>
    name \<noteq> [] \<and> length name \<le> MaxServiceNameLen \<and> hd name \<noteq> 46 \<and> hd name \<noteq> 64 \<and>
    list_all name_byte_ok (takeWhile (\<lambda>b. b \<noteq> 64) name)"

end
