(* ===== verification/Handlers.thy ===== *)
theory Handlers
  imports Connection ServiceName
begin

text \<open>
  The command handlers of the control connection and \<open>dispatch\<close>, in the order of the groups of
  \<open>pkg/control/connection.go\<close>: requests to the state machine, handles and queries, dependencies,
  signals, environment, shutdown, profiles, reload and unload.
\<close>

unbundle bit_operations_syntax

section \<open>Finding and loading services\<close>

definition service_record :: "svc \<Rightarrow> handler" where
  "service_record s x =
    (let (h, x) = allocHandle s x; r = recs (services (snd x)) s in
     reply ''RplyServiceRecord'' (iota_ServiceState (state r) # PutUint32 h @ [iota_ServiceState (desired r)]) x)"

definition handleQueryVersion :: handler where
  "handleQueryVersion = reply ''RplyCPVersion'' (PutUint16 MinCompatVersion @ PutUint16 CPVersion)"

definition handleFindService :: "bytes \<Rightarrow> handler" where
  "handleFindService payload x =
    (case DecodeServiceName payload of
       Inl e \<Rightarrow> BadReq x
     | Inr (name, _) \<Rightarrow>
        if \<not> ValidateServiceName name then BadReq x
        else (case FindService (str name) (services (snd x)) of
          None \<Rightarrow> reply ''RplyNoService'' [] x
        | Some s \<Rightarrow> service_record s x))"

definition load_failed :: "load_error \<Rightarrow> handler" where
  "load_failed e = reply (case e of
     NotFoundErr \<Rightarrow> ''RplyNoService'' | ParseErr \<Rightarrow> ''RplyServiceDescErr''
   | LoadErr \<Rightarrow> ''RplyServiceLoadErr2'' | OtherErr \<Rightarrow> ''RplyServiceLoadErr'') []"

definition load :: "string \<Rightarrow> handler" where
  "load name = on_world (\<lambda>w. Some (snd (LoadService name w)))"

definition handleLoadService :: "bytes \<Rightarrow> handler" where
  "handleLoadService payload x =
    (case DecodeServiceName payload of
       Inl e \<Rightarrow> BadReq x
     | Inr (name, _) \<Rightarrow>
        if \<not> ValidateServiceName name then BadReq x
        else (case fst (LoadService (str name) (services (snd x))) of
          None \<Rightarrow> steps [load (str name), load_failed (loadError (snd x) (str name))] x
        | Some s \<Rightarrow> steps [load (str name), service_record s] x))"

section \<open>Requests to the state machine\<close>

definition set_pin :: "string \<Rightarrow> svc \<Rightarrow> handler" where
  "set_pin intent s = on_server (\<lambda>sv.
     if pinsEnabled sv then sv\<lparr>pins := map_put (serviceName (cfgs (services sv) s)) intent (pins sv)\<rparr> else sv)"

definition clear_pin :: "svc \<Rightarrow> handler" where
  "clear_pin s = on_server (\<lambda>sv.
     if pinsEnabled sv then sv\<lparr>pins := map_delete (serviceName (cfgs (services sv) s)) (pins sv)\<rparr> else sv)"

definition pin_started :: "svc \<Rightarrow> handler" where
  "pin_started s = steps [on_world (\<lambda>w. Some (PinStart s w)), set_pin ''pinned-started'' s]"

definition handleStartService :: "bytes \<Rightarrow> handler" where
  "handleStartService payload = on_service payload (\<lambda>s x.
    let flags = flags_of payload; w = services (snd x) in
    if IsShuttingDown w then reply ''RplyShuttingDown'' [] x
    else if state (recs w s) = StateStarted then reply ''RplyAlreadySS'' [] x
    else if pinnedStopped (recs w s) then reply ''RplyPinnedStopped'' [] x
    else if refuseManualStart (meta (snd x) s) then reply ''RplyManualRefused'' [] x
    else steps [
      sendPreACK flags,
      on_world (StartService s),
      if flags AND 0x01 \<noteq> 0 then pin_started s else skip,
      ACK] x)"

definition handleWakeService :: "bytes \<Rightarrow> handler" where
  "handleWakeService payload = on_service payload (\<lambda>s x.
    let w = services (snd x) in
    if IsShuttingDown w then reply ''RplyShuttingDown'' [] x
    else if state (recs w s) = StateStarted then reply ''RplyAlreadySS'' [] x
    else if pinnedStopped (recs w s) then NAK x
    else steps [
      sendPreACK (flags_of payload),
      on_world (WakeService s),
      if fst (Wake s w) then ACK else NAK] x)"

definition handleStopService :: "bytes \<Rightarrow> handler" where
  "handleStopService payload = on_service payload (\<lambda>s x.
    let flags = flags_of payload; w = services (snd x);
        pin = flags AND 0x01 \<noteq> 0; force = flags AND 0x02 \<noteq> 0; restart = flags AND 0x04 \<noteq> 0 in
    if state (recs w s) = StateStopped then reply ''RplyAlreadySS'' [] x
    else if \<not> force \<and> IsStartPinned (recs w s) then reply ''RplyPinnedStarted'' [] x
    else if \<not> force \<and> refuseManualStop (meta (snd x) s) then reply ''RplyManualRefused'' [] x
    else steps [
      sendPreACK flags,
      on_world (if force then ForceStopService s else StopService s),
      if pin then steps [on_world (\<lambda>w. Some (PinStop s w)), set_pin ''pinned-stopped'' s] else skip,
      if restart then steps [on_world (StartService s), if pin then pin_started s else skip] else skip,
      ACK] x)"

definition handleReleaseService :: "bytes \<Rightarrow> handler" where
  "handleReleaseService payload = on_service payload (\<lambda>s x.
    if state (recs (services (snd x)) s) = StateStopped then reply ''RplyAlreadySS'' [] x
    else steps [
      sendPreACK (flags_of payload),
      on_world (\<lambda>w. processQueues (Stop False s w)),
      ACK] x)"

definition handleUnpinService :: "bytes \<Rightarrow> handler" where
  "handleUnpinService payload = on_service payload (\<lambda>s. steps [
     on_world (\<lambda>w. Some (Unpin s w)), clear_pin s, on_world processQueues, ACK])"

definition SetAutoRestart :: "AutoRestartMode \<Rightarrow> svc \<Rightarrow> world \<Rightarrow> world" where
  "SetAutoRestart mode s w = w\<lparr>cfgs := (cfgs w)(s := cfgs w s\<lparr>autoRestart := mode\<rparr>)\<rparr>"

definition handleOnceService :: "bytes \<Rightarrow> handler" where
  "handleOnceService payload = on_service payload (\<lambda>s x.
    if IsShuttingDown (services (snd x)) then reply ''RplyShuttingDown'' [] x
    else steps [on_world (\<lambda>w. Some (SetAutoRestart RestartNever s w)), on_world (StartService s), ACK] x)"

definition handleSetTrigger :: "bytes \<Rightarrow> handler" where
  "handleSetTrigger payload x =
    (if length payload < 5 then BadReq x
     else on_service payload (\<lambda>s x.
       if impl (cfgs (services (snd x)) s) \<noteq> Triggered then NAK x
       else steps [
         on_world (\<lambda>w. Some (SetTrigger (payload ! 4 \<noteq> 0) s w)),
         on_world processQueues,
         ACK] x) x)"

definition ResetFailed :: "svc \<Rightarrow> world \<Rightarrow> world" where
  "ResetFailed s = modr s (\<lambda>r. r\<lparr>startFailed := False\<rparr>)"

definition handleResetFailed :: "bytes \<Rightarrow> handler" where
  "handleResetFailed payload x =
    (if payload = [] then steps [on_world (\<lambda>w. Some (fold ResetFailed (svcs w) w)), ACK] x
     else on_service payload (\<lambda>s. steps [on_world (\<lambda>w. Some (ResetFailed s w)), ACK]) x)"

section \<open>Handles and status queries\<close>

definition handleCloseHandle :: "bytes \<Rightarrow> handler" where
  "handleCloseHandle payload x =
    (case DecodeHandle payload of
       Inl e \<Rightarrow> BadReq x
     | Inr h \<Rightarrow>
        let (c, sv) = x; found = getService h c; c = c\<lparr>handles := map_delete h (handles c)\<rparr> in
        (case found of
           None \<Rightarrow> ACK (c, sv)
         | Some s \<Rightarrow>
            if findHandle s c = Some h then
              (case find (\<lambda>(_, t). t = s) (handles c) of
                 Some (h', _) \<Rightarrow> ACK (c\<lparr>revHandles := map_put s h' (revHandles c)\<rparr>, sv)
               | None \<Rightarrow> ACK (c\<lparr>revHandles := map_delete s (revHandles c)\<rparr>,
                   sv\<lparr>services := RemoveListener (connId c) s (services sv)\<rparr>))
            else ACK (c, sv)))"

definition svc_PID :: "svc \<Rightarrow> world \<Rightarrow> int" where
  "svc_PID s w =
    (case impl (cfgs w s) of
       Process \<Rightarrow> pid (procs w s)
     | Scripted \<Rightarrow> if pid (procs w s) > 0 then pid (procs w s) else stopPID (procs w s)
     | _ \<Rightarrow> -1)"

definition svc_Type :: "svc \<Rightarrow> world \<Rightarrow> ServiceType" where
  "svc_Type s w =
    (case impl (cfgs w s) of Internal \<Rightarrow> TypeInternal | Triggered \<Rightarrow> TypeTriggered | Scripted \<Rightarrow> TypeScripted
     | Process \<Rightarrow> TypeProcess)"

definition view :: "svc \<Rightarrow> Server \<Rightarrow> svc_view" where
  "view s sv =
    (let w = services sv; r = recs w s in
     \<lparr>sv_Name = raw (serviceName (cfgs w s)), sv_State = state r, sv_TargetState = desired r, sv_Type = svc_Type s w,
      sv_PID = svc_PID s w, sv_IsMarkedActive = startExplicit r, sv_HasConsole = haveConsole r,
      sv_DidStartFail = startFailed r, sv_StopReason = stopReason r, sv_ExitStatus = GetExitStatus s w,
      sv_LoadModTime = loadModTime (meta sv s)\<rparr>)"

text \<open>Called by the state machine on every registered connection.\<close>

definition ServiceEvent_notify :: "svc \<Rightarrow> ServiceEvent \<Rightarrow> ctl \<Rightarrow> ctl" where
  "ServiceEvent_notify s ev x =
    (let (c, sv) = x in
     case findHandle s c of
       None \<Rightarrow> x
     | Some h \<Rightarrow>
        let c = snd (writePacket 101 (EncodeServiceEvent5 h (iota_ServiceEvent ev) (view s sv)) c)
        in (snd (writePacket 100 (EncodeServiceEvent h (iota_ServiceEvent ev) (view s sv)) c), sv))"

definition handleServiceStatus :: "(svc_view \<Rightarrow> bytes) \<Rightarrow> bytes \<Rightarrow> handler" where
  "handleServiceStatus encode payload =
    on_service payload (\<lambda>s x. reply ''RplyServiceStatus'' (encode (view s (snd x))) x)"

definition handleListServices :: "(svc_view \<Rightarrow> bytes) \<Rightarrow> handler" where
  "handleListServices encode x =
    steps (map (\<lambda>s. reply ''RplySvcInfo'' (encode (view s (snd x)))) (svcs (services (snd x))) @ [reply ''RplyListDone'' []]) x"

definition boot_entry :: "Server \<Rightarrow> svc \<Rightarrow> BootTimeEntry" where
  "boot_entry sv s =
    (let w = services sv; r = recs w s;
         dur = (case (startedTime r, startRequestTime r) of (Some b, Some a) \<Rightarrow> b - a | _ \<Rightarrow> 0) in
     \<lparr>bt_Name = raw (serviceName (cfgs w s)), StartupNs = (if dur > 0 then dur else 0),
      bt_State = iota_ServiceState (state r), bt_SvcType = iota_ServiceType (svc_Type s w),
      bt_PID = sint (word_of_int (svc_PID s w) :: u32)\<rparr>)"

definition handleBootTime :: handler where
  "handleBootTime x =
    (let sv = snd x; w = services sv in
     reply ''RplyBootTime'' (EncodeBootTime
       \<lparr>KernelUptimeNs = kernelUptime sv, BootStartNs = (case bootStartTime sv of None \<Rightarrow> 0 | Some t \<Rightarrow> t),
        BootReadyNs = (case bootReadyTime w of None \<Rightarrow> 0 | Some t \<Rightarrow> t), BootSvcName = raw (bootServiceName w),
        Services = map (boot_entry sv) (svcs w)\<rparr>) x)"

definition handleQueryServiceName :: "bytes \<Rightarrow> handler" where
  "handleQueryServiceName payload = on_service payload (\<lambda>s x.
     reply ''RplyServiceName'' (EncodeServiceName (raw (serviceName (cfgs (services (snd x)) s)))) x)"

definition handleQueryDescription :: "bytes \<Rightarrow> handler" where
  "handleQueryDescription payload = on_service payload (\<lambda>s x.
     reply ''RplyDescription'' (EncodeServiceName (raw (description (meta (snd x) s)))) x)"

definition handleQueryMetadata :: "bytes \<Rightarrow> handler" where
  "handleQueryMetadata payload = on_service payload (\<lambda>s x.
     let m = meta (snd x) s in
     reply ''RplyMetadata'' (EncodeMetadata (raw (author m)) (raw (version m)) (raw (usage m))) x)"

definition handleQueryBundleMembers :: "bytes \<Rightarrow> handler" where
  "handleQueryBundleMembers payload = on_service payload (\<lambda>s x.
     reply ''RplyBundleMembers'' (EncodeStringList (map raw (bundleMembers (meta (snd x) s)))) x)"

definition alloc_all :: "svc list \<Rightarrow> ctl \<Rightarrow> u32 list \<times> ctl" where
  "alloc_all ss x = fold (\<lambda>s (hs, x). let (h, x) = allocHandle s x in (hs @ [h], x)) ss ([], x)"

definition handleQueryDependents :: "bytes \<Rightarrow> handler" where
  "handleQueryDependents payload = on_service payload (\<lambda>s x.
     let ds = users (services (snd x)) s; (hs, x) = alloc_all ds x in
     reply ''RplyDependents'' (PutUint32 (of_nat (length ds)) @ concat (map PutUint32 hs)) x)"

definition handleQueryDependencies :: "bytes \<Rightarrow> handler" where
  "handleQueryDependencies payload = on_service payload (\<lambda>s x.
     let w = services (snd x); ds = dependsOn (recs w s); (hs, x) = alloc_all (nexts w s) x in
     reply ''RplyDependencies'' (PutUint32 (of_nat (length ds)) @
       concat (map2 (\<lambda>h d. PutUint32 h @ [iota_DependencyType (DepType (deps w d))]) hs ds)) x)"

section \<open>Dependencies\<close>

definition dep_type :: "byte \<Rightarrow> DependencyType option" where
  "dep_type b = find (\<lambda>ty. iota_DependencyType ty = b)
     [DepRegular, DepSoft, DepWaitsFor, DepMilestone, DepBefore, DepAfter, DepPreparedBy]"

text \<open>A recalculation of depths, committed when it succeeds and rolled back otherwise.\<close>

definition update_depths :: "svc list \<Rightarrow> world \<Rightarrow> depths \<Rightarrow> (bool \<times> depths) option" where
  "update_depths ss w dp =
    (case ProcessUpdates w dp (fold (\<lambda>s. AddPotentialUpdate s dp) ss new_updater) of
       None \<Rightarrow> None
     | Some (ok, dp', u) \<Rightarrow> Some (ok, if ok then dp' else fst (Rollback dp' u)))"

definition dep_services :: "bytes \<Rightarrow> (svc \<Rightarrow> svc \<Rightarrow> byte \<Rightarrow> handler) \<Rightarrow> handler" where
  "dep_services payload k x =
    (case DecodeDepRequest payload of
       Inl e \<Rightarrow> BadReq x
     | Inr (hFrom, hTo, depType) \<Rightarrow>
        (case (getService hFrom (fst x), getService hTo (fst x)) of
           (Some fr, Some to) \<Rightarrow> k fr to depType x
         | _ \<Rightarrow> BadReq x))"

definition add_link :: "svc \<Rightarrow> svc \<Rightarrow> DependencyType \<Rightarrow> Server \<Rightarrow> Server" where
  "add_link fr to ty sv = sv\<lparr>services := AddDep (nextLink sv) fr to ty (services sv), nextLink := Suc (nextLink sv)\<rparr>"

definition link_to :: "svc \<Rightarrow> svc \<Rightarrow> DependencyType \<Rightarrow> handler" where
  "link_to fr to ty = (\<lambda>(c, sv). Some (True, c, add_link fr to ty sv))"

definition unlink :: "svc \<Rightarrow> svc \<Rightarrow> DependencyType \<Rightarrow> handler" where
  "unlink fr to ty = on_world (\<lambda>w. Some (snd (RmDep fr to ty w)))"

definition set_depths :: "depths \<Rightarrow> handler" where
  "set_depths dp = on_server (\<lambda>sv. sv\<lparr>depths := dp\<rparr>)"

definition recalculate_added :: "svc \<Rightarrow> svc \<Rightarrow> DependencyType \<Rightarrow> handler" where
  "recalculate_added fr to ty x =
    (case update_depths [fr] (services (snd x)) (depths (snd x)) of
       None \<Rightarrow> None
     | Some (ok, dp) \<Rightarrow>
        if ok then steps [set_depths dp, ACK] x
        else steps [unlink fr to ty, set_depths dp, NAK] x)"

definition recalculate_removed :: "svc \<Rightarrow> handler" where
  "recalculate_removed fr x =
    (case update_depths (fr # users (services (snd x)) fr) (services (snd x)) (depths (snd x)) of
       None \<Rightarrow> None
     | Some (ok, dp) \<Rightarrow> set_depths dp x)"

definition handleAddDep :: "bytes \<Rightarrow> handler" where
  "handleAddDep payload = dep_services payload (\<lambda>fr to depType x.
    if fr = to then NAK x
    else (case (if depType > 5 then None else dep_type depType) of
      None \<Rightarrow> BadReq x
    | Some ty \<Rightarrow>
       (case CheckCircularDep fr to (services (snd x)) of
          None \<Rightarrow> None
        | Some circular \<Rightarrow>
           if circular then NAK x
           else steps [link_to fr to ty, recalculate_added fr to ty] x)))"

definition handleRmDep :: "bytes \<Rightarrow> handler" where
  "handleRmDep payload = dep_services payload (\<lambda>fr to depType x.
    (case (if depType > 5 then None else dep_type depType) of
      None \<Rightarrow> BadReq x
    | Some ty \<Rightarrow>
       if \<not> fst (RmDep fr to ty (services (snd x))) then NAK x
       else steps [unlink fr to ty, recalculate_removed fr, on_world processQueues, ACK] x))"

text \<open>The service that is to depend on the target: named by a handle, by the target, or the boot service.\<close>

definition explicit_from :: "bytes \<Rightarrow> Connection \<Rightarrow> svc option" where
  "explicit_from payload c =
    (if length payload \<ge> 8 then
       (case Uint32 (drop 4 payload) of Inr h \<Rightarrow> getService h c | Inl _ \<Rightarrow> None)
     else None)"

definition from_name :: "svc \<Rightarrow> Server \<Rightarrow> string" where
  "from_name s sv = (if enableVia (meta sv s) = '''' then bootServiceName (services sv) else enableVia (meta sv s))"

definition persistEnable :: "svc \<Rightarrow> svc \<Rightarrow> Server \<Rightarrow> Server" where
  "persistEnable fr to sv =
    (if serviceDir (meta sv fr) = '''' then sv else sv\<lparr>effects := effects sv @ [PersistEnable fr to]\<rparr>)"

definition persistDisable :: "svc \<Rightarrow> svc \<Rightarrow> Server \<Rightarrow> Server" where
  "persistDisable fr to sv =
    (if serviceDir (meta sv fr) = '''' then sv else sv\<lparr>effects := effects sv @ [PersistDisable fr to]\<rparr>)"

definition dep_exists :: "svc \<Rightarrow> svc \<Rightarrow> world \<Rightarrow> bool" where
  "dep_exists fr to w = list_ex (\<lambda>d. To (deps w d) = to \<and> DepType (deps w d) \<noteq> DepBefore \<and> DepType (deps w d) \<noteq> DepAfter)
     (dependsOn (recs w fr))"

definition enable_finish :: "bool \<Rightarrow> bool \<Rightarrow> svc \<Rightarrow> handler" where
  "enable_finish v7 depExists s = steps [
     on_world (StartService s),
     \<lambda>x. if v7 then reply ''RplyServiceStatus'' ((if depExists then 1 else 0) # EncodeServiceStatus6 (view s (snd x))) x
         else ACK x]"

definition enable_from :: "bool \<Rightarrow> svc \<Rightarrow> svc \<Rightarrow> handler" where
  "enable_from v7 s fr x =
    (if dep_exists fr s (services (snd x)) then enable_finish v7 True s x
     else (case CheckCircularDep fr s (services (snd x)) of
       None \<Rightarrow> None
     | Some circular \<Rightarrow>
        if circular then NAK x
        else steps [link_to fr s DepWaitsFor, on_server (persistEnable fr s), enable_finish v7 False s] x))"

definition handleEnableService :: "bool \<Rightarrow> bytes \<Rightarrow> handler" where
  "handleEnableService v7 payload = on_service payload (\<lambda>s x.
    if IsShuttingDown (services (snd x)) then reply ''RplyShuttingDown'' [] x
    else (case explicit_from payload (fst x) of
      Some fr \<Rightarrow> enable_from v7 s fr x
    | None \<Rightarrow>
       let name = from_name s (snd x) in
       if name = '''' then NAK x
       else (case fst (LoadService name (services (snd x))) of
         None \<Rightarrow> steps [load name, NAK] x
       | Some fr \<Rightarrow> steps [load name, enable_from v7 s fr] x)))"

definition disable_from :: "svc \<Rightarrow> svc \<Rightarrow> handler" where
  "disable_from s fr = steps [
     unlink fr s DepWaitsFor,
     on_server (persistDisable fr s),
     on_world (StopService s),
     ACK]"

definition handleDisableService :: "bytes \<Rightarrow> handler" where
  "handleDisableService payload = on_service payload (\<lambda>s x.
    (case explicit_from payload (fst x) of
      Some fr \<Rightarrow> disable_from s fr x
    | None \<Rightarrow>
       let name = from_name s (snd x) in
       if name = '''' then NAK x
       else (case FindService name (services (snd x)) of
         None \<Rightarrow> NAK x
       | Some fr \<Rightarrow> disable_from s fr x)))"

section \<open>Signals and actions\<close>

definition signalName :: "signal \<Rightarrow> string" where
  "signalName sig =
    (if sig = 15 then ''TERM'' else if sig = 1 then ''HUP'' else if sig = 2 then ''INT''
     else if sig = 3 then ''QUIT'' else if sig = 9 then ''KILL'' else if sig = 10 then ''USR1''
     else if sig = 12 then ''USR2'' else if sig = 14 then ''ALRM'' else if sig = 19 then ''STOP''
     else if sig = 18 then ''CONT''
     else if sig < 0 then CHR 45 # itoa (nat (- sig)) else itoa (nat sig))"

definition control_or_kill :: "string \<Rightarrow> signal \<Rightarrow> svc \<Rightarrow> Server \<Rightarrow> bool \<times> Server" where
  "control_or_kill name sig s sv =
    (case map_of (controlCommands (meta sv s)) name of
       Some (a # cmd) \<Rightarrow> (True, sv\<lparr>effects := effects sv @ [ControlCommand s name]\<rparr>)
     | _ \<Rightarrow> (killOk sv s sig, if killOk sv s sig then sv\<lparr>effects := effects sv @ [SignalSent s sig]\<rparr> else sv))"

definition SendSignalWithControl :: "signal \<Rightarrow> svc \<Rightarrow> Server \<Rightarrow> bool \<times> Server" where
  "SendSignalWithControl sig s sv =
    (if pid (procs (services sv) s) \<le> 0 then (False, sv) else control_or_kill (signalName sig) sig s sv)"

definition Pause :: "svc \<Rightarrow> Server \<Rightarrow> bool \<times> Server" where
  "Pause s sv =
    (if pid (procs (services sv) s) \<le> 0 \<or> paused sv s then (False, sv)
     else let (ok, sv) = control_or_kill ''STOP'' 19 s sv
       in if ok then (True, sv\<lparr>paused := (paused sv)(s := True)\<rparr>) else (False, sv))"

definition Continue :: "svc \<Rightarrow> Server \<Rightarrow> bool \<times> Server" where
  "Continue s sv =
    (if pid (procs (services sv) s) \<le> 0 \<or> \<not> paused sv s then (False, sv)
     else let (ok, sv) = control_or_kill ''CONT'' 18 s sv
       in if ok then (True, sv\<lparr>paused := (paused sv)(s := False)\<rparr>) else (False, sv))"

definition send_signal :: "signal \<Rightarrow> svc \<Rightarrow> handler" where
  "send_signal sig s x =
    (let (c, sv) = x in
     if svc_PID s (services sv) \<le> 0 then reply ''RplySignalNoPID'' [] x
     else if impl (cfgs (services sv) s) = Process then
       (let (ok, sv) = SendSignalWithControl sig s sv in
        if ok then ACK (c, sv) else reply ''RplySignalErr'' (raw ''signal failed'') (c, sv))
     else if killOk sv s sig then ACK (c, sv\<lparr>effects := effects sv @ [SignalSent s sig]\<rparr>)
     else reply ''RplySignalErr'' (raw (killError sv)) x)"

definition handleReloadSignal :: "bytes \<Rightarrow> handler" where
  "handleReloadSignal payload = on_service payload (\<lambda>s x.
    if reloadSignal (meta (snd x) s) = 0 then NAK x else send_signal (reloadSignal (meta (snd x) s)) s x)"

definition handleSignal :: "bytes \<Rightarrow> handler" where
  "handleSignal payload x =
    (if length payload < 8 then BadReq x
     else (case Uint32 (drop 4 payload) of
       Inl e \<Rightarrow> None
     | Inr sig \<Rightarrow> on_service payload (send_signal (uint sig)) x))"

definition pause_like :: "(svc \<Rightarrow> Server \<Rightarrow> bool \<times> Server) \<Rightarrow> bytes \<Rightarrow> handler" where
  "pause_like act payload = on_service payload (\<lambda>s x.
    if impl (cfgs (services (snd x)) s) \<noteq> Process then NAK x
    else let (ok, sv) = act s (snd x) in reply (if ok then ''RplyACK'' else ''RplyNAK'') [] (fst x, sv))"

definition handlePauseService :: "bytes \<Rightarrow> handler" where
  "handlePauseService = pause_like Pause"

definition handleContinueService :: "bytes \<Rightarrow> handler" where
  "handleContinueService = pause_like Continue"

definition handleFreezeService :: "bool \<Rightarrow> bytes \<Rightarrow> handler" where
  "handleFreezeService freeze payload = on_service payload (\<lambda>s x.
    if freezable (meta (snd x) s) \<and> freezerOk (snd x) s
    then steps [on_server (\<lambda>sv. sv\<lparr>effects := effects sv @ [FreezerWrite s freeze]\<rparr>), ACK] x
    else NAK x)"

definition LookupExtraCommand :: "string \<Rightarrow> svc \<Rightarrow> Server \<Rightarrow> string list option" where
  "LookupExtraCommand action s sv =
    (case map_of (extraCommands (meta sv s)) action of
       Some cmd \<Rightarrow> Some cmd
     | None \<Rightarrow> (case map_of (extraStartedCommands (meta sv s)) action of
         Some cmd \<Rightarrow> if state (recs (services sv) s) = StateStarted then Some cmd else None
       | None \<Rightarrow> None))"

definition ListExtraActions :: "svc \<Rightarrow> Server \<Rightarrow> string list" where
  "ListExtraActions s sv =
    (let always = map fst (extraCommands (meta sv s)) in
     always @ map (\<lambda>n. n @ ''*'') (filter (\<lambda>n. n \<notin> set always) (map fst (extraStartedCommands (meta sv s)))))"

definition join_lines :: "string list \<Rightarrow> string" where
  "join_lines ss = (case ss of [] \<Rightarrow> [] | a # r \<Rightarrow> a @ concat (map (\<lambda>l. CHR 10 # l) r))"

definition handleRunAction :: "bytes \<Rightarrow> handler" where
  "handleRunAction payload x =
    (if length payload < 6 then BadReq x
     else (case DecodeServiceName (drop 4 payload) of
       Inl e \<Rightarrow> BadReq x
     | Inr (name, _) \<Rightarrow> on_service payload (\<lambda>s x.
        (case LookupExtraCommand (str name) s (snd x) of
           None \<Rightarrow> reply ''RplyNAK'' (raw ''unknown action: '' @ name) x
         | Some [] \<Rightarrow> None
         | Some (a # args) \<Rightarrow>
            (case runAction (snd x) (a # args) of
               (Some err, output) \<Rightarrow>
                 reply ''RplyNAK'' (raw (''action '' @ [CHR 39] @ str name @ [CHR 39] @ '' failed: '' @ err @ [CHR 10] @ output)) x
             | (None, output) \<Rightarrow> reply ''RplyActionOutput'' (raw output) x))) x))"

definition handleListActions :: "bytes \<Rightarrow> handler" where
  "handleListActions payload = on_service payload (\<lambda>s x.
    reply ''RplyActionList'' (raw (join_lines (ListExtraActions s (snd x)))) x)"

section \<open>Logs\<close>

definition last_part :: "nat \<Rightarrow> string \<Rightarrow> string" where
  "last_part n data = drop (length data - n) data"

text \<open>\<open>readLogFileTail\<close> on the contents of the file: the line the cut goes through is dropped.\<close>

definition readLogFileTail :: "string \<Rightarrow> nat \<Rightarrow> string" where
  "readLogFileTail contents mx =
    (let data = last_part mx contents; rest = dropWhile (\<lambda>ch. ch \<noteq> CHR 10) data in
     if length contents > mx \<and> length rest \<ge> 2 then tl rest else data)"

definition handleCatLog :: "bytes \<Rightarrow> handler" where
  "handleCatLog payload x =
    (case DecodeCatLogRequest payload of
       Inl e \<Rightarrow> BadReq x
     | Inr (flags, h) \<Rightarrow>
        (let (c, sv) = x in
         (case getService h c of
            None \<Rightarrow> BadReq x
          | Some s \<Rightarrow>
             (case logType (meta sv s) of
                LogToBuffer \<Rightarrow>
                  (case logBuffers sv s of
                     None \<Rightarrow> NAK x
                   | Some b \<Rightarrow>
                      if flags AND CatLogFlagClear \<noteq> 0
                      then (let (data, b) = GetBufferAndClear b in
                            reply ''RplySvcLog'' (EncodeSvcLog (raw data)) (c, sv\<lparr>logBuffers := (logBuffers sv)(s := Some b)\<rparr>))
                      else reply ''RplySvcLog'' (EncodeSvcLog (raw (GetBuffer b))) x)
              | LogToFile \<Rightarrow>
                  if flags AND CatLogFlagClear \<noteq> 0 \<or> logFile (meta sv s) = '''' then NAK x
                  else (case readFile sv (logFile (meta sv s)) of
                     None \<Rightarrow> NAK x
                   | Some contents \<Rightarrow> reply ''RplySvcLog'' (EncodeSvcLog (raw (readLogFileTail contents 65536))) x)
              | _ \<Rightarrow> NAK x))))"

section \<open>Environment\<close>

text \<open>\<open>EnvEvent\<close>: the packets a change of the global environment sends to this connection.\<close>

definition env_notify :: "env_event list \<Rightarrow> handler" where
  "env_notify evs = (\<lambda>(c, sv). Some (True,
     fold (\<lambda>(l, var, override) c.
       if l = connId c then snd (writePacket 102 (EncodeEnvEvent (raw var) override) c) else c) evs c, sv))"

definition set_global :: "(GlobalEnv \<Rightarrow> (GlobalEnv \<times> env_event list) option) \<Rightarrow> handler" where
  "set_global f x =
    (case f (globals (snd x)) of
       None \<Rightarrow> None
     | Some (g, evs) \<Rightarrow> steps [on_server (\<lambda>sv. sv\<lparr>globals := g\<rparr>), env_notify evs] x)"

definition set_extra :: "((string \<times> string) list \<Rightarrow> (string \<times> string) list) \<Rightarrow> svc \<Rightarrow> handler" where
  "set_extra f s = on_server (\<lambda>sv. sv\<lparr>extraEnv := (extraEnv sv)(s := f (extraEnv sv s))\<rparr>)"

definition handleSetEnv :: "bytes \<Rightarrow> handler" where
  "handleSetEnv payload x =
    (case DecodeSetEnv payload of
       Inl e \<Rightarrow> BadReq x
     | Inr (h, key, value, isUnset) \<Rightarrow>
        if h = 0 then
          steps [set_global (if isUnset then GlobalUnsetEnv (str key) else GlobalSetEnv (str key) (str value)), ACK] x
        else (case getService h (fst x) of
          None \<Rightarrow> BadReq x
        | Some s \<Rightarrow>
           steps [set_extra (if isUnset then map_delete (str key) else map_put (str key) (str value)) s, ACK] x))"

definition handleResetEnv :: "bytes \<Rightarrow> handler" where
  "handleResetEnv payload x =
    (case DecodeHandle payload of
       Inl e \<Rightarrow> BadReq x
     | Inr h \<Rightarrow>
        if h = 0 then NAK x
        else (case getService h (fst x) of
          None \<Rightarrow> BadReq x
        | Some s \<Rightarrow> steps [set_extra (\<lambda>_. []) s, ACK] x))"

text \<open>A Go map is built from the entries, a later one replacing an earlier one of the same key.\<close>

definition cut_entries :: "string list \<Rightarrow> (string \<times> string) list" where
  "cut_entries es = fold (\<lambda>e m. case cut_eq e of None \<Rightarrow> m | Some (k, v) \<Rightarrow> map_put k v m) es []"

definition env_reply :: "(string \<times> string) list \<Rightarrow> handler" where
  "env_reply m = reply ''RplyEnvList'' (EncodeEnvList (map (\<lambda>(k, v). (raw k, raw v)) m))"

definition handleGetAllEnv :: "bytes \<Rightarrow> handler" where
  "handleGetAllEnv payload x =
    (case DecodeHandle payload of
       Inl e \<Rightarrow> BadReq x
     | Inr h \<Rightarrow>
        if h = 0 then
          (let (es, g) = GetGlobalEnv (globals (snd x)) in
           steps [on_server (\<lambda>sv. sv\<lparr>globals := g\<rparr>), env_reply (cut_entries es)] x)
        else (case getService h (fst x) of
          None \<Rightarrow> BadReq x
        | Some s \<Rightarrow> env_reply (extraEnv (snd x) s) x))"

definition handleListenEnv :: handler where
  "handleListenEnv x =
    (let (c, sv) = x in
     if listenEnv c then ACK x
     else ACK (c\<lparr>listenEnv := True\<rparr>, sv\<lparr>globals := AddEnvListener (connId c) (globals sv)\<rparr>))"

section \<open>Shutdown\<close>

definition emit_server :: "server_effect list \<Rightarrow> Server \<Rightarrow> Server" where
  "emit_server es sv = sv\<lparr>effects := effects sv @ es\<rparr>"

definition clearScheduled :: "Server \<Rightarrow> Server" where
  "clearScheduled sv = sv\<lparr>scheduledTimer := False, scheduledReminders := []\<rparr>"

definition minute :: duration where
  "minute = 60 * second"

text \<open>The reminder timers are kept as the time they leave until the deadline.\<close>

definition ScheduleShutdown :: "byte \<Rightarrow> duration \<Rightarrow> string \<Rightarrow> Server \<Rightarrow> Server" where
  "ScheduleShutdown st delay message sv =
    (let sv = clearScheduled sv in
     if delay \<le> 0 then emit_server [ShutdownFunc st] (sv\<lparr>scheduledDeadline := None\<rparr>)
     else emit_server [WallFunc st delay False message]
       (sv\<lparr>scheduledType := st, scheduledDeadline := Some (now (services sv) + delay), scheduledMessage := message,
          scheduledReminders := filter (\<lambda>r. delay > r) [5 * minute, 2 * minute, 1 * minute], scheduledTimer := True\<rparr>))"

definition scheduled_fires :: "Server \<Rightarrow> Server" where
  "scheduled_fires sv = emit_server [ShutdownFunc (scheduledType sv)]
     (sv\<lparr>scheduledDeadline := None, scheduledTimer := False, scheduledMessage := ''''\<rparr>)"

definition reminder_fires :: "duration \<Rightarrow> Server \<Rightarrow> Server" where
  "reminder_fires r sv = emit_server [WallReminder (scheduledType sv) r (scheduledMessage sv)]
     (sv\<lparr>scheduledReminders := remove1 r (scheduledReminders sv)\<rparr>)"

definition CancelShutdown :: "Server \<Rightarrow> bool \<times> Server" where
  "CancelShutdown sv =
    (if \<not> scheduledTimer sv then (False, sv)
     else (True, emit_server [WallFunc (scheduledType sv) 0 True (scheduledMessage sv)]
       (clearScheduled sv\<lparr>scheduledDeadline := None, scheduledMessage := ''''\<rparr>)))"

definition ScheduledShutdownInfo :: "Server \<Rightarrow> (byte \<times> duration) option" where
  "ScheduledShutdownInfo sv =
    (if \<not> scheduledTimer sv then None
     else map_option (\<lambda>t. (scheduledType sv, max 0 (t - now (services sv)))) (scheduledDeadline sv))"

definition handleShutdown :: "bytes \<Rightarrow> handler" where
  "handleShutdown payload x =
    (if length payload < 1 then BadReq x
     else steps [on_server (emit_server [ShutdownFunc (payload ! 0)]), ACK] x)"

definition be32 :: "bytes \<Rightarrow> u32" where
  "be32 b = push_bit 24 (ucast (b ! 0)) OR push_bit 16 (ucast (b ! 1)) OR push_bit 8 (ucast (b ! 2)) OR ucast (b ! 3)"

definition put_be32 :: "u32 \<Rightarrow> bytes" where
  "put_be32 n = [ucast (drop_bit 24 n), ucast (drop_bit 16 n), ucast (drop_bit 8 n), ucast n]"

definition schedule_message :: "bytes \<Rightarrow> string" where
  "schedule_message payload =
    (if length payload \<ge> 7 then
       (let msgLen = unat (payload ! 5) + 256 * unat (payload ! 6) in
        if msgLen > 0 \<and> 7 + msgLen \<le> length payload then str (take msgLen (drop 7 payload)) else '''')
     else '''')"

definition handleScheduleShutdown :: "bytes \<Rightarrow> handler" where
  "handleScheduleShutdown payload x =
    (if length payload < 5 then BadReq x
     else steps [
       on_server (ScheduleShutdown (payload ! 0) (uint (be32 (drop 1 payload)) * second) (schedule_message payload)),
       ACK] x)"

definition handleWallNotice :: "bytes \<Rightarrow> handler" where
  "handleWallNotice payload x =
    (if length payload < 2 then BadReq x
     else let msgLen = unat (payload ! 0) + 256 * unat (payload ! 1) in
       if msgLen = 0 \<or> length payload < 2 + msgLen then BadReq x
       else steps [on_server (emit_server [WallNotice (str (take msgLen (drop 2 payload)))]), ACK] x)"

definition handleCancelShutdown :: handler where
  "handleCancelShutdown x =
    (let (ok, sv) = CancelShutdown (snd x) in reply (if ok then ''RplyACK'' else ''RplyNAK'') [] (fst x, sv))"

text \<open>\<open>remaining.Seconds()\<close> is taken as an exact division.\<close>

definition handleQueryShutdown :: handler where
  "handleQueryShutdown x =
    (case ScheduledShutdownInfo (snd x) of
       None \<Rightarrow> NAK x
     | Some (st, remaining) \<Rightarrow>
        reply ''RplyShutdownStatus'' (st # put_be32 (word_of_int (remaining div second))) x)"

section \<open>Profiles\<close>

text \<open>The error message quotes the name with \<open>%q\<close>; the model writes it as it is, without escapes.\<close>

definition handleActivateProfile :: "bytes \<Rightarrow> handler" where
  "handleActivateProfile payload x =
    (case DecodeServiceName payload of
       Inl e \<Rightarrow> BadReq x
     | Inr (name, _) \<Rightarrow>
        (let (c, sv) = x; (res, ps, w) = ActivateProfile (svcs (services sv)) (str name) (profiles sv) (services sv);
             sv = sv\<lparr>profiles := ps, services := w\<rparr> in
         (case res of
            Inl (NoServiceDeclares p) \<Rightarrow>
              reply ''RplyNAK'' (raw ''no loaded service declares profile '' @ [34] @ raw p @ [34]) (c, sv)
          | Inr r \<Rightarrow>
              reply ''RplyActivateResult'' (EncodeActivateResult (raw (res_Active r)) (map raw (res_Stopped r))
                (map raw (res_Started r)) (map raw (res_Kept r))) (c, sv))))"

definition handleQueryProfile :: handler where
  "handleQueryProfile x = reply ''RplyProfile'' (EncodeServiceName (raw (activeProfile (profiles (snd x))))) x"

definition handleListProfiles :: handler where
  "handleListProfiles x =
    reply ''RplyProfileList'' (EncodeStringList (map raw (ListProfiles (svcs (services (snd x))) (profiles (snd x))))) x"

section \<open>Reload and unload\<close>

definition steady :: "svc \<Rightarrow> world \<Rightarrow> bool" where
  "steady s w \<longleftrightarrow> state (recs w s) = StateStopped \<or> state (recs w s) = StateStarted"

definition handleReloadService :: "bytes \<Rightarrow> handler" where
  "handleReloadService payload x =
    (case DecodeHandle payload of
       Inl e \<Rightarrow> BadReq x
     | Inr h \<Rightarrow>
        (let (c, sv) = x in
         (case getService h c of
            None \<Rightarrow> BadReq x
          | Some s \<Rightarrow>
             if \<not> steady s (services sv) \<or> \<not> hasLoader sv then NAK x
             else (case ReloadService sv s (services sv) of
               (None, w) \<Rightarrow> NAK (c, sv\<lparr>services := w\<rparr>)
             | (Some t, w) \<Rightarrow>
                steps [on_world processQueues, ACK]
                  (if t \<noteq> s then c\<lparr>handles := map_put h t (handles c)\<rparr> else c, sv\<lparr>services := w\<rparr>)))))"

definition replace_service :: "svc \<Rightarrow> svc \<Rightarrow> Connection \<Rightarrow> Connection" where
  "replace_service s t c =
    (case findHandle s c of
       None \<Rightarrow> c
     | Some h \<Rightarrow> c\<lparr>revHandles := map_put t h (map_delete s (revHandles c)), handles := map_put h t (handles c)\<rparr>)"

definition reload_one :: "svc \<Rightarrow> (u16 \<times> u16) \<times> ctl \<Rightarrow> (u16 \<times> u16) \<times> ctl" where
  "reload_one s a =
    (let ((ok, failed), c, sv) = a in
     if \<not> steady s (services sv) then a
     else (case ReloadService sv s (services sv) of
       (None, w) \<Rightarrow> ((ok, failed + 1), c, sv\<lparr>services := w\<rparr>)
     | (Some t, w) \<Rightarrow> ((ok + 1, failed), if t \<noteq> s then replace_service s t c else c, sv\<lparr>services := w\<rparr>)))"

definition handleReloadAll :: handler where
  "handleReloadAll x =
    (if \<not> hasLoader (snd x) then NAK x
     else let ((ok, failed), x) = fold reload_one (svcs (services (snd x))) ((0, 0), x) in
       steps [on_world processQueues, reply ''RplyReloadAllResult'' (PutUint16 ok @ PutUint16 failed)] x)"

definition HasLoneRef :: "nat \<Rightarrow> svc \<Rightarrow> Server \<Rightarrow> bool" where
  "HasLoneRef handleCount s sv \<longleftrightarrow>
    logConsumer (meta sv s) = None \<and>
    list_all (\<lambda>d. IsOnlyOrdering (deps (services sv) d)) (dependents (recs (services sv) s))"

definition unload_dependency :: "depid \<Rightarrow> world \<Rightarrow> world" where
  "unload_dependency d = run [
     unlink_dependent d,
     when_do (\<lambda>w. HoldingAcq (deps w d)) (\<lambda>w. Release (doStop False) False (To (deps w d)) w)]"

definition unload_dependent :: "depid \<Rightarrow> world \<Rightarrow> world" where
  "unload_dependent d w = modr (From (deps w d)) (\<lambda>r. r\<lparr>dependsOn := remove_first ((=) d) (dependsOn r)\<rparr>) w"

definition PrepareForUnload :: "svc \<Rightarrow> world \<Rightarrow> world" where
  "PrepareForUnload s = run [
     \<lambda>w. fold unload_dependency (dependsOn (recs w s)) w,
     modr s (\<lambda>r. r\<lparr>dependsOn := []\<rparr>),
     \<lambda>w. fold unload_dependent (dependents (recs w s)) w,
     modr s (\<lambda>r. r\<lparr>dependents := []\<rparr>)]"

definition unlink_consumers :: "svc \<Rightarrow> (svc \<Rightarrow> svc_meta) \<Rightarrow> svc \<Rightarrow> svc_meta" where
  "unlink_consumers s = run [
     \<lambda>m. case logConsumer (m s) of None \<Rightarrow> m | Some t \<Rightarrow> m(t := m t\<lparr>consumerFor := None\<rparr>),
     \<lambda>m. m(s := m s\<lparr>logConsumer := None\<rparr>),
     \<lambda>m. case consumerFor (m s) of None \<Rightarrow> m | Some t \<Rightarrow> m(t := m t\<lparr>logConsumer := None\<rparr>),
     \<lambda>m. m(s := m s\<lparr>consumerFor := None\<rparr>)]"

definition RemoveService :: "svc \<Rightarrow> string \<Rightarrow> world \<Rightarrow> world" where
  "RemoveService s alias w =
    w\<lparr>records := map_delete (serviceName (cfgs w s)) (records w),
      aliases := (if alias = '''' then aliases w else map_delete alias (aliases w))\<rparr>"

definition UnloadService :: "svc \<Rightarrow> Server \<Rightarrow> Server" where
  "UnloadService s sv =
    sv\<lparr>services := RemoveService s (provides (meta sv s)) (PrepareForUnload s (services sv)),
       meta := unlink_consumers s (meta sv)\<rparr>"

definition handleUnloadService :: "bytes \<Rightarrow> handler" where
  "handleUnloadService payload = on_service payload (\<lambda>s x.
    let (c, sv) = x in
    if state (recs (services sv) s) \<noteq> StateStopped then reply ''RplyNotStopped'' [] x
    else if \<not> HasLoneRef (length (filter (\<lambda>(_, t). t = s) (handles c))) s sv then NAK x
    else ACK (c\<lparr>handles := filter (\<lambda>(_, t). t \<noteq> s) (handles c), revHandles := map_delete s (revHandles c)\<rparr>,
              UnloadService s (sv\<lparr>services := RemoveListener (connId c) s (services sv)\<rparr>)))"

section \<open>The loader's directories\<close>

definition handleQueryServiceDscDir :: handler where
  "handleQueryServiceDscDir x =
    (let sv = snd x; dirs = (if hasLoader sv then map (\<lambda>d. case absPath sv d of Some a \<Rightarrow> a | None \<Rightarrow> d) (serviceDirs sv) else []) in
     reply ''RplyServiceDscDir'' (PutUint16 (of_nat (length dirs)) @
       concat (map (\<lambda>d. PutUint16 (of_nat (length d)) @ raw d) dirs)) x)"

definition handleQueryLoadMech :: handler where
  "handleQueryLoadMech x =
    (let sv = snd x; dirs = (if hasLoader sv then serviceDirs sv else []) in
     reply ''RplyLoaderMech'' (1 # PutUint32 (of_nat (length (cwd sv))) @ raw (cwd sv) @ PutUint32 (of_nat (length dirs)) @
       concat (map (\<lambda>d. PutUint32 (of_nat (length d)) @ raw d) dirs)) x)"

section \<open>Dispatch\<close>

definition command_name :: "byte \<Rightarrow> string option" where
  "command_name cmd = map_of (map (\<lambda>(n, b). (b, n)) command_codes) cmd"

definition handlers :: "bytes \<Rightarrow> (string \<times> handler) list" where
  "handlers payload =
   [(''CmdQueryVersion'', handleQueryVersion),
    (''CmdFindService'', handleFindService payload),
    (''CmdLoadService'', handleLoadService payload),
    (''CmdStartService'', handleStartService payload),
    (''CmdWakeService'', handleWakeService payload),
    (''CmdStopService'', handleStopService payload),
    (''CmdReleaseService'', handleReleaseService payload),
    (''CmdListServices'', handleListServices EncodeSvcInfo),
    (''CmdBootTime'', handleBootTime),
    (''CmdCatLog'', handleCatLog payload),
    (''CmdServiceStatus'', handleServiceStatus EncodeServiceStatus payload),
    (''CmdShutdown'', handleShutdown payload),
    (''CmdCloseHandle'', handleCloseHandle payload),
    (''CmdSetTrigger'', handleSetTrigger payload),
    (''CmdSignal'', handleSignal payload),
    (''CmdUnpinService'', handleUnpinService payload),
    (''CmdReloadService'', handleReloadService payload),
    (''CmdReloadAll'', handleReloadAll),
    (''CmdReloadSignal'', handleReloadSignal payload),
    (''CmdUnloadService'', handleUnloadService payload),
    (''CmdSetEnv'', handleSetEnv payload),
    (''CmdGetAllEnv'', handleGetAllEnv payload),
    (''CmdResetEnv'', handleResetEnv payload),
    (''CmdAddDep'', handleAddDep payload),
    (''CmdRmDep'', handleRmDep payload),
    (''CmdEnableService'', handleEnableService False payload),
    (''CmdEnableServiceV7'', handleEnableService True payload),
    (''CmdDisableService'', handleDisableService payload),
    (''CmdQueryServiceName'', handleQueryServiceName payload),
    (''CmdQueryServiceDscDir'', handleQueryServiceDscDir),
    (''CmdListenEnv'', handleListenEnv),
    (''CmdListServices5'', handleListServices EncodeSvcInfo5),
    (''CmdServiceStatus5'', handleServiceStatus EncodeServiceStatus5 payload),
    (''CmdQueryLoadMech'', handleQueryLoadMech),
    (''CmdQueryDependents'', handleQueryDependents payload),
    (''CmdQueryDependencies'', handleQueryDependencies payload),
    (''CmdQueryDescription'', handleQueryDescription payload),
    (''CmdQueryMetadata'', handleQueryMetadata payload),
    (''CmdActivateProfile'', handleActivateProfile payload),
    (''CmdQueryProfile'', handleQueryProfile),
    (''CmdListProfiles'', handleListProfiles),
    (''CmdQueryBundleMembers'', handleQueryBundleMembers payload),
    (''CmdPauseService'', handlePauseService payload),
    (''CmdContinueService'', handleContinueService payload),
    (''CmdOnceService'', handleOnceService payload),
    (''CmdServiceStatus6'', handleServiceStatus EncodeServiceStatus6 payload),
    (''CmdRunAction'', handleRunAction payload),
    (''CmdListActions'', handleListActions payload),
    (''CmdScheduleShutdown'', handleScheduleShutdown payload),
    (''CmdCancelShutdown'', handleCancelShutdown),
    (''CmdQueryShutdown'', handleQueryShutdown),
    (''CmdWallNotice'', handleWallNotice payload),
    (''CmdResetFailed'', handleResetFailed payload),
    (''CmdFreezeService'', handleFreezeService True payload),
    (''CmdThawService'', handleFreezeService False payload)]"

definition dispatch :: "byte \<Rightarrow> bytes \<Rightarrow> handler" where
  "dispatch cmd payload x =
    (if \<not> peerAuthorized (fst x) then BadReq x
     else (case Option.bind (command_name cmd) (map_of (handlers payload)) of
       None \<Rightarrow> BadReq x
     | Some h \<Rightarrow> h x))"

lemma ReadPacket_consumes: "ReadPacket input = Inr (cmd, payload, rest) \<Longrightarrow> length rest < length input"
  by (auto simp: ReadPacket_def ReadFull_def rbind_def split: sum.splits if_splits prod.splits)

text \<open>
  \<open>serve\<close>: packets are read and dispatched until the input ends, a packet is malformed or a write
  fails; then the connection is closed.
\<close>

function serve :: "bytes \<Rightarrow> ctl \<Rightarrow> ctl option" where
  "serve input x =
    (case ReadPacket input of
       Inl e \<Rightarrow> Some (close_conn x)
     | Inr (cmd, payload, rest) \<Rightarrow>
        (case dispatch cmd payload x of
           None \<Rightarrow> None
         | Some (ok, x) \<Rightarrow> if ok then serve rest x else Some (close_conn x)))"
  by pat_completeness auto
termination
  by (relation "measure (\<lambda>(input, x). length input)") (auto intro: ReadPacket_consumes)

declare serve.simps [simp del]

end
