(* ===== verification/Control.thy ===== *)
theory Control
  imports Handlers Invariants
begin

text \<open>
  What the control connection guarantees: a peer that is not authorised reaches nothing, the two handle
  tables stay inverse to each other, and whatever commands a client sends, the invariants of the state
  machine hold afterwards.
\<close>

named_theorems handler_intros "invariants of handlers, by the structure of their text"

section \<open>Invariants of handlers\<close>

definition hkeeps :: "(ctl \<Rightarrow> bool) \<Rightarrow> handler \<Rightarrow> bool" where
  "hkeeps Q h \<longleftrightarrow> (\<forall>x ok x'. Q x \<longrightarrow> h x = Some (ok, x') \<longrightarrow> Q x')"

lemma hkeepsI: "(\<And>x ok x'. Q x \<Longrightarrow> h x = Some (ok, x') \<Longrightarrow> Q x') \<Longrightarrow> hkeeps Q h"
  by (simp add: hkeeps_def)

lemma hkeepsD: "hkeeps Q h \<Longrightarrow> Q x \<Longrightarrow> h x = Some (ok, x') \<Longrightarrow> Q x'"
  unfolding hkeeps_def by blast

lemma hkeeps_const [handler_intros]:
  "hkeeps Q skip" "hkeeps Q (\<lambda>x. None)"
  by (rule hkeepsI, simp add: skip_def)+

lemma hkeeps_if [handler_intros]:
  "hkeeps Q f \<Longrightarrow> hkeeps Q g \<Longrightarrow> hkeeps Q (\<lambda>x. if c x then f x else g x)"
  unfolding hkeeps_def by metis

lemma hkeeps_choice [handler_intros]:
  "hkeeps Q f \<Longrightarrow> hkeeps Q g \<Longrightarrow> hkeeps Q (if c then f else g)"
  by simp

lemma hkeeps_option [handler_intros]:
  "hkeeps Q f \<Longrightarrow> (\<And>s. hkeeps Q (g s)) \<Longrightarrow> hkeeps Q (\<lambda>x. case v x of None \<Rightarrow> f x | Some s \<Rightarrow> g s x)"
  by (rule hkeepsI) (auto split: option.splits dest: hkeepsD)

lemma hkeeps_sum [handler_intros]:
  "(\<And>e. hkeeps Q (f e)) \<Longrightarrow> (\<And>s. hkeeps Q (g s)) \<Longrightarrow> hkeeps Q (\<lambda>x. case v x of Inl e \<Rightarrow> f e x | Inr s \<Rightarrow> g s x)"
  by (rule hkeepsI) (auto split: sum.splits dest: hkeepsD)

lemma hkeeps_prod [handler_intros]:
  "(\<And>a b. hkeeps Q (f a b)) \<Longrightarrow> hkeeps Q (\<lambda>x. case v x of (a, b) \<Rightarrow> f a b x)"
  by (rule hkeepsI) (auto split: prod.splits dest: hkeepsD)

lemma hkeeps_bool_case [handler_intros]:
  "hkeeps Q f \<Longrightarrow> hkeeps Q g \<Longrightarrow> hkeeps Q (\<lambda>x. case v x of True \<Rightarrow> f x | False \<Rightarrow> g x)"
  by (rule hkeepsI) (auto split: bool.splits dest: hkeepsD)

lemma hkeeps_list [handler_intros]:
  "hkeeps Q f \<Longrightarrow> (\<And>a b. hkeeps Q (g a b)) \<Longrightarrow> hkeeps Q (\<lambda>x. case v x of [] \<Rightarrow> f x | a # b \<Rightarrow> g a b x)"
  by (rule hkeepsI) (auto split: list.splits dest: hkeepsD)

lemma hkeeps_Nil [handler_intros]: "hkeeps Q (steps [])"
  by (simp add: hkeeps_def)

lemma hkeeps_Cons [handler_intros]: "hkeeps Q h \<Longrightarrow> hkeeps Q (steps hs) \<Longrightarrow> hkeeps Q (steps (h # hs))"
proof (rule hkeepsI)
  fix x ok x'
  assume h: "hkeeps Q h" and hs: "hkeeps Q (steps hs)" and x: "Q x" "steps (h # hs) x = Some (ok, x')"
  from x(2) obtain b y where y: "h x = Some (b, y)" by (auto split: option.splits)
  with hkeepsD [OF h x(1)] have "Q y" by blast
  with x(2) y hkeepsD [OF hs, of y] show "Q x'" by (cases b) auto
qed

lemma hkeeps_Nil_x [handler_intros]: "hkeeps Q (\<lambda>x. steps [] x)"
  by (simp add: hkeeps_def)

lemma hkeeps_Cons_x [handler_intros]:
  assumes "\<And>y. hkeeps Q (h y)" "\<And>y. hkeeps Q (steps (hs y))"
  shows "hkeeps Q (\<lambda>x. steps (h x # hs x) x)"
proof (rule hkeepsI)
  fix x ok x' assume "Q x" "steps (h x # hs x) x = Some (ok, x')"
  with hkeeps_Cons [OF assms, of x x] show "Q x'" by (rule hkeepsD)
qed

lemma hkeeps_at: "(\<And>y. hkeeps Q (h y)) \<Longrightarrow> hkeeps Q (\<lambda>x. h x x)"
  unfolding hkeeps_def by blast

locale handler_inv =
  fixes Q :: "ctl \<Rightarrow> bool"
  assumes Q_replies: "Q (c, sv) \<Longrightarrow> Q (c\<lparr>replies := rs\<rparr>, sv)"
begin

lemma Q_writePacket: "Q (c, sv) \<Longrightarrow> Q (snd (writePacket t p c), sv)"
  by (auto simp: writePacket_def Q_replies split: option.splits)

lemma hkeeps_reply: "hkeeps Q (reply n p)"
  by (auto simp: hkeeps_def reply_def case_prod_beta dest: Q_writePacket)

lemma hkeeps_reply_x: "hkeeps Q (\<lambda>x. reply (n x) (p x) x)"
  by (rule hkeeps_at) (rule hkeeps_reply)

lemma hkeeps_service: "(\<And>s. hkeeps Q (k s)) \<Longrightarrow> hkeeps Q (on_service payload k)"
  unfolding on_service_def [abs_def] by (intro handler_intros hkeeps_reply_x hkeeps_reply)

lemma hkeeps_deps: "(\<And>a b ty. hkeeps Q (k a b ty)) \<Longrightarrow> hkeeps Q (dep_services payload k)"
  unfolding dep_services_def [abs_def] by (intro handler_intros hkeeps_reply_x hkeeps_reply)

lemma hkeeps_preack: "hkeeps Q (sendPreACK f)"
  unfolding sendPreACK_def by (intro handler_intros hkeeps_reply)

lemma hkeeps_reply_to:
  "(\<And>x. Q x \<Longrightarrow> Q (f x)) \<Longrightarrow> hkeeps Q (\<lambda>x. reply (n x) (p x) (f x))"
proof (rule hkeepsI)
  fix x ok x' assume f: "\<And>x. Q x \<Longrightarrow> Q (f x)" and "Q x" "reply (n x) (p x) (f x) = Some (ok, x')"
  with hkeepsD [OF hkeeps_reply f [of x]] show "Q x'" by blast
qed

lemma hkeeps_env_notify: "hkeeps Q (env_notify evs)"
proof -
  have "Q (c, sv) \<Longrightarrow> Q (fold (\<lambda>(l, var, override) c.
       if l = connId c then snd (writePacket 102 (EncodeEnvEvent (raw var) override) c) else c) evs c, sv)" for c sv
    by (induction evs arbitrary: c) (auto simp: Q_writePacket)
  then show ?thesis by (auto simp: hkeeps_def env_notify_def)
qed

lemmas frame_intros = hkeeps_service hkeeps_deps hkeeps_preack hkeeps_env_notify hkeeps_reply hkeeps_reply_x

end

text \<open>The commands whose handlers change the handle tables, or load and unload services.\<close>

definition special :: "string set" where
  "special = {''CmdFindService'', ''CmdLoadService'', ''CmdCloseHandle'', ''CmdQueryDependents'',
     ''CmdQueryDependencies'', ''CmdUnloadService'', ''CmdReloadService'', ''CmdReloadAll''}"

text \<open>
  The handlers that leave the handle tables alone are covered once: what they keep of \<open>Q\<close> follows from
  what the operations they call keep.  \<open>W\<close> says which functions on the world a handler may run.
\<close>

locale handler_ops = handler_inv +
  fixes W :: "(world \<Rightarrow> world option) \<Rightarrow> bool"
  assumes Q_world: "W f \<Longrightarrow> Q (c, sv) \<Longrightarrow> f (services sv) = Some w \<Longrightarrow> Q (c, sv\<lparr>services := w\<rparr>)"
    and Q_server: "Q (c, sv) \<Longrightarrow> services sv' = services sv \<Longrightarrow> nextLink sv' = nextLink sv \<Longrightarrow> Q (c, sv')"
    and Q_listen: "Q (c, sv) \<Longrightarrow> Q (c\<lparr>listenEnv := b\<rparr>, sv)"
    and Q_link: "Q (c, sv) \<Longrightarrow> Q (c, add_link fr to ty sv)"
    and W_event: "(\<nexists>d s to ty. ev = EvAddDep d s to ty) \<Longrightarrow> (\<nexists>s to ty. ev = EvRmDep s to ty) \<Longrightarrow> W (handle ev)"
    and W_queues: "W processQueues"
    and W_unlink: "W (\<lambda>w. Some (snd (RmDep fr to ty w)))"
    and W_changes: "W (\<lambda>w. Some (Unpin s w))" "W (\<lambda>w. Some (SetTrigger b s w))"
      "W (\<lambda>w. Some (SetAutoRestart m s w))" "W (\<lambda>w. Some (ResetFailed s w))"
      "W (\<lambda>w. Some (fold ResetFailed (svcs w) w))" "W (\<lambda>w. Some (snd (LoadService n w)))"
    and W_profile: "W (\<lambda>w. Some (snd (snd (ActivateProfile order p ps w))))"
begin

lemma hkeeps_world: "W f \<Longrightarrow> hkeeps Q (on_world f)"
  by (rule hkeepsI) (auto simp: on_world_def intro: Q_world split: option.splits)

lemma hkeeps_server:
  "(\<And>sv. services (f sv) = services sv) \<Longrightarrow> (\<And>sv. nextLink (f sv) = nextLink sv) \<Longrightarrow> hkeeps Q (on_server f)"
  by (rule hkeepsI) (auto simp: on_server_def intro: Q_server)

lemma W_requests:
  "W (StartService s)" "W (WakeService s)" "W (StopService s)" "W (ForceStopService s)"
  "W (\<lambda>w. processQueues (Stop False s w))" "W (\<lambda>w. Some (PinStart s w))" "W (\<lambda>w. Some (PinStop s w))"
  using W_event [of "EvStart s"] W_event [of "EvWake s"] W_event [of "EvStop s"] W_event [of "EvForceStop s"]
    W_event [of "EvRelease s"] W_event [of "EvPinStart s"] W_event [of "EvPinStop s"] by simp_all

lemmas world_intros = hkeeps_world W_requests W_queues W_unlink W_changes W_profile hkeeps_world [OF W_requests(3)]

lemma Q_unlinked: "Q (c, sv) \<Longrightarrow> Q (c, sv\<lparr>services := snd (RmDep fr to ty (services sv))\<rparr>)"
  by (rule Q_world [OF W_unlink]) auto

lemma hkeeps_steps_to:
  "(\<And>x. Q x \<Longrightarrow> Q (f x)) \<Longrightarrow> hkeeps Q (steps hs) \<Longrightarrow> hkeeps Q (\<lambda>x. steps hs (f x))"
  by (rule hkeepsI) (auto dest: hkeepsD)

lemma hkeeps_pins: "hkeeps Q (set_pin i s)" "hkeeps Q (clear_pin s)" "hkeeps Q (pin_started s)"
  unfolding set_pin_def clear_pin_def pin_started_def
  by (intro handler_intros hkeeps_server world_intros; simp)+

lemma W_either: "W f \<Longrightarrow> W g \<Longrightarrow> W (if b then f else g)"
  by simp

lemma start_requests:
  "hkeeps Q (handleStartService p)" "hkeeps Q (handleWakeService p)" "hkeeps Q (handleOnceService p)"
  unfolding handleStartService_def handleWakeService_def handleOnceService_def Let_def
  by (intro handler_intros frame_intros hkeeps_pins world_intros)+

lemma stop_requests:
  "hkeeps Q (handleStopService p)" "hkeeps Q (handleReleaseService p)" "hkeeps Q (handleUnpinService p)"
  unfolding handleStopService_def handleReleaseService_def handleUnpinService_def Let_def
  by (intro handler_intros frame_intros hkeeps_pins W_either world_intros)+

lemma flag_requests: "hkeeps Q (handleSetTrigger p)" "hkeeps Q (handleResetFailed p)"
  unfolding handleSetTrigger_def [abs_def] handleResetFailed_def [abs_def]
  by (intro handler_intros frame_intros world_intros)+


lemma hkeeps_steps_map: "(\<And>s. hkeeps Q (h s)) \<Longrightarrow> hkeeps Q (steps hs) \<Longrightarrow> hkeeps Q (steps (map h ss @ hs))"
  by (induction ss) (auto intro: handler_intros)

lemma queries:
  "hkeeps Q (handleServiceStatus enc p)" "hkeeps Q handleBootTime" "hkeeps Q (handleQueryServiceName p)"
  "hkeeps Q (handleQueryDescription p)" "hkeeps Q (handleQueryMetadata p)" "hkeeps Q (handleQueryBundleMembers p)"
  "hkeeps Q (handleListActions p)" "hkeeps Q handleQueryProfile" "hkeeps Q handleListProfiles"
  "hkeeps Q handleQueryServiceDscDir" "hkeeps Q handleQueryLoadMech" "hkeeps Q handleQueryVersion"
  unfolding handleServiceStatus_def handleBootTime_def [abs_def] handleQueryServiceName_def handleQueryDescription_def
    handleQueryMetadata_def handleQueryBundleMembers_def handleListActions_def handleQueryProfile_def [abs_def]
    handleListProfiles_def [abs_def] handleQueryServiceDscDir_def [abs_def] handleQueryLoadMech_def [abs_def]
    handleQueryVersion_def Let_def
  by (intro handler_intros frame_intros)+

lemma list_services: "hkeeps Q (handleListServices enc)"
  unfolding handleListServices_def [abs_def]
  by (rule hkeeps_at) (intro hkeeps_steps_map handler_intros frame_intros)

lemma actions: "hkeeps Q (handleRunAction p)" "hkeeps Q handleQueryShutdown"
  unfolding handleRunAction_def [abs_def] handleQueryShutdown_def [abs_def]
  by (intro handler_intros frame_intros)+

lemma Q_same: "Q x \<Longrightarrow> services sv' = services (snd x) \<Longrightarrow> nextLink sv' = nextLink (snd x) \<Longrightarrow> Q (fst x, sv')"
  by (cases x) (auto intro: Q_server)

lemma signal_frame:
  "services (snd (control_or_kill n sig s sv)) = services sv \<and> nextLink (snd (control_or_kill n sig s sv)) = nextLink sv"
  "services (snd (SendSignalWithControl sig s sv)) = services sv \<and> nextLink (snd (SendSignalWithControl sig s sv)) = nextLink sv"
  "services (snd (Pause s sv)) = services sv \<and> nextLink (snd (Pause s sv)) = nextLink sv"
  "services (snd (Continue s sv)) = services sv \<and> nextLink (snd (Continue s sv)) = nextLink sv"
proof -
  show c: "services (snd (control_or_kill n sig s sv)) = services sv \<and> nextLink (snd (control_or_kill n sig s sv)) = nextLink sv" for n sig
    by (auto simp: control_or_kill_def split: option.splits list.splits)
  show "services (snd (SendSignalWithControl sig s sv)) = services sv \<and> nextLink (snd (SendSignalWithControl sig s sv)) = nextLink sv"
    using c by (simp add: SendSignalWithControl_def)
  show "services (snd (Pause s sv)) = services sv \<and> nextLink (snd (Pause s sv)) = nextLink sv"
    "services (snd (Continue s sv)) = services sv \<and> nextLink (snd (Continue s sv)) = nextLink sv"
    using c by (simp_all add: Pause_def Continue_def case_prod_beta)
qed

lemma send_signal: "hkeeps Q (send_signal sig s)"
  unfolding send_signal_def [abs_def] Let_def case_prod_beta
  by (intro handler_intros frame_intros hkeeps_reply_to; simp add: Q_same signal_frame)

lemma signals:
  "hkeeps Q (handleSignal p)" "hkeeps Q (handleReloadSignal p)"
  unfolding handleSignal_def [abs_def] handleReloadSignal_def
  by (intro handler_intros frame_intros send_signal hkeeps_at [of Q "\<lambda>x. send_signal (reloadSignal (meta (snd x) s)) s" for s])+

lemma pausing: "hkeeps Q (handlePauseService p)" "hkeeps Q (handleContinueService p)" "hkeeps Q (handleFreezeService b p)"
proof -
  have "hkeeps Q (pause_like act p)" if "\<And>s sv. services (snd (act s sv)) = services sv \<and> nextLink (snd (act s sv)) = nextLink sv" for act
    unfolding pause_like_def Let_def case_prod_beta
    by (intro handler_intros frame_intros hkeeps_reply_to) (simp add: Q_same that)
  then show "hkeeps Q (handlePauseService p)" "hkeeps Q (handleContinueService p)"
    by (simp_all add: handlePauseService_def handleContinueService_def signal_frame)
  show "hkeeps Q (handleFreezeService b p)"
    unfolding handleFreezeService_def by (intro handler_intros frame_intros hkeeps_server) simp_all
qed


lemma logs: "hkeeps Q (handleCatLog p)"
proof (rule hkeepsI)
  fix x ok x' assume x: "Q x" "handleCatLog p x = Some (ok, x')"
  have r: "Q x'" if "Q y" "reply n b y = Some (ok, x')" for n b y
    using hkeepsD [OF hkeeps_reply that] .
  have u: "Q (fst x, (snd x)\<lparr>logBuffers := lb\<rparr>)" for lb using x(1) by (simp add: Q_same)
  show "Q x'"
    using x(2) unfolding handleCatLog_def Let_def case_prod_beta
    by (auto split: sum.splits option.splits LogType.splits if_splits intro: r [OF x(1)] r [OF u])
qed

lemma environment:
  "hkeeps Q (handleSetEnv p)" "hkeeps Q (handleResetEnv p)" "hkeeps Q (handleGetAllEnv p)" "hkeeps Q handleListenEnv"
proof -
  have g: "hkeeps Q (set_global f)" for f
    unfolding set_global_def [abs_def] by (intro handler_intros frame_intros hkeeps_server) simp_all
  have e: "hkeeps Q (set_extra f s)" for f s
    unfolding set_extra_def by (rule hkeeps_server) simp_all
  show "hkeeps Q (handleSetEnv p)" "hkeeps Q (handleResetEnv p)"
    unfolding handleSetEnv_def [abs_def] handleResetEnv_def [abs_def] by (intro handler_intros frame_intros g e)+
  show "hkeeps Q (handleGetAllEnv p)"
    unfolding handleGetAllEnv_def [abs_def] env_reply_def Let_def case_prod_beta
    by (intro handler_intros frame_intros hkeeps_server) simp_all
  show "hkeeps Q handleListenEnv"
    unfolding handleListenEnv_def [abs_def] Let_def case_prod_beta
    by (intro handler_intros frame_intros hkeeps_reply_to) (auto intro!: Q_listen Q_same)
qed

lemma shutdown:
  "hkeeps Q (handleShutdown p)" "hkeeps Q (handleScheduleShutdown p)" "hkeeps Q (handleWallNotice p)"
  "hkeeps Q handleCancelShutdown"
proof -
  have s: "services (ScheduleShutdown st d m sv) = services sv" "nextLink (ScheduleShutdown st d m sv) = nextLink sv"
    "services (emit_server es sv) = services sv" "nextLink (emit_server es sv) = nextLink sv"
    "services (snd (CancelShutdown sv)) = services sv" "nextLink (snd (CancelShutdown sv)) = nextLink sv" for st d m es sv
    by (auto simp: ScheduleShutdown_def CancelShutdown_def emit_server_def clearScheduled_def Let_def)
  show "hkeeps Q (handleShutdown p)" "hkeeps Q (handleScheduleShutdown p)" "hkeeps Q (handleWallNotice p)"
    unfolding handleShutdown_def [abs_def] handleScheduleShutdown_def [abs_def] handleWallNotice_def [abs_def] Let_def
    by (intro handler_intros frame_intros hkeeps_server; simp add: s)+
  show "hkeeps Q handleCancelShutdown"
    unfolding handleCancelShutdown_def [abs_def] Let_def case_prod_beta
    by (intro handler_intros frame_intros hkeeps_reply_to) (simp add: Q_same s)
qed

lemma Q_profile:
  "Q x \<Longrightarrow> Q (fst x, (snd x)\<lparr>profiles := ps, services := snd (snd (ActivateProfile order n ps' (services (snd x))))\<rparr>)"
proof -
  assume "Q x"
  then have "Q (fst x, (snd x)\<lparr>profiles := ps\<rparr>)" by (simp add: Q_same)
  from Q_world [OF W_profile this] show ?thesis by simp
qed

lemma profile_swap: "hkeeps Q (handleActivateProfile p)"
proof (rule hkeepsI)
  fix x ok x' assume x: "Q x" "handleActivateProfile p x = Some (ok, x')"
  have r: "Q x'" if "Q y" "reply n b y = Some (ok, x')" for n b y
    using hkeepsD [OF hkeeps_reply that] .
  show "Q x'"
    using x(2) unfolding handleActivateProfile_def Let_def case_prod_beta
    by (auto split: sum.splits profile_error.splits intro: r [OF x(1)] r [OF Q_profile [OF x(1)]])
qed


lemma links: "hkeeps Q (link_to fr to ty)" "hkeeps Q (unlink fr to ty)" "hkeeps Q (set_depths dp)" "hkeeps Q (load n)"
proof -
  show "hkeeps Q (link_to fr to ty)"
    by (rule hkeepsI) (auto simp: link_to_def intro: Q_link)
  show "hkeeps Q (unlink fr to ty)" "hkeeps Q (set_depths dp)" "hkeeps Q (load n)"
    unfolding unlink_def set_depths_def load_def by (intro world_intros hkeeps_server; simp)+
qed

lemma dependencies: "hkeeps Q (handleAddDep p)" "hkeeps Q (handleRmDep p)"
  unfolding handleAddDep_def handleRmDep_def recalculate_added_def [abs_def] recalculate_removed_def [abs_def]
  by (intro handler_intros frame_intros links world_intros hkeeps_at [of Q "\<lambda>x. set_depths dp" for dp])+

lemma enabling: "hkeeps Q (handleEnableService v7 p)" "hkeeps Q (handleDisableService p)"
proof -
  have "hkeeps Q (enable_finish v7 e s)" for e s
    unfolding enable_finish_def by (intro handler_intros frame_intros world_intros)
  then have e: "hkeeps Q (enable_from v7 s fr)" for s fr
    unfolding enable_from_def [abs_def]
    by (intro handler_intros frame_intros links hkeeps_server) (simp_all add: persistEnable_def)
  have d: "hkeeps Q (disable_from s fr)" for s fr
    unfolding disable_from_def
    by (intro handler_intros frame_intros links world_intros hkeeps_server) (simp_all add: persistDisable_def)
  show "hkeeps Q (handleEnableService v7 p)" "hkeeps Q (handleDisableService p)"
    unfolding handleEnableService_def handleDisableService_def Let_def
    by (intro handler_intros frame_intros links e d)+
qed

lemmas handler_lemmas = start_requests stop_requests flag_requests queries list_services actions signals pausing logs
  environment shutdown profile_swap dependencies enabling

lemma ordinary: "\<forall>(n, h)\<in>set (handlers p). hkeeps Q h \<or> n \<in> special"
  by (simp only: handlers_def special_def list.set ball_simps prod.case handler_lemmas insert_iff simp_thms)

lemma dispatch_keeps:
  assumes "\<And>n h. n \<in> special \<Longrightarrow>
     command_name cmd = Some n \<Longrightarrow> map_of (handlers p) n = Some h \<Longrightarrow> Q x \<Longrightarrow> h x = Some (ok, x') \<Longrightarrow> Q x'"
    and "Q x" "dispatch cmd p x = Some (ok, x')"
  shows "Q x'"
proof (cases "peerAuthorized (fst x)")
  case False
  with assms(3) have "BadReq x = Some (ok, x')" by (simp add: dispatch_def)
  from hkeepsD [OF hkeeps_reply assms(2) this] show ?thesis .
next
  case auth: True
  show ?thesis
  proof (cases "Option.bind (command_name cmd) (map_of (handlers p))")
    case None
    with assms(3) auth have "BadReq x = Some (ok, x')" by (simp add: dispatch_def)
    from hkeepsD [OF hkeeps_reply assms(2) this] show ?thesis .
  next
    case (Some h)
    with assms(3) auth have h: "h x = Some (ok, x')" by (simp add: dispatch_def)
    from Some obtain n where n: "command_name cmd = Some n" "map_of (handlers p) n = Some h"
      by (auto simp only: bind_eq_Some_conv)
    from bspec [OF ordinary map_of_SomeD [OF n(2)]] have "hkeeps Q h \<or> n \<in> special" by simp
    then show ?thesis
    proof
      assume "hkeeps Q h"
      from hkeepsD [OF this assms(2) h] show ?thesis .
    next
      assume "n \<in> special"
      from assms(1) [OF this n assms(2) h] show ?thesis .
    qed
  qed
qed

end

section \<open>The handle tables\<close>

definition tables_ok :: "Connection \<Rightarrow> bool" where
  "tables_ok c \<longleftrightarrow>
    distinct (map fst (handles c)) \<and> distinct (map fst (revHandles c)) \<and>
    (\<forall>h s. (h, s) \<in> set (handles c) \<longleftrightarrow> (s, h) \<in> set (revHandles c)) \<and>
    (\<forall>(h, s)\<in>set (handles c). 0 < h \<and> h < nextHandle c) \<and> 0 < nextHandle c"

interpretation tab: handler_ops "\<lambda>x. tables_ok (fst x)" "\<lambda>_. True"
  by unfold_locales (simp_all add: tables_ok_def)

lemma map_put_set: "set (map_put k v m) = insert (k, v) {e \<in> set m. fst e \<noteq> k}"
  by (auto simp: map_put_def)

lemma map_delete_set: "set (map_delete k m) = {e \<in> set m. fst e \<noteq> k}"
  by (auto simp: map_delete_def)

lemma map_keys_distinct:
  "distinct (map fst m) \<Longrightarrow> distinct (map fst (map_put k v m))"
  "distinct (map fst m) \<Longrightarrow> distinct (map fst (map_delete k m))"
  by (auto simp: map_put_def map_delete_def distinct_map inj_on_def)

lemma tables_lookup:
  assumes "tables_ok c"
  shows "getService h c = Some s \<longleftrightarrow> (h, s) \<in> set (handles c)"
    and "findHandle s c = Some h \<longleftrightarrow> (s, h) \<in> set (revHandles c)"
    and "getService h c = Some s \<longleftrightarrow> findHandle s c = Some h"
  using assms by (simp_all add: tables_ok_def getService_def findHandle_def)

lemma alloc_tables:
  assumes t: "tables_ok c" and room: "unat (nextHandle c) + 1 < 2 ^ 32"
  shows "tables_ok (fst (snd (allocHandle s (c, sv))))"
    "unat (nextHandle (fst (snd (allocHandle s (c, sv))))) \<le> unat (nextHandle c) + 1"
proof -
  have suc: "unat (nextHandle c + 1) = unat (nextHandle c) + 1"
    using room by (simp add: unat_word_ariths)
  have "tables_ok (fst (snd (allocHandle s (c, sv)))) \<and>
    unat (nextHandle (fst (snd (allocHandle s (c, sv))))) \<le> unat (nextHandle c) + 1"
  proof (cases "findHandle s c")
    case (Some h)
    with t show ?thesis by (simp add: allocHandle_def)
  next
    case None
    have new: "(h, s) \<notin> set (handles c)" "(s, h) \<notin> set (revHandles c)" for h
      using None tables_lookup [OF t] by (metis option.distinct(1))+
    have free: "(nextHandle c, t) \<notin> set (handles c)" "(t, nextHandle c) \<notin> set (revHandles c)" for t
      using t by (auto simp: tables_ok_def)
    have up: "nextHandle c < nextHandle c + 1" "0 < nextHandle c" using suc t by (simp_all add: word_less_nat_alt tables_ok_def)
    then have "h < nextHandle c \<Longrightarrow> h < nextHandle c + 1" "0 < nextHandle c + 1" for h
      by (metis order.strict_trans)+
    moreover have "(t, h) \<in> set (revHandles c) \<Longrightarrow> 0 < h \<and> h < nextHandle c" for t h
      using t by (force simp: tables_ok_def)
    ultimately show ?thesis
      using t new free up None suc
      by (auto simp: tables_ok_def allocHandle_def Let_def map_put_set map_keys_distinct)
  qed
  then show "tables_ok (fst (snd (allocHandle s (c, sv))))"
    "unat (nextHandle (fst (snd (allocHandle s (c, sv))))) \<le> unat (nextHandle c) + 1" by simp_all
qed

lemma alloc_all_tables:
  assumes "tables_ok (fst x)" "unat (nextHandle (fst x)) + length ss < 2 ^ 32"
  shows "tables_ok (fst (snd (alloc_all ss x)))"
proof -
  have "tables_ok (fst (snd (fold (\<lambda>s (hs, x). let (h, x) = allocHandle s x in (hs @ [h], x)) ss (hs, x))))"
    if "tables_ok (fst x)" "unat (nextHandle (fst x)) + length ss < 2 ^ 32" for hs x
    using that
  proof (induction ss arbitrary: hs x)
    case (Cons s ss)
    obtain c sv where x: "x = (c, sv)" by (cases x)
    have "unat (nextHandle c) + 1 < 2 ^ 32" using Cons.prems(2) x by simp
    from alloc_tables [OF _ this, of s sv] Cons.prems x
    have "tables_ok (fst (snd (allocHandle s x)))" "unat (nextHandle (fst (snd (allocHandle s x)))) + length ss < 2 ^ 32"
      by auto
    from Cons.IH [OF this, of "hs @ [fst (allocHandle s x)]"] show ?case by (simp add: Let_def case_prod_beta)
  qed simp
  with assms show ?thesis by (simp add: alloc_all_def)
qed

lemma reply_tables: "reply n b y = Some (ok, x') \<Longrightarrow> tables_ok (fst y) \<Longrightarrow> tables_ok (fst x')"
  by (rule hkeepsD [OF tab.hkeeps_reply])

lemma record_tables:
  assumes "tables_ok (fst x)" "unat (nextHandle (fst x)) + 1 < 2 ^ 32" "service_record s x = Some (ok, x')"
  shows "tables_ok (fst x')"
  using assms alloc_tables [of "fst x" s "snd x"]
  by (auto simp: service_record_def Let_def case_prod_beta intro: tab.hkeeps_reply [THEN hkeepsD])

lemma find_load_tables:
  assumes "tables_ok (fst x)" "unat (nextHandle (fst x)) + 1 < 2 ^ 32"
    and "handleFindService p x = Some (ok, x') \<or> handleLoadService p x = Some (ok, x')"
  shows "tables_ok (fst x')"
proof -
  have l: "tables_ok (fst x')" if "steps [load n, service_record s] x = Some (ok, x')" for n s
    using that assms(1,2) record_tables by (auto simp: load_def on_world_def case_prod_beta split: option.splits if_splits)
  have f: "tables_ok (fst x')" if "steps [load n, load_failed e] x = Some (ok, x')" for n e
  proof -
    have "hkeeps (\<lambda>x. tables_ok (fst x)) (steps [load n, load_failed e])"
      unfolding load_failed_def by (intro handler_intros tab.hkeeps_reply tab.links(4))
    from hkeepsD [OF this _ that] assms(1) show ?thesis by simp
  qed
  show ?thesis
    using assms(3)
    by (auto simp: handleFindService_def handleLoadService_def simp del: steps.simps split: sum.splits if_splits option.splits
        intro: l f reply_tables [OF _ assms(1)] record_tables [OF assms(1,2)])
qed

lemma query_tables:
  assumes "tables_ok (fst x)" "\<And>s. unat (nextHandle (fst x)) + length (dependsOn (recs (services (snd x)) s))
       + length (dependents (recs (services (snd x)) s)) < 2 ^ 32"
    and "handleQueryDependents p x = Some (ok, x') \<or> handleQueryDependencies p x = Some (ok, x')"
  shows "tables_ok (fst x')"
proof -
  have a: "tables_ok (fst (snd (alloc_all (users (services (snd x)) s) x)))"
    "tables_ok (fst (snd (alloc_all (nexts (services (snd x)) s) x)))" for s
    using assms(2) [of s] by (intro alloc_all_tables assms(1); simp add: users_def nexts_def)+
  show ?thesis
    using assms(3)
    by (auto simp: handleQueryDependents_def handleQueryDependencies_def on_service_def Let_def case_prod_beta
        split: sum.splits option.splits intro: reply_tables [OF _ assms(1)] reply_tables [OF _ a(1)] reply_tables [OF _ a(2)])
qed

lemma tables_close:
  assumes t: "tables_ok c" and k: "getService k c = Some s"
  shows "find (\<lambda>(_, t). t = s) (map_delete k (handles c)) = None"
    and "tables_ok (c\<lparr>handles := map_delete k (handles c), revHandles := map_delete s (revHandles c)\<rparr>)"
proof -
  have uniq: "(k', s) \<in> set (handles c) \<Longrightarrow> k' = k" for k'
    using tables_lookup [OF t, where h = k' and s = s] tables_lookup [OF t, where h = k and s = s] k by simp
  then show "find (\<lambda>(_, t). t = s) (map_delete k (handles c)) = None"
    by (auto simp: find_None_iff map_delete_set)
  have "(k, t') \<in> set (handles c) \<Longrightarrow> t' = s" for t'
    using tables_lookup(1) [OF t, where h = k and s = t'] k by simp
  then have "((h, t') \<in> set (handles c) \<and> h \<noteq> k) = ((t', h) \<in> set (revHandles c) \<and> t' \<noteq> s)" for h t'
    using uniq [of h] t by (auto simp: tables_ok_def)
  then show "tables_ok (c\<lparr>handles := map_delete k (handles c), revHandles := map_delete s (revHandles c)\<rparr>)"
    using t by (simp add: tables_ok_def map_delete_set map_keys_distinct)
qed

lemma close_tables: "hkeeps (\<lambda>x. tables_ok (fst x)) (handleCloseHandle p)"
proof (rule hkeepsI)
  fix x ok x' assume t: "tables_ok (fst x)" and h: "handleCloseHandle p x = Some (ok, x')"
  obtain c sv where x: "x = (c, sv)" by (cases x)
  then have tc: "tables_ok c" using t by simp
  show "tables_ok (fst x')"
  proof (cases "DecodeHandle p")
    case (Inl e)
    with h have "BadReq x = Some (ok, x')" by (simp add: handleCloseHandle_def)
    from reply_tables [OF this t] show ?thesis .
  next
    case (Inr k)
    show ?thesis
    proof (cases "getService k c")
      case None
      then have "map_delete k (handles c) = handles c"
        by (force simp: getService_def map_of_eq_None_iff filter_id_conv map_delete_def)
      with h Inr None x have "ACK (c, sv) = Some (ok, x')" by (simp add: handleCloseHandle_def)
      from reply_tables [OF this] tc show ?thesis by simp
    next
      case (Some s)
      then have "map_of (revHandles c) s = Some k" using tables_lookup(3) [OF tc, where h = k and s = s] by (simp add: findHandle_def)
      with h Inr Some x tables_close(1) [OF tc Some]
      have "ACK (c\<lparr>handles := map_delete k (handles c), revHandles := map_delete s (revHandles c)\<rparr>,
          sv\<lparr>services := RemoveListener (connId c) s (services sv)\<rparr>) = Some (ok, x')"
        by (simp add: handleCloseHandle_def findHandle_def)
      from reply_tables [OF this] tables_close(2) [OF tc Some] show ?thesis by simp
    qed
  qed
qed

lemma unload_tables: "hkeeps (\<lambda>x. tables_ok (fst x)) (handleUnloadService p)"
proof -
  have "tables_ok (c\<lparr>handles := filter (\<lambda>(_, t). t \<noteq> s) (handles c), revHandles := map_delete s (revHandles c)\<rparr>)"
    if "tables_ok c" for c s
    using that by (auto simp: tables_ok_def map_delete_set map_keys_distinct distinct_map_filter)
  then show ?thesis
    unfolding handleUnloadService_def Let_def case_prod_beta
    by (intro handler_intros tab.frame_intros tab.hkeeps_reply_to) (simp add: case_prod_beta)
qed

section \<open>The state machine behind the commands\<close>

definition orderly :: "ctl \<Rightarrow> bool" where
  "orderly x \<longleftrightarrow> sound (services (snd x)) \<and> links_below (nextLink (snd x)) (services (snd x))"

definition wkeeps :: "(world \<Rightarrow> world option) \<Rightarrow> bool" where
  "wkeeps f \<longleftrightarrow> (\<forall>w w' n. sound w \<longrightarrow> links_below n w \<longrightarrow> f w = Some w' \<longrightarrow> sound w' \<and> links_below n w')"

lemma wkeeps_okeeps:
  assumes "\<And>G. okeeps (full_inv G []) f"
  shows "wkeeps f"
  unfolding wkeeps_def
proof (intro allI impI)
  fix w w' n assume w: "sound w" "links_below n w" and f: "f w = Some w'"
  have "full_inv (graph w) [] w'" using okeepsD [OF assms _ f] w(1) by (simp add: sound_def)
  then show "sound w' \<and> links_below n w'"
    using w(2) links_graph [of w' w n] by (auto simp: soundI full_inv_def base_inv_def)
qed

lemma wkeeps_keeps: "(\<And>G. keeps (full_inv G []) f) \<Longrightarrow> wkeeps (\<lambda>w. Some (f w))"
  by (intro wkeeps_okeeps okeeps_Some)

lemma wkeeps_ledger: "(\<And>w. ledger (f w) = ledger w) \<Longrightarrow> wkeeps (\<lambda>w. Some (f w))"
  by (intro wkeeps_keeps full.keeps_ledger)

lemma wkeeps_RmDep: "wkeeps (\<lambda>w. Some (snd (RmDep s to ty w)))"
  unfolding wkeeps_def
proof (intro allI impI)
  fix w w' n assume w: "sound w" "links_below n w" and "Some (snd (RmDep s to ty w)) = Some w'"
  then have w': "w' = snd (RmDep s to ty w)" by simp
  have "links_below n w'"
    using w links_rmDep by (auto simp: w' RmDep_def find_Some_iff split: option.splits)
  with sound_RmDep [OF w(1)] show "sound w' \<and> links_below n w'" by (simp add: w')
qed

lemma wkeeps_profile: "wkeeps (\<lambda>w. Some (snd (snd (ActivateProfile order p ps w))))"
proof (rule wkeeps_keeps)
  fix G
  have d: "keeps (full_inv G []) (fold (BringDown PullConsoleQueue) ss)" for ss
    by (intro keeps_fold full.keeps_BringDown)
  have u: "keeps (full_inv G []) (fold (\<lambda>s w. snd (BringUp PullConsoleQueue s w)) ss)" for ss
    by (intro keeps_fold keepsI full.P_BringUp)
  show "keeps (full_inv G []) (\<lambda>w. snd (snd (ActivateProfile order p ps w)))"
    using keepsD [OF d] keepsD [OF u] by (intro keepsI) (simp add: ActivateProfile_def Let_def)
qed

interpretation mach: handler_ops orderly wkeeps
proof unfold_locales
  fix ev :: event
  show "\<nexists>d s to ty. ev = EvAddDep d s to ty \<Longrightarrow> \<nexists>s to ty. ev = EvRmDep s to ty \<Longrightarrow> wkeeps (handle ev)"
    by (intro wkeeps_okeeps loop.okeeps_handle)
  show "wkeeps processQueues" by (intro wkeeps_okeeps loop.okeeps_queues)
next
  fix f c sv w
  show "wkeeps f \<Longrightarrow> orderly (c, sv) \<Longrightarrow> f (services sv) = Some w \<Longrightarrow> orderly (c, sv\<lparr>services := w\<rparr>)"
    unfolding orderly_def wkeeps_def by simp blast
next
  fix c sv fr to ty
  show "orderly (c, sv) \<Longrightarrow> orderly (c, add_link fr to ty sv)"
    by (auto simp: orderly_def add_link_def links_AddDep sound_AddDep links_below_def [of "nextLink sv"])
next
  fix s b m n
  show "wkeeps (\<lambda>w. Some (Unpin s w))" "wkeeps (\<lambda>w. Some (SetTrigger b s w))"
    by (intro wkeeps_keeps full.keeps_Unpin loop.keeps_trigger)+
  show "wkeeps (\<lambda>w. Some (SetAutoRestart m s w))"
    by (rule wkeeps_ledger) (simp add: SetAutoRestart_def ledger_def)
  show "wkeeps (\<lambda>w. Some (ResetFailed s w))"
    by (rule wkeeps_ledger) (simp add: ResetFailed_def ledger_modr rec_view_def)
  have "ledger (fold ResetFailed ss w) = ledger w" for ss w
    by (induction ss arbitrary: w) (simp_all add: ResetFailed_def ledger_modr rec_view_def)
  then show "wkeeps (\<lambda>w. Some (fold ResetFailed (svcs w) w))" by (intro wkeeps_ledger)
  show "wkeeps (\<lambda>w. Some (snd (LoadService n w)))"
    by (rule wkeeps_ledger) (simp add: LoadService_def ledger_def split: option.splits)
qed (simp_all add: wkeeps_RmDep wkeeps_profile orderly_def)

lemma orderly_ledger: "ledger (services sv') = ledger (services sv) \<Longrightarrow> nextLink sv' = nextLink sv \<Longrightarrow>
    orderly (c, sv) \<Longrightarrow> orderly (c', sv')"
  using links_graph [OF ledger_graph, of "services sv'" "services sv" "nextLink sv"]
    full.same_ledger [of "graph (services sv)" "[]" "services sv" "services sv'"]
  by (auto simp: orderly_def sound_def [of "services sv"] intro: soundI)

lemma ledger_listeners: "ledger (AddListener l s w) = ledger w" "ledger (RemoveListener l s w) = ledger w"
  by (simp_all add: AddListener_def RemoveListener_def ledger_modr rec_view_def)

lemma orderly_alloc: "orderly x \<Longrightarrow> orderly (snd (allocHandle s x))"
  by (cases x) (auto simp: allocHandle_def Let_def ledger_listeners split: option.splits
      elim!: orderly_ledger [rotated 2])

lemma orderly_alloc_all: "orderly x \<Longrightarrow> orderly (snd (alloc_all ss x))"
proof -
  have "orderly x \<Longrightarrow> orderly (snd (fold (\<lambda>s (hs, x). let (h, x) = allocHandle s x in (hs @ [h], x)) ss (hs, x)))" for hs
    by (induction ss arbitrary: hs x) (simp_all add: Let_def case_prod_beta orderly_alloc)
  then show "orderly x \<Longrightarrow> ?thesis" by (simp add: alloc_all_def)
qed

lemma orderly_record: "hkeeps orderly (service_record s)"
  unfolding service_record_def [abs_def] Let_def case_prod_beta
  by (intro mach.hkeeps_reply_to orderly_alloc)

lemma orderly_tables:
  "hkeeps orderly (handleFindService p)" "hkeeps orderly (handleLoadService p)"
  "hkeeps orderly (handleQueryDependents p)" "hkeeps orderly (handleQueryDependencies p)"
proof -
  show "hkeeps orderly (handleFindService p)" "hkeeps orderly (handleLoadService p)"
    unfolding handleFindService_def [abs_def] handleLoadService_def [abs_def] load_failed_def
    by (intro handler_intros mach.frame_intros mach.links orderly_record)+
  show "hkeeps orderly (handleQueryDependents p)" "hkeeps orderly (handleQueryDependencies p)"
    unfolding handleQueryDependents_def handleQueryDependencies_def Let_def case_prod_beta
    by (rule mach.hkeeps_service, rule mach.hkeeps_reply_to, erule orderly_alloc_all)+
qed

lemma orderly_close: "hkeeps orderly (handleCloseHandle p)"
proof (rule hkeepsI)
  fix x ok x' assume x: "orderly x" "handleCloseHandle p x = Some (ok, x')"
  have r: "orderly x'" if "reply n b y = Some (ok, x')" "orderly y" for n b y
    using hkeepsD [OF mach.hkeeps_reply that(2,1)] .
  have u: "orderly (c, snd x)" "orderly (c, snd x\<lparr>services := RemoveListener l s (services (snd x))\<rparr>)" for c l s
    using x(1) by (cases x, auto simp: ledger_listeners elim!: orderly_ledger [rotated 2])+
  show "orderly x'"
    using x(2) unfolding handleCloseHandle_def Let_def case_prod_beta
    by (auto split: sum.splits option.splits if_splits intro: r [OF _ x(1)] r [OF _ u(1)] r [OF _ u(2)])
qed

section \<open>A server for examples\<close>

definition plain_meta :: svc_meta where
  "plain_meta = \<lparr>refuseManualStart = False, refuseManualStop = False, enableVia = [], serviceDir = [], reloadSignal = 0,
     description = [], author = [], version = [], usage = [], bundleMembers = [], extraCommands = [],
     extraStartedCommands = [], controlCommands = [], logType = LogNone, logFile = [], logConsumer = None,
     consumerFor = None, provides = [], loadModTime = None, freezable = False\<rparr>"

definition serving :: "world \<Rightarrow> Server" where
  "serving w = \<lparr>services = w, depths = (\<lambda>_. 0), profiles = \<lparr>activeProfile = [], Profiles = (\<lambda>_. [])\<rparr>,
     globals = empty_env, extraEnv = (\<lambda>_. []), meta = (\<lambda>_. plain_meta), paused = (\<lambda>_. False), logBuffers = (\<lambda>_. None),
     nextLink = 0, pins = [], pinsEnabled = True, scheduledTimer = False, scheduledReminders = [], scheduledType = 0,
     scheduledDeadline = None, scheduledMessage = [], kernelUptime = 0, bootStartTime = None,
     loadError = (\<lambda>_. NotFoundErr), hasLoader = True, ReloadService = (\<lambda>s w. (Some (s + 10), w)), serviceDirs = [],
     cwd = [], absPath = (\<lambda>_. None), readFile = (\<lambda>_. None), killOk = (\<lambda>_ _. True), killError = [],
     freezerOk = (\<lambda>_. False), runAction = (\<lambda>_. (None, [])), effects = []\<rparr>"

section \<open>Properties\<close>

lemma rply_codes [simp]: "rply ''RplyBadReq'' = 52" "rply ''RplyACK'' = 50" "rply ''RplyShuttingDown'' = 69"
  "rply ''RplyShutdownStatus'' = 97"
  by (simp_all add: rply_def reply_codes_def)

lemma refused: "\<not> peerAuthorized (fst x) \<Longrightarrow> dispatch cmd p x = BadReq x"
  by (simp add: dispatch_def)

lemma refused_session:
  assumes "\<not> peerAuthorized c" "revHandles c = []" "\<not> listenEnv c" "set (replies c) \<subseteq> {(52, [])}"
  shows "\<exists>c'. serve input (c, sv) = Some (c', sv) \<and> set (replies c') \<subseteq> {(52, [])}"
  using assms
proof (induction input arbitrary: c rule: measure_induct_rule [of length])
  case (less input)
  show ?case
  proof (cases "ReadPacket input")
    case (Inl e)
    with less.prems show ?thesis by (subst serve.simps) (auto simp: close_conn_def)
  next
    case (Inr r)
    obtain cmd p rest where r: "r = (cmd, p, rest)" by (cases r)
    obtain ok c' where w: "writePacket 52 [] c = (ok, c')" by (cases "writePacket 52 [] c")
    then have c': "\<not> peerAuthorized c'" "revHandles c' = []" "\<not> listenEnv c'" "set (replies c') \<subseteq> {(52, [])}"
      using less.prems by (auto simp: writePacket_def split: if_splits option.splits)
    have "dispatch cmd p (c, sv) = Some (ok, c', sv)"
      using less.prems(1) w by (simp add: refused reply_def)
    then have s: "serve input (c, sv) = (if ok then serve rest (c', sv) else Some (close_conn (c', sv)))"
      using Inr r by (subst serve.simps) simp
    show ?thesis
    proof (cases ok)
      case True
      with s less.IH [OF ReadPacket_consumes c'] Inr r show ?thesis by simp
    next
      case False
      with s c' show ?thesis by (auto simp: close_conn_def)
    qed
  qed
qed

lemma dispatch_codes:
  "Option.bind (command_name 3) (map_of (handlers p)) = Some (handleStartService p)"
  "Option.bind (command_name 5) (map_of (handlers p)) = Some (handleWakeService p)"
  "Option.bind (command_name 45) (map_of (handlers p)) = Some (handleOnceService p)"
  "Option.bind (command_name 14) (map_of (handlers p)) = Some (handleEnableService False p)"
  "Option.bind (command_name 29) (map_of (handlers p)) = Some (handleEnableService True p)"
  "Option.bind (command_name 35) (map_of (handlers p)) = Some (handleScheduleShutdown p)"
  "Option.bind (command_name 37) (map_of (handlers p)) = Some handleQueryShutdown"
  "Option.bind (command_name 16) (map_of (handlers p)) = Some (handleReloadService p)"
  by (simp_all add: command_name_def command_codes_def handlers_def)

lemma not_code: "command_name cmd = Some n \<Longrightarrow> cmd \<noteq> b \<Longrightarrow> command_name b \<noteq> Some n"
proof
  assume "command_name cmd = Some n" "command_name b = Some n" and b: "cmd \<noteq> b"
  then have "(n, cmd) \<in> set command_codes" "(n, b) \<in> set command_codes"
    by (auto simp: command_name_def dest: map_of_SomeD)
  moreover have "distinct (map fst command_codes)" by (simp add: command_codes_def)
  ultimately show False using b by (auto dest: eq_key_imp_eq_value)
qed

text \<open>A client that has handle 1 for service 0.\<close>

definition client :: Connection where
  "client = (newConnection 7 (Some 0) 0)\<lparr>handles := [(1, 0)], revHandles := [(0, 1)], nextHandle := 2\<rparr>"

lemma client_eval [simp]: "peerAuthorized client" "getService 1 client = Some 0" "\<not> connClosed client" "writable client"
  "replies client = []" "tables_ok client" "nextHandle client = 2" "connId client = 7" "handles client = [(1, 0)]"
  "revHandles client = [(0, 1)]"
  by (auto simp: client_def newConnection_def getService_def tables_ok_def)

lemma internals_loader [simp]: "loader internals = (\<lambda>_. None)"
  by (simp add: internals_def NewServiceSet_def)

lemma internals_links: "sound internals" "links_below n internals"
  using sound_initial [OF internals_initial]
  by (auto simp: links_below_def fresh_link_def eval)

lemma serving_eval [simp]: "services (serving w) = w" "nextLink (serving w) = 0" "meta (serving w) = (\<lambda>_. plain_meta)"
  "hasLoader (serving w)" "ReloadService (serving w) = (\<lambda>s w. (Some (s + 10), w))"
  by (simp_all add: serving_def)

lemma client_starts:
  "\<exists>c' sv'. dispatch 3 [1, 0, 0, 0] (client, serving internals) = Some (True, c', sv') \<and>
     state (recs (services sv') 0) = StateStarted \<and> replies c' = [(50, [])]"
proof -
  have "case StartService 0 internals of None \<Rightarrow> False | Some w \<Rightarrow> state (recs w 0) = StateStarted"
    by (simp add: eval cong: eval_cong del: List.fold.simps)
  then obtain w where w: "StartService 0 internals = Some w" "state (recs w 0) = StateStarted" by (auto split: option.splits)
  have "DecodeHandle [1, 0, 0, 0] = Inr 1" "\<not> IsShuttingDown internals" "state (recs internals 0) = StateStopped"
    "\<not> pinnedStopped (recs internals 0)" "\<not> refuseManualStart plain_meta"
    by (simp_all add: DecodeHandle_def Uint32_def IsShuttingDown_def internals_def NewServiceSet_def NewServiceRecord_def plain_meta_def)
  then show ?thesis
    using w by (simp add: dispatch_def dispatch_codes handleStartService_def on_service_def Let_def sendPreACK_def flags_of_def
        on_world_def skip_def reply_def writePacket_def WritePacket_def MaxPayloadSize_def)
qed

text \<open>
  Property C6.  A peer that is neither root nor the user the daemon runs as, or whose user is not known,
  reaches nothing: whatever bytes it sends, the session ends, the server and the service set are as
  before, and every packet it gets is a refusal.
\<close>

theorem unauthorised_session:
  assumes "peer \<noteq> Some 0" "peer \<noteq> Some own"
  shows "\<exists>c. serve input (newConnection i peer own, sv) = Some (c, sv) \<and> set (replies c) \<subseteq> {(rply ''RplyBadReq'', [])}"
proof -
  have "\<not> peerAuthorized (newConnection i peer own)" using assms by (auto simp: newConnection_def split: option.splits)
  from refused_session [OF this, of input sv] show ?thesis by (simp add: newConnection_def)
qed

theorem unauthorised_session_witness:
  "\<exists>c. serve [10, 1, 0, 3] (newConnection 0 (Some 1000) 0, serving internals) = Some (c, serving internals) \<and>
    set (replies c) \<subseteq> {(rply ''RplyBadReq'', [])}"
  by (rule unauthorised_session) simp_all

text \<open>
  Property C5.  On the services that are loaded, whatever command an authorised client sends, with whatever
  payload, the guarantees of the state machine hold after it: references are counted, the queues agree
  with the flags, the dependency graph is well formed.  Unloading and the two reloads are not covered, and
  the loader has nothing more to load: what the loading of further services keeps is the subject of
  loading\_keeps\_invariant.
\<close>

theorem commands_keep_sound:
  assumes "sound (services sv)" "links_below (nextLink sv) (services sv)"
    and "loader (services sv) = (\<lambda>_. None)"
    and "cmd \<notin> {9, 16, 38}" "dispatch cmd payload (c, sv) = Some (ok, c', sv')"
  shows "sound (services sv') \<and> links_below (nextLink sv') (services sv')"
proof -
  have n: "n \<noteq> ''CmdUnloadService'' \<and> n \<noteq> ''CmdReloadService'' \<and> n \<noteq> ''CmdReloadAll''" if "command_name cmd = Some n" for n
    using not_code [OF that, of 9] not_code [OF that, of 16] not_code [OF that, of 38] assms(4)
    by (simp add: command_name_def command_codes_def)
  have "orderly (c', sv')"
  proof (rule mach.dispatch_keeps [OF _ _ assms(5)])
    show "orderly (c, sv)" using assms(1,2) by (simp add: orderly_def)
    fix m h assume m: "m \<in> special" "command_name cmd = Some m" "map_of (handlers payload) m = Some h"
      and x: "orderly (c, sv)" "h (c, sv) = Some (ok, c', sv')"
    from map_of_SomeD [OF m(3)] m(1) n [OF m(2)] have "hkeeps orderly h"
      by (simp add: special_def handlers_def) (elim disjE; simp add: orderly_tables orderly_close)
    from hkeepsD [OF this x] show "orderly (c', sv')" .
  qed
  then show ?thesis by (simp add: orderly_def)
qed

theorem commands_keep_sound_witness:
  "\<exists>c' sv'. dispatch 3 [1, 0, 0, 0] (client, serving internals) = Some (True, c', sv') \<and>
     state (recs (services sv') 0) = StateStarted \<and> sound (services sv') \<and> links_below (nextLink sv') (services sv')"
proof -
  obtain c' sv' where "dispatch 3 [1, 0, 0, 0] (client, serving internals) = Some (True, c', sv')"
    "state (recs (services sv') 0) = StateStarted" using client_starts by blast
  with commands_keep_sound [of "serving internals" 3 "[1, 0, 0, 0]" client True c' sv'] show ?thesis
    by (simp add: internals_links)
qed

text \<open>
  Property C7.  The two handle tables of a connection stay inverse to each other, and every handle in
  them has been given out, whatever command is dispatched, as long as the 32-bit handle counter has room
  for the command; the two reloads are not covered.
\<close>

theorem handles_stay_inverse:
  assumes "tables_ok c" "cmd \<notin> {16, 38}" "dispatch cmd payload (c, sv) = Some (ok, c', sv')"
    and "\<And>s. unat (nextHandle c) + length (dependsOn (recs (services sv) s))
       + length (dependents (recs (services sv) s)) + 1 < 2 ^ 32"
  shows "tables_ok c' \<and> (\<forall>h s. getService h c' = Some s \<longleftrightarrow> findHandle s c' = Some h)"
proof -
  have n: "n \<noteq> ''CmdReloadService'' \<and> n \<noteq> ''CmdReloadAll''" if "command_name cmd = Some n" for n
    using not_code [OF that, of 16] not_code [OF that, of 38] assms(2) by (simp add: command_name_def command_codes_def)
  have "tables_ok (fst (c', sv'))"
  proof (rule tab.dispatch_keeps [OF _ _ assms(3)])
    show "tables_ok (fst (c, sv))" using assms(1) by simp
    fix m h assume m: "m \<in> special" "command_name cmd = Some m" "map_of (handlers payload) m = Some h"
      and x: "tables_ok (fst (c, sv))" "h (c, sv) = Some (ok, c', sv')"
    have a: "unat (nextHandle (fst (c, sv))) + 1 < 2 ^ 32" using assms(4) [of 0] by simp
    have b: "unat (nextHandle (fst (c, sv))) + length (dependsOn (recs (services (snd (c, sv))) s))
       + length (dependents (recs (services (snd (c, sv))) s)) < 2 ^ 32" for s using assms(4) [of s] by simp
    from map_of_SomeD [OF m(3)] m(1) n [OF m(2)]
    have "h = handleFindService payload \<or> h = handleLoadService payload \<or> h = handleQueryDependents payload \<or>
      h = handleQueryDependencies payload \<or> h = handleCloseHandle payload \<or> h = handleUnloadService payload"
      by (simp add: special_def handlers_def) (elim disjE; simp)
    then show "tables_ok (fst (c', sv'))"
      using x(2) find_load_tables [OF x(1) a] query_tables [OF x(1) b] hkeepsD [OF close_tables x(1)]
        hkeepsD [OF unload_tables x(1)] by metis
  qed
  then show ?thesis using tables_lookup(3) [of c'] by simp
qed

theorem handles_stay_inverse_witness:
  "\<exists>c' sv'. dispatch 3 [1, 0, 0, 0] (client, serving internals) = Some (True, c', sv') \<and> tables_ok c'"
proof -
  obtain c' sv' where d: "dispatch 3 [1, 0, 0, 0] (client, serving internals) = Some (True, c', sv')"
    using client_starts by blast
  have "unat (nextHandle client) + length (dependsOn (recs (services (serving internals)) s))
       + length (dependents (recs (services (serving internals)) s)) + 1 < 2 ^ 32" for s
    by (simp add: eval)
  from handles_stay_inverse [OF _ _ d this] d show ?thesis by simp
qed

text \<open>
  Property C8.  Once the system is shutting down, the commands start, wake, once and enable (in both of its
  versions) are refused: they change neither the services nor anything else of the server, and a reply, if
  one can be written, is a refusal.
\<close>

theorem start_commands_refused:
  assumes "IsShuttingDown (services sv)" "cmd \<in> {3, 5, 45, 14, 29}" "dispatch cmd payload (c, sv) = Some (ok, c', sv')"
  shows "sv' = sv \<and> (\<exists>code\<in>{rply ''RplyShuttingDown'', rply ''RplyBadReq''}. ok \<longrightarrow> replies c' = replies c @ [(code, [])])"
proof -
  have r: "sv' = sv \<and> (ok \<longrightarrow> replies c' = replies c @ [(rply n, [])])" if "reply n [] (c, sv) = Some (ok, c', sv')" for n
    using that by (auto simp: reply_def writePacket_def Let_def split: if_splits option.splits)
  have "reply ''RplyShuttingDown'' [] (c, sv) = Some (ok, c', sv') \<or> BadReq (c, sv) = Some (ok, c', sv')"
    using assms by (auto simp: dispatch_def dispatch_codes handleStartService_def handleWakeService_def handleOnceService_def
        handleEnableService_def on_service_def Let_def split: if_splits sum.splits option.splits)
  then show ?thesis using r by blast
qed

theorem start_commands_refused_witness:
  "\<exists>ok c' sv'. dispatch 3 [1, 0, 0, 0] (client, serving (internals\<lparr>restartEnabled := False\<rparr>)) = Some (ok, c', sv') \<and>
     sv' = serving (internals\<lparr>restartEnabled := False\<rparr>)"
proof -
  let ?sv = "serving (internals\<lparr>restartEnabled := False\<rparr>)"
  have s: "IsShuttingDown (services ?sv)" by (simp add: IsShuttingDown_def)
  obtain ok c' sv' where d: "dispatch 3 [1, 0, 0, 0] (client, ?sv) = Some (ok, c', sv')"
    using s by (auto simp: dispatch_def dispatch_codes handleStartService_def on_service_def Let_def reply_def writePacket_def
        WritePacket_def MaxPayloadSize_def DecodeHandle_def Uint32_def)
  from start_commands_refused [OF s _ d] d show ?thesis by simp
qed

lemma be32_roundtrip: "put_be32 (be32 [a, b, c, d]) = [a, b, c, d]"
  unfolding put_be32_def be32_def
  by simp (intro conjI; rule bit_word_eqI; auto simp: bit_simps dest: bit_imp_le_length)

text \<open>
  A scheduled shutdown can be asked for: when nothing else happens in between, the query
  gives back the type and the delay of the request, and cancelling it leaves the query without an answer.
\<close>

lemma scheduled_shutdown_query:
  assumes "peerAuthorized c" "\<not> connClosed c" "writable c"
    and "payload = st # delay" "length delay = 4" "be32 delay \<noteq> 0"
  shows "\<exists>c' sv'. steps [dispatch 35 payload, dispatch 37 []] (c, sv) = Some (True, c', sv') \<and>
    replies c' = replies c @ [(rply ''RplyACK'', []), (rply ''RplyShutdownStatus'', payload)] \<and>
    fst (CancelShutdown sv') \<and> ScheduledShutdownInfo (snd (CancelShutdown sv')) = None"
proof -
  obtain a b x y where d: "delay = [a, b, x, y]"
    using assms(5) by (auto simp: length_Suc_conv numeral_eq_Suc)
  have p: "0 < uint (be32 delay) * second" using assms(6) by (simp add: second_def word_neq_0_conv word_less_def)
  have e: "word_of_int (uint (be32 delay) * second div second) = be32 delay" by (simp add: second_def)
  show ?thesis
    using assms(1-4) p e be32_roundtrip [of a b x y] d
    by (simp add: dispatch_def dispatch_codes handleScheduleShutdown_def handleQueryShutdown_def on_server_def
        ScheduleShutdown_def ScheduledShutdownInfo_def CancelShutdown_def clearScheduled_def emit_server_def Let_def
        reply_def writePacket_def WritePacket_def MaxPayloadSize_def schedule_message_def)
qed

lemma scheduled_shutdown_query_witness:
  "\<exists>c' sv'. steps [dispatch 35 [3, 0, 0, 1, 44], dispatch 37 []] (client, serving internals) = Some (True, c', sv') \<and>
    replies c' = [(rply ''RplyACK'', []), (rply ''RplyShutdownStatus'', [3, 0, 0, 1, 44])]"
proof -
  have "be32 [0, 0, 1, 44] \<noteq> 0" by (simp add: be32_def)
  from scheduled_shutdown_query [of client "[3, 0, 0, 1, 44]" 3 "[0, 0, 1, 44]" "serving internals", OF _ _ _ _ _ this]
  show ?thesis by (auto simp del: steps.simps)
qed

text \<open>
  A reload that replaces the service (its type changed) moves the client's handle to the
  new service but not the reverse table: the handle still works for commands, but no event of the new
  service is sent to the client any more, although the table says the old service has the handle.
\<close>

lemma reload_loses_events:
  assumes "tables_ok c" "peerAuthorized c" "getService h c = Some s" "findHandle t c = None" "t \<noteq> s"
    and "steady s (services sv)" "hasLoader sv" "ReloadService sv s (services sv) = (Some t, w)"
    and "dispatch 16 (EncodeHandle h) (c, sv) = Some (ok, c', sv')"
  shows "getService h c' = Some t \<and> findHandle s c' = Some h \<and> ServiceEvent_notify t ev (c', sv') = (c', sv')"
proof -
  have d: "DecodeHandle (EncodeHandle h) = Inr h" by (simp add: DecodeHandle_def EncodeHandle_def)
  let ?c = "c\<lparr>handles := map_put h t (handles c)\<rparr>"
  from assms(9) have "steps [on_world processQueues, ACK] (?c, sv\<lparr>services := w\<rparr>) = Some (ok, c', sv')"
    using assms(2,3,5-8) d by (simp add: dispatch_def dispatch_codes handleReloadService_def del: steps.simps)
  then have "handles c' = handles ?c \<and> revHandles c' = revHandles c"
    by (auto simp: on_world_def reply_def writePacket_def Let_def split: option.splits if_splits)
  then show ?thesis
    using assms(1,3,4) tables_lookup(3) [of c, where h = h and s = s]
    by (simp add: getService_def findHandle_def map_put_def ServiceEvent_notify_def)
qed

lemma reload_loses_events_witness:
  "\<exists>ok c' sv'. dispatch 16 (EncodeHandle 1) (client, serving internals) = Some (ok, c', sv') \<and> getService 1 c' = Some 10 \<and>
     findHandle 0 c' = Some 1 \<and> ServiceEvent_notify 10 EventStarted (c', sv') = (c', sv')"
proof -
  have i: "steady 0 internals" "processQueues internals = Some internals"
    by (simp_all add: steady_def eval)
  have "DecodeHandle (EncodeHandle 1) = Inr 1" by (simp add: DecodeHandle_def EncodeHandle_def)
  then obtain ok c' sv' where d: "dispatch 16 (EncodeHandle 1) (client, serving internals) = Some (ok, c', sv')"
    using i by (auto simp: dispatch_def dispatch_codes handleReloadService_def on_world_def reply_def writePacket_def Let_def
        WritePacket_def MaxPayloadSize_def)
  from reload_loses_events [OF _ _ _ _ _ _ _ _ d, of 0 10] d i show ?thesis by (auto simp: findHandle_def)
qed

end
