(* ===== verification/SeccompTables.thy ===== *)
theory SeccompTables
  imports GoLib
begin

text \<open>
  The tables of \<open>pkg/seccomp\<close>: the system calls the package knows on linux/amd64
  (\<open>syscalls_linux_amd64.go\<close>), the predefined groups (\<open>groups.go\<close>) and the architecture names
  (\<open>arch.go\<close>). The numbers behind the constants \<open>unix.SYS_*\<close> belong to golang.org/x/sys; they are
  the parameter \<open>sys\<close>, a function from the constant's name to its value. The architecture the
  binary was built for, \<open>runtime.GOARCH\<close>, is the parameter \<open>goarch\<close>.
\<close>

section \<open>System calls by name\<close>

text \<open>The entries of \<open>syscallNumbers\<close> in the order of the source; \<open>read\<close> stands for \<open>unix.SYS_READ\<close>.\<close>

definition syscallNames :: "string list" where
  "syscallNames =
    [
     ''read'', ''write'', ''open'', ''close'', ''openat'', ''openat2'', ''creat'', ''lseek'',
     ''pread64'', ''pwrite64'', ''readv'', ''writev'', ''preadv'', ''pwritev'', ''preadv2'',
     ''pwritev2'', ''dup'', ''dup2'', ''dup3'', ''pipe'', ''pipe2'', ''sendfile'', ''splice'', ''tee'',
     ''vmsplice'', ''ioctl'', ''fcntl'', ''fadvise64'', ''fallocate'', ''stat'', ''fstat'', ''lstat'',
     ''newfstatat'', ''statx'', ''statfs'', ''fstatfs'', ''ustat'', ''access'', ''faccessat'',
     ''faccessat2'', ''getdents'', ''getdents64'', ''truncate'', ''ftruncate'', ''getcwd'', ''chdir'',
     ''fchdir'', ''rename'', ''renameat'', ''renameat2'', ''mkdir'', ''mkdirat'', ''rmdir'', ''unlink'',
     ''unlinkat'', ''link'', ''linkat'', ''symlink'', ''symlinkat'', ''readlink'', ''readlinkat'',
     ''chmod'', ''fchmod'', ''fchmodat'', ''chown'', ''fchown'', ''lchown'', ''fchownat'', ''umask'',
     ''sync'', ''syncfs'', ''fsync'', ''fdatasync'', ''sync_file_range'', ''brk'', ''mmap'', ''munmap'',
     ''mremap'', ''mprotect'', ''madvise'', ''mlock'', ''mlock2'', ''munlock'', ''mlockall'',
     ''munlockall'', ''mincore'', ''msync'', ''memfd_create'', ''copy_file_range'', ''fork'', ''vfork'',
     ''clone'', ''clone3'', ''execve'', ''execveat'', ''exit'', ''exit_group'', ''wait4'', ''waitid'',
     ''getpid'', ''getppid'', ''gettid'', ''getpgid'', ''getpgrp'', ''setsid'', ''getsid'', ''setpgid'',
     ''pidfd_open'', ''pidfd_send_signal'', ''pidfd_getfd'', ''kill'', ''tgkill'', ''tkill'',
     ''rt_sigaction'', ''rt_sigprocmask'', ''rt_sigreturn'', ''rt_sigpending'', ''rt_sigtimedwait'',
     ''rt_sigsuspend'', ''rt_sigqueueinfo'', ''rt_tgsigqueueinfo'', ''sigaltstack'', ''signalfd'',
     ''signalfd4'', ''pause'', ''getuid'', ''geteuid'', ''getgid'', ''getegid'', ''getgroups'',
     ''setuid'', ''setgid'', ''setreuid'', ''setregid'', ''setresuid'', ''setresgid'', ''getresuid'',
     ''getresgid'', ''setfsuid'', ''setfsgid'', ''setgroups'', ''capget'', ''capset'',
     ''clock_gettime'', ''clock_getres'', ''clock_nanosleep'', ''clock_settime'', ''clock_adjtime'',
     ''settimeofday'', ''gettimeofday'', ''adjtimex'', ''time'', ''nanosleep'', ''alarm'',
     ''setitimer'', ''getitimer'', ''timer_create'', ''timer_settime'', ''timer_gettime'',
     ''timer_delete'', ''timer_getoverrun'', ''timerfd_create'', ''timerfd_settime'',
     ''timerfd_gettime'', ''poll'', ''ppoll'', ''select'', ''pselect6'', ''epoll_create'',
     ''epoll_create1'', ''epoll_ctl'', ''epoll_wait'', ''epoll_pwait'', ''epoll_pwait2'', ''eventfd'',
     ''eventfd2'', ''inotify_init'', ''inotify_init1'', ''inotify_add_watch'', ''inotify_rm_watch'',
     ''fanotify_init'', ''fanotify_mark'', ''socket'', ''socketpair'', ''bind'', ''listen'', ''accept'',
     ''accept4'', ''connect'', ''getsockname'', ''getpeername'', ''sendto'', ''sendmsg'', ''sendmmsg'',
     ''recvfrom'', ''recvmsg'', ''recvmmsg'', ''shutdown'', ''setsockopt'', ''getsockopt'', ''shmget'',
     ''shmat'', ''shmdt'', ''shmctl'', ''semget'', ''semop'', ''semctl'', ''semtimedop'', ''msgget'',
     ''msgsnd'', ''msgrcv'', ''msgctl'', ''mq_open'', ''mq_unlink'', ''mq_timedsend'',
     ''mq_timedreceive'', ''mq_notify'', ''mq_getsetattr'', ''sched_yield'', ''sched_setparam'',
     ''sched_getparam'', ''sched_setscheduler'', ''sched_getscheduler'', ''sched_get_priority_max'',
     ''sched_get_priority_min'', ''sched_rr_get_interval'', ''sched_setaffinity'',
     ''sched_getaffinity'', ''sched_setattr'', ''sched_getattr'', ''getrandom'', ''uname'', ''sysinfo'',
     ''prctl'', ''arch_prctl'', ''futex'', ''set_tid_address'', ''set_robust_list'',
     ''get_robust_list'', ''getrusage'', ''prlimit64'', ''getrlimit'', ''setrlimit'', ''getpriority'',
     ''setpriority'', ''ioprio_get'', ''ioprio_set'', ''membarrier'', ''rseq'', ''close_range'',
     ''mount'', ''umount2'', ''fsopen'', ''fsconfig'', ''fsmount'', ''fspick'', ''move_mount'',
     ''open_tree'', ''pivot_root'', ''chroot'', ''setns'', ''unshare'', ''reboot'', ''kexec_load'',
     ''kexec_file_load'', ''sethostname'', ''setdomainname'', ''iopl'', ''ioperm'', ''swapon'',
     ''swapoff'', ''syslog'', ''acct'', ''ptrace'', ''process_vm_readv'', ''process_vm_writev'',
     ''perf_event_open'', ''bpf'', ''userfaultfd'', ''kcmp'', ''init_module'', ''finit_module'',
     ''delete_module'', ''mknod'', ''mknodat'', ''quotactl'']"

definition syscallNumbers :: "(string \<Rightarrow> int) \<Rightarrow> string \<Rightarrow> int option" where
  "syscallNumbers sys name =
    (if name \<in> set syscallNames then Some (sys (''SYS_'' @ ToUpper name)) else None)"

definition SyscallNumber :: "(string \<Rightarrow> int) \<Rightarrow> string \<Rightarrow> int option" where
  "SyscallNumber sys name = syscallNumbers sys name"

text \<open>The table of every other target (\<open>syscalls_other.go\<close>) is empty.\<close>

definition syscallNumbers_other :: "string \<Rightarrow> int option" where
  "syscallNumbers_other name = None"

section \<open>Groups\<close>

definition group_system_service :: "string list" where
  "group_system_service =
    [
     ''read'', ''write'', ''open'', ''close'', ''openat'', ''openat2'', ''creat'', ''lseek'',
     ''pread64'', ''pwrite64'', ''readv'', ''writev'', ''preadv'', ''pwritev'', ''preadv2'',
     ''pwritev2'', ''dup'', ''dup2'', ''dup3'', ''pipe'', ''pipe2'', ''sendfile'', ''splice'', ''tee'',
     ''vmsplice'', ''copy_file_range'', ''ioctl'', ''fcntl'', ''fadvise64'', ''fallocate'', ''stat'',
     ''fstat'', ''lstat'', ''newfstatat'', ''statx'', ''statfs'', ''fstatfs'', ''access'',
     ''faccessat'', ''faccessat2'', ''getdents'', ''getdents64'', ''truncate'', ''ftruncate'',
     ''getcwd'', ''chdir'', ''fchdir'', ''rename'', ''renameat'', ''renameat2'', ''mkdir'', ''mkdirat'',
     ''rmdir'', ''unlink'', ''unlinkat'', ''link'', ''linkat'', ''symlink'', ''symlinkat'',
     ''readlink'', ''readlinkat'', ''chmod'', ''fchmod'', ''fchmodat'', ''chown'', ''fchown'',
     ''lchown'', ''fchownat'', ''umask'', ''sync'', ''syncfs'', ''fsync'', ''fdatasync'',
     ''sync_file_range'', ''brk'', ''mmap'', ''munmap'', ''mremap'', ''mprotect'', ''madvise'',
     ''mlock'', ''mlock2'', ''munlock'', ''mlockall'', ''munlockall'', ''mincore'', ''msync'',
     ''memfd_create'', ''fork'', ''vfork'', ''clone'', ''clone3'', ''execve'', ''execveat'', ''exit'',
     ''exit_group'', ''wait4'', ''waitid'', ''getpid'', ''getppid'', ''gettid'', ''getpgid'',
     ''getpgrp'', ''setpgid'', ''setsid'', ''getsid'', ''pidfd_open'', ''pidfd_send_signal'',
     ''pidfd_getfd'', ''kill'', ''tgkill'', ''tkill'', ''rt_sigaction'', ''rt_sigprocmask'',
     ''rt_sigreturn'', ''rt_sigpending'', ''rt_sigtimedwait'', ''rt_sigsuspend'', ''rt_sigqueueinfo'',
     ''rt_tgsigqueueinfo'', ''sigaltstack'', ''signalfd'', ''signalfd4'', ''pause'', ''getuid'',
     ''geteuid'', ''getgid'', ''getegid'', ''getgroups'', ''getresuid'', ''getresgid'',
     ''clock_gettime'', ''clock_getres'', ''clock_nanosleep'', ''gettimeofday'', ''time'',
     ''nanosleep'', ''alarm'', ''setitimer'', ''getitimer'', ''timer_create'', ''timer_settime'',
     ''timer_gettime'', ''timer_delete'', ''timer_getoverrun'', ''timerfd_create'', ''timerfd_settime'',
     ''timerfd_gettime'', ''poll'', ''ppoll'', ''select'', ''pselect6'', ''epoll_create'',
     ''epoll_create1'', ''epoll_ctl'', ''epoll_wait'', ''epoll_pwait'', ''epoll_pwait2'', ''eventfd'',
     ''eventfd2'', ''inotify_init'', ''inotify_init1'', ''inotify_add_watch'', ''inotify_rm_watch'',
     ''socket'', ''socketpair'', ''bind'', ''listen'', ''accept'', ''accept4'', ''connect'',
     ''getsockname'', ''getpeername'', ''sendto'', ''sendmsg'', ''sendmmsg'', ''recvfrom'', ''recvmsg'',
     ''recvmmsg'', ''shutdown'', ''setsockopt'', ''getsockopt'', ''sched_yield'', ''sched_getparam'',
     ''sched_getscheduler'', ''sched_get_priority_max'', ''sched_get_priority_min'',
     ''sched_rr_get_interval'', ''sched_getaffinity'', ''sched_getattr'', ''getrandom'', ''uname'',
     ''sysinfo'', ''prctl'', ''arch_prctl'', ''futex'', ''set_tid_address'', ''set_robust_list'',
     ''get_robust_list'', ''getrusage'', ''prlimit64'', ''getrlimit'', ''getpriority'', ''ioprio_get'',
     ''membarrier'', ''rseq'', ''close_range'']"

definition group_privileged :: "string list" where
  "group_privileged =
    [
     ''mount'', ''umount2'', ''pivot_root'', ''chroot'', ''setns'', ''unshare'', ''setuid'', ''setgid'',
     ''setreuid'', ''setregid'', ''setresuid'', ''setresgid'', ''setfsuid'', ''setfsgid'',
     ''setgroups'', ''capget'', ''capset'', ''reboot'', ''kexec_load'', ''kexec_file_load'',
     ''sethostname'', ''setdomainname'', ''iopl'', ''ioperm'', ''swapon'', ''swapoff'', ''syslog'',
     ''acct'', ''ptrace'', ''process_vm_readv'', ''process_vm_writev'', ''perf_event_open'', ''bpf'',
     ''userfaultfd'', ''kcmp'', ''init_module'', ''finit_module'', ''delete_module'', ''mknod'',
     ''mknodat'', ''clock_settime'', ''clock_adjtime'', ''settimeofday'', ''adjtimex'', ''quotactl'',
     ''setrlimit'', ''setpriority'', ''ioprio_set'', ''sched_setparam'', ''sched_setscheduler'',
     ''sched_setaffinity'', ''sched_setattr'']"

definition group_network_io :: "string list" where
  "group_network_io =
    [
     ''socket'', ''socketpair'', ''bind'', ''listen'', ''accept'', ''accept4'', ''connect'',
     ''getsockname'', ''getpeername'', ''sendto'', ''sendmsg'', ''sendmmsg'', ''recvfrom'', ''recvmsg'',
     ''recvmmsg'', ''shutdown'', ''setsockopt'', ''getsockopt'']"

definition group_file_system :: "string list" where
  "group_file_system =
    [
     ''open'', ''openat'', ''openat2'', ''close'', ''creat'', ''read'', ''write'', ''pread64'',
     ''pwrite64'', ''readv'', ''writev'', ''preadv'', ''pwritev'', ''preadv2'', ''pwritev2'', ''stat'',
     ''fstat'', ''lstat'', ''newfstatat'', ''statx'', ''statfs'', ''fstatfs'', ''access'',
     ''faccessat'', ''faccessat2'', ''chdir'', ''fchdir'', ''getcwd'', ''chmod'', ''fchmod'',
     ''fchmodat'', ''chown'', ''fchown'', ''lchown'', ''fchownat'', ''mkdir'', ''mkdirat'', ''rmdir'',
     ''unlink'', ''unlinkat'', ''rename'', ''renameat'', ''renameat2'', ''link'', ''linkat'',
     ''symlink'', ''symlinkat'', ''readlink'', ''readlinkat'', ''truncate'', ''ftruncate'',
     ''fallocate'', ''sync'', ''fsync'', ''fdatasync'', ''syncfs'', ''getdents'', ''getdents64'']"

definition group_process :: "string list" where
  "group_process =
    [
     ''fork'', ''vfork'', ''clone'', ''clone3'', ''execve'', ''execveat'', ''exit'', ''exit_group'',
     ''wait4'', ''waitid'', ''kill'', ''tgkill'', ''tkill'', ''pidfd_open'', ''pidfd_send_signal'',
     ''pidfd_getfd'', ''getpid'', ''getppid'', ''gettid'']"

definition group_clock :: "string list" where
  "group_clock =
    [
     ''clock_settime'', ''clock_adjtime'', ''settimeofday'', ''adjtimex'']"

definition group_debug :: "string list" where
  "group_debug =
    [
     ''ptrace'', ''process_vm_readv'', ''process_vm_writev'', ''perf_event_open'', ''kcmp'']"

definition group_ipc :: "string list" where
  "group_ipc =
    [
     ''shmget'', ''shmat'', ''shmdt'', ''shmctl'', ''semget'', ''semop'', ''semctl'', ''semtimedop'',
     ''msgget'', ''msgsnd'', ''msgrcv'', ''msgctl'', ''mq_open'', ''mq_unlink'', ''mq_timedsend'',
     ''mq_timedreceive'', ''mq_notify'', ''mq_getsetattr'']"

definition group_mount :: "string list" where
  "group_mount =
    [
     ''mount'', ''umount2'', ''pivot_root'']"

definition group_raw_io :: "string list" where
  "group_raw_io =
    [
     ''iopl'', ''ioperm'']"

definition group_reboot :: "string list" where
  "group_reboot =
    [
     ''reboot'', ''kexec_load'', ''kexec_file_load'']"

definition group_swap :: "string list" where
  "group_swap =
    [
     ''swapon'', ''swapoff'']"

definition syscallGroups :: "(string \<times> string list) list" where
  "syscallGroups =
    [(''@system-service'', group_system_service),
     (''@privileged'', group_privileged),
     (''@network-io'', group_network_io),
     (''@file-system'', group_file_system),
     (''@process'', group_process),
     (''@clock'', group_clock),
     (''@debug'', group_debug),
     (''@ipc'', group_ipc),
     (''@mount'', group_mount),
     (''@raw-io'', group_raw_io),
     (''@reboot'', group_reboot),
     (''@swap'', group_swap)]"

definition ExpandGroup :: "string \<Rightarrow> string list option" where
  "ExpandGroup name = map_of syscallGroups name"

definition Groups :: "string list" where
  "Groups = map fst syscallGroups"

section \<open>Architectures\<close>

definition auditArchX86_64 :: u32 where "auditArchX86_64 = 0xC000003E"
definition auditArchX86 :: u32 where "auditArchX86 = 0x40000003"
definition auditArchARM64 :: u32 where "auditArchARM64 = 0xC00000B7"
definition auditArchARM :: u32 where "auditArchARM = 0x40000028"

definition nativeArch :: "string \<Rightarrow> string" where
  "nativeArch goarch =
    (if goarch = ''amd64'' then ''x86-64''
     else if goarch = ''386'' then ''x86''
     else if goarch = ''arm64'' then ''arm64''
     else if goarch = ''arm'' then ''arm''
     else goarch)"

definition NativeArch :: "string \<Rightarrow> string" where
  "NativeArch goarch = nativeArch goarch"

definition archAliases :: "string \<Rightarrow> (string \<times> string) list" where
  "archAliases goarch =
    [(''native'', nativeArch goarch),
     (''x86-64'', ''x86-64''), (''x86_64'', ''x86-64''), (''amd64'', ''x86-64''),
     (''x86'', ''x86''), (''i386'', ''x86''), (''i686'', ''x86''),
     (''arm64'', ''arm64''), (''aarch64'', ''arm64''), (''arm'', ''arm'')]"

definition ResolveArch :: "string \<Rightarrow> string \<Rightarrow> string option" where
  "ResolveArch goarch name = map_of (archAliases goarch) (ToLower (TrimSpace name))"

definition archNumber :: "string \<Rightarrow> u32" where
  "archNumber canon =
    (if canon = ''x86-64'' then auditArchX86_64
     else if canon = ''x86'' then auditArchX86
     else if canon = ''arm64'' then auditArchARM64
     else if canon = ''arm'' then auditArchARM
     else 0)"

section \<open>The tables fit together\<close>

lemma ExpandGroup_groups: "ExpandGroup g = Some names \<Longrightarrow> (g, names) \<in> set syscallGroups"
  unfolding ExpandGroup_def by (rule map_of_SomeD)

text \<open>
  The names of a group are looked up in the table one by one: every name of the table is in the
  set \<open>S\<close>, hence every name of a group is.
\<close>

lemmas group_defs =
  group_system_service_def group_privileged_def group_network_io_def group_file_system_def
  group_process_def group_clock_def group_debug_def group_ipc_def group_mount_def group_raw_io_def
  group_reboot_def group_swap_def

lemma groups_in_table:
  assumes "list_all (\<lambda>n. n \<in> S) syscallNames"
  shows "list_all (list_all (\<lambda>n. n \<in> S)) (map snd syscallGroups)"
  using assms unfolding syscallNames_def syscallGroups_def group_defs list.map snd_conv list.pred_inject
  by simp

lemma groups_known:
  assumes "(g, names) \<in> set syscallGroups"
  shows "set names \<subseteq> set syscallNames"
proof -
  have "list_all (\<lambda>n. n \<in> set syscallNames) syscallNames" by (simp add: list_all_iff)
  then have "list_all (list_all (\<lambda>n. n \<in> set syscallNames)) (map snd syscallGroups)"
    by (rule groups_in_table)
  moreover have "names \<in> set (map snd syscallGroups)"
    using imageI [OF assms, of snd] by (simp only: snd_conv set_map)
  ultimately show ?thesis unfolding list_all_iff by (intro subsetI) blast
qed

lemma syscallNumbers_SomeD: "syscallNumbers sys n = Some k \<Longrightarrow> n \<in> set syscallNames"
  by (simp add: syscallNumbers_def split: if_splits)

lemma syscallNumbers_known: "n \<in> set syscallNames \<Longrightarrow> syscallNumbers sys n \<noteq> None"
  by (simp add: syscallNumbers_def)

lemma nativeArch_number:
  "goarch \<in> {''amd64'', ''386'', ''arm64'', ''arm''} \<Longrightarrow> archNumber (nativeArch goarch) \<noteq> 0"
  by (auto simp: nativeArch_def archNumber_def auditArchX86_64_def auditArchX86_def
      auditArchARM64_def auditArchARM_def)

lemma archNumber_inj:
  "archNumber a = archNumber b \<Longrightarrow> archNumber a \<noteq> 0 \<Longrightarrow> a = b"
  by (auto simp: archNumber_def auditArchX86_64_def auditArchX86_def auditArchARM64_def
      auditArchARM_def split: if_splits)

end
