(* ===== verification/Seccomp.thy ===== *)
theory Seccomp
  imports SeccompTables
begin

unbundle bit_operations_syntax

text \<open>
  System call filters, \<open>pkg/seccomp/filter.go\<close> and \<open>bpf_linux.go\<close>: the actions, the validation of a
  filter specification (\<open>Build\<close>), and the compiler to classic BPF (\<open>Compile\<close>).

  The kernel that runs the compiled program is not part of the repository. It is the parameter
  \<open>exec\<close> of the locale \<open>cbpf\<close>, whose assumptions are the documented effect of the instructions the
  package emits; \<open>bpf_exec\<close> is an interpreter that has these laws. The table of system call numbers
  is the parameter \<open>nums\<close> of the operations, so that they can be used with the table of
  linux/amd64 and with the empty table of the other targets.
\<close>

section \<open>Actions and filters\<close>

type_synonym Action = u32

definition ActionKill :: Action where "ActionKill = 0x80000000"
definition ActionAllow :: Action where "ActionAllow = 0x7fff0000"
definition actionErrnoBase :: Action where "actionErrnoBase = 0x00050000"
definition ActionLog :: Action where "ActionLog = 0x7ffc0000"
definition ActionTrap :: Action where "ActionTrap = 0x00030000"

lemmas action_defs =
  ActionKill_def ActionAllow_def actionErrnoBase_def ActionLog_def ActionTrap_def

type_synonym Mode = byte

definition ModeAllow :: Mode where "ModeAllow = 0"
definition ModeDeny :: Mode where "ModeDeny = 1"

lemma ModeAllow_neq_ModeDeny [simp]: "ModeAllow \<noteq> ModeDeny" "ModeDeny \<noteq> ModeAllow"
  by (simp_all add: ModeAllow_def ModeDeny_def)

datatype seccomp_error =
    UnknownAction string
  | TildeNotFirst string nat
  | UnknownGroup string
  | UnknownSyscall string
  | UnknownLogEntry string
  | LogList seccomp_error
  | UnknownArch string
  | NoArchConstant string
  | NilFilter
  | UnknownMode Mode
  | ProgramTooLong nat
  | FamilyOutOfRange int
  | MissingSyscall string

record Filter =
  Mode :: Mode
  Syscalls :: "string list"
  Archs :: "string list"
  DefaultAction :: Action
  LogSyscalls :: "string list"

definition errnoByName :: "string \<Rightarrow> int option" where
  "errnoByName s =
    (let n = ToUpper (TrimSpace s) in
     if n = ''EPERM'' then Some 1
     else if n = ''ENOENT'' then Some 2
     else if n = ''EACCES'' then Some 13
     else if n = ''EINVAL'' then Some 22
     else if n = ''ENOSYS'' then Some 38
     else None)"

text \<open>An errno is returned by the action in the high half and the number in the low half.\<close>

definition errno_action :: "int \<Rightarrow> Action" where
  "errno_action n = actionErrnoBase OR (word_of_int n AND 0xffff)"

definition ParseAction :: "string \<Rightarrow> (seccomp_error, Action) result" where
  "ParseAction s0 =
    (let s = TrimSpace s0; l = ToLower s in
     if l \<in> {'''', ''kill'', ''kill-process'', ''kill_process''} then Inr ActionKill
     else if l = ''log'' then Inr ActionLog
     else if l = ''trap'' then Inr ActionTrap
     else case errnoByName s of
         Some n \<Rightarrow> Inr (errno_action n)
       | None \<Rightarrow>
          (case Atoi s of
             None \<Rightarrow> Inl (UnknownAction s)
           | Some n \<Rightarrow>
              (if n \<le> 0 \<or> n > 4095 then Inl (UnknownAction s)
               else Inr (errno_action n))))"

section \<open>Building a filter\<close>

text \<open>The loops that add the names of an expansion that were not seen before.\<close>

fun append_new :: "'a list \<Rightarrow> 'a set \<Rightarrow> 'a list \<Rightarrow> 'a set \<times> 'a list" where
  "append_new [] seen out = (seen, out)"
| "append_new (n # ns) seen out =
    (if n \<in> seen then append_new ns seen out
     else append_new ns (insert n seen) (out @ [n]))"

definition appendItem ::
  "(string \<Rightarrow> int option) \<Rightarrow> string \<Rightarrow> string set \<times> string list
    \<Rightarrow> (seccomp_error, string set \<times> string list) result" where
  "appendItem nums it st =
    (if HasPrefix it ''@'' then
       (case ExpandGroup it of
          None \<Rightarrow> Inl (UnknownGroup it)
        | Some expansion \<Rightarrow> Inr (append_new expansion (fst st) (snd st)))
     else if nums it = None then Inl (UnknownSyscall it)
     else Inr (append_new [it] (fst st) (snd st)))"

fun build_items ::
  "(string \<Rightarrow> int option) \<Rightarrow> nat \<Rightarrow> string list \<Rightarrow> Mode \<Rightarrow> string set \<times> string list
    \<Rightarrow> (seccomp_error, Mode \<times> string list) result" where
  "build_items nums i [] mode st = Inr (mode, snd st)"
| "build_items nums i (it0 # its) mode st =
    (let it = TrimSpace it0 in
     if it = '''' then build_items nums (Suc i) its mode st
     else if HasPrefix it ''~'' \<and> i \<noteq> 0 then Inl (TildeNotFirst it i)
     else let mode' = (if HasPrefix it ''~'' then ModeDeny else mode);
              name = TrimPrefix it ''~'' in
       if name = '''' then build_items nums (Suc i) its mode' st
       else case appendItem nums name st of
           Inl e \<Rightarrow> Inl e
         | Inr st' \<Rightarrow> build_items nums (Suc i) its mode' st')"

fun check_log :: "(string \<Rightarrow> int option) \<Rightarrow> string list \<Rightarrow> seccomp_error option" where
  "check_log nums [] = None"
| "check_log nums (it # its) =
    (if it = '''' then check_log nums its
     else if nums it = None \<and> ExpandGroup it = None then Some (UnknownLogEntry it)
     else check_log nums its)"

fun expand_loop ::
  "(string \<Rightarrow> int option) \<Rightarrow> string list \<Rightarrow> string set \<times> string list
    \<Rightarrow> (seccomp_error, string list) result" where
  "expand_loop nums [] st = Inr (snd st)"
| "expand_loop nums (it0 # its) st =
    (let it = TrimSpace it0 in
     if it = '''' then expand_loop nums its st
     else case appendItem nums it st of
         Inl e \<Rightarrow> Inl e
       | Inr st' \<Rightarrow> expand_loop nums its st')"

definition expandList ::
  "(string \<Rightarrow> int option) \<Rightarrow> string list \<Rightarrow> (seccomp_error, string list) result" where
  "expandList nums items = expand_loop nums items ({}, [])"

fun canon_archs :: "string \<Rightarrow> string list \<Rightarrow> (seccomp_error, string list) result" where
  "canon_archs goarch [] = Inr []"
| "canon_archs goarch (a # as) =
    (case ResolveArch goarch a of
       None \<Rightarrow> Inl (UnknownArch a)
     | Some canon \<Rightarrow>
        (if archNumber canon = 0 then Inl (NoArchConstant canon)
         else case canon_archs goarch as of Inl e \<Rightarrow> Inl e | Inr cs \<Rightarrow> Inr (canon # cs)))"

definition Build ::
  "(string \<Rightarrow> int option) \<Rightarrow> string \<Rightarrow> string list \<Rightarrow> Mode \<Rightarrow> string list \<Rightarrow> Action \<Rightarrow> string list
    \<Rightarrow> (seccomp_error, Filter) result" where
  "Build nums goarch items mode archs def logList =
    (case build_items nums 0 items mode ({}, []) of
       Inl e \<Rightarrow> Inl e
     | Inr (mode', out) \<Rightarrow>
        (case check_log nums logList of
           Some e \<Rightarrow> Inl e
         | None \<Rightarrow>
            (case expandList nums logList of
               Inl e \<Rightarrow> Inl (LogList e)
             | Inr logOut \<Rightarrow>
                (case canon_archs goarch archs of
                   Inl e \<Rightarrow> Inl e
                 | Inr canonArchs \<Rightarrow>
                    Inr \<lparr>Mode = mode', Syscalls = out, Archs = canonArchs,
                         DefaultAction = def, LogSyscalls = logOut\<rparr>))))"

text \<open>
  The loops of \<open>SortedSyscallNumbers\<close> and \<open>SortedLogNumbers\<close>: the numbers of the known names, each
  number once.
\<close>

definition distinct_numbers :: "(string \<Rightarrow> int option) \<Rightarrow> string list \<Rightarrow> int list" where
  "distinct_numbers nums names = snd (append_new (List.map_filter nums names) {} [])"

definition SortedSyscallNumbers :: "(string \<Rightarrow> int option) \<Rightarrow> Filter \<Rightarrow> int list" where
  "SortedSyscallNumbers nums f = sort (distinct_numbers nums (Syscalls f))"

definition SortedLogNumbers :: "(string \<Rightarrow> int option) \<Rightarrow> Filter \<Rightarrow> int list" where
  "SortedLogNumbers nums f = sort (distinct_numbers nums (LogSyscalls f))"

section \<open>Compiling a filter\<close>

record SockFilter =
  Code :: u16
  Jt :: byte
  Jf :: byte
  K :: u32

definition bpfLD :: u16 where "bpfLD = 0x00"
definition bpfJMP :: u16 where "bpfJMP = 0x05"
definition bpfRET :: u16 where "bpfRET = 0x06"
definition bpfW :: u16 where "bpfW = 0x00"
definition bpfABS :: u16 where "bpfABS = 0x20"
definition bpfK :: u16 where "bpfK = 0x00"
definition bpfJEQ :: u16 where "bpfJEQ = 0x10"
definition bpfALU :: u16 where "bpfALU = 0x04"
definition bpfAND :: u16 where "bpfAND = 0x50"
definition bpfJSET :: u16 where "bpfJSET = 0x40"

lemmas bpf_defs =
  bpfLD_def bpfJMP_def bpfRET_def bpfW_def bpfABS_def bpfK_def bpfJEQ_def bpfALU_def bpfAND_def
  bpfJSET_def

definition offsetNR :: u32 where "offsetNR = 0"
definition offsetArch :: u32 where "offsetArch = 4"

definition retInsn :: "Action \<Rightarrow> SockFilter" where
  "retInsn a = \<lparr>Code = bpfRET OR bpfK, Jt = 0, Jf = 0, K = a\<rparr>"

definition loadNR :: SockFilter where
  "loadNR = \<lparr>Code = bpfLD OR bpfW OR bpfABS, Jt = 0, Jf = 0, K = offsetNR\<rparr>"

definition loadArch :: SockFilter where
  "loadArch = \<lparr>Code = bpfLD OR bpfW OR bpfABS, Jt = 0, Jf = 0, K = offsetArch\<rparr>"

text \<open>The conditional jump \<open>if A = k then skip jt else skip jf\<close>, as the literals of the source write it.\<close>

definition jeq :: "u32 \<Rightarrow> byte \<Rightarrow> byte \<Rightarrow> SockFilter" where
  "jeq k jt jf = \<lparr>Code = bpfJMP OR bpfJEQ OR bpfK, Jt = jt, Jf = jf, K = k\<rparr>"

text \<open>
  The compares of the architectures: compare \<open>i\<close> of \<open>n\<close> has \<open>jt = uint8(n - i)\<close>, which skips the
  remaining compares and the instruction after them.
\<close>

fun eq_chain :: "u32 list \<Rightarrow> SockFilter list" where
  "eq_chain [] = []"
| "eq_chain (k # ks) = jeq k (of_nat (length (k # ks))) 0 # eq_chain ks"

lemma length_eq_chain [simp]: "length (eq_chain ks) = length ks"
  by (induction ks) simp_all

definition match_ret :: "Action \<Rightarrow> int \<Rightarrow> SockFilter list" where
  "match_ret act n = [jeq (word_of_int n) 0 1, retInsn act]"

definition or_kill :: "Action \<Rightarrow> Action" where
  "or_kill a = (if a = 0 then ActionKill else a)"

definition filter_prog ::
  "string list \<Rightarrow> int list \<Rightarrow> int list \<Rightarrow> Action \<Rightarrow> Action \<Rightarrow> SockFilter list" where
  "filter_prog archs logs calls perEntry def =
    [loadArch] @ eq_chain (map archNumber archs) @ [retInsn ActionKill, loadNR]
    @ concat (map (match_ret ActionLog) logs)
    @ concat (map (match_ret perEntry) calls)
    @ [retInsn def]"

definition Compile ::
  "(string \<Rightarrow> int option) \<Rightarrow> string \<Rightarrow> Filter option \<Rightarrow> (seccomp_error, SockFilter list) result" where
  "Compile nums goarch fo =
    (case fo of
       None \<Rightarrow> Inl NilFilter
     | Some f \<Rightarrow>
        let archs = (if Archs f = [] then [NativeArch goarch] else Archs f);
            logs = SortedLogNumbers nums f;
            calls = SortedSyscallNumbers nums f;
            finish = (\<lambda>perEntry def.
              let prog = filter_prog archs logs calls perEntry def in
              if length prog > 4096 then Inl (ProgramTooLong (length prog)) else Inr prog)
        in
        if Mode f = ModeAllow then finish ActionAllow (or_kill (DefaultAction f))
        else if Mode f = ModeDeny then finish (or_kill (DefaultAction f)) ActionAllow
        else Inl (UnknownMode (Mode f)))"

section \<open>What a compiled program does\<close>

text \<open>The data a program reads, \<open>struct seccomp_data\<close>, and its 32-bit words (little endian).\<close>

record seccomp_data =
  nr :: u32
  arch :: u32
  instruction_pointer :: u64
  args :: "nat \<Rightarrow> u64"

definition seccomp_word :: "seccomp_data \<Rightarrow> u32 \<Rightarrow> u32" where
  "seccomp_word d k =
    (let half = (\<lambda>w :: u64. if unat k mod 8 = 0 then ucast w else ucast (drop_bit 32 w)) in
     if k = 0 then nr d
     else if k = 4 then arch d
     else if k < 16 then half (instruction_pointer d)
     else half (args d ((unat k - 16) div 8)))"

text \<open>
  The documented effect of the classic BPF instructions the package emits. \<open>exec p d a\<close> runs the
  program text \<open>p\<close> on the data \<open>d\<close> with accumulator \<open>a\<close>; a conditional jump skips \<open>jt\<close> or \<open>jf\<close> of the
  following instructions, so the rest of the program is all the machine can still reach.
\<close>

locale cbpf =
  fixes exec :: "SockFilter list \<Rightarrow> seccomp_data \<Rightarrow> u32 \<Rightarrow> u32 option"
  assumes ret: "Code i = bpfRET OR bpfK \<Longrightarrow> exec (i # p) d a = Some (K i)"
    and ld: "Code i = bpfLD OR bpfW OR bpfABS \<Longrightarrow> exec (i # p) d a = exec p d (seccomp_word d (K i))"
    and jump_eq: "Code i = bpfJMP OR bpfJEQ OR bpfK \<Longrightarrow>
      exec (i # p) d a = exec (drop (unat (if a = K i then Jt i else Jf i)) p) d a"
    and jump_set: "Code i = bpfJMP OR bpfJSET OR bpfK \<Longrightarrow>
      exec (i # p) d a = exec (drop (unat (if a AND K i \<noteq> 0 then Jt i else Jf i)) p) d a"
    and alu_and: "Code i = bpfALU OR bpfAND OR bpfK \<Longrightarrow> exec (i # p) d a = exec p d (a AND K i)"
begin

lemma exec_retInsn [simp]: "exec (retInsn act # p) d a = Some act"
  by (simp add: ret retInsn_def)

lemma exec_loadNR [simp]: "exec (loadNR # p) d a = exec p d (nr d)"
  by (simp add: ld loadNR_def seccomp_word_def offsetNR_def)

lemma exec_loadArch [simp]: "exec (loadArch # p) d a = exec p d (arch d)"
  by (simp add: ld loadArch_def seccomp_word_def offsetArch_def)

lemma exec_jeq [simp]:
  "exec (jeq k jt jf # p) d a = exec (drop (unat (if a = k then jt else jf)) p) d a"
  by (simp add: jump_eq jeq_def)

lemma exec_eq_chain:
  assumes "length ks \<le> 255"
  shows "exec (eq_chain ks @ retInsn act # p) d a = (if a \<in> set ks then exec p d a else Some act)"
  using assms
proof (induction ks)
  case (Cons k ks)
  have jt: "unat (of_nat (length (k # ks)) :: byte) = Suc (length ks)"
    using Cons.prems by (simp add: unat_of_nat del: of_nat_Suc)
  show ?case
  proof (cases "a = k")
    case True
    then show ?thesis using jt by (simp del: of_nat_Suc)
  next
    case False
    then show ?thesis using Cons by simp
  qed
qed simp

lemma exec_match_ret:
  "exec (concat (map (match_ret act) ns) @ p) d a =
    (if a \<in> word_of_int ` set ns then Some act else exec p d a)"
  by (induction ns) (simp_all add: match_ret_def)

lemma exec_filter_prog:
  assumes "length archs \<le> 255"
  shows "exec (filter_prog archs logs calls perEntry def) d a =
    Some (if arch d \<notin> archNumber ` set archs then ActionKill
          else if nr d \<in> word_of_int ` set logs then ActionLog
          else if nr d \<in> word_of_int ` set calls then perEntry
          else def)"
  using exec_match_ret [where p = "[retInsn def]"] assms
  by (simp add: filter_prog_def exec_eq_chain exec_match_ret)

end

text \<open>An interpreter with these laws. It is total: every jump is forward.\<close>

function bpf_exec :: "SockFilter list \<Rightarrow> seccomp_data \<Rightarrow> u32 \<Rightarrow> u32 option" where
  "bpf_exec [] d a = None"
| "bpf_exec (i # p) d a =
    (if Code i = bpfRET OR bpfK then Some (K i)
     else if Code i = bpfLD OR bpfW OR bpfABS then bpf_exec p d (seccomp_word d (K i))
     else if Code i = bpfJMP OR bpfJEQ OR bpfK then
       bpf_exec (drop (unat (if a = K i then Jt i else Jf i)) p) d a
     else if Code i = bpfJMP OR bpfJSET OR bpfK then
       bpf_exec (drop (unat (if a AND K i \<noteq> 0 then Jt i else Jf i)) p) d a
     else if Code i = bpfALU OR bpfAND OR bpfK then bpf_exec p d (a AND K i)
     else None)"
  by pat_completeness auto
termination by (relation "measure (\<lambda>(p, d, a). length p)") auto

lemma cbpf_bpf_exec: "cbpf bpf_exec"
  by unfold_locales (simp_all add: bpf_defs)

interpretation bpf: cbpf bpf_exec
  by (rule cbpf_bpf_exec)

section \<open>The decision a filter stands for\<close>

text \<open>The numbers of the names the tables know.\<close>

definition numbers_of :: "(string \<Rightarrow> int option) \<Rightarrow> string list \<Rightarrow> u32 set" where
  "numbers_of nums names = {word_of_int n | n m. m \<in> set names \<and> nums m = Some n}"

definition decision ::
  "(string \<Rightarrow> int option) \<Rightarrow> string \<Rightarrow> Filter \<Rightarrow> seccomp_data \<Rightarrow> Action" where
  "decision nums goarch f d =
    (let archs = (if Archs f = [] then {NativeArch goarch} else set (Archs f));
         listed = nr d \<in> numbers_of nums (Syscalls f) in
     if arch d \<notin> archNumber ` archs then ActionKill
     else if nr d \<in> numbers_of nums (LogSyscalls f) then ActionLog
     else if listed \<longleftrightarrow> Mode f = ModeAllow then ActionAllow
     else if DefaultAction f = 0 then ActionKill
     else DefaultAction f)"

lemma append_new_out:
  assumes "set out = seen" and "distinct out"
  shows "set (snd (append_new ns seen out)) = set ns \<union> seen \<and>
    distinct (snd (append_new ns seen out)) \<and>
    fst (append_new ns seen out) = set ns \<union> seen"
  using assms by (induction ns seen out rule: append_new.induct) auto

lemma distinct_numbers_set:
  "word_of_int ` set (distinct_numbers nums names) = numbers_of nums names"
proof -
  have "set (distinct_numbers nums names) = set (List.map_filter nums names)"
    by (simp add: distinct_numbers_def append_new_out)
  then show ?thesis by (auto simp: numbers_of_def map_filter_def image_iff) force
qed

lemma sorted_numbers_words:
  "word_of_int ` set (SortedSyscallNumbers nums f) = numbers_of nums (Syscalls f)"
  "word_of_int ` set (SortedLogNumbers nums f) = numbers_of nums (LogSyscalls f)"
  by (simp_all add: SortedSyscallNumbers_def SortedLogNumbers_def distinct_numbers_set)

lemma Compile_SomeD:
  assumes "Compile nums goarch (Some f) = Inr prog"
  shows "Mode f = ModeAllow \<and>
      prog = filter_prog (if Archs f = [] then [NativeArch goarch] else Archs f)
        (SortedLogNumbers nums f) (SortedSyscallNumbers nums f) ActionAllow (or_kill (DefaultAction f))
    \<or> Mode f = ModeDeny \<and>
      prog = filter_prog (if Archs f = [] then [NativeArch goarch] else Archs f)
        (SortedLogNumbers nums f) (SortedSyscallNumbers nums f) (or_kill (DefaultAction f)) ActionAllow"
  using assms by (simp add: Compile_def Let_def split: if_splits)

text \<open>
  Property C29. The program \<open>Compile\<close> emits, run by a machine with the documented semantics of classic
  BPF, always returns, and returns what the filter says: kill for an architecture that is not
  listed, then log for a call of the log list, then allow or the default action according to the
  mode. The compares of the architectures have jump offsets of eight bits, hence the bound.
\<close>

theorem compiled_filter_decides:
  assumes "cbpf exec"
    and "Compile nums goarch (Some f) = Inr prog"
    and "length (Archs f) \<le> 255"
  shows "exec prog d a = Some (decision nums goarch f d)"
proof -
  have len: "length (if Archs f = [] then [NativeArch goarch] else Archs f) \<le> 255"
    using assms(3) by simp
  show ?thesis
    using Compile_SomeD [OF assms(2)]
    by (elim disjE conjE)
      (simp_all add: cbpf.exec_filter_prog [OF assms(1) len] sorted_numbers_words decision_def
        or_kill_def)
qed

section \<open>What Build accepts\<close>

text \<open>The names an item of the specification stands for.\<close>

definition item_names :: "string \<Rightarrow> string set" where
  "item_names it =
    (if it = '''' then {}
     else if HasPrefix it ''@'' then set (case ExpandGroup it of None \<Rightarrow> [] | Some ns \<Rightarrow> ns)
     else {it})"

lemma item_names_Nil [simp]: "item_names [] = {}"
  by (simp add: item_names_def)

definition item_text :: "string \<Rightarrow> string" where
  "item_text it = TrimPrefix (TrimSpace it) ''~''"

definition names_ok :: "string set \<times> string list \<Rightarrow> bool" where
  "names_ok st \<longleftrightarrow> set (snd st) = fst st \<and> distinct (snd st)"

lemma names_ok_empty [simp]: "names_ok ({}, [])"
  by (simp add: names_ok_def)

lemma appendItem_ok:
  assumes "appendItem nums it st = Inr st'" and "names_ok st" and "it \<noteq> ''''"
  shows "names_ok st' \<and> set (snd st') = set (snd st) \<union> item_names it"
  using assms append_new_out [of "snd st" "fst st"]
  by (auto simp: appendItem_def item_names_def names_ok_def split: if_splits option.splits)

lemma expand_loop_ConsE:
  assumes "expand_loop nums (it # its) st = Inr out"
  obtains st' where "if TrimSpace it = [] then st' = st else appendItem nums (TrimSpace it) st = Inr st'"
    and "expand_loop nums its st' = Inr out"
proof (cases "TrimSpace it = []")
  case True
  then show ?thesis using that [of st] assms by simp
next
  case False
  then show ?thesis using that assms by (auto simp: Let_def split: sum.splits)
qed

lemma expand_loop_ok:
  assumes "expand_loop nums items st = Inr out" and "names_ok st"
  shows "distinct out \<and> set out = set (snd st) \<union> (\<Union>it\<in>set items. item_names (TrimSpace it))"
  using assms
proof (induction items arbitrary: st)
  case (Cons it its)
  from Cons.prems(1) obtain st'
    where st': "if TrimSpace it = [] then st' = st else appendItem nums (TrimSpace it) st = Inr st'"
      and rest: "expand_loop nums its st' = Inr out"
    by (rule expand_loop_ConsE)
  have "names_ok st' \<and> set (snd st') = set (snd st) \<union> item_names (TrimSpace it)"
    using st' appendItem_ok [OF _ Cons.prems(2)] Cons.prems(2) by (cases "TrimSpace it = []") auto
  then show ?case using Cons.IH [OF rest] by auto
qed (simp add: names_ok_def)

lemma build_items_ConsE:
  assumes "build_items nums i (it # its) mode st = Inr r"
  obtains m st' where
    "m = (if HasPrefix (TrimSpace it) ''~'' then ModeDeny else mode)"
    and "HasPrefix (TrimSpace it) ''~'' \<longrightarrow> i = 0"
    and "if item_text it = [] then st' = st else appendItem nums (item_text it) st = Inr st'"
    and "build_items nums (Suc i) its m st' = Inr r"
proof (cases "TrimSpace it = []")
  case True
  then show ?thesis using that assms by (simp add: Let_def item_text_def TrimPrefix_def)
next
  case ne: False
  define m where "m = (if HasPrefix (TrimSpace it) ''~'' then ModeDeny else mode)"
  have tilde: "HasPrefix (TrimSpace it) ''~'' \<longrightarrow> i = 0"
    using assms ne by (auto simp: Let_def split: if_splits)
  have rest: "(if item_text it = [] then build_items nums (Suc i) its m st
     else case appendItem nums (item_text it) st of
         Inl e \<Rightarrow> Inl e
       | Inr st' \<Rightarrow> build_items nums (Suc i) its m st') = Inr r"
    using assms ne tilde unfolding build_items.simps Let_def item_text_def m_def
    by (cases "HasPrefix (TrimSpace it) ''~''") simp_all
  show ?thesis
  proof (cases "item_text it = []")
    case True
    then show ?thesis using that [OF m_def tilde] rest by simp
  next
    case False
    then show ?thesis using that [OF m_def tilde] rest by (auto split: sum.splits)
  qed
qed

lemma build_items_ok:
  assumes "build_items nums i items mode st = Inr (mode', out)" and "names_ok st"
  shows "distinct out \<and> set out = set (snd st) \<union> (\<Union>it\<in>set items. item_names (item_text it)) \<and>
    mode' = (if i = 0 \<and> items \<noteq> [] \<and> HasPrefix (TrimSpace (hd items)) ''~'' then ModeDeny else mode)"
  using assms
proof (induction items arbitrary: i mode st)
  case (Cons it its)
  from Cons.prems(1) obtain m st' where m: "m = (if HasPrefix (TrimSpace it) ''~'' then ModeDeny else mode)"
    and tilde: "HasPrefix (TrimSpace it) ''~'' \<longrightarrow> i = 0"
    and st': "if item_text it = [] then st' = st else appendItem nums (item_text it) st = Inr st'"
    and rest: "build_items nums (Suc i) its m st' = Inr (mode', out)"
    by (rule build_items_ConsE)
  have "names_ok st' \<and> set (snd st') = set (snd st) \<union> item_names (item_text it)"
    using st' appendItem_ok [OF _ Cons.prems(2)] Cons.prems(2) by (cases "item_text it = []") auto
  then show ?case using Cons.IH [OF rest] m tilde by auto
qed (auto simp: names_ok_def)

lemma Build_SomeD:
  assumes "Build nums goarch items mode archs def logs = Inr f"
  shows "build_items nums 0 items mode ({}, []) = Inr (Mode f, Syscalls f)"
    and "expandList nums logs = Inr (LogSyscalls f)"
    and "canon_archs goarch archs = Inr (Archs f)"
    and "DefaultAction f = def"
  using assms by (auto simp: Build_def split: sum.splits prod.splits option.splits)

text \<open>
  A specification that \<open>Build\<close> accepts is expanded exactly: the filter lists the names
  of the items and of the groups among them, each name once, deny mode is chosen by a tilde on the
  first item and otherwise the mode is that of the caller, and the log list is expanded likewise.
\<close>

lemma Build_expands:
  assumes "Build nums goarch items mode archs def logs = Inr f"
  shows "set (Syscalls f) = (\<Union>it\<in>set items. item_names (item_text it)) \<and> distinct (Syscalls f) \<and>
    set (LogSyscalls f) = (\<Union>it\<in>set logs. item_names (TrimSpace it)) \<and> distinct (LogSyscalls f) \<and>
    Mode f = (if items \<noteq> [] \<and> HasPrefix (TrimSpace (hd items)) ''~'' then ModeDeny else mode) \<and>
    DefaultAction f = def"
  using build_items_ok [OF Build_SomeD(1) [OF assms]] Build_SomeD(2,4) [OF assms]
    expand_loop_ok [of nums logs "({}, [])"]
  by (simp add: expandList_def)

lemma item_names_known:
  assumes "appendItem (syscallNumbers sys) it st = Inr st'"
  shows "item_names it \<subseteq> set syscallNames"
  using assms groups_known ExpandGroup_groups syscallNumbers_SomeD
  by (fastforce simp: appendItem_def item_names_def split: if_splits option.splits)

lemma item_names_known_if:
  assumes "if it = [] then P else appendItem (syscallNumbers sys) it st = Inr st'"
  shows "item_names it \<subseteq> set syscallNames"
proof (cases "it = []")
  case False
  then show ?thesis using assms item_names_known [of sys it st st'] by simp
qed simp

lemma expand_loop_known:
  assumes "expand_loop (syscallNumbers sys) items st = Inr out"
  shows "(\<Union>it\<in>set items. item_names (TrimSpace it)) \<subseteq> set syscallNames"
  using assms
proof (induction items arbitrary: st)
  case (Cons it items)
  from Cons.prems obtain st'
    where st': "if TrimSpace it = [] then st' = st
        else appendItem (syscallNumbers sys) (TrimSpace it) st = Inr st'"
      and rest: "expand_loop (syscallNumbers sys) items st' = Inr out"
    by (rule expand_loop_ConsE)
  show ?case using item_names_known_if [OF st'] Cons.IH [OF rest] by simp
qed simp

lemma build_items_known:
  assumes "build_items (syscallNumbers sys) i items mode st = Inr r"
  shows "(\<Union>it\<in>set items. item_names (item_text it)) \<subseteq> set syscallNames"
  using assms
proof (induction items arbitrary: i mode st)
  case (Cons it items)
  from Cons.prems obtain m st'
    where st': "if item_text it = [] then st' = st
        else appendItem (syscallNumbers sys) (item_text it) st = Inr st'"
      and rest: "build_items (syscallNumbers sys) (Suc i) items m st' = Inr r"
    by (rule build_items_ConsE)
  show ?case using item_names_known_if [OF st'] Cons.IH [OF rest] by simp
qed simp

text \<open>
  On linux/amd64 every name of a filter that \<open>Build\<close> returns is a name of the table of
  system call numbers, whether it was given by itself or through a group: no entry is dropped when
  the filter is compiled.
\<close>

lemma Build_names_known:
  assumes "Build (syscallNumbers sys) goarch items mode archs def logs = Inr f"
  shows "\<forall>n \<in> set (Syscalls f) \<union> set (LogSyscalls f). syscallNumbers sys n \<noteq> None"
proof -
  have "set (Syscalls f) \<union> set (LogSyscalls f) \<subseteq> set syscallNames"
    using build_items_known [OF Build_SomeD(1) [OF assms]] expand_loop_known [of sys logs]
      build_items_ok [OF Build_SomeD(1) [OF assms]] expand_loop_ok [of "syscallNumbers sys" logs]
      Build_SomeD(2) [OF assms]
    by (auto simp: expandList_def)
  then show ?thesis using syscallNumbers_known by blast
qed

text \<open>
  On the targets whose table of system calls is empty a group is still accepted, and
  its names are dropped by the compiler: a filter in deny mode then allows every system call of the
  architecture.
\<close>

lemma deny_filter_open_elsewhere:
  assumes "cbpf exec"
    and "Build syscallNumbers_other goarch items mode [] def [] = Inr f"
    and "items \<noteq> []" and "HasPrefix (TrimSpace (hd items)) ''~''"
    and "Compile syscallNumbers_other goarch (Some f) = Inr prog"
    and "arch d = archNumber (NativeArch goarch)"
  shows "exec prog d a = Some ActionAllow"
proof -
  have archs: "Archs f = []" using Build_SomeD(3) [OF assms(2)] by simp
  have mode: "Mode f = ModeDeny"
    using build_items_ok [OF Build_SomeD(1) [OF assms(2)]] assms(3,4) by simp
  have none: "numbers_of syscallNumbers_other names = {}" for names
    by (simp add: numbers_of_def syscallNumbers_other_def)
  have "decision syscallNumbers_other goarch f d = ActionAllow"
    by (simp add: decision_def archs mode none assms(6))
  moreover have "exec prog d a = Some (decision syscallNumbers_other goarch f d)"
    using cbpf.exec_filter_prog [OF assms(1)] Compile_SomeD [OF assms(5)]
    by (auto simp: archs mode none sorted_numbers_words decision_def or_kill_def assms(6))
  ultimately show ?thesis by simp
qed

lemma errno_action_parts:
  assumes "1 \<le> n" and "n \<le> 4095"
  shows "errno_action n AND 0xffff0000 = actionErrnoBase" and "uint (errno_action n AND 0xffff) = n"
proof -
  have "(word_of_int n AND 0xffff :: u32) AND 0xffff0000 = 0"
    by (simp add: and.assoc)
  then show "errno_action n AND 0xffff0000 = actionErrnoBase"
    by (simp add: errno_action_def actionErrnoBase_def bit.conj_disj_distrib2)
  have "errno_action n AND 0xffff = (word_of_int n AND 0xffff)"
    by (simp add: errno_action_def actionErrnoBase_def bit.conj_disj_distrib2 and.assoc)
  also have "\<dots> = word_of_int n AND mask 16" by (simp add: mask_eq_exp_minus_1)
  also have "uint \<dots> = n"
    using assms
    by (simp add: unsigned_take_bit_eq uint_word_of_int take_bit_int_eq_self flip: take_bit_eq_mask)
  finally show "uint (errno_action n AND 0xffff) = n" .
qed

lemma errnoByName_range: "errnoByName s = Some n \<Longrightarrow> 1 \<le> n \<and> n \<le> 4095"
  by (auto simp: errnoByName_def Let_def split: if_splits)

lemma ParseAction_cases:
  assumes "ParseAction s = Inr a"
  shows "a \<in> {ActionKill, ActionLog, ActionTrap} \<or> (\<exists>n. 1 \<le> n \<and> n \<le> 4095 \<and> a = errno_action n)"
  using assms errnoByName_range [of "TrimSpace s"] unfolding ParseAction_def Let_def
  by (auto simp del: insert_iff split: if_splits option.splits) (metis linorder_not_less zless_imp_add1_zle add_0)
text \<open>
  \<open>ParseAction\<close> never yields the action allow nor the value zero that \<open>Compile\<close> replaces by
  kill: an accepted text is kill, log, trap or an errno between 1 and 4095 in the low bits.
\<close>

lemma ParseAction_range:
  assumes "ParseAction s = Inr a"
  shows "a \<in> {ActionKill, ActionLog, ActionTrap} \<or>
    (a AND 0xffff0000 = actionErrnoBase \<and> uint (a AND 0xffff) \<in> {1..4095})"
  using ParseAction_cases [OF assms] errno_action_parts by auto

section \<open>Accepted filters compile\<close>

lemma length_filter_prog:
  "length (filter_prog archs logs calls perEntry def) =
    length archs + 2 * length logs + 2 * length calls + 4"
proof -
  have "length (concat (map (match_ret act) ns)) = 2 * length ns" for act ns
    by (induction ns) (simp_all add: match_ret_def)
  then show ?thesis by (simp add: filter_prog_def)
qed

lemma length_distinct_numbers:
  assumes "set names \<subseteq> set syscallNames"
  shows "length (distinct_numbers nums names) \<le> length syscallNames"
proof -
  have dist: "distinct (distinct_numbers nums names)"
    and "set (distinct_numbers nums names) = set (List.map_filter nums names)"
    by (simp_all add: distinct_numbers_def append_new_out)
  then have "set (distinct_numbers nums names) \<subseteq> (the \<circ> nums) ` set syscallNames"
    using assms by (auto simp: map_filter_def)
  then have "card (set (distinct_numbers nums names)) \<le> card (set syscallNames)"
    by (meson List.finite_set card_image_le card_mono finite_imageI le_trans)
  then show ?thesis using distinct_card [OF dist] card_length [of syscallNames] by simp
qed

lemma length_syscallNames: "length syscallNames = 286"
  by (simp add: syscallNames_def)

text \<open>
  On linux/amd64 every filter that \<open>Build\<close> accepts, for up to 255 architectures, compiles:
  the program stays within the 4096 instructions of the kernel.
\<close>

lemma built_filter_compiles:
  assumes "Build (syscallNumbers sys) goarch items mode archs def logs = Inr f"
    and "mode \<in> {ModeAllow, ModeDeny}" and "length archs \<le> 255"
  shows "\<exists>prog. Compile (syscallNumbers sys) goarch (Some f) = Inr prog \<and> length prog \<le> 1403"
proof -
  have "length as = length cs" if "canon_archs goarch as = Inr cs" for as cs
    using that by (induction as arbitrary: cs) (auto split: option.splits if_splits sum.splits)
  then have archs: "length (Archs f) \<le> 255" using Build_SomeD(3) [OF assms(1)] assms(3) by metis
  have mode: "Mode f \<in> {ModeAllow, ModeDeny}"
    using build_items_ok [OF Build_SomeD(1) [OF assms(1)]] assms(2) by (auto split: if_splits)
  have "set (Syscalls f) \<subseteq> set syscallNames" "set (LogSyscalls f) \<subseteq> set syscallNames"
    using build_items_known [OF Build_SomeD(1) [OF assms(1)]] expand_loop_known [of sys logs]
      build_items_ok [OF Build_SomeD(1) [OF assms(1)]] expand_loop_ok [of "syscallNumbers sys" logs]
      Build_SomeD(2) [OF assms(1)]
    by (auto simp: expandList_def)
  then have "length (SortedSyscallNumbers (syscallNumbers sys) f) \<le> 286"
    "length (SortedLogNumbers (syscallNumbers sys) f) \<le> 286"
    using length_distinct_numbers length_syscallNames
    by (simp_all add: SortedSyscallNumbers_def SortedLogNumbers_def)
  then show ?thesis using archs mode by (auto simp: Compile_def length_filter_prog)
qed

section \<open>Examples\<close>

definition some_numbers :: "string \<Rightarrow> int option" where
  "some_numbers = map_of [(''read'', 0), (''reboot'', 169), (''syslog'', 103)]"

definition a_call :: "u32 \<Rightarrow> seccomp_data" where
  "a_call n = \<lparr>nr = n, arch = auditArchX86_64, instruction_pointer = 0, args = (\<lambda>_. 0)\<rparr>"

theorem compiled_filter_decides_witness:
  "let f = \<lparr>Mode = ModeDeny, Syscalls = [''reboot''], Archs = [], DefaultAction = 0, LogSyscalls = [''read'']\<rparr>
   in \<exists>prog. Compile some_numbers ''amd64'' (Some f) = Inr prog \<and>
     bpf_exec prog (a_call 169) 0 = Some ActionKill \<and> bpf_exec prog (a_call 0) 0 = Some ActionLog \<and>
     bpf_exec prog (a_call 1) 0 = Some ActionAllow"
proof -
  let ?f = "\<lparr>Mode = ModeDeny, Syscalls = [''reboot''], Archs = [], DefaultAction = 0, LogSyscalls = [''read'']\<rparr>"
  obtain prog where c: "Compile some_numbers ''amd64'' (Some ?f) = Inr prog"
    by (simp add: Compile_def Let_def length_filter_prog SortedSyscallNumbers_def SortedLogNumbers_def
        distinct_numbers_def map_filter_def some_numbers_def)
  have d: "decision some_numbers ''amd64'' ?f (a_call 169) = ActionKill"
    "decision some_numbers ''amd64'' ?f (a_call 0) = ActionLog"
    "decision some_numbers ''amd64'' ?f (a_call 1) = ActionAllow"
    by (simp_all add: decision_def Let_def numbers_of_def some_numbers_def a_call_def NativeArch_def
        nativeArch_def archNumber_def)
  show ?thesis
    using compiled_filter_decides [OF cbpf_bpf_exec c] c d unfolding Let_def by (intro exI [of _ prog]) simp
qed

lemma Build_expands_witness:
  "\<exists>f. Build some_numbers ''amd64'' ['' ~read'', ''@reboot''] ModeAllow [''native''] 0 [''syslog''] = Inr f \<and>
    Mode f = ModeDeny \<and> set (Syscalls f) = {''read'', ''reboot'', ''kexec_load'', ''kexec_file_load''}"
proof -
  obtain f where f: "Build some_numbers ''amd64'' ['' ~read'', ''@reboot''] ModeAllow [''native''] 0 [''syslog''] = Inr f"
    by (simp add: Build_def TrimSpace_def is_space_def TrimPrefix_def appendItem_def some_numbers_def
        ExpandGroup_def syscallGroups_def group_reboot_def expandList_def ResolveArch_def archAliases_def
        ToLower_def lower_char_def nativeArch_def archNumber_def auditArchX86_64_def)
  show ?thesis
    using Build_expands [OF f] f
    by (simp add: item_names_def item_text_def TrimSpace_def is_space_def TrimPrefix_def ExpandGroup_def
        syscallGroups_def group_reboot_def insert_commute)
qed

lemma deny_filter_open_elsewhere_witness:
  "\<exists>f prog. Build syscallNumbers_other ''arm64'' [''~@reboot''] ModeAllow [] ActionKill [] = Inr f \<and>
    Compile syscallNumbers_other ''arm64'' (Some f) = Inr prog \<and>
    bpf_exec prog ((a_call 142)\<lparr>arch := auditArchARM64\<rparr>) 0 = Some ActionAllow"
proof -
  obtain f where f: "Build syscallNumbers_other ''arm64'' [''~@reboot''] ModeAllow [] ActionKill [] = Inr f"
    by (simp add: Build_def TrimSpace_def is_space_def TrimPrefix_def appendItem_def
        ExpandGroup_def syscallGroups_def group_reboot_def expandList_def)
  have mode: "Mode f = ModeDeny"
    using build_items_ok [OF Build_SomeD(1) [OF f]] by (simp add: TrimSpace_def is_space_def)
  have none: "distinct_numbers syscallNumbers_other ns = []" for ns
    by (induction ns) (simp_all add: distinct_numbers_def map_filter_def syscallNumbers_other_def)
  obtain prog where p: "Compile syscallNumbers_other ''arm64'' (Some f) = Inr prog"
    using mode Build_SomeD(3) [OF f]
    by (simp add: Compile_def Let_def length_filter_prog SortedSyscallNumbers_def SortedLogNumbers_def none)
  have "HasPrefix (TrimSpace (hd [''~@reboot''])) ''~''" by (simp add: TrimSpace_def is_space_def)
  then have "bpf_exec prog ((a_call 142)\<lparr>arch := auditArchARM64\<rparr>) 0 = Some ActionAllow"
    by (intro deny_filter_open_elsewhere [OF cbpf_bpf_exec f _ _ p])
      (simp_all add: NativeArch_def nativeArch_def archNumber_def)
  then show ?thesis using f p by blast
qed

end
