(* ===== verification/Hardening.thy ===== *)
theory Hardening
  imports Seccomp
begin

unbundle bit_operations_syntax

text \<open>
  The hardening filters of the runner: the argument-checking programs of
  \<open>pkg/seccomp/restrict_linux.go\<close>, and their use in \<open>cmd/slinit-runner/seccomp.go\<close> and
  \<open>hardening.go\<close>. A program is characterised by the calls it kills, for every machine with the laws of
  \<open>cbpf\<close>. The runner is modelled as the sequence of steps it takes, a step being a system call that the
  kernel may refuse or an error it returns itself; \<open>take_steps\<close> takes them until one fails.
\<close>

section \<open>Instructions of the argument checks\<close>

definition loadArgLow32 :: "nat \<Rightarrow> SockFilter" where
  "loadArgLow32 i = \<lparr>Code = bpfLD OR bpfW OR bpfABS, Jt = 0, Jf = 0, K = of_nat (16 + i * 8)\<rparr>"

definition jne :: "u32 \<Rightarrow> byte \<Rightarrow> SockFilter" where
  "jne k skip = \<lparr>Code = bpfJMP OR bpfJEQ OR bpfK, Jt = 0, Jf = skip, K = k\<rparr>"

definition jsetFall :: "u32 \<Rightarrow> byte \<Rightarrow> SockFilter" where
  "jsetFall k skipOnClear = \<lparr>Code = bpfJMP OR bpfJSET OR bpfK, Jt = 0, Jf = skipOnClear, K = k\<rparr>"

definition aluAnd :: "u32 \<Rightarrow> SockFilter" where
  "aluAnd k = \<lparr>Code = bpfALU OR bpfAND OR bpfK, Jt = 0, Jf = 0, K = k\<rparr>"

definition archHeader :: "string \<Rightarrow> SockFilter list" where
  "archHeader goarch =
    [loadArch, jeq (archNumber (NativeArch goarch)) 1 0, retInsn ActionKill, loadNR]"

section \<open>The programs\<close>

type_synonym numbers = "string \<Rightarrow> int option"

definition CompileRestrictRealtime ::
  "numbers \<Rightarrow> string \<Rightarrow> (seccomp_error, SockFilter list) result" where
  "CompileRestrictRealtime nums goarch =
    (case nums ''sched_setscheduler'' of
       None \<Rightarrow> Inl (MissingSyscall ''sched_setscheduler'')
     | Some n \<Rightarrow>
        Inr (archHeader goarch
          @ [jne (word_of_int n) 6,
             loadArgLow32 1, aluAnd (NOT 0x40000000),
             jeq 1 2 0, jeq 2 1 0, jeq 6 0 1, retInsn ActionKill]
          @ (case nums ''sched_setattr'' of
               None \<Rightarrow> []
             | Some m \<Rightarrow> [loadNR, jne (word_of_int m) 1, retInsn ActionKill])
          @ [retInsn ActionAllow]))"

definition cloneNewMask :: u32 where
  "cloneNewMask = 0x00000080 OR 0x00020000 OR 0x02000000 OR 0x04000000 OR 0x08000000
    OR 0x10000000 OR 0x20000000 OR 0x40000000"

text \<open>The block \<open>if nr = n then kill when a bit of bits is set in the argument i\<close>.\<close>

definition arg_check :: "numbers \<Rightarrow> string \<Rightarrow> nat \<Rightarrow> u32 \<Rightarrow> SockFilter list" where
  "arg_check nums name i bits =
    (case nums name of
       None \<Rightarrow> []
     | Some n \<Rightarrow> [jne (word_of_int n) 3, loadArgLow32 i, jsetFall bits 1, retInsn ActionKill])"

definition reload :: "numbers \<Rightarrow> string \<Rightarrow> SockFilter list" where
  "reload nums name = (if nums name = None then [] else [loadNR])"

definition deny_call :: "numbers \<Rightarrow> string \<Rightarrow> SockFilter list" where
  "deny_call nums name =
    (case nums name of
       None \<Rightarrow> []
     | Some n \<Rightarrow> [jne (word_of_int n) 1, retInsn ActionKill])"

definition CompileRestrictNamespaces ::
  "numbers \<Rightarrow> string \<Rightarrow> (seccomp_error, SockFilter list) result" where
  "CompileRestrictNamespaces nums goarch =
    Inr (archHeader goarch
      @ arg_check nums ''unshare'' 0 cloneNewMask @ reload nums ''unshare''
      @ arg_check nums ''setns'' 1 cloneNewMask @ reload nums ''setns''
      @ arg_check nums ''clone'' 0 cloneNewMask @ reload nums ''clone''
      @ deny_call nums ''clone3''
      @ [retInsn ActionAllow])"

definition suidMask :: u32 where
  "suidMask = 0x800 OR 0x400"

definition CompileRestrictSUIDSGID ::
  "numbers \<Rightarrow> string \<Rightarrow> (seccomp_error, SockFilter list) result" where
  "CompileRestrictSUIDSGID nums goarch =
    Inr (archHeader goarch
      @ arg_check nums ''chmod'' 1 suidMask @ reload nums ''chmod''
      @ arg_check nums ''fchmod'' 1 suidMask @ reload nums ''fchmod''
      @ arg_check nums ''fchmodat'' 2 suidMask
      @ [retInsn ActionAllow])"

definition emitCheck :: "numbers \<Rightarrow> int list \<Rightarrow> string \<Rightarrow> nat \<Rightarrow> bool \<Rightarrow> SockFilter list" where
  "emitCheck nums allowed name argIdx isLast =
    (case nums name of
       None \<Rightarrow> []
     | Some n \<Rightarrow>
        (let trailerLen = (if isLast then 0 else 1);
             perSyscallLen = of_nat (length allowed) + 3 + trailerLen in
         [jne (word_of_int n) perSyscallLen, loadArgLow32 argIdx]
         @ eq_chain (map word_of_int allowed)
         @ [retInsn ActionKill, retInsn ActionAllow]
         @ (if isLast then [] else [loadNR])))"

definition CompileRestrictAddressFamilies ::
  "numbers \<Rightarrow> string \<Rightarrow> int list \<Rightarrow> (seccomp_error, SockFilter list) result" where
  "CompileRestrictAddressFamilies nums goarch allowed =
    (case find (\<lambda>af. af < 0 \<or> af > 0xffff) allowed of
       Some af \<Rightarrow> Inl (FamilyOutOfRange af)
     | None \<Rightarrow>
        Inr (archHeader goarch
          @ emitCheck nums allowed ''socket'' 0 False
          @ emitCheck nums allowed ''socketpair'' 0 True
          @ [retInsn ActionAllow]))"

definition mount_calls :: "string list" where
  "mount_calls =
    [''mount'', ''umount2'', ''fsopen'', ''fsconfig'', ''fsmount'', ''fspick'', ''move_mount'',
     ''open_tree'']"

definition CompileRestrictFileSystems ::
  "numbers \<Rightarrow> string \<Rightarrow> (seccomp_error, SockFilter list) result" where
  "CompileRestrictFileSystems nums goarch =
    Inr (archHeader goarch @ concat (map (deny_call nums) mount_calls) @ [retInsn ActionAllow])"

section \<open>What the programs kill\<close>

text \<open>The low 32 bits of an argument, and the test that a call is the one named.\<close>

definition arg32 :: "seccomp_data \<Rightarrow> nat \<Rightarrow> u32" where
  "arg32 d i = ucast (args d i)"

definition is_call :: "numbers \<Rightarrow> seccomp_data \<Rightarrow> string \<Rightarrow> bool" where
  "is_call nums d name \<longleftrightarrow> (\<exists>n. nums name = Some n \<and> nr d = word_of_int n)"

definition sets_bits :: "numbers \<Rightarrow> seccomp_data \<Rightarrow> string \<Rightarrow> nat \<Rightarrow> u32 \<Rightarrow> bool" where
  "sets_bits nums d name i bits \<longleftrightarrow> is_call nums d name \<and> arg32 d i AND bits \<noteq> 0"

lemma seccomp_word_arg: "i \<in> {0, 1, 2} \<Longrightarrow> seccomp_word d (of_nat (16 + i * 8)) = arg32 d i"
  by (auto simp: seccomp_word_def arg32_def)

context cbpf
begin

lemma exec_loadArg [simp]:
  "i \<in> {0, 1, 2} \<Longrightarrow> exec (loadArgLow32 i # p) d a = exec p d (arg32 d i)"
  by (subst ld) (simp_all only: loadArgLow32_def seccomp_word_arg SockFilter.select_convs)

lemma exec_jne [simp]: "exec (jne k skip # p) d a = exec (if a = k then p else drop (unat skip) p) d a"
  by (simp add: jump_eq jne_def)

lemma exec_jsetFall [simp]:
  "exec (jsetFall k skip # p) d a = exec (if a AND k \<noteq> 0 then p else drop (unat skip) p) d a"
  by (simp add: jump_set jsetFall_def)

lemma exec_aluAnd [simp]: "exec (aluAnd k # p) d a = exec p d (a AND k)"
  by (simp add: alu_and aluAnd_def)

lemma exec_archHeader [simp]:
  "exec (archHeader goarch @ p) d a =
    (if arch d = archNumber (NativeArch goarch) then exec p d (nr d) else Some ActionKill)"
  by (simp add: archHeader_def)

lemma exec_arg_check:
  assumes "i \<in> {0, 1, 2}"
  shows "exec (arg_check nums name i bits @ reload nums name @ p) d (nr d) =
    (if sets_bits nums d name i bits then Some ActionKill else exec p d (nr d))"
  using assms
  by (auto simp: arg_check_def reload_def sets_bits_def is_call_def simp del: insert_iff
      split: option.splits)

lemma exec_arg_check_last:
  assumes "i \<in> {0, 1, 2}"
  shows "exec (arg_check nums name i bits @ [retInsn act]) d (nr d) =
    (if sets_bits nums d name i bits then Some ActionKill else Some act)"
  using assms
  by (auto simp: arg_check_def sets_bits_def is_call_def simp del: insert_iff split: option.splits)

lemma exec_deny_call:
  "exec (deny_call nums name @ p) d (nr d) =
    (if is_call nums d name then Some ActionKill else exec p d (nr d))"
  by (auto simp: deny_call_def is_call_def split: option.splits)

lemma exec_deny_calls:
  "exec (concat (map (deny_call nums) names) @ p) d (nr d) =
    (if \<exists>n\<in>set names. is_call nums d n then Some ActionKill else exec p d (nr d))"
  by (induction names) (auto simp: exec_deny_call)

lemma exec_emitCheck:
  assumes "length allowed \<le> 251"
  shows "exec (emitCheck nums allowed name 0 False @ p) d (nr d) =
      (if is_call nums d name
       then Some (if arg32 d 0 \<in> word_of_int ` set allowed then ActionAllow else ActionKill)
       else exec p d (nr d))"
    and "exec (emitCheck nums allowed name 0 True @ retInsn act # p) d (nr d) =
      (if is_call nums d name
       then Some (if arg32 d 0 \<in> word_of_int ` set allowed then ActionAllow else ActionKill)
       else Some act)"
proof -
  have chain: "exec (eq_chain (map word_of_int allowed) @ retInsn ActionKill # q) d a =
      (if a \<in> word_of_int ` set allowed then exec q d a else Some ActionKill)" for q a
    using assms by (subst exec_eq_chain) simp_all
  have skip: "unat (of_nat (length allowed) + 3 + 1 :: byte) = 4 + length allowed"
    "unat (of_nat (length allowed) + 3 :: byte) = 3 + length allowed"
    using assms by (simp_all add: unat_word_ariths unat_of_nat)
  have drops: "drop (3 + length ks) (x # eq_chain ks @ y # z # q) = q"
    "drop (4 + length ks) (x # eq_chain ks @ y # z # t # q) = q"
    for ks :: "u32 list" and x y z t :: SockFilter and q
    by (simp_all add: numeral_eq_Suc)
  show "exec (emitCheck nums allowed name 0 False @ p) d (nr d) =
      (if is_call nums d name
       then Some (if arg32 d 0 \<in> word_of_int ` set allowed then ActionAllow else ActionKill)
       else exec p d (nr d))"
    using skip(1) drops(2) [of "map word_of_int allowed"]
    by (auto simp: emitCheck_def is_call_def chain Let_def split: option.splits)
  show "exec (emitCheck nums allowed name 0 True @ retInsn act # p) d (nr d) =
      (if is_call nums d name
       then Some (if arg32 d 0 \<in> word_of_int ` set allowed then ActionAllow else ActionKill)
       else Some act)"
    using skip(2) drops(1) [of "map word_of_int allowed"]
    by (auto simp: emitCheck_def is_call_def chain Let_def split: option.splits)
qed

lemma exec_restrict_realtime:
  assumes "CompileRestrictRealtime nums goarch = Inr prog"
  shows "exec prog d a = Some (if arch d \<noteq> archNumber (NativeArch goarch)
      \<or> is_call nums d ''sched_setattr''
      \<or> is_call nums d ''sched_setscheduler'' \<and> arg32 d 1 AND NOT 0x40000000 \<in> {1, 2, 6}
    then ActionKill else ActionAllow)"
  using assms
  by (auto simp: CompileRestrictRealtime_def is_call_def split: option.splits)

lemma exec_restrict_namespaces:
  assumes "CompileRestrictNamespaces nums goarch = Inr prog"
  shows "exec prog d a = Some (if arch d \<noteq> archNumber (NativeArch goarch)
      \<or> sets_bits nums d ''unshare'' 0 cloneNewMask \<or> sets_bits nums d ''setns'' 1 cloneNewMask
      \<or> sets_bits nums d ''clone'' 0 cloneNewMask \<or> is_call nums d ''clone3''
    then ActionKill else ActionAllow)"
  using assms by (auto simp: CompileRestrictNamespaces_def exec_arg_check exec_deny_call)

lemma exec_restrict_suidsgid:
  assumes "CompileRestrictSUIDSGID nums goarch = Inr prog"
  shows "exec prog d a = Some (if arch d \<noteq> archNumber (NativeArch goarch)
      \<or> sets_bits nums d ''chmod'' 1 suidMask \<or> sets_bits nums d ''fchmod'' 1 suidMask
      \<or> sets_bits nums d ''fchmodat'' 2 suidMask
    then ActionKill else ActionAllow)"
  using assms by (auto simp: CompileRestrictSUIDSGID_def exec_arg_check exec_arg_check_last)

lemma exec_restrict_file_systems:
  assumes "CompileRestrictFileSystems nums goarch = Inr prog"
  shows "exec prog d a = Some (if arch d \<noteq> archNumber (NativeArch goarch)
      \<or> (\<exists>n\<in>set mount_calls. is_call nums d n)
    then ActionKill else ActionAllow)"
  using assms by (auto simp: CompileRestrictFileSystems_def exec_deny_calls)

lemma exec_restrict_address_families:
  assumes "CompileRestrictAddressFamilies nums goarch allowed = Inr prog" and "length allowed \<le> 251"
  shows "exec prog d a = Some (if arch d \<noteq> archNumber (NativeArch goarch)
      \<or> (is_call nums d ''socket'' \<or> is_call nums d ''socketpair'')
        \<and> arg32 d 0 \<notin> word_of_int ` set allowed
    then ActionKill else ActionAllow)"
  using assms(1)
  by (auto simp: CompileRestrictAddressFamilies_def exec_emitCheck [OF assms(2)] split: option.splits)

end

text \<open>
  Property C31. The argument-checking programs kill exactly the calls they are meant for, and a call of
  another architecture: the real-time policies FIFO, RR and DEADLINE with or without the
  reset-on-fork bit and every \<open>sched_setattr\<close>; the calls that create or enter a namespace and every
  \<open>clone3\<close>; a mode with the set-user-ID or set-group-ID bit; every mount call. Every other call is
  allowed.
\<close>

theorem restrict_programs_kill:
  assumes "cbpf exec"
  shows "(CompileRestrictRealtime nums goarch = Inr prog \<longrightarrow>
      exec prog d a = Some (if arch d \<noteq> archNumber (NativeArch goarch)
          \<or> is_call nums d ''sched_setattr''
          \<or> is_call nums d ''sched_setscheduler'' \<and> arg32 d 1 AND NOT 0x40000000 \<in> {1, 2, 6}
        then ActionKill else ActionAllow)) \<and>
    (CompileRestrictNamespaces nums goarch = Inr prog \<longrightarrow>
      exec prog d a = Some (if arch d \<noteq> archNumber (NativeArch goarch)
          \<or> sets_bits nums d ''unshare'' 0 cloneNewMask \<or> sets_bits nums d ''setns'' 1 cloneNewMask
          \<or> sets_bits nums d ''clone'' 0 cloneNewMask \<or> is_call nums d ''clone3''
        then ActionKill else ActionAllow)) \<and>
    (CompileRestrictSUIDSGID nums goarch = Inr prog \<longrightarrow>
      exec prog d a = Some (if arch d \<noteq> archNumber (NativeArch goarch)
          \<or> sets_bits nums d ''chmod'' 1 suidMask \<or> sets_bits nums d ''fchmod'' 1 suidMask
          \<or> sets_bits nums d ''fchmodat'' 2 suidMask
        then ActionKill else ActionAllow)) \<and>
    (CompileRestrictFileSystems nums goarch = Inr prog \<longrightarrow>
      exec prog d a = Some (if arch d \<noteq> archNumber (NativeArch goarch)
          \<or> (\<exists>n\<in>set mount_calls. is_call nums d n)
        then ActionKill else ActionAllow))"
  using cbpf.exec_restrict_realtime [OF assms] cbpf.exec_restrict_namespaces [OF assms]
    cbpf.exec_restrict_suidsgid [OF assms] cbpf.exec_restrict_file_systems [OF assms]
  by (intro conjI impI)

text \<open>
  The address-family program, for up to 251 families, kills a \<open>socket\<close> or \<open>socketpair\<close> call
  exactly when its family is not in the list; the empty list kills all of them.
\<close>

lemma address_families_program:
  assumes "cbpf exec"
    and "CompileRestrictAddressFamilies nums goarch allowed = Inr prog"
    and "length allowed \<le> 251"
  shows "exec prog d a = Some (if arch d \<noteq> archNumber (NativeArch goarch)
      \<or> (is_call nums d ''socket'' \<or> is_call nums d ''socketpair'')
        \<and> arg32 d 0 \<notin> word_of_int ` set allowed
    then ActionKill else ActionAllow)"
  by (rule cbpf.exec_restrict_address_families [OF assms])

section \<open>The steps of the runner\<close>

datatype kcall =
    MountPrivate
  | BindRec string
  | RemountRO string
  | BindNullOverKmsg
  | SetMDWE
  | NoNewPrivs
  | Install "SockFilter list"

datatype runner_error =
    StatFailed string
  | CallFailed kcall
  | EmptyProgram
  | SeccompFailed seccomp_error
  | UnknownFamily string

datatype stat_result = Exists | NotExist | StatError

text \<open>A step is a call of the kernel, or an error the runner returns before it makes another call.\<close>

datatype step = Do kcall | Fail runner_error

fun take_steps :: "(kcall \<Rightarrow> bool) \<Rightarrow> step list \<Rightarrow> kcall list \<times> runner_error option" where
  "take_steps ok [] = ([], None)"
| "take_steps ok (Fail e # ss) = ([], Some e)"
| "take_steps ok (Do c # ss) =
    (if ok c then (case take_steps ok ss of (cs, e) \<Rightarrow> (c # cs, e)) else ([], Some (CallFailed c)))"

definition when_steps :: "bool \<Rightarrow> step list \<Rightarrow> step list" where
  "when_steps b ss = (if b then ss else [])"

definition install_steps :: "SockFilter list \<Rightarrow> step list" where
  "install_steps prog = (if prog = [] then [Fail EmptyProgram] else [Do (Install prog)])"

definition installArg :: "(seccomp_error, SockFilter list) result \<Rightarrow> step list" where
  "installArg build =
    (case build of Inl e \<Rightarrow> [Fail (SeccompFailed e)] | Inr prog \<Rightarrow> install_steps prog)"

definition remountROIfMount :: "(string \<Rightarrow> stat_result) \<Rightarrow> string \<Rightarrow> step list" where
  "remountROIfMount stat path =
    (case stat path of
       NotExist \<Rightarrow> []
     | StatError \<Rightarrow> [Fail (StatFailed path)]
     | Exists \<Rightarrow> [Do (BindRec path), Do (RemountRO path)])"

subsection \<open>The filter of the service\<close>

record seccompSpec =
  spec_filter :: "string list"
  spec_archs :: "string list"
  errorAct :: string
  logFilter :: "string list"

definition spec_active :: "seccompSpec \<Rightarrow> bool" where
  "spec_active s \<longleftrightarrow> spec_filter s \<noteq> [] \<or> logFilter s \<noteq> [] \<or> errorAct s \<noteq> '''' \<or> spec_archs s \<noteq> []"

definition installSeccomp :: "numbers \<Rightarrow> string \<Rightarrow> seccompSpec \<Rightarrow> step list" where
  "installSeccomp nums goarch s =
    (if \<not> spec_active s then []
     else case ParseAction (errorAct s) of
         Inl e \<Rightarrow> [Fail (SeccompFailed e)]
       | Inr defAction \<Rightarrow>
          (case Build nums goarch (spec_filter s) ModeAllow (spec_archs s) defAction (logFilter s) of
             Inl e \<Rightarrow> [Fail (SeccompFailed e)]
           | Inr f \<Rightarrow>
              (case Compile nums goarch (Some f) of
                 Inl e \<Rightarrow> [Fail (SeccompFailed e)]
               | Inr prog \<Rightarrow> Do NoNewPrivs # install_steps prog)))"

subsection \<open>Hardening\<close>

definition af_names :: "(string \<times> int) list" where
  "af_names =
    [(''UNIX'', 1), (''LOCAL'', 1), (''INET'', 2), (''AX25'', 3), (''IPX'', 4), (''APPLETALK'', 5),
     (''NETLINK'', 16), (''PACKET'', 17), (''INET6'', 10), (''BLUETOOTH'', 31), (''VSOCK'', 40)]"

fun parseAFList :: "string list \<Rightarrow> (runner_error, int list) result" where
  "parseAFList [] = Inr []"
| "parseAFList (raw # toks) =
    (let v = TrimSpace raw in
     if v = '''' then parseAFList toks
     else let w = ToUpper (TrimPrefix (ToUpper v) ''AF_'') in
       case (case map_of af_names w of Some n \<Rightarrow> Some n | None \<Rightarrow> Atoi w) of
         None \<Rightarrow> Inl (UnknownFamily raw)
       | Some n \<Rightarrow>
          (case parseAFList toks of Inl e \<Rightarrow> Inl e | Inr ns \<Rightarrow> Inr (n # ns)))"

record hardeningSpec =
  protectKernelTunables :: bool
  protectKernelModules :: bool
  protectKernelLogs :: bool
  protectClock :: bool
  protectControlGroups :: bool
  protectHostname :: bool
  lockPersonality :: bool
  restrictRealtime :: bool
  restrictNamespaces :: bool
  restrictSUIDSGID :: bool
  restrictFileSystems :: bool
  restrictAddressFamilies :: "int list"
  restrictAFEnabled :: bool
  memoryDenyWriteExecute :: bool

definition hardening_active :: "hardeningSpec \<Rightarrow> bool" where
  "hardening_active h \<longleftrightarrow>
    protectKernelTunables h \<or> protectKernelModules h \<or> protectKernelLogs h \<or> protectClock h
    \<or> protectControlGroups h \<or> protectHostname h \<or> lockPersonality h
    \<or> restrictRealtime h \<or> restrictNamespaces h \<or> restrictSUIDSGID h \<or> restrictFileSystems h
    \<or> restrictAFEnabled h \<or> memoryDenyWriteExecute h"

definition needsMountNS :: "hardeningSpec \<Rightarrow> bool" where
  "needsMountNS h \<longleftrightarrow> protectKernelTunables h \<or> protectControlGroups h \<or> protectKernelLogs h"

definition collectDenyList :: "hardeningSpec \<Rightarrow> string list" where
  "collectDenyList h =
    (if protectKernelTunables h then [''iopl'', ''ioperm'', ''swapon'', ''swapoff''] else [])
    @ (if protectKernelModules h then [''init_module'', ''finit_module'', ''delete_module''] else [])
    @ (if protectKernelLogs h then [''syslog''] else [])
    @ (if protectClock h
       then [''clock_settime'', ''clock_adjtime'', ''settimeofday'', ''adjtimex''] else [])
    @ (if protectHostname h then [''sethostname'', ''setdomainname''] else [])
    @ (if lockPersonality h then [''personality''] else [])"

definition deny_filter :: "string \<Rightarrow> hardeningSpec \<Rightarrow> Filter" where
  "deny_filter goarch h =
    \<lparr>Mode = ModeDeny, Syscalls = collectDenyList h, Archs = [NativeArch goarch],
     DefaultAction = ActionKill, LogSyscalls = []\<rparr>"

definition seccompNeeded :: "hardeningSpec \<Rightarrow> bool" where
  "seccompNeeded h \<longleftrightarrow>
    collectDenyList h \<noteq> [] \<or> restrictRealtime h \<or> restrictNamespaces h \<or> restrictSUIDSGID h
    \<or> restrictFileSystems h \<or> restrictAFEnabled h"

definition applyHardening ::
  "numbers \<Rightarrow> string \<Rightarrow> (string \<Rightarrow> stat_result) \<Rightarrow> hardeningSpec \<Rightarrow> step list" where
  "applyHardening nums goarch stat h =
    (if \<not> hardening_active h then []
     else
       when_steps (needsMountNS h) [Do MountPrivate]
       @ when_steps (protectKernelTunables h) (remountROIfMount stat ''/proc/sys'')
       @ when_steps (protectControlGroups h) (remountROIfMount stat ''/sys/fs/cgroup'')
       @ when_steps (protectKernelLogs h \<and> stat ''/dev/kmsg'' = Exists) [Do BindNullOverKmsg]
       @ when_steps (memoryDenyWriteExecute h) [Do SetMDWE]
       @ when_steps (seccompNeeded h) [Do NoNewPrivs]
       @ when_steps (collectDenyList h \<noteq> []) (installArg (Compile nums goarch (Some (deny_filter goarch h))))
       @ when_steps (restrictRealtime h) (installArg (CompileRestrictRealtime nums goarch))
       @ when_steps (restrictNamespaces h) (installArg (CompileRestrictNamespaces nums goarch))
       @ when_steps (restrictSUIDSGID h) (installArg (CompileRestrictSUIDSGID nums goarch))
       @ when_steps (restrictFileSystems h) (installArg (CompileRestrictFileSystems nums goarch))
       @ when_steps (restrictAFEnabled h)
           (installArg (CompileRestrictAddressFamilies nums goarch (restrictAddressFamilies h))))"

section \<open>What the runner enforces\<close>

lemma take_steps_done:
  assumes "take_steps ok ss = (cs, None)"
  shows "(\<forall>e. Fail e \<notin> set ss) \<and> set cs = {c. Do c \<in> set ss}"
  using assms by (induction ok ss arbitrary: cs rule: take_steps.induct) (auto split: if_splits prod.splits)

lemma installArg_done:
  assumes "take_steps ok ss = (cs, None)" and "set (installArg build) \<subseteq> set ss"
  obtains prog where "build = Inr prog" and "Install prog \<in> set cs"
proof (cases build)
  case (Inl e)
  then show ?thesis using take_steps_done [OF assms(1)] assms(2) by (auto simp: installArg_def)
next
  case (Inr prog)
  then show ?thesis
    using that take_steps_done [OF assms(1)] assms(2)
    by (auto simp: installArg_def install_steps_def split: if_splits)
qed

text \<open>A call is killed when one of the installed programs says so.\<close>

definition killed ::
  "(SockFilter list \<Rightarrow> seccomp_data \<Rightarrow> u32 \<Rightarrow> u32 option) \<Rightarrow> kcall list \<Rightarrow> seccomp_data \<Rightarrow> bool" where
  "killed exec cs d \<longleftrightarrow> (\<exists>prog. Install prog \<in> set cs \<and> exec prog d 0 = Some ActionKill)"

lemma killed_by:
  assumes "take_steps ok ss = (cs, None)" and "set (installArg build) \<subseteq> set ss"
    and "\<And>prog. build = Inr prog \<Longrightarrow> exec prog d 0 = Some ActionKill"
  shows "killed exec cs d"
  unfolding killed_def using installArg_done [OF assms(1,2)] assms(3) by metis

lemma hardening_steps:
  "collectDenyList h \<noteq> [] \<Longrightarrow>
    set (installArg (Compile nums goarch (Some (deny_filter goarch h))))
      \<subseteq> set (applyHardening nums goarch stat h)"
  "restrictRealtime h \<Longrightarrow>
    set (installArg (CompileRestrictRealtime nums goarch)) \<subseteq> set (applyHardening nums goarch stat h)"
  "restrictNamespaces h \<Longrightarrow>
    set (installArg (CompileRestrictNamespaces nums goarch)) \<subseteq> set (applyHardening nums goarch stat h)"
  "restrictSUIDSGID h \<Longrightarrow>
    set (installArg (CompileRestrictSUIDSGID nums goarch)) \<subseteq> set (applyHardening nums goarch stat h)"
  "restrictFileSystems h \<Longrightarrow>
    set (installArg (CompileRestrictFileSystems nums goarch)) \<subseteq> set (applyHardening nums goarch stat h)"
  "restrictAFEnabled h \<Longrightarrow>
    set (installArg (CompileRestrictAddressFamilies nums goarch (restrictAddressFamilies h)))
      \<subseteq> set (applyHardening nums goarch stat h)"
  by (auto simp: applyHardening_def hardening_active_def when_steps_def collectDenyList_def
      split: if_splits)

lemma deny_filter_kills:
  assumes "cbpf exec" and "Compile nums goarch (Some (deny_filter goarch h)) = Inr prog"
    and "n \<in> set (collectDenyList h)" and "is_call nums d n"
  shows "exec prog d 0 = Some ActionKill"
proof -
  have "nr d \<in> numbers_of nums (collectDenyList h)"
    using assms(3,4) by (auto simp: numbers_of_def is_call_def)
  then have "decision nums goarch (deny_filter goarch h) d = ActionKill"
    by (auto simp: decision_def deny_filter_def numbers_of_def)
  then show ?thesis
    using cbpf.exec_filter_prog [OF assms(1)] Compile_SomeD [OF assms(2)]
    by (auto simp: deny_filter_def sorted_numbers_words decision_def or_kill_def)
qed

text \<open>
  When the runner has applied the hardening without an error, a call that one of the active settings
  forbids and that the table knows is killed.
\<close>

lemma known_calls_killed:
  assumes "cbpf exec"
    and "take_steps ok (applyHardening nums goarch stat h) = (cs, None)"
  shows "(\<forall>n\<in>set (collectDenyList h). is_call nums d n \<longrightarrow> killed exec cs d) \<and>
    (restrictRealtime h \<and> (is_call nums d ''sched_setattr''
      \<or> is_call nums d ''sched_setscheduler'' \<and> arg32 d 1 AND NOT 0x40000000 \<in> {1, 2, 6})
      \<longrightarrow> killed exec cs d) \<and>
    (restrictNamespaces h \<and> (is_call nums d ''clone3'' \<or> sets_bits nums d ''unshare'' 0 cloneNewMask
      \<or> sets_bits nums d ''setns'' 1 cloneNewMask \<or> sets_bits nums d ''clone'' 0 cloneNewMask)
      \<longrightarrow> killed exec cs d) \<and>
    (restrictSUIDSGID h \<and> (sets_bits nums d ''chmod'' 1 suidMask \<or> sets_bits nums d ''fchmod'' 1 suidMask
      \<or> sets_bits nums d ''fchmodat'' 2 suidMask) \<longrightarrow> killed exec cs d) \<and>
    (restrictFileSystems h \<and> (\<exists>n\<in>set mount_calls. is_call nums d n) \<longrightarrow> killed exec cs d)"
  (is "?deny \<and> ?rt \<and> ?ns \<and> ?su \<and> ?fs")
proof (intro conjI)
  show ?deny
  proof (intro ballI impI)
    fix n assume n: "n \<in> set (collectDenyList h)" and call: "is_call nums d n"
    then have "collectDenyList h \<noteq> []" by auto
    then show "killed exec cs d"
      by (rule killed_by [OF assms(2) hardening_steps(1)])
        (rule deny_filter_kills [OF assms(1) _ n call])
  qed
  show ?rt
    using killed_by [OF assms(2) hardening_steps(2), of exec d]
      cbpf.exec_restrict_realtime [OF assms(1), of nums goarch _ d] by auto
  show ?ns
    using killed_by [OF assms(2) hardening_steps(3), of exec d]
      cbpf.exec_restrict_namespaces [OF assms(1), of nums goarch _ d] by auto
  show ?su
    using killed_by [OF assms(2) hardening_steps(4), of exec d]
      cbpf.exec_restrict_suidsgid [OF assms(1), of nums goarch _ d] by auto
  show ?fs
    using killed_by [OF assms(2) hardening_steps(5), of exec d]
      cbpf.exec_restrict_file_systems [OF assms(1), of nums goarch _ d] by auto
qed

text \<open>The calls of the hardening settings, by the number the kernel gives them; the table has them all.\<close>

definition makes_call :: "(string \<Rightarrow> int) \<Rightarrow> seccomp_data \<Rightarrow> string \<Rightarrow> bool" where
  "makes_call sys d name \<longleftrightarrow> nr d = word_of_int (sys (''SYS_'' @ ToUpper name))"

definition restricted_names :: "string list" where
  "restricted_names =
    [''iopl'', ''ioperm'', ''swapon'', ''swapoff'', ''init_module'', ''finit_module'', ''delete_module'', ''syslog'',
     ''clock_settime'', ''clock_adjtime'', ''settimeofday'', ''adjtimex'', ''sethostname'', ''setdomainname'',
     ''sched_setattr'', ''sched_setscheduler'', ''clone3'', ''unshare'', ''setns'', ''clone'', ''chmod'', ''fchmod'',
     ''fchmodat'', ''socket'', ''socketpair''] @ mount_calls"

lemma restricted_names_known: "set restricted_names \<subseteq> set syscallNames"
  unfolding restricted_names_def mount_calls_def syscallNames_def by simp

lemma makes_call_known:
  assumes "n \<in> set restricted_names"
  shows "is_call (syscallNumbers sys) d n \<longleftrightarrow> makes_call sys d n"
  using assms restricted_names_known by (auto simp: is_call_def makes_call_def syscallNumbers_def)

lemma address_families_killed:
  assumes "cbpf exec" "take_steps ok (applyHardening nums goarch stat h) = (cs, None)" "restrictAFEnabled h"
    and "length (restrictAddressFamilies h) \<le> 251" "is_call nums d ''socket'' \<or> is_call nums d ''socketpair''"
    and "arg32 d 0 \<notin> word_of_int ` set (restrictAddressFamilies h)"
  shows "killed exec cs d"
  using killed_by [OF assms(2) hardening_steps(6) [OF assms(3)]] assms(4-6)
    cbpf.exec_restrict_address_families [OF assms(1) _ assms(4)] by simp

text \<open>
  Property C30. On amd64, when the runner has applied the hardening without an error, the calls that the active
  settings are there to forbid are killed, by the number the kernel gives them: the calls that tune, load
  or log the kernel, set the clock or the host name, the real-time policies, the creation of namespaces,
  the modes with set-user-ID or set-group-ID bits, the mount calls, and sockets of a family that is not in
  a list of at most 251. An error of a compiler or of the kernel ends the run before the service is
  executed. (Not among them is lock-personality, see \<open>lock_personality_kills_nothing\<close>.)
\<close>

theorem hardening_enforced:
  assumes "cbpf exec"
    and "take_steps ok (applyHardening (syscallNumbers sys) goarch stat h) = (cs, None)"
    and "protectKernelTunables h \<and> (\<exists>n\<in>{''iopl'', ''ioperm'', ''swapon'', ''swapoff''}. makes_call sys d n)
      \<or> protectKernelModules h \<and> (\<exists>n\<in>{''init_module'', ''finit_module'', ''delete_module''}. makes_call sys d n)
      \<or> protectKernelLogs h \<and> makes_call sys d ''syslog''
      \<or> protectClock h \<and> (\<exists>n\<in>{''clock_settime'', ''clock_adjtime'', ''settimeofday'', ''adjtimex''}. makes_call sys d n)
      \<or> protectHostname h \<and> (\<exists>n\<in>{''sethostname'', ''setdomainname''}. makes_call sys d n)
      \<or> restrictRealtime h \<and> (makes_call sys d ''sched_setattr''
          \<or> makes_call sys d ''sched_setscheduler'' \<and> arg32 d 1 AND NOT 0x40000000 \<in> {1, 2, 6})
      \<or> restrictNamespaces h \<and> (makes_call sys d ''clone3''
          \<or> makes_call sys d ''unshare'' \<and> arg32 d 0 AND cloneNewMask \<noteq> 0
          \<or> makes_call sys d ''setns'' \<and> arg32 d 1 AND cloneNewMask \<noteq> 0
          \<or> makes_call sys d ''clone'' \<and> arg32 d 0 AND cloneNewMask \<noteq> 0)
      \<or> restrictSUIDSGID h \<and> (makes_call sys d ''chmod'' \<and> arg32 d 1 AND 0xC00 \<noteq> 0
          \<or> makes_call sys d ''fchmod'' \<and> arg32 d 1 AND 0xC00 \<noteq> 0
          \<or> makes_call sys d ''fchmodat'' \<and> arg32 d 2 AND 0xC00 \<noteq> 0)
      \<or> restrictFileSystems h \<and> (\<exists>n\<in>set mount_calls. makes_call sys d n)
      \<or> restrictAFEnabled h \<and> length (restrictAddressFamilies h) \<le> 251
          \<and> (makes_call sys d ''socket'' \<or> makes_call sys d ''socketpair'')
          \<and> arg32 d 0 \<notin> word_of_int ` set (restrictAddressFamilies h)"
  shows "killed exec cs d"
proof -
  have known: "makes_call sys d n \<longleftrightarrow> is_call (syscallNumbers sys) d n" if "n \<in> set restricted_names" for n
    using makes_call_known [OF that] ..
  have suid: "0xC00 = suidMask" by (simp add: suidMask_def)
  from assms(3) show ?thesis
    using known_calls_killed [OF assms(1,2), of d] address_families_killed [OF assms(1,2), of d]
    unfolding suid sets_bits_def collectDenyList_def
    by (elim disjE) (auto simp: known restricted_names_def)
qed

lemma installSeccomp_done:
  assumes "take_steps ok (installSeccomp nums goarch s) = (cs, None)" and "spec_active s"
  obtains act f prog where "ParseAction (errorAct s) = Inr act"
    and "Build nums goarch (spec_filter s) ModeAllow (spec_archs s) act (logFilter s) = Inr f"
    and "Compile nums goarch (Some f) = Inr prog"
    and "set cs = {NoNewPrivs, Install prog}"
proof -
  note fin = take_steps_done [OF assms(1)]
  obtain act where act: "ParseAction (errorAct s) = Inr act"
    using fin assms(2) by (cases "ParseAction (errorAct s)") (auto simp: installSeccomp_def)
  obtain f where f: "Build nums goarch (spec_filter s) ModeAllow (spec_archs s) act (logFilter s) = Inr f"
    using fin assms(2) act
    by (cases "Build nums goarch (spec_filter s) ModeAllow (spec_archs s) act (logFilter s)")
      (auto simp: installSeccomp_def)
  obtain prog where prog: "Compile nums goarch (Some f) = Inr prog"
    using fin assms(2) act f by (cases "Compile nums goarch (Some f)") (auto simp: installSeccomp_def)
  have "set cs = {NoNewPrivs, Install prog}"
    using fin assms(2) act f prog
    by (auto simp: installSeccomp_def install_steps_def split: if_splits)
  then show ?thesis by (rule that [OF act f prog])
qed

lemma canon_archs_length: "canon_archs goarch as = Inr cs \<Longrightarrow> length cs = length as"
  by (induction as arbitrary: cs) (auto split: option.splits if_splits sum.splits)

lemma ParseAction_empty: "ParseAction '''' = Inr ActionKill"
  by (simp add: ParseAction_def TrimSpace_def ToLower_def)

lemma spec_program:
  assumes "cbpf exec" and "take_steps ok (installSeccomp nums goarch s) = (cs, None)"
    and "spec_active s" and "errorAct s = ''''" and "length (spec_archs s) \<le> 255"
    and "\<not> (spec_filter s \<noteq> [] \<and> HasPrefix (TrimSpace (hd (spec_filter s))) ''~'')"
  shows "\<exists>f prog. set cs = {NoNewPrivs, Install prog} \<and>
    Build nums goarch (spec_filter s) ModeAllow (spec_archs s) ActionKill (logFilter s) = Inr f \<and>
    (\<forall>d a. nr d \<notin> numbers_of nums (Syscalls f) \<union> numbers_of nums (LogSyscalls f)
      \<longrightarrow> exec prog d a = Some ActionKill)"
proof -
  obtain f prog
    where f: "Build nums goarch (spec_filter s) ModeAllow (spec_archs s) ActionKill (logFilter s) = Inr f"
      and prog: "Compile nums goarch (Some f) = Inr prog" "set cs = {NoNewPrivs, Install prog}"
    using installSeccomp_done [OF assms(2,3)] assms(4) ParseAction_empty by (metis Inr_inject)
  have len: "length (Archs f) \<le> 255" using Build_SomeD(3) [OF f] assms(5) canon_archs_length by metis
  have mode: "Mode f = ModeAllow"
    using build_items_ok [OF Build_SomeD(1) [OF f]] assms(6) by (auto split: if_splits)
  have "exec prog d a = Some ActionKill"
    if "nr d \<notin> numbers_of nums (Syscalls f) \<union> numbers_of nums (LogSyscalls f)" for d a
  proof -
    have "decision nums goarch f d = ActionKill"
      using that mode Build_SomeD(4) [OF f] by (simp add: decision_def Let_def)
    moreover have "exec prog d a = Some (decision nums goarch f d)"
      using cbpf.exec_filter_prog [OF assms(1)] Compile_SomeD [OF prog(1)] len
      by (auto simp: sorted_numbers_words decision_def or_kill_def)
    ultimately show ?thesis by simp
  qed
  then show ?thesis using prog(2) f by blast
qed

text \<open>
  A specification that lists architectures but no system calls is active: the runner
  installs an allow list with nothing on it, and every system call of the service is killed, its
  \<open>execve\<close> included.
\<close>

lemma archs_without_filter_kill_all:
  assumes "cbpf exec"
    and "spec_filter s = []" and "logFilter s = []" and "errorAct s = ''''"
    and "spec_archs s \<noteq> []" and "length (spec_archs s) \<le> 255"
    and "take_steps ok (installSeccomp nums goarch s) = (cs, None)"
  shows "\<forall>d. killed exec cs d"
proof -
  have "spec_active s" using assms(5) by (simp add: spec_active_def)
  then obtain f :: Filter and prog where prog: "set cs = {NoNewPrivs, Install prog}"
    and f: "Build nums goarch (spec_filter s) ModeAllow (spec_archs s) ActionKill (logFilter s) = Inr f"
    and kill: "\<forall>d a. nr d \<notin> numbers_of nums (Syscalls f) \<union> numbers_of nums (LogSyscalls f)
      \<longrightarrow> exec prog d a = Some ActionKill"
    using spec_program [OF assms(1,7) _ assms(4,6)] assms(2) by blast
  have "Syscalls f = []" "LogSyscalls f = []"
    using Build_SomeD(1,2) [OF f] assms(2,3) by (simp_all add: expandList_def)
  then show ?thesis using kill prog by (auto simp: killed_def numbers_of_def)
qed

lemma seccomp_unknown: "''seccomp'' \<notin> set syscallNames"
  unfolding syscallNames_def by simp

lemma personality_unknown: "''personality'' \<notin> set syscallNames"
  unfolding syscallNames_def by simp

text \<open>
  The system call \<open>seccomp\<close> is not in the table, so no allow list can name it: once the
  filter of a service is installed, the call with which the runner would install a hardening filter
  is itself killed. (The hypothesis on \<open>sys\<close> is that the kernel gives \<open>seccomp\<close> a number of its own.)
\<close>

lemma allow_list_kills_seccomp:
  assumes "cbpf exec"
    and "spec_filter s \<noteq> []" and "\<not> HasPrefix (TrimSpace (hd (spec_filter s))) ''~''"
    and "errorAct s = ''''" and "length (spec_archs s) \<le> 255"
    and "take_steps ok (installSeccomp (syscallNumbers sys) goarch s) = (cs, None)"
    and "\<forall>n\<in>set syscallNames. (word_of_int (sys (''SYS_'' @ ToUpper n)) :: u32)
      \<noteq> word_of_int (sys ''SYS_SECCOMP'')"
    and "nr d = word_of_int (sys ''SYS_SECCOMP'')"
  shows "killed exec cs d"
proof -
  have act: "spec_active s" using assms(2) by (simp add: spec_active_def)
  have pre: "\<not> (spec_filter s \<noteq> [] \<and> HasPrefix (TrimSpace (hd (spec_filter s))) ''~'')"
    using assms(3) by (rule contrapos_nn) (rule conjunct2)
  from spec_program [OF assms(1,6) act assms(4,5) pre] obtain f :: Filter and prog where prog: "set cs = {NoNewPrivs, Install prog}"
    and kill: "\<forall>d a. nr d \<notin> numbers_of (syscallNumbers sys) (Syscalls f)
        \<union> numbers_of (syscallNumbers sys) (LogSyscalls f) \<longrightarrow> exec prog d a = Some ActionKill"
    by (elim exE conjE) (rule that, assumption+)
  have "nr d \<notin> numbers_of (syscallNumbers sys) names" for names
  proof
    assume "nr d \<in> numbers_of (syscallNumbers sys) names"
    then obtain n m where m: "syscallNumbers sys m = Some n" and n: "nr d = word_of_int n"
      by (auto simp: numbers_of_def)
    from m have "m \<in> set syscallNames" "n = sys (''SYS_'' @ ToUpper m)"
      by (simp_all only: syscallNumbers_def option.inject option.distinct split: if_splits)
    then show False using n assms(7,8) by metis
  qed
  then have "exec prog d 0 = Some ActionKill" using kill by blast
  then show ?thesis using prog by (auto simp: killed_def)
qed

text \<open>
  The system call \<open>personality\<close> is not in the table either, and the compiler drops names
  it does not know: with lock-personality as the only setting, the runner succeeds and kills no call
  of its architecture.
\<close>

lemma lock_personality_kills_nothing:
  assumes "cbpf exec"
    and "collectDenyList h = [''personality'']" and "\<not> restrictRealtime h"
    and "\<not> restrictNamespaces h" and "\<not> restrictSUIDSGID h" and "\<not> restrictFileSystems h"
    and "\<not> restrictAFEnabled h"
    and "take_steps ok (applyHardening (syscallNumbers sys) goarch stat h) = (cs, None)"
    and "arch d = archNumber (NativeArch goarch)"
  shows "\<not> killed exec cs d"
proof -
  have none: "numbers_of (syscallNumbers sys) [''personality''] = {}"
    using personality_unknown by (simp add: numbers_of_def syscallNumbers_def)
  have allow: "exec prog d a = Some ActionAllow"
    if "Compile (syscallNumbers sys) goarch (Some (deny_filter goarch h)) = Inr prog" for prog a
    using cbpf.exec_filter_prog [OF assms(1)] Compile_SomeD [OF that] none assms(2,9)
    by (auto simp: deny_filter_def sorted_numbers_words or_kill_def numbers_of_def)
  have "Install prog \<in> set cs \<Longrightarrow>
      Compile (syscallNumbers sys) goarch (Some (deny_filter goarch h)) = Inr prog" for prog
    using take_steps_done [OF assms(8)] assms(3-7)
    by (auto simp: applyHardening_def when_steps_def installArg_def install_steps_def
        remountROIfMount_def split: if_splits sum.splits stat_result.splits)
  then show ?thesis using allow by (force simp: killed_def action_defs)
qed

section \<open>Examples\<close>

theorem restrict_programs_kill_witness:
  "\<exists>prog. CompileRestrictFileSystems (map_of [(''mount'', 165)]) ''amd64'' = Inr prog \<and>
    bpf_exec prog (a_call 165) 0 = Some ActionKill \<and> bpf_exec prog (a_call 1) 0 = Some ActionAllow"
proof -
  obtain prog where p: "CompileRestrictFileSystems (map_of [(''mount'', 165)]) ''amd64'' = Inr prog"
    by (simp add: CompileRestrictFileSystems_def)
  show ?thesis
    using restrict_programs_kill [OF cbpf_bpf_exec, of "map_of [(''mount'', 165)]" "''amd64''" prog] p
    by (auto simp: mount_calls_def is_call_def a_call_def NativeArch_def nativeArch_def archNumber_def)
qed

definition no_hardening :: hardeningSpec where
  "no_hardening =
    \<lparr>protectKernelTunables = False, protectKernelModules = False, protectKernelLogs = False,
     protectClock = False, protectControlGroups = False, protectHostname = False, lockPersonality = False,
     restrictRealtime = False, restrictNamespaces = False, restrictSUIDSGID = False,
     restrictFileSystems = False, restrictAddressFamilies = [], restrictAFEnabled = False,
     memoryDenyWriteExecute = False\<rparr>"

theorem hardening_enforced_witness:
  "\<exists>cs. take_steps (\<lambda>_. True) (applyHardening (syscallNumbers (\<lambda>n. if n = ''SYS_SYSLOG'' then 103 else 0)) ''amd64''
      (\<lambda>_. NotExist) (no_hardening\<lparr>protectKernelLogs := True\<rparr>)) = (cs, None) \<and> killed bpf_exec cs (a_call 103)"
proof -
  let ?h = "no_hardening\<lparr>protectKernelLogs := True\<rparr>" and ?sys = "\<lambda>n. if n = ''SYS_SYSLOG'' then 103 else (0 :: int)"
  have up: "ToUpper ''syslog'' = ''SYSLOG''" by code_simp
  have num: "syscallNumbers ?sys ''syslog'' = Some 103"
    using restricted_names_known by (auto simp: syscallNumbers_def up restricted_names_def)
  obtain cs where cs: "take_steps (\<lambda>_. True) (applyHardening (syscallNumbers ?sys) ''amd64'' (\<lambda>_. NotExist) ?h) = (cs, None)"
    by (simp add: applyHardening_def no_hardening_def hardening_active_def when_steps_def seccompNeeded_def
        collectDenyList_def installArg_def install_steps_def Compile_def Let_def deny_filter_def
        length_filter_prog SortedSyscallNumbers_def SortedLogNumbers_def distinct_numbers_def map_filter_def
        num needsMountNS_def ModeAllow_def ModeDeny_def) (simp add: filter_prog_def)
  have "protectKernelLogs ?h" "makes_call ?sys (a_call 103) ''syslog''"
    by (simp_all add: no_hardening_def makes_call_def a_call_def up)
  then have "killed bpf_exec cs (a_call 103)" by (intro hardening_enforced [OF cbpf_bpf_exec cs]) blast
  then show ?thesis using cs by blast
qed

lemma names_of_length_7:
  "filter (\<lambda>n. length n = 7) syscallNames =
    [''openat2'', ''pread64'', ''pwritev'', ''preadv2'', ''fstatfs'', ''mkdirat'', ''symlink'', ''madvise'', ''munlock'',
     ''mincore'', ''getppid'', ''getpgid'', ''getpgrp'', ''setpgid'', ''geteuid'', ''getegid'', ''eventfd'', ''accept4'',
     ''connect'', ''sendmsg'', ''recvmsg'', ''mq_open'', ''sysinfo'', ''umount2'', ''fsmount'', ''unshare'', ''swapoff'',
     ''mknodat'']"
  unfolding syscallNames_def by simp

lemma upper_seccomp_unknown: "\<forall>n\<in>set syscallNames. ToUpper n \<noteq> ''SECCOMP''"
proof (intro ballI notI)
  fix n assume n: "n \<in> set syscallNames" and up: "ToUpper n = ''SECCOMP''"
  have "length n = 7" using arg_cong [OF up, of length] by (simp add: ToUpper_def)
  then have seven: "n \<in> set (filter (\<lambda>n. length n = 7) syscallNames)" using n by simp
  have "upper_char (n ! 4) = CHR ''O''" "upper_char (n ! 6) = CHR ''P''"
    using arg_cong [OF up, of "\<lambda>s. s ! 4"] arg_cong [OF up, of "\<lambda>s. s ! 6"] \<open>length n = 7\<close>
    by (simp_all add: ToUpper_def)
  then have "of_char (upper_char (n ! 4)) = (79 :: nat)" "of_char (upper_char (n ! 6)) = (80 :: nat)"
    by simp_all
  then show False using seven unfolding names_of_length_7 by (auto simp: upper_char_def)
qed

lemma allow_list_kills_seccomp_witness:
  "let sys = (\<lambda>n. if n = ''SYS_SECCOMP'' then 317 else 0) in
   \<exists>cs. take_steps (\<lambda>_. True) (installSeccomp (syscallNumbers sys) ''amd64''
      \<lparr>spec_filter = [''@swap''], spec_archs = [], errorAct = [], logFilter = []\<rparr>) = (cs, None) \<and>
    killed bpf_exec cs (a_call 317)"
proof -
  let ?sys = "\<lambda>n. if n = ''SYS_SECCOMP'' then 317 else (0 :: int)"
  let ?s = "\<lparr>spec_filter = [''@swap''], spec_archs = [], errorAct = [], logFilter = []\<rparr>"
  obtain f where f: "Build (syscallNumbers ?sys) ''amd64'' [''@swap''] ModeAllow [] ActionKill [] = Inr f"
    by (simp add: Build_def TrimSpace_def is_space_def TrimPrefix_def appendItem_def
        ExpandGroup_def syscallGroups_def group_swap_def expandList_def)
  obtain prog where p: "Compile (syscallNumbers ?sys) ''amd64'' (Some f) = Inr prog" "prog \<noteq> []"
    using built_filter_compiles [OF f] Compile_SomeD by (fastforce simp: filter_prog_def)
  have cs: "take_steps (\<lambda>_. True) (installSeccomp (syscallNumbers ?sys) ''amd64'' ?s)
      = ([NoNewPrivs, Install prog], None)"
    using f p by (simp add: installSeccomp_def spec_active_def ParseAction_empty install_steps_def)
  have "\<forall>n\<in>set syscallNames. (word_of_int (?sys (''SYS_'' @ ToUpper n)) :: u32)
      \<noteq> word_of_int (?sys ''SYS_SECCOMP'')"
    using upper_seccomp_unknown by simp
  then have "killed bpf_exec [NoNewPrivs, Install prog] (a_call 317)"
    by (intro allow_list_kills_seccomp [OF cbpf_bpf_exec _ _ _ _ cs])
      (simp_all add: TrimSpace_def is_space_def a_call_def)
  then show ?thesis using cs unfolding Let_def by blast
qed

lemma lock_personality_kills_nothing_witness:
  "\<exists>cs. take_steps (\<lambda>_. True) (applyHardening (syscallNumbers (\<lambda>_. 135)) ''amd64'' (\<lambda>_. NotExist)
      (no_hardening\<lparr>lockPersonality := True\<rparr>)) = (cs, None) \<and> \<not> killed bpf_exec cs (a_call 135)"
proof -
  let ?h = "no_hardening\<lparr>lockPersonality := True\<rparr>"
  have deny: "collectDenyList ?h = [''personality'']" by (simp add: collectDenyList_def no_hardening_def)
  have none: "syscallNumbers (\<lambda>_. 135) ''personality'' = None"
    using personality_unknown by (simp add: syscallNumbers_def)
  obtain cs where cs: "take_steps (\<lambda>_. True) (applyHardening (syscallNumbers (\<lambda>_. 135)) ''amd64''
      (\<lambda>_. NotExist) ?h) = (cs, None)"
    by (simp add: applyHardening_def deny hardening_active_def when_steps_def seccompNeeded_def installArg_def
        install_steps_def Compile_def Let_def deny_filter_def length_filter_prog SortedSyscallNumbers_def
        SortedLogNumbers_def distinct_numbers_def map_filter_def none needsMountNS_def)
      (simp add: no_hardening_def filter_prog_def)
  have "\<not> killed bpf_exec cs (a_call 135)"
    by (rule lock_personality_kills_nothing [OF cbpf_bpf_exec deny _ _ _ _ _ cs])
      (simp_all add: no_hardening_def a_call_def NativeArch_def nativeArch_def archNumber_def)
  then show ?thesis using cs by blast
qed

end
