(* ===== verification/GoTime.thy ===== *)
theory GoTime
  imports Prelude
begin

text \<open>
  The part of Go's \<open>time\<close> package the calendar uses, for a location with a fixed offset from UTC: an
  instant is a number of seconds since 2000-01-01 00:00:00 of that location (possibly negative), and
  its year, month, day, hour, minute, second and weekday are those of the proleptic Gregorian
  calendar. \<open>Date\<close> normalises out-of-range months, days and times of day as \<open>time.Date\<close> does. Changes
  of the offset (daylight saving) are not modelled.
\<close>

section \<open>Days\<close>

definition leap :: "int \<Rightarrow> bool" where
  "leap y \<longleftrightarrow> 4 dvd y \<and> (\<not> 100 dvd y \<or> 400 dvd y)"

definition year_len :: "int \<Rightarrow> int" where
  "year_len y = (if leap y then 366 else 365)"

text \<open>The number of the first day of a year; day 0 is 2000-01-01.\<close>

definition year_start :: "int \<Rightarrow> int" where
  "year_start y = 365 * (y - 2000) + ((y - 1) div 4 - (y - 1) div 100 + (y - 1) div 400 - 484)"

text \<open>The days of a year before its month \<open>m\<close>, for \<open>m\<close> from 1 to 13.\<close>

definition month_start :: "int \<Rightarrow> int \<Rightarrow> int" where
  "month_start y m = (367 * m - 362) div 12 - (if m \<le> 2 then 0 else if leap y then 1 else 2)"

text \<open>The day number of a date whose month and day need not be in range.\<close>

definition date_days :: "int \<Rightarrow> int \<Rightarrow> int \<Rightarrow> int" where
  "date_days y m d =
    (let y' = y + (m - 1) div 12; m' = (m - 1) mod 12 + 1 in year_start y' + month_start y' m' + (d - 1))"

lemma div_step:
  fixes y k :: int
  assumes "k > 0"
  shows "y div k = (y - 1) div k + (if k dvd y then 1 else 0)"
proof (cases "k dvd y")
  case True
  then obtain q where q: "y = k * q" by (rule dvdE)
  then have "y div k = q" using assms by simp
  moreover have "(y - 1) div k = q - 1"
    using assms q by (intro int_div_pos_eq [where r = "k - 1"]) (auto simp: algebra_simps)
  ultimately show ?thesis using True by simp
next
  case False
  have "y mod k \<noteq> 0" "0 \<le> y mod k" "y mod k < k" using False assms by (auto simp: dvd_eq_mod_eq_0)
  then have "(y - 1) div k = y div k"
    by (intro int_div_pos_eq [where r = "y mod k - 1"]) (auto simp: algebra_simps)
  then show ?thesis using False by simp
qed

lemma leap_count:
  assumes "b \<Longrightarrow> a" and "c \<Longrightarrow> b"
  shows "x + 365 + (if a then 1 else 0) - (if b then 1 else 0) + (if c then 1 else 0)
    = x + (if a \<and> (\<not> b \<or> c) then 366 else 365 :: int)"
  using assms by (cases a; cases b; cases c) simp_all

lemma year_start_Suc: "year_start (y + 1) = year_start y + year_len y"
proof -
  have h4: "4 dvd y" if "100 dvd y" by (rule dvd_trans [OF _ that]) simp
  have h100: "100 dvd y" if "400 dvd y" by (rule dvd_trans [OF _ that]) simp
  have "year_start (y + 1) = year_start y + 365 + (if 4 dvd y then 1 else 0)
      - (if 100 dvd y then 1 else 0) + (if 400 dvd y then 1 else 0)"
    unfolding year_start_def using div_step [of 4 y] div_step [of 100 y] div_step [of 400 y]
    by (simp only: add_diff_cancel_right' distrib_left right_diff_distrib)
  then show ?thesis unfolding year_len_def leap_def by (rule trans [OF _ leap_count [OF h4 h100]])
qed

lemma year_len_bounds: "365 \<le> year_len y" "year_len y \<le> 366"
  by (simp_all add: year_len_def)

lemma year_start_less: "year_start y < year_start (y + 1)"
  using year_start_Suc [of y] year_len_bounds [of y] by simp

text \<open>A year at or before the year of day \<open>n\<close>, from which the year is found by going forward.\<close>

definition year_guess :: "int \<Rightarrow> int" where
  "year_guess n = 2000 + (if n \<ge> 0 then n div 366 else n div 365)"

function year_from :: "int \<Rightarrow> int \<Rightarrow> int" where
  "year_from n y = (if year_start (y + 1) \<le> n then year_from n (y + 1) else y)"
  by pat_completeness auto
termination
  by (relation "measure (\<lambda>(n, y). nat (n - year_start y))")
    (use year_start_less in \<open>auto simp: algebra_simps zless_nat_eq_int_zless\<close>)

declare year_from.simps [simp del]

definition year_of :: "int \<Rightarrow> int" where
  "year_of n = year_from n (year_guess n)"

lemma year_from_bounds:
  assumes "year_start y \<le> n"
  shows "year_start (year_from n y) \<le> n \<and> n < year_start (year_from n y + 1)"
  using assms
proof (induction n y rule: year_from.induct)
  case (1 n y)
  then show ?case by (subst (1 2) year_from.simps) auto
qed

lemma year_start_up: "k \<ge> 0 \<Longrightarrow> year_start (2000 + k) \<le> 366 * k"
proof (induction k rule: int_ge_induct)
  case (step i)
  then show ?case
    using year_start_Suc [of "2000 + i"] year_len_bounds [of "2000 + i"] by (simp add: algebra_simps)
qed (simp add: year_start_def)

lemma year_start_down: "k \<le> 0 \<Longrightarrow> year_start (2000 + k) \<le> 365 * k"
proof (induction k rule: int_le_induct)
  case (step i)
  then show ?case
    using year_start_Suc [of "1999 + i"] year_len_bounds [of "1999 + i"] by (simp add: algebra_simps)
qed (simp add: year_start_def)

lemma year_guess_start: "year_start (year_guess n) \<le> n"
proof (cases "n \<ge> 0")
  case True
  have "year_start (2000 + n div 366) \<le> 366 * (n div 366)"
    using True by (intro year_start_up) (simp add: pos_imp_zdiv_nonneg_iff)
  also have "\<dots> \<le> n" by (simp add: mult.commute div_times_less_eq_dividend)
  finally show ?thesis using True by (simp add: year_guess_def)
next
  case False
  have "year_start (2000 + n div 365) \<le> 365 * (n div 365)"
    using False by (intro year_start_down) (simp add: div_nonpos_pos_le0)
  also have "\<dots> \<le> n" by (simp add: mult.commute div_times_less_eq_dividend)
  finally show ?thesis using False by (simp add: year_guess_def)
qed

lemma year_of_bounds: "year_start (year_of n) \<le> n" "n < year_start (year_of n + 1)"
  using year_from_bounds [OF year_guess_start] by (simp_all add: year_of_def)

lemma year_start_mono: "y \<le> z \<Longrightarrow> year_start y \<le> year_start z"
proof (induction z rule: int_ge_induct)
  case (step i)
  then show ?case using year_start_less [of i] by simp
qed simp

lemma year_of_eq:
  assumes "year_start y \<le> n" and "n < year_start (y + 1)"
  shows "year_of n = y"
proof (rule ccontr)
  assume "year_of n \<noteq> y"
  then consider "year_of n + 1 \<le> y" | "y + 1 \<le> year_of n" by linarith
  then show False
    using year_start_mono [of "year_of n + 1" y] year_start_mono [of "y + 1" "year_of n"]
      year_of_bounds [of n] assms by cases simp_all
qed

text \<open>The month of the day \<open>r\<close> of a year, counted from 0: the months that have begun.\<close>

definition month_in :: "int \<Rightarrow> int \<Rightarrow> int" where
  "month_in y r = int (length (filter (\<lambda>m. month_start y m \<le> r) [1, 2, 3, 4, 5, 6, 7, 8, 9, 10, 11, 12]))"

definition month_of :: "int \<Rightarrow> int" where
  "month_of n = month_in (year_of n) (n - year_start (year_of n))"

definition mday_of :: "int \<Rightarrow> int" where
  "mday_of n = n - year_start (year_of n) - month_start (year_of n) (month_of n) + 1"

text \<open>\<open>time.Weekday\<close>: Sunday is 0; 2000-01-01 was a Saturday.\<close>

definition weekday_of :: "int \<Rightarrow> int" where
  "weekday_of n = (n + 6) mod 7"

lemma months: "1 \<le> m \<Longrightarrow> m \<le> 12 \<Longrightarrow> m \<in> {1, 2, 3, 4, 5, 6, 7, 8, 9, 10, 11, 12}" for m :: int
  by simp arith

lemma month_start_table:
  "month_start y 1 = 0" "month_start y 2 = 31"
  "month_start y 3 = (if leap y then 60 else 59)" "month_start y 4 = (if leap y then 91 else 90)"
  "month_start y 5 = (if leap y then 121 else 120)" "month_start y 6 = (if leap y then 152 else 151)"
  "month_start y 7 = (if leap y then 182 else 181)" "month_start y 8 = (if leap y then 213 else 212)"
  "month_start y 9 = (if leap y then 244 else 243)" "month_start y 10 = (if leap y then 274 else 273)"
  "month_start y 11 = (if leap y then 305 else 304)" "month_start y 12 = (if leap y then 335 else 334)"
  "month_start y 13 = year_len y"
  by (simp_all add: month_start_def year_len_def)

lemma month_in_eq:
  assumes "1 \<le> m" and "m \<le> 12" and "month_start y m \<le> r" and "r < month_start y (m + 1)"
  shows "month_in y r = m"
  using months [OF assms(1,2)] assms(3,4)
  by (cases "leap y") (auto simp: month_in_def month_start_table year_len_def)

lemma between:
  fixes a b :: int and r :: "'a :: linorder"
  assumes "a \<le> b" and "f a \<le> r" and "r < f b"
  shows "\<exists>m\<ge>a. m < b \<and> f m \<le> r \<and> r < f (m + 1)"
  using assms
proof (induction b rule: int_ge_induct)
  case (step i)
  then show ?case by (cases "r < f i") (force simp: not_less)+
qed simp

lemma month_in_bounds:
  assumes "0 \<le> r" and "r < year_len y"
  shows "1 \<le> month_in y r \<and> month_in y r \<le> 12 \<and> month_start y (month_in y r) \<le> r \<and>
    r < month_start y (month_in y r + 1)"
proof -
  obtain m where m: "1 \<le> m" "m < 13" "month_start y m \<le> r" "r < month_start y (m + 1)"
    using between [of 1 13 "month_start y" r] assms by (auto simp: month_start_table)
  then have "m \<le> 12" by simp
  then show ?thesis using month_in_eq [OF m(1) _ m(3,4)] m by simp
qed

lemma date_days_in_range:
  assumes "1 \<le> m" and "m \<le> 12"
  shows "date_days y m d = year_start y + month_start y m + (d - 1)"
proof -
  have "(m - 1) div 12 = 0" "(m - 1) mod 12 = m - 1" using assms by simp_all
  then show ?thesis by (simp add: date_days_def)
qed

lemma date_days_next_month:
  assumes "1 \<le> m" and "m \<le> 12"
  shows "date_days y (m + 1) 1 = year_start y + month_start y (m + 1)"
proof (cases "m = 12")
  case True
  then show ?thesis
    by (simp add: date_days_def month_start_table year_start_Suc)
next
  case False
  then show ?thesis using date_days_in_range [of "m + 1" y 1] assms by simp
qed

lemma month_of_bounds:
  "1 \<le> month_of n" "month_of n \<le> 12"
  "year_start (year_of n) + month_start (year_of n) (month_of n) \<le> n"
  "n < year_start (year_of n) + month_start (year_of n) (month_of n + 1)"
  using month_in_bounds [of "n - year_start (year_of n)" "year_of n"] year_of_bounds [of n]
    year_start_Suc [of "year_of n"]
  by (auto simp: month_of_def)

text \<open>The date of a day denotes that day again.\<close>

lemma date_of_day: "date_days (year_of n) (month_of n) (mday_of n) = n"
  using month_of_bounds [of n] by (simp add: date_days_in_range mday_of_def)

lemma next_day: "date_days (year_of n) (month_of n) (mday_of n + 1) = n + 1"
  using date_of_day [of n] by (simp add: date_days_def Let_def)

lemma month_of_eq:
  assumes "1 \<le> m" and "m \<le> 12" and "year_start y + month_start y m \<le> n"
    and "n < year_start y + month_start y (m + 1)"
  shows "year_of n = y" and "month_of n = m"
proof -
  have "0 \<le> month_start y m" "month_start y (m + 1) \<le> year_len y"
    using months [OF assms(1,2)] by (cases "leap y"; auto simp: month_start_table year_len_def)+
  then show y: "year_of n = y" using assms(3,4) year_start_Suc [of y] by (intro year_of_eq) auto
  show "month_of n = m"
    unfolding month_of_def y using assms by (intro month_in_eq) auto
qed

text \<open>The first day of the next month comes after the day, and the days before it are in the same month.\<close>

lemma next_month:
  defines "first n \<equiv> date_days (year_of n) (month_of n + 1) 1"
  shows "n < first n" and "n \<le> k \<Longrightarrow> k < first n \<Longrightarrow> month_of k = month_of n"
proof -
  note b = month_of_bounds [of n]
  have first: "first n = year_start (year_of n) + month_start (year_of n) (month_of n + 1)"
    unfolding first_def using b by (intro date_days_next_month)
  then show "n < first n" using b by simp
  show "month_of k = month_of n" if "n \<le> k" "k < first n"
    using month_of_eq(2) [of "month_of n" "year_of n" k] that b first by simp
qed

section \<open>Instants\<close>

definition day_of :: "int \<Rightarrow> int" where
  "day_of t = t div 86400"

definition Year :: "int \<Rightarrow> int" where "Year t = year_of (day_of t)"
definition Month :: "int \<Rightarrow> int" where "Month t = month_of (day_of t)"
definition Day :: "int \<Rightarrow> int" where "Day t = mday_of (day_of t)"
definition Weekday :: "int \<Rightarrow> int" where "Weekday t = weekday_of (day_of t)"
definition Hour :: "int \<Rightarrow> int" where "Hour t = t mod 86400 div 3600"
definition Minute :: "int \<Rightarrow> int" where "Minute t = t mod 3600 div 60"
definition Second :: "int \<Rightarrow> int" where "Second t = t mod 60"

definition Date :: "int \<Rightarrow> int \<Rightarrow> int \<Rightarrow> int \<Rightarrow> int \<Rightarrow> int \<Rightarrow> int" where
  "Date y m d hh mi s = date_days y m d * 86400 + hh * 3600 + mi * 60 + s"

lemma Date_self: "Date (Year t) (Month t) (Day t) hh mi s = day_of t * 86400 + hh * 3600 + mi * 60 + s"
  by (simp add: Date_def Year_def Month_def Day_def date_of_day)

lemma Date_next_day: "Date (Year t) (Month t) (Day t + 1) 0 0 0 = (day_of t + 1) * 86400"
  by (simp add: Date_def Year_def Month_def Day_def next_day)

text \<open>The start of the day, hour and minute an instant lies in.\<close>

lemma clock_parts:
  "day_of t * 86400 + Hour t * 3600 = 3600 * (t div 3600)"
  "day_of t * 86400 + Hour t * 3600 + Minute t * 60 = 60 * (t div 60)"
  "60 * (t div 60) + Second t = t"
proof -
  have h: "t mod 86400 div 3600 = t div 3600 - 24 * (t div 86400)"
  proof -
    have "t mod 86400 = t - 3600 * (24 * (t div 86400))" by (simp add: minus_div_mult_eq_mod [symmetric])
    then show ?thesis by (simp only: div_mult_self4 diff_conv_add_uminus mult_minus_right [symmetric])
  qed
  have m: "t mod 3600 div 60 = t div 60 - 60 * (t div 3600)"
  proof -
    have "t mod 3600 = t - 60 * (60 * (t div 3600))" by (simp add: minus_div_mult_eq_mod [symmetric])
    then show ?thesis by (simp only: diff_conv_add_uminus mult_minus_right [symmetric])
  qed
  show "day_of t * 86400 + Hour t * 3600 = 3600 * (t div 3600)"
    by (simp add: day_of_def Hour_def h)
  then show "day_of t * 86400 + Hour t * 3600 + Minute t * 60 = 60 * (t div 60)"
    by (simp add: Minute_def m)
  show "60 * (t div 60) + Second t = t" by (simp add: Second_def)
qed

end
