(* ===== verification/Calendar.thy ===== *)
theory Calendar
  imports GoTime GoLib
begin

text \<open>
  Calendar expressions, \<open>pkg/service/calendar.go\<close>: the parser \<open>ParseCalendar\<close> with its helpers and the
  search \<open>NextAfter\<close>. A Go slice is a list; the nil slice is the empty list, as no code of this file
  makes an empty slice that is not nil. Instants of the search are whole seconds (\<open>GoTime\<close>); the
  argument and the result of \<open>NextAfter\<close> are nanoseconds, and the zero time is \<open>None\<close>.
\<close>

section \<open>Specifications\<close>

record CalendarSpec =
  weekdays :: "int list"
  months :: "int list"
  days :: "int list"
  hours :: "int list"
  minutes :: "int list"
  seconds :: "int list"

definition any_spec :: CalendarSpec where
  "any_spec = \<lparr>weekdays = [], months = [], days = [], hours = [], minutes = [], seconds = []\<rparr>"

definition containsInt :: "int list \<Rightarrow> int \<Rightarrow> bool" where
  "containsInt sl v \<longleftrightarrow> sl = [] \<or> v \<in> set sl"

definition monthAllowed :: "int list \<Rightarrow> int \<Rightarrow> bool" where
  "monthAllowed sl v \<longleftrightarrow> sl = [] \<or> v \<in> set sl"

definition weekdayContains :: "int list \<Rightarrow> int \<Rightarrow> bool" where
  "weekdayContains sl v \<longleftrightarrow> v \<in> set sl"

definition inAny :: "'a list \<Rightarrow> ('a list \<Rightarrow> 'a \<Rightarrow> bool) \<Rightarrow> 'a \<Rightarrow> bool" where
  "inAny sl contains v \<longleftrightarrow> length sl = 0 \<or> contains sl v"

definition nextAllowed :: "int list \<Rightarrow> int \<Rightarrow> int \<Rightarrow> int option" where
  "nextAllowed sl from hi =
    (if sl = [] then (if from > hi then None else Some from)
     else find (\<lambda>v. v \<ge> from \<and> v \<le> hi) sl)"

section \<open>The search\<close>

text \<open>One pass of the loop: \<open>None\<close> when \<open>t\<close> is returned, otherwise the next candidate.\<close>

definition advance :: "CalendarSpec \<Rightarrow> int \<Rightarrow> int option" where
  "advance c t =
    (if \<not> inAny (weekdays c) weekdayContains (Weekday t) then
       Some (Date (Year t) (Month t) (Day t + 1) 0 0 0)
     else if \<not> monthAllowed (months c) (Month t) then
       Some (Date (Year t) (Month t + 1) 1 0 0 0)
     else if \<not> containsInt (days c) (Day t) then
       Some (Date (Year t) (Month t) (Day t + 1) 0 0 0)
     else if \<not> containsInt (hours c) (Hour t) then
       (case nextAllowed (hours c) (Hour t + 1) 23 of
          None \<Rightarrow> Some (Date (Year t) (Month t) (Day t + 1) 0 0 0)
        | Some nextHour \<Rightarrow> Some (Date (Year t) (Month t) (Day t) nextHour 0 0))
     else if \<not> containsInt (minutes c) (Minute t) then
       (case nextAllowed (minutes c) (Minute t + 1) 59 of
          None \<Rightarrow> Some (Date (Year t) (Month t) (Day t) (Hour t + 1) 0 0)
        | Some nextMin \<Rightarrow> Some (Date (Year t) (Month t) (Day t) (Hour t) nextMin 0))
     else if \<not> containsInt (seconds c) (Second t) then
       (case nextAllowed (seconds c) (Second t + 1) 59 of
          None \<Rightarrow> Some (Date (Year t) (Month t) (Day t) (Hour t) (Minute t + 1) 0)
        | Some nextSec \<Rightarrow> Some (Date (Year t) (Month t) (Day t) (Hour t) (Minute t) nextSec))
     else None)"

text \<open>Every candidate is later than the one before it, so the loop ends at the deadline.\<close>

lemma nextAllowed_ge: "nextAllowed xs from hi = Some w \<Longrightarrow> from \<le> w \<and> w \<le> hi"
  by (auto simp: nextAllowed_def find_Some_iff split: if_splits)

lemma day_start: "day_of t * 86400 \<le> t" "t < (day_of t + 1) * 86400"
  by (simp_all add: day_of_def div_times_less_eq_dividend)

text \<open>The value of a field of the clock: \<open>t div k\<close> counted from the start of the unit of \<open>n\<close> such values.\<close>

lemma clock_fields:
  "Hour t = t div 3600 - 24 * (t div 86400)" "Minute t = t div 60 - 60 * (t div 3600)"
  "Second t = t div 1 - 60 * (t div 60)"
  using clock_parts [of t] by (simp_all add: day_of_def)

lemma field_bounds:
  fixes t k n :: int
  assumes "k > 0" and "n > 0"
  shows "0 \<le> t div k - n * (t div (k * n))" and "t div k - n * (t div (k * n)) < n"
proof -
  have "t div (k * n) = t div k div n" using assms by (simp add: zdiv_zmult2_eq)
  then have "t div k - n * (t div (k * n)) = t div k mod n" by (simp add: minus_mult_div_eq_mod)
  then show "0 \<le> t div k - n * (t div (k * n))" "t div k - n * (t div (k * n)) < n"
    using assms by simp_all
qed

lemma field_later:
  fixes t k n w :: int
  assumes "k > 0" and "n > 0" and "t div k - n * (t div (k * n)) < w"
  shows "t < k * n * (t div (k * n)) + k * w"
proof -
  have "t div k < n * (t div (k * n)) + w" using assms by simp
  then have "t div k + 1 \<le> n * (t div (k * n)) + w" by simp
  then have "k * (t div k + 1) \<le> k * (n * (t div (k * n)) + w)" using assms by simp
  moreover have "t < k * (t div k + 1)"
    using assms by (metis add.commute distrib_left mult.right_neutral mult_div_mod_eq
      add_less_cancel_left pos_mod_bound)
  ultimately show ?thesis by (simp add: algebra_simps)
qed

text \<open>The candidates, with the failing field of the clock named by its unit \<open>k\<close> and its range \<open>n\<close>.\<close>

definition field_next :: "int list \<Rightarrow> int \<Rightarrow> int \<Rightarrow> int" where
  "field_next xs v n = (case nextAllowed xs (v + 1) (n - 1) of None \<Rightarrow> n | Some w \<Rightarrow> w)"

lemma field_next_bounds: "v < n \<Longrightarrow> v < field_next xs v n \<and> field_next xs v n \<le> n"
  by (auto simp: field_next_def dest: nextAllowed_ge split: option.splits)

lemma next_hour:
  "(case nextAllowed xs (Hour t + 1) 23 of
      None \<Rightarrow> Some (Date (Year t) (Month t) (Day t + 1) 0 0 0)
    | Some w \<Rightarrow> Some (Date (Year t) (Month t) (Day t) w 0 0))
    = Some (86400 * (t div 86400) + 3600 * field_next xs (Hour t) 24)"
  by (simp add: field_next_def Date_next_day Date_self day_of_def distrib_right split: option.split)

lemma next_minute:
  "(case nextAllowed xs (Minute t + 1) 59 of
      None \<Rightarrow> Some (Date (Year t) (Month t) (Day t) (Hour t + 1) 0 0)
    | Some w \<Rightarrow> Some (Date (Year t) (Month t) (Day t) (Hour t) w 0))
    = Some (3600 * (t div 3600) + 60 * field_next xs (Minute t) 60)"
  using clock_parts(1) [of t]
  by (simp add: field_next_def Date_self distrib_right split: option.split)

lemma next_second:
  "(case nextAllowed xs (Second t + 1) 59 of
      None \<Rightarrow> Some (Date (Year t) (Month t) (Day t) (Hour t) (Minute t + 1) 0)
    | Some w \<Rightarrow> Some (Date (Year t) (Month t) (Day t) (Hour t) (Minute t) w))
    = Some (60 * (t div 60) + field_next xs (Second t) 60)"
  using clock_parts(2) [of t]
  by (simp add: field_next_def Date_self distrib_right split: option.split)

lemma advance_cases:
  assumes "advance c t = Some t'"
  obtains "\<not> inAny (weekdays c) weekdayContains (Weekday t) \<or> \<not> containsInt (days c) (Day t)"
      "t' = (day_of t + 1) * 86400"
  | "\<not> monthAllowed (months c) (Month t)" "t' = date_days (Year t) (Month t + 1) 1 * 86400"
  | "\<not> containsInt (hours c) (Hour t)"
      "t' = 86400 * (t div 86400) + 3600 * field_next (hours c) (Hour t) 24"
  | "\<not> containsInt (minutes c) (Minute t)"
      "t' = 3600 * (t div 3600) + 60 * field_next (minutes c) (Minute t) 60"
  | "\<not> containsInt (seconds c) (Second t)"
      "t' = 60 * (t div 60) + field_next (seconds c) (Second t) 60"
proof -
  have month: "Date (Year t) (Month t + 1) 1 0 0 0 = date_days (Year t) (Month t + 1) 1 * 86400"
    by (simp add: Date_def)
  show ?thesis
    using assms that unfolding advance_def next_hour next_minute next_second unfolding Date_next_day month
    by (simp split: if_splits)
qed

lemma advance_later:
  assumes "advance c t = Some t'"
  shows "t < t'"
  using assms
proof (cases rule: advance_cases)
  case 1
  then show ?thesis using day_start by simp
next
  case 2
  then show ?thesis
    using next_month(1) [of "day_of t"] day_start(2) [of t] by (simp add: Year_def Month_def)
next
  case 3
  then show ?thesis
    using field_later [of 3600 24 t] field_bounds [of 3600 24 t] field_next_bounds [of "Hour t" 24]
    by (simp add: clock_fields)
next
  case 4
  then show ?thesis
    using field_later [of 60 60 t] field_bounds [of 60 60 t] field_next_bounds [of "Minute t" 60]
    by (simp add: clock_fields)
next
  case 5
  then show ?thesis
    using field_bounds [of 1 60 t] field_next_bounds [of "Second t" 60 "seconds c"]
    by (simp add: clock_fields)
qed

function next_loop :: "CalendarSpec \<Rightarrow> int \<Rightarrow> int \<Rightarrow> int option" where
  "next_loop c deadline t =
    (if t < deadline then
       (case advance c t of None \<Rightarrow> Some t | Some t' \<Rightarrow> next_loop c deadline t')
     else None)"
  by pat_completeness auto
termination
  by (relation "measure (\<lambda>(c, deadline, t). nat (deadline - t))")
    (auto simp: zless_nat_eq_int_zless dest: advance_later)

declare next_loop.simps [simp del]

definition second_ns :: int where "second_ns = 1000000000"

definition two_years :: int where "two_years = 2 * 365 * 24 * 3600"

definition NextAfter :: "CalendarSpec \<Rightarrow> instant \<Rightarrow> instant option" where
  "NextAfter c after =
    (let t = (after + second_ns) div second_ns in
     map_option (\<lambda>s. s * second_ns) (next_loop c (t + two_years) t))"

section \<open>The search finds the next match\<close>

definition cal_matches :: "CalendarSpec \<Rightarrow> int \<Rightarrow> bool" where
  "cal_matches c t \<longleftrightarrow>
    (weekdays c = [] \<or> Weekday t \<in> set (weekdays c)) \<and> (months c = [] \<or> Month t \<in> set (months c)) \<and>
    (days c = [] \<or> Day t \<in> set (days c)) \<and> (hours c = [] \<or> Hour t \<in> set (hours c)) \<and>
    (minutes c = [] \<or> Minute t \<in> set (minutes c)) \<and> (seconds c = [] \<or> Second t \<in> set (seconds c))"

text \<open>The lists of a specification are ascending and in range.\<close>

definition field_ok :: "int \<Rightarrow> int \<Rightarrow> int list \<Rightarrow> bool" where
  "field_ok lo hi xs \<longleftrightarrow> sorted xs \<and> (\<forall>v\<in>set xs. lo \<le> v \<and> v \<le> hi)"

definition spec_ok :: "CalendarSpec \<Rightarrow> bool" where
  "spec_ok c \<longleftrightarrow> field_ok 0 6 (weekdays c) \<and> field_ok 1 12 (months c) \<and> field_ok 1 31 (days c) \<and>
    field_ok 0 23 (hours c) \<and> field_ok 0 59 (minutes c) \<and> field_ok 0 59 (seconds c)"

lemma advance_None: "advance c t = None \<longleftrightarrow> cal_matches c t"
  by (auto simp: advance_def cal_matches_def inAny_def weekdayContains_def monthAllowed_def
      containsInt_def split: option.splits)

lemma find_sorted:
  fixes w :: int
  assumes "sorted xs" and "find (\<lambda>v. v \<ge> from \<and> v \<le> hi) xs = Some w" and "v \<in> set xs" and "from \<le> v"
  shows "w \<le> v"
proof -
  obtain i where i: "i < length xs" "w = xs ! i" "w \<le> hi" "\<forall>j<i. \<not> (xs ! j \<ge> from \<and> xs ! j \<le> hi)"
    using assms(2) by (auto simp: find_Some_iff)
  obtain j where j: "j < length xs" "v = xs ! j" using assms(3) by (auto simp: in_set_conv_nth)
  show ?thesis
  proof (cases "j < i")
    case True
    then show ?thesis using i j assms(4) by fastforce
  next
    case False
    then show ?thesis using assms(1) i j by (simp add: sorted_nth_mono)
  qed
qed

text \<open>No allowed value lies between a value that is not allowed and the one chosen next.\<close>

lemma field_next_skips:
  assumes "sorted xs" and "\<not> containsInt xs v" and "v \<le> u" and "u < field_next xs v n" and "u < n"
  shows "\<not> containsInt xs u"
proof -
  have ne: "xs \<noteq> []" "v \<notin> set xs" using assms(2) by (auto simp: containsInt_def)
  have "u \<notin> set xs"
  proof
    assume u: "u \<in> set xs"
    then have "v + 1 \<le> u" using ne assms(3) by (cases "u = v") auto
    then show False
      using u assms(1,4,5) ne find_sorted [OF assms(1) _ u, of "v + 1" "n - 1"]
      by (auto simp: field_next_def nextAllowed_def find_None_iff split: option.splits)
  qed
  then show ?thesis using ne by (simp add: containsInt_def)
qed

lemma div_less_bound:
  fixes u q b :: int
  assumes "q > 0" and "u < q * b"
  shows "u div q < b"
proof (rule ccontr)
  assume "\<not> u div q < b"
  then have "q * b \<le> q * (u div q)" using assms(1) by simp
  also have "\<dots> \<le> u" using mult_div_mod_eq [of q u] pos_mod_sign [OF assms(1), of u] by linarith
  finally show False using assms(2) by simp
qed

lemma field_within:
  fixes t u k n w :: int
  assumes "k > 0" and "n > 0" and "w \<le> n" and "t \<le> u" and "u < k * n * (t div (k * n)) + k * w"
  shows "u div (k * n) = t div (k * n)" and "t div k \<le> u div k" and "u div k < n * (t div (k * n)) + w"
proof -
  have "k * w \<le> k * n" using assms by simp
  then have "u < k * n * (t div (k * n) + 1)" using assms(5) by (simp add: distrib_left)
  then have "u div (k * n) < t div (k * n) + 1"
    using assms(1,2) by (intro div_less_bound) simp_all
  moreover show "t div k \<le> u div k" using assms by (simp add: zdiv_mono1)
  moreover have "t div (k * n) \<le> u div (k * n)" using assms by (simp add: zdiv_mono1)
  ultimately show "u div (k * n) = t div (k * n)" by simp
  have "u < k * (n * (t div (k * n)) + w)" using assms(5) by (simp add: algebra_simps)
  then show "u div k < n * (t div (k * n)) + w" using assms(1) by (intro div_less_bound)
qed

lemma clock_units:
  "Hour x = x div 3600 - 24 * (x div (3600 * 24))" "Minute x = x div 60 - 60 * (x div (60 * 60))"
  "Second x = x div 1 - 60 * (x div (1 * 60))"
  by (simp_all add: clock_fields)

lemma spec_sorted:
  assumes "spec_ok c"
  shows "sorted (hours c)" "sorted (minutes c)" "sorted (seconds c)"
  using assms by (simp_all add: spec_ok_def field_ok_def)

text \<open>A field that is not allowed at \<open>t\<close> stays so until the candidate computed from it.\<close>

lemma field_window:
  fixes k n t u :: int
  assumes val: "\<And>x. val x = x div k - n * (x div (k * n))" and pos: "k > 0" "n > 0"
    and "t \<le> u" and "u < k * n * (t div (k * n)) + k * field_next xs (val t) n"
    and "sorted xs" and "\<not> containsInt xs (val t)"
  shows "\<not> containsInt xs (val u)"
proof -
  define w where "w = field_next xs (val t) n"
  have w: "w \<le> n"
    unfolding w_def using field_next_bounds [of "val t" n xs] field_bounds(2) [OF pos, of t] val [of t] by simp
  note within = field_within [OF pos w assms(4) assms(5) [folded w_def]]
  have "val t \<le> val u" "val u < w" using within val [of t] val [of u] by simp_all
  then show ?thesis using field_next_skips [OF assms(6,7)] w unfolding w_def by simp
qed

lemma advance_skips:
  assumes "spec_ok c" and "advance c t = Some t'" and "t \<le> u" and "u < t'"
  shows "\<not> cal_matches c u"
  using assms(2)
proof (cases rule: advance_cases)
  case 1
  have "day_of u = day_of t"
    using field_within(1) [of 86400 1 1 t u] assms(3,4) 1(2) by (simp add: day_of_def algebra_simps)
  then show ?thesis
    using 1(1) by (auto simp: cal_matches_def inAny_def weekdayContains_def containsInt_def Weekday_def Day_def)
next
  case 2
  have "day_of t \<le> day_of u" unfolding day_of_def using assms(3) by (rule zdiv_mono1) simp
  moreover have "day_of u < date_days (year_of (day_of t)) (month_of (day_of t) + 1) 1"
  proof -
    have "day_of u * 86400 < date_days (Year t) (Month t + 1) 1 * 86400"
      using le_less_trans [OF day_start(1) assms(4)] 2(2) by simp
    then show ?thesis unfolding Year_def Month_def by (rule mult_right_less_imp_less) simp
  qed
  ultimately have "Month u = Month t" unfolding Month_def by (rule next_month(2))
  then show ?thesis using 2(1) by (auto simp: cal_matches_def monthAllowed_def)
next
  case 3
  then have "\<not> containsInt (hours c) (Hour u)"
    using assms(4) spec_sorted(1) [OF assms(1)]
    by (intro field_window [OF clock_units(1) _ _ assms(3)]) simp_all
  then show ?thesis by (auto simp: cal_matches_def containsInt_def)
next
  case 4
  then have "\<not> containsInt (minutes c) (Minute u)"
    using assms(4) spec_sorted(2) [OF assms(1)]
    by (intro field_window [OF clock_units(2) _ _ assms(3)]) simp_all
  then show ?thesis by (auto simp: cal_matches_def containsInt_def)
next
  case 5
  then have "\<not> containsInt (seconds c) (Second u)"
    using assms(4) spec_sorted(3) [OF assms(1)]
    by (intro field_window [OF clock_units(3) _ _ assms(3)]) simp_all
  then show ?thesis by (auto simp: cal_matches_def containsInt_def)
qed

text \<open>What the search promises: the first match of the window, or that the window has none.\<close>

definition first_match :: "CalendarSpec \<Rightarrow> int \<Rightarrow> int \<Rightarrow> int option \<Rightarrow> bool" where
  "first_match c t deadline r \<longleftrightarrow>
    (case r of
       None \<Rightarrow> (\<forall>u. t \<le> u \<and> u < deadline \<longrightarrow> \<not> cal_matches c u)
     | Some v \<Rightarrow> t \<le> v \<and> v < deadline \<and> cal_matches c v \<and> (\<forall>u. t \<le> u \<and> u < v \<longrightarrow> \<not> cal_matches c u))"

lemma next_loop_first:
  assumes "spec_ok c"
  shows "first_match c t deadline (next_loop c deadline t)"
  using assms
proof (induction c deadline t rule: next_loop.induct)
  case (1 c deadline t)
  show ?case
  proof (cases "t < deadline")
    case before: True
    show ?thesis
    proof (cases "advance c t")
      case None
      then have "cal_matches c t" by (simp add: advance_None)
      then show ?thesis using before None by (subst next_loop.simps) (auto simp: first_match_def)
    next
      case (Some t')
      have "first_match c t' deadline (next_loop c deadline t')" using 1 before Some by blast
      then have "first_match c t deadline (next_loop c deadline t')"
        using advance_skips [OF "1.prems" Some] advance_later [OF Some]
        unfolding first_match_def by (fastforce split: option.splits)
      then show ?thesis using before Some by (subst next_loop.simps) simp
    qed
  qed (subst next_loop.simps, auto simp: first_match_def)
qed

lemma after_second: "after < u * second_ns \<longleftrightarrow> (after + second_ns) div second_ns \<le> u"
proof -
  have "(after + second_ns) div second_ns = after div second_ns + 1" by (simp add: second_ns_def)
  moreover have "after < u * second_ns \<longleftrightarrow> after div second_ns < u"
  proof
    assume "after < u * second_ns"
    then show "after div second_ns < u" by (intro div_less_bound) (simp_all add: second_ns_def)
  next
    assume "after div second_ns < u"
    then have "(after div second_ns + 1) * second_ns \<le> u * second_ns"
      by (intro mult_right_mono) (simp_all add: second_ns_def)
    moreover have "after < (after div second_ns + 1) * second_ns"
      using div_mult_mod_eq [of after second_ns] pos_mod_bound [of second_ns after]
      by (simp add: second_ns_def)
    ultimately show "after < u * second_ns" by linarith
  qed
  ultimately show ?thesis by auto
qed

lemma NextAfter_SomeD:
  assumes "spec_ok c" and "NextAfter c after = Some r"
  obtains v where "r = v * second_ns" "after < r" "cal_matches c v"
    and "v < (after + second_ns) div second_ns + two_years"
    and "\<And>u. after < u * second_ns \<Longrightarrow> u < v \<Longrightarrow> \<not> cal_matches c u"
  using next_loop_first [OF assms(1), of "(after + second_ns) div second_ns"
      "(after + second_ns) div second_ns + two_years"] assms(2)
  by (auto simp: NextAfter_def Let_def first_match_def after_second split: option.splits)

lemma NextAfter_NoneD:
  assumes "spec_ok c" and "NextAfter c after = None"
    and "after < u * second_ns" and "u < (after + second_ns) div second_ns + two_years"
  shows "\<not> cal_matches c u"
  using next_loop_first [OF assms(1), of "(after + second_ns) div second_ns"
      "(after + second_ns) div second_ns + two_years"] assms(2-4)
  by (simp add: NextAfter_def Let_def first_match_def after_second split: option.splits)

text \<open>Searching again from a later instant before the match finds the same match.\<close>

lemma NextAfter_stable:
  assumes ok: "spec_ok c" and r: "NextAfter c after = Some r" and "after \<le> now" and "now < r"
  shows "NextAfter c now = Some r"
proof -
  obtain v where v: "r = v * second_ns" "cal_matches c v"
    and win: "v < (after + second_ns) div second_ns + two_years"
    and least: "\<And>u. after < u * second_ns \<Longrightarrow> u < v \<Longrightarrow> \<not> cal_matches c u"
    using NextAfter_SomeD [OF ok r] by metis
  have "(after + second_ns) div second_ns \<le> (now + second_ns) div second_ns"
    using assms(3) by (simp add: zdiv_mono1 second_ns_def)
  then have win': "v < (now + second_ns) div second_ns + two_years" using win by linarith
  show ?thesis
  proof (cases "NextAfter c now")
    case None
    then show ?thesis
      using NextAfter_NoneD [OF ok None, of v] v win' assms(4) by auto
  next
    case (Some r')
    then obtain v' where v': "r' = v' * second_ns" "now < r'" "cal_matches c v'"
      and least': "\<And>u. now < u * second_ns \<Longrightarrow> u < v' \<Longrightarrow> \<not> cal_matches c u"
      using NextAfter_SomeD [OF ok Some] by metis
    have "\<not> v' < v" using least [of v'] v' assms(3) by auto
    moreover have "\<not> v < v'" using least' [of v] v assms(4) by auto
    ultimately show ?thesis using Some v v' by simp
  qed
qed

text \<open>
  \<open>NextAfter\<close> returns the first whole second strictly after the given instant that matches, and the zero
  time exactly when no second of the two years that follow matches.
\<close>

lemma NextAfter_strict:
  assumes "spec_ok c"
  shows "case NextAfter c after of
      Some r \<Rightarrow> \<exists>v. r = v * second_ns \<and> after < r \<and> cal_matches c v \<and>
        (\<forall>u. after < u * second_ns \<and> u < v \<longrightarrow> \<not> cal_matches c u)
    | None \<Rightarrow> \<forall>u. after < u * second_ns \<and> u < (after + second_ns) div second_ns + two_years
        \<longrightarrow> \<not> cal_matches c u"
  using next_loop_first [OF assms, of "(after + second_ns) div second_ns"
      "(after + second_ns) div second_ns + two_years"]
  by (auto simp: NextAfter_def Let_def first_match_def after_second split: option.splits)



section \<open>Parsing\<close>

datatype cal_error =
    EmptyExpression
  | UnknownWeekday string
  | BadDate string
  | BadMonth string
  | BadDay string
  | FieldCount nat
  | BadTime string
  | BadStart string
  | BadStep string
  | BadValue string

definition calendarAlias :: "string \<Rightarrow> CalendarSpec option" where
  "calendarAlias s =
    (let l = ToLower s in
     if l = ''minutely'' then Some (any_spec\<lparr>seconds := [0]\<rparr>)
     else if l = ''hourly'' then Some (any_spec\<lparr>minutes := [0], seconds := [0]\<rparr>)
     else if l = ''daily'' \<or> l = ''midnight'' then
       Some (any_spec\<lparr>hours := [0], minutes := [0], seconds := [0]\<rparr>)
     else if l = ''weekly'' then
       Some (any_spec\<lparr>weekdays := [1], hours := [0], minutes := [0], seconds := [0]\<rparr>)
     else if l = ''monthly'' then
       Some (any_spec\<lparr>days := [1], hours := [0], minutes := [0], seconds := [0]\<rparr>)
     else if l = ''yearly'' \<or> l = ''annually'' then
       Some (any_spec\<lparr>months := [1], days := [1], hours := [0], minutes := [0], seconds := [0]\<rparr>)
     else None)"

definition weekdayNames :: "(string \<times> int) list" where
  "weekdayNames =
    [(''sun'', 0), (''mon'', 1), (''tue'', 2), (''wed'', 3), (''thu'', 4), (''fri'', 5), (''sat'', 6)]"

definition isWeekdayPart :: "string \<Rightarrow> bool" where
  "isWeekdayPart s =
    (map_of weekdayNames (ToLower (takeWhile (\<lambda>c. c \<noteq> CHR '','' \<and> c \<noteq> CHR ''.'') s)) \<noteq> None)"

text \<open>The days from \<open>a\<close> to \<open>b\<close>, over the end of the week; weekdays are 0 to 6.\<close>

function weekday_range :: "int \<Rightarrow> int \<Rightarrow> int list" where
  "weekday_range a b =
    (if a = b \<or> \<not> (0 \<le> a \<and> a < 7 \<and> 0 \<le> b \<and> b < 7) then [a]
     else a # weekday_range ((a + 1) mod 7) b)"
  by pat_completeness auto
termination
proof (relation "measure (\<lambda>(a, b). nat ((b - a) mod 7))")
  fix a b :: int
  assume "\<not> (a = b \<or> \<not> (0 \<le> a \<and> a < 7 \<and> 0 \<le> b \<and> b < 7))"
  then have "a \<noteq> b" "a \<in> {0, 1, 2, 3, 4, 5, 6}" "b \<in> {0, 1, 2, 3, 4, 5, 6}" by (simp_all, arith+)
  then have "(b - (a + 1) mod 7) mod 7 < (b - a) mod 7" by auto
  then show "(((a + 1) mod 7, b), (a, b)) \<in> measure (\<lambda>(a, b). nat ((b - a) mod 7))" by simp
qed simp

declare weekday_range.simps [simp del]

definition weekday_item :: "string \<Rightarrow> (cal_error, int list) result" where
  "weekday_item item =
    (case Cut item ''..'' of
       Some (x, y) \<Rightarrow>
        (case (map_of weekdayNames (ToLower x), map_of weekdayNames (ToLower y)) of
           (Some a, Some b) \<Rightarrow> Inr (weekday_range a b)
         | _ \<Rightarrow> Inl (UnknownWeekday item))
     | None \<Rightarrow>
        (case map_of weekdayNames (ToLower item) of
           None \<Rightarrow> Inl (UnknownWeekday item)
         | Some d \<Rightarrow> Inr [d]))"

fun weekday_items :: "string list \<Rightarrow> (cal_error, int list) result" where
  "weekday_items [] = Inr []"
| "weekday_items (item # items) =
    (case weekday_item item of
       Inl e \<Rightarrow> Inl e
     | Inr ds \<Rightarrow> (case weekday_items items of Inl e \<Rightarrow> Inl e | Inr es \<Rightarrow> Inr (ds @ es)))"

definition parseWeekdays :: "string \<Rightarrow> (cal_error, int list) result" where
  "parseWeekdays s =
    (case weekday_items (Split s CHR '','') of Inl e \<Rightarrow> Inl e | Inr ds \<Rightarrow> Inr (sort (remdups ds)))"

definition parseDate :: "string \<Rightarrow> (cal_error, int list \<times> int list) result" where
  "parseDate s =
    (case Split s CHR ''-'' of
       [y, m, d] \<Rightarrow>
        (case (if m = ''*'' then Some []
               else case Atoi m of
                   None \<Rightarrow> None
                 | Some v \<Rightarrow> if v < 1 \<or> v > 12 then None else Some [v]) of
           None \<Rightarrow> Inl (BadMonth m)
         | Some ms \<Rightarrow>
            (case (if d = ''*'' then Some []
                   else case Atoi d of
                       None \<Rightarrow> None
                     | Some v \<Rightarrow> if v < 1 \<or> v > 31 then None else Some [v]) of
               None \<Rightarrow> Inl (BadDay d)
             | Some ds \<Rightarrow> Inr (ms, ds)))
     | _ \<Rightarrow> Inl (BadDate s))"

text \<open>The addition of a Go \<open>int\<close> wraps around at 64 bits.\<close>

definition wrap64 :: "int \<Rightarrow> int" where
  "wrap64 n = (n + 2 ^ 63) mod 2 ^ 64 - 2 ^ 63"

text \<open>
  The loop \<open>for v := start; v <= hi; v += step\<close>, which collects the values from \<open>lo\<close> on. Not returning
  is \<open>None\<close>.
\<close>

partial_function (option) step_values :: "int \<Rightarrow> int \<Rightarrow> int \<Rightarrow> int \<Rightarrow> int list option" where
  "step_values v step lo hi =
    (if v \<le> hi then
       Option.bind (step_values (wrap64 (v + step)) step lo hi)
         (\<lambda>vs. Some (if v \<ge> lo then v # vs else vs))
     else Some [])"

fun time_items :: "int \<Rightarrow> int \<Rightarrow> string list \<Rightarrow> (cal_error, int list) result" where
  "time_items lo hi [] = Inr []"
| "time_items lo hi (item # items) =
    (case Atoi item of
       None \<Rightarrow> Inl (BadValue item)
     | Some v \<Rightarrow>
        (if v < lo \<or> v > hi then Inl (BadValue item)
         else case time_items lo hi items of Inl e \<Rightarrow> Inl e | Inr vs \<Rightarrow> Inr (v # vs)))"

definition step_field :: "string \<Rightarrow> string \<Rightarrow> int \<Rightarrow> int \<Rightarrow> (cal_error, int list) result option" where
  "step_field a b lo hi =
    (case (if a = ''*'' then Some 0 else Atoi a) of
       None \<Rightarrow> Some (Inl (BadStart a))
     | Some start \<Rightarrow>
        (case Atoi b of
           None \<Rightarrow> Some (Inl (BadStep b))
         | Some step \<Rightarrow>
            (if step \<le> 0 then Some (Inl (BadStep b))
             else map_option Inr (step_values start step lo hi))))"

definition parseTimeField :: "string \<Rightarrow> int \<Rightarrow> int \<Rightarrow> (cal_error, int list) result option" where
  "parseTimeField s lo hi =
    (if s = ''*'' then Some (Inr [])
     else case Cut s ''/'' of
         Some (a, b) \<Rightarrow> step_field a b lo hi
       | None \<Rightarrow>
          (if Contains s '','' then
             Some (case time_items lo hi (Split s CHR '','') of Inl e \<Rightarrow> Inl e | Inr vs \<Rightarrow> Inr (sort vs))
           else Some (time_items lo hi [s])))"

definition parseTime ::
  "string \<Rightarrow> (cal_error, int list \<times> int list \<times> int list) result option" where
  "parseTime s =
    (let parts = Split s CHR '':'' in
     if length parts < 2 \<or> length parts > 3 then Some (Inl (BadTime s))
     else case parseTimeField (parts ! 0) 0 23 of
         None \<Rightarrow> None
       | Some (Inl e) \<Rightarrow> Some (Inl e)
       | Some (Inr hs) \<Rightarrow>
          (case parseTimeField (parts ! 1) 0 59 of
             None \<Rightarrow> None
           | Some (Inl e) \<Rightarrow> Some (Inl e)
           | Some (Inr ms) \<Rightarrow>
              (if length parts = 3 then
                 (case parseTimeField (parts ! 2) 0 59 of
                    None \<Rightarrow> None
                  | Some (Inl e) \<Rightarrow> Some (Inl e)
                  | Some (Inr ss) \<Rightarrow> Some (Inr (hs, ms, ss)))
               else Some (Inr (hs, ms, [0])))))"

text \<open>The three heads of an expression: weekdays, date and time of day.\<close>

definition parse_clock ::
  "int list \<Rightarrow> int list \<Rightarrow> int list \<Rightarrow> string list \<Rightarrow> (cal_error, CalendarSpec) result option" where
  "parse_clock wds ms ds parts =
    (if length parts \<noteq> 1 then Some (Inl (FieldCount (length parts)))
     else map_option (\<lambda>r. case r of
         Inl e \<Rightarrow> Inl e
       | Inr (hs, mn, sc) \<Rightarrow>
          Inr \<lparr>weekdays = wds, months = ms, days = ds, hours = hs, minutes = mn, seconds = sc\<rparr>)
       (parseTime (parts ! 0)))"

definition parse_date_clock ::
  "int list \<Rightarrow> string list \<Rightarrow> (cal_error, CalendarSpec) result option" where
  "parse_date_clock wds parts =
    (if length parts \<ge> 2 \<and> Contains (parts ! 0) ''-'' then
       (case parseDate (parts ! 0) of
          Inl e \<Rightarrow> Some (Inl e)
        | Inr (ms, ds) \<Rightarrow> parse_clock wds ms ds (tl parts))
     else parse_clock wds [] [] parts)"

definition ParseCalendar :: "string \<Rightarrow> (cal_error, CalendarSpec) result option" where
  "ParseCalendar s0 =
    (let s = TrimSpace s0 in
     if s = [] then Some (Inl EmptyExpression)
     else case calendarAlias s of
         Some spec \<Rightarrow> Some (Inr spec)
       | None \<Rightarrow>
          (let parts = Fields s in
           if length parts \<ge> 2 \<and> isWeekdayPart (parts ! 0) then
             (case parseWeekdays (parts ! 0) of
                Inl e \<Rightarrow> Some (Inl e)
              | Inr wds \<Rightarrow> parse_date_clock wds (tl parts))
           else parse_date_clock [] parts))"

section \<open>What the parser accepts is well-formed\<close>

lemma wrap64_id: "- (2 ^ 63) \<le> n \<Longrightarrow> n < 2 ^ 63 \<Longrightarrow> wrap64 n = n"
  by (simp add: wrap64_def)

lemma step_values_ok:
  assumes "0 < step" and "hi + step < 2 ^ 63" and "- (2 ^ 63) \<le> v"
  shows "\<exists>vs. step_values v step lo hi = Some vs \<and> field_ok (max v lo) hi vs"
  using assms
proof (induction "nat (hi - v + 1)" arbitrary: v rule: less_induct)
  case less
  show ?case
  proof (cases "v \<le> hi")
    case True
    have wrap: "wrap64 (v + step) = v + step" using less.prems True by (intro wrap64_id) auto
    obtain vs where vs: "step_values (v + step) step lo hi = Some vs" "field_ok (max (v + step) lo) hi vs"
      using less.hyps [of "v + step"] less.prems True by auto
    have "step_values v step lo hi = Some (if v \<ge> lo then v # vs else vs)"
      using True vs(1) wrap by (subst step_values.simps) simp
    moreover have "field_ok (max v lo) hi (if v \<ge> lo then v # vs else vs)"
      using vs(2) True less.prems(1) by (auto simp: field_ok_def)
    ultimately show ?thesis by blast
  next
    case False
    then show ?thesis by (subst step_values.simps) (simp add: field_ok_def)
  qed
qed

lemma read_digits_less: "read_digits acc s = Some n \<Longrightarrow> n < (acc + 1) * 10 ^ length s"
proof (induction s arbitrary: acc)
  case (Cons c s)
  then obtain d where d: "digit_value c = Some d" "read_digits (10 * acc + d) s = Some n"
    by (auto split: option.splits)
  then have "d < 10" by (auto simp: digit_value_def Let_def split: if_splits)
  have "n < (10 * acc + d + 1) * 10 ^ length s" using Cons.IH [OF d(2)] .
  also have "\<dots> \<le> (10 * (acc + 1)) * 10 ^ length s" using \<open>d < 10\<close> by (intro mult_right_mono) auto
  finally show ?case by (simp add: algebra_simps)
qed simp

lemma read_nat_less: "read_nat s = Some n \<Longrightarrow> n < 10 ^ length s"
  using read_digits_less [of 0 s n] by (simp add: read_nat_def split: if_splits)

lemma Atoi_small:
  assumes "Atoi s = Some n" and "length s \<le> 18"
  shows "- (10 ^ 18) < n \<and> n < 10 ^ 18"
proof -
  obtain m t where m: "read_nat t = Some m" "n = int m \<or> n = - int m" "length t \<le> length s"
    using assms(1) by (fastforce simp: Atoi_def split: list.splits if_splits option.splits)
  have "m < 10 ^ length t" using read_nat_less [OF m(1)] .
  also have "\<dots> \<le> 10 ^ 18" using m(3) assms(2) by (intro power_increasing) auto
  finally have "int m < 10 ^ 18" by simp
  then show ?thesis using m(2) by auto
qed

lemma time_items_range: "time_items lo hi items = Inr vs \<Longrightarrow> \<forall>v\<in>set vs. lo \<le> v \<and> v \<le> hi"
  by (induction items arbitrary: vs) (auto split: option.splits if_splits sum.splits)

lemma time_items_length: "time_items lo hi items = Inr vs \<Longrightarrow> length vs = length items"
  by (induction items arbitrary: vs) (auto split: option.splits if_splits sum.splits)

lemma step_field_ok:
  assumes "length a \<le> 18" and "length b \<le> 18" and "hi \<le> 59" and "lo = 0"
  shows "\<exists>r. step_field a b lo hi = Some r \<and> (\<forall>vs. r = Inr vs \<longrightarrow> field_ok lo hi vs)"
proof (cases "(if a = CHR ''*'' # [] then Some 0 else Atoi a)")
  case (Some start)
  then have start: "- (10 ^ 18) < start" using Atoi_small [OF _ assms(1)] by (auto split: if_splits)
  show ?thesis
  proof (cases "Atoi b")
    case step: (Some step)
    show ?thesis
    proof (cases "step \<le> 0")
      case False
      then obtain vs where "step_values start step lo hi = Some vs" "field_ok (max start lo) hi vs"
        using step_values_ok [of step hi start lo] start Atoi_small [OF step assms(2)] assms(3) by auto
      then show ?thesis using Some step False by (auto simp: step_field_def field_ok_def)
    qed (use Some step in \<open>simp add: step_field_def\<close>)
  qed (use Some in \<open>simp add: step_field_def\<close>)
qed (simp add: step_field_def)

lemma parseTimeField_ok:
  assumes "length s \<le> 18" and "hi \<le> 59" and "lo = 0"
  shows "\<exists>r. parseTimeField s lo hi = Some r \<and> (\<forall>vs. r = Inr vs \<longrightarrow> field_ok lo hi vs)"
proof (cases "Cut s ''/''")
  case None
  have "field_ok lo hi (sort vs)" if "time_items lo hi items = Inr vs" for vs items
    using time_items_range [OF that] by (simp add: field_ok_def)
  moreover have "field_ok lo hi vs" if "time_items lo hi [x] = Inr vs" for vs x
    using time_items_range [OF that] time_items_length [OF that] by (cases vs) (auto simp: field_ok_def)
  moreover have "field_ok lo hi []" by (simp add: field_ok_def)
  ultimately show ?thesis
    using None by (auto simp: parseTimeField_def simp del: time_items.simps split: sum.splits)
next
  case (Some p)
  obtain a b where p: "p = (a, b)" by (cases p)
  have "length a \<le> 18" "length b \<le> 18" using Cut_join Some p assms(1) by fastforce+
  then have "\<exists>r. step_field a b lo hi = Some r \<and> (\<forall>vs. r = Inr vs \<longrightarrow> field_ok lo hi vs)"
    using assms(2,3) by (rule step_field_ok)
  moreover have "parseTimeField s lo hi = (if s = ''*'' then Some (Inr []) else step_field a b lo hi)"
    using Some p by (simp add: parseTimeField_def)
  ultimately show ?thesis by (simp add: field_ok_def [of _ _ "[]"] split: if_splits)
qed

lemma Split_length: "f \<in> set (Split s sep) \<Longrightarrow> length f \<le> length s"
proof (induction s arbitrary: f)
  case (Cons c s)
  obtain g gs where "Split s sep = g # gs" by (cases "Split s sep") auto
  then show ?case using Cons by (fastforce split: if_splits)
qed simp

lemma parseTime_ok:
  assumes "length s \<le> 18"
  shows "\<exists>r. parseTime s = Some r \<and>
    (\<forall>hs ms ss. r = Inr (hs, ms, ss) \<longrightarrow> field_ok 0 23 hs \<and> field_ok 0 59 ms \<and> field_ok 0 59 ss)"
proof (cases "length (Split s CHR '':'') < 2 \<or> length (Split s CHR '':'') > 3")
  case False
  let ?p = "\<lambda>i. Split s CHR '':'' ! i"
  have len: "length (?p i) \<le> 18" if "i < length (Split s CHR '':'')" for i
    using Split_length [OF nth_mem [OF that]] assms by simp
  obtain h where h: "parseTimeField (?p 0) 0 23 = Some h" "\<forall>vs. h = Inr vs \<longrightarrow> field_ok 0 23 vs"
    using parseTimeField_ok [of "?p 0" 23 0] len [of 0] False by auto
  obtain m where m: "parseTimeField (?p 1) 0 59 = Some m" "\<forall>vs. m = Inr vs \<longrightarrow> field_ok 0 59 vs"
    using parseTimeField_ok [of "?p 1" 59 0] len [of 1] False by auto
  have s: "\<exists>r. parseTimeField (?p 2) 0 59 = Some r \<and> (\<forall>vs. r = Inr vs \<longrightarrow> field_ok 0 59 vs)"
    if "length (Split s CHR '':'') = 3"
    using parseTimeField_ok [of "?p 2" 59 0] len [of 2] that by simp
  have zero: "field_ok 0 59 [0]" by (simp add: field_ok_def)
  show ?thesis
    using h m s False zero unfolding parseTime_def Let_def
    by (cases h; cases m) (auto split: sum.splits)
qed (auto simp: parseTime_def Let_def)

lemma weekday_range_ok:
  assumes "0 \<le> a" "a < 7" "0 \<le> b" "b < 7"
  shows "\<forall>d\<in>set (weekday_range a b). 0 \<le> d \<and> d \<le> 6"
  using assms
proof (induction a b rule: weekday_range.induct)
  case (1 a b)
  then show ?case by (subst weekday_range.simps) auto
qed

lemma weekdayNames_range: "map_of weekdayNames s = Some d \<Longrightarrow> 0 \<le> d \<and> d < 7"
  by (auto simp: weekdayNames_def split: if_splits)

lemma weekday_item_ok:
  assumes "weekday_item item = Inr es"
  shows "\<forall>d\<in>set es. 0 \<le> d \<and> d \<le> 6"
proof (cases "Cut item ''..''")
  case None
  then obtain d where "map_of weekdayNames (ToLower item) = Some d" "es = [d]"
    using assms by (auto simp: weekday_item_def split: option.splits)
  then show ?thesis using weekdayNames_range by fastforce
next
  case (Some p)
  then obtain x y a b where "map_of weekdayNames (ToLower x) = Some a"
      "map_of weekdayNames (ToLower y) = Some b" "es = weekday_range a b"
    using assms by (cases p) (auto simp: weekday_item_def split: option.splits)
  then show ?thesis using weekdayNames_range weekday_range_ok by metis
qed

lemma weekday_items_ok: "weekday_items items = Inr ds \<Longrightarrow> \<forall>d\<in>set ds. 0 \<le> d \<and> d \<le> 6"
proof (induction items arbitrary: ds)
  case (Cons item items)
  then obtain es ds' where "weekday_item item = Inr es" "weekday_items items = Inr ds'" "ds = es @ ds'"
    by (auto split: sum.splits)
  then show ?case using Cons.IH weekday_item_ok by fastforce
qed simp

lemma parseWeekdays_ok: "parseWeekdays s = Inr ds \<Longrightarrow> field_ok 0 6 ds"
  using weekday_items_ok by (auto simp: parseWeekdays_def field_ok_def split: sum.splits)

lemma parseDate_ok: "parseDate s = Inr (ms, ds) \<Longrightarrow> field_ok 1 12 ms \<and> field_ok 1 31 ds"
  by (auto simp: parseDate_def field_ok_def split: list.splits option.splits if_splits)

lemma calendarAlias_ok: "calendarAlias s = Some c \<Longrightarrow> spec_ok c"
  unfolding calendarAlias_def Let_def
  by (simp only: split: if_splits) (auto simp: spec_ok_def field_ok_def any_spec_def)

definition good_parse :: "(cal_error, CalendarSpec) result option \<Rightarrow> bool" where
  "good_parse p \<longleftrightarrow> (\<exists>r. p = Some r \<and> (\<forall>c. r = Inr c \<longrightarrow> spec_ok c))"

lemma field_ok_Nil [simp]: "field_ok lo hi []"
  by (simp add: field_ok_def)

lemma parse_clock_ok:
  assumes "field_ok 0 6 wds" "field_ok 1 12 ms" "field_ok 1 31 ds" "\<forall>f\<in>set parts. length f \<le> 18"
  shows "good_parse (parse_clock wds ms ds parts)"
proof (cases "length parts = 1")
  case True
  then have "length (parts ! 0) \<le> 18" using assms(4) nth_mem [of 0 parts] by simp
  then obtain r where r: "parseTime (parts ! 0) = Some r"
    "\<forall>hs ms ss. r = Inr (hs, ms, ss) \<longrightarrow> field_ok 0 23 hs \<and> field_ok 0 59 ms \<and> field_ok 0 59 ss"
    using parseTime_ok by blast
  then show ?thesis
    using True assms(1-3) by (cases r) (auto simp: good_parse_def parse_clock_def spec_ok_def)
qed (simp add: good_parse_def parse_clock_def)

lemma parse_date_clock_ok:
  assumes "field_ok 0 6 wds" "\<forall>f\<in>set parts. length f \<le> 18"
  shows "good_parse (parse_date_clock wds parts)"
proof -
  have "\<forall>f\<in>set (tl parts). length f \<le> 18" using assms(2) by (cases parts) auto
  then show ?thesis
    using parse_clock_ok [OF assms(1)] parseDate_ok [of "parts ! 0"] assms(2)
    unfolding parse_date_clock_def
    by (cases "parseDate (parts ! 0)") (auto simp: good_parse_def)
qed

text \<open>
  Property C34. \<open>ParseCalendar\<close> returns, for an expression whose words have at most 18 bytes, and what it
  accepts is well-formed: the lists of the specification are ascending and within the ranges of their
  fields. (A longer number can be a step so large that the loop variable overflows.)
\<close>

theorem ParseCalendar_well_formed:
  assumes "\<forall>f\<in>set (Fields (TrimSpace s)). length f \<le> 18"
  shows "\<exists>r. ParseCalendar s = Some r \<and> (\<forall>c. r = Inr c \<longrightarrow> spec_ok c)"
proof -
  let ?parts = "Fields (TrimSpace s)"
  have tl: "\<forall>f\<in>set (tl ?parts). length f \<le> 18" using assms by (cases ?parts) auto
  have "good_parse (ParseCalendar s)"
  proof (cases "TrimSpace s = []")
    case False
    show ?thesis
    proof (cases "calendarAlias (TrimSpace s)")
      case None
      then show ?thesis
        using False parse_date_clock_ok [of "[]" ?parts] parse_date_clock_ok [OF _ tl]
          parseWeekdays_ok [of "?parts ! 0"] assms
        unfolding ParseCalendar_def Let_def
        by (cases "parseWeekdays (?parts ! 0)") (auto simp: good_parse_def)
    next
      case (Some c)
      then show ?thesis
        using False calendarAlias_ok [OF Some] by (simp add: good_parse_def ParseCalendar_def Let_def)
    qed
  qed (simp add: good_parse_def ParseCalendar_def)
  then show ?thesis by (simp add: good_parse_def)
qed

lemma step_values_past: "hi < start \<Longrightarrow> step_values start step lo hi = Some []"
  by (subst step_values.simps) simp

lemmas parse_simps =
  ParseCalendar_def Let_def TrimSpace_def is_space_def calendarAlias_def ToLower_def lower_char_def
  Fields_def parse_date_clock_def parse_clock_def parseTime_def parseTimeField_def step_field_def
  Atoi_def read_nat_def digit_value_def any_spec_def

theorem ParseCalendar_well_formed_witness:
  "\<exists>c. ParseCalendar ''*:60/5'' = Some (Inr c) \<and> spec_ok c"
proof -
  have p: "ParseCalendar ''*:60/5'' = Some (Inr (any_spec\<lparr>seconds := [0]\<rparr>))"
    by (simp add: parse_simps step_values_past)
  have "\<forall>f\<in>set (Fields (TrimSpace ''*:60/5'')). length f \<le> 18"
    by (simp add: TrimSpace_def is_space_def Fields_def)
  from ParseCalendar_well_formed [OF this] p show ?thesis by auto
qed

text \<open>
  With a step of nineteen digits the loop variable overflows, and the list that the parser accepts descends.
\<close>

lemma overflowing_step:
  "step_values 59 9223372036854775807 0 59 =
    Some [59, 57, 55, 53, 51, 49, 47, 45, 43, 41, 39, 37, 35, 33, 31, 29, 27, 25, 23, 21, 19, 17, 15, 13, 11, 9, 7, 5, 3, 1]"
  by (simp add: step_values.simps wrap64_def)

lemma overflowing_step_accepted:
  "\<exists>c. ParseCalendar ''*:59/9223372036854775807'' = Some (Inr c) \<and> \<not> spec_ok c"
proof -
  have "ParseCalendar ''*:59/9223372036854775807'' = map_option (\<lambda>vs. Inr (any_spec\<lparr>minutes := vs, seconds := [0]\<rparr>))
      (step_values 59 9223372036854775807 0 59)"
    by (simp add: parse_simps option.map_comp comp_def split: option.split)
  then show ?thesis by (simp add: overflowing_step spec_ok_def field_ok_def any_spec_def)
qed

definition leap_day :: CalendarSpec where
  "leap_day = any_spec\<lparr>months := [2], days := [29], hours := [0], minutes := [0], seconds := [0]\<rparr>"

text \<open>
  Two edges of the calendar. A step whose start lies past the range of its field selects
  no value, and the empty list is read as every value: \<open>*:60/5\<close> is accepted and means every minute,
  although the minute 60 by itself is refused. And the search gives up on a leap day: on 1 March 2024
  it reports no future match for 29 February, although 29 February 2028 matches.
\<close>

lemma calendar_edge_cases:
  "ParseCalendar ''*:60/5'' = Some (Inr (any_spec\<lparr>seconds := [0]\<rparr>)) \<and>
   ParseCalendar ''*:60'' = Some (Inl (BadValue ''60'')) \<and>
   NextAfter leap_day (Date 2024 3 1 0 0 0 * second_ns) = None \<and>
   cal_matches leap_day (Date 2028 2 29 0 0 0)"
proof (intro conjI)
  show "ParseCalendar ''*:60/5'' = Some (Inr (any_spec\<lparr>seconds := [0]\<rparr>))"
    "ParseCalendar ''*:60'' = Some (Inl (BadValue ''60''))"
    by (simp_all add: parse_simps step_values_past)
  show "NextAfter leap_day (Date 2024 3 1 0 0 0 * second_ns) = None" by code_simp
  show "cal_matches leap_day (Date 2028 2 29 0 0 0)" by code_simp
qed

end
