(* ===== verification/Periodic.thy ===== *)
theory Periodic
  imports Calendar Evaluate
begin

text \<open>
  The periodic tasks of a service: the cron runner (\<open>pkg/service/cron.go\<close>) and the health checker
  (\<open>healthcheck.go\<close>). Both have a goroutine that is started once and ended through a channel; what
  their \<open>Start\<close> and \<open>Stop\<close> share is the locale \<open>periodic\<close>. The commands they run are inputs of the model:
  whether the command failed.
\<close>

section \<open>Starting and stopping\<close>

text \<open>The stop channel: nil, made and open, or closed.\<close>

datatype chan = NoChan | Open | Closed

locale periodic =
  fixes chan_of :: "'s \<Rightarrow> chan" and start_it :: "'s \<Rightarrow> 's" and stop_it :: "'s \<Rightarrow> 's"
  assumes start_fresh: "chan_of s = NoChan \<Longrightarrow> chan_of (start_it s) = Open"
    and start_again: "chan_of s \<noteq> NoChan \<Longrightarrow> start_it s = s"
    and stop_chan: "chan_of (stop_it s) = (if chan_of s = NoChan then NoChan else Closed)"
begin

lemma stopped_for_good:
  assumes "chan_of s \<noteq> NoChan"
  shows "chan_of (fold (\<lambda>b. if b then start_it else stop_it) bs (stop_it s)) = Closed"
proof -
  have "chan_of (fold (\<lambda>b. if b then start_it else stop_it) bs s) = Closed" if "chan_of s = Closed" for s
    using that by (induction bs arbitrary: s) (auto simp: start_again stop_chan)
  then show ?thesis using assms by (simp add: stop_chan)
qed

end

section \<open>Cron\<close>

record CronRunner =
  cr_command :: "string list"
  cr_interval :: duration
  cr_delay :: duration
  cr_onError :: string
  calendar :: "CalendarSpec option"
  randomizedDelay :: duration
  accuracy :: duration
  persistent :: bool
  lastRun :: "instant option"
  cr_running :: bool
  cr_stopCh :: chan

definition NewCronRunner :: "string list \<Rightarrow> duration \<Rightarrow> duration \<Rightarrow> string \<Rightarrow> CronRunner" where
  "NewCronRunner cmd interval delay onError =
    \<lparr>cr_command = cmd, cr_interval = (if interval \<le> 0 then 60 * second_ns else interval), cr_delay = delay,
     cr_onError = (if onError = [] then ''continue'' else onError), calendar = None, randomizedDelay = 0,
     accuracy = 0, persistent = False, lastRun = None, cr_running = False, cr_stopCh = NoChan\<rparr>"

definition NewCalendarCronRunner ::
  "string list \<Rightarrow> CalendarSpec \<Rightarrow> duration \<Rightarrow> bool \<Rightarrow> string \<Rightarrow> CronRunner" where
  "NewCalendarCronRunner cmd cal rd pers onError =
    \<lparr>cr_command = cmd, cr_interval = 0, cr_delay = 0,
     cr_onError = (if onError = [] then ''continue'' else onError), calendar = Some cal,
     randomizedDelay = rd, accuracy = 0, persistent = pers, lastRun = None, cr_running = False,
     cr_stopCh = NoChan\<rparr>"

definition SetAccuracy :: "duration \<Rightarrow> CronRunner \<Rightarrow> CronRunner" where
  "SetAccuracy d cr = cr\<lparr>accuracy := d\<rparr>"

definition cron_Start :: "CronRunner \<Rightarrow> CronRunner" where
  "cron_Start cr = (if cr_stopCh cr \<noteq> NoChan then cr else cr\<lparr>cr_stopCh := Open\<rparr>)"

text \<open>\<open>Stop\<close> closes the channel and waits for the loop, which is no longer running a command then.\<close>

definition cron_Stop :: "CronRunner \<Rightarrow> CronRunner" where
  "cron_Stop cr = (if cr_stopCh cr = NoChan then cr else cr\<lparr>cr_stopCh := Closed, cr_running := False\<rparr>)"

definition command_timeout :: "CronRunner \<Rightarrow> duration" where
  "command_timeout cr = (if cr_interval cr \<le> 0 then 60 * second_ns else cr_interval cr)"

text \<open>
  \<open>runOnce\<close>, given whether the command fails: whether the loop goes on, and whether the command was run.
  An empty command is not run and does not fail.
\<close>

definition runOnce :: "bool \<Rightarrow> CronRunner \<Rightarrow> bool \<times> bool" where
  "runOnce fails cr =
    (if cr_stopCh cr = Closed then (False, False)
     else let ran = cr_command cr \<noteq> [] in
       (\<not> (ran \<and> fails \<and> cr_onError cr = ''stop''), ran))"

text \<open>
  The interval loop after its initial delay, on the events it waits for: a tick, with the result of
  the command, or the closing of the channel. The value is the number of runs and whether it ended.
\<close>

datatype cron_event = Tick bool | StopRequest

fun interval_events :: "CronRunner \<Rightarrow> cron_event list \<Rightarrow> nat \<times> bool" where
  "interval_events cr [] = (0, False)"
| "interval_events cr (StopRequest # es) = (0, True)"
| "interval_events cr (Tick fails # es) =
    (let (on, ran) = runOnce fails cr in
     if on then (let (n, ended) = interval_events cr es in ((if ran then 1 else 0) + n, ended))
     else (if ran then 1 else 0, True))"

definition loopInterval :: "CronRunner \<Rightarrow> cron_event list \<Rightarrow> nat \<times> bool" where
  "loopInterval cr es =
    (if cr_delay cr > 0 \<and> es \<noteq> [] \<and> hd es = StopRequest then (0, True) else interval_events cr es)"

subsection \<open>Calendar mode\<close>

text \<open>\<open>time.Truncate\<close> rounds down to a multiple of the duration since the zero time, 1 January of year 1.\<close>

definition zero_offset :: int where
  "zero_offset = 730119 * 86400 * second_ns"

definition Truncate :: "instant \<Rightarrow> duration \<Rightarrow> instant" where
  "Truncate t d = (if d \<le> 0 then t else t - (t + zero_offset) mod d)"

definition missed_fire :: "CronRunner \<Rightarrow> CalendarSpec \<Rightarrow> instant option \<Rightarrow> instant \<Rightarrow> instant option" where
  "missed_fire cr cal persisted tnow =
    (if \<not> persistent cr then None
     else case (case persisted of Some t \<Rightarrow> Some t | None \<Rightarrow> lastRun cr) of
         None \<Rightarrow> None
       | Some prev \<Rightarrow>
          (case NextAfter cal prev of
             None \<Rightarrow> None
           | Some m \<Rightarrow> if m < tnow then Some m else None))"

definition fire_time :: "CronRunner \<Rightarrow> CalendarSpec \<Rightarrow> instant \<Rightarrow> duration \<Rightarrow> instant option" where
  "fire_time cr cal tnow jit =
    (case NextAfter cal tnow of
       None \<Rightarrow> None
     | Some next \<Rightarrow>
        (let next' = (if randomizedDelay cr > 0 then next + jit else next) in
         Some (if accuracy cr > 0 then Truncate next' (accuracy cr) else next')))"

definition fire_delay :: "instant \<Rightarrow> instant \<Rightarrow> duration" where
  "fire_delay tnow next = (if next - tnow < 0 then 0 else next - tnow)"

text \<open>
  One pass of the loop at time \<open>tnow\<close>: the loop ends when there is no match, when it is stopped while it
  waits, or when \<open>runOnce\<close> says so; otherwise the fire time is recorded, on disk too for a persistent
  task.
\<close>

record cron_pass =
  ended :: bool
  ran :: bool
  waited :: duration
  runner :: CronRunner
  stored :: "instant option"

definition calendar_pass ::
  "CronRunner \<Rightarrow> CalendarSpec \<Rightarrow> instant option \<Rightarrow> instant \<Rightarrow> duration \<Rightarrow> bool \<Rightarrow> bool \<Rightarrow> cron_pass" where
  "calendar_pass cr cal disk tnow jit stopped fails =
    (case fire_time cr cal tnow jit of
       None \<Rightarrow> \<lparr>ended = True, ran = False, waited = 0, runner = cr, stored = disk\<rparr>
     | Some next \<Rightarrow>
        (if stopped then
           \<lparr>ended = True, ran = False, waited = fire_delay tnow next, runner = cr\<lparr>cr_stopCh := Closed\<rparr>,
            stored = disk\<rparr>
         else
           let cr' = cr\<lparr>lastRun := Some next\<rparr>; (on, did) = runOnce fails cr' in
           \<lparr>ended = \<not> on, ran = did, waited = fire_delay tnow next, runner = cr',
            stored = (if on \<and> persistent cr then Some next else disk)\<rparr>))"

text \<open>The name under which a task keeps its last run: no path separator is left in it.\<close>

definition persist_name :: "string \<Rightarrow> string" where
  "persist_name name = map (\<lambda>c. if c = CHR ''/'' then CHR ''_'' else c) name"

interpretation cron: periodic cr_stopCh cron_Start cron_Stop
  by unfold_locales (auto simp: cron_Start_def cron_Stop_def)

section \<open>Health checks\<close>

record HealthChecker =
  hc_command :: "string list"
  hc_interval :: duration
  hc_delay :: duration
  maxFailures :: int
  unhealthyCmd :: "string list"
  failures :: int
  hc_stopCh :: chan

definition NewHealthChecker ::
  "string list \<Rightarrow> duration \<Rightarrow> duration \<Rightarrow> int \<Rightarrow> string list \<Rightarrow> HealthChecker" where
  "NewHealthChecker cmd interval delay maxf unhealthy =
    \<lparr>hc_command = cmd, hc_interval = (if interval \<le> 0 then 30 * second_ns else interval), hc_delay = delay,
     maxFailures = (if maxf < 0 then 0 else maxf), unhealthyCmd = unhealthy, failures = 0,
     hc_stopCh = NoChan\<rparr>"

definition hc_Start :: "HealthChecker \<Rightarrow> HealthChecker" where
  "hc_Start hc = (if hc_stopCh hc \<noteq> NoChan then hc else hc\<lparr>hc_stopCh := Open, failures := 0\<rparr>)"

definition hc_Stop :: "HealthChecker \<Rightarrow> HealthChecker" where
  "hc_Stop hc = (if hc_stopCh hc = NoChan then hc else hc\<lparr>hc_stopCh := Closed\<rparr>)"

datatype check_result = GoesOn | EndsQuietly | CallsOnFail

definition checkOnce :: "bool \<Rightarrow> HealthChecker \<Rightarrow> check_result \<times> HealthChecker" where
  "checkOnce healthy hc =
    (if hc_stopCh hc = Closed then (EndsQuietly, hc)
     else if healthy then (GoesOn, hc\<lparr>failures := 0\<rparr>)
     else let hc' = hc\<lparr>failures := failures hc + 1\<rparr> in
       if maxFailures hc' > 0 \<and> failures hc' \<ge> maxFailures hc' then (CallsOnFail, hc')
       else (GoesOn, hc'))"

text \<open>The checks of the loop: after how many of them the service is reported, if ever.\<close>

fun health_loop :: "HealthChecker \<Rightarrow> bool list \<Rightarrow> nat option" where
  "health_loop hc [] = None"
| "health_loop hc (healthy # rs) =
    (case checkOnce healthy hc of
       (GoesOn, hc') \<Rightarrow> map_option Suc (health_loop hc' rs)
     | (EndsQuietly, hc') \<Rightarrow> None
     | (CallsOnFail, hc') \<Rightarrow> Some 1)"

text \<open>The callback \<open>SetHealthCheck\<close> installs (\<open>process.go\<close>).\<close>

definition onFail :: "svc \<Rightarrow> world \<Rightarrow> world" where
  "onFail s = Stop False s"

interpretation hc: periodic hc_stopCh hc_Start hc_Stop
  by unfold_locales (auto simp: hc_Start_def hc_Stop_def)

section \<open>A stopped task stays stopped\<close>

text \<open>
  The cron runner and the health checker of a service work until they are first stopped:
  whatever sequence of starts and stops follows, a run of the cron loop executes no command and a check
  ends at once. (The service stops them whenever it is brought down and starts the same objects again
  when it is next started.)
\<close>

lemma periodic_tasks_end_with_first_stop:
  assumes "cr_stopCh cr = Open" and "hc_stopCh hc = Open"
  shows "runOnce fails (fold (\<lambda>b. if b then cron_Start else cron_Stop) bs (cron_Stop cr)) = (False, False) \<and>
    fst (checkOnce healthy (fold (\<lambda>b. if b then hc_Start else hc_Stop) bs (hc_Stop hc))) = EndsQuietly"
  using cron.stopped_for_good [of cr bs] hc.stopped_for_good [of hc bs] assms
  by (simp add: runOnce_def checkOnce_def)

section \<open>When the cron task fires\<close>

lemma fire_time_plain:
  "randomizedDelay cr \<le> 0 \<Longrightarrow> accuracy cr \<le> 0 \<Longrightarrow> fire_time cr cal t j = NextAfter cal t"
  by (simp add: fire_time_def split: option.splits)

text \<open>
  The catch-up of a persistent task: when it starts within two years of its last run, it
  runs at once exactly when the calendar has a match after the last run and before now.
\<close>

lemma catch_up_iff_missed:
  assumes "spec_ok cal" and "persistent cr" and "disk = Some t0"
    and "tnow \<le> t0 + two_years * second_ns"
  shows "missed_fire cr cal disk tnow \<noteq> None \<longleftrightarrow>
    (\<exists>u. t0 < u * second_ns \<and> u * second_ns < tnow \<and> cal_matches cal u)"
proof (cases "NextAfter cal t0")
  case None
  have "\<not> cal_matches cal u" if "t0 < u * second_ns" "u * second_ns < tnow" for u
  proof -
    have "(u - two_years) * second_ns < t0" using that assms(4) by (simp add: algebra_simps)
    then have "\<not> t0 < (u - two_years) * second_ns" by simp
    then have "u < (t0 + second_ns) div second_ns + two_years" by (simp add: after_second)
    then show ?thesis using NextAfter_NoneD [OF assms(1) None that(1)] by simp
  qed
  then show ?thesis using None assms(2,3) by (auto simp: missed_fire_def)
next
  case (Some m)
  obtain v where v: "m = v * second_ns" "t0 < m" "cal_matches cal v"
    and least: "\<And>u. t0 < u * second_ns \<Longrightarrow> u < v \<Longrightarrow> \<not> cal_matches cal u"
    using NextAfter_SomeD [OF assms(1) Some] by metis
  have "m < tnow" if "t0 < u * second_ns" "u * second_ns < tnow" "cal_matches cal u" for u
  proof -
    have "v \<le> u" using least [OF that(1)] that(3) by force
    then have "m \<le> u * second_ns" using v(1) by (simp add: second_ns_def)
    then show ?thesis using that(2) by simp
  qed
  then show ?thesis using Some assms(2,3) v by (auto simp: missed_fire_def)
qed

text \<open>
  With an accuracy the fire time is rounded down and can lie before the match it stands for.
  From then until the match every pass of the loop waits for nothing and runs the command again.
\<close>

lemma accuracy_fires_repeatedly:
  assumes "spec_ok cal" and "accuracy cr > 0" and "randomizedDelay cr \<le> 0"
    and "NextAfter cal t = Some m" and "t \<le> t'" and "t' < m" and "Truncate m (accuracy cr) \<le> t'"
    and "cr_stopCh cr = Open" and "cr_command cr \<noteq> []" and "cr_onError cr = ''continue''"
  shows "let p = calendar_pass cr cal disk t' j False fails in
    \<not> ended p \<and> ran p \<and> waited p = 0 \<and> cr_stopCh (runner p) = Open"
proof -
  have "NextAfter cal t' = Some m" using NextAfter_stable [OF assms(1,4,5,6)] .
  then have "fire_time cr cal t' j = Some (Truncate m (accuracy cr))"
    using assms(2,3) by (simp add: fire_time_def)
  moreover have "fire_delay t' (Truncate m (accuracy cr)) = 0" using assms(7) by (simp add: fire_delay_def)
  ultimately show ?thesis
    using assms(8-10) by (simp add: calendar_pass_def runOnce_def Let_def)
qed

section \<open>When the health checker reports\<close>

text \<open>The number of failures at the end of a list of results (oldest first), after \<open>k\<close> earlier ones.\<close>

fun trailing :: "nat \<Rightarrow> bool list \<Rightarrow> nat" where
  "trailing k [] = k"
| "trailing k (healthy # rs) = trailing (if healthy then 0 else Suc k) rs"

lemma trailing_take: "trailing k (r # take i rs) = trailing (if r then 0 else Suc k) (take i rs)"
  by simp

lemma health_loop_trailing:
  assumes "hc_stopCh hc \<noteq> Closed" and "maxFailures hc = int m" and "0 < m" and "failures hc = int k" and "k < m"
  shows "health_loop hc rs = Some n \<longleftrightarrow>
    n \<le> length rs \<and> trailing k (take n rs) = m \<and> (\<forall>i<n. trailing k (take i rs) < m)"
  using assms
proof (induction rs arbitrary: hc k n)
  case (Cons r rs)
  show ?case
  proof (cases "r = False \<and> Suc k = m")
    case True
    then have loop: "health_loop hc (r # rs) = Some 1"
      using Cons.prems by (simp add: checkOnce_def Let_def)
    show ?thesis
    proof
      assume "health_loop hc (r # rs) = Some n"
      then have "n = 1" using loop by simp
      then show "n \<le> length (r # rs) \<and> trailing k (take n (r # rs)) = m
          \<and> (\<forall>i<n. trailing k (take i (r # rs)) < m)"
        using True Cons.prems by simp
    next
      assume n: "n \<le> length (r # rs) \<and> trailing k (take n (r # rs)) = m
          \<and> (\<forall>i<n. trailing k (take i (r # rs)) < m)"
      have "n \<noteq> 0" using n Cons.prems by (cases n) auto
      moreover have "\<not> 1 < n" using n True by (auto dest: spec [of _ 1])
      ultimately show "health_loop hc (r # rs) = Some n" using loop by (cases n) auto
    qed
  next
    case False
    let ?k = "if r then 0 else Suc k"
    have k: "?k < m" using False Cons.prems by auto
    obtain hc' where hc': "checkOnce r hc = (GoesOn, hc')" "hc_stopCh hc' \<noteq> Closed"
        "maxFailures hc' = int m" "failures hc' = int ?k"
      using False Cons.prems k by (cases r) (auto simp: checkOnce_def Let_def)
    have ih: "health_loop hc' rs = Some i \<longleftrightarrow>
        i \<le> length rs \<and> trailing ?k (take i rs) = m \<and> (\<forall>j<i. trailing ?k (take j rs) < m)" for i
      using Cons.IH [OF hc'(2,3) Cons.prems(3) hc'(4) k] .
    show ?thesis
    proof (cases n)
      case 0
      then show ?thesis using hc'(1) Cons.prems(5) by auto
    next
      case (Suc i)
      have "(\<forall>j<Suc i. trailing k (take j (r # rs)) < m) \<longleftrightarrow> (\<forall>j<i. trailing ?k (take j rs) < m)"
        using Cons.prems(5) by (auto simp: less_Suc_eq_0_disj)
      then show ?thesis using hc'(1) ih [of i] Suc by auto
    qed
  qed
qed auto

text \<open>
  Property C35. With a limit \<open>m\<close> the health checker reports the service after exactly the checks that end
  with \<open>m\<close> consecutive failures for the first time, and never without them; without a limit (\<open>m = 0\<close>) it
  never reports.
\<close>

theorem health_check_reports:
  assumes "hc = hc_Start (NewHealthChecker cmd interval delay (int m) unhealthy)"
  shows "health_loop hc rs = Some n \<longleftrightarrow>
    0 < m \<and> n \<le> length rs \<and> trailing 0 (take n rs) = m \<and> (\<forall>i<n. trailing 0 (take i rs) < m)"
proof (cases "m = 0")
  case True
  have "health_loop hc rs = None" if "hc_stopCh hc \<noteq> Closed" "maxFailures hc = 0" for hc
    using that by (induction rs arbitrary: hc) (auto simp: checkOnce_def Let_def)
  then show ?thesis using True assms by (simp add: hc_Start_def NewHealthChecker_def)
next
  case False
  then show ?thesis
    using health_loop_trailing [of hc m 0 rs n] assms by (simp add: hc_Start_def NewHealthChecker_def)
qed

text \<open>
  What a report does: the checker's callback withdraws the explicit activation, and while
  another service requires the reported one, nothing else happens. No queue is touched and the service
  keeps running, without a health check from then on.
\<close>

lemma health_report_ignored_when_required:
  assumes "requiredBy (recs w s) - (if startExplicit (recs w s) then 1 else 0) \<noteq> 0"
  shows "let w' = onFail s w in
    (\<forall>x. state (recs w' x) = state (recs w x) \<and> desired (recs w' x) = desired (recs w x)) \<and>
    propQueue w' = propQueue w \<and> stopQueue w' = stopQueue w \<and> \<not> startExplicit (recs w' s)"
  using assms
  by (cases "startExplicit (recs w s)")
    (auto simp: onFail_def Stop_def Let_def dec_required_def modr_def IsStartPinned_def)

section \<open>Examples\<close>

lemma periodic_tasks_end_with_first_stop_witness:
  "let cr = cron_Start (NewCronRunner [''true''] 0 0 []); hc = hc_Start (NewHealthChecker [''true''] 0 0 3 [])
   in cr_stopCh cr = Open \<and> hc_stopCh hc = Open \<and>
      runOnce False (cron_Start (cron_Stop cr)) = (False, False) \<and>
      fst (checkOnce True (hc_Start (hc_Stop hc))) = EndsQuietly"
proof -
  let ?cr = "cron_Start (NewCronRunner [''true''] 0 0 [])" and ?hc = "hc_Start (NewHealthChecker [''true''] 0 0 3 [])"
  have o: "cr_stopCh ?cr = Open" "hc_stopCh ?hc = Open"
    by (simp_all add: cron_Start_def NewCronRunner_def hc_Start_def NewHealthChecker_def)
  from periodic_tasks_end_with_first_stop [OF o, of False "[True]" True] o show ?thesis
    unfolding Let_def by simp
qed

text \<open>A task that fires at second 30 of every minute, with an accuracy of one minute.\<close>

lemma accuracy_fires_repeatedly_witness:
  "let cal = any_spec\<lparr>seconds := [30]\<rparr>;
       cr = SetAccuracy (60 * second_ns) (cron_Start (NewCalendarCronRunner [''true''] cal 0 False []));
       t = Date 2026 6 13 12 0 0 * second_ns;
       p = calendar_pass cr cal None t 0 False False
   in spec_ok cal \<and> \<not> ended p \<and> ran p \<and> waited p = 0"
proof -
  let ?cal = "any_spec\<lparr>seconds := [30]\<rparr>"
  let ?cr = "SetAccuracy (60 * second_ns) (cron_Start (NewCalendarCronRunner [''true''] ?cal 0 False []))"
  let ?t = "Date 2026 6 13 12 0 0 * second_ns" and ?m = "Date 2026 6 13 12 0 30 * second_ns"
  have ok: "spec_ok ?cal" by (simp add: spec_ok_def field_ok_def any_spec_def)
  have next_m: "NextAfter ?cal ?t = Some ?m" by code_simp
  have late: "?t \<le> ?t" "?t < ?m" by (simp, code_simp)
  have early: "Truncate ?m (accuracy ?cr) \<le> ?t" by code_simp
  have cr: "accuracy ?cr > 0" "randomizedDelay ?cr \<le> 0" "cr_stopCh ?cr = Open" "cr_command ?cr \<noteq> []"
    "cr_onError ?cr = ''continue''"
    by (simp_all add: SetAccuracy_def cron_Start_def NewCalendarCronRunner_def second_ns_def)
  show ?thesis
    using accuracy_fires_repeatedly [OF ok cr(1,2) next_m late early cr(3-5), of None 0 False] ok
    unfolding Let_def by blast
qed

theorem health_check_reports_witness:
  "health_loop (hc_Start (NewHealthChecker [''true''] 0 0 2 [])) [False, True, False, False] = Some 4"
  using health_check_reports [OF refl, of "[''true'']" 0 0 2 "[]" "[False, True, False, False]" 4]
  by (auto simp: less_Suc_eq numeral_eq_Suc)

end
