(* ===== verification/RingBuffer.thy ===== *)
theory RingBuffer
  imports Prelude
begin

text \<open>
  The rolling buffer of the daemon's own log, \<open>pkg/logging/ringbuffer.go\<close>: a circular byte buffer and the
  dumper that periodically writes it to a sink. The buffer refines the list of the bytes written since
  the last reset, of which it keeps the newest \<open>capacity\<close>.
\<close>

section \<open>The buffer\<close>

definition defaultRingCap :: nat where "defaultRingCap = 900"
definition minRingCap :: nat where "minRingCap = 16"
definition defaultRingInterval :: duration where "defaultRingInterval = 15 * 60 * 1000000000"

record RingBuffer =
  buf :: string
  head :: nat
  filled :: bool
  capacity :: nat

definition zero_bytes :: "nat \<Rightarrow> string" where
  "zero_bytes n = replicate n (char_of (0 :: nat))"

definition NewRingBuffer :: "int \<Rightarrow> RingBuffer" where
  "NewRingBuffer cap =
    (let c = (if cap \<le> 0 then defaultRingCap else nat cap); c' = (if c < minRingCap then minRingCap else c)
     in \<lparr>buf = zero_bytes c', head = 0, filled = False, capacity = c'\<rparr>)"

text \<open>\<open>copy(dst[i:], src)\<close> writes as much of \<open>src\<close> as fits.\<close>

definition copy_at :: "nat \<Rightarrow> 'a list \<Rightarrow> 'a list \<Rightarrow> 'a list" where
  "copy_at i src dst = take i dst @ take (length dst - i) src @ drop (i + length src) dst"

definition ring_Write :: "string \<Rightarrow> RingBuffer \<Rightarrow> RingBuffer" where
  "ring_Write p r =
    (let total = length p in
     if total = 0 then r
     else if total \<ge> capacity r then
       r\<lparr>buf := copy_at 0 (drop (total - capacity r) p) (buf r), head := 0, filled := True\<rparr>
     else
       let first = capacity r - head r;
           r = (if total \<le> first then r\<lparr>buf := copy_at (head r) p (buf r)\<rparr>
                else r\<lparr>buf := copy_at 0 (drop first p) (copy_at (head r) (take first p) (buf r)),
                       filled := True\<rparr>);
           r = r\<lparr>head := (head r + total) mod capacity r\<rparr>
       in if head r = 0 then r\<lparr>filled := True\<rparr> else r)"

definition Bytes :: "RingBuffer \<Rightarrow> string" where
  "Bytes r =
    (if \<not> filled r then take (head r) (buf r)
     else copy_at (capacity r - head r) (take (head r) (buf r))
       (copy_at 0 (drop (head r) (buf r)) (zero_bytes (capacity r))))"

definition ring_Reset :: "RingBuffer \<Rightarrow> RingBuffer" where
  "ring_Reset r = r\<lparr>head := 0, filled := False, buf := zero_bytes (length (buf r))\<rparr>"

definition Capacity :: "RingBuffer \<Rightarrow> nat" where
  "Capacity r = capacity r"

section \<open>The buffer keeps the newest bytes\<close>

definition ring_ok :: "RingBuffer \<Rightarrow> bool" where
  "ring_ok r \<longleftrightarrow> length (buf r) = capacity r \<and> head r < capacity r"

definition newest :: "nat \<Rightarrow> 'a list \<Rightarrow> 'a list" where
  "newest n xs = drop (length xs - n) xs"

lemma newest_append: "newest n (newest n xs @ ys) = newest n (xs @ ys)"
  by (cases "length xs \<le> n") (simp_all add: newest_def add.commute)

lemma zero_bytes_length [simp]: "length (zero_bytes n) = n"
  by (simp add: zero_bytes_def)

lemma copy_at_length: "i \<le> length dst \<Longrightarrow> length (copy_at i src dst) = length dst"
  by (simp add: copy_at_def)

lemma Bytes_ok:
  assumes "ring_ok r"
  shows "Bytes r = (if filled r then drop (head r) (buf r) else []) @ take (head r) (buf r)"
  using assms by (simp add: Bytes_def ring_ok_def copy_at_def)

lemma NewRingBuffer_ok: "ring_ok (NewRingBuffer cap) \<and> Bytes (NewRingBuffer cap) = []"
  by (simp add: NewRingBuffer_def ring_ok_def Let_def Bytes_def minRingCap_def defaultRingCap_def)

lemma ring_Reset_ok: "ring_ok r \<Longrightarrow> ring_ok (ring_Reset r) \<and> Bytes (ring_Reset r) = []"
  by (simp add: ring_Reset_def ring_ok_def Bytes_def)

lemma ring_Write_large:
  assumes "ring_ok r" and "length p \<ge> capacity r"
  shows "ring_ok (ring_Write p r) \<and> Bytes (ring_Write p r) = newest (capacity r) (Bytes r @ p)"
proof -
  let ?r = "ring_Write p r"
  have "p \<noteq> []" using assms by (auto simp: ring_ok_def)
  then have w: "buf ?r = newest (capacity r) p" "head ?r = 0" "filled ?r" "capacity ?r = capacity r"
    using assms by (auto simp: ring_Write_def Let_def copy_at_def newest_def ring_ok_def)
  then have "ring_ok ?r" using assms by (simp add: ring_ok_def newest_def)
  moreover have "newest (capacity r) (Bytes r @ p) = newest (capacity r) p"
    using assms(2) by (simp add: newest_def)
  ultimately show ?thesis using w Bytes_ok [of ?r] by simp
qed

lemma ring_Write_small:
  assumes "ring_ok r" and "length p < capacity r" and "p \<noteq> []"
  shows "ring_ok (ring_Write p r) \<and> Bytes (ring_Write p r) = newest (capacity r) (Bytes r @ p)"
proof -
  define c h n where "c = capacity r" and "h = head r" and "n = length p"
  have len: "length (buf r) = c" "h < c" "n < c" "0 < n"
    using assms by (auto simp: ring_ok_def c_def h_def n_def)
  let ?r = "ring_Write p r"
  have B: "Bytes r = (if filled r then drop h (buf r) else []) @ take h (buf r)"
    using Bytes_ok [OF assms(1)] by (simp add: h_def)
  consider (inside) "h + n < c" | (exact) "h + n = c" | (wrap) "c < h + n" by linarith
  then show ?thesis
  proof cases
    case inside
    then have w: "buf ?r = take h (buf r) @ p @ drop (h + n) (buf r)" "head ?r = h + n"
        "filled ?r = filled r" "capacity ?r = c"
      using assms(3) len by (auto simp: ring_Write_def Let_def copy_at_def c_def h_def n_def)
    then have ok: "ring_ok ?r" using len inside by (simp add: ring_ok_def n_def)
    show ?thesis
      using ok Bytes_ok [OF ok] w len inside
      by (simp add: B newest_def n_def [symmetric] c_def [symmetric] add.commute)
  next
    case exact
    then have w: "buf ?r = take h (buf r) @ p" "head ?r = 0" "filled ?r" "capacity ?r = c"
      using assms(3) len by (auto simp: ring_Write_def Let_def copy_at_def c_def h_def n_def)
    then have ok: "ring_ok ?r" using len exact by (simp add: ring_ok_def n_def)
    show ?thesis
      using ok Bytes_ok [OF ok] w len exact
      by (simp add: B newest_def n_def [symmetric] c_def [symmetric])
  next
    case wrap
    let ?k = "h + n - c"
    have m: "(h + n) mod c = ?k" using wrap len by (simp add: mod_if)
    have w: "buf ?r = drop (c - h) p @ drop ?k (take h (buf r)) @ take (c - h) p" "head ?r = ?k"
        "filled ?r" "capacity ?r = c"
      using assms(3) len wrap m
      by (auto simp: ring_Write_def Let_def copy_at_def c_def h_def n_def add.commute)
    then have ok: "ring_ok ?r" using len wrap by (simp add: ring_ok_def n_def)
    show ?thesis
      using ok Bytes_ok [OF ok] w len wrap
      by (simp add: B newest_def n_def [symmetric] c_def [symmetric])
  qed
qed

lemma ring_Write_newest:
  assumes "ring_ok r"
  shows "ring_ok (ring_Write p r) \<and> Bytes (ring_Write p r) = newest (capacity r) (Bytes r @ p)"
proof (cases "p = []")
  case True
  have "length (Bytes r) \<le> capacity r" using Bytes_ok [OF assms] assms by (simp add: ring_ok_def)
  then show ?thesis using True assms by (simp add: ring_Write_def newest_def)
next
  case False
  then show ?thesis
    using ring_Write_large [OF assms, of p] ring_Write_small [OF assms, of p]
    by (cases "capacity r \<le> length p") auto
qed

lemma ring_capacity [simp]: "capacity (ring_Write p r) = capacity r" "capacity (ring_Reset r) = capacity r"
  by (simp_all add: ring_Write_def ring_Reset_def Let_def)

text \<open>The operations of a user of the buffer, on the buffer and on the history it stands for.\<close>

datatype ring_op = WriteOp string | ResetOp

primrec ring_do :: "ring_op \<Rightarrow> RingBuffer \<Rightarrow> RingBuffer" where
  "ring_do (WriteOp p) r = ring_Write p r"
| "ring_do ResetOp r = ring_Reset r"

primrec history_do :: "ring_op \<Rightarrow> string \<Rightarrow> string" where
  "history_do (WriteOp p) h = h @ p"
| "history_do ResetOp h = []"

definition ring_abs :: "RingBuffer \<Rightarrow> string \<Rightarrow> bool" where
  "ring_abs r h \<longleftrightarrow> ring_ok r \<and> Bytes r = newest (capacity r) h"

lemma ring_do_abs: "ring_abs r h \<Longrightarrow> ring_abs (ring_do op r) (history_do op h)"
proof (cases op)
  case (WriteOp p)
  assume "ring_abs r h"
  then show ?thesis using WriteOp ring_Write_newest [of r p] by (simp add: ring_abs_def newest_append)
next
  case ResetOp
  assume "ring_abs r h"
  then show ?thesis using ResetOp ring_Reset_ok [of r] by (simp add: ring_abs_def newest_def)
qed

lemma ring_ops_abs: "ring_abs r h \<Longrightarrow> ring_abs (fold ring_do ops r) (fold history_do ops h)"
  by (induction ops arbitrary: r h) (simp_all add: ring_do_abs)

lemma ring_ops_capacity [simp]: "capacity (fold ring_do ops r) = capacity r"
proof (induction ops arbitrary: r)
  case (Cons op ops)
  then show ?case by (cases op) simp_all
qed simp

text \<open>
  Property C40. Whatever is written and however often the buffer is reset, \<open>Bytes\<close> returns the newest
  \<open>capacity\<close> of the bytes written since the last reset, in order; the capacity is never below 16.
\<close>

theorem ring_keeps_newest:
  "Bytes (fold ring_do ops (NewRingBuffer cap)) =
     newest (Capacity (NewRingBuffer cap)) (fold history_do ops []) \<and> 16 \<le> Capacity (NewRingBuffer cap)"
proof -
  have "ring_abs (NewRingBuffer cap) []"
    using NewRingBuffer_ok [of cap] by (simp add: ring_abs_def newest_def)
  then have "ring_abs (fold ring_do ops (NewRingBuffer cap)) (fold history_do ops [])"
    by (rule ring_ops_abs)
  moreover have "16 \<le> capacity (NewRingBuffer cap)"
    by (simp add: NewRingBuffer_def Let_def minRingCap_def defaultRingCap_def)
  ultimately show ?thesis by (simp add: ring_abs_def Capacity_def)
qed

section \<open>The dumper\<close>

text \<open>One tick of \<open>RingDumper.Run\<close>: the writes to the sink and the buffer afterwards.\<close>

definition newline :: string where "newline = [char_of (10 :: nat)]"

definition dump_tick :: "RingBuffer \<Rightarrow> string list \<times> RingBuffer" where
  "dump_tick r =
    (let data = Bytes r in
     if data = [] then ([], r)
     else
       let hdr = ''--- ring-buffer dump ('' @ itoa (length data) @ '' bytes) ---'' @ newline;
           body = (if last data = char_of (10 :: nat) then data else data @ newline)
       in ([hdr, body, ''--- ring-buffer end ---'' @ newline], ring_Reset r))"

definition dumper_interval :: "duration \<Rightarrow> duration" where
  "dumper_interval d = (if d \<le> 0 then defaultRingInterval else d)"

lemma dump_tick_body:
  assumes "ring_ok r" and "Bytes r \<noteq> []"
  shows "\<exists>hdr body tr. dump_tick r = ([hdr, body, tr], ring_Reset r) \<and>
    (body = Bytes r \<or> body = Bytes r @ newline) \<and> last body = char_of (10 :: nat)"
  using assms by (auto simp: dump_tick_def Let_def newline_def)

end
