(* ===== verification/ConfigText.thy ===== *)
theory ConfigText
  imports GoLib
begin

text \<open>
  The text layer of the configuration parser, \<open>pkg/config/parser.go\<close>: \<open>parseLine\<close> splits a line
  into a setting, an operator and a value, \<open>expandEnvVarsImpl\<close> substitutes variables and the service
  argument, \<open>splitCommand\<close> splits a command line into its words. The environment of the daemon is the
  parameter \<open>env\<close>, the value of \<open>os.LookupEnv\<close> for every name.

  The lemmas give the contracts the settings rely on: a text whose dollars are doubled is expanded to
  itself, a list of words that was quoted is split back into the same list, and the two paths of
  \<open>splitCommand\<close> agree. Strings are lists of bytes, and the text is taken to be valid UTF-8, which the
  loop over runes of \<open>writeWordSplit\<close> copies unchanged.
\<close>

section \<open>More of the standard library\<close>

text \<open>\<open>strings.IndexByte\<close>: what is before and after the first \<open>c\<close>, \<open>None\<close> for the index \<open>-1\<close>.\<close>

fun cut_byte :: "char \<Rightarrow> string \<Rightarrow> (string \<times> string) option" where
  "cut_byte c [] = None"
| "cut_byte c (x # s) =
    (if x = c then Some ([], s) else map_option (\<lambda>(a, b). (x # a, b)) (cut_byte c s))"

text \<open>\<open>strings.FieldsFunc\<close> for a predicate on ASCII characters.\<close>

fun split_when :: "(char \<Rightarrow> bool) \<Rightarrow> string \<Rightarrow> string list" where
  "split_when p [] = [[]]"
| "split_when p (c # s) =
    (if p c then [] # split_when p s
     else case split_when p s of [] \<Rightarrow> [[c]] | f # fs \<Rightarrow> (c # f) # fs)"

definition FieldsFunc :: "string \<Rightarrow> (char \<Rightarrow> bool) \<Rightarrow> string list" where
  "FieldsFunc s p = filter (\<lambda>f. f \<noteq> []) (split_when p s)"

fun Join :: "string list \<Rightarrow> string \<Rightarrow> string" where
  "Join [] sep = []"
| "Join [x] sep = x"
| "Join (x # y # xs) sep = x @ sep @ Join (y # xs) sep"

text \<open>\<open>strings.TrimLeft(s, cutset)\<close> for the cut set of a space and a tab.\<close>

definition TrimLeft_blank :: "string \<Rightarrow> string" where
  "TrimLeft_blank s = dropWhile (\<lambda>c. c = CHR 0x20 \<or> c = CHR 0x09) s"

definition EqualFold :: "string \<Rightarrow> string \<Rightarrow> bool" where
  "EqualFold s t \<longleftrightarrow> ToLower s = ToLower t"

text \<open>\<open>strconv.ParseUint(s, base, bits)\<close> and \<open>strconv.ParseInt(s, base, bits)\<close> for a fixed base.\<close>

definition digit_in_base :: "nat \<Rightarrow> char \<Rightarrow> nat option" where
  "digit_in_base b c =
    (let n = of_char (lower_char c) :: nat;
         d = (if 48 \<le> n \<and> n \<le> 57 then Some (n - 48)
              else if 97 \<le> n \<and> n \<le> 122 then Some (n - 87) else None) in
     case d of None \<Rightarrow> None | Some k \<Rightarrow> if k < b then Some k else None)"

fun read_base :: "nat \<Rightarrow> nat \<Rightarrow> string \<Rightarrow> nat option" where
  "read_base b acc [] = Some acc"
| "read_base b acc (c # s) =
    (case digit_in_base b c of None \<Rightarrow> None | Some d \<Rightarrow> read_base b (b * acc + d) s)"

definition ParseUint :: "string \<Rightarrow> nat \<Rightarrow> nat \<Rightarrow> nat option" where
  "ParseUint s b bits =
    (if s = [] then None
     else case read_base b 0 s of
         None \<Rightarrow> None
       | Some n \<Rightarrow> if n < 2 ^ bits then Some n else None)"

definition signed_range :: "(string \<Rightarrow> nat option) \<Rightarrow> nat \<Rightarrow> string \<Rightarrow> int option" where
  "signed_range parse bits s =
    (case s of
       [] \<Rightarrow> None
     | c # t \<Rightarrow>
        (if c = CHR ''-'' then
           (case parse t of
              None \<Rightarrow> None | Some n \<Rightarrow> if n \<le> 2 ^ (bits - 1) then Some (- int n) else None)
         else
           (case parse (if c = CHR ''+'' then t else s) of
              None \<Rightarrow> None | Some n \<Rightarrow> if n < 2 ^ (bits - 1) then Some (int n) else None)))"

definition ParseInt :: "string \<Rightarrow> nat \<Rightarrow> nat \<Rightarrow> int option" where
  "ParseInt s b bits = signed_range (\<lambda>t. ParseUint t b bits) bits s"

text \<open>
  The base 0 of \<open>strconv\<close>: the prefixes \<open>0b\<close>, \<open>0o\<close>, \<open>0x\<close> and \<open>0\<close> select the base, and an underscore
  may stand between two digits or between the prefix and a digit.
\<close>

fun underscores_ok :: "bool \<Rightarrow> string \<Rightarrow> bool" where
  "underscores_ok digit_seen [] = True"
| "underscores_ok digit_seen (c # s) =
    (if c = CHR ''_'' then digit_seen \<and> s \<noteq> [] \<and> hd s \<noteq> CHR ''_'' \<and> underscores_ok False s
     else underscores_ok True s)"

definition base_prefix :: "string \<Rightarrow> nat \<times> bool \<times> string" where
  "base_prefix s =
    (case s of
       z # p # d # t \<Rightarrow>
        (if z \<noteq> CHR ''0'' then (10, False, s)
         else if lower_char p = CHR ''b'' then (2, True, d # t)
         else if lower_char p = CHR ''o'' then (8, True, d # t)
         else if lower_char p = CHR ''x'' then (16, True, d # t)
         else (8, True, p # d # t))
     | z # t \<Rightarrow> if z = CHR ''0'' then (8, True, t) else (10, False, s)
     | [] \<Rightarrow> (10, False, s))"

definition ParseUint_base0 :: "nat \<Rightarrow> string \<Rightarrow> nat option" where
  "ParseUint_base0 bits s =
    (if s = [] then None
     else let (b, digit_seen, t) = base_prefix s in
       if \<not> underscores_ok digit_seen t then None
       else case read_base b 0 (filter (\<lambda>c. c \<noteq> CHR ''_'') t) of
           None \<Rightarrow> None
         | Some n \<Rightarrow> if n < 2 ^ bits then Some n else None)"

definition ParseInt_base0 :: "string \<Rightarrow> nat \<Rightarrow> int option" where
  "ParseInt_base0 s bits = signed_range (ParseUint_base0 bits) bits s"

lemma ParseUint_range: "ParseUint s b bits = Some n \<Longrightarrow> n < 2 ^ bits"
  by (simp add: ParseUint_def split: if_splits option.splits)

lemma signed_range_bounds:
  assumes "signed_range p bits s = Some n"
  shows "- (2 ^ (bits - 1)) \<le> n \<and> n < 2 ^ (bits - 1)"
proof -
  have pos: "(0 :: int) < 2 ^ (bits - Suc 0)" by simp
  show ?thesis
    using assms by (auto simp: signed_range_def split: list.splits if_splits option.splits)
      (use pos in linarith)+
qed

lemma cut_byte_Some: "cut_byte c s = Some (a, b) \<longleftrightarrow> s = a @ c # b \<and> c \<notin> set a"
proof (induction s arbitrary: a b)
  case (Cons x s)
  show ?case by (cases a) (auto simp: Cons.IH)
qed simp

lemma cut_byte_None: "cut_byte c s = None \<longleftrightarrow> c \<notin> set s"
  by (induction s) auto

section \<open>Lines\<close>

text \<open>
  \<open>OperatorType\<close> of \<open>settings.go\<close> is a byte with one bit per operator; the table of settings holds
  unions of them.
\<close>

type_synonym OperatorType = byte

definition OpEquals :: OperatorType where "OpEquals = 1"
definition OpColon :: OperatorType where "OpColon = 2"
definition OpPlusEqual :: OperatorType where "OpPlusEqual = 4"

lemmas op_defs = OpEquals_def OpColon_def OpPlusEqual_def

text \<open>\<open>parseLine\<close>; \<open>None\<close> is the error of a line without an operator.\<close>

definition parseLine :: "string \<Rightarrow> (string \<times> string \<times> OperatorType) option" where
  "parseLine line =
    (let eq = cut_byte (CHR ''='') line;
         colon = cut_byte (CHR '':'') line;
         split = (\<lambda>(a, b) oper. (TrimSpace a, TrimSpace b, oper)) in
     if case eq of None \<Rightarrow> False | Some (a, b) \<Rightarrow> a \<noteq> [] \<and> last a = CHR ''+'' then
       map_option (\<lambda>(a, b). split (butlast a, b) OpPlusEqual) eq
     else case colon of
         Some (a, b) \<Rightarrow>
           if eq = None \<or> length a < length (fst (the eq)) then Some (split (a, b) OpColon)
           else map_option (\<lambda>p. split p OpEquals) eq
       | None \<Rightarrow> map_option (\<lambda>p. split p OpEquals) eq)"

section \<open>Variables\<close>

definition isVarChar :: "char \<Rightarrow> bool \<Rightarrow> bool" where
  "isVarChar ch first \<longleftrightarrow>
    (let n = of_char ch :: nat in
     65 \<le> n \<and> n \<le> 90 \<or> 97 \<le> n \<and> n \<le> 122 \<or> ch = CHR ''_'' \<or> \<not> first \<and> 48 \<le> n \<and> n \<le> 57)"

definition valid_name :: "string \<Rightarrow> bool" where
  "valid_name s \<longleftrightarrow> s \<noteq> [] \<and> isVarChar (hd s) True \<and> list_all (\<lambda>c. isVarChar c False) (tl s)"

text \<open>
  \<open>parseNonColonOp\<close>: the scan stops at the first \<open>-\<close> or \<open>+\<close> and fails at a character that no name
  contains; \<open>pre\<close> is the text before position \<open>j\<close>.
\<close>

fun nonColonOp_scan :: "string \<Rightarrow> string \<Rightarrow> (string \<times> char \<times> string) option" where
  "nonColonOp_scan pre [] = None"
| "nonColonOp_scan pre (c # s) =
    (if c = CHR ''-'' \<or> c = CHR ''+'' then
       (if pre = [] then None
        else if pre \<noteq> ''1'' \<and> \<not> valid_name pre then None
        else Some (pre, c, s))
     else if isVarChar c (pre = []) \<or> c = CHR ''1'' then nonColonOp_scan (pre @ [c]) s
     else None)"

definition parseNonColonOp :: "string \<Rightarrow> (string \<times> char \<times> string) option" where
  "parseNonColonOp expr = nonColonOp_scan [] expr"

fun word_split :: "bool \<Rightarrow> string \<Rightarrow> string" where
  "word_split inWS [] = []"
| "word_split inWS (ch # s) =
    (if ch = CHR 0x20 \<or> ch = CHR 0x09 \<or> ch = CHR 0x0A \<or> ch = CHR 0x0D then
       (if \<not> inWS then CHR 0x00 # word_split True s else word_split True s)
     else ch # word_split False s)"

definition writeWordSplit :: "string \<Rightarrow> string" where
  "writeWordSplit val = word_split True val"

type_synonym environ = "string \<Rightarrow> string option"

definition Getenv :: "environ \<Rightarrow> string \<Rightarrow> string" where
  "Getenv env name = (case env name of None \<Rightarrow> [] | Some v \<Rightarrow> v)"

definition lookup_var :: "environ \<Rightarrow> string option \<Rightarrow> string \<Rightarrow> string option" where
  "lookup_var env arg name = (if name = ''1'' then arg else env name)"

definition arg_text :: "string option \<Rightarrow> string" where
  "arg_text arg = (case arg of None \<Rightarrow> [] | Some a \<Rightarrow> a)"

text \<open>The value of the text between the braces of \<open>${...}\<close>.\<close>

definition resolve_expr :: "environ \<Rightarrow> string option \<Rightarrow> string \<Rightarrow> string" where
  "resolve_expr env arg expr =
    (case cut_byte (CHR '':'') expr of
       Some (varName, op # operand) \<Rightarrow>
         (let val = lookup_var env arg varName in
          if op = CHR ''-'' then (if val = None \<or> val = Some [] then operand else the val)
          else if op = CHR ''+'' then (if val \<noteq> None \<and> val \<noteq> Some [] then operand else [])
          else if varName = ''1'' \<and> arg \<noteq> None then the arg
          else Getenv env expr)
     | _ \<Rightarrow>
        (case parseNonColonOp expr of
           Some (varName, op, operand) \<Rightarrow>
             (let val = lookup_var env arg varName in
              if op = CHR ''-'' then (if val = None then operand else the val)
              else if val \<noteq> None then operand else [])
         | None \<Rightarrow> if expr = ''1'' then arg_text arg else Getenv env expr))"

fun take_name :: "bool \<Rightarrow> string \<Rightarrow> string \<times> string" where
  "take_name first [] = ([], [])"
| "take_name first (c # s) =
    (if isVarChar c first then (let (n, r) = take_name False s in (c # n, r)) else ([], c # s))"

text \<open>
  What \<open>expandEnvVarsImpl\<close> does after a dollar: the text it writes and the text that is left. A
  \<open>break\<close> of the loop leaves nothing. \<open>expand_named\<close> is the part after the optional slash, for a text
  that is not empty.
\<close>

definition expand_named :: "environ \<Rightarrow> string option \<Rightarrow> bool \<Rightarrow> string \<Rightarrow> string \<times> string" where
  "expand_named env arg wsplit s =
    (let out = (\<lambda>v. if wsplit then writeWordSplit v else v);
         lead = (if wsplit then ''$/'' else ''$'') in
     if hd s = CHR 0x7B then
       (case cut_byte (CHR 0x7D) (tl s) of
          None \<Rightarrow> (lead @ [CHR 0x7B], tl s)
        | Some (expr, rest) \<Rightarrow> (out (resolve_expr env arg expr), rest))
     else
       (case take_name True s of
          ([], _) \<Rightarrow> (lead, s)
        | (name, rest) \<Rightarrow> (out (Getenv env name), rest)))"

definition expand_dollar :: "environ \<Rightarrow> bool \<Rightarrow> string option \<Rightarrow> string \<Rightarrow> string \<times> string" where
  "expand_dollar env allowWordSplit arg s =
    (case s of
       [] \<Rightarrow> (''$'', [])
     | d # t \<Rightarrow>
        (if d = CHR ''$'' then (''$'', t)
         else if d = CHR ''1'' then (arg_text arg, t)
         else if allowWordSplit \<and> d = CHR ''/'' then
           (case t of
              [] \<Rightarrow> (''$/'', [])
            | e # u \<Rightarrow>
               (if e = CHR ''1'' \<and> (u = [] \<or> \<not> isVarChar (hd u) False)
                then (writeWordSplit (arg_text arg), u)
                else expand_named env arg True t))
         else expand_named env arg False s))"

lemma take_name_length: "length (snd (take_name first s)) \<le> length s"
  by (induction first s rule: take_name.induct) (auto split: prod.splits)

lemma take_name_split: "take_name first s = (n, r) \<Longrightarrow> s = n @ r"
  by (induction first s arbitrary: n r rule: take_name.induct) (auto split: if_splits prod.splits)

lemma expand_named_length: "s \<noteq> [] \<Longrightarrow> length (snd (expand_named env arg w s)) \<le> length s"
  using take_name_length [of True s]
  by (cases s) (auto simp: expand_named_def Let_def cut_byte_Some split: option.splits prod.splits list.splits)

lemma expand_dollar_length: "length (snd (expand_dollar env w arg s)) \<le> length s"
  using expand_named_length [of s env arg False] expand_named_length [of "tl s" env arg True]
  by (auto simp: expand_dollar_def split: list.splits)

lemma expand_dollar_rest:
  "(out, rest) = expand_dollar env w arg s \<Longrightarrow> length rest < Suc (length s)"
  using expand_dollar_length [of env w arg s] by (metis le_imp_less_Suc snd_conv)

function expandVars_loop :: "environ \<Rightarrow> bool \<Rightarrow> string option \<Rightarrow> string \<Rightarrow> string" where
  "expandVars_loop env w arg [] = []"
| "expandVars_loop env w arg (c # s) =
    (if c \<noteq> CHR ''$'' then c # expandVars_loop env w arg s
     else let (out, rest) = expand_dollar env w arg s in out @ expandVars_loop env w arg rest)"
  by pat_completeness auto

termination
  by (relation "measure (\<lambda>(env, w, arg, s). length s)") (auto dest: expand_dollar_rest)

definition expandEnvVarsImpl :: "environ \<Rightarrow> string \<Rightarrow> bool \<Rightarrow> string option \<Rightarrow> string" where
  "expandEnvVarsImpl env s allowWordSplit arg =
    (if CHR ''$'' \<notin> set s then s else expandVars_loop env allowWordSplit arg s)"

definition expandEnvVars :: "environ \<Rightarrow> string \<Rightarrow> string option \<Rightarrow> string" where
  "expandEnvVars env s arg = expandEnvVarsImpl env s False arg"

definition expandEnvVarsForCommand :: "environ \<Rightarrow> string \<Rightarrow> string option \<Rightarrow> string" where
  "expandEnvVarsForCommand env s arg = expandEnvVarsImpl env s True arg"

section \<open>Command lines\<close>

definition wordSplitSep :: char where "wordSplitSep = CHR 0x00"

text \<open>
  The slow path of \<open>splitCommand\<close>: \<open>current\<close> is the word read so far, \<open>q\<close> the quote that is open.
\<close>

fun split_loop :: "string \<Rightarrow> char option \<Rightarrow> bool \<Rightarrow> string \<Rightarrow> string list" where
  "split_loop current q escaped [] = (if current \<noteq> [] then [current] else [])"
| "split_loop current q escaped (ch # s) =
    (if escaped then split_loop (current @ [ch]) q False s
     else if ch = CHR 0x5C then split_loop current q True s
     else case q of
         Some quoteChar \<Rightarrow>
           if ch = quoteChar then split_loop current None False s
           else split_loop (current @ [ch]) q False s
       | None \<Rightarrow>
           if ch = CHR 0x22 \<or> ch = CHR 0x27 then split_loop current (Some ch) False s
           else if ch = CHR 0x20 \<or> ch = CHR 0x09 \<or> ch = wordSplitSep then
             (if current \<noteq> [] then current # split_loop [] None False s
              else split_loop [] None False s)
           else split_loop (current @ [ch]) None False s)"

definition splitCommand :: "string \<Rightarrow> string list" where
  "splitCommand cmd =
    (if CHR 0x22 \<notin> set cmd \<and> CHR 0x27 \<notin> set cmd \<and> CHR 0x5C \<notin> set cmd \<and> wordSplitSep \<notin> set cmd
     then Fields cmd else split_loop [] None False cmd)"

section \<open>What the text layer guarantees\<close>

subsection \<open>Expansion\<close>

text \<open>A text without a dollar is not changed, and the fast path agrees with the loop.\<close>

lemma expand_loop_plain: "CHR ''$'' \<notin> set s \<Longrightarrow> expandVars_loop env w arg s = s"
  by (induction s) auto

lemma expandEnvVarsImpl_loop: "expandEnvVarsImpl env s w arg = expandVars_loop env w arg s"
  by (simp add: expandEnvVarsImpl_def expand_loop_plain)

definition escape_dollars :: "string \<Rightarrow> string" where
  "escape_dollars s = concat (map (\<lambda>c. if c = CHR ''$'' then ''$$'' else [c]) s)"

lemma expand_loop_escaped: "expandVars_loop env w arg (escape_dollars s @ t) = s @ expandVars_loop env w arg t"
  by (induction s) (auto simp: escape_dollars_def expand_dollar_def)

lemma expand_escaped [simp]: "expandEnvVarsImpl env (escape_dollars s) w arg = s"
  using expand_loop_escaped [of env w arg s "[]"] by (simp add: expandEnvVarsImpl_loop)

text \<open>The service argument replaces \<open>$1\<close> wherever it stands between escaped texts.\<close>

lemma expand_argument:
  "expandEnvVarsImpl env (escape_dollars s @ ''$1'' @ escape_dollars t) w (Some a) = s @ a @ t"
proof -
  have "expandVars_loop env w (Some a) (''$1'' @ escape_dollars t) = a @ t"
    using expand_loop_escaped [of env w "Some a" t "[]"]
    by (simp add: expand_dollar_def arg_text_def)
  then show ?thesis by (simp add: expandEnvVarsImpl_loop expand_loop_escaped)
qed

subsection \<open>Splitting\<close>

definition quote_word :: "string \<Rightarrow> string" where
  "quote_word s = [CHR 0x22] @ concat (map (\<lambda>c. if c = CHR 0x22 \<or> c = CHR 0x5C then [CHR 0x5C, c] else [c]) s) @ [CHR 0x22]"

lemma split_loop_quoted:
  "split_loop current (Some (CHR 0x22)) False
     (concat (map (\<lambda>c. if c = CHR 0x22 \<or> c = CHR 0x5C then [CHR 0x5C, c] else [c]) s) @ CHR 0x22 # t)
   = split_loop (current @ s) None False t"
  by (induction s arbitrary: current) auto

lemma split_loop_word:
  "split_loop [] None False (quote_word s @ t) = split_loop s None False t"
  using split_loop_quoted [of "[]" s t] by (simp add: quote_word_def)

lemma split_loop_words:
  assumes "[] \<notin> set args"
  shows "split_loop [] None False (Join (map quote_word args) '' '') = args"
  using assms
proof (induction args rule: induct_list012)
  case (2 x)
  then show ?case using split_loop_word [of x "[]"] by simp
next
  case (3 x y zs)
  then have "split_loop x None False ('' '' @ Join (map quote_word (y # zs)) '' '') = x # y # zs"
    by (auto simp: wordSplitSep_def)
  then show ?case using split_loop_word [of x] by simp
qed simp

lemma quote_word_quotes: "CHR 0x22 \<in> set (quote_word s)"
  by (simp add: quote_word_def)

lemma splitCommand_quoted:
  assumes "[] \<notin> set args"
  shows "splitCommand (Join (map quote_word args) '' '') = args"
proof (cases args)
  case (Cons a as)
  then have "CHR 0x22 \<in> set (Join (map quote_word args) '' '')"
    using quote_word_quotes [of a] by (cases as) auto
  then show ?thesis using split_loop_words [OF assms] by (simp add: splitCommand_def)
qed (simp add: splitCommand_def Fields_def)

text \<open>The two paths agree on a text whose only white space is the space and the tab.\<close>

definition only_blanks :: "string \<Rightarrow> bool" where
  "only_blanks s \<longleftrightarrow> (\<forall>c \<in> set s. is_space c \<longrightarrow> c = CHR 0x20 \<or> c = CHR 0x09)"

definition unquoted :: "string \<Rightarrow> bool" where
  "unquoted s \<longleftrightarrow> CHR 0x22 \<notin> set s \<and> CHR 0x27 \<notin> set s \<and> CHR 0x5C \<notin> set s \<and> wordSplitSep \<notin> set s"

lemma blank_is_space: "is_space (CHR 0x20)" "is_space (CHR 0x09)"
  by (simp_all add: is_space_def)

lemma split_spaces_first:
  "\<forall>c \<in> set current. \<not> is_space c \<Longrightarrow> is_space c \<Longrightarrow> split_spaces (current @ c # s) = current # split_spaces s"
  by (induction current) auto

lemma split_loop_Fields:
  assumes "unquoted s" "only_blanks s" "\<forall>c \<in> set current. \<not> is_space c"
  shows "split_loop current None False s = Fields (current @ s)"
  using assms
proof (induction s arbitrary: current)
  case Nil
  have "split_spaces current = [current]"
    using Nil.prems(3) by (induction current) auto
  then show ?case by (simp add: Fields_def)
next
  case (Cons c s)
  have blank: "is_space c \<longleftrightarrow> c = CHR 0x20 \<or> c = CHR 0x09"
    using Cons.prems(2) blank_is_space by (auto simp: only_blanks_def)
  have IH: "split_loop cur None False s = Fields (cur @ s)" if "\<forall>c \<in> set cur. \<not> is_space c" for cur
    using Cons.IH [of cur] Cons.prems that by (auto simp: unquoted_def only_blanks_def)
  show ?case
  proof (cases "is_space c")
    case True
    then have "c = CHR 0x20 \<or> c = CHR 0x09" using blank by simp
    then have "split_loop current None False (c # s) = (if current \<noteq> [] then current # Fields s else Fields s)"
      using IH [of "[]"] by (auto simp: wordSplitSep_def)
    moreover have "Fields (current @ c # s) = filter (\<lambda>f. f \<noteq> []) (current # split_spaces s)"
      by (simp only: Fields_def split_spaces_first [OF Cons.prems(3) True])
    ultimately show ?thesis by (simp add: Fields_def)
  next
    case False
    then have "c \<noteq> CHR 0x20" "c \<noteq> CHR 0x09" using blank by auto
    moreover have "c \<noteq> CHR 0x22" "c \<noteq> CHR 0x27" "c \<noteq> CHR 0x5C" "c \<noteq> wordSplitSep"
      using Cons.prems(1) by (auto simp: unquoted_def)
    ultimately have "split_loop current None False (c # s) = split_loop (current @ [c]) None False s"
      by simp
    also have "\<dots> = Fields ((current @ [c]) @ s)" using IH Cons.prems(3) False by simp
    finally show ?thesis by simp
  qed
qed

lemma splitCommand_loop:
  assumes "only_blanks cmd"
  shows "splitCommand cmd = split_loop [] None False cmd"
  using split_loop_Fields [of cmd "[]"] assms by (auto simp: splitCommand_def unquoted_def)

section \<open>Reading lines back\<close>

lemma TrimSpace_Nil [simp]: "TrimSpace [] = []"
  by (simp add: TrimSpace_def)

lemma parseLine_equals:
  assumes "CHR ''='' \<notin> set a" "CHR '':'' \<notin> set a" "a = [] \<or> last a \<noteq> CHR ''+''"
  shows "parseLine (a @ CHR ''='' # b) = Some (TrimSpace a, TrimSpace b, OpEquals)"
proof -
  have eq: "cut_byte (CHR ''='') (a @ CHR ''='' # b) = Some (a, b)"
    using assms(1) by (simp add: cut_byte_Some)
  have colon: "length a < length x" if "cut_byte (CHR '':'') (a @ CHR ''='' # b) = Some (x, y)" for x y
  proof (rule ccontr)
    assume "\<not> length a < length x"
    moreover have xy: "a @ CHR ''='' # b = x @ CHR '':'' # y" using that by (simp add: cut_byte_Some)
    ultimately have "x = take (length x) a" "CHR '':'' # y = drop (length x) a @ CHR ''='' # b"
      by (simp_all add: append_eq_append_conv_if split: if_splits)
    then show False
      using assms(2) in_set_dropD [of "CHR '':''" "length x" a] by (cases "drop (length x) a") auto
  qed
  show ?thesis
    using assms(3) colon by (auto simp: parseLine_def eq Let_def split: option.splits)
qed

lemma parseLine_colon:
  assumes "CHR ''='' \<notin> set a" "CHR '':'' \<notin> set a" "CHR ''='' \<notin> set b"
  shows "parseLine (a @ CHR '':'' # b) = Some (TrimSpace a, TrimSpace b, OpColon)"
proof -
  have "cut_byte (CHR '':'') (a @ CHR '':'' # b) = Some (a, b)"
    using assms(2) by (simp add: cut_byte_Some)
  moreover have "cut_byte (CHR ''='') (a @ CHR '':'' # b) = None"
    using assms by (simp add: cut_byte_None)
  ultimately show ?thesis by (simp add: parseLine_def Let_def)
qed

lemma parseLine_append:
  assumes "CHR ''='' \<notin> set a"
  shows "parseLine (a @ ''+='' @ b) = Some (TrimSpace a, TrimSpace b, OpPlusEqual)"
proof -
  have "cut_byte (CHR ''='') ((a @ ''+'') @ CHR ''='' # b) = Some (a @ ''+'', b)"
    unfolding cut_byte_Some using assms by simp
  then show ?thesis by (simp add: parseLine_def Let_def)
qed

end
