(* ===== verification/ConfigValues.thy ===== *)
theory ConfigValues
  imports ConfigText Seccomp Types ServiceName
begin

text \<open>
  The parsers of setting values, \<open>pkg/config/parser.go\<close>, with the functions of \<open>path/filepath\<close>, \<open>net\<close>
  and \<open>encoding/base64\<close> that they use, and the start predicates of \<open>pkg/service/predicate.go\<close> as the
  parser builds them. A parser returns \<open>None\<close> where the code returns an error; the text of the error
  is not kept.

  Numbers that the code converts through \<open>float64\<close> are not computed here: \<open>pfloat\<close> stands for
  \<open>strconv.ParseFloat\<close>, applied to a number of seconds, and gives the sign of the number and the
  \<open>time.Duration\<close> it is converted to; \<open>pdur\<close> stands for \<open>time.ParseDuration\<close>.
\<close>

section \<open>Paths\<close>

definition IsAbs :: "string \<Rightarrow> bool" where
  "IsAbs p \<longleftrightarrow> HasPrefix p ''/''"

text \<open>
  \<open>filepath.Clean\<close> by components: empty ones and \<open>.\<close> are dropped, \<open>..\<close> removes the component before
  it; the stack \<open>st\<close> holds the components that are kept, the last one first.
\<close>

fun clean_comps :: "bool \<Rightarrow> string list \<Rightarrow> string list \<Rightarrow> string list" where
  "clean_comps rooted st [] = rev st"
| "clean_comps rooted st (c # cs) =
    (if c = [] \<or> c = ''.'' then clean_comps rooted st cs
     else if c = ''..'' then
       (if st \<noteq> [] \<and> hd st \<noteq> ''..'' then clean_comps rooted (tl st) cs
        else if rooted then clean_comps rooted st cs
        else clean_comps rooted (c # st) cs)
     else clean_comps rooted (c # st) cs)"

definition Clean :: "string \<Rightarrow> string" where
  "Clean p =
    (let body = Join (clean_comps (IsAbs p) [] (Split p (CHR ''/''))) ''/'' in
     if IsAbs p then ''/'' @ body else if body = [] then ''.'' else body)"

text \<open>The text up to and including the last slash, and the text after it.\<close>

definition up_to_slash :: "string \<Rightarrow> string" where
  "up_to_slash p = rev (dropWhile (\<lambda>c. c \<noteq> CHR ''/'') (rev p))"

definition after_slash :: "string \<Rightarrow> string" where
  "after_slash p = rev (takeWhile (\<lambda>c. c \<noteq> CHR ''/'') (rev p))"

definition Dir :: "string \<Rightarrow> string" where
  "Dir p = Clean (up_to_slash p)"

definition Base :: "string \<Rightarrow> string" where
  "Base p =
    (if p = [] then ''.''
     else let q = after_slash (rev (dropWhile (\<lambda>c. c = CHR ''/'') (rev p))) in
       if q = [] then ''/'' else q)"

definition no_dotdot :: "string \<Rightarrow> bool" where
  "no_dotdot p \<longleftrightarrow> ''..'' \<notin> set (Split p (CHR ''/''))"

section \<open>Lists of paths and names\<close>

text \<open>
  The loops of \<open>parseServiceDirNames\<close>, \<open>parseSandboxPaths\<close>, \<open>parseBindEntries\<close> and \<open>parseTmpfsEntries\<close>
  have one shape: every word of the value is expanded, an empty result is skipped, the entry is checked
  and normalised, and at least one entry must remain.
\<close>

fun entries_loop :: "(string \<Rightarrow> string option) \<Rightarrow> (string \<Rightarrow> string) \<Rightarrow> string list \<Rightarrow> string list option" where
  "entries_loop check expand [] = Some []"
| "entries_loop check expand (raw # rest) =
    (let n = expand raw in
     if n = [] then entries_loop check expand rest
     else case check n of
         None \<Rightarrow> None
       | Some e \<Rightarrow> map_option (\<lambda>es. e # es) (entries_loop check expand rest))"

definition parse_entries ::
  "(string \<Rightarrow> string option) \<Rightarrow> environ \<Rightarrow> string \<Rightarrow> string option \<Rightarrow> string list option" where
  "parse_entries check env value arg =
    (case entries_loop check (\<lambda>raw. expandEnvVars env raw arg) (Fields value) of
       None \<Rightarrow> None
     | Some es \<Rightarrow> if es = [] then None else Some es)"

definition service_dir_name :: "string \<Rightarrow> string option" where
  "service_dir_name n =
    (if HasPrefix n ''/'' then None
     else if ''.'' \<in> set (Split n (CHR ''/'')) \<or> ''..'' \<in> set (Split n (CHR ''/'')) then None
     else Some n)"

definition parseServiceDirNames :: "environ \<Rightarrow> string \<Rightarrow> string option \<Rightarrow> string list option" where
  "parseServiceDirNames = parse_entries service_dir_name"

definition sandbox_path :: "string \<Rightarrow> string option" where
  "sandbox_path p = (if \<not> IsAbs p then None else if \<not> no_dotdot p then None else Some (Clean p))"

definition parseSandboxPaths :: "environ \<Rightarrow> string \<Rightarrow> string option \<Rightarrow> string list option" where
  "parseSandboxPaths = parse_entries sandbox_path"

definition bind_entry :: "string \<Rightarrow> string option" where
  "bind_entry e =
    (let (src, dst) = (case Cut e '':'' of None \<Rightarrow> (e, e) | Some p \<Rightarrow> p) in
     if IsAbs src \<and> no_dotdot src \<and> IsAbs dst \<and> no_dotdot dst
     then Some (Clean src @ '':'' @ Clean dst) else None)"

definition parseBindEntries :: "environ \<Rightarrow> string \<Rightarrow> string option \<Rightarrow> string list option" where
  "parseBindEntries = parse_entries bind_entry"

definition tmpfs_entry :: "string \<Rightarrow> string option" where
  "tmpfs_entry e =
    (let path = (case Cut e '':'' of None \<Rightarrow> e | Some (a, b) \<Rightarrow> a) in
     if IsAbs path \<and> no_dotdot path then Some e else None)"

definition parseTmpfsEntries :: "environ \<Rightarrow> string \<Rightarrow> string option \<Rightarrow> string list option" where
  "parseTmpfsEntries = parse_entries tmpfs_entry"

section \<open>Scalars\<close>

definition parseBool :: "string \<Rightarrow> bool option" where
  "parseBool value =
    (let v = ToLower value in
     if v = ''yes'' \<or> v = ''true'' \<or> v = ''1'' then Some True
     else if v = ''no'' \<or> v = ''false'' \<or> v = ''0'' then Some False
     else None)"

type_synonym float_parser = "string \<Rightarrow> (bool \<times> duration) option"
type_synonym duration_parser = "string \<Rightarrow> duration option"

definition parseDuration :: "float_parser \<Rightarrow> string \<Rightarrow> duration option" where
  "parseDuration pfloat value =
    (case pfloat value of
       None \<Rightarrow> None
     | Some (negative, d) \<Rightarrow> if negative then None else Some d)"

text \<open>The pattern of many cases of \<open>applySetting\<close>: a Go duration, or else a number of seconds.\<close>

definition duration_or_seconds :: "float_parser \<Rightarrow> duration_parser \<Rightarrow> string \<Rightarrow> duration option" where
  "duration_or_seconds pfloat pdur value =
    (case pdur value of Some d \<Rightarrow> Some d | None \<Rightarrow> map_option snd (pfloat value))"

definition parseDirMode :: "string \<Rightarrow> nat option" where
  "parseDirMode value =
    (case ParseUint value 8 32 of None \<Rightarrow> None | Some m \<Rightarrow> if m > 511 then None else Some m)"

definition parseSchedPolicy :: "string \<Rightarrow> nat option" where
  "parseSchedPolicy value =
    (let v = ToLower (TrimSpace value) in
     if v = ''other'' \<or> v = ''normal'' then Some 0
     else if v = ''fifo'' \<or> v = ''realtime'' then Some 1
     else if v = ''rr'' then Some 2
     else if v = ''batch'' then Some 3
     else if v = ''idle'' then Some 5
     else if v = ''deadline'' then Some 6
     else None)"

definition parseSchedDuration :: "duration_parser \<Rightarrow> string \<Rightarrow> nat option" where
  "parseSchedDuration pdur value =
    (case pdur value of
       Some d \<Rightarrow> if d \<le> 0 then None else Some (nat d)
     | None \<Rightarrow>
        (case ParseUint value 10 64 of None \<Rightarrow> None | Some n \<Rightarrow> if n = 0 then None else Some n))"

section \<open>Flags, limits, identifiers\<close>

unbundle bit_operations_syntax

definition mlock_flag :: "string \<Rightarrow> nat option" where
  "mlock_flag part =
    (if part = ''current'' then Some 1
     else if part = ''future'' then Some 2
     else if part = ''both'' \<or> part = ''yes'' \<or> part = ''on'' then Some (1 OR 2)
     else if part = ''onfault'' then Some 4
     else None)"

fun mlock_flags :: "nat \<Rightarrow> string list \<Rightarrow> nat option" where
  "mlock_flags out [] = Some out"
| "mlock_flags out (part # parts) =
    (case mlock_flag part of None \<Rightarrow> None | Some f \<Rightarrow> mlock_flags (out OR f) parts)"

definition parseMlockallFlags :: "string \<Rightarrow> nat option" where
  "parseMlockallFlags value0 =
    (let value = ToLower (TrimSpace value0) in
     if value = [] then None
     else if value = ''no'' \<or> value = ''off'' \<or> value = ''0'' then Some 0
     else case mlock_flags 0 (FieldsFunc value (\<lambda>r. r = CHR ''+'' \<or> r = CHR '','' \<or> r = CHR '' '')) of
         None \<Rightarrow> None
       | Some out \<Rightarrow> if out = 0 then None else Some out)"

definition parseMempolicyMode :: "string \<Rightarrow> nat option" where
  "parseMempolicyMode value =
    (let v = ToLower (TrimSpace value) in
     if v = ''default'' then Some 0
     else if v = ''bind'' then Some 2
     else if v = ''preferred'' then Some 1
     else if v = ''interleave'' then Some 3
     else if v = ''local'' then Some 4
     else None)"

definition rlimit_unlimited :: u64 where
  "rlimit_unlimited = NOT 0"

definition rlimit_one :: "string \<Rightarrow> u64 option" where
  "rlimit_one s0 =
    (let s = TrimSpace s0 in
     if ToLower s = ''unlimited'' then Some rlimit_unlimited
     else map_option of_nat (ParseUint s 10 64))"

definition parseRlimit :: "string \<Rightarrow> (u64 \<times> u64) option" where
  "parseRlimit value =
    (case cut_byte (CHR '':'') value of
       Some (a, b) \<Rightarrow>
        (case rlimit_one a of
           None \<Rightarrow> None
         | Some soft \<Rightarrow> (case rlimit_one b of None \<Rightarrow> None | Some hard \<Rightarrow> Some (soft, hard)))
     | None \<Rightarrow> map_option (\<lambda>v. (v, v)) (rlimit_one value))"

text \<open>\<open>isValidDBusName\<close>: the loop with its flag \<open>segStart\<close> and the count of dots.\<close>

definition dbus_lead :: "char \<Rightarrow> bool" where
  "dbus_lead c \<longleftrightarrow>
    (let n = of_char c :: nat in 97 \<le> n \<and> n \<le> 122 \<or> 65 \<le> n \<and> n \<le> 90 \<or> c = CHR ''_'')"

definition dbus_other :: "char \<Rightarrow> bool" where
  "dbus_other c \<longleftrightarrow> (let n = of_char c :: nat in 48 \<le> n \<and> n \<le> 57 \<or> c = CHR ''-'')"

fun dbus_loop :: "bool \<Rightarrow> nat \<Rightarrow> string \<Rightarrow> bool" where
  "dbus_loop segStart dots [] = (dots \<ge> 1 \<and> \<not> segStart)"
| "dbus_loop segStart dots (c # s) =
    (if c = CHR ''.'' then (if segStart then False else dbus_loop True (Suc dots) s)
     else if dbus_lead c \<or> \<not> segStart \<and> dbus_other c then dbus_loop False dots s
     else False)"

definition isValidDBusName :: "string \<Rightarrow> bool" where
  "isValidDBusName s \<longleftrightarrow> length s \<noteq> 0 \<and> length s \<le> 255 \<and> dbus_loop True 0 s"

record OpenFileSpec =
  of_Path :: string
  of_FDName :: string
  of_Options :: string

definition parseOpenFile :: "string \<Rightarrow> OpenFileSpec option" where
  "parseOpenFile value =
    (let v = TrimSpace value in
     if v = [] then None
     else let (path, rest) = (case cut_byte (CHR '':'') v of None \<Rightarrow> (v, None) | Some (a, b) \<Rightarrow> (a, Some b));
              (name, opts) = (case rest of
                 None \<Rightarrow> ([], [])
               | Some r \<Rightarrow> (case cut_byte (CHR '':'') r of None \<Rightarrow> (r, []) | Some p \<Rightarrow> p)) in
       if \<not> HasPrefix path ''/'' then None
       else Some \<lparr>of_Path = path, of_FDName = (if name \<noteq> [] then name else Base path), of_Options = opts\<rparr>)"

text \<open>
  \<open>parseByteSize\<close>: the product is computed in 64 bits, as \<open>int64\<close> does. \<open>size_suffix\<close> gives the factor
  of the last character.
\<close>

definition size_suffix :: "char \<Rightarrow> int option" where
  "size_suffix c =
    (let k = lower_char c in
     if k = CHR ''k'' then Some 1024
     else if k = CHR ''m'' then Some (1024 * 1024)
     else if k = CHR ''g'' then Some (1024 * 1024 * 1024)
     else if k = CHR ''t'' then Some (1024 * 1024 * 1024 * 1024)
     else None)"

definition int64 :: "int \<Rightarrow> int" where
  "int64 n = sint (word_of_int n :: u64)"

definition parseByteSize :: "string \<Rightarrow> int option" where
  "parseByteSize s0 =
    (let s = TrimSpace s0 in
     if s = [] then None
     else let (mult, body) = (case size_suffix (last s) of None \<Rightarrow> (1, s) | Some m \<Rightarrow> (m, butlast s)) in
       case ParseInt (TrimSpace body) 10 64 of
         None \<Rightarrow> None
       | Some n \<Rightarrow> if n < 0 then None else Some (int64 (n * mult)))"

section \<open>Signals and exit codes\<close>

definition signalNames :: "(string \<times> signal) list" where
  "signalNames =
    [(''SIGHUP'', 1), (''SIGINT'', 2), (''SIGQUIT'', 3), (''SIGKILL'', 9), (''SIGTERM'', 15),
     (''SIGUSR1'', 10), (''SIGUSR2'', 12), (''SIGSTOP'', 19), (''SIGCONT'', 18),
     (''HUP'', 1), (''INT'', 2), (''QUIT'', 3), (''KILL'', 9), (''TERM'', 15),
     (''USR1'', 10), (''USR2'', 12), (''STOP'', 19), (''CONT'', 18)]"

definition parseSignal :: "string \<Rightarrow> signal option" where
  "parseSignal value =
    (if EqualFold value ''none'' then Some 0
     else case map_of signalNames (ToUpper value) of
         Some sig \<Rightarrow> Some sig
       | None \<Rightarrow> Atoi value)"

fun normal_exit_loop :: "string list \<Rightarrow> (int list \<times> signal list) option" where
  "normal_exit_loop [] = Some ([], [])"
| "normal_exit_loop (tok # toks) =
    (case Atoi tok of
       Some n \<Rightarrow>
         if n < 0 \<or> n > 255 then None
         else map_option (\<lambda>(cs, ss). (n # cs, ss)) (normal_exit_loop toks)
     | None \<Rightarrow>
        (case parseSignal tok of
           None \<Rightarrow> None
         | Some sig \<Rightarrow> map_option (\<lambda>(cs, ss). (cs, sig # ss)) (normal_exit_loop toks)))"

definition parseNormalExit :: "string \<Rightarrow> (int list \<times> signal list) option" where
  "parseNormalExit value = normal_exit_loop (Fields value)"

section \<open>Sets of CPUs\<close>

fun add_cpus :: "nat list \<Rightarrow> nat list \<Rightarrow> nat list" where
  "add_cpus cpus [] = cpus"
| "add_cpus cpus (c # cs) = add_cpus (if c \<in> set cpus then cpus else cpus @ [c]) cs"

text \<open>The CPUs of one token: a range when a dash stands inside the token, otherwise one number.\<close>

definition cpu_token :: "string \<Rightarrow> nat list option" where
  "cpu_token tok =
    (case cut_byte (CHR ''-'') tok of
       Some (a # as, b # bs) \<Rightarrow>
        (case ParseUint (a # as) 10 32 of
           None \<Rightarrow> None
         | Some lo \<Rightarrow>
            (case ParseUint (b # bs) 10 32 of
               None \<Rightarrow> None
             | Some hi \<Rightarrow> if lo > hi then None else Some [lo ..< Suc hi]))
     | _ \<Rightarrow> map_option (\<lambda>c. [c]) (ParseUint tok 10 32))"

fun cpu_loop :: "nat list \<Rightarrow> string list \<Rightarrow> nat list option" where
  "cpu_loop cpus [] = Some cpus"
| "cpu_loop cpus (tok # toks) =
    (case cpu_token tok of None \<Rightarrow> None | Some cs \<Rightarrow> cpu_loop (add_cpus cpus cs) toks)"

definition ParseCPUAffinity :: "string \<Rightarrow> nat list option" where
  "ParseCPUAffinity value =
    (case cpu_loop [] (FieldsFunc value (\<lambda>r. r = CHR '' '' \<or> r = CHR '','' \<or> r = CHR 0x09)) of
       None \<Rightarrow> None
     | Some cpus \<Rightarrow> if cpus = [] then None else Some cpus)"

section \<open>Identifier mappings\<close>

record IDMapping =
  ContainerID :: int
  HostID :: int
  Size :: int

definition ParseIDMapping :: "string \<Rightarrow> IDMapping option" where
  "ParseIDMapping s =
    (case cut_byte (CHR '':'') s of
       None \<Rightarrow> None
     | Some (a, r) \<Rightarrow>
        (case cut_byte (CHR '':'') r of
           None \<Rightarrow> None
         | Some (b, c) \<Rightarrow>
            (case (Atoi (TrimSpace a), Atoi (TrimSpace b), Atoi (TrimSpace c)) of
               (Some cid, Some hid, Some sz) \<Rightarrow>
                 if cid < 0 \<or> hid < 0 \<or> sz \<le> 0 then None
                 else Some \<lparr>ContainerID = cid, HostID = hid, Size = sz\<rparr>
             | _ \<Rightarrow> None)))"

section \<open>Log levels and syslog facilities\<close>

definition ParseLogLevel :: "string \<Rightarrow> int option" where
  "ParseLogLevel s =
    (let v = ToLower (TrimSpace s) in
     if v \<in> {'''', ''off'', ''none'', ''any''} then Some (- 1)
     else if v \<in> {''0'', ''emerg'', ''panic''} then Some 0
     else if v \<in> {''1'', ''alert''} then Some 1
     else if v \<in> {''2'', ''crit'', ''critical''} then Some 2
     else if v \<in> {''3'', ''err'', ''error''} then Some 3
     else if v \<in> {''4'', ''warn'', ''warning''} then Some 4
     else if v \<in> {''5'', ''notice''} then Some 5
     else if v \<in> {''6'', ''info''} then Some 6
     else if v \<in> {''7'', ''debug''} then Some 7
     else None)"

definition syslogFacilityByName :: "(string \<times> int) list" where
  "syslogFacilityByName =
    [(''kern'', 0), (''user'', 1), (''mail'', 2), (''daemon'', 3), (''auth'', 4), (''syslog'', 5),
     (''lpr'', 6), (''news'', 7), (''uucp'', 8), (''cron'', 9), (''authpriv'', 10), (''ftp'', 11),
     (''local0'', 16), (''local1'', 17), (''local2'', 18), (''local3'', 19), (''local4'', 20),
     (''local5'', 21), (''local6'', 22), (''local7'', 23)]"

definition SyslogFacilityCode :: "string \<Rightarrow> int" where
  "SyslogFacilityCode name = (case map_of syslogFacilityByName name of None \<Rightarrow> - 1 | Some v \<Rightarrow> v)"

section \<open>Credentials, addresses, encoded data\<close>

definition splitNameValue :: "string \<Rightarrow> (string \<times> string) option" where
  "splitNameValue s =
    (case cut_byte (CHR '':'') s of
       None \<Rightarrow> None
     | Some (a, rest) \<Rightarrow>
        (let name = TrimSpace a in if name = [] then None else Some (name, TrimLeft_blank rest)))"

text \<open>\<open>net.SplitHostPort\<close>: the port starts after the last colon; brackets enclose a host with colons.\<close>

definition SplitHostPort :: "string \<Rightarrow> (string \<times> string) option" where
  "SplitHostPort hp =
    (case cut_byte (CHR '':'') (rev hp) of
       None \<Rightarrow> None
     | Some (rport, rhost) \<Rightarrow>
        (let port = rev rport; before = rev rhost in
         if hd hp = CHR 0x5B then
           (case cut_byte (CHR 0x5D) hp of
              None \<Rightarrow> None
            | Some (inside, after) \<Rightarrow>
                if inside @ [CHR 0x5D] = before \<and> CHR 0x5B \<notin> set (tl hp) \<and> CHR 0x5D \<notin> set after
                then Some (tl inside, port) else None)
         else if CHR '':'' \<in> set before \<or> CHR 0x5B \<in> set hp \<or> CHR 0x5D \<in> set hp then None
         else Some (before, port)))"

text \<open>\<open>base64.StdEncoding.DecodeString\<close>: newlines are skipped, every four characters give three bytes.\<close>

definition base64_value :: "char \<Rightarrow> nat option" where
  "base64_value c =
    (let n = of_char c :: nat in
     if 65 \<le> n \<and> n \<le> 90 then Some (n - 65)
     else if 97 \<le> n \<and> n \<le> 122 then Some (n - 71)
     else if 48 \<le> n \<and> n \<le> 57 then Some (n + 4)
     else if c = CHR ''+'' then Some 62
     else if c = CHR ''/'' then Some 63
     else None)"

definition base64_bytes :: "nat \<Rightarrow> nat \<Rightarrow> nat \<Rightarrow> nat \<Rightarrow> string" where
  "base64_bytes a b c d =
    (let n = ((a * 64 + b) * 64 + c) * 64 + d in
     [char_of (n div 65536), char_of (n div 256 mod 256), char_of (n mod 256)])"

fun base64_groups :: "string \<Rightarrow> string option" where
  "base64_groups [] = Some []"
| "base64_groups (a # b # c # d # rest) =
    (case (base64_value a, base64_value b) of
       (Some x, Some y) \<Rightarrow>
         if c = CHR ''='' \<and> d = CHR ''='' \<and> rest = [] then Some (take 1 (base64_bytes x y 0 0))
         else (case (base64_value c, base64_value d) of
             (Some z, Some w) \<Rightarrow> map_option (\<lambda>t. base64_bytes x y z w @ t) (base64_groups rest)
           | (Some z, None) \<Rightarrow>
               if d = CHR ''='' \<and> rest = [] then Some (take 2 (base64_bytes x y z 0)) else None
           | _ \<Rightarrow> None)
     | _ \<Rightarrow> None)"
| "base64_groups _ = None"

definition DecodeString :: "string \<Rightarrow> string option" where
  "DecodeString s = base64_groups (filter (\<lambda>c. c \<noteq> CHR 0x0A \<and> c \<noteq> CHR 0x0D) s)"

section \<open>System call items\<close>

text \<open>\<open>validateSeccompItems\<close>, which runs on the items of one line.\<close>

fun validate_items :: "(string \<Rightarrow> int option) \<Rightarrow> nat \<Rightarrow> string list \<Rightarrow> bool" where
  "validate_items nums i [] = True"
| "validate_items nums i (it0 # items) =
    (let it = TrimSpace it0; name = TrimPrefix it ''~'' in
     if it = [] then validate_items nums (Suc i) items
     else if HasPrefix it ''~'' \<and> i \<noteq> 0 then False
     else if name = [] then validate_items nums (Suc i) items
     else if HasPrefix name ''@'' then
       (case ExpandGroup name of None \<Rightarrow> False | Some _ \<Rightarrow> validate_items nums (Suc i) items)
     else (case nums name of None \<Rightarrow> False | Some _ \<Rightarrow> validate_items nums (Suc i) items))"

definition validateSeccompItems :: "(string \<Rightarrow> int option) \<Rightarrow> string list \<Rightarrow> bool" where
  "validateSeccompItems nums items = validate_items nums 0 items"

section \<open>Start predicates\<close>

datatype PredicateKind =
    PredPathExists | PredPathExistsGlob | PredPathIsDirectory | PredPathIsMountPoint
  | PredFileNotEmpty | PredDirectoryNotEmpty | PredKernelCommandLine | PredVirtualization
  | PredFirstBoot | PredHost | PredSecurity | PredNeedsUpdate | PredACPower | PredPathIsSocket
  | PredFraction | PredArchitecture | PredCPUFeature | PredCPUs | PredMemory | PredKernelVersion
  | PredKernelModuleLoaded | PredOSRelease | PredUser | PredGroup | PredEnvironment
  | PredFileIsExecutable | PredPathIsSymbolicLink | PredPathIsReadWrite | PredFirmware
  | PredMachineTag | PredCredential | PredControlGroupController | PredMemoryPressure
  | PredCPUPressure | PredIOPressure | PredExecCondition

record Predicate =
  Kind :: PredicateKind
  Param :: string
  Negate :: bool
  IsAssert :: bool

text \<open>
  The names of the kinds: \<open>Predicate.String\<close> prints them and \<open>PredicateKindByName\<close> reads them. The
  exec condition has no name of its own, it is printed and read as a setting.
\<close>

fun kind_name :: "PredicateKind \<Rightarrow> string" where
  "kind_name PredPathExists = ''path-exists''"
| "kind_name PredPathExistsGlob = ''path-exists-glob''"
| "kind_name PredPathIsDirectory = ''path-is-directory''"
| "kind_name PredPathIsMountPoint = ''path-is-mount-point''"
| "kind_name PredFileNotEmpty = ''file-not-empty''"
| "kind_name PredDirectoryNotEmpty = ''directory-not-empty''"
| "kind_name PredKernelCommandLine = ''kernel-command-line''"
| "kind_name PredVirtualization = ''virtualization''"
| "kind_name PredFirstBoot = ''first-boot''"
| "kind_name PredHost = ''host''"
| "kind_name PredSecurity = ''security''"
| "kind_name PredNeedsUpdate = ''needs-update''"
| "kind_name PredACPower = ''ac-power''"
| "kind_name PredPathIsSocket = ''path-is-socket''"
| "kind_name PredFraction = ''fraction''"
| "kind_name PredArchitecture = ''architecture''"
| "kind_name PredCPUFeature = ''cpu-feature''"
| "kind_name PredCPUs = ''cpus''"
| "kind_name PredMemory = ''memory''"
| "kind_name PredKernelVersion = ''kernel-version''"
| "kind_name PredKernelModuleLoaded = ''kernel-module-loaded''"
| "kind_name PredOSRelease = ''os-release''"
| "kind_name PredUser = ''user''"
| "kind_name PredGroup = ''group''"
| "kind_name PredEnvironment = ''environment''"
| "kind_name PredFileIsExecutable = ''file-is-executable''"
| "kind_name PredPathIsSymbolicLink = ''path-is-symbolic-link''"
| "kind_name PredPathIsReadWrite = ''path-is-read-write''"
| "kind_name PredFirmware = ''firmware''"
| "kind_name PredMachineTag = ''machine-tag''"
| "kind_name PredCredential = ''credential''"
| "kind_name PredControlGroupController = ''control-group-controller''"
| "kind_name PredMemoryPressure = ''memory-pressure''"
| "kind_name PredCPUPressure = ''cpu-pressure''"
| "kind_name PredIOPressure = ''io-pressure''"
| "kind_name PredExecCondition = ''exec-condition''"

definition named_kinds :: "PredicateKind list" where
  "named_kinds =
    [PredPathExists, PredPathExistsGlob, PredPathIsDirectory, PredPathIsMountPoint,
     PredFileNotEmpty, PredDirectoryNotEmpty, PredKernelCommandLine, PredVirtualization,
     PredFirstBoot, PredHost, PredSecurity, PredNeedsUpdate, PredACPower, PredPathIsSocket,
     PredFraction, PredArchitecture, PredCPUFeature, PredCPUs, PredMemory, PredKernelVersion,
     PredKernelModuleLoaded, PredOSRelease, PredUser, PredGroup, PredEnvironment,
     PredFileIsExecutable, PredPathIsSymbolicLink, PredPathIsReadWrite, PredFirmware,
     PredMachineTag, PredCredential, PredControlGroupController, PredMemoryPressure,
     PredCPUPressure, PredIOPressure]"

definition PredicateKindByName :: "string \<Rightarrow> PredicateKind option" where
  "PredicateKindByName name = find (\<lambda>k. kind_name k = name) named_kinds"

definition Predicate_String :: "Predicate \<Rightarrow> string" where
  "Predicate_String p =
    (if Kind p = PredExecCondition then
       (if IsAssert p then ''assert-exec-condition='' else ''exec-condition='') @ Param p
     else (if IsAssert p then ''assert-'' else ''condition-'') @ kind_name (Kind p) @ ''='' @
       (if Negate p then ''!'' else []) @ Param p)"

definition splitPredicateNegation :: "string \<Rightarrow> string \<times> bool" where
  "splitPredicateNegation value =
    (let v = TrimSpace value in
     if HasPrefix v ''!'' then (TrimSpace (tl v), True) else (v, False))"

text \<open>\<open>parsePredicate\<close>; \<open>None\<close> is the answer that the setting is not a predicate. It has no error.\<close>

definition predicate_name :: "string \<Rightarrow> (string \<times> bool) option" where
  "predicate_name setting =
    (if HasPrefix setting ''condition-'' then Some (drop (length ''condition-'') setting, False)
     else if HasPrefix setting ''assert-'' then Some (drop (length ''assert-'') setting, True)
     else None)"

definition parsePredicate :: "environ \<Rightarrow> string \<Rightarrow> string \<Rightarrow> string option \<Rightarrow> Predicate option" where
  "parsePredicate env setting value arg =
    (if setting = ''exec-condition'' \<or> setting = ''assert-exec-condition'' then
       Some \<lparr>Kind = PredExecCondition, Param = expandEnvVars env value arg, Negate = False,
             IsAssert = (setting = ''assert-exec-condition'')\<rparr>
     else case predicate_name setting of
         None \<Rightarrow> None
       | Some (name, isAssert) \<Rightarrow>
          (case PredicateKindByName name of
             None \<Rightarrow> None
           | Some kind \<Rightarrow>
              (let (param, negate) = splitPredicateNegation (expandEnvVars env value arg) in
               Some \<lparr>Kind = kind, Param = param, Negate = negate, IsAssert = isAssert\<rparr>)))"

section \<open>What the value parsers guarantee\<close>

subsection \<open>Paths\<close>

lemma entries_loop_checked:
  "entries_loop check ex raws = Some es \<Longrightarrow> e \<in> set es \<Longrightarrow> \<exists>n. n \<noteq> [] \<and> check n = Some e"
  by (induction raws arbitrary: es) (auto simp: Let_def split: if_splits option.splits)

lemma parse_entries_checked:
  "parse_entries check env v arg = Some es \<Longrightarrow> e \<in> set es \<Longrightarrow> \<exists>n. n \<noteq> [] \<and> check n = Some e"
  by (auto simp: parse_entries_def split: option.splits if_splits dest: entries_loop_checked)

lemma Split_no_sep: "f \<in> set (Split s sep) \<Longrightarrow> sep \<notin> set f"
  by (induction s arbitrary: f) (auto split: if_splits list.splits)

lemma Split_single: "sep \<notin> set s \<Longrightarrow> Split s sep = [s]"
  by (induction s) auto

lemma Split_append: "sep \<notin> set a \<Longrightarrow> Split (a @ sep # s) sep = a # Split s sep"
  by (induction a) auto

lemma Split_Join:
  "\<forall>c \<in> set cs. sep \<notin> set c \<Longrightarrow> cs \<noteq> [] \<Longrightarrow> Split (Join cs [sep]) sep = cs"
  by (induction cs "[sep]" rule: Join.induct) (auto simp: Split_single Split_append)

lemma clean_comps_set:
  assumes "c \<in> set (clean_comps rooted st cs)"
  shows "c \<in> set st \<or> c \<in> set cs"
  using assms
proof (induction rooted st cs rule: clean_comps.induct)
  case (2 rooted st c' cs)
  then show ?case by (auto split: if_splits dest: list.set_sel(2))
qed simp

lemma clean_comps_rooted:
  assumes "''..'' \<notin> set st" "[] \<notin> set st" "''.'' \<notin> set st"
  shows "''..'' \<notin> set (clean_comps True st cs) \<and> [] \<notin> set (clean_comps True st cs)
    \<and> ''.'' \<notin> set (clean_comps True st cs)"
  using assms
proof (induction cs arbitrary: st)
  case (Cons c cs)
  have "set (tl st) \<subseteq> set st" by (cases st) auto
  then show ?case using Cons by auto
qed simp

text \<open>A rooted path is clean: it is absolute and has neither \<open>.\<close> nor \<open>..\<close> as a component.\<close>

lemma Clean_rooted:
  assumes "IsAbs p"
  shows "IsAbs (Clean p)" and "no_dotdot (Clean p)" and "''.'' \<notin> set (Split (Clean p) (CHR ''/''))"
proof -
  let ?cs = "clean_comps True [] (Split p (CHR ''/''))"
  have c: "Clean p = CHR ''/'' # Join ?cs ''/''" using assms by (simp add: Clean_def)
  have sep: "\<forall>c \<in> set ?cs. CHR ''/'' \<notin> set c"
    using clean_comps_set [of _ True "[]" "Split p (CHR ''/'')"] Split_no_sep by fastforce
  have "Split (Clean p) (CHR ''/'') = [] # (if ?cs = [] then [[]] else ?cs)"
    using Split_Join [OF sep] by (simp add: c)
  then show "no_dotdot (Clean p)" and "''.'' \<notin> set (Split (Clean p) (CHR ''/''))"
    using clean_comps_rooted [of "[]" "Split p (CHR ''/'')"] by (auto simp: no_dotdot_def)
  show "IsAbs (Clean p)" by (simp add: c IsAbs_def)
qed

definition sandboxed :: "string \<Rightarrow> bool" where
  "sandboxed p \<longleftrightarrow> IsAbs p \<and> no_dotdot p"

lemma parseSandboxPaths_sandboxed:
  assumes "parseSandboxPaths env v arg = Some ps" "p \<in> set ps"
  shows "sandboxed p"
  using parse_entries_checked [of sandbox_path env v arg ps p] assms Clean_rooted
  by (auto simp: parseSandboxPaths_def sandbox_path_def sandboxed_def split: if_splits)

lemma parseBindEntries_sandboxed:
  assumes "parseBindEntries env v arg = Some es" "e \<in> set es"
  shows "\<exists>src dst. e = src @ '':'' @ dst \<and> sandboxed src \<and> sandboxed dst"
proof -
  obtain n where "bind_entry n = Some e"
    using parse_entries_checked [of bind_entry env v arg es e] assms
    by (auto simp: parseBindEntries_def)
  then obtain src dst where "e = Clean src @ '':'' @ Clean dst" "IsAbs src" "IsAbs dst"
    by (auto simp: bind_entry_def Let_def split: prod.splits if_splits)
  then show ?thesis using Clean_rooted unfolding sandboxed_def by blast
qed

lemma parseServiceDirNames_relative:
  assumes "parseServiceDirNames env v arg = Some ns" "n \<in> set ns"
  shows "n \<noteq> [] \<and> \<not> IsAbs n \<and> no_dotdot n \<and> ''.'' \<notin> set (Split n (CHR ''/''))"
  using parse_entries_checked [of service_dir_name env v arg ns n] assms
  by (auto simp: parseServiceDirNames_def service_dir_name_def IsAbs_def no_dotdot_def split: if_splits)

subsection \<open>Numbers\<close>

lemma parseDirMode_range: "parseDirMode v = Some m \<Longrightarrow> m \<le> 511"
  by (simp add: parseDirMode_def split: option.splits if_splits)

lemma parseNormalExit_range:
  assumes "parseNormalExit v = Some (codes, sigs)" "c \<in> set codes"
  shows "0 \<le> c \<and> c \<le> 255"
proof -
  have "normal_exit_loop toks = Some (codes, sigs) \<Longrightarrow> c \<in> set codes \<Longrightarrow> 0 \<le> c \<and> c \<le> 255" for toks
    by (induction toks arbitrary: codes sigs) (auto split: option.splits if_splits)
  then show ?thesis using assms by (simp add: parseNormalExit_def)
qed

lemma add_cpus_set: "set (add_cpus cpus cs) = set cpus \<union> set cs"
  by (induction cs arbitrary: cpus) auto

lemma add_cpus_distinct: "distinct cpus \<Longrightarrow> distinct (add_cpus cpus cs)"
  by (induction cs arbitrary: cpus) auto

lemma cpu_token_range: "cpu_token tok = Some cs \<Longrightarrow> c \<in> set cs \<Longrightarrow> c < 2 ^ 32"
  by (auto simp: cpu_token_def split: option.splits list.splits if_splits
      dest!: ParseUint_range intro: le_less_trans)

lemma cpu_loop_set:
  "cpu_loop cpus toks = Some out \<Longrightarrow>
    set out = set cpus \<union> (\<Union>tok \<in> set toks. set (the (cpu_token tok)))"
  by (induction toks arbitrary: cpus) (auto simp: add_cpus_set split: option.splits)

lemma cpu_loop_distinct: "cpu_loop cpus toks = Some out \<Longrightarrow> distinct cpus \<Longrightarrow> distinct out"
  by (induction toks arbitrary: cpus) (auto simp: add_cpus_distinct split: option.splits)

lemma cpu_loop_range:
  "cpu_loop cpus toks = Some out \<Longrightarrow> \<forall>c \<in> set cpus. c < 2 ^ 32 \<Longrightarrow> \<forall>c \<in> set out. c < 2 ^ 32"
proof (induction toks arbitrary: cpus)
  case (Cons tok toks)
  then obtain cs where cs: "cpu_token tok = Some cs" "cpu_loop (add_cpus cpus cs) toks = Some out"
    by (auto split: option.splits)
  have "\<forall>c \<in> set (add_cpus cpus cs). c < 2 ^ 32"
    using Cons.prems(2) cpu_token_range [OF cs(1)] by (auto simp: add_cpus_set)
  then show ?case by (rule Cons.IH [OF cs(2)])
qed simp

lemma ParseCPUAffinity_good:
  assumes "ParseCPUAffinity v = Some cpus"
  shows "cpus \<noteq> [] \<and> distinct cpus \<and> (\<forall>c \<in> set cpus. c < 2 ^ 32)"
  using assms cpu_loop_distinct [of "[]"] cpu_loop_range [of "[]"]
  by (auto simp: ParseCPUAffinity_def split: option.splits if_splits)

lemma int64_id: "- (2 ^ 63) \<le> n \<Longrightarrow> n < 2 ^ 63 \<Longrightarrow> int64 n = n"
  unfolding int64_def by (simp add: sint_sbintrunc' signed_take_bit_int_eq_self)

lemma int64_range: "- (2 ^ 63) \<le> int64 n \<and> int64 n < 2 ^ 63"
  unfolding int64_def using sint_range_size [of "word_of_int n :: u64"] by (simp add: word_size)

subsection \<open>Predicates\<close>

lemma kind_name_inj: "k \<in> set named_kinds \<Longrightarrow> PredicateKindByName (kind_name k) = Some k"
  unfolding named_kinds_def PredicateKindByName_def by (cases k) simp_all

lemma named_kinds_all: "k \<noteq> PredExecCondition \<Longrightarrow> k \<in> set named_kinds"
  unfolding named_kinds_def by (cases k) simp_all

subsection \<open>System call items\<close>

text \<open>
  The check of the parser and the one of the filter builder agree: a list of items is accepted by
  \<open>validateSeccompItems\<close> exactly when \<open>Build\<close> can expand it.
\<close>

lemma build_items_validate:
  "isl (build_items nums i items mode st) \<longleftrightarrow> \<not> validate_items nums i items"
proof (induction items arbitrary: i mode st)
  case (Cons it0 items)
  show ?case
    by (simp add: Let_def appendItem_def Cons.IH split: option.splits)
qed simp

end
