(* ===== verification/ConfigDesc.thy ===== *)
theory ConfigDesc
  imports ConfigValues Calendar
begin

text \<open>
  \<open>ServiceDescription\<close> of \<open>pkg/config/parser.go\<close>: what a service file says. The struct has 288 fields;
  they keep their names and stand in one record per group of the struct, the groups in the order of
  the source, and the fields of the top record, whose names start with \<open>d_\<close>, are the groups. A pointer
  field is an option, a map of Go is a map.
\<close>

record CgroupSetting =
  cg_File :: string
  cg_Value :: string

record CredentialSource =
  cred_Name :: string
  cred_Path :: string
  cred_Value :: string

definition no_options :: ServiceFlags where
  "no_options =
    \<lparr>RWReadyFlag = False, LogReadyFlag = False, RunsOnConsole = False, StartsOnConsole = False,
     SharesConsole = False, PassCSFD = False, StartInterruptible = False, Skippable = False,
     SignalProcessOnly = False, AlwaysChain = False, KillAllOnStop = False, UnmaskIntr = False\<rparr>"

record desc_commands =
  Command :: "string list"
  Argv0 :: string
  ScriptBlock :: bool
  StopCommand :: "string list"
  FinishCommand :: "string list"
  PreStartCommand :: "string list"
  PostStartCommand :: "string list"
  ReadyCheckCommand :: "string list"
  ReadyCheckInterval :: duration
  PreStopHook :: "string list"
  ControlCommands :: "string \<rightharpoonup> string list"
  ExtraCommands :: "string \<rightharpoonup> string list"
  ExtraStartedCommands :: "string \<rightharpoonup> string list"

record desc_execution =
  WorkingDir :: string
  EnvFile :: string
  EnvDir :: string
  EnvGenerator :: string
  Chroot :: string
  LockFile :: string
  NewSession :: bool
  CloseStdin :: bool
  CloseStdout :: bool
  CloseStderr :: bool

record desc_namespaces =
  NamespacePID :: bool
  NamespaceMount :: bool
  NamespaceNet :: bool
  NamespaceUTS :: bool
  NamespaceIPC :: bool
  NamespaceUser :: bool
  NamespaceCgroup :: bool
  NamespaceUidMap :: "IDMapping list"
  NamespaceGidMap :: "IDMapping list"

record desc_dependencies =
  DependsOn :: "string list"
  DependsMS :: "string list"
  WaitsFor :: "string list"
  PreparedBy :: "string list"
  Before :: "string list"
  After :: "string list"
  BeforeOptional :: "string list"
  AfterOptional :: "string list"
  DependsOnD :: "string list"
  DependsMSD :: "string list"
  WaitsForD :: "string list"
  PreparedByD :: "string list"
  BundleMembers :: "string list"

record desc_behavior =
  TypeExplicit :: bool
  AutoRestart :: AutoRestartMode
  SmoothRecovery :: bool
  ManualStart :: bool
  RefuseManualStart :: bool
  RefuseManualStop :: bool
  StopWhenUnneeded :: bool
  NormalExitCodes :: "int list"
  RestartForceExitCodes :: "int list"
  NormalExitSignals :: "signal list"
  Flags :: ServiceFlags

record desc_logging =
  LogType :: LogType
  LogFile :: string
  LogFilePerms :: int
  LogFileUID :: int
  LogFileGID :: int
  LogBufMax :: int
  LogMaxSize :: int
  LogMaxFiles :: int
  LogMinFiles :: int
  LogRotateTime :: duration
  LogProcessor :: "string list"
  LogInclude :: "string list"
  LogExclude :: "string list"
  LogSelect :: "string list"

record desc_logpolicy =
  LogRateLimitInterval :: duration
  LogRateLimitBurst :: int
  LogLevelMax :: int
  LogSanitizeChar :: char
  LogSanitizeExtra :: string
  LogMaxLineLength :: int
  LogTimestamp :: string
  LogLinePrefix :: string
  LogReadBufferSize :: int
  LogForwardUDP :: string
  LogForwardFormat :: string
  LogForwardFacility :: string
  LogForwardTag :: string
  AlertFile :: string
  AlertLevel :: int
  OutputLogger :: "string list"
  ErrorLogger :: "string list"

record desc_management =
  StopTimeout :: duration
  StartTimeout :: duration
  TimeoutAbortSec :: duration
  TimeoutStartFailureMode :: TimeoutFailureMode
  RestartMode :: RestartMode
  ExitType :: ExitType
  RestartDelay :: duration
  RestartDelayStep :: duration
  RestartDelayCap :: duration
  RestartRandomizedDelay :: duration
  RestartMaxDelay :: duration
  RestartInterval :: duration
  RestartLimitCount :: int
  TermSignal :: signal
  ReloadSignal :: signal
  PIDFile :: string
  ReadyNotification :: string
  ReadyNotifyFD :: int
  ReadyNotifyVar :: string
  WatchdogTimeout :: duration

record desc_identity =
  RunAs :: string
  SupplementaryGroups :: "string list"
  DynamicUser :: bool
  FileDescriptorStoreMax :: int
  FileDescriptorStorePreserve :: string
  MemoryTHP :: string
  SocketPath :: string
  SocketPaths :: "string list"
  SocketPerms :: int
  SocketUID :: int
  SocketGID :: int
  SocketActivation :: string
  ChainTo :: string
  Profiles :: "string list"
  Provides :: string
  EnableVia :: string
  ConsumerOf :: string
  SharedLogger :: string
  SharedLoggerLossy :: bool
  SharedLoggerQueueSize :: int

record desc_information =
  Description :: string
  Author :: string
  Version :: string
  Usage :: string
  InittabID :: string
  InittabLine :: string
  VTTYEnabled :: bool
  VTTYScrollback :: int
  ExportPasswdVars :: bool
  ExportServiceName :: bool

record desc_attributes =
  Nice :: "int option"
  OOMScoreAdj :: "int option"
  Umask :: "nat option"
  AppArmorLoad :: string
  AppArmorSwitch :: string
  Debug :: bool
  NoNewPrivs :: bool
  IOPrio :: string
  CgroupPath :: string
  Slice :: string
  CgroupSettings :: "CgroupSetting list"
  CPUAffinity :: "nat list"

record desc_directories =
  RuntimeDirs :: "string list"
  StateDirs :: "string list"
  CacheDirs :: "string list"
  LogsDirs :: "string list"
  ConfigDirs :: "string list"
  RuntimeDirMode :: "nat option"
  StateDirMode :: "nat option"
  CacheDirMode :: "nat option"
  LogsDirMode :: "nat option"
  ConfigDirMode :: "nat option"
  RuntimeDirPreserve :: int
  StartOnPath :: string
  StartOnPathTrigger :: int

record desc_resources =
  SchedPolicy :: nat
  SchedPolicySet :: bool
  SchedPriority :: nat
  SchedRuntime :: nat
  SchedDeadline :: nat
  SchedPeriod :: nat
  SchedResetOnFork :: bool
  SchedResetOnForkSet :: bool
  MlockallFlags :: int
  NumaMempolicy :: nat
  NumaMempolicySet :: bool
  NumaNodes :: "nat list"
  RlimitNofile :: "(u64 \<times> u64) option"
  RlimitCore :: "(u64 \<times> u64) option"
  RlimitData :: "(u64 \<times> u64) option"
  RlimitAs :: "(u64 \<times> u64) option"
  Capabilities :: string
  CapabilityBoundingSet :: string
  Securebits :: string

record desc_schedule =
  CronCommand :: "string list"
  CronInterval :: duration
  CronDelay :: duration
  CronOnError :: string
  CronCalendar :: "CalendarSpec option"
  CronRandomizedDelay :: duration
  CronPersistent :: bool
  CronAccuracy :: duration
  HealthCheckCommand :: "string list"
  HealthCheckInterval :: duration
  HealthCheckDelay :: duration
  HealthCheckMaxFail :: int
  UnhealthyCommand :: "string list"

record desc_conditions =
  Keywords :: "string list"
  RequiredFiles :: "string list"
  RequiredDirs :: "string list"
  Predicates :: "Predicate list"
  FailureAction :: SystemAction
  SuccessAction :: SystemAction
  StartLimitAction :: SystemAction
  RebootArgument :: string
  RuntimeMaxSec :: duration
  RuntimeRandomizedExtra :: duration
  JobTimeoutSec :: duration
  OOMPolicy :: OOMPolicy
  MemoryPressureWatch :: bool
  MemoryPressureThreshold :: duration
  CPUPressureWatch :: bool
  CPUPressureThreshold :: duration
  IOPressureWatch :: bool
  IOPressureThreshold :: duration
  Credentials :: "CredentialSource list"

record desc_sandbox =
  PrivateTmp :: bool
  ProtectSystem :: string
  ReadOnlyPaths :: "string list"
  ReadWritePaths :: "string list"
  ProtectHome :: string
  InaccessiblePaths :: "string list"
  ProtectProc :: string
  ProcSubset :: string
  BindPaths :: "string list"
  BindReadOnlyPaths :: "string list"
  TemporaryFileSystem :: "string list"
  SystemCallFilter :: "string list"
  SystemCallArchitectures :: "string list"
  SystemCallErrorNumber :: string
  SystemCallLog :: "string list"

record desc_hardening =
  ProtectKernelTunables :: bool
  ProtectKernelModules :: bool
  ProtectKernelLogs :: bool
  ProtectClock :: bool
  ProtectControlGroups :: bool
  ProtectHostname :: bool
  LockPersonality :: bool
  RestrictRealtime :: bool
  RestrictNamespaces :: bool
  RestrictSUIDSGID :: bool
  RestrictFileSystems :: bool
  RestrictAddressFamilies :: "string list"
  RestrictAFEnabled :: bool
  MemoryDenyWriteExecute :: bool
  CoredumpFilter :: string
  TimerSlackNsec :: int
  MemoryKSM :: bool
  RemoveIPC :: bool
  IgnoreSIGPIPE :: "bool option"
  Personality :: string
  UtmpMode :: string

record desc_limits =
  CpusetPartition :: string
  CacheDirectoryQuota :: int
  LogsDirectoryQuota :: int
  StateDirectoryQuota :: int
  CacheDirectoryAccounting :: bool
  LogsDirectoryAccounting :: bool
  StateDirectoryAccounting :: bool
  StartupAllowedCPUs :: string
  StartupAllowedMemoryNodes :: string
  TimeoutStopFailureMode :: TimeoutFailureMode
  WatchdogSignal :: signal
  FinalKillSignal :: signal
  SurviveFinalKillSignal :: bool
  RestartKillSignal :: signal
  KillMode :: KillMode

record desc_inputs =
  PassEnvironment :: "string list"
  PassEnvSet :: bool
  UnsetEnvironment :: "string list"
  ExecSearchPath :: string
  StandardInput :: string
  StandardInputSet :: bool
  OpenFiles :: "OpenFileSpec list"
  ImportCredentials :: "string list"
  NotifyAccess :: NotifyAccess
  NotifyAccessSet :: bool
  GuessMainPID :: bool

record desc_terminal =
  SELinuxContext :: string
  SMACKProcessLabel :: string
  BusName :: string
  BusPolicy :: string
  BusNameScope :: string
  TTYPath :: string
  TTYColumns :: nat
  TTYRows :: nat
  TTYVHangup :: bool
  TTYVTDisallocate :: bool
  TTYReset :: bool

record ServiceDescription =
  Name :: string
  Type :: ServiceType
  d_commands :: desc_commands
  d_execution :: desc_execution
  d_namespaces :: desc_namespaces
  d_dependencies :: desc_dependencies
  d_behavior :: desc_behavior
  d_logging :: desc_logging
  d_logpolicy :: desc_logpolicy
  d_management :: desc_management
  d_identity :: desc_identity
  d_information :: desc_information
  d_attributes :: desc_attributes
  d_directories :: desc_directories
  d_resources :: desc_resources
  d_schedule :: desc_schedule
  d_conditions :: desc_conditions
  d_sandbox :: desc_sandbox
  d_hardening :: desc_hardening
  d_limits :: desc_limits
  d_inputs :: desc_inputs
  d_terminal :: desc_terminal

section \<open>Defaults\<close>

definition new_commands :: desc_commands where
  "new_commands =
    \<lparr>Command = [], Argv0 = [], ScriptBlock = False, StopCommand = [], FinishCommand = [],
     PreStartCommand = [], PostStartCommand = [], ReadyCheckCommand = [], ReadyCheckInterval = 0,
     PreStopHook = [], ControlCommands = Map.empty, ExtraCommands = Map.empty,
     ExtraStartedCommands = Map.empty\<rparr>"

definition new_execution :: desc_execution where
  "new_execution =
    \<lparr>WorkingDir = [], EnvFile = [], EnvDir = [], EnvGenerator = [], Chroot = [], LockFile = [],
     NewSession = False, CloseStdin = False, CloseStdout = False, CloseStderr = False\<rparr>"

definition new_namespaces :: desc_namespaces where
  "new_namespaces =
    \<lparr>NamespacePID = False, NamespaceMount = False, NamespaceNet = False, NamespaceUTS = False,
     NamespaceIPC = False, NamespaceUser = False, NamespaceCgroup = False, NamespaceUidMap = [],
     NamespaceGidMap = []\<rparr>"

definition new_dependencies :: desc_dependencies where
  "new_dependencies =
    \<lparr>DependsOn = [], DependsMS = [], WaitsFor = [], PreparedBy = [], Before = [], After = [],
     BeforeOptional = [], AfterOptional = [], DependsOnD = [], DependsMSD = [], WaitsForD = [],
     PreparedByD = [], BundleMembers = []\<rparr>"

definition new_behavior :: desc_behavior where
  "new_behavior =
    \<lparr>TypeExplicit = False, AutoRestart = RestartNever, SmoothRecovery = False, ManualStart = False,
     RefuseManualStart = False, RefuseManualStop = False, StopWhenUnneeded = False,
     NormalExitCodes = [], RestartForceExitCodes = [], NormalExitSignals = [], Flags = no_options\<rparr>"

definition new_logging :: desc_logging where
  "new_logging =
    \<lparr>LogType = LogNone, LogFile = [], LogFilePerms = 384, LogFileUID = - 1, LogFileGID = - 1,
     LogBufMax = 0, LogMaxSize = 0, LogMaxFiles = 0, LogMinFiles = 0, LogRotateTime = 0,
     LogProcessor = [], LogInclude = [], LogExclude = [], LogSelect = []\<rparr>"

definition new_logpolicy :: desc_logpolicy where
  "new_logpolicy =
    \<lparr>LogRateLimitInterval = 0, LogRateLimitBurst = 0, LogLevelMax = - 1,
     LogSanitizeChar = CHR 0x00, LogSanitizeExtra = [], LogMaxLineLength = 0, LogTimestamp = [],
     LogLinePrefix = [], LogReadBufferSize = 0, LogForwardUDP = [], LogForwardFormat = [],
     LogForwardFacility = [], LogForwardTag = [], AlertFile = [], AlertLevel = - 1,
     OutputLogger = [], ErrorLogger = []\<rparr>"

definition new_management :: desc_management where
  "new_management =
    \<lparr>StopTimeout = 10 * 1000000000, StartTimeout = 0, TimeoutAbortSec = 0,
     TimeoutStartFailureMode = TimeoutFailureTerminate, RestartMode = RestartModeNormal,
     ExitType = ExitTypeMain, RestartDelay = 0, RestartDelayStep = 0, RestartDelayCap = 0,
     RestartRandomizedDelay = 0, RestartMaxDelay = 0, RestartInterval = 0, RestartLimitCount = 0,
     TermSignal = 15, ReloadSignal = 0, PIDFile = [], ReadyNotification = [], ReadyNotifyFD = - 1,
     ReadyNotifyVar = [], WatchdogTimeout = 0\<rparr>"

definition new_identity :: desc_identity where
  "new_identity =
    \<lparr>RunAs = [], SupplementaryGroups = [], DynamicUser = False, FileDescriptorStoreMax = 0,
     FileDescriptorStorePreserve = [], MemoryTHP = [], SocketPath = [], SocketPaths = [],
     SocketPerms = 384, SocketUID = - 1, SocketGID = - 1, SocketActivation = [], ChainTo = [],
     Profiles = [], Provides = [], EnableVia = [], ConsumerOf = [], SharedLogger = [],
     SharedLoggerLossy = False, SharedLoggerQueueSize = 0\<rparr>"

definition new_information :: desc_information where
  "new_information =
    \<lparr>Description = [], Author = [], Version = [], Usage = [], InittabID = [], InittabLine = [],
     VTTYEnabled = False, VTTYScrollback = 0, ExportPasswdVars = False, ExportServiceName = False\<rparr>"

definition new_attributes :: desc_attributes where
  "new_attributes =
    \<lparr>Nice = None, OOMScoreAdj = None, Umask = None, AppArmorLoad = [], AppArmorSwitch = [],
     Debug = False, NoNewPrivs = False, IOPrio = [], CgroupPath = [], Slice = [],
     CgroupSettings = [], CPUAffinity = []\<rparr>"

definition new_directories :: desc_directories where
  "new_directories =
    \<lparr>RuntimeDirs = [], StateDirs = [], CacheDirs = [], LogsDirs = [], ConfigDirs = [],
     RuntimeDirMode = None, StateDirMode = None, CacheDirMode = None, LogsDirMode = None,
     ConfigDirMode = None, RuntimeDirPreserve = 0, StartOnPath = [], StartOnPathTrigger = 0\<rparr>"

definition new_resources :: desc_resources where
  "new_resources =
    \<lparr>SchedPolicy = 0, SchedPolicySet = False, SchedPriority = 0, SchedRuntime = 0,
     SchedDeadline = 0, SchedPeriod = 0, SchedResetOnFork = True, SchedResetOnForkSet = False,
     MlockallFlags = 0, NumaMempolicy = 0, NumaMempolicySet = False, NumaNodes = [],
     RlimitNofile = None, RlimitCore = None, RlimitData = None, RlimitAs = None, Capabilities = [],
     CapabilityBoundingSet = [], Securebits = []\<rparr>"

definition new_schedule :: desc_schedule where
  "new_schedule =
    \<lparr>CronCommand = [], CronInterval = 0, CronDelay = 0, CronOnError = [], CronCalendar = None,
     CronRandomizedDelay = 0, CronPersistent = False, CronAccuracy = 0, HealthCheckCommand = [],
     HealthCheckInterval = 0, HealthCheckDelay = 0, HealthCheckMaxFail = 0, UnhealthyCommand = []\<rparr>"

definition new_conditions :: desc_conditions where
  "new_conditions =
    \<lparr>Keywords = [], RequiredFiles = [], RequiredDirs = [], Predicates = [],
     FailureAction = ActionNone, SuccessAction = ActionNone, StartLimitAction = ActionNone,
     RebootArgument = [], RuntimeMaxSec = 0, RuntimeRandomizedExtra = 0, JobTimeoutSec = 0,
     OOMPolicy = OOMContinue, MemoryPressureWatch = False, MemoryPressureThreshold = 0,
     CPUPressureWatch = False, CPUPressureThreshold = 0, IOPressureWatch = False,
     IOPressureThreshold = 0, Credentials = []\<rparr>"

definition new_sandbox :: desc_sandbox where
  "new_sandbox =
    \<lparr>PrivateTmp = False, ProtectSystem = [], ReadOnlyPaths = [], ReadWritePaths = [],
     ProtectHome = [], InaccessiblePaths = [], ProtectProc = [], ProcSubset = [], BindPaths = [],
     BindReadOnlyPaths = [], TemporaryFileSystem = [], SystemCallFilter = [],
     SystemCallArchitectures = [], SystemCallErrorNumber = [], SystemCallLog = []\<rparr>"

definition new_hardening :: desc_hardening where
  "new_hardening =
    \<lparr>ProtectKernelTunables = False, ProtectKernelModules = False, ProtectKernelLogs = False,
     ProtectClock = False, ProtectControlGroups = False, ProtectHostname = False,
     LockPersonality = False, RestrictRealtime = False, RestrictNamespaces = False,
     RestrictSUIDSGID = False, RestrictFileSystems = False, RestrictAddressFamilies = [],
     RestrictAFEnabled = False, MemoryDenyWriteExecute = False, CoredumpFilter = [],
     TimerSlackNsec = 0, MemoryKSM = False, RemoveIPC = False, IgnoreSIGPIPE = None,
     Personality = [], UtmpMode = []\<rparr>"

definition new_limits :: desc_limits where
  "new_limits =
    \<lparr>CpusetPartition = [], CacheDirectoryQuota = 0, LogsDirectoryQuota = 0,
     StateDirectoryQuota = 0, CacheDirectoryAccounting = False, LogsDirectoryAccounting = False,
     StateDirectoryAccounting = False, StartupAllowedCPUs = [], StartupAllowedMemoryNodes = [],
     TimeoutStopFailureMode = TimeoutFailureTerminate, WatchdogSignal = 0, FinalKillSignal = 0,
     SurviveFinalKillSignal = False, RestartKillSignal = 0, KillMode = KillModeProcess\<rparr>"

definition new_inputs :: desc_inputs where
  "new_inputs =
    \<lparr>PassEnvironment = [], PassEnvSet = False, UnsetEnvironment = [], ExecSearchPath = [],
     StandardInput = [], StandardInputSet = False, OpenFiles = [], ImportCredentials = [],
     NotifyAccess = NotifyAccessMain, NotifyAccessSet = False, GuessMainPID = False\<rparr>"

definition new_terminal :: desc_terminal where
  "new_terminal =
    \<lparr>SELinuxContext = [], SMACKProcessLabel = [], BusName = [], BusPolicy = [], BusNameScope = [],
     TTYPath = [], TTYColumns = 0, TTYRows = 0, TTYVHangup = False, TTYVTDisallocate = False,
     TTYReset = False\<rparr>"

definition NewServiceDescription :: "string \<Rightarrow> ServiceDescription" where
  "NewServiceDescription name =
    \<lparr>Name = name, Type = TypeProcess, d_commands = new_commands, d_execution = new_execution,
     d_namespaces = new_namespaces, d_dependencies = new_dependencies, d_behavior = new_behavior,
     d_logging = new_logging, d_logpolicy = new_logpolicy, d_management = new_management,
     d_identity = new_identity, d_information = new_information, d_attributes = new_attributes,
     d_directories = new_directories, d_resources = new_resources, d_schedule = new_schedule,
     d_conditions = new_conditions, d_sandbox = new_sandbox, d_hardening = new_hardening,
     d_limits = new_limits, d_inputs = new_inputs, d_terminal = new_terminal\<rparr>"

lemmas new_defs =
  new_commands_def new_execution_def new_namespaces_def new_dependencies_def new_behavior_def
  new_logging_def new_logpolicy_def new_management_def new_identity_def new_information_def
  new_attributes_def new_directories_def new_resources_def new_schedule_def new_conditions_def
  new_sandbox_def new_hardening_def new_limits_def new_inputs_def new_terminal_def

end
