(* ===== verification/ConfigApply.thy ===== *)
theory ConfigApply
  imports ConfigDesc
begin

text \<open>
  \<open>applySetting\<close> of \<open>pkg/config/parser.go\<close>, the switch over some 330 setting names. The cases stand in
  one table per group of the source, in the order of the source; a table pairs every setting name with
  the action of its case, and \<open>applySetting\<close> runs the first action whose name is the setting, and the
  default branch when there is none. What the cases need from the process and the platform is the
  record \<open>config_sys\<close>: the environment, the two parsers of numbers that go through \<open>float64\<close>, the
  system call numbers and the architecture.
\<close>

record config_sys =
  sys_env :: environ
  sys_float :: float_parser
  sys_duration :: duration_parser
  sys_nums :: "string \<Rightarrow> int option"
  sys_goarch :: string

text \<open>
  \<open>Rejected\<close> stands for the errors of the cases, \<open>UnknownName\<close> for the last line of the default branch.
  \<open>NoReturn\<close> marks a call that does not return (\<open>ParseCalendar\<close> may loop).
\<close>

datatype setting_error = Rejected | UnknownName | NoReturn

type_synonym action = "ServiceDescription \<Rightarrow> (setting_error, ServiceDescription) result"

definition assign :: "(ServiceDescription \<Rightarrow> ServiceDescription) \<Rightarrow> action" where
  "assign f d = Inr (f d)"

definition require :: "'a option \<Rightarrow> ('a \<Rightarrow> ServiceDescription \<Rightarrow> ServiceDescription) \<Rightarrow> action" where
  "require r f d = (case r of None \<Rightarrow> Inl Rejected | Some x \<Rightarrow> Inr (f x d))"

definition guarded :: "bool \<Rightarrow> (ServiceDescription \<Rightarrow> ServiceDescription) \<Rightarrow> action" where
  "guarded b f d = (if b then Inr (f d) else Inl Rejected)"

definition put :: "(('a \<Rightarrow> 'a) \<Rightarrow> 'd \<Rightarrow> 'd) \<Rightarrow> 'a \<Rightarrow> 'd \<Rightarrow> 'd" where
  "put upd x = upd (\<lambda>_. x)"

text \<open>The two forms of \<open>=\<close> against \<open>+=\<close> in the cases, and \<open>append\<close>.\<close>

definition extend :: "OperatorType \<Rightarrow> 'a list \<Rightarrow> 'a list \<Rightarrow> 'a list" where
  "extend op new old = (if op = OpPlusEqual then old @ new else new)"

definition replace :: "OperatorType \<Rightarrow> 'a list \<Rightarrow> 'a list \<Rightarrow> 'a list" where
  "replace op new old = (if op = OpEquals then new else old @ new)"

definition appended :: "'a list \<Rightarrow> 'a list \<Rightarrow> 'a list" where
  "appended new old = old @ new"

definition when_some :: "('a \<Rightarrow> bool) \<Rightarrow> 'a option \<Rightarrow> 'a option" where
  "when_some p r = (case r of None \<Rightarrow> None | Some x \<Rightarrow> if p x then Some x else None)"

definition result_opt :: "('e, 'a) result \<Rightarrow> 'a option" where
  "result_opt r = (case r of Inl _ \<Rightarrow> None | Inr x \<Rightarrow> Some x)"

definition valid_service_name :: "string \<Rightarrow> bool" where
  "valid_service_name n = ValidateServiceName (map of_char n)"

section \<open>Type, restart mode, log type, options\<close>

definition applyType :: "string \<Rightarrow> action" where
  "applyType v =
    (let t = ToLower v;
         r = (if t = ''process'' then Some TypeProcess
              else if t = ''bgprocess'' then Some TypeBGProcess
              else if t = ''scripted'' then Some TypeScripted
              else if t = ''internal'' then Some TypeInternal
              else if t = ''triggered'' then Some TypeTriggered
              else None) in
     require r (\<lambda>x d. d_behavior_update (put TypeExplicit_update True) (put Type_update x d)))"

definition applyRestart :: "string \<Rightarrow> action" where
  "applyRestart v =
    (let t = ToLower v;
         r = (if t = ''yes'' \<or> t = ''true'' then Some RestartAlways
              else if t = ''no'' \<or> t = ''false'' then Some RestartNever
              else if t = ''on-failure'' then Some RestartOnFailure
              else None) in
     require r (\<lambda>x. d_behavior_update (put AutoRestart_update x)))"

definition applyLogType :: "string \<Rightarrow> action" where
  "applyLogType v =
    (let t = ToLower v;
         r = (if t = ''none'' then Some LogNone
              else if t = ''file'' then Some LogToFile
              else if t = ''buffer'' then Some LogToBuffer
              else if t = ''pipe'' then Some LogToPipe
              else if t = ''command'' then Some LogToCommand
              else None) in
     require r (\<lambda>x. d_logging_update (put LogType_update x)))"

definition option_flag :: "string \<Rightarrow> (ServiceFlags \<Rightarrow> ServiceFlags) option" where
  "option_flag opt =
    (if opt = ''runs-on-console'' then Some (put RunsOnConsole_update True)
     else if opt = ''starts-on-console'' then Some (put StartsOnConsole_update True)
     else if opt = ''shares-console'' then Some (put SharesConsole_update True)
     else if opt = ''pass-cs-fd'' then Some (put PassCSFD_update True)
     else if opt = ''start-interruptible'' then Some (put StartInterruptible_update True)
     else if opt = ''skippable'' then Some (put Skippable_update True)
     else if opt = ''signal-process-only'' then Some (put SignalProcessOnly_update True)
     else if opt = ''always-chain'' then Some (put AlwaysChain_update True)
     else if opt = ''kill-all-on-stop'' then Some (put KillAllOnStop_update True)
     else if opt = ''unmask-intr'' then Some (put UnmaskIntr_update True)
     else if opt = ''starts-rwfs'' then Some (put RWReadyFlag_update True)
     else if opt = ''starts-log'' then Some (put LogReadyFlag_update True)
     else None)"

fun options_loop :: "string list \<Rightarrow> action" where
  "options_loop [] d = Inr d"
| "options_loop (opt # opts) d =
    (case option_flag opt of
       Some f \<Rightarrow> options_loop opts (d_behavior_update (Flags_update f) d)
     | None \<Rightarrow>
         if opt = ''no-new-privs'' then options_loop opts (d_attributes_update (put NoNewPrivs_update True) d)
         else Inl Rejected)"

definition applyOptions :: "string \<Rightarrow> bool \<Rightarrow> action" where
  "applyOptions v keep d =
    options_loop (Fields v) (if \<not> keep then d_behavior_update (put Flags_update no_options) d else d)"

section \<open>Commands and execution\<close>

definition set_log_type :: "LogType \<Rightarrow> ServiceDescription \<Rightarrow> ServiceDescription" where
  "set_log_type t d =
    (if LogType (d_logging d) = LogNone then d_logging_update (put LogType_update t) d else d)"

definition commands_table ::
  "config_sys \<Rightarrow> string \<Rightarrow> OperatorType \<Rightarrow> string option \<Rightarrow> (string \<times> action) list" where
  "commands_table y v op arg =
    (let x = expandEnvVars (sys_env y) v arg;
         w = splitCommand (expandEnvVarsForCommand (sys_env y) v arg);
         cmd = (\<lambda>upd. assign (d_commands_update (upd (extend op w))));
         text = (\<lambda>upd s. assign (d_execution_update (put upd s)));
         flag = (\<lambda>upd. require (parseBool v) (\<lambda>b. d_execution_update (put upd b))) in
     [(''type'', applyType v),
      (''description'', assign (d_information_update (put Description_update v))),
      (''author'', assign (d_information_update (put Author_update v))),
      (''version'', assign (d_information_update (put Version_update v))),
      (''usage'', assign (d_information_update (put Usage_update v))),
      (''command'', (\<lambda>d. if ScriptBlock (d_commands d) then Inl Rejected else cmd Command_update d)),
      (''command-argv0'', assign (d_commands_update (put Argv0_update x))),
      (''stop-command'', cmd StopCommand_update),
      (''finish-command'', cmd FinishCommand_update),
      (''pre-start-command'', cmd PreStartCommand_update),
      (''post-start-command'', cmd PostStartCommand_update),
      (''ready-check-command'', cmd ReadyCheckCommand_update),
      (''ready-check-interval'',
        require (sys_duration y v) (\<lambda>t. d_commands_update (put ReadyCheckInterval_update t))),
      (''working-dir'', text WorkingDir_update x),
      (''env-file'', text EnvFile_update x),
      (''env-dir'', text EnvDir_update x),
      (''env-generator'', text EnvGenerator_update x),
      (''pre-stop-hook'', cmd PreStopHook_update),
      (''chroot'', text Chroot_update x),
      (''lock-file'', text LockFile_update x),
      (''new-session'', flag NewSession_update),
      (''debug'', require (parseBool v) (\<lambda>b. d_attributes_update (put Debug_update b)))])"

definition namespaces_table ::
  "config_sys \<Rightarrow> string \<Rightarrow> OperatorType \<Rightarrow> string option \<Rightarrow> (string \<times> action) list" where
  "namespaces_table y v op arg =
    (let flag = (\<lambda>upd. require (parseBool v) (\<lambda>b. d_namespaces_update (put upd b)));
         mapping = (\<lambda>upd. require (ParseIDMapping v) (\<lambda>m. d_namespaces_update (upd (extend op [m]))));
         close = (\<lambda>upd. require (parseBool v) (\<lambda>b. d_execution_update (put upd b))) in
     [(''namespace-pid'', flag NamespacePID_update),
      (''namespace-mount'', flag NamespaceMount_update),
      (''namespace-net'', flag NamespaceNet_update),
      (''namespace-uts'', flag NamespaceUTS_update),
      (''namespace-ipc'', flag NamespaceIPC_update),
      (''namespace-user'', flag NamespaceUser_update),
      (''namespace-cgroup'', flag NamespaceCgroup_update),
      (''namespace-uid-map'', mapping NamespaceUidMap_update),
      (''namespace-gid-map'', mapping NamespaceGidMap_update),
      (''close-stdin'', close CloseStdin_update),
      (''close-stdout'', close CloseStdout_update),
      (''close-stderr'', close CloseStderr_update),
      (''vtty'', require (parseBool v) (\<lambda>b. d_information_update (put VTTYEnabled_update b))),
      (''vtty-scrollback'',
        require (when_some (\<lambda>n. 0 \<le> n) (Atoi v)) (\<lambda>n. d_information_update (put VTTYScrollback_update n)))])"

text \<open>\<open>cron-calendar\<close>: the parser of calendar expressions may not return.\<close>

definition apply_calendar :: "string \<Rightarrow> action" where
  "apply_calendar v d =
    (case ParseCalendar v of
       None \<Rightarrow> Inl NoReturn
     | Some (Inl _) \<Rightarrow> Inl Rejected
     | Some (Inr spec) \<Rightarrow> Inr (d_schedule_update (put CronCalendar_update (Some spec)) d))"

definition schedule_table ::
  "config_sys \<Rightarrow> string \<Rightarrow> OperatorType \<Rightarrow> string option \<Rightarrow> (string \<times> action) list" where
  "schedule_table y v op arg =
    (let w = splitCommand (expandEnvVarsForCommand (sys_env y) v arg);
         cmd = (\<lambda>upd. assign (d_schedule_update (upd (extend op w))));
         time = (\<lambda>p r upd. require (when_some p r) (\<lambda>t. d_schedule_update (put upd t)));
         dur = sys_duration y v;
         durs = duration_or_seconds (sys_float y) (sys_duration y) v;
         nonneg = (\<lambda>t. 0 \<le> t) in
     [(''cron-command'', cmd CronCommand_update),
      (''cron-interval'', time (\<lambda>_. True) durs CronInterval_update),
      (''cron-on-unit-active'', time (\<lambda>_. True) durs CronInterval_update),
      (''cron-delay'', time (\<lambda>_. True) durs CronDelay_update),
      (''cron-on-active'', time (\<lambda>_. True) durs CronDelay_update),
      (''cron-on-error'',
        guarded (v = ''continue'' \<or> v = ''stop'') (d_schedule_update (put CronOnError_update v))),
      (''cron-calendar'', apply_calendar v),
      (''cron-randomized-delay'', time nonneg dur CronRandomizedDelay_update),
      (''cron-persistent'', require (parseBool v) (\<lambda>b. d_schedule_update (put CronPersistent_update b))),
      (''cron-accuracy-sec'', time nonneg durs CronAccuracy_update),
      (''healthcheck-command'', cmd HealthCheckCommand_update),
      (''healthcheck-interval'', time (\<lambda>_. True) durs HealthCheckInterval_update),
      (''healthcheck-delay'', time (\<lambda>_. True) durs HealthCheckDelay_update),
      (''healthcheck-max-failures'',
        require (when_some (\<lambda>n. 0 \<le> n) (Atoi v)) (\<lambda>n. d_schedule_update (put HealthCheckMaxFail_update n))),
      (''unhealthy-command'', cmd UnhealthyCommand_update)])"

section \<open>Dependencies\<close>

definition dependencies_table ::
  "config_sys \<Rightarrow> string \<Rightarrow> OperatorType \<Rightarrow> string option \<Rightarrow> (string \<times> action) list" where
  "dependencies_table y v op arg =
    (let x = expandEnvVars (sys_env y) v arg;
         dep = (\<lambda>upd. guarded (valid_service_name x) (d_dependencies_update (upd (appended [x]))));
         dir = (\<lambda>upd. assign (d_dependencies_update (upd (appended [x]))));
         names = map (\<lambda>raw. expandEnvVars (sys_env y) raw arg)
           (FieldsFunc v (\<lambda>r. r = CHR '','' \<or> r = CHR '' '' \<or> r = CHR 0x09)) in
     [(''depends-on'', dep DependsOn_update),
      (''depends-ms'', dep DependsMS_update),
      (''waits-for'', dep WaitsFor_update),
      (''prepared-by'', dep PreparedBy_update),
      (''bundle-of'',
        guarded (list_all valid_service_name names) (d_dependencies_update (BundleMembers_update (appended names)))),
      (''before'', dep Before_update),
      (''after'', dep After_update),
      (''depends-on.d'', dir DependsOnD_update),
      (''depends-ms.d'', dir DependsMSD_update),
      (''waits-for.d'', dir WaitsForD_update),
      (''prepared-by.d'', dir PreparedByD_update)])"

section \<open>Checks before the start, actions, pressure, credentials\<close>

definition conditions_table ::
  "config_sys \<Rightarrow> string \<Rightarrow> OperatorType \<Rightarrow> string option \<Rightarrow> (string \<times> action) list" where
  "conditions_table y v op arg =
    (let x = expandEnvVars (sys_env y) v arg;
         sysact = (\<lambda>upd. require (result_opt (ParseSystemAction (TrimSpace v)))
                     (\<lambda>a. d_conditions_update (put upd a)));
         time = (\<lambda>p r upd. require (when_some p r) (\<lambda>t. d_conditions_update (put upd t)));
         watch = (\<lambda>upd. require (parseBool v) (\<lambda>b. d_conditions_update (put upd b)));
         dur = sys_duration y v;
         nonneg = (\<lambda>t. 0 \<le> t) in
     [(''required-files'', assign (d_conditions_update (RequiredFiles_update (appended (Fields x))))),
      (''required-dirs'', assign (d_conditions_update (RequiredDirs_update (appended (Fields x))))),
      (''failure-action'', sysact FailureAction_update),
      (''success-action'', sysact SuccessAction_update),
      (''start-limit-action'', sysact StartLimitAction_update),
      (''reboot-argument'', assign (d_conditions_update (put RebootArgument_update x))),
      (''runtime-max-sec'', time (\<lambda>_. True) dur RuntimeMaxSec_update),
      (''runtime-randomized-extra'', time nonneg (parseDuration (sys_float y) v) RuntimeRandomizedExtra_update),
      (''job-timeout-sec'',
        time nonneg (duration_or_seconds (sys_float y) (sys_duration y) v) JobTimeoutSec_update),
      (''oom-policy'',
        require (result_opt (ParseOOMPolicy (TrimSpace v))) (\<lambda>p. d_conditions_update (put OOMPolicy_update p))),
      (''memory-pressure-watch'', watch MemoryPressureWatch_update),
      (''memory-pressure-threshold'', time (\<lambda>_. True) dur MemoryPressureThreshold_update),
      (''cpu-pressure-watch'', watch CPUPressureWatch_update),
      (''cpu-pressure-threshold'', time (\<lambda>_. True) dur CPUPressureThreshold_update),
      (''io-pressure-watch'', watch IOPressureWatch_update),
      (''io-pressure-threshold'', time (\<lambda>_. True) dur IOPressureThreshold_update),
      (''load-credential'',
        require (splitNameValue v) (\<lambda>(n, p). d_conditions_update (Credentials_update
          (appended [\<lparr>cred_Name = n, cred_Path = expandEnvVars (sys_env y) p arg, cred_Value = []\<rparr>])))),
      (''set-credential'',
        require (splitNameValue v) (\<lambda>(n, p). d_conditions_update (Credentials_update
          (appended [\<lparr>cred_Name = n, cred_Path = [], cred_Value = expandEnvVars (sys_env y) p arg\<rparr>]))))])"

section \<open>Restart, timeouts, signals\<close>

definition restart_table ::
  "config_sys \<Rightarrow> string \<Rightarrow> OperatorType \<Rightarrow> string option \<Rightarrow> (string \<times> action) list" where
  "restart_table y v op arg =
    (let flag = (\<lambda>upd. require (parseBool v) (\<lambda>b. d_behavior_update (put upd b)));
         time = (\<lambda>p r upd. require (when_some p r) (\<lambda>t. d_management_update (put upd t)));
         secs = parseDuration (sys_float y) v;
         durs = duration_or_seconds (sys_float y) (sys_duration y) v;
         nonneg = (\<lambda>t. 0 \<le> t);
         sig = (\<lambda>upd. require (parseSignal v) (\<lambda>s. d_management_update (put upd s))) in
     [(''restart'', applyRestart v),
      (''smooth-recovery'', flag SmoothRecovery_update),
      (''manual'', flag ManualStart_update),
      (''refuse-manual-start'', flag RefuseManualStart_update),
      (''refuse-manual-stop'', flag RefuseManualStop_update),
      (''stop-when-unneeded'', flag StopWhenUnneeded_update),
      (''normal-exit'',
        require (parseNormalExit v) (\<lambda>(codes, sigs). d_behavior_update
          (\<lambda>b. NormalExitSignals_update (replace op sigs) (NormalExitCodes_update (replace op codes) b)))),
      (''restart-force-exit-status'',
        require (when_some (\<lambda>(codes, sigs). sigs = []) (parseNormalExit v))
          (\<lambda>(codes, sigs). d_behavior_update (RestartForceExitCodes_update (replace op codes)))),
      (''stop-timeout'', time (\<lambda>_. True) secs StopTimeout_update),
      (''start-timeout'', time (\<lambda>_. True) secs StartTimeout_update),
      (''timeout-sec'',
        require secs (\<lambda>t. d_management_update (\<lambda>m. put StopTimeout_update t (put StartTimeout_update t m)))),
      (''timeout-abort-sec'', time nonneg secs TimeoutAbortSec_update),
      (''timeout-start-failure-mode'',
        require (result_opt (ParseTimeoutFailureMode (TrimSpace v)))
          (\<lambda>m. d_management_update (put TimeoutStartFailureMode_update m))),
      (''restart-mode'',
        require (result_opt (ParseRestartMode (TrimSpace v))) (\<lambda>m. d_management_update (put RestartMode_update m))),
      (''exit-type'',
        require (result_opt (ParseExitType (TrimSpace v))) (\<lambda>t. d_management_update (put ExitType_update t))),
      (''restart-delay'', time (\<lambda>_. True) secs RestartDelay_update),
      (''restart-delay-step'', time nonneg durs RestartDelayStep_update),
      (''restart-delay-cap'', time nonneg durs RestartDelayCap_update),
      (''restart-max-delay'', time nonneg secs RestartMaxDelay_update),
      (''restart-randomized-delay'', time nonneg durs RestartRandomizedDelay_update),
      (''restart-limit-interval'', time (\<lambda>_. True) secs RestartInterval_update),
      (''restart-limit-count'', require (Atoi v) (\<lambda>n. d_management_update (put RestartLimitCount_update n))),
      (''term-signal'', sig TermSignal_update),
      (''termsignal'', sig TermSignal_update),
      (''stopsig'', sig TermSignal_update),
      (''reload-signal'', sig ReloadSignal_update)])"

section \<open>Logging\<close>

definition log_select_token :: "string \<Rightarrow> bool" where
  "log_select_token tok \<longleftrightarrow> 2 \<le> length tok \<and> (hd tok = CHR ''+'' \<or> hd tok = CHR ''-'')"

definition apply_min_files :: "string \<Rightarrow> action" where
  "apply_min_files v d =
    (case when_some (\<lambda>n. 0 < n) (Atoi v) of
       None \<Rightarrow> Inl Rejected
     | Some n \<Rightarrow>
         if LogMaxFiles (d_logging d) > 0 \<and> n \<ge> LogMaxFiles (d_logging d) then Inl Rejected
         else Inr (d_logging_update (put LogMinFiles_update n) d))"

definition logging_table ::
  "config_sys \<Rightarrow> string \<Rightarrow> OperatorType \<Rightarrow> string option \<Rightarrow> (string \<times> action) list" where
  "logging_table y v op arg =
    (let x = expandEnvVars (sys_env y) v arg;
         w = splitCommand (expandEnvVarsForCommand (sys_env y) v arg);
         num = (\<lambda>r upd. require r (\<lambda>n. d_logging_update (put upd n))) in
     [(''logfile'', assign (\<lambda>d. set_log_type LogToFile (d_logging_update (put LogFile_update x) d))),
      (''log-type'', applyLogType v),
      (''log-buffer-size'', num (Atoi v) LogBufMax_update),
      (''logfile-permissions'', num (ParseInt v 8 32) LogFilePerms_update),
      (''logfile-uid'', num (Atoi v) LogFileUID_update),
      (''logfile-gid'', num (Atoi v) LogFileGID_update),
      (''logfile-max-size'', num (ParseInt v 10 64) LogMaxSize_update),
      (''logfile-max-files'', num (Atoi v) LogMaxFiles_update),
      (''logfile-min-files'', apply_min_files v),
      (''logfile-rotate-time'', num (parseDuration (sys_float y) v) LogRotateTime_update),
      (''log-processor'', assign (d_logging_update (LogProcessor_update (extend op w)))),
      (''log-rate-limit-interval'',
        require (when_some (\<lambda>t. 0 \<le> t) (sys_duration y v))
          (\<lambda>t. d_logpolicy_update (put LogRateLimitInterval_update t))),
      (''log-rate-limit-burst'',
        require (when_some (\<lambda>n. 0 \<le> n) (Atoi v)) (\<lambda>n. d_logpolicy_update (put LogRateLimitBurst_update n))),
      (''log-level-max'', require (ParseLogLevel v) (\<lambda>n. d_logpolicy_update (put LogLevelMax_update n))),
      (''log-include'', assign (d_logging_update (LogInclude_update (appended [v])))),
      (''log-exclude'', assign (d_logging_update (LogExclude_update (appended [v])))),
      (''log-select'',
        guarded (list_all log_select_token (Fields v)) (d_logging_update (LogSelect_update (appended (Fields v)))))])"

definition printable :: "char \<Rightarrow> bool" where
  "printable c \<longleftrightarrow> (let n = of_char c :: nat in 32 \<le> n \<and> n \<le> 126)"

definition logpolicy_table ::
  "config_sys \<Rightarrow> string \<Rightarrow> OperatorType \<Rightarrow> string option \<Rightarrow> (string \<times> action) list" where
  "logpolicy_table y v op arg =
    (let w = splitCommand (expandEnvVarsForCommand (sys_env y) v arg);
         text = (\<lambda>b upd. guarded b (d_logpolicy_update (put upd v)));
         logger = (\<lambda>upd. assign (\<lambda>d. set_log_type LogToCommand (d_logpolicy_update (upd (extend op w)) d))) in
     [(''log-sanitize'',
        guarded (length v = 1 \<and> printable (hd v)) (d_logpolicy_update (put LogSanitizeChar_update (hd v)))),
      (''log-sanitize-extra'', text (v \<noteq> []) LogSanitizeExtra_update),
      (''log-max-line-length'',
        require (when_some (\<lambda>n. 16 \<le> n) (Atoi v)) (\<lambda>n. d_logpolicy_update (put LogMaxLineLength_update n))),
      (''log-timestamp'',
        require (if v \<in> {'''', ''off'', ''none''} then Some ''''
                 else if v \<in> {''tai64n'', ''human'', ''iso8601''} then Some v else None)
          (\<lambda>m. d_logpolicy_update (put LogTimestamp_update m))),
      (''log-line-prefix'', text True LogLinePrefix_update),
      (''log-read-buffer-size'',
        require (when_some (\<lambda>n. 512 \<le> n \<and> n \<le> 1024 * 1024) (Atoi v))
          (\<lambda>n. d_logpolicy_update (put LogReadBufferSize_update n))),
      (''log-forward-udp'', text (SplitHostPort v \<noteq> None) LogForwardUDP_update),
      (''log-forward-format'', text (v = ''rfc3164'' \<or> v = ''rfc5424'') LogForwardFormat_update),
      (''log-forward-facility'', text (map_of syslogFacilityByName v \<noteq> None) LogForwardFacility_update),
      (''log-forward-tag'', text (v \<noteq> []) LogForwardTag_update),
      (''alert-file'', assign (d_logpolicy_update (put AlertFile_update (expandEnvVars (sys_env y) v arg)))),
      (''alert-level'', require (ParseLogLevel v) (\<lambda>n. d_logpolicy_update (put AlertLevel_update n))),
      (''output-logger'', logger OutputLogger_update),
      (''error-logger'', logger ErrorLogger_update)])"

section \<open>Process management, identity, sockets\<close>

definition parseReadyNotification :: "string \<Rightarrow> action" where
  "parseReadyNotification v =
    (if HasPrefix v ''pipefd:'' then
       require (when_some (\<lambda>fd. 0 \<le> fd) (Atoi (drop 7 v))) (\<lambda>fd. d_management_update (put ReadyNotifyFD_update fd))
     else if HasPrefix v ''pipevar:'' then
       guarded (drop 8 v \<noteq> []) (d_management_update (put ReadyNotifyVar_update (drop 8 v)))
     else (\<lambda>d. Inl Rejected))"

definition lower_choice :: "string list \<Rightarrow> string \<Rightarrow> string option" where
  "lower_choice choices v = (let t = ToLower (TrimSpace v) in if t \<in> set choices then Some t else None)"

definition trim_choice :: "string list \<Rightarrow> string \<Rightarrow> string option" where
  "trim_choice choices v = (let t = TrimSpace v in if t \<in> set choices then Some t else None)"

definition management_table ::
  "config_sys \<Rightarrow> string \<Rightarrow> OperatorType \<Rightarrow> string option \<Rightarrow> (string \<times> action) list" where
  "management_table y v op arg =
    [(''pid-file'', assign (d_management_update (put PIDFile_update (expandEnvVars (sys_env y) v arg)))),
     (''ready-notification'',
       (\<lambda>d. parseReadyNotification v (d_management_update (put ReadyNotification_update v) d))),
     (''watchdog-timeout'',
       require (when_some (\<lambda>t. 0 < t) (duration_or_seconds (sys_float y) (sys_duration y) v))
         (\<lambda>t. d_management_update (put WatchdogTimeout_update t))),
     (''run-as'', assign (d_identity_update (put RunAs_update v))),
     (''supplementary-groups'', assign (d_identity_update (SupplementaryGroups_update (extend op (Fields v))))),
     (''dynamic-user'', require (parseBool v) (\<lambda>b. d_identity_update (put DynamicUser_update b))),
     (''file-descriptor-store-max'',
       require (when_some (\<lambda>n. 0 \<le> n) (Atoi v)) (\<lambda>n. d_identity_update (put FileDescriptorStoreMax_update n))),
     (''file-descriptor-store-preserve'',
       require (lower_choice ['''', ''no'', ''yes'', ''on-success''] v)
         (\<lambda>t. d_identity_update (put FileDescriptorStorePreserve_update t))),
     (''memory-thp'',
       require (lower_choice [''never'', ''madvise'', ''always''] v) (\<lambda>t. d_identity_update (put MemoryTHP_update t)))]"

definition profile_names :: "string \<Rightarrow> string list" where
  "profile_names v = filter (\<lambda>p. p \<noteq> []) (map TrimSpace (Split v (CHR '','')))"

definition identity_table ::
  "config_sys \<Rightarrow> string \<Rightarrow> OperatorType \<Rightarrow> string option \<Rightarrow> (string \<times> action) list" where
  "identity_table y v op arg =
    (let x = expandEnvVars (sys_env y) v arg;
         num = (\<lambda>r upd. require r (\<lambda>n. d_identity_update (put upd n))) in
     [(''socket-listen'',
        assign (d_identity_update (\<lambda>i.
          if op = OpPlusEqual then SocketPaths_update (appended [x]) i
          else put SocketPaths_update [x] (put SocketPath_update x i)))),
      (''socket-activation'',
        guarded (v = ''immediate'' \<or> v = ''on-demand'') (d_identity_update (put SocketActivation_update v))),
      (''socket-permissions'', num (ParseInt v 8 32) SocketPerms_update),
      (''socket-uid'', num (Atoi v) SocketUID_update),
      (''socket-gid'', num (Atoi v) SocketGID_update),
      (''chain-to'', guarded (valid_service_name x) (d_identity_update (put ChainTo_update x))),
      (''provides'', assign (d_identity_update (put Provides_update v))),
      (''profile'',
        guarded (list_all valid_service_name (profile_names v))
          (d_identity_update (Profiles_update (extend op (profile_names v))))),
      (''keyword'', assign (d_conditions_update (Keywords_update (appended (Fields v))))),
      (''consumer-of'', guarded (valid_service_name x) (d_identity_update (put ConsumerOf_update x))),
      (''shared-logger'',
        guarded (valid_service_name x) (\<lambda>d.
          d_logging_update (put LogType_update LogToPipe) (d_identity_update (put SharedLogger_update x) d))),
      (''shared-logger-lossy'', require (parseBool v) (\<lambda>b. d_identity_update (put SharedLoggerLossy_update b))),
      (''shared-logger-queue-size'', num (when_some (\<lambda>n. 0 < n) (Atoi v)) SharedLoggerQueueSize_update),
      (''options'', applyOptions v (op = OpPlusEqual)),
      (''nice'',
        require (when_some (\<lambda>n. - 20 \<le> n \<and> n \<le> 19) (Atoi v)) (\<lambda>n. d_attributes_update (put Nice_update (Some n)))),
      (''oom-score-adj'',
        require (when_some (\<lambda>n. - 1000 \<le> n \<and> n \<le> 1000) (Atoi v))
          (\<lambda>n. d_attributes_update (put OOMScoreAdj_update (Some n)))),
      (''umask'',
        require (when_some (\<lambda>m. m \<le> 511) (ParseUint v 8 32)) (\<lambda>m. d_attributes_update (put Umask_update (Some m)))),
      (''apparmor-load'', guarded (IsAbs v) (d_attributes_update (put AppArmorLoad_update v))),
      (''apparmor-switch'', guarded (v \<noteq> []) (d_attributes_update (put AppArmorSwitch_update v)))])"

section \<open>Sandbox and hardening\<close>

definition protect_system_mode :: "string \<Rightarrow> string option" where
  "protect_system_mode v =
    (let t = ToLower (TrimSpace v) in
     if t \<in> {'''', ''no'', ''off'', ''false'', ''0''} then Some ''''
     else if t \<in> {''yes'', ''true'', ''1''} then Some ''yes''
     else if t = ''full'' then Some ''full''
     else if t = ''strict'' then Some ''strict''
     else None)"

definition protect_home_mode :: "string \<Rightarrow> string option" where
  "protect_home_mode v =
    (let t = ToLower (TrimSpace v) in
     if t \<in> {'''', ''no'', ''off'', ''false'', ''0''} then Some ''''
     else if t \<in> {''yes'', ''true'', ''1''} then Some ''yes''
     else if t \<in> {''read-only'', ''ro''} then Some ''read-only''
     else if t = ''tmpfs'' then Some ''tmpfs''
     else None)"

definition protect_proc_mode :: "string \<Rightarrow> string option" where
  "protect_proc_mode v =
    (let t = ToLower (TrimSpace v) in
     if t \<in> {'''', ''default''} then Some ''''
     else if t \<in> {''noaccess'', ''invisible'', ''ptraceable''} then Some t
     else None)"

definition proc_subset_mode :: "string \<Rightarrow> string option" where
  "proc_subset_mode v =
    (let t = ToLower (TrimSpace v) in
     if t \<in> {'''', ''all''} then Some '''' else if t = ''pid'' then Some ''pid'' else None)"

definition sandbox_table ::
  "config_sys \<Rightarrow> string \<Rightarrow> OperatorType \<Rightarrow> string option \<Rightarrow> (string \<times> action) list" where
  "sandbox_table y v op arg =
    (let items = Fields (expandEnvVars (sys_env y) v arg);
         mode = (\<lambda>r upd. require r (\<lambda>m. d_sandbox_update (put upd m)));
         entries = (\<lambda>r upd. require r (\<lambda>es. d_sandbox_update (upd (appended es)))) in
     [(''private-tmp'', require (parseBool v) (\<lambda>b. d_sandbox_update (put PrivateTmp_update b))),
      (''protect-system'', mode (protect_system_mode v) ProtectSystem_update),
      (''read-only-paths'', entries (parseSandboxPaths (sys_env y) v arg) ReadOnlyPaths_update),
      (''read-write-paths'', entries (parseSandboxPaths (sys_env y) v arg) ReadWritePaths_update),
      (''protect-home'', mode (protect_home_mode v) ProtectHome_update),
      (''inaccessible-paths'', entries (parseSandboxPaths (sys_env y) v arg) InaccessiblePaths_update),
      (''protect-proc'', mode (protect_proc_mode v) ProtectProc_update),
      (''proc-subset'', mode (proc_subset_mode v) ProcSubset_update),
      (''bind-paths'', entries (parseBindEntries (sys_env y) v arg) BindPaths_update),
      (''bind-read-only-paths'', entries (parseBindEntries (sys_env y) v arg) BindReadOnlyPaths_update),
      (''temporary-filesystem'', entries (parseTmpfsEntries (sys_env y) v arg) TemporaryFileSystem_update),
      (''system-call-filter'',
        guarded (validateSeccompItems (sys_nums y) items) (d_sandbox_update (SystemCallFilter_update (appended items)))),
      (''system-call-architectures'',
        guarded (list_all (\<lambda>a. ResolveArch (sys_goarch y) a \<noteq> None) items)
          (d_sandbox_update (SystemCallArchitectures_update (appended items)))),
      (''system-call-error-number'',
        guarded (\<not> isl (ParseAction (TrimSpace v))) (d_sandbox_update (put SystemCallErrorNumber_update (TrimSpace v)))),
      (''system-call-log'',
        guarded (validateSeccompItems (sys_nums y) items) (d_sandbox_update (SystemCallLog_update (appended items))))])"

definition hardening_table ::
  "config_sys \<Rightarrow> string \<Rightarrow> OperatorType \<Rightarrow> string option \<Rightarrow> (string \<times> action) list" where
  "hardening_table y v op arg =
    (let flag = (\<lambda>upd. require (parseBool v) (\<lambda>b. d_hardening_update (put upd b)));
         items = Fields (expandEnvVars (sys_env y) v arg) in
     [(''protect-kernel-tunables'', flag ProtectKernelTunables_update),
      (''protect-kernel-modules'', flag ProtectKernelModules_update),
      (''protect-kernel-logs'', flag ProtectKernelLogs_update),
      (''protect-clock'', flag ProtectClock_update),
      (''protect-control-groups'', flag ProtectControlGroups_update),
      (''protect-hostname'', flag ProtectHostname_update),
      (''lock-personality'', flag LockPersonality_update),
      (''restrict-realtime'', flag RestrictRealtime_update),
      (''restrict-namespaces'', flag RestrictNamespaces_update),
      (''restrict-suidsgid'', flag RestrictSUIDSGID_update),
      (''restrict-file-systems'', flag RestrictFileSystems_update),
      (''memory-deny-write-execute'', flag MemoryDenyWriteExecute_update),
      (''coredump-filter'', assign (d_hardening_update (put CoredumpFilter_update (TrimSpace v)))),
      (''timer-slack-nsec'',
        require (when_some (\<lambda>n. 0 \<le> n) (ParseInt_base0 (TrimSpace v) 64))
          (\<lambda>n. d_hardening_update (put TimerSlackNsec_update n))),
      (''memory-ksm'', flag MemoryKSM_update),
      (''remove-ipc'', flag RemoveIPC_update),
      (''ignore-sigpipe'', require (parseBool v) (\<lambda>b. d_hardening_update (put IgnoreSIGPIPE_update (Some b)))),
      (''personality'',
        require (trim_choice ['''', ''x86-64'', ''x86_64'', ''x86'', ''linux32'', ''arm'', ''arm64'', ''aarch64''] v)
          (\<lambda>t. d_hardening_update (put Personality_update t))),
      (''utmp-mode'',
        require (lower_choice ['''', ''init'', ''login'', ''user''] v) (\<lambda>t. d_hardening_update (put UtmpMode_update t))),
      (''restrict-address-families'',
        assign (d_hardening_update (\<lambda>h.
          put RestrictAFEnabled_update True (RestrictAddressFamilies_update (replace op items) h))))])"

section \<open>Limits, inputs, terminal\<close>

definition limits_table ::
  "config_sys \<Rightarrow> string \<Rightarrow> OperatorType \<Rightarrow> string option \<Rightarrow> (string \<times> action) list" where
  "limits_table y v op arg =
    (let quota = (\<lambda>upd. require (parseByteSize v) (\<lambda>n. d_limits_update (put upd n)));
         flag = (\<lambda>upd. require (parseBool v) (\<lambda>b. d_limits_update (put upd b)));
         sig = (\<lambda>upd. require (parseSignal (TrimSpace v)) (\<lambda>s. d_limits_update (put upd s)));
         text = (\<lambda>upd. assign (d_limits_update (put upd (TrimSpace v)))) in
     [(''cpuset-partition'',
        require (trim_choice ['''', ''root'', ''isolated'', ''member''] v)
          (\<lambda>t. d_limits_update (put CpusetPartition_update t))),
      (''cache-directory-quota'', quota CacheDirectoryQuota_update),
      (''logs-directory-quota'', quota LogsDirectoryQuota_update),
      (''state-directory-quota'', quota StateDirectoryQuota_update),
      (''cache-directory-accounting'', flag CacheDirectoryAccounting_update),
      (''logs-directory-accounting'', flag LogsDirectoryAccounting_update),
      (''state-directory-accounting'', flag StateDirectoryAccounting_update),
      (''startup-allowed-cpus'', text StartupAllowedCPUs_update),
      (''startup-allowed-memory-nodes'', text StartupAllowedMemoryNodes_update),
      (''timeout-stop-failure-mode'',
        require (result_opt (ParseTimeoutFailureMode (TrimSpace v)))
          (\<lambda>m. d_limits_update (put TimeoutStopFailureMode_update m))),
      (''watchdog-signal'', sig WatchdogSignal_update),
      (''final-kill-signal'', sig FinalKillSignal_update),
      (''survive-final-kill-signal'', flag SurviveFinalKillSignal_update),
      (''restart-kill-signal'', sig RestartKillSignal_update),
      (''kill-mode'',
        require (result_opt (ParseKillMode (TrimSpace v))) (\<lambda>m. d_limits_update (put KillMode_update m)))])"

definition terminal_table ::
  "config_sys \<Rightarrow> string \<Rightarrow> OperatorType \<Rightarrow> string option \<Rightarrow> (string \<times> action) list" where
  "terminal_table y v op arg =
    (let t = TrimSpace v;
         text = (\<lambda>b upd. guarded b (d_terminal_update (put upd t)));
         size16 = (\<lambda>upd. require (ParseUint t 10 16) (\<lambda>n. d_terminal_update (put upd n)));
         flag = (\<lambda>upd. require (parseBool v) (\<lambda>b. d_terminal_update (put upd b))) in
     [(''bus-name'', text (t = [] \<or> isValidDBusName t) BusName_update),
      (''bus-policy'', text True BusPolicy_update),
      (''bus-name-scope'', text (t \<in> {'''', ''system'', ''session''}) BusNameScope_update),
      (''tty-path'', text (t = [] \<or> HasPrefix t ''/'') TTYPath_update),
      (''tty-columns'', size16 TTYColumns_update),
      (''tty-rows'', size16 TTYRows_update),
      (''tty-vhangup'', flag TTYVHangup_update),
      (''tty-vt-disallocate'', flag TTYVTDisallocate_update),
      (''tty-reset'', flag TTYReset_update),
      (''selinux-context'', text (t \<noteq> []) SELinuxContext_update),
      (''smack-process-label'', text (t \<noteq> []) SMACKProcessLabel_update)])"

definition inputs_table ::
  "config_sys \<Rightarrow> string \<Rightarrow> OperatorType \<Rightarrow> string option \<Rightarrow> (string \<times> action) list" where
  "inputs_table y v op arg =
    (let x = expandEnvVars (sys_env y) v arg in
     [(''pass-environment'',
        assign (d_inputs_update (\<lambda>i. put PassEnvSet_update True (PassEnvironment_update (replace op (Fields x)) i)))),
      (''unset-environment'', assign (d_inputs_update (UnsetEnvironment_update (replace op (Fields x))))),
      (''exec-search-path'', assign (d_inputs_update (put ExecSearchPath_update (TrimSpace x)))),
      (''standard-input-text'',
        assign (d_inputs_update (\<lambda>i. put StandardInputSet_update True (StandardInput_update
          (appended ((if op = OpPlusEqual \<and> StandardInputSet i then [CHR 0x0A] else []) @ x)) i)))),
      (''standard-input-data'',
        require (DecodeString (TrimSpace v)) (\<lambda>raw. d_inputs_update (\<lambda>i.
          put StandardInputSet_update True (StandardInput_update (replace op raw) i)))),
      (''open-file'',
        require (parseOpenFile x) (\<lambda>spec. d_inputs_update (OpenFiles_update (replace op [spec])))),
      (''import-credential'',
        guarded (TrimSpace x \<noteq> []) (d_inputs_update (ImportCredentials_update (replace op [TrimSpace x])))),
      (''notify-access'',
        require (result_opt (ParseNotifyAccess (TrimSpace v))) (\<lambda>n. d_inputs_update (\<lambda>i.
          put NotifyAccessSet_update True (put NotifyAccess_update n i)))),
      (''guess-main-pid'', require (parseBool v) (\<lambda>b. d_inputs_update (put GuessMainPID_update b)))])"

section \<open>Directories and activation by path\<close>

definition apply_trigger :: "string \<Rightarrow> int \<Rightarrow> action" where
  "apply_trigger v n d =
    (if \<not> IsAbs v then Inl Rejected
     else if StartOnPathTrigger (d_directories d) \<noteq> 0 then Inl Rejected
     else Inr (d_directories_update (\<lambda>g. put StartOnPathTrigger_update n (put StartOnPath_update v g)) d))"

definition directories_table ::
  "config_sys \<Rightarrow> string \<Rightarrow> OperatorType \<Rightarrow> string option \<Rightarrow> (string \<times> action) list" where
  "directories_table y v op arg =
    (let dirs = (\<lambda>upd. require (parseServiceDirNames (sys_env y) v arg) (\<lambda>ns. d_directories_update (put upd ns)));
         mode = (\<lambda>upd. require (parseDirMode v) (\<lambda>m. d_directories_update (put upd (Some m)))) in
     [(''runtime-directory'', dirs RuntimeDirs_update),
      (''state-directory'', dirs StateDirs_update),
      (''cache-directory'', dirs CacheDirs_update),
      (''logs-directory'', dirs LogsDirs_update),
      (''configuration-directory'', dirs ConfigDirs_update),
      (''runtime-directory-mode'', mode RuntimeDirMode_update),
      (''state-directory-mode'', mode StateDirMode_update),
      (''cache-directory-mode'', mode CacheDirMode_update),
      (''logs-directory-mode'', mode LogsDirMode_update),
      (''configuration-directory-mode'', mode ConfigDirMode_update),
      (''runtime-directory-preserve'',
        require (if v = ''no'' then Some 0 else if v = ''yes'' then Some 1
                 else if v = ''restart'' then Some 2 else None)
          (\<lambda>n. d_directories_update (put RuntimeDirPreserve_update n))),
      (''start-on-path-exists'', apply_trigger v 1),
      (''start-on-path-changed'', apply_trigger v 2),
      (''start-on-path-modified'', apply_trigger v 3),
      (''start-on-directory-not-empty'', apply_trigger v 4)])"

section \<open>Control groups, scheduling, limits\<close>

definition cgroup_knobs :: "(string \<times> string) list" where
  "cgroup_knobs =
    [(''cgroup-memory-max'', ''memory.max''), (''cgroup-memory-high'', ''memory.high''),
     (''cgroup-memory-min'', ''memory.min''), (''cgroup-memory-low'', ''memory.low''),
     (''cgroup-swap-max'', ''memory.swap.max''), (''cgroup-pids-max'', ''pids.max''),
     (''cgroup-cpu-weight'', ''cpu.weight''), (''cgroup-cpu-max'', ''cpu.max''),
     (''cgroup-io-weight'', ''io.weight''), (''cgroup-cpuset-cpus'', ''cpuset.cpus''),
     (''cgroup-cpuset-mems'', ''cpuset.mems'')]"

definition add_cgroup :: "string \<Rightarrow> string \<Rightarrow> ServiceDescription \<Rightarrow> ServiceDescription" where
  "add_cgroup f v = d_attributes_update (CgroupSettings_update (appended [\<lparr>cg_File = f, cg_Value = v\<rparr>]))"

definition cgroup_table ::
  "config_sys \<Rightarrow> string \<Rightarrow> OperatorType \<Rightarrow> string option \<Rightarrow> (string \<times> action) list" where
  "cgroup_table y v op arg =
    [(''ioprio'', assign (d_attributes_update (put IOPrio_update v))),
     (''cgroup'', assign (d_attributes_update (put CgroupPath_update v))),
     (''run-in-cgroup'', assign (d_attributes_update (put CgroupPath_update v))),
     (''slice'', assign (d_attributes_update (put Slice_update (TrimSpace v))))]
    @ map (\<lambda>(s, f). (s, assign (add_cgroup f v))) cgroup_knobs @
    [(''cgroup-hugetlb'',
       require (Cut v '' '') (\<lambda>(a, b). add_cgroup (''hugetlb.'' @ TrimSpace a @ ''.max'') (TrimSpace b))),
     (''cgroup-setting'', require (Cut v '' '') (\<lambda>(a, b). add_cgroup (TrimSpace a) (TrimSpace b))),
     (''cpu-affinity'', require (ParseCPUAffinity v) (\<lambda>cs. d_attributes_update (put CPUAffinity_update cs)))]"

definition resources_table ::
  "config_sys \<Rightarrow> string \<Rightarrow> OperatorType \<Rightarrow> string option \<Rightarrow> (string \<times> action) list" where
  "resources_table y v op arg =
    (let ns = (\<lambda>upd. require (parseSchedDuration (sys_duration y) v) (\<lambda>n. d_resources_update (put upd n)));
         limit = (\<lambda>upd. require (parseRlimit v) (\<lambda>l. d_resources_update (put upd (Some l))));
         text = (\<lambda>upd. assign (d_resources_update (put upd v))) in
     [(''sched-policy'',
        require (parseSchedPolicy v) (\<lambda>p. d_resources_update (\<lambda>r. put SchedPolicySet_update True (put SchedPolicy_update p r)))),
      (''sched-priority'',
        require (when_some (\<lambda>n. 1 \<le> n \<and> n \<le> 99) (Atoi v)) (\<lambda>n. d_resources_update (put SchedPriority_update (nat n)))),
      (''sched-runtime'', ns SchedRuntime_update),
      (''sched-deadline'', ns SchedDeadline_update),
      (''sched-period'', ns SchedPeriod_update),
      (''sched-reset-on-fork'',
        require (parseBool v) (\<lambda>b. d_resources_update (\<lambda>r. put SchedResetOnForkSet_update True (put SchedResetOnFork_update b r)))),
      (''mlockall'', require (parseMlockallFlags v) (\<lambda>f. d_resources_update (put MlockallFlags_update (int f)))),
      (''numa-mempolicy'',
        require (parseMempolicyMode v) (\<lambda>m. d_resources_update (\<lambda>r. put NumaMempolicySet_update True (put NumaMempolicy_update m r)))),
      (''numa-nodes'', require (ParseCPUAffinity v) (\<lambda>ns. d_resources_update (put NumaNodes_update ns))),
      (''rlimit-nofile'', limit RlimitNofile_update),
      (''rlimit-core'', limit RlimitCore_update),
      (''rlimit-data'', limit RlimitData_update),
      (''rlimit-as'', limit RlimitAs_update),
      (''rlimit-addrspace'', limit RlimitAs_update),
      (''capabilities'', text Capabilities_update),
      (''capability-bounding-set'', text CapabilityBoundingSet_update),
      (''securebits'', text Securebits_update)])"

section \<open>Load options, extra commands, the default branch\<close>

definition load_option :: "string \<Rightarrow> desc_information \<Rightarrow> desc_information" where
  "load_option opt =
    (if opt = ''export-passwd-vars'' then put ExportPasswdVars_update True
     else if opt = ''export-service-name'' then put ExportServiceName_update True
     else (\<lambda>i. i))"

text \<open>
  \<open>extra-command\<close>: the expanded value is split at white space first; the first word is the name of the
  action and the other words, joined by single spaces, are split again as a command.
\<close>

definition extra_action :: "string \<Rightarrow> (string \<times> string list) option" where
  "extra_action expanded =
    (case Fields expanded of
       name # c # cs \<Rightarrow> Some (name, splitCommand (Join (c # cs) '' ''))
     | _ \<Rightarrow> None)"

definition extra_table ::
  "config_sys \<Rightarrow> string \<Rightarrow> OperatorType \<Rightarrow> string option \<Rightarrow> (string \<times> action) list" where
  "extra_table y v op arg =
    (let x = expandEnvVarsForCommand (sys_env y) v arg in
     [(''inittab-id'', assign (d_information_update (put InittabID_update v))),
      (''inittab-line'', assign (d_information_update (put InittabLine_update v))),
      (''load-options'', assign (d_information_update (fold load_option (Fields v)))),
      (''extra-command'',
        require (extra_action x) (\<lambda>(n, c). d_commands_update (ExtraCommands_update (\<lambda>m. m(n \<mapsto> c))))),
      (''extra-started-command'',
        require (extra_action x) (\<lambda>(n, c). d_commands_update (ExtraStartedCommands_update (\<lambda>m. m(n \<mapsto> c)))))])"

definition apply_control :: "string list \<Rightarrow> OperatorType \<Rightarrow> string \<Rightarrow> ServiceDescription \<Rightarrow> ServiceDescription" where
  "apply_control cmd op sigName =
    (if cmd = [] then (\<lambda>d. d)
     else d_commands_update (ControlCommands_update (\<lambda>m.
       m(sigName \<mapsto> extend op cmd (case m sigName of None \<Rightarrow> [] | Some c \<Rightarrow> c)))))"

definition apply_default ::
  "config_sys \<Rightarrow> string \<Rightarrow> string \<Rightarrow> OperatorType \<Rightarrow> string option \<Rightarrow> action" where
  "apply_default y setting v op arg d =
    (if HasPrefix setting ''control-command-'' then
       Inr (apply_control (splitCommand (expandEnvVarsForCommand (sys_env y) v arg)) op
         (ToUpper (drop (length ''control-command-'') setting)) d)
     else case parsePredicate (sys_env y) setting v arg of
         Some p \<Rightarrow> Inr (d_conditions_update (Predicates_update (appended [p])) d)
       | None \<Rightarrow> Inl UnknownName)"

definition setting_tables ::
  "(config_sys \<Rightarrow> string \<Rightarrow> OperatorType \<Rightarrow> string option \<Rightarrow> (string \<times> action) list) list" where
  "setting_tables =
    [commands_table, namespaces_table, schedule_table, dependencies_table, conditions_table,
     restart_table, logging_table, logpolicy_table, management_table, identity_table, sandbox_table,
     hardening_table, limits_table, terminal_table, inputs_table, directories_table, cgroup_table,
     resources_table, extra_table]"

definition setting_cases :: "config_sys \<Rightarrow> string \<Rightarrow> OperatorType \<Rightarrow> string option \<Rightarrow> (string \<times> action) list" where
  "setting_cases y v op arg = concat (map (\<lambda>t. t y v op arg) setting_tables)"

definition applySetting ::
  "config_sys \<Rightarrow> string \<Rightarrow> string \<Rightarrow> OperatorType \<Rightarrow> string option \<Rightarrow> action" where
  "applySetting y setting v op arg d =
    (case map_of (setting_cases y v op arg) setting of
       Some act \<Rightarrow> act d
     | None \<Rightarrow> apply_default y setting v op arg d)"

end
