(* ===== verification/ConfigSettings.thy ===== *)
theory ConfigSettings
  imports ConfigApply
begin

unbundle bit_operations_syntax

text \<open>
  \<open>pkg/config/settings.go\<close>: the table of the known settings with the operators they accept, and the
  checks the parser makes with it. The table is split into parts along its source. The lemmas say that
  the table and the switch of \<open>applySetting\<close> fit together.
\<close>

definition KnownSettings_1 :: "(string \<times> OperatorType) list" where
  "KnownSettings_1 =
    [(''type'', OpEquals), (''description'', OpEquals), (''author'', OpEquals),
     (''version'', OpEquals), (''usage'', OpEquals), (''depends-on'', OpColon),
     (''depends-ms'', OpColon), (''waits-for'', OpColon), (''prepared-by'', OpColon),
     (''depends-on.d'', OpColon), (''depends-ms.d'', OpColon), (''waits-for.d'', OpColon),
     (''prepared-by.d'', OpColon), (''before'', OpColon), (''after'', OpColon),
     (''bundle-of'', OpEquals OR OpColon), (''log-select'', OpEquals OR OpColon),
     (''command'', OpEquals OR OpPlusEqual), (''command-argv0'', OpEquals),
     (''stop-command'', OpEquals OR OpPlusEqual), (''working-dir'', OpEquals),
     (''env-file'', OpEquals), (''run-as'', OpEquals),
     (''supplementary-groups'', OpEquals OR OpPlusEqual), (''dynamic-user'', OpEquals),
     (''file-descriptor-store-max'', OpEquals), (''manual'', OpEquals),
     (''refuse-manual-start'', OpEquals), (''refuse-manual-stop'', OpEquals),
     (''stop-when-unneeded'', OpEquals), (''restart'', OpEquals), (''smooth-recovery'', OpEquals),
     (''normal-exit'', OpEquals OR OpPlusEqual),
     (''restart-force-exit-status'', OpEquals OR OpPlusEqual), (''stop-timeout'', OpEquals),
     (''start-timeout'', OpEquals), (''timeout-sec'', OpEquals), (''timeout-abort-sec'', OpEquals),
     (''timeout-start-failure-mode'', OpEquals), (''restart-mode'', OpEquals),
     (''exec-condition'', OpEquals), (''exit-type'', OpEquals), (''restart-delay'', OpEquals),
     (''restart-delay-step'', OpEquals), (''restart-delay-cap'', OpEquals),
     (''restart-randomized-delay'', OpEquals), (''restart-max-delay'', OpEquals),
     (''restart-limit-interval'', OpEquals), (''restart-limit-count'', OpEquals),
     (''term-signal'', OpEquals), (''termsignal'', OpEquals), (''stopsig'', OpEquals),
     (''reload-signal'', OpEquals), (''pid-file'', OpEquals), (''ready-notification'', OpEquals),
     (''watchdog-timeout'', OpEquals), (''logfile'', OpEquals), (''log-type'', OpEquals),
     (''log-buffer-size'', OpEquals), (''logfile-permissions'', OpEquals),
     (''logfile-uid'', OpEquals), (''logfile-gid'', OpEquals),
     (''socket-listen'', OpEquals OR OpPlusEqual), (''socket-permissions'', OpEquals),
     (''socket-uid'', OpEquals), (''socket-gid'', OpEquals), (''socket-activation'', OpEquals),
     (''chain-to'', OpEquals), (''options'', OpEquals OR OpPlusEqual), (''provides'', OpEquals),
     (''profile'', OpEquals OR OpPlusEqual), (''consumer-of'', OpEquals OR OpColon),
     (''shared-logger'', OpEquals), (''shared-logger-lossy'', OpEquals),
     (''shared-logger-queue-size'', OpEquals), (''load-options'', OpEquals OR OpPlusEqual),
     (''rlimit-nofile'', OpEquals), (''rlimit-core'', OpEquals), (''rlimit-data'', OpEquals),
     (''rlimit-as'', OpEquals), (''rlimit-addrspace'', OpEquals), (''cgroup'', OpEquals),
     (''slice'', OpEquals), (''run-in-cgroup'', OpEquals), (''cgroup-memory-max'', OpEquals),
     (''cgroup-memory-high'', OpEquals), (''cgroup-memory-min'', OpEquals),
     (''cgroup-memory-low'', OpEquals), (''cgroup-swap-max'', OpEquals),
     (''cgroup-pids-max'', OpEquals), (''cgroup-cpu-weight'', OpEquals),
     (''cgroup-cpu-max'', OpEquals), (''cgroup-io-weight'', OpEquals),
     (''cgroup-cpuset-cpus'', OpEquals), (''cgroup-cpuset-mems'', OpEquals),
     (''cgroup-hugetlb'', OpEquals), (''cgroup-setting'', OpEquals OR OpPlusEqual),
     (''nice'', OpEquals)]"

definition KnownSettings_2 :: "(string \<times> OperatorType) list" where
  "KnownSettings_2 =
    [(''ioprio'', OpEquals), (''oom-score-adj'', OpEquals), (''umask'', OpEquals),
     (''apparmor-load'', OpEquals), (''apparmor-switch'', OpEquals),
     (''runtime-directory'', OpEquals), (''state-directory'', OpEquals),
     (''cache-directory'', OpEquals), (''logs-directory'', OpEquals),
     (''configuration-directory'', OpEquals), (''runtime-directory-mode'', OpEquals),
     (''state-directory-mode'', OpEquals), (''cache-directory-mode'', OpEquals),
     (''logs-directory-mode'', OpEquals), (''configuration-directory-mode'', OpEquals),
     (''runtime-directory-preserve'', OpEquals), (''debug'', OpEquals),
     (''start-on-path-exists'', OpEquals), (''start-on-path-changed'', OpEquals),
     (''start-on-path-modified'', OpEquals), (''start-on-directory-not-empty'', OpEquals),
     (''cpu-affinity'', OpEquals), (''sched-policy'', OpEquals), (''sched-priority'', OpEquals),
     (''sched-runtime'', OpEquals), (''sched-deadline'', OpEquals), (''sched-period'', OpEquals),
     (''sched-reset-on-fork'', OpEquals), (''mlockall'', OpEquals), (''numa-mempolicy'', OpEquals),
     (''numa-nodes'', OpEquals), (''capabilities'', OpEquals OR OpPlusEqual),
     (''capability-bounding-set'', OpEquals OR OpPlusEqual),
     (''securebits'', OpEquals OR OpPlusEqual), (''inittab-id'', OpEquals),
     (''inittab-line'', OpEquals), (''extra-command'', OpEquals),
     (''extra-started-command'', OpEquals), (''finish-command'', OpEquals OR OpPlusEqual),
     (''pre-start-command'', OpEquals OR OpPlusEqual),
     (''post-start-command'', OpEquals OR OpPlusEqual),
     (''ready-check-command'', OpEquals OR OpPlusEqual), (''ready-check-interval'', OpEquals),
     (''pre-stop-hook'', OpEquals OR OpPlusEqual), (''env-dir'', OpEquals),
     (''env-generator'', OpEquals), (''chroot'', OpEquals), (''lock-file'', OpEquals),
     (''new-session'', OpEquals), (''namespace-pid'', OpEquals), (''namespace-mount'', OpEquals),
     (''namespace-net'', OpEquals), (''namespace-uts'', OpEquals), (''namespace-ipc'', OpEquals),
     (''namespace-user'', OpEquals), (''namespace-cgroup'', OpEquals),
     (''namespace-uid-map'', OpEquals OR OpPlusEqual),
     (''namespace-gid-map'', OpEquals OR OpPlusEqual), (''close-stdin'', OpEquals),
     (''close-stdout'', OpEquals), (''close-stderr'', OpEquals),
     (''required-files'', OpEquals OR OpPlusEqual), (''required-dirs'', OpEquals OR OpPlusEqual),
     (''system-call-filter'', OpEquals OR OpPlusEqual),
     (''system-call-architectures'', OpEquals OR OpPlusEqual),
     (''system-call-error-number'', OpEquals), (''system-call-log'', OpEquals OR OpPlusEqual),
     (''protect-kernel-tunables'', OpEquals), (''protect-kernel-modules'', OpEquals),
     (''protect-kernel-logs'', OpEquals), (''protect-clock'', OpEquals),
     (''protect-control-groups'', OpEquals), (''protect-hostname'', OpEquals),
     (''lock-personality'', OpEquals), (''coredump-filter'', OpEquals),
     (''timer-slack-nsec'', OpEquals), (''memory-ksm'', OpEquals), (''remove-ipc'', OpEquals),
     (''ignore-sigpipe'', OpEquals), (''personality'', OpEquals), (''utmp-mode'', OpEquals),
     (''cpuset-partition'', OpEquals), (''cache-directory-quota'', OpEquals),
     (''logs-directory-quota'', OpEquals), (''state-directory-quota'', OpEquals),
     (''cache-directory-accounting'', OpEquals), (''logs-directory-accounting'', OpEquals),
     (''state-directory-accounting'', OpEquals), (''startup-allowed-cpus'', OpEquals),
     (''startup-allowed-memory-nodes'', OpEquals), (''timeout-stop-failure-mode'', OpEquals),
     (''watchdog-signal'', OpEquals), (''final-kill-signal'', OpEquals),
     (''survive-final-kill-signal'', OpEquals)]"

definition KnownSettings_3 :: "(string \<times> OperatorType) list" where
  "KnownSettings_3 =
    [(''restart-kill-signal'', OpEquals), (''kill-mode'', OpEquals),
     (''pass-environment'', OpEquals OR OpPlusEqual),
     (''unset-environment'', OpEquals OR OpPlusEqual), (''exec-search-path'', OpEquals),
     (''standard-input-text'', OpEquals OR OpPlusEqual),
     (''standard-input-data'', OpEquals OR OpPlusEqual), (''open-file'', OpEquals OR OpPlusEqual),
     (''import-credential'', OpEquals OR OpPlusEqual), (''notify-access'', OpEquals),
     (''guess-main-pid'', OpEquals), (''selinux-context'', OpEquals),
     (''smack-process-label'', OpEquals), (''bus-name'', OpEquals), (''bus-policy'', OpEquals),
     (''bus-name-scope'', OpEquals), (''tty-path'', OpEquals), (''tty-columns'', OpEquals),
     (''tty-rows'', OpEquals), (''tty-vhangup'', OpEquals), (''tty-vt-disallocate'', OpEquals),
     (''tty-reset'', OpEquals), (''restrict-realtime'', OpEquals),
     (''restrict-namespaces'', OpEquals), (''restrict-suidsgid'', OpEquals),
     (''restrict-file-systems'', OpEquals),
     (''restrict-address-families'', OpEquals OR OpPlusEqual),
     (''memory-deny-write-execute'', OpEquals), (''private-tmp'', OpEquals),
     (''protect-system'', OpEquals), (''read-only-paths'', OpEquals OR OpPlusEqual),
     (''read-write-paths'', OpEquals OR OpPlusEqual), (''protect-home'', OpEquals),
     (''inaccessible-paths'', OpEquals OR OpPlusEqual), (''protect-proc'', OpEquals),
     (''proc-subset'', OpEquals), (''bind-paths'', OpEquals OR OpPlusEqual),
     (''bind-read-only-paths'', OpEquals OR OpPlusEqual),
     (''temporary-filesystem'', OpEquals OR OpPlusEqual), (''vtty'', OpEquals),
     (''vtty-scrollback'', OpEquals), (''cron-command'', OpEquals OR OpPlusEqual),
     (''cron-interval'', OpEquals), (''cron-on-unit-active'', OpEquals), (''cron-delay'', OpEquals),
     (''cron-on-active'', OpEquals), (''cron-on-error'', OpEquals), (''cron-calendar'', OpEquals),
     (''cron-randomized-delay'', OpEquals), (''cron-accuracy-sec'', OpEquals),
     (''cron-persistent'', OpEquals), (''healthcheck-command'', OpEquals OR OpPlusEqual),
     (''healthcheck-interval'', OpEquals), (''healthcheck-delay'', OpEquals),
     (''healthcheck-max-failures'', OpEquals), (''unhealthy-command'', OpEquals OR OpPlusEqual),
     (''keyword'', OpEquals), (''output-logger'', OpEquals OR OpPlusEqual),
     (''error-logger'', OpEquals OR OpPlusEqual), (''logfile-max-size'', OpEquals),
     (''logfile-max-files'', OpEquals), (''logfile-min-files'', OpEquals),
     (''logfile-rotate-time'', OpEquals), (''log-processor'', OpEquals OR OpPlusEqual),
     (''log-include'', OpEquals), (''log-exclude'', OpEquals),
     (''log-rate-limit-interval'', OpEquals), (''log-rate-limit-burst'', OpEquals),
     (''log-level-max'', OpEquals), (''log-sanitize'', OpEquals),
     (''log-sanitize-extra'', OpEquals), (''log-max-line-length'', OpEquals),
     (''log-timestamp'', OpEquals), (''log-line-prefix'', OpEquals),
     (''log-read-buffer-size'', OpEquals), (''log-forward-udp'', OpEquals),
     (''log-forward-format'', OpEquals), (''log-forward-facility'', OpEquals),
     (''log-forward-tag'', OpEquals), (''alert-file'', OpEquals), (''alert-level'', OpEquals),
     (''failure-action'', OpEquals), (''success-action'', OpEquals),
     (''start-limit-action'', OpEquals), (''reboot-argument'', OpEquals),
     (''runtime-max-sec'', OpEquals), (''runtime-randomized-extra'', OpEquals),
     (''job-timeout-sec'', OpEquals), (''oom-policy'', OpEquals),
     (''memory-pressure-watch'', OpEquals), (''memory-pressure-threshold'', OpEquals),
     (''cpu-pressure-watch'', OpEquals)]"

definition KnownSettings_4 :: "(string \<times> OperatorType) list" where
  "KnownSettings_4 =
    [(''cpu-pressure-threshold'', OpEquals), (''io-pressure-watch'', OpEquals),
     (''io-pressure-threshold'', OpEquals), (''memory-thp'', OpEquals),
     (''file-descriptor-store-preserve'', OpEquals), (''load-credential'', OpEquals OR OpPlusEqual),
     (''set-credential'', OpEquals OR OpPlusEqual)]"

definition KnownSettings :: "(string \<times> OperatorType) list" where
  "KnownSettings = KnownSettings_1 @ KnownSettings_2 @ KnownSettings_3 @ KnownSettings_4"

definition isPredicateSetting :: "string \<Rightarrow> bool" where
  "isPredicateSetting name \<longleftrightarrow> HasPrefix name ''condition-'' \<or> HasPrefix name ''assert-''"

definition IsKnownSetting :: "string \<Rightarrow> bool" where
  "IsKnownSetting name \<longleftrightarrow>
    map_of KnownSettings name \<noteq> None \<or> HasPrefix name ''control-command-'' \<or> isPredicateSetting name"

definition ValidOperator :: "string \<Rightarrow> OperatorType \<Rightarrow> bool" where
  "ValidOperator setting op \<longleftrightarrow>
    (case map_of KnownSettings setting of
       Some allowed \<Rightarrow> allowed AND op \<noteq> 0
     | None \<Rightarrow>
         if HasPrefix setting ''control-command-'' then (OpEquals OR OpPlusEqual) AND op \<noteq> 0
         else if isPredicateSetting setting then op AND OpEquals \<noteq> 0
         else False)"

section \<open>The table and the switch\<close>

subsection \<open>The names of the cases\<close>

lemmas table_defs =
  commands_table_def namespaces_table_def schedule_table_def dependencies_table_def
  conditions_table_def restart_table_def logging_table_def logpolicy_table_def management_table_def
  identity_table_def sandbox_table_def hardening_table_def limits_table_def terminal_table_def
  inputs_table_def directories_table_def cgroup_table_def cgroup_knobs_def resources_table_def
  extra_table_def

text \<open>The names do not depend on the value, the operator or the platform.\<close>

definition plain_sys :: config_sys where
  "plain_sys = \<lparr>sys_env = Map.empty, sys_float = Map.empty, sys_duration = Map.empty,
    sys_nums = Map.empty, sys_goarch = ''amd64''\<rparr>"

definition case_names :: "string list" where
  "case_names = map fst (setting_cases plain_sys [] OpEquals None)"

lemma case_names_all: "map fst (setting_cases y v op arg) = case_names"
  unfolding case_names_def setting_cases_def setting_tables_def table_defs Let_def by simp

lemma known_subset_cases:
  assumes "list_all P case_names" "P ''exec-condition''"
  shows "list_all P (map fst KnownSettings)"
  using assms
  unfolding KnownSettings_def KnownSettings_1_def KnownSettings_2_def KnownSettings_3_def KnownSettings_4_def
    case_names_def setting_cases_def setting_tables_def table_defs Let_def
  by simp

lemma cases_subset_known:
  assumes "list_all P (map fst KnownSettings)"
  shows "list_all P (''exec-condition'' # case_names)"
  using assms
  unfolding KnownSettings_def KnownSettings_1_def KnownSettings_2_def KnownSettings_3_def KnownSettings_4_def
    case_names_def setting_cases_def setting_tables_def table_defs Let_def
  by simp

lemma known_names: "set (map fst KnownSettings) = insert ''exec-condition'' (set case_names)"
proof
  show "set (map fst KnownSettings) \<subseteq> insert ''exec-condition'' (set case_names)"
    using known_subset_cases [of "\<lambda>n. n \<in> insert ''exec-condition'' (set case_names)"]
    unfolding list_all_iff by (intro subsetI) blast
  show "insert ''exec-condition'' (set case_names) \<subseteq> set (map fst KnownSettings)"
    using cases_subset_known [of "\<lambda>n. n \<in> set (map fst KnownSettings)"]
    unfolding list_all_iff by (intro subsetI) auto
qed

subsection \<open>A case never reports an unknown name\<close>

definition knows :: "action \<Rightarrow> bool" where
  "knows act \<longleftrightarrow> (\<forall>d. act d \<noteq> Inl UnknownName)"

lemma knows_simps [simp]:
  "knows (assign f)" "knows (require r g)" "knows (guarded b f)" "knows (apply_trigger v n)"
  "knows (apply_min_files v)" "knows (apply_calendar v)"
  by (auto simp: knows_def assign_def require_def guarded_def apply_trigger_def apply_min_files_def
      apply_calendar_def split: option.splits sum.splits)

lemma knows_options: "options_loop opts d \<noteq> Inl UnknownName"
  by (induction opts d rule: options_loop.induct) (auto split: option.splits)

lemma knows_cases [simp]:
  "knows (applyType v)" "knows (applyRestart v)" "knows (applyLogType v)" "knows (applyOptions v b)"
  "knows (\<lambda>d. parseReadyNotification v (f d))"
  "knows (\<lambda>d. if p d then Inl Rejected else assign f d)"
  by (simp_all add: applyType_def applyRestart_def applyLogType_def applyOptions_def knows_options
      knows_def parseReadyNotification_def Let_def assign_def require_def guarded_def split: option.splits)

lemma cases_know: "list_all (\<lambda>(n, act). knows act) (setting_cases y v op arg)"
  unfolding setting_cases_def setting_tables_def table_defs Let_def by simp

lemma case_lookup:
  "map_of (setting_cases y v op arg) s = None \<longleftrightarrow> s \<notin> set case_names"
  by (metis case_names_all map_of_eq_None_iff set_map)

lemma case_knows: "map_of (setting_cases y v op arg) s = Some act \<Longrightarrow> act d \<noteq> Inl UnknownName"
  using cases_know [of y v op arg] by (fastforce simp: list_all_iff knows_def dest: map_of_SomeD)

lemma cases_no_prefix:
  "list_all (\<lambda>s. \<not> HasPrefix s ''control-command-'' \<and> \<not> isPredicateSetting s \<and> s \<noteq> ''exec-condition'') case_names"
  unfolding case_names_def setting_cases_def setting_tables_def table_defs Let_def isPredicateSetting_def
  by simp

lemma IsKnownSetting_cases:
  "IsKnownSetting s \<longleftrightarrow> s \<in> set case_names \<or> s = ''exec-condition'' \<or>
    HasPrefix s ''control-command-'' \<or> isPredicateSetting s"
  using known_names by (auto simp: IsKnownSetting_def map_of_eq_None_iff)

lemma predicate_name_None: "predicate_name s = None \<longleftrightarrow> \<not> isPredicateSetting s"
  by (simp add: predicate_name_def isPredicateSetting_def)

lemma settings_agree:
  "applySetting y s v op arg d \<noteq> Inl UnknownName \<longleftrightarrow>
    IsKnownSetting s \<and>
    (map_of KnownSettings s \<noteq> None \<or> HasPrefix s ''control-command-'' \<or> parsePredicate (sys_env y) s v arg \<noteq> None)"
proof (cases "s \<in> set case_names")
  case True
  then obtain act where "map_of (setting_cases y v op arg) s = Some act"
    using case_lookup [of y v op arg s] by auto
  moreover have "map_of KnownSettings s \<noteq> None"
    using True known_names by (auto simp: map_of_eq_None_iff)
  ultimately show ?thesis
    using case_knows [of y v op arg s act d] by (simp add: applySetting_def IsKnownSetting_def)
next
  case False
  have m: "map_of KnownSettings s \<noteq> None \<longleftrightarrow> s = ''exec-condition''"
    using False known_names by (auto simp: map_of_eq_None_iff)
  have p: "parsePredicate (sys_env y) s v arg \<noteq> None \<Longrightarrow> s = ''exec-condition'' \<or> isPredicateSetting s"
    using predicate_name_None [of s]
    by (auto simp: parsePredicate_def isPredicateSetting_def split: if_splits option.splits)
  have "applySetting y s v op arg d = apply_default y s v op arg d"
    using False case_lookup [of y v op arg s] by (simp add: applySetting_def)
  then show ?thesis
    using m p by (auto simp: apply_default_def IsKnownSetting_def parsePredicate_def split: option.splits)
qed

text \<open>
  Property C24. The table of settings and the switch agree: \<open>applySetting\<close> recognises a name exactly when
  the parser's check \<open>IsKnownSetting\<close> accepts it and it is a name of the table, a control command, or a
  predicate whose kind exists. So a setting that passed the check is never refused as unknown by the
  switch, except a \<open>condition-\<close> or \<open>assert-\<close> setting of an unknown kind, and the switch has no case
  that the check makes unreachable.
\<close>

theorem known_settings_are_applied:
  "applySetting y s v op arg d \<noteq> Inl UnknownName \<longleftrightarrow>
    IsKnownSetting s \<and>
    ((\<exists>ops. map_of KnownSettings s = Some ops) \<or> HasPrefix s ''control-command-'' \<or>
     (\<exists>p. parsePredicate (sys_env y) s v arg = Some p))"
  using settings_agree [of y s v op arg d] by simp

end
