(* ===== verification/ConfigValid.thy ===== *)
theory ConfigValid
  imports ConfigSettings
begin

text \<open>
  The invariant of a service description: what holds of every field that the rest of the daemon uses
  without checking it again. \<open>desc_ok\<close> is the conjunction of one predicate per group of fields, and
  every action of \<open>applySetting\<close> keeps it.
\<close>

named_theorems ok_intros

section \<open>The invariant\<close>

definition id_mapping_ok :: "IDMapping \<Rightarrow> bool" where
  "id_mapping_ok m \<longleftrightarrow> 0 \<le> ContainerID m \<and> 0 \<le> HostID m \<and> 0 < Size m"

definition exit_code_ok :: "int \<Rightarrow> bool" where
  "exit_code_ok c \<longleftrightarrow> 0 \<le> c \<and> c \<le> 255"

definition level_ok :: "int \<Rightarrow> bool" where
  "level_ok n \<longleftrightarrow> - 1 \<le> n \<and> n \<le> 7"

definition optional_name :: "string \<Rightarrow> bool" where
  "optional_name n \<longleftrightarrow> n = [] \<or> valid_service_name n"

definition mode_ok :: "nat option \<Rightarrow> bool" where
  "mode_ok m \<longleftrightarrow> (case m of None \<Rightarrow> True | Some k \<Rightarrow> k \<le> 511)"

definition within :: "int \<Rightarrow> int \<Rightarrow> int option \<Rightarrow> bool" where
  "within lo hi r \<longleftrightarrow> (case r of None \<Rightarrow> True | Some n \<Rightarrow> lo \<le> n \<and> n \<le> hi)"

definition optional_path :: "string \<Rightarrow> bool" where
  "optional_path p \<longleftrightarrow> p = [] \<or> IsAbs p"

definition protect_ok :: "string \<Rightarrow> string \<Rightarrow> bool" where
  "protect_ok sy home \<longleftrightarrow>
    sy \<in> {[], ''yes'', ''full'', ''strict''} \<and> home \<in> {[], ''yes'', ''read-only'', ''tmpfs''}"

definition error_number_ok :: "string \<Rightarrow> bool" where
  "error_number_ok e \<longleftrightarrow> e = [] \<or> \<not> isl (ParseAction e)"

definition cpus_ok :: "nat list \<Rightarrow> bool" where
  "cpus_ok cs \<longleftrightarrow> distinct cs \<and> (\<forall>c \<in> set cs. c < 2 ^ 32)"

definition relative_dir :: "string \<Rightarrow> bool" where
  "relative_dir n \<longleftrightarrow> n \<noteq> [] \<and> \<not> IsAbs n \<and> no_dotdot n \<and> ''.'' \<notin> set (Split n (CHR ''/''))"

definition bind_ok :: "string \<Rightarrow> bool" where
  "bind_ok e \<longleftrightarrow> (\<exists>src dst. e = src @ '':'' @ dst \<and> sandboxed src \<and> sandboxed dst)"

definition commands_ok :: "desc_commands \<Rightarrow> bool" where
  "commands_ok c \<longleftrightarrow> (ScriptBlock c \<longrightarrow> (\<exists>script. Command c = [''/bin/sh'', ''-c'', script]))"

definition namespaces_ok :: "desc_namespaces \<Rightarrow> bool" where
  "namespaces_ok n \<longleftrightarrow> list_all id_mapping_ok (NamespaceUidMap n) \<and> list_all id_mapping_ok (NamespaceGidMap n)"

definition dependencies_ok :: "desc_dependencies \<Rightarrow> bool" where
  "dependencies_ok g \<longleftrightarrow>
    list_all valid_service_name (DependsOn g) \<and> list_all valid_service_name (DependsMS g) \<and>
    list_all valid_service_name (WaitsFor g) \<and> list_all valid_service_name (PreparedBy g) \<and>
    list_all valid_service_name (Before g) \<and> list_all valid_service_name (After g) \<and>
    list_all valid_service_name (BundleMembers g)"

definition behavior_ok :: "desc_behavior \<Rightarrow> bool" where
  "behavior_ok b \<longleftrightarrow> list_all exit_code_ok (NormalExitCodes b) \<and> list_all exit_code_ok (RestartForceExitCodes b)"

definition logging_ok :: "desc_logging \<Rightarrow> bool" where
  "logging_ok l \<longleftrightarrow> 0 \<le> LogMinFiles l \<and> list_all log_select_token (LogSelect l)"

text \<open>A field of the log policy is unset or has a value the code accepts.\<close>

definition sanitize_ok :: "char \<Rightarrow> bool" where
  "sanitize_ok c \<longleftrightarrow> c = CHR 0x00 \<or> printable c"

definition line_length_ok :: "int \<Rightarrow> bool" where
  "line_length_ok n \<longleftrightarrow> n = 0 \<or> 16 \<le> n"

definition buffer_size_ok :: "int \<Rightarrow> bool" where
  "buffer_size_ok n \<longleftrightarrow> n = 0 \<or> 512 \<le> n \<and> n \<le> 1048576"

definition facility_set :: "string \<Rightarrow> bool" where
  "facility_set f \<longleftrightarrow> f = [] \<or> 0 \<le> SyslogFacilityCode f"

definition forward_ok :: "string \<Rightarrow> bool" where
  "forward_ok hp \<longleftrightarrow> hp = [] \<or> SplitHostPort hp \<noteq> None"

definition logpolicy_ok :: "desc_logpolicy \<Rightarrow> bool" where
  "logpolicy_ok l \<longleftrightarrow>
    0 \<le> LogRateLimitInterval l \<and> 0 \<le> LogRateLimitBurst l \<and> level_ok (LogLevelMax l) \<and>
    level_ok (AlertLevel l) \<and> sanitize_ok (LogSanitizeChar l) \<and> line_length_ok (LogMaxLineLength l) \<and>
    buffer_size_ok (LogReadBufferSize l) \<and> facility_set (LogForwardFacility l) \<and> forward_ok (LogForwardUDP l)"

definition management_ok :: "desc_management \<Rightarrow> bool" where
  "management_ok m \<longleftrightarrow>
    0 \<le> TimeoutAbortSec m \<and> 0 \<le> RestartDelayStep m \<and> 0 \<le> RestartDelayCap m \<and>
    0 \<le> RestartRandomizedDelay m \<and> 0 \<le> RestartMaxDelay m \<and> - 1 \<le> ReadyNotifyFD m \<and>
    0 \<le> WatchdogTimeout m"

definition identity_ok :: "desc_identity \<Rightarrow> bool" where
  "identity_ok i \<longleftrightarrow>
    0 \<le> FileDescriptorStoreMax i \<and> 0 \<le> SharedLoggerQueueSize i \<and> optional_name (ChainTo i) \<and>
    optional_name (ConsumerOf i) \<and> optional_name (SharedLogger i) \<and> list_all valid_service_name (Profiles i)"

definition attributes_ok :: "desc_attributes \<Rightarrow> bool" where
  "attributes_ok a \<longleftrightarrow>
    within (- 20) 19 (Nice a) \<and> within (- 1000) 1000 (OOMScoreAdj a) \<and> mode_ok (Umask a) \<and>
    optional_path (AppArmorLoad a) \<and> cpus_ok (CPUAffinity a)"

definition directories_ok :: "desc_directories \<Rightarrow> bool" where
  "directories_ok g \<longleftrightarrow>
    list_all relative_dir (RuntimeDirs g) \<and> list_all relative_dir (StateDirs g) \<and>
    list_all relative_dir (CacheDirs g) \<and> list_all relative_dir (LogsDirs g) \<and>
    list_all relative_dir (ConfigDirs g) \<and> mode_ok (RuntimeDirMode g) \<and> mode_ok (StateDirMode g) \<and>
    mode_ok (CacheDirMode g) \<and> mode_ok (LogsDirMode g) \<and> mode_ok (ConfigDirMode g) \<and>
    0 \<le> RuntimeDirPreserve g \<and> RuntimeDirPreserve g \<le> 2 \<and>
    0 \<le> StartOnPathTrigger g \<and> StartOnPathTrigger g \<le> 4 \<and>
    (StartOnPathTrigger g = 0 \<or> IsAbs (StartOnPath g))"

definition resources_ok :: "desc_resources \<Rightarrow> bool" where
  "resources_ok r \<longleftrightarrow> SchedPriority r \<le> 99 \<and> cpus_ok (NumaNodes r)"

definition schedule_ok :: "desc_schedule \<Rightarrow> bool" where
  "schedule_ok s \<longleftrightarrow>
    0 \<le> CronRandomizedDelay s \<and> 0 \<le> CronAccuracy s \<and> 0 \<le> HealthCheckMaxFail s \<and>
    CronOnError s \<in> {[], ''continue'', ''stop''}"

definition conditions_ok :: "desc_conditions \<Rightarrow> bool" where
  "conditions_ok c \<longleftrightarrow>
    0 \<le> RuntimeRandomizedExtra c \<and> 0 \<le> JobTimeoutSec c \<and> list_all (\<lambda>x. cred_Name x \<noteq> []) (Credentials c)"

definition sandbox_ok :: "config_sys \<Rightarrow> desc_sandbox \<Rightarrow> bool" where
  "sandbox_ok y s \<longleftrightarrow>
    list_all sandboxed (ReadOnlyPaths s) \<and> list_all sandboxed (ReadWritePaths s) \<and>
    list_all sandboxed (InaccessiblePaths s) \<and> list_all bind_ok (BindPaths s) \<and>
    list_all bind_ok (BindReadOnlyPaths s) \<and>
    protect_ok (ProtectSystem s) (ProtectHome s) \<and>
    list_all (\<lambda>a. ResolveArch (sys_goarch y) a \<noteq> None) (SystemCallArchitectures s) \<and>
    error_number_ok (SystemCallErrorNumber s)"

definition hardening_ok :: "desc_hardening \<Rightarrow> bool" where
  "hardening_ok h \<longleftrightarrow> 0 \<le> TimerSlackNsec h \<and> TimerSlackNsec h < 2 ^ 63"

definition inputs_ok :: "desc_inputs \<Rightarrow> bool" where
  "inputs_ok i \<longleftrightarrow> list_all (\<lambda>f. IsAbs (of_Path f) \<and> of_FDName f \<noteq> []) (OpenFiles i)"

definition terminal_ok :: "desc_terminal \<Rightarrow> bool" where
  "terminal_ok t \<longleftrightarrow>
    (BusName t = [] \<or> isValidDBusName (BusName t)) \<and> (TTYPath t = [] \<or> IsAbs (TTYPath t)) \<and>
    TTYColumns t < 2 ^ 16 \<and> TTYRows t < 2 ^ 16"

definition desc_ok :: "config_sys \<Rightarrow> ServiceDescription \<Rightarrow> bool" where
  "desc_ok y d \<longleftrightarrow>
    commands_ok (d_commands d) \<and> namespaces_ok (d_namespaces d) \<and> dependencies_ok (d_dependencies d) \<and>
    behavior_ok (d_behavior d) \<and> logging_ok (d_logging d) \<and> logpolicy_ok (d_logpolicy d) \<and>
    management_ok (d_management d) \<and> identity_ok (d_identity d) \<and> attributes_ok (d_attributes d) \<and>
    directories_ok (d_directories d) \<and> resources_ok (d_resources d) \<and> schedule_ok (d_schedule d) \<and>
    conditions_ok (d_conditions d) \<and> sandbox_ok y (d_sandbox d) \<and> hardening_ok (d_hardening d) \<and>
    inputs_ok (d_inputs d) \<and> terminal_ok (d_terminal d)"

lemmas element_ok_defs =
  id_mapping_ok_def exit_code_ok_def level_ok_def optional_name_def mode_ok_def cpus_ok_def
  sanitize_ok_def line_length_ok_def buffer_size_ok_def facility_set_def forward_ok_def
  within_def optional_path_def protect_ok_def error_number_ok_def

lemmas group_ok_defs =
  commands_ok_def namespaces_ok_def dependencies_ok_def behavior_ok_def logging_ok_def
  logpolicy_ok_def management_ok_def identity_ok_def attributes_ok_def directories_ok_def
  resources_ok_def schedule_ok_def conditions_ok_def sandbox_ok_def hardening_ok_def inputs_ok_def
  terminal_ok_def

lemma desc_ok_new: "desc_ok y (NewServiceDescription name)"
  by (simp add: desc_ok_def NewServiceDescription_def new_defs group_ok_defs element_ok_defs)

section \<open>Updates that keep it\<close>

definition ok_update :: "config_sys \<Rightarrow> (ServiceDescription \<Rightarrow> ServiceDescription) \<Rightarrow> bool" where
  "ok_update y f \<longleftrightarrow> (\<forall>d. desc_ok y d \<longrightarrow> desc_ok y (f d))"

definition ok_action :: "config_sys \<Rightarrow> action \<Rightarrow> bool" where
  "ok_action y act \<longleftrightarrow> (\<forall>d d'. desc_ok y d \<longrightarrow> act d = Inr d' \<longrightarrow> desc_ok y d')"

lemma ok_assign [ok_intros]: "ok_update y f \<Longrightarrow> ok_action y (assign f)"
  by (simp add: ok_update_def ok_action_def assign_def)

lemma ok_require [ok_intros]: "(\<And>x. r = Some x \<Longrightarrow> ok_update y (f x)) \<Longrightarrow> ok_action y (require r f)"
  by (auto simp: ok_update_def ok_action_def require_def split: option.splits)

lemma ok_guarded [ok_intros]: "(b \<Longrightarrow> ok_update y f) \<Longrightarrow> ok_action y (guarded b f)"
  by (simp add: ok_update_def ok_action_def guarded_def)

lemma ok_groups:
  "(\<And>g. commands_ok g \<Longrightarrow> commands_ok (f1 g)) \<Longrightarrow> ok_update y (d_commands_update f1)"
  "(\<And>g. namespaces_ok g \<Longrightarrow> namespaces_ok (f2 g)) \<Longrightarrow> ok_update y (d_namespaces_update f2)"
  "(\<And>g. dependencies_ok g \<Longrightarrow> dependencies_ok (f3 g)) \<Longrightarrow> ok_update y (d_dependencies_update f3)"
  "(\<And>g. behavior_ok g \<Longrightarrow> behavior_ok (f4 g)) \<Longrightarrow> ok_update y (d_behavior_update f4)"
  "(\<And>g. logging_ok g \<Longrightarrow> logging_ok (f5 g)) \<Longrightarrow> ok_update y (d_logging_update f5)"
  "(\<And>g. logpolicy_ok g \<Longrightarrow> logpolicy_ok (f6 g)) \<Longrightarrow> ok_update y (d_logpolicy_update f6)"
  "(\<And>g. management_ok g \<Longrightarrow> management_ok (f7 g)) \<Longrightarrow> ok_update y (d_management_update f7)"
  "(\<And>g. identity_ok g \<Longrightarrow> identity_ok (f8 g)) \<Longrightarrow> ok_update y (d_identity_update f8)"
  "(\<And>g. attributes_ok g \<Longrightarrow> attributes_ok (f9 g)) \<Longrightarrow> ok_update y (d_attributes_update f9)"
  "(\<And>g. directories_ok g \<Longrightarrow> directories_ok (f10 g)) \<Longrightarrow> ok_update y (d_directories_update f10)"
  "(\<And>g. resources_ok g \<Longrightarrow> resources_ok (f11 g)) \<Longrightarrow> ok_update y (d_resources_update f11)"
  "(\<And>g. schedule_ok g \<Longrightarrow> schedule_ok (f12 g)) \<Longrightarrow> ok_update y (d_schedule_update f12)"
  "(\<And>g. conditions_ok g \<Longrightarrow> conditions_ok (f13 g)) \<Longrightarrow> ok_update y (d_conditions_update f13)"
  "(\<And>g. sandbox_ok y g \<Longrightarrow> sandbox_ok y (f14 g)) \<Longrightarrow> ok_update y (d_sandbox_update f14)"
  "(\<And>g. hardening_ok g \<Longrightarrow> hardening_ok (f15 g)) \<Longrightarrow> ok_update y (d_hardening_update f15)"
  "(\<And>g. inputs_ok g \<Longrightarrow> inputs_ok (f16 g)) \<Longrightarrow> ok_update y (d_inputs_update f16)"
  "(\<And>g. terminal_ok g \<Longrightarrow> terminal_ok (f17 g)) \<Longrightarrow> ok_update y (d_terminal_update f17)"
  "ok_update y (d_execution_update f18)" "ok_update y (d_information_update f19)"
  "ok_update y (d_limits_update f20)"
  by (simp_all add: ok_update_def desc_ok_def)

declare ok_groups [ok_intros]

lemma ok_update_comp: "ok_update y f \<Longrightarrow> ok_update y g \<Longrightarrow> ok_update y (\<lambda>d. f (g d))"
  by (simp add: ok_update_def)

lemma ok_set_log_type: "ok_update y (set_log_type t)"
  by (auto simp: ok_update_def set_log_type_def desc_ok_def logging_ok_def put_def)

section \<open>The settings keep it\<close>

lemma list_all_extend [simp]:
  "list_all P (extend op new old) \<longleftrightarrow> list_all P new \<and> (op = OpPlusEqual \<longrightarrow> list_all P old)"
  "list_all P (replace op new old) \<longleftrightarrow> list_all P new \<and> (op \<noteq> OpEquals \<longrightarrow> list_all P old)"
  "list_all P (appended new old) \<longleftrightarrow> list_all P new \<and> list_all P old"
  by (auto simp: extend_def replace_def appended_def)

lemma when_some_Some: "when_some p r = Some x \<longleftrightarrow> r = Some x \<and> p x"
  by (auto simp: when_some_def split: option.splits if_splits)

lemma ParseLogLevel_level: "ParseLogLevel v = Some n \<Longrightarrow> level_ok n"
  by (simp add: ParseLogLevel_def Let_def level_ok_def split: if_splits)

lemma ParseIDMapping_ok: "ParseIDMapping v = Some m \<Longrightarrow> id_mapping_ok m"
  by (auto simp: ParseIDMapping_def id_mapping_ok_def split: option.splits if_splits)

lemma parseNormalExit_ok:
  "parseNormalExit v = Some (codes, sigs) \<Longrightarrow> list_all exit_code_ok codes"
  using parseNormalExit_range by (auto simp: list_all_iff exit_code_ok_def)

lemma ParseCPUAffinity_ok: "ParseCPUAffinity v = Some cs \<Longrightarrow> cpus_ok cs"
  using ParseCPUAffinity_good by (auto simp: cpus_ok_def)

lemma facility_ok: "map_of syslogFacilityByName v = Some k \<Longrightarrow> 0 \<le> SyslogFacilityCode v"
  by (auto simp: SyslogFacilityCode_def syslogFacilityByName_def split: if_splits)

lemma log_field_ok:
  "printable c \<Longrightarrow> sanitize_ok c" "16 \<le> n \<Longrightarrow> line_length_ok n"
  "512 \<le> n \<Longrightarrow> n \<le> 1048576 \<Longrightarrow> buffer_size_ok n"
  "map_of syslogFacilityByName v = Some k \<Longrightarrow> facility_set v" "SplitHostPort v = Some hp \<Longrightarrow> forward_ok v"
  using facility_ok
  by (auto simp: sanitize_ok_def line_length_ok_def buffer_size_ok_def facility_set_def forward_ok_def)

lemma parseOpenFile_ok: "parseOpenFile v = Some f \<Longrightarrow> IsAbs (of_Path f) \<and> of_FDName f \<noteq> []"
  by (auto simp: parseOpenFile_def IsAbs_def Base_def Let_def split: if_splits option.splits prod.splits)

lemma parseSandboxPaths_ok: "parseSandboxPaths env v arg = Some ps \<Longrightarrow> list_all sandboxed ps"
  using parseSandboxPaths_sandboxed by (auto simp: list_all_iff)

lemma parseBindEntries_ok: "parseBindEntries env v arg = Some ps \<Longrightarrow> list_all bind_ok ps"
  using parseBindEntries_sandboxed by (auto simp: list_all_iff bind_ok_def)

lemma parseServiceDirNames_ok: "parseServiceDirNames env v arg = Some ns \<Longrightarrow> list_all relative_dir ns"
  using parseServiceDirNames_relative by (auto simp: list_all_iff relative_dir_def)

lemma ParseInt_base0_range: "ParseInt_base0 v 64 = Some n \<Longrightarrow> n < 2 ^ 63"
  using signed_range_bounds [of "ParseUint_base0 64" 64 v n] by (simp add: ParseInt_base0_def)

lemmas parser_ok =
  ParseLogLevel_level ParseIDMapping_ok parseNormalExit_ok ParseCPUAffinity_ok parseOpenFile_ok
  parseSandboxPaths_ok parseBindEntries_ok parseServiceDirNames_ok ParseInt_base0_range parseDirMode_range

lemma ok_command:
  "ok_action y (\<lambda>d. if ScriptBlock (d_commands d) then Inl Rejected
     else assign (d_commands_update (Command_update f)) d)"
  by (auto simp: ok_action_def assign_def desc_ok_def commands_ok_def)

lemma ok_type: "ok_action y (applyType v)"
  by (auto simp: ok_action_def applyType_def require_def Let_def put_def desc_ok_def behavior_ok_def
      split: option.splits)

lemma ok_commands_table: "list_all (\<lambda>(n, act). ok_action y act) (commands_table y v op arg)"
  unfolding commands_table_def Let_def list.pred_inject prod.case
  by (intro conjI ok_intros ok_command ok_type TrueI) (simp_all add: commands_ok_def attributes_ok_def put_def)

lemma ok_namespaces_table: "list_all (\<lambda>(n, act). ok_action y act) (namespaces_table y v op arg)"
  unfolding namespaces_table_def Let_def list.pred_inject prod.case
  by (intro conjI ok_intros TrueI) (auto simp: namespaces_ok_def put_def dest: parser_ok)

lemma ok_calendar: "ok_action y (apply_calendar v)"
  by (auto simp: ok_action_def apply_calendar_def desc_ok_def schedule_ok_def put_def
      split: option.splits sum.splits)

lemma ok_schedule_table: "list_all (\<lambda>(n, act). ok_action y act) (schedule_table y v op arg)"
  unfolding schedule_table_def Let_def list.pred_inject prod.case
  by (intro conjI ok_intros ok_calendar TrueI) (auto simp: schedule_ok_def put_def when_some_Some)

lemma ok_dependencies_table: "list_all (\<lambda>(n, act). ok_action y act) (dependencies_table y v op arg)"
  unfolding dependencies_table_def Let_def list.pred_inject prod.case
  by (intro conjI ok_intros TrueI) (auto simp: dependencies_ok_def)

lemma splitNameValue_name: "splitNameValue v = Some (n, p) \<Longrightarrow> n \<noteq> []"
  by (auto simp: splitNameValue_def Let_def split: option.splits if_splits)

lemma ok_conditions_table: "list_all (\<lambda>(n, act). ok_action y act) (conditions_table y v op arg)"
  unfolding conditions_table_def Let_def list.pred_inject prod.case
  by (intro conjI ok_intros TrueI; clarify?; (intro ok_intros)?)
    (auto simp: conditions_ok_def put_def when_some_Some dest: splitNameValue_name)

lemma ok_restart: "ok_action y (applyRestart v)" "ok_action y (applyLogType v)"
  unfolding applyRestart_def applyLogType_def Let_def
  by (intro ok_intros; simp add: behavior_ok_def logging_ok_def put_def)+

lemma ok_restart_table: "list_all (\<lambda>(n, act). ok_action y act) (restart_table y v op arg)"
  unfolding restart_table_def Let_def list.pred_inject prod.case
  by (intro conjI ok_intros ok_restart TrueI; clarify?; (intro ok_intros)?)
    (auto simp: behavior_ok_def management_ok_def put_def when_some_Some dest: parser_ok)

lemma ok_min_files: "ok_action y (apply_min_files v)"
  by (auto simp: ok_action_def apply_min_files_def when_some_Some desc_ok_def logging_ok_def put_def
      split: option.splits if_splits)

lemma ok_logging_table: "list_all (\<lambda>(n, act). ok_action y act) (logging_table y v op arg)"
  unfolding logging_table_def Let_def list.pred_inject prod.case
  by (intro conjI ok_intros ok_min_files ok_restart ok_update_comp [OF ok_set_log_type] TrueI)
    (auto simp: logging_ok_def logpolicy_ok_def put_def when_some_Some dest: parser_ok)

lemma ok_logpolicy_table: "list_all (\<lambda>(n, act). ok_action y act) (logpolicy_table y v op arg)"
  unfolding logpolicy_table_def Let_def list.pred_inject prod.case
  by (intro conjI ok_intros ok_update_comp [OF ok_set_log_type] TrueI)
    (auto simp: logpolicy_ok_def put_def when_some_Some log_field_ok dest: parser_ok)

lemma ok_ready: "ok_action y (\<lambda>d. parseReadyNotification v (d_management_update (put ReadyNotification_update v) d))"
  by (auto simp: ok_action_def parseReadyNotification_def require_def guarded_def when_some_Some desc_ok_def
      management_ok_def put_def split: option.splits if_splits)

lemma ok_management_table: "list_all (\<lambda>(n, act). ok_action y act) (management_table y v op arg)"
  unfolding management_table_def Let_def list.pred_inject prod.case
  by (intro conjI ok_intros ok_ready TrueI)
    (auto simp: management_ok_def identity_ok_def put_def when_some_Some)

lemma option_flag_ok: "behavior_ok (Flags_update f b) = behavior_ok b"
  by (simp add: behavior_ok_def)

lemma ok_options_loop: "desc_ok y d \<Longrightarrow> options_loop opts d = Inr d' \<Longrightarrow> desc_ok y d'"
proof (induction opts d rule: options_loop.induct)
  case (2 opt opts d)
  show ?case
  proof (cases "option_flag opt")
    case None
    then show ?thesis
      using 2 by (auto simp: desc_ok_def attributes_ok_def put_def split: if_splits)
  next
    case (Some f)
    then show ?thesis using 2 by (simp add: desc_ok_def option_flag_ok)
  qed
qed simp

lemma ok_options: "ok_action y (applyOptions v keep)"
  unfolding ok_action_def applyOptions_def
  by (intro allI impI, rule ok_options_loop) (auto simp: desc_ok_def put_def option_flag_ok)

lemma ok_shared_logger:
  "ok_update y (\<lambda>d. d_logging_update (put LogType_update LogToPipe) (d_identity_update (put SharedLogger_update n) d))"
  if "valid_service_name n"
  using that by (simp add: ok_update_def desc_ok_def logging_ok_def identity_ok_def optional_name_def put_def)

lemma identity_field_ok:
  "valid_service_name n \<Longrightarrow> optional_name n" "IsAbs p \<Longrightarrow> optional_path p" "m \<le> 511 \<Longrightarrow> mode_ok (Some m)"
  "lo \<le> k \<Longrightarrow> k \<le> hi \<Longrightarrow> within lo hi (Some k)"
  by (simp_all add: optional_name_def optional_path_def mode_ok_def within_def)

lemma ok_identity_table: "list_all (\<lambda>(n, act). ok_action y act) (identity_table y v op arg)"
  unfolding identity_table_def Let_def list.pred_inject prod.case
  by (intro conjI ok_intros ok_options ok_shared_logger TrueI)
    (auto simp: identity_ok_def conditions_ok_def attributes_ok_def identity_field_ok put_def when_some_Some)

lemma protect_field_ok:
  "protect_ok sy home \<Longrightarrow> protect_system_mode v = Some m \<Longrightarrow> protect_ok m home"
  "protect_ok sy home \<Longrightarrow> protect_home_mode v = Some m \<Longrightarrow> protect_ok sy m"
  by (auto simp: protect_ok_def protect_system_mode_def protect_home_mode_def Let_def split: if_splits)

lemma error_number_field_ok: "\<not> isl (ParseAction e) \<Longrightarrow> error_number_ok e"
  by (simp add: error_number_ok_def)

lemma ok_sandbox_table: "list_all (\<lambda>(n, act). ok_action y act) (sandbox_table y v op arg)"
  unfolding sandbox_table_def Let_def list.pred_inject prod.case
  by (intro conjI ok_intros TrueI)
    (auto simp: sandbox_ok_def put_def error_number_field_ok dest: parser_ok intro: protect_field_ok)

lemma ok_hardening_table: "list_all (\<lambda>(n, act). ok_action y act) (hardening_table y v op arg)"
  unfolding hardening_table_def Let_def list.pred_inject prod.case
  by (intro conjI ok_intros TrueI) (auto simp: hardening_ok_def put_def when_some_Some dest: parser_ok)

lemma ok_limits_table: "list_all (\<lambda>(n, act). ok_action y act) (limits_table y v op arg)"
  unfolding limits_table_def Let_def list.pred_inject prod.case
  by (intro conjI ok_intros TrueI) simp

lemma ok_terminal_table: "list_all (\<lambda>(n, act). ok_action y act) (terminal_table y v op arg)"
  unfolding terminal_table_def Let_def list.pred_inject prod.case
  by (intro conjI ok_intros TrueI) (auto simp: terminal_ok_def put_def IsAbs_def dest: ParseUint_range)

lemma ok_inputs_table: "list_all (\<lambda>(n, act). ok_action y act) (inputs_table y v op arg)"
  unfolding inputs_table_def Let_def list.pred_inject prod.case
  by (intro conjI ok_intros TrueI) (auto simp: inputs_ok_def put_def dest: parser_ok)

lemma ok_trigger: "1 \<le> n \<Longrightarrow> n \<le> 4 \<Longrightarrow> ok_action y (apply_trigger v n)"
  by (auto simp: ok_action_def apply_trigger_def desc_ok_def directories_ok_def put_def)

lemma ok_directories_table: "list_all (\<lambda>(n, act). ok_action y act) (directories_table y v op arg)"
  unfolding directories_table_def Let_def list.pred_inject prod.case
  by (intro conjI ok_intros ok_trigger TrueI)
    (auto simp: directories_ok_def mode_ok_def put_def dest: parser_ok split: if_splits)

lemma ok_add_cgroup: "ok_update y (add_cgroup f v)"
  unfolding add_cgroup_def by (intro ok_intros) (simp add: attributes_ok_def)

lemma ok_cgroup_table: "list_all (\<lambda>(n, act). ok_action y act) (cgroup_table y v op arg)"
  unfolding cgroup_table_def cgroup_knobs_def list.map append.simps list.pred_inject prod.case
  by (intro conjI ok_intros ok_add_cgroup TrueI; clarify?; (intro ok_add_cgroup)?)
    (auto simp: attributes_ok_def put_def dest: parser_ok)

lemma ok_resources_table: "list_all (\<lambda>(n, act). ok_action y act) (resources_table y v op arg)"
  unfolding resources_table_def Let_def list.pred_inject prod.case
  by (intro conjI ok_intros TrueI) (auto simp: resources_ok_def put_def when_some_Some dest: parser_ok)

lemma ok_extra_table: "list_all (\<lambda>(n, act). ok_action y act) (extra_table y v op arg)"
  unfolding extra_table_def Let_def list.pred_inject prod.case
  by (intro conjI ok_intros TrueI; clarify?; (intro ok_intros)?) (simp_all add: commands_ok_def)

lemma ok_default: "ok_action y (apply_default y s v op arg)"
  by (auto simp: ok_action_def apply_default_def apply_control_def desc_ok_def commands_ok_def conditions_ok_def
      split: option.splits if_splits)

lemmas ok_tables =
  ok_commands_table ok_namespaces_table ok_schedule_table ok_dependencies_table ok_conditions_table
  ok_restart_table ok_logging_table ok_logpolicy_table ok_management_table ok_identity_table
  ok_sandbox_table ok_hardening_table ok_limits_table ok_terminal_table ok_inputs_table
  ok_directories_table ok_cgroup_table ok_resources_table ok_extra_table

lemma applySetting_ok:
  assumes "desc_ok y d" "applySetting y s v op arg d = Inr d'"
  shows "desc_ok y d'"
proof (cases "map_of (setting_cases y v op arg) s")
  case None
  then show ?thesis using assms ok_default [of y s v op arg] by (simp add: applySetting_def ok_action_def)
next
  case (Some act)
  have "list_all (\<lambda>(n, act). ok_action y act) (setting_cases y v op arg)"
    unfolding setting_cases_def setting_tables_def by (simp add: ok_tables)
  then have "ok_action y act" using map_of_SomeD [OF Some] by (auto simp: list_all_iff)
  then show ?thesis using assms Some unfolding ok_action_def by (simp add: applySetting_def)
qed

end
