(* ===== verification/ConfigParse.thy ===== *)
theory ConfigParse
  imports ConfigValid
begin

text \<open>
  The line loop of the configuration parser, \<open>parseImpl\<close>, \<open>handleInclude\<close>, \<open>Parse\<close>, \<open>ParseWithArg\<close> and
  \<open>ParseOverlay\<close> of \<open>pkg/config/parser.go\<close>. The file system is the parameter \<open>fs\<close>: what \<open>os.Open\<close> and
  reading the file give for a path. \<open>bufio.Scanner\<close> and \<open>os.ExpandEnv\<close> are modelled.

  The recursion over \<open>@include\<close> directives is bounded by the code's own counter: \<open>parseImpl n\<close> is the call
  at depth \<open>maxIncludeDepth + 1 - n\<close>, so that \<open>n = 0\<close> is the depth that the code refuses. No fuel is
  added.
\<close>

section \<open>Reading lines\<close>

datatype open_answer = Opened string bool | NotExist | OpenError

definition MaxScanTokenSize :: nat where "MaxScanTokenSize = 65536"

definition dropCR :: "string \<Rightarrow> string" where
  "dropCR l = (if l \<noteq> [] \<and> last l = CHR 0x0D then butlast l else l)"

text \<open>
  The lines that \<open>bufio.Scanner\<close> returns, and whether it ends with an error: a line that does not fit
  into the buffer ends the scan, and a read error is reported after the lines that were read.
\<close>

definition scan_lines :: "string \<Rightarrow> string list" where
  "scan_lines content =
    (let ls = Split content (CHR 0x0A) in if last ls = [] then butlast ls else ls)"

definition scan :: "string \<Rightarrow> bool \<Rightarrow> string list \<times> bool" where
  "scan content read_error =
    (let ls = scan_lines content; good = takeWhile (\<lambda>l. length l < MaxScanTokenSize) ls in
     (map dropCR good, length good < length ls \<or> read_error))"

section \<open>os.ExpandEnv\<close>

definition isShellSpecialVar :: "char \<Rightarrow> bool" where
  "isShellSpecialVar c \<longleftrightarrow> c \<in> set ''*#$@!?-0123456789''"

definition isAlphaNum :: "char \<Rightarrow> bool" where
  "isAlphaNum c \<longleftrightarrow> isVarChar c False"

definition getShellName :: "string \<Rightarrow> string \<times> nat" where
  "getShellName s =
    (if hd s = CHR 0x7B then
       (if 2 < length s \<and> isShellSpecialVar (s ! 1) \<and> s ! 2 = CHR 0x7D then ([s ! 1], 3)
        else case cut_byte (CHR 0x7D) (tl s) of
            Some (name, _) \<Rightarrow> if name = [] then ([], 2) else (name, length name + 2)
          | None \<Rightarrow> ([], 1))
     else if isShellSpecialVar (hd s) then ([hd s], 1)
     else (let name = takeWhile isAlphaNum s in (name, length name)))"

function ExpandEnv :: "environ \<Rightarrow> string \<Rightarrow> string" where
  "ExpandEnv env [] = []"
| "ExpandEnv env (c # s) =
    (if c = CHR ''$'' \<and> s \<noteq> [] then
       (let name = fst (getShellName s); w = snd (getShellName s) in
        (if name = [] \<and> w > 0 then [] else if name = [] then [c] else Getenv env name)
        @ ExpandEnv env (drop w s))
     else c # ExpandEnv env s)"
  by pat_completeness auto

termination by (relation "measure (\<lambda>(env, s). length s)") auto

lemma ExpandEnv_plain: "CHR ''$'' \<notin> set s \<Longrightarrow> ExpandEnv env s = s"
  by (induction s) auto

section \<open>Errors\<close>

text \<open>The message of a \<open>ParseError\<close>, with the file and the line it names.\<close>

datatype parse_message =
    IncludeTooDeep
  | ScriptConflict
  | ScriptUnterminated
  | MissingOperator
  | UnknownSetting string
  | InvalidOperator string
  | BadSetting string setting_error
  | UnknownDirective string
  | EmptyInclude
  | CannotOpen string

datatype parse_error = ParseError string nat parse_message | ReadFailed string

section \<open>Include directives\<close>

definition maxIncludeDepth :: nat where "maxIncludeDepth = 10"

type_synonym parse_result = "(parse_error, ServiceDescription) result"

text \<open>
  \<open>handleInclude\<close>; \<open>inc path content d\<close> stands for the recursive call \<open>parseImpl(f, name, incPath, desc,
  depth+1, serviceArg)\<close>.
\<close>

definition include_path :: "config_sys \<Rightarrow> string \<Rightarrow> string \<Rightarrow> string" where
  "include_path y fileName raw =
    (let p = ExpandEnv (sys_env y) raw in if IsAbs p then p else Clean (Dir fileName @ ''/'' @ p))"

definition open_include ::
  "config_sys \<Rightarrow> (string \<Rightarrow> open_answer) \<Rightarrow> (string \<Rightarrow> string \<times> bool \<Rightarrow> ServiceDescription \<Rightarrow> parse_result)
    \<Rightarrow> string \<Rightarrow> nat \<Rightarrow> bool \<Rightarrow> string \<Rightarrow> ServiceDescription \<Rightarrow> parse_result" where
  "open_include y fs inc fileName lineNum optional raw d =
    (if raw = [] then Inl (ParseError fileName lineNum EmptyInclude)
     else let p = include_path y fileName raw in
       case fs p of
         Opened content rerr \<Rightarrow> inc p (content, rerr) d
       | NotExist \<Rightarrow> if optional then Inr d else Inl (ParseError fileName lineNum (CannotOpen p))
       | OpenError \<Rightarrow> Inl (ParseError fileName lineNum (CannotOpen p)))"

definition handleInclude ::
  "config_sys \<Rightarrow> (string \<Rightarrow> open_answer) \<Rightarrow> (string \<Rightarrow> string \<times> bool \<Rightarrow> ServiceDescription \<Rightarrow> parse_result)
    \<Rightarrow> string \<Rightarrow> nat \<Rightarrow> string \<Rightarrow> ServiceDescription \<Rightarrow> parse_result" where
  "handleInclude y fs inc fileName lineNum line d =
    (if HasPrefix line ''@meta '' \<or> line = ''@meta'' then
       (if HasPrefix line ''@meta enable-via '' then
          Inr (d_identity_update (put EnableVia_update (TrimSpace (drop (length ''@meta enable-via '') line))) d)
        else Inr d)
     else if HasPrefix line ''@include-opt '' then
       open_include y fs inc fileName lineNum True (TrimSpace (drop (length ''@include-opt '') line)) d
     else if HasPrefix line ''@include '' then
       open_include y fs inc fileName lineNum False (TrimSpace (drop (length ''@include '') line)) d
     else Inl (ParseError fileName lineNum (UnknownDirective line)))"

section \<open>The loop over lines\<close>

text \<open>A line that is not skipped, trimmed when it starts with a blank.\<close>

definition line_text :: "string \<Rightarrow> string option" where
  "line_text line =
    (if line = [] then None
     else let trimmed = (if hd line = CHR 0x20 \<or> hd line = CHR 0x09 then TrimSpace line else line) in
       if trimmed = [] \<or> hd trimmed = CHR ''#'' then None else Some trimmed)"

definition apply_line ::
  "config_sys \<Rightarrow> string option \<Rightarrow> string \<Rightarrow> nat \<Rightarrow> string \<Rightarrow> ServiceDescription \<Rightarrow> parse_result" where
  "apply_line y arg fileName lineNum trimmed d =
    (case parseLine trimmed of
       None \<Rightarrow> Inl (ParseError fileName lineNum MissingOperator)
     | Some (setting, v, op) \<Rightarrow>
         if \<not> IsKnownSetting setting then Inl (ParseError fileName lineNum (UnknownSetting setting))
         else if \<not> ValidOperator setting op then Inl (ParseError fileName lineNum (InvalidOperator setting))
         else (case applySetting y setting v op arg d of
             Inl e \<Rightarrow> Inl (ParseError fileName lineNum (BadSetting setting e))
           | Inr d' \<Rightarrow> Inr d'))"

definition bare_keyword :: "string \<Rightarrow> bool" where
  "bare_keyword trimmed \<longleftrightarrow>
    HasPrefix trimmed ''keyword '' \<and> CHR ''='' \<notin> set trimmed \<and> CHR '':'' \<notin> set trimmed"

definition script_command :: "config_sys \<Rightarrow> string option \<Rightarrow> string list \<Rightarrow> ServiceDescription \<Rightarrow> ServiceDescription" where
  "script_command y arg body =
    (let scr = expandEnvVarsForCommand (sys_env y) (Join body [CHR 0x0A]) arg in
     d_commands_update (\<lambda>c. put ScriptBlock_update True (put Command_update [''/bin/sh'', ''-c'', scr] c)))"

text \<open>
  The two nested loops of \<open>parseImpl\<close> as one: \<open>block\<close> holds the lines of an open \<open>script\<close> block.
\<close>

fun parse_lines ::
  "config_sys \<Rightarrow> (string \<Rightarrow> open_answer) \<Rightarrow> (string \<Rightarrow> string \<times> bool \<Rightarrow> ServiceDescription \<Rightarrow> parse_result)
    \<Rightarrow> string option \<Rightarrow> string \<Rightarrow> nat \<Rightarrow> string list option \<Rightarrow> string list \<Rightarrow> ServiceDescription \<Rightarrow> parse_result" where
  "parse_lines y fs inc arg fileName lineNum block [] d =
    (case block of None \<Rightarrow> Inr d | Some _ \<Rightarrow> Inl (ParseError fileName lineNum ScriptUnterminated))"
| "parse_lines y fs inc arg fileName lineNum block (line # rest) d =
    (let n = Suc lineNum;
         continue = (\<lambda>b d. parse_lines y fs inc arg fileName n b rest d) in
     case block of
       Some body \<Rightarrow>
         if TrimSpace line = ''end script'' then continue None (script_command y arg body d)
         else continue (Some (body @ [line])) d
     | None \<Rightarrow>
        (case line_text line of
           None \<Rightarrow> continue None d
         | Some trimmed \<Rightarrow>
             if HasPrefix trimmed ''@'' then
               (case handleInclude y fs inc fileName n trimmed d of
                  Inl e \<Rightarrow> Inl e | Inr d' \<Rightarrow> continue None d')
             else if bare_keyword trimmed then
               continue None (d_conditions_update (Keywords_update (appended (Fields (drop 8 trimmed)))) d)
             else if trimmed = ''script'' then
               (if Command (d_commands d) \<noteq> [] \<or> ScriptBlock (d_commands d)
                then Inl (ParseError fileName n ScriptConflict)
                else continue (Some []) d)
             else
               (case apply_line y arg fileName n trimmed d of
                  Inl e \<Rightarrow> Inl e | Inr d' \<Rightarrow> continue None d')))"

fun parseImpl ::
  "nat \<Rightarrow> config_sys \<Rightarrow> (string \<Rightarrow> open_answer) \<Rightarrow> string option \<Rightarrow> string \<Rightarrow> string \<times> bool
    \<Rightarrow> ServiceDescription \<Rightarrow> parse_result" where
  "parseImpl 0 y fs arg fileName r d = Inl (ParseError fileName 0 IncludeTooDeep)"
| "parseImpl (Suc n) y fs arg fileName r d =
    (let (ls, err) = scan (fst r) (snd r) in
     case parse_lines y fs (parseImpl n y fs arg) arg fileName 0 None ls d of
       Inl e \<Rightarrow> Inl e
     | Inr d' \<Rightarrow> if err then Inl (ReadFailed fileName) else Inr d')"

definition parse_file ::
  "config_sys \<Rightarrow> (string \<Rightarrow> open_answer) \<Rightarrow> string option \<Rightarrow> string \<Rightarrow> string \<times> bool
    \<Rightarrow> ServiceDescription \<Rightarrow> parse_result" where
  "parse_file = parseImpl (Suc maxIncludeDepth)"

definition Parse ::
  "config_sys \<Rightarrow> (string \<Rightarrow> open_answer) \<Rightarrow> string \<times> bool \<Rightarrow> string \<Rightarrow> string \<Rightarrow> parse_result" where
  "Parse y fs r name fileName = parse_file y fs None fileName r (NewServiceDescription name)"

definition ParseWithArg ::
  "config_sys \<Rightarrow> (string \<Rightarrow> open_answer) \<Rightarrow> string \<times> bool \<Rightarrow> string \<Rightarrow> string \<Rightarrow> string \<Rightarrow> parse_result" where
  "ParseWithArg y fs r name fileName serviceArg =
    parse_file y fs (Some serviceArg) fileName r (NewServiceDescription name)"

definition ParseOverlay ::
  "config_sys \<Rightarrow> (string \<Rightarrow> open_answer) \<Rightarrow> string \<times> bool \<Rightarrow> string \<Rightarrow> ServiceDescription \<Rightarrow> string option
    \<Rightarrow> parse_result" where
  "ParseOverlay y fs r fileName d serviceArg = parse_file y fs serviceArg fileName r d"

section \<open>Invariants of parsing\<close>

text \<open>
  What a property of descriptions needs to hold after parsing: the settings keep it, and so do the
  three other things a line can do. A relation between the description before the first line and the
  current one is such a property too, with the first description fixed.
\<close>

locale parse_invariant =
  fixes y :: config_sys
    and P :: "ServiceDescription \<Rightarrow> bool"
  assumes apply_keeps: "P d \<Longrightarrow> applySetting y s v op arg d = Inr d' \<Longrightarrow> P d'"
    and keyword_keeps: "P d \<Longrightarrow> P (d_conditions_update (Keywords_update (appended ks)) d)"
    and enable_keeps: "P d \<Longrightarrow> P (d_identity_update (put EnableVia_update n) d)"
    and script_keeps: "P d \<Longrightarrow> Command (d_commands d) = [] \<Longrightarrow> P (script_command y arg body d)"
begin

lemma handleInclude_keeps:
  assumes inc: "\<And>p r d d'. P d \<Longrightarrow> inc p r d = Inr d' \<Longrightarrow> P d'"
    and "P d" "handleInclude y fs inc fileName n line d = Inr d'"
  shows "P d'"
  using assms enable_keeps
  by (auto simp: handleInclude_def open_include_def Let_def split: if_splits open_answer.splits)

lemma apply_line_keeps:
  "P d \<Longrightarrow> apply_line y arg fileName n t d = Inr d' \<Longrightarrow> P d'"
  by (auto simp: apply_line_def split: option.splits if_splits sum.splits intro: apply_keeps)

lemma parse_lines_keeps:
  assumes inc: "\<And>p r d d'. P d \<Longrightarrow> inc p r d = Inr d' \<Longrightarrow> P d'"
  shows "P d \<Longrightarrow> block \<noteq> None \<longrightarrow> Command (d_commands d) = [] \<Longrightarrow>
    parse_lines y fs inc arg fileName n block ls d = Inr d' \<Longrightarrow> P d'"
proof (induction ls arbitrary: n block d)
  case Nil
  then show ?case by (auto split: option.splits)
next
  case (Cons line rest)
  show ?case
  proof (cases block)
    case (Some body)
    then show ?thesis
      using Cons.prems script_keeps [OF Cons.prems(1)]
        Cons.IH [of "script_command y arg body d" None] Cons.IH [of d "Some (body @ [line])"]
      by (auto simp: Let_def split: if_splits)
  next
    case None
    show ?thesis
    proof (cases "line_text line")
      case None
      then show ?thesis using Cons \<open>block = None\<close> by (auto simp: Let_def)
    next
      case (Some t)
      note step = Cons.prems(3) [unfolded parse_lines.simps Let_def \<open>block = None\<close> Some option.case]
      consider "HasPrefix t ''@''" | "\<not> HasPrefix t ''@''" "bare_keyword t"
        | "\<not> HasPrefix t ''@''" "\<not> bare_keyword t" "t = ''script''"
        | "\<not> HasPrefix t ''@''" "\<not> bare_keyword t" "t \<noteq> ''script''" by blast
      then show ?thesis
      proof cases
        case 1
        then obtain d1 where h: "handleInclude y fs inc fileName (Suc n) t d = Inr d1"
          and r: "parse_lines y fs inc arg fileName (Suc n) None rest d1 = Inr d'"
          using step by (auto split: sum.splits)
        have "P d1" by (rule handleInclude_keeps [OF _ Cons.prems(1) h]) (rule inc)
        then show ?thesis using Cons.IH [OF _ _ r] by simp
      next
        case 2
        then show ?thesis using step Cons.IH keyword_keeps [OF Cons.prems(1)] by auto
      next
        case 3
        then show ?thesis using step Cons.IH [of d "Some []"] Cons.prems(1) by (auto split: if_splits)
      next
        case 4
        then obtain d1 where h: "apply_line y arg fileName (Suc n) t d = Inr d1"
          and r: "parse_lines y fs inc arg fileName (Suc n) None rest d1 = Inr d'"
          using step by (auto split: sum.splits)
        then show ?thesis using Cons.IH [OF apply_line_keeps [OF Cons.prems(1) h] _ r] by simp
      qed
    qed
  qed
qed

lemma parseImpl_keeps: "P d \<Longrightarrow> parseImpl k y fs arg fileName r d = Inr d' \<Longrightarrow> P d'"
proof (induction k arbitrary: fileName r d d')
  case (Suc k)
  then obtain d1 where "parse_lines y fs (parseImpl k y fs arg) arg fileName 0 None (fst (scan (fst r) (snd r))) d = Inr d1"
    and "d1 = d'"
    by (auto simp: Let_def split: prod.splits sum.splits if_splits)
  then show ?case using parse_lines_keeps [of "parseImpl k y fs arg"] Suc by blast
qed simp

lemma parse_file_keeps: "P d \<Longrightarrow> parse_file y fs arg fileName r d = Inr d' \<Longrightarrow> P d'"
  unfolding parse_file_def by (rule parseImpl_keeps)

end

text \<open>The invariant of descriptions, and the name of the service, which no line changes.\<close>

lemma desc_ok_updates:
  "desc_ok y d \<Longrightarrow> desc_ok y (d_conditions_update (Keywords_update f) d)"
  "desc_ok y d \<Longrightarrow> desc_ok y (d_identity_update (put EnableVia_update n) d)"
  "desc_ok y d \<Longrightarrow> desc_ok y (script_command y arg body d)"
  by (simp_all add: desc_ok_def conditions_ok_def identity_ok_def commands_ok_def script_command_def put_def Let_def)

interpretation ok: parse_invariant y "desc_ok y"
  by unfold_locales (auto intro: applySetting_ok desc_ok_updates)

end
