(* ===== verification/ConfigGuarantees.thy ===== *)
theory ConfigGuarantees
  imports ConfigParse "HOL-Library.Sublist"
begin

unbundle bit_operations_syntax

text \<open>
  What the configuration parser guarantees as a whole: a printed command is read back, an endless chain
  of includes is refused, a printed predicate is read back, the check of a filter line agrees with the
  filter builder, an overlay only adds to what restricts a service, and every accepted description
  satisfies its invariant. At the end, the places where a setting does not do what its operator or its
  comment says.
\<close>

section \<open>Looking settings up\<close>

lemmas table_eval =
  concat.simps list.map append.simps prod.case map_of_Cons_code list.inject char.inject list.distinct
  simp_thms if_False if_True

lemmas known_defs =
  KnownSettings_def KnownSettings_1_def KnownSettings_2_def KnownSettings_3_def KnownSettings_4_def

lemmas cases_defs = setting_cases_def setting_tables_def table_defs Let_def

definition command_action :: "config_sys \<Rightarrow> string \<Rightarrow> OperatorType \<Rightarrow> string option \<Rightarrow> action" where
  "command_action y v op arg d =
    (if ScriptBlock (d_commands d) then Inl Rejected
     else Inr (d_commands_update (Command_update
       (extend op (splitCommand (expandEnvVarsForCommand (sys_env y) v arg)))) d))"

lemma lookup_command: "map_of (setting_cases y v op arg) ''command'' = Some (command_action y v op arg)"
  unfolding cases_defs command_action_def by (simp only: table_eval assign_def)

lemma known_command: "map_of KnownSettings ''command'' = Some (OpEquals OR OpPlusEqual)"
  unfolding known_defs by (simp only: table_eval)

lemma lookup_required:
  "map_of (setting_cases y v op arg) ''required-files'' =
    Some (assign (d_conditions_update (RequiredFiles_update (appended (Fields (expandEnvVars (sys_env y) v arg))))))"
  unfolding cases_defs by (simp only: table_eval)

lemma known_required: "map_of KnownSettings ''required-files'' = Some (OpEquals OR OpPlusEqual)"
  unfolding known_defs by (simp only: table_eval)

lemma lookup_capabilities:
  "map_of (setting_cases y v op arg) ''capabilities'' = Some (assign (d_resources_update (put Capabilities_update v)))"
  unfolding cases_defs by (simp only: table_eval)

lemma known_capabilities: "map_of KnownSettings ''capabilities'' = Some (OpEquals OR OpPlusEqual)"
  unfolding known_defs by (simp only: table_eval)

lemma op_bits:
  "(OpEquals OR OpPlusEqual) AND OpEquals \<noteq> 0" "(OpEquals OR OpPlusEqual) AND OpPlusEqual \<noteq> 0"
  "OpEquals \<noteq> OpPlusEqual"
  by (simp_all add: op_defs)

text \<open>One line of a file that is a setting.\<close>

definition setting_line :: "string \<Rightarrow> bool" where
  "setting_line l \<longleftrightarrow> line_text l = Some l \<and> \<not> HasPrefix l ''@'' \<and> \<not> bare_keyword l \<and> l \<noteq> ''script''"

lemma parse_setting_line:
  assumes "setting_line l" "parseLine l = Some (s, v, op)" "map_of KnownSettings s = Some a" "a AND op \<noteq> 0"
  shows "parse_lines y fs inc arg f n None (l # rest) d =
    (case applySetting y s v op arg d of
       Inl e \<Rightarrow> Inl (ParseError f (Suc n) (BadSetting s e))
     | Inr d' \<Rightarrow> parse_lines y fs inc arg f (Suc n) None rest d')"
  using assms
  by (auto simp: setting_line_def apply_line_def IsKnownSetting_def ValidOperator_def Let_def split: sum.splits)

lemma scan_single:
  assumes "l \<noteq> []" "CHR 0x0A \<notin> set l" "last l \<noteq> CHR 0x0D" "length l < MaxScanTokenSize"
  shows "scan l False = ([l], False)"
  using assms by (simp add: scan_def scan_lines_def Split_single dropCR_def)

text \<open>A file of one setting line.\<close>

lemma parse_single:
  assumes "setting_line l" "parseLine l = Some (s, v, op)" "map_of KnownSettings s = Some a" "a AND op \<noteq> 0"
    and "scan l False = ([l], False)"
  shows "parse_file y fs arg f (l, False) d =
    (case applySetting y s v op arg d of
       Inl e \<Rightarrow> Inl (ParseError f 1 (BadSetting s e)) | Inr d' \<Rightarrow> Inr d')"
  using parse_setting_line [OF assms(1-4)] assms(5) by (simp add: parse_file_def split: sum.splits)

section \<open>A command that was printed is read back\<close>

definition command_line :: "string list \<Rightarrow> string" where
  "command_line wds = ''command = '' @ escape_dollars (Join (map quote_word wds) '' '')"

lemma quoted_text:
  assumes "wds \<noteq> []"
  shows "\<exists>mid. Join (map quote_word wds) '' '' = [CHR 0x22] @ mid @ [CHR 0x22]"
  using assms
proof (induction wds rule: induct_list012)
  case (3 x z zs)
  then obtain mid where "Join (map quote_word (z # zs)) '' '' = [CHR 0x22] @ mid @ [CHR 0x22]" by auto
  moreover obtain q where "quote_word x = [CHR 0x22] @ q" by (simp add: quote_word_def)
  ultimately have "Join (map quote_word (x # z # zs)) '' '' = [CHR 0x22] @ (q @ '' '' @ [CHR 0x22] @ mid) @ [CHR 0x22]"
    by simp
  then show ?case by blast
qed (auto simp: quote_word_def)

lemma command_line_shape:
  assumes "wds \<noteq> []"
  shows "\<exists>mid. command_line wds = ''command = '' @ [CHR 0x22] @ mid @ [CHR 0x22]"
  using quoted_text [OF assms] by (auto simp: command_line_def escape_dollars_def)

lemma set_escape_dollars: "set (escape_dollars s) = set s"
  by (auto simp: escape_dollars_def)

lemma set_Join_words: "c \<in> set (Join xs sep) \<Longrightarrow> c \<in> set sep \<or> (\<exists>x \<in> set xs. c \<in> set x)"
  by (induction xs sep rule: Join.induct) auto

lemma set_quote_word: "c \<in> set (quote_word s) \<Longrightarrow> c = CHR 0x22 \<or> c = CHR 0x5C \<or> c \<in> set s"
  by (auto simp: quote_word_def split: if_splits)

lemma command_line_no_newline:
  assumes "\<forall>a \<in> set wds. CHR 0x0A \<notin> set a"
  shows "CHR 0x0A \<notin> set (command_line wds)"
proof
  assume "CHR 0x0A \<in> set (command_line wds)"
  then have "CHR 0x0A \<in> set (Join (map quote_word wds) '' '')"
    by (auto simp: command_line_def set_escape_dollars)
  then obtain a where "a \<in> set wds" "CHR 0x0A \<in> set (quote_word a)"
    using set_Join_words by fastforce
  then show False using assms set_quote_word by fastforce
qed

lemma parse_command_line:
  assumes "wds \<noteq> []"
  shows "parseLine (command_line wds) = Some (''command'', escape_dollars (Join (map quote_word wds) '' ''), OpEquals)"
    and "setting_line (command_line wds)"
proof -
  let ?v = "escape_dollars (Join (map quote_word wds) '' '')"
  obtain mid where mid: "?v = [CHR 0x22] @ mid @ [CHR 0x22]"
    using quoted_text [OF assms] by (auto simp: escape_dollars_def)
  have "parseLine (''command '' @ CHR ''='' # ('' '' @ ?v)) = Some (TrimSpace ''command '', TrimSpace ('' '' @ ?v), OpEquals)"
    by (rule parseLine_equals) simp_all
  moreover have "TrimSpace ('' '' @ ?v) = ?v"
    by (simp add: mid TrimSpace_def is_space_def)
  moreover have "TrimSpace ''command '' = ''command''" by (simp add: TrimSpace_def is_space_def)
  ultimately show "parseLine (command_line wds) = Some (''command'', ?v, OpEquals)"
    by (simp add: command_line_def)
  show "setting_line (command_line wds)"
    by (simp add: setting_line_def command_line_def line_text_def bare_keyword_def)
qed


text \<open>
  Property C23. A command that is written with every word quoted and every dollar doubled is read back
  word for word, whatever bytes the words contain, the environment holds and the service argument is:
  the parser of lines, the expansion of variables and the splitting of words undo the printer. The
  words must not be empty (the code drops an empty quoted word) and must not contain a newline, and
  the line must fit into the scanner's buffer.
\<close>

theorem command_setting_roundtrip:
  assumes "wds \<noteq> []" "[] \<notin> set wds" "\<forall>w \<in> set wds. CHR 0x0A \<notin> set w"
    and "length (command_line wds) < MaxScanTokenSize"
  shows "\<exists>d. Parse y fs (command_line wds, False) name fileName = Inr d \<and> Command (d_commands d) = wds"
proof -
  let ?l = "command_line wds"
  let ?d = "NewServiceDescription name"
  have split: "splitCommand (expandEnvVarsForCommand (sys_env y) (escape_dollars (Join (map quote_word wds) '' '')) None) = wds"
    using splitCommand_quoted [OF assms(2)] by (simp add: expandEnvVarsForCommand_def)
  have "scan ?l False = ([?l], False)"
    using command_line_shape [OF assms(1)] command_line_no_newline [OF assms(3)] assms(4)
    by (intro scan_single) auto
  moreover have "applySetting y ''command'' (escape_dollars (Join (map quote_word wds) '' '')) OpEquals None ?d
      = Inr (d_commands_update (Command_update (\<lambda>_. wds)) ?d)"
    using split
    by (simp add: applySetting_def lookup_command command_action_def NewServiceDescription_def new_commands_def
        extend_def op_bits)
  ultimately show ?thesis
    using parse_single [OF parse_command_line(2,1) [OF assms(1)] known_command op_bits(1)]
    by (simp add: Parse_def)
qed

theorem command_setting_roundtrip_witness:
  "\<exists>d. Parse plain_sys (\<lambda>_. NotExist) (command_line [''/bin/echo'', ''$HOME'', ''a b''], False) ''x'' ''/etc/x'' = Inr d
    \<and> Command (d_commands d) = [''/bin/echo'', ''$HOME'', ''a b'']"
  by (rule command_setting_roundtrip)
    (simp_all add: command_line_def escape_dollars_def quote_word_def MaxScanTokenSize_def)

section \<open>Chains of includes\<close>

text \<open>File \<open>p\<close> starts with a directive that includes the file \<open>q\<close>.\<close>

definition includes_file :: "(string \<Rightarrow> open_answer) \<Rightarrow> string \<Rightarrow> string \<Rightarrow> bool" where
  "includes_file fs p q \<longleftrightarrow>
    (\<exists>rest err. fs p = Opened (''@include '' @ q @ [CHR 0x0A] @ rest) err) \<and>
    IsAbs q \<and> CHR ''$'' \<notin> set q \<and> (\<forall>c \<in> set q. \<not> is_space c) \<and> length q + 9 < MaxScanTokenSize"

lemma TrimSpace_plain: "\<forall>c \<in> set s. \<not> is_space c \<Longrightarrow> TrimSpace s = s"
  by (rule TrimSpace_trimmed) auto

lemma scan_first_line:
  assumes "CHR 0x0A \<notin> set l" "l = [] \<or> last l \<noteq> CHR 0x0D" "length l < MaxScanTokenSize"
  shows "\<exists>ls e. scan (l @ [CHR 0x0A] @ rest) err = (l # ls, e)"
proof -
  have "Split (l @ CHR 0x0A # rest) (CHR 0x0A) = l # Split rest (CHR 0x0A)"
    using assms(1) by (rule Split_append)
  then have "scan_lines (l @ [CHR 0x0A] @ rest) =
      l # (if last (Split rest (CHR 0x0A)) = [] then butlast (Split rest (CHR 0x0A)) else Split rest (CHR 0x0A))"
    by (simp add: scan_lines_def)
  moreover have "dropCR l = l" using assms(2) by (auto simp: dropCR_def)
  ultimately show ?thesis using assms(3) by (simp add: scan_def)
qed

lemma is_space_newlines: "is_space (CHR 0x0A)" "is_space (CHR 0x0D)"
  by (simp_all add: is_space_def)

lemma include_step:
  assumes "includes_file fs p q" "fs p = Opened content err"
    and inner: "\<And>r d. fs q = Opened (fst r) (snd r) \<Longrightarrow> parseImpl k y fs arg q r d = Inl e"
    and "\<exists>c1 e1. fs q = Opened c1 e1"
  shows "parseImpl (Suc k) y fs arg p (content, err) d = Inl e"
proof -
  let ?l = "''@include '' @ q"
  obtain rest where c: "content = ?l @ [CHR 0x0A] @ rest" and q: "IsAbs q" "CHR ''$'' \<notin> set q"
    "\<forall>c \<in> set q. \<not> is_space c" "length ?l < MaxScanTokenSize"
    using assms(1,2) by (auto simp: includes_file_def)
  have ne: "q \<noteq> []" using q(1) by (auto simp: IsAbs_def)
  then have "last ?l = last q" by simp
  then have "last ?l \<noteq> CHR 0x0D" using q(3) is_space_newlines ne by (metis last_in_set)
  moreover have "CHR 0x0A \<notin> set ?l" using q(3) is_space_newlines by auto
  ultimately obtain ls er where sc: "scan content err = (?l # ls, er)"
    using scan_first_line [of ?l rest err] q(4) by (auto simp: c)
  obtain c1 e1 where o1: "fs q = Opened c1 e1" using assms(4) by blast
  have "include_path y p q = q" using q by (simp add: include_path_def ExpandEnv_plain)
  then have "handleInclude y fs (parseImpl k y fs arg) p n ?l d = Inl e" for n
    using inner [of "(c1, e1)" d] o1 TrimSpace_plain [OF q(3)] ne
    by (simp add: handleInclude_def open_include_def)
  then show ?thesis by (simp add: sc line_text_def)
qed

lemma include_chain:
  assumes "\<forall>i. includes_file fs (c i) (c (Suc i))" "fs (c i) = Opened content err"
  shows "parseImpl k y fs arg (c i) (content, err) d = Inl (ParseError (c (i + k)) 0 IncludeTooDeep)"
  using assms(2)
proof (induction k arbitrary: i content err d)
  case (Suc k)
  have "\<exists>c1 e1. fs (c (Suc i)) = Opened c1 e1" using assms(1) unfolding includes_file_def by blast
  moreover have "parseImpl k y fs arg (c (Suc i)) r d = Inl (ParseError (c (Suc i + k)) 0 IncludeTooDeep)"
    if "fs (c (Suc i)) = Opened (fst r) (snd r)" for r d
    using Suc.IH [OF that] by simp
  ultimately have "parseImpl (Suc k) y fs arg (c i) (content, err) d = Inl (ParseError (c (Suc i + k)) 0 IncludeTooDeep)"
    using include_step [of fs "c i" "c (Suc i)"] assms(1) Suc.prems by blast
  then show ?case by simp
qed simp

text \<open>The file at which it is refused: ten files may be nested below the first one.\<close>

lemma include_limit:
  assumes "\<forall>i. includes_file fs (c i) (c (Suc i))" "fs (c 0) = Opened content err"
  shows "Parse y fs (content, err) name (c 0) = Inl (ParseError (c (Suc maxIncludeDepth)) 0 IncludeTooDeep)"
  unfolding Parse_def parse_file_def using include_chain [OF assms] by simp

text \<open>
  Property C25. A chain of includes without an end, a cycle of any length among them, is refused with the
  error of the nesting depth; the parser does not run into it.
\<close>

theorem endless_includes_refused:
  assumes "\<forall>i. includes_file fs (c i) (c (Suc i))" "fs (c 0) = Opened content err"
  shows "\<exists>file. Parse y fs (content, err) name (c 0) = Inl (ParseError file 0 IncludeTooDeep)"
  using include_limit [OF assms] by blast

theorem endless_includes_refused_witness:
  "\<exists>file. Parse plain_sys (\<lambda>_. Opened (''@include /a'' @ [CHR 0x0A]) False) (''@include /a'' @ [CHR 0x0A], False) ''x'' ''/a''
    = Inl (ParseError file 0 IncludeTooDeep)"
  by (rule endless_includes_refused [where c = "\<lambda>_. ''/a''"])
    (simp_all add: includes_file_def IsAbs_def is_space_def MaxScanTokenSize_def exI [of Not False])

section \<open>Predicates\<close>

lemma kind_name_plain:
  "CHR ''='' \<notin> set (kind_name k)" "CHR '':'' \<notin> set (kind_name k)" "kind_name k \<noteq> []"
  "last (kind_name k) \<noteq> CHR ''+''" "\<forall>c \<in> set (kind_name k). \<not> is_space c"
  by (cases k; simp add: is_space_def)+

lemma negation_split:
  assumes "TrimSpace v = v"
  shows "splitPredicateNegation (CHR ''!'' # v) = (v, True)"
    and "\<not> HasPrefix v ''!'' \<Longrightarrow> splitPredicateNegation v = (v, False)"
    and "TrimSpace (CHR ''!'' # v) = CHR ''!'' # v"
proof -
  show t: "TrimSpace (CHR ''!'' # v) = CHR ''!'' # v"
    using TrimSpace_hd_last [of v] assms by (intro TrimSpace_trimmed) (auto simp: is_space_def)
  show "splitPredicateNegation (CHR ''!'' # v) = (v, True)"
    by (simp add: splitPredicateNegation_def t assms)
  show "\<not> HasPrefix v ''!'' \<Longrightarrow> splitPredicateNegation v = (v, False)"
    by (simp add: splitPredicateNegation_def assms)
qed

definition printed_setting :: "Predicate \<Rightarrow> string" where
  "printed_setting p =
    (if Kind p = PredExecCondition then (if IsAssert p then ''assert-exec-condition'' else ''exec-condition'')
     else (if IsAssert p then ''assert-'' else ''condition-'') @ kind_name (Kind p))"

definition printed_value :: "Predicate \<Rightarrow> string" where
  "printed_value p = (if Kind p \<noteq> PredExecCondition \<and> Negate p then ''!'' else []) @ Param p"

lemma Predicate_String_parts: "Predicate_String p = printed_setting p @ CHR ''='' # printed_value p"
  by (simp add: Predicate_String_def printed_setting_def printed_value_def)

lemma printed_setting_plain:
  "CHR ''='' \<notin> set (printed_setting p)" "CHR '':'' \<notin> set (printed_setting p)"
  "last (printed_setting p) \<noteq> CHR ''+''" "TrimSpace (printed_setting p) = printed_setting p"
  using kind_name_plain [of "Kind p"]
  by (auto simp: printed_setting_def is_space_def intro!: TrimSpace_plain)

lemma exec_condition_no_kind: "kind_name k = ''exec-condition'' \<longleftrightarrow> k = PredExecCondition"
  by (cases k) simp_all

text \<open>
  A start predicate is printed in the form in which it is configured: the line that
  \<open>Predicate.String\<close> prints is split by the parser into the setting and the value from which
  \<open>parsePredicate\<close> builds the same predicate. This holds for a parameter that is trimmed and has no
  dollar, and does not start with an exclamation mark where that means negation; an exec condition
  cannot be negated.
\<close>

lemma predicate_roundtrip:
  assumes "TrimSpace (Param p) = Param p" "CHR ''$'' \<notin> set (Param p)"
    and "if Kind p = PredExecCondition then \<not> Negate p else \<not> HasPrefix (Param p) ''!''"
  shows "parseLine (Predicate_String p) = Some (printed_setting p, printed_value p, OpEquals) \<and>
    parsePredicate env (printed_setting p) (printed_value p) arg = Some p"
proof
  have v: "TrimSpace (printed_value p) = printed_value p"
    using assms(1) negation_split(3) by (simp add: printed_value_def)
  show "parseLine (Predicate_String p) = Some (printed_setting p, printed_value p, OpEquals)"
    using parseLine_equals [OF printed_setting_plain(1,2), of p "printed_value p"] printed_setting_plain(3,4)
    by (simp add: Predicate_String_parts v)
  have ex: "expandEnvVars env (printed_value p) arg = printed_value p"
    using assms(2) by (simp add: expandEnvVars_def expandEnvVarsImpl_def printed_value_def)
  show "parsePredicate env (printed_setting p) (printed_value p) arg = Some p"
  proof (cases "Kind p = PredExecCondition")
    case True
    then show ?thesis using assms(3) ex
      by (cases p) (auto simp: parsePredicate_def printed_setting_def printed_value_def)
  next
    case False
    have n: "predicate_name (printed_setting p) = Some (kind_name (Kind p), IsAssert p)"
      using False by (simp add: predicate_name_def printed_setting_def)
    have s: "splitPredicateNegation (printed_value p) = (Param p, Negate p)"
      using False assms negation_split(1,2) [OF assms(1)] by (simp add: printed_value_def)
    have ne: "printed_setting p \<noteq> ''exec-condition''" "printed_setting p \<noteq> ''assert-exec-condition''"
      using False exec_condition_no_kind [of "Kind p"] by (auto simp: printed_setting_def)
    show ?thesis
      using ne ex s n kind_name_inj [OF named_kinds_all [OF False]] by (simp add: parsePredicate_def)
  qed
qed

lemma predicate_roundtrip_witness:
  "parsePredicate Map.empty (printed_setting \<lparr>Kind = PredVirtualization, Param = ''kvm'', Negate = True, IsAssert = True\<rparr>)
     ''!kvm'' None = Some \<lparr>Kind = PredVirtualization, Param = ''kvm'', Negate = True, IsAssert = True\<rparr>"
  using predicate_roundtrip [of "\<lparr>Kind = PredVirtualization, Param = ''kvm'', Negate = True, IsAssert = True\<rparr>" Map.empty None]
  by (simp add: TrimSpace_def is_space_def printed_value_def)

section \<open>System call filters\<close>

text \<open>
  Property C28. The check of a filter line in the parser and the builder of the filter accept the same
  items: the items of one line pass \<open>validateSeccompItems\<close> exactly when \<open>Build\<close> makes a filter of them,
  for every mode and default action. A misspelt system call is refused when the file is loaded and not
  when the process starts.
\<close>

theorem filter_check_matches_builder:
  "validateSeccompItems nums items \<longleftrightarrow> (\<exists>f. Build nums goarch items mode [] def [] = Inr f)"
proof -
  have "validateSeccompItems nums items \<longleftrightarrow> \<not> isl (build_items nums 0 items mode ({}, []))"
    by (simp add: validateSeccompItems_def build_items_validate)
  then show ?thesis
    by (cases "build_items nums 0 items mode ({}, [])") (auto simp: Build_def expandList_def)
qed

text \<open>
  The check looks at one line at a time. Two lines can each pass it although their union does not make
  a filter, because the deny prefix is looked for at the head of every line; and a log list may start
  with the prefix, which the builder never accepts there.
\<close>

lemma filter_check_per_line:
  assumes "nums ''read'' = Some a" "nums ''write'' = Some b" "nums ''~read'' = None"
  shows "validateSeccompItems nums [''write'']" and "validateSeccompItems nums [''~read'']"
    and "Build nums goarch ([''write''] @ [''~read'']) mode archs def logs = Inl (TildeNotFirst ''~read'' 1)"
    and "Build nums goarch [''write''] mode archs def [''~read''] = Inl (UnknownLogEntry ''~read'')"
  using assms
  by (simp_all add: validateSeccompItems_def Let_def TrimSpace_def is_space_def TrimPrefix_def Build_def
      appendItem_def ExpandGroup_def syscallGroups_def)

section \<open>What a file can take away\<close>

text \<open>
  The lists that settings can only extend, group by group: \<open>grows d d'\<close> says that every one of them in
  \<open>d'\<close> continues the one in \<open>d\<close>.
\<close>

definition grows_dependencies :: "desc_dependencies \<Rightarrow> desc_dependencies \<Rightarrow> bool" where
  "grows_dependencies g h \<longleftrightarrow>
    prefix (DependsOn g) (DependsOn h) \<and> prefix (DependsMS g) (DependsMS h) \<and>
    prefix (WaitsFor g) (WaitsFor h) \<and> prefix (PreparedBy g) (PreparedBy h) \<and>
    prefix (Before g) (Before h) \<and> prefix (After g) (After h) \<and>
    prefix (BundleMembers g) (BundleMembers h) \<and> prefix (DependsOnD g) (DependsOnD h) \<and>
    prefix (DependsMSD g) (DependsMSD h) \<and> prefix (WaitsForD g) (WaitsForD h) \<and>
    prefix (PreparedByD g) (PreparedByD h)"

definition grows_conditions :: "desc_conditions \<Rightarrow> desc_conditions \<Rightarrow> bool" where
  "grows_conditions g h \<longleftrightarrow>
    prefix (RequiredFiles g) (RequiredFiles h) \<and> prefix (RequiredDirs g) (RequiredDirs h) \<and>
    prefix (Predicates g) (Predicates h) \<and> prefix (Keywords g) (Keywords h) \<and>
    prefix (Credentials g) (Credentials h)"

definition grows_sandbox :: "desc_sandbox \<Rightarrow> desc_sandbox \<Rightarrow> bool" where
  "grows_sandbox g h \<longleftrightarrow>
    prefix (ReadOnlyPaths g) (ReadOnlyPaths h) \<and> prefix (ReadWritePaths g) (ReadWritePaths h) \<and>
    prefix (InaccessiblePaths g) (InaccessiblePaths h) \<and> prefix (BindPaths g) (BindPaths h) \<and>
    prefix (BindReadOnlyPaths g) (BindReadOnlyPaths h) \<and>
    prefix (TemporaryFileSystem g) (TemporaryFileSystem h) \<and>
    prefix (SystemCallFilter g) (SystemCallFilter h) \<and>
    prefix (SystemCallArchitectures g) (SystemCallArchitectures h) \<and>
    prefix (SystemCallLog g) (SystemCallLog h)"

definition grows :: "ServiceDescription \<Rightarrow> ServiceDescription \<Rightarrow> bool" where
  "grows d d' \<longleftrightarrow>
    Name d' = Name d \<and> grows_dependencies (d_dependencies d) (d_dependencies d') \<and>
    grows_conditions (d_conditions d) (d_conditions d') \<and> grows_sandbox (d_sandbox d) (d_sandbox d') \<and>
    prefix (CgroupSettings (d_attributes d)) (CgroupSettings (d_attributes d'))"

lemmas grows_defs = grows_def grows_dependencies_def grows_conditions_def grows_sandbox_def

lemma grows_refl [simp]: "grows d d"
  by (simp add: grows_defs)

lemma grows_trans: "grows d e \<Longrightarrow> grows e f \<Longrightarrow> grows d f"
  by (simp add: grows_defs) (blast intro: prefix_order.trans)

lemma prefix_appended [simp]: "prefix xs (appended ys xs)"
  by (simp add: appended_def)

definition grow_action :: "action \<Rightarrow> bool" where
  "grow_action act \<longleftrightarrow> (\<forall>d d'. act d = Inr d' \<longrightarrow> grows d d')"

lemma grow_combinators:
  "(\<And>d. grows d (f d)) \<Longrightarrow> grow_action (assign f)"
  "(\<And>x d. grows d (g x d)) \<Longrightarrow> grow_action (require r g)"
  "(\<And>d. grows d (f d)) \<Longrightarrow> grow_action (guarded b f)"
  by (auto simp: grow_action_def assign_def require_def guarded_def split: option.splits if_splits)

lemma grow_groups [simp]:
  "grows d (d_commands_update f1 d)" "grows d (d_execution_update f2 d)" "grows d (d_namespaces_update f3 d)"
  "grows d (d_behavior_update f4 d)" "grows d (d_logging_update f5 d)" "grows d (d_logpolicy_update f6 d)"
  "grows d (d_management_update f7 d)" "grows d (d_identity_update f8 d)" "grows d (d_information_update f9 d)"
  "grows d (d_directories_update f10 d)" "grows d (d_resources_update f11 d)" "grows d (d_schedule_update f12 d)"
  "grows d (d_hardening_update f13 d)" "grows d (d_limits_update f14 d)" "grows d (d_inputs_update f15 d)"
  "grows d (d_terminal_update f16 d)"
  "grows d (d_dependencies_update f17 d) \<longleftrightarrow> grows_dependencies (d_dependencies d) (f17 (d_dependencies d))"
  "grows d (d_conditions_update f18 d) \<longleftrightarrow> grows_conditions (d_conditions d) (f18 (d_conditions d))"
  "grows d (d_sandbox_update f19 d) \<longleftrightarrow> grows_sandbox (d_sandbox d) (f19 (d_sandbox d))"
  "grows d (d_attributes_update f20 d) \<longleftrightarrow>
    prefix (CgroupSettings (d_attributes d)) (CgroupSettings (f20 (d_attributes d)))"
  by (simp_all add: grows_defs)

lemma grow_options_loop: "options_loop opts d = Inr d' \<Longrightarrow> grows d d'"
proof (induction opts d rule: options_loop.induct)
  case (2 opt opts d)
  have np: "grows d (d_attributes_update (put NoNewPrivs_update True) d)" by (simp add: put_def)
  show ?case
  proof (cases "option_flag opt")
    case (Some f)
    then have "grows (d_behavior_update (Flags_update f) d) d'" using 2 by simp
    then show ?thesis by (rule grows_trans [OF grow_groups(4)])
  next
    case None
    then have "grows (d_attributes_update (put NoNewPrivs_update True) d) d'" using 2 by (simp split: if_splits)
    then show ?thesis by (rule grows_trans [OF np])
  qed
qed simp

lemma grow_special:
  "grow_action (applyType v)" "grow_action (applyRestart v)" "grow_action (applyLogType v)"
  "grow_action (apply_trigger v n)" "grow_action (apply_min_files v)" "grow_action (apply_calendar v)"
  "grow_action (\<lambda>d. if ScriptBlock (d_commands d) then Inl Rejected else assign (d_commands_update f) d)"
  "grow_action (\<lambda>d. parseReadyNotification v (d_management_update g d))"
  by (auto simp: grow_action_def applyType_def applyRestart_def applyLogType_def apply_trigger_def
      apply_min_files_def apply_calendar_def parseReadyNotification_def assign_def require_def guarded_def Let_def
      grows_defs put_def split: option.splits sum.splits if_splits)

lemma grow_options: "grow_action (applyOptions v keep)"
  unfolding grow_action_def applyOptions_def
  using grow_options_loop grows_trans [OF grow_groups(4)] by (metis (full_types))

lemma grow_log_type:
  "grows d (set_log_type t (d_logging_update f d))" "grows d (set_log_type t (d_logpolicy_update g d))"
  "grows d (d_logging_update f (d_identity_update h d))" "grows d (add_cgroup k v d)"
  by (simp_all add: set_log_type_def add_cgroup_def grows_defs)

lemma settings_grow: "list_all (\<lambda>(n, act). grow_action act) (setting_cases y v op arg)"
  unfolding setting_cases_def setting_tables_def table_defs Let_def list.map concat.simps append.simps
    list.pred_inject prod.case
  by (intro conjI grow_special grow_options grow_combinators TrueI)
    (simp_all add: grow_log_type grows_dependencies_def grows_conditions_def grows_sandbox_def put_def
      split: prod.splits)

lemma applySetting_grows:
  assumes "applySetting y s v op arg d = Inr d'"
  shows "grows d d'"
proof (cases "map_of (setting_cases y v op arg) s")
  case (Some act)
  then have "grow_action act" using settings_grow [of y v op arg] by (auto simp: list_all_iff dest: map_of_SomeD)
  then show ?thesis using assms Some by (simp add: applySetting_def grow_action_def)
next
  case None
  then show ?thesis
    using assms by (auto simp: applySetting_def apply_default_def apply_control_def grows_conditions_def
        split: if_splits option.splits)
qed

lemma grow_lines:
  "grows d (d_conditions_update (Keywords_update (appended ks)) d)"
  "grows d (d_identity_update (put EnableVia_update n) d)" "grows d (script_command y arg body d)"
  by (simp_all add: grows_conditions_def script_command_def Let_def)

interpretation gr: parse_invariant y "grows d0"
  by unfold_locales (blast intro: grows_trans applySetting_grows grow_lines)+

text \<open>
  An overlay, or any file parsed into a description, can only add to what restricts the
  service: its dependencies, its predicates, required files and credentials, its sandbox paths, its
  system call filter and its control group settings. None of them can be removed or reordered, not even
  by a setting with the operator \<open>=\<close>, and the name of the service stays.
\<close>

lemma overlays_only_add:
  assumes "ParseOverlay y fs r fileName d arg = Inr d'"
  shows "Name d' = Name d \<and> grows_dependencies (d_dependencies d) (d_dependencies d') \<and>
    grows_conditions (d_conditions d) (d_conditions d') \<and> grows_sandbox (d_sandbox d) (d_sandbox d') \<and>
    prefix (CgroupSettings (d_attributes d)) (CgroupSettings (d_attributes d'))"
  using gr.parse_file_keeps [OF grows_refl] assms unfolding ParseOverlay_def grows_def by blast

lemma required_line:
  "setting_line ''required-files = /b''"
  "parseLine ''required-files = /b'' = Some (''required-files'', ''/b'', OpEquals)"
  "scan ''required-files = /b'' False = ([''required-files = /b''], False)"
  by (simp_all add: setting_line_def line_text_def bare_keyword_def parseLine_def TrimSpace_def is_space_def
      scan_single MaxScanTokenSize_def)

lemma required_files_equals_appends:
  "ParseOverlay plain_sys fs (''required-files = /b'', False) f d arg
    = Inr (d_conditions_update (RequiredFiles_update (appended [''/b''])) d)"
  using parse_single [OF required_line(1,2) known_required op_bits(1) required_line(3)]
  by (simp add: ParseOverlay_def applySetting_def lookup_required assign_def plain_sys_def expandEnvVars_def
      expandEnvVarsImpl_def Fields_def is_space_def)

lemma overlays_only_add_witness:
  "\<exists>d'. ParseOverlay plain_sys (\<lambda>_. NotExist) (''required-files = /b'', False) ''/o''
      (d_conditions_update (RequiredFiles_update (\<lambda>_. [''/a''])) (NewServiceDescription ''x'')) None = Inr d' \<and>
    prefix [''/a''] (RequiredFiles (d_conditions d'))"
  using overlays_only_add [OF required_files_equals_appends [of "\<lambda>_. NotExist" "''/o''"
      "d_conditions_update (RequiredFiles_update (\<lambda>_. [''/a''])) (NewServiceDescription ''x'')" None]]
  by (auto simp: required_files_equals_appends grows_conditions_def)

section \<open>Accepted descriptions\<close>

text \<open>
  Property C22. Every description that the parser accepts satisfies the invariant \<open>desc_ok\<close>, whatever the
  file, the files it includes, the environment and the service argument are; an overlay keeps it. In
  particular the names of dependencies are valid service names, the sandbox paths are absolute without
  a component \<open>..\<close>, the directory names are relative, the modes are at most octal 777, the niceness, the
  score, the log levels, the buffer sizes and the exit codes are in range, and a script block is the
  command of the shell.
\<close>

theorem parsed_descriptions_are_valid:
  "(\<forall>name. Parse y fs r name fileName = Inr d \<longrightarrow> desc_ok y d) \<and>
   (\<forall>name arg. ParseWithArg y fs r name fileName arg = Inr d \<longrightarrow> desc_ok y d) \<and>
   (\<forall>d0 arg. desc_ok y d0 \<longrightarrow> ParseOverlay y fs r fileName d0 arg = Inr d \<longrightarrow> desc_ok y d)"
  by (auto simp: Parse_def ParseWithArg_def ParseOverlay_def intro: ok.parse_file_keeps [OF desc_ok_new]
      ok.parse_file_keeps)

theorem parsed_descriptions_are_valid_witness:
  "\<exists>d. Parse plain_sys (\<lambda>_. NotExist) (''required-files = /b'', False) ''x'' ''/x'' = Inr d \<and> desc_ok plain_sys d"
proof -
  obtain d where d: "Parse plain_sys (\<lambda>_. NotExist) (''required-files = /b'', False) ''x'' ''/x'' = Inr d"
    using required_files_equals_appends by (simp add: Parse_def ParseOverlay_def)
  with parsed_descriptions_are_valid show ?thesis by blast
qed

section \<open>Settings that do not do what their operator says\<close>

text \<open>
  \<open>capabilities += X\<close> is accepted by the table of operators, and replaces the value: the case does not
  look at the operator. The same holds for the bounding set and for the secure bits.
\<close>

lemma capabilities_append_replaces:
  "ValidOperator ''capabilities'' OpPlusEqual \<and>
   applySetting y ''capabilities'' v OpPlusEqual arg d = Inr (d_resources_update (put Capabilities_update v) d)"
  by (simp add: ValidOperator_def known_capabilities op_defs applySetting_def lookup_capabilities assign_def)

text \<open>
  The size of a quota is multiplied in 64 bits without a check: nine petabytes written in kilobytes
  is a negative size.
\<close>

lemma byte_size_wraps: "parseByteSize ''9007199254740992K'' = Some (- (2 ^ 63))"
proof -
  have "lower_char (CHR ''K'') = CHR ''k''" by (simp add: lower_char_def char_of_def bit_0)
  then have "size_suffix (CHR ''K'') = Some 1024" by (simp add: size_suffix_def)
  then show ?thesis
    by (simp add: parseByteSize_def TrimSpace_def is_space_def ParseInt_def signed_range_def ParseUint_def
        digit_in_base_def lower_char_def int64_def)
qed

text \<open>
  The bound of \<open>logfile-min-files\<close> is checked only against a maximum that was set before: in the other
  order the same two values are accepted.
\<close>

lemma min_files_order:
  assumes "LogMaxFiles (d_logging d) = 0"
  shows "\<exists>d'. apply_min_files ''5'' d = Inr d' \<and> apply_min_files ''5'' (d_logging_update (put LogMaxFiles_update 3) d) = Inl Rejected"
  using assms by (simp add: apply_min_files_def when_some_def Atoi_def read_nat_def digit_value_def put_def)

text \<open>An empty quoted word is lost, and an open quote is closed by the end of the line.\<close>

lemma empty_words_lost:
  "splitCommand ([CHR 0x61, CHR 0x20, CHR 0x22, CHR 0x22, CHR 0x20, CHR 0x62]) = [''a'', ''b'']"
  "splitCommand ([CHR 0x22, CHR 0x61, CHR 0x20, CHR 0x62]) = [''a b'']"
  by (simp_all add: splitCommand_def wordSplitSep_def)

end
