(* ===== verification/InitScripts.thy ===== *)
theory InitScripts
  imports ConfigParse
begin

text \<open>
  The services made from init.d scripts: the headers of LSB scripts and the descriptions built from them
  (\<open>pkg/config/initd.go\<close>), the shell commands that wrap a script (\<open>openrc_confd.go\<close>) and the reading of
  what the \<open>depend\<close> function of an OpenRC script prints (\<open>openrc_depend.go\<close>). The shell that runs that
  function is a parameter: \<open>sh_depend\<close> is what it prints for a script and whether it ends well.
\<close>

section \<open>Quoting for the shell\<close>

definition shellQuote :: "string \<Rightarrow> string" where
  "shellQuote s =
    [CHR 0x27] @ concat (map (\<lambda>c. if c = CHR 0x27 then [CHR 0x27, CHR 0x5C, CHR 0x27, CHR 0x27] else [c]) s)
    @ [CHR 0x27]"

text \<open>\<open>openrcRCConf\<close>, \<open>openrcConfDDir\<close> and \<open>openrcShellPath\<close>, the package's variables.\<close>

record openrc_paths =
  openrcRCConf :: string
  openrcConfDDir :: string
  openrcShellPath :: string

definition default_openrc :: openrc_paths where
  "default_openrc = \<lparr>openrcRCConf = ''/etc/rc.conf'', openrcConfDDir = ''/etc/conf.d'', openrcShellPath = ''/bin/sh''\<rparr>"

definition SetOpenRCPaths :: "string \<Rightarrow> string \<Rightarrow> openrc_paths \<Rightarrow> openrc_paths" where
  "SetOpenRCPaths rcConf confDDir pths =
    pths\<lparr>openrcRCConf := (if rcConf \<noteq> [] then rcConf else openrcRCConf pths),
      openrcConfDDir := (if confDDir \<noteq> [] then confDDir else openrcConfDDir pths)\<rparr>"

definition SetOpenRCShell :: "string \<Rightarrow> openrc_paths \<Rightarrow> openrc_paths" where
  "SetOpenRCShell shell pths = (if shell \<noteq> [] then pths\<lparr>openrcShellPath := shell\<rparr> else pths)"

text \<open>What both wrappers do first: source \<open>rc.conf\<close> and the service's file in \<open>conf.d\<close>, where readable.\<close>

definition source_confs :: "openrc_paths \<Rightarrow> string \<Rightarrow> string" where
  "source_confs pths name =
    (let rc = shellQuote (openrcRCConf pths); conf = shellQuote (openrcConfDDir pths) @ ''/'' @ shellQuote name in
     ''set -a; [ -r '' @ rc @ '' ] && . '' @ rc @ ''; [ -r '' @ conf @ '' ] && . '' @ conf @ ''; set +a; '')"

definition wrapInitdWithConfD :: "openrc_paths \<Rightarrow> string \<Rightarrow> string \<Rightarrow> string \<Rightarrow> string list" where
  "wrapInitdWithConfD pths scriptPath name action =
    [openrcShellPath pths, ''-c'',
     source_confs pths name @ ''exec '' @ shellQuote scriptPath @ '' '' @ shellQuote action]"

definition wrapOpenRCScript :: "openrc_paths \<Rightarrow> string \<Rightarrow> string \<Rightarrow> string \<Rightarrow> string list" where
  "wrapOpenRCScript pths scriptPath name action =
    [openrcShellPath pths, ''-c'', source_confs pths name @ ''. '' @ shellQuote scriptPath @ '' && '' @ action]"

section \<open>LSB headers\<close>

record LSBInfo =
  lsb_Provides :: "string list"
  RequiredStart :: "string list"
  RequiredStop :: "string list"
  ShouldStart :: "string list"
  ShouldStop :: "string list"
  DefaultStart :: "string list"
  DefaultStop :: "string list"
  ShortDescription :: string
  lsb_Description :: string

definition no_lsb :: LSBInfo where
  "no_lsb = \<lparr>lsb_Provides = [], RequiredStart = [], RequiredStop = [], ShouldStart = [], ShouldStop = [],
     DefaultStart = [], DefaultStop = [], ShortDescription = [], lsb_Description = []\<rparr>"

definition lsb_field :: "string \<Rightarrow> string \<Rightarrow> LSBInfo \<Rightarrow> LSBInfo" where
  "lsb_field key v i =
    (if key = ''Provides'' then i\<lparr>lsb_Provides := Fields v\<rparr>
     else if key = ''Required-Start'' then i\<lparr>RequiredStart := Fields v\<rparr>
     else if key = ''Required-Stop'' then i\<lparr>RequiredStop := Fields v\<rparr>
     else if key = ''Should-Start'' then i\<lparr>ShouldStart := Fields v\<rparr>
     else if key = ''Should-Stop'' then i\<lparr>ShouldStop := Fields v\<rparr>
     else if key = ''Default-Start'' then i\<lparr>DefaultStart := Fields v\<rparr>
     else if key = ''Default-Stop'' then i\<lparr>DefaultStop := Fields v\<rparr>
     else if key = ''Short-Description'' then i\<lparr>ShortDescription := v\<rparr>
     else if key = ''Description'' then i\<lparr>lsb_Description := v\<rparr>
     else i)"

text \<open>
  The loop over the lines: whether the block was entered, the fields, the lines of the description, and
  whether the end marker was met, after which nothing more is read.
\<close>

fun lsb_loop :: "bool \<Rightarrow> LSBInfo \<Rightarrow> string list \<Rightarrow> string list \<Rightarrow> bool \<times> LSBInfo \<times> string list \<times> bool" where
  "lsb_loop inBlock info descLines [] = (inBlock, info, descLines, False)"
| "lsb_loop inBlock info descLines (l # ls) =
    (if Contains l ''### BEGIN INIT INFO'' then lsb_loop True info descLines ls
     else if Contains l ''### END INIT INFO'' then (inBlock, info, descLines, True)
     else if \<not> inBlock then lsb_loop inBlock info descLines ls
     else let line = TrimSpace (TrimPrefix l ''#'') in
       if line = [] then lsb_loop inBlock info descLines ls
       else case cut_byte (CHR '':'') line of
         None \<Rightarrow> lsb_loop inBlock info (if descLines \<noteq> [] then descLines @ [line] else descLines) ls
       | Some (k, v) \<Rightarrow>
           lsb_loop inBlock (lsb_field (TrimSpace k) (TrimSpace v) info)
             (if TrimSpace k = ''Description'' then descLines @ [TrimSpace v] else descLines) ls)"

definition ParseLSBHeaders :: "open_answer \<Rightarrow> LSBInfo option" where
  "ParseLSBHeaders answer =
    (case answer of
       Opened content rerr \<Rightarrow>
        let (ls, err) = scan content rerr; (inBlock, info, descLines, ended) = lsb_loop False no_lsb [] ls in
        if err \<and> \<not> ended then None
        else if \<not> inBlock then Some no_lsb
        else Some (if 1 < length descLines then info\<lparr>lsb_Description := Join descLines '' ''\<rparr> else info)
     | _ \<Rightarrow> None)"

definition LSBFacilityMap :: "(string \<times> string) list" where
  "LSBFacilityMap = [(''$syslog'', ''syslog''), (''$network'', ''network''), (''$remote_fs'', ''remote-fs''),
     (''$local_fs'', ''local-fs''), (''$time'', ''time-sync''), (''$named'', ''named''), (''$portmap'', ''portmap'')]"

definition mapFacility :: "string \<Rightarrow> string" where
  "mapFacility name =
    (if name = ''$all'' then []
     else case map_of LSBFacilityMap name of Some m \<Rightarrow> m | None \<Rightarrow> name)"

text \<open>The loops that append the mapped names to a list of dependencies.\<close>

definition mapped_names :: "string list \<Rightarrow> string list" where
  "mapped_names = filter (\<lambda>m. m \<noteq> []) \<circ> map mapFacility"

definition lsbHasDeps :: "LSBInfo \<Rightarrow> bool" where
  "lsbHasDeps lsb \<longleftrightarrow> length (RequiredStart lsb) + length (ShouldStart lsb) + length (lsb_Provides lsb) > 0"

section \<open>OpenRC scripts\<close>

record OpenRCDepend =
  Need :: "string list"
  Use :: "string list"
  Want :: "string list"
  rc_After :: "string list"
  rc_Before :: "string list"
  Provide :: "string list"
  rc_Keyword :: "string list"

definition no_depend :: OpenRCDepend where
  "no_depend = \<lparr>Need = [], Use = [], Want = [], rc_After = [], rc_Before = [], Provide = [], rc_Keyword = []\<rparr>"

definition HasAny :: "OpenRCDepend \<Rightarrow> bool" where
  "HasAny d \<longleftrightarrow> length (Need d) + length (Use d) + length (Want d) + length (rc_After d) + length (rc_Before d)
     + length (Provide d) + length (rc_Keyword d) > 0"

definition depend_entry :: "string \<Rightarrow> string \<Rightarrow> OpenRCDepend \<Rightarrow> OpenRCDepend" where
  "depend_entry kind arg d =
    (if kind = ''need'' then d\<lparr>Need := Need d @ [arg]\<rparr>
     else if kind = ''use'' then d\<lparr>Use := Use d @ [arg]\<rparr>
     else if kind = ''want'' then d\<lparr>Want := Want d @ [arg]\<rparr>
     else if kind = ''after'' then d\<lparr>rc_After := rc_After d @ [arg]\<rparr>
     else if kind = ''before'' then d\<lparr>rc_Before := rc_Before d @ [arg]\<rparr>
     else if kind = ''provide'' then d\<lparr>Provide := Provide d @ [arg]\<rparr>
     else if kind = ''keyword'' then d\<lparr>rc_Keyword := rc_Keyword d @ [arg]\<rparr>
     else d)"

text \<open>The keys of the map \<open>seen\<close> are the kinds and arguments, joined by a zero byte.\<close>

fun depend_loop :: "string list \<Rightarrow> OpenRCDepend \<Rightarrow> string list \<Rightarrow> OpenRCDepend" where
  "depend_loop seen d [] = d"
| "depend_loop seen d (l # ls) =
    (case cut_byte (CHR '' '') (TrimSpace l) of
       None \<Rightarrow> depend_loop seen d ls
     | Some (kind, rest) \<Rightarrow>
        let arg = TrimSpace rest; key = kind @ [CHR 0x00] @ arg in
        if kind = [] \<or> arg = [] \<or> key \<in> set seen then depend_loop seen d ls
        else depend_loop (key # seen) (depend_entry kind arg d) ls)"

definition parseDependOutput :: "string \<Rightarrow> OpenRCDepend" where
  "parseDependOutput text = depend_loop [] no_depend (fst (scan text False))"

text \<open>\<open>ParseOpenRCDepend\<close> on what the shell printed and whether it succeeded.\<close>

definition ParseOpenRCDepend :: "string \<times> bool \<Rightarrow> OpenRCDepend option" where
  "ParseOpenRCDepend out =
    (let dep = parseDependOutput (fst out) in if \<not> snd out \<and> \<not> HasAny dep then None else Some dep)"

definition HasSuffix :: "string \<Rightarrow> string \<Rightarrow> bool" where
  "HasSuffix s t \<longleftrightarrow> HasPrefix (rev s) (rev t)"

definition LooksLikeOpenRCScript :: "string \<Rightarrow> bool" where
  "LooksLikeOpenRCScript header \<longleftrightarrow>
    HasPrefix header ''#!'' \<and>
    (let line = TrimSpace (takeWhile (\<lambda>c. c \<noteq> CHR 0x0A) (drop 2 header)) in
     HasSuffix line ''/openrc-run'' \<or> HasSuffix line ''openrc-run'')"

definition applyOpenRCDepend :: "OpenRCDepend \<Rightarrow> ServiceDescription \<Rightarrow> ServiceDescription" where
  "applyOpenRCDepend dep d =
    d_identity_update (\<lambda>i. if Provides i = [] \<and> Provide dep \<noteq> [] then put Provides_update (hd (Provide dep)) i else i)
     (d_dependencies_update (\<lambda>g.
        BeforeOptional_update (appended (mapped_names (rc_Before dep)))
        (AfterOptional_update (appended (mapped_names (rc_After dep)))
        (WaitsFor_update (appended (mapped_names (Use dep) @ mapped_names (Want dep)))
        (DependsOn_update (appended (mapped_names (Need dep))) g)))) d)"

section \<open>Descriptions of scripts\<close>

text \<open>\<open>sh_stat\<close> answers whether the path is a directory and whether an execute bit is set.\<close>

record script_host =
  sh_open :: "string \<Rightarrow> open_answer"
  sh_stat :: "string \<Rightarrow> (bool \<times> bool) option"
  sh_depend :: "string \<Rightarrow> string \<times> bool"
  sh_paths :: openrc_paths

definition first_bytes :: "nat \<Rightarrow> open_answer \<Rightarrow> string option" where
  "first_bytes n answer = (case answer of Opened content _ \<Rightarrow> Some (take n content) | _ \<Rightarrow> None)"

definition IsInitDScript :: "script_host \<Rightarrow> string \<Rightarrow> bool" where
  "IsInitDScript h path = (sh_stat h path = Some (False, True) \<and> first_bytes 2 (sh_open h path) = Some ''#!'')"

definition script_commands :: "string list \<Rightarrow> string list \<Rightarrow> ServiceDescription \<Rightarrow> ServiceDescription" where
  "script_commands start stop = d_commands_update (\<lambda>c. put StopCommand_update stop (put Command_update start c))"

definition lsb_description :: "LSBInfo \<Rightarrow> ServiceDescription \<Rightarrow> ServiceDescription" where
  "lsb_description lsb d =
    (let text = (if ShortDescription lsb \<noteq> [] then ShortDescription lsb else lsb_Description lsb);
         d1 = (if text \<noteq> [] then d_information_update (put Description_update text) d else d);
         d2 = d_dependencies_update (\<lambda>g. WaitsFor_update (appended (mapped_names (ShouldStart lsb)))
                (DependsOn_update (appended (mapped_names (RequiredStart lsb))) g)) d1;
         d3 = (if lsb_Provides lsb \<noteq> [] then d2\<lparr>Name := hd (lsb_Provides lsb)\<rparr> else d2)
     in if 1 < length (lsb_Provides lsb) then d_identity_update (put Provides_update (lsb_Provides lsb ! 1)) d3 else d3)"

definition openrc_description :: "script_host \<Rightarrow> string \<Rightarrow> string \<Rightarrow> ServiceDescription \<Rightarrow> ServiceDescription" where
  "openrc_description h scriptPath name d =
    (case first_bytes 128 (sh_open h scriptPath) of
       Some header \<Rightarrow>
        if LooksLikeOpenRCScript header then
          script_commands (wrapOpenRCScript (sh_paths h) scriptPath name ''start'')
            (wrapOpenRCScript (sh_paths h) scriptPath name ''stop'')
            (case ParseOpenRCDepend (sh_depend h scriptPath) of
               Some dep \<Rightarrow> if HasAny dep then applyOpenRCDepend dep d else d
             | None \<Rightarrow> d)
        else d
     | None \<Rightarrow> d)"

definition InitDToServiceDescription :: "script_host \<Rightarrow> string \<Rightarrow> ServiceDescription option" where
  "InitDToServiceDescription h scriptPath =
    (case sh_stat h scriptPath of
       Some (_, True) \<Rightarrow>
        (case ParseLSBHeaders (sh_open h scriptPath) of
           None \<Rightarrow> None
         | Some lsb \<Rightarrow>
            let name = Base scriptPath;
                d0 = script_commands (wrapInitdWithConfD (sh_paths h) scriptPath name ''start'')
                       (wrapInitdWithConfD (sh_paths h) scriptPath name ''stop'')
                       ((NewServiceDescription name)\<lparr>Type := TypeScripted\<rparr>);
                d1 = lsb_description lsb d0;
                d2 = (if lsbHasDeps lsb then d1 else openrc_description h scriptPath name d1)
            in Some (d_behavior_update (put AutoRestart_update RestartNever) d2))
     | _ \<Rightarrow> None)"

section \<open>What the shell reads\<close>

text \<open>
  The shell is a parameter: a function from a command to its tokens, with the laws of quoting and of token
  recognition of the POSIX shell command language (2.2 and 2.3). A word is spelled by pieces: ordinary
  characters, text in single quotes, which is kept as it is, and a character after a backslash. The token
  of a word holds its value after the quotes are removed.
\<close>

datatype sh_token = Word string | Semicolon | AndIf | Special char | Unterminated

datatype piece = Plain string | Quoted string | Escaped char

definition sh_special :: "char \<Rightarrow> bool" where
  "sh_special c \<longleftrightarrow> c \<in> set [CHR ''$'', CHR 0x60, CHR 0x22, CHR ''|'', CHR ''<'', CHR ''>'', CHR ''('', CHR '')'',
     CHR ''*'', CHR ''?'', CHR ''#'', CHR ''~'', CHR ''{'', CHR ''}'', CHR ''!'', CHR 0x0A]"

definition ordinary :: "char \<Rightarrow> bool" where
  "ordinary c \<longleftrightarrow>
    c \<notin> set [CHR 0x27, CHR 0x5C, CHR '' '', CHR 0x09, CHR '';'', CHR ''&''] \<and> \<not> sh_special c"

fun piece_ok :: "piece \<Rightarrow> bool" where
  "piece_ok (Plain t) = (t \<noteq> [] \<and> list_all ordinary t)"
| "piece_ok (Quoted t) = (CHR 0x27 \<notin> set t)"
| "piece_ok (Escaped c) = (c \<noteq> CHR 0x0A)"

fun piece_text :: "piece \<Rightarrow> string" where
  "piece_text (Plain t) = t"
| "piece_text (Quoted t) = CHR 0x27 # t @ [CHR 0x27]"
| "piece_text (Escaped c) = [CHR 0x5C, c]"

fun piece_value :: "piece \<Rightarrow> string" where
  "piece_value (Plain t) = t"
| "piece_value (Quoted t) = t"
| "piece_value (Escaped c) = [c]"

definition spelling :: "piece list \<Rightarrow> string" where "spelling ps = concat (map piece_text ps)"

definition word_value :: "piece list \<Rightarrow> string" where "word_value ps = concat (map piece_value ps)"

definition delimited :: "string \<Rightarrow> bool" where
  "delimited rest \<longleftrightarrow> rest = [] \<or> hd rest \<in> {CHR '' '', CHR '';'', CHR ''&''}"

lemma delimited_simps [simp]:
  "delimited []" "delimited (c # rest) \<longleftrightarrow> c \<in> {CHR '' '', CHR '';'', CHR ''&''}"
  by (simp_all add: delimited_def)

locale posix_shell =
  fixes tok :: "string \<Rightarrow> sh_token list"
  assumes end_of_input: "tok [] = []"
    and blank: "tok (CHR '' '' # s) = tok s"
    and word: "ps \<noteq> [] \<Longrightarrow> list_all piece_ok ps \<Longrightarrow> delimited rest \<Longrightarrow>
      tok (spelling ps @ rest) = Word (word_value ps) # tok rest"
    and semicolon: "\<not> HasPrefix s '';'' \<Longrightarrow> tok (CHR '';'' # s) = Semicolon # tok s"
    and and_if: "tok (CHR ''&'' # CHR ''&'' # s) = AndIf # tok s"

text \<open>A quoted text is spelled by quoted pieces and escaped quotes, whatever it is.\<close>

fun quote_pieces :: "string \<Rightarrow> string \<Rightarrow> piece list" where
  "quote_pieces acc [] = [Quoted acc]"
| "quote_pieces acc (c # s) =
    (if c = CHR 0x27 then Quoted acc # Escaped c # quote_pieces [] s else quote_pieces (acc @ [c]) s)"

lemma quote_pieces_spell:
  "spelling (quote_pieces acc s) =
    CHR 0x27 # acc @ concat (map (\<lambda>c. if c = CHR 0x27 then [CHR 0x27, CHR 0x5C, CHR 0x27, CHR 0x27] else [c]) s) @ [CHR 0x27]"
  "word_value (quote_pieces acc s) = acc @ s"
  "CHR 0x27 \<notin> set acc \<Longrightarrow> list_all piece_ok (quote_pieces acc s)"
  "quote_pieces acc s \<noteq> []"
  by (induction s arbitrary: acc) (auto simp: spelling_def word_value_def)

lemma quoted:
  "shellQuote s = spelling (quote_pieces [] s)" "word_value (quote_pieces [] s) = s"
  "list_all piece_ok (quote_pieces [] s)" "quote_pieces [] s \<noteq> []"
  by (simp_all add: quote_pieces_spell shellQuote_def)

text \<open>The words of the part of the command that both wrappers share.\<close>

definition source_tokens :: "openrc_paths \<Rightarrow> string \<Rightarrow> sh_token list" where
  "source_tokens pths name =
    (let rc = openrcRCConf pths; conf = openrcConfDDir pths @ ''/'' @ name in
     [Word ''set'', Word ''-a'', Semicolon, Word ''['', Word ''-r'', Word rc, Word '']'', AndIf, Word ''.'', Word rc,
      Semicolon, Word ''['', Word ''-r'', Word conf, Word '']'', AndIf, Word ''.'', Word conf, Semicolon,
      Word ''set'', Word ''+a'', Semicolon])"

context posix_shell
begin

lemma quoted_word: "delimited rest \<Longrightarrow> tok (shellQuote s @ rest) = Word s # tok rest"
  using word [OF quoted(4,3)] by (simp add: quoted(1,2))

lemma quoted_path:
  "delimited rest \<Longrightarrow> tok (shellQuote s @ CHR ''/'' # shellQuote t @ rest) = Word (s @ ''/'' @ t) # tok rest"
  using word [of "quote_pieces [] s @ Plain ''/'' # quote_pieces [] t" rest] quoted [of s] quoted [of t]
  by (simp add: spelling_def word_value_def ordinary_def sh_special_def)

lemma plain_word: "t \<noteq> [] \<Longrightarrow> list_all ordinary t \<Longrightarrow> delimited rest \<Longrightarrow> tok (t @ rest) = Word t # tok rest"
  using word [of "[Plain t]" rest] by (simp add: spelling_def word_value_def)

lemmas constant_words [simplified] =
  plain_word [of "''set''"] plain_word [of "''-a''"] plain_word [of "''+a''"] plain_word [of "''[''"]
  plain_word [of "'']''"] plain_word [of "''-r''"] plain_word [of "''.''"] plain_word [of "''exec''"]
  plain_word [of "''start''"] plain_word [of "''stop''"]

lemmas reads = end_of_input blank semicolon and_if quoted_word quoted_path constant_words ordinary_def sh_special_def

lemma source_words: "tok (source_confs pths name @ rest) = source_tokens pths name @ tok rest"
  by (simp add: source_confs_def source_tokens_def Let_def reads)

lemma last_words: "tok (shellQuote s) = [Word s]" "tok ''start'' = [Word ''start'']" "tok ''stop'' = [Word ''stop'']"
  using quoted_word [of "[]" s] plain_word [of "''start''" "[]"] plain_word [of "''stop''" "[]"]
  by (simp_all add: end_of_input ordinary_def sh_special_def)

lemma wrapped_words:
  "tok (wrapInitdWithConfD pths scriptPath name action ! 2)
     = source_tokens pths name @ [Word ''exec'', Word scriptPath, Word action]"
  "tok (wrapOpenRCScript pths scriptPath name ''start'' ! 2)
     = source_tokens pths name @ [Word ''.'', Word scriptPath, AndIf, Word ''start'']"
  "tok (wrapOpenRCScript pths scriptPath name ''stop'' ! 2)
     = source_tokens pths name @ [Word ''.'', Word scriptPath, AndIf, Word ''stop'']"
  by (simp_all add: wrapInitdWithConfD_def wrapOpenRCScript_def source_words reads last_words)

end

text \<open>
  Property C27. On every shell that keeps the laws of POSIX for quoting and for the recognition of tokens,
  the commands that are built for an init.d script are read word by word as intended, for any path of the
  script, any name of the service and any configured paths, quotes and blanks and shell metacharacters in
  them included: the names stay single words and no operator comes from them. (The action of an OpenRC
  script is a plain word.)
\<close>

theorem wrapped_scripts_are_safe:
  assumes "posix_shell tok"
  shows "tok (wrapInitdWithConfD pths scriptPath name action ! 2)
      = source_tokens pths name @ [Word ''exec'', Word scriptPath, Word action] \<and>
    tok (wrapOpenRCScript pths scriptPath name ''start'' ! 2)
      = source_tokens pths name @ [Word ''.'', Word scriptPath, AndIf, Word ''start''] \<and>
    tok (wrapOpenRCScript pths scriptPath name ''stop'' ! 2)
      = source_tokens pths name @ [Word ''.'', Word scriptPath, AndIf, Word ''stop'']"
  by (intro conjI posix_shell.wrapped_words [OF assms])

text \<open>
  A reader of tokens that keeps the laws. The second argument tells whether it is inside quotes, the first
  holds the word that is being read; an unquoted character that the shell treats specially in another way
  is a token of its own.
\<close>

definition flush :: "string option \<Rightarrow> sh_token list" where
  "flush w = (case w of Some s \<Rightarrow> [Word s] | None \<Rightarrow> [])"

definition add_char :: "string option \<Rightarrow> char \<Rightarrow> string option" where
  "add_char w c = Some ((case w of Some s \<Rightarrow> s | None \<Rightarrow> []) @ [c])"

fun sh_lex :: "string option \<Rightarrow> bool \<Rightarrow> string \<Rightarrow> sh_token list" where
  "sh_lex w True [] = [Unterminated]"
| "sh_lex w False [] = flush w"
| "sh_lex w True (c # s) = (if c = CHR 0x27 then sh_lex w False s else sh_lex (add_char w c) True s)"
| "sh_lex w False (c # s) =
    (if c = CHR 0x27 then sh_lex (Some (case w of Some v \<Rightarrow> v | None \<Rightarrow> [])) True s
     else if c = CHR 0x5C then (case s of [] \<Rightarrow> [Unterminated] | e # t \<Rightarrow> sh_lex (add_char w e) False t)
     else if c = CHR '' '' \<or> c = CHR 0x09 then flush w @ sh_lex None False s
     else if c = CHR '';'' then flush w @ Semicolon # sh_lex None False s
     else if c = CHR ''&'' then
       (case s of
          [] \<Rightarrow> flush w @ [Special c]
        | e # t \<Rightarrow> if e = c then flush w @ AndIf # sh_lex None False t else flush w @ Special c # sh_lex None False s)
     else if sh_special c then flush w @ Special c # sh_lex None False s
     else sh_lex (add_char w c) False s)"

definition sh_tokens :: "string \<Rightarrow> sh_token list" where
  "sh_tokens = sh_lex None False"

definition word_so_far :: "string option \<Rightarrow> string" where
  "word_so_far w = (case w of Some v \<Rightarrow> v | None \<Rightarrow> [])"

lemma sh_lex_inside:
  "CHR 0x27 \<notin> set t \<Longrightarrow> sh_lex (Some v) True (t @ CHR 0x27 # rest) = sh_lex (Some (v @ t)) False rest"
  by (induction t arbitrary: v) (auto simp: add_char_def)

lemma sh_lex_ordinary:
  "list_all ordinary t \<Longrightarrow> sh_lex (Some v) False (t @ rest) = sh_lex (Some (v @ t)) False rest"
  by (induction t arbitrary: v) (auto simp: add_char_def ordinary_def)

lemma sh_lex_piece:
  "piece_ok p \<Longrightarrow> sh_lex w False (piece_text p @ rest) = sh_lex (Some (word_so_far w @ piece_value p)) False rest"
proof (induction p)
  case (Plain t)
  then obtain c u where t: "t = c # u" by (cases t) auto
  have "sh_lex w False (t @ rest) = sh_lex (add_char w c) False (u @ rest)" using Plain t by (simp add: ordinary_def)
  then show ?case using sh_lex_ordinary [of u "word_so_far w @ [c]" rest] Plain t by (simp add: add_char_def word_so_far_def)
qed (simp_all add: sh_lex_inside add_char_def word_so_far_def)

lemma sh_lex_pieces:
  "list_all piece_ok ps \<Longrightarrow> ps \<noteq> [] \<Longrightarrow>
    sh_lex w False (spelling ps @ rest) = sh_lex (Some (word_so_far w @ word_value ps)) False rest"
proof (induction ps arbitrary: w)
  case (Cons p ps)
  then show ?case
    by (cases "ps = []") (simp_all add: spelling_def word_value_def sh_lex_piece, simp add: word_so_far_def)
qed simp

lemma sh_lex_delimited: "delimited rest \<Longrightarrow> sh_lex (Some v) False rest = Word v # sh_lex None False rest"
proof (cases rest)
  case (Cons c s)
  moreover assume "delimited rest"
  ultimately consider "c = CHR '' ''" | "c = CHR '';''" | "c = CHR ''&''" by auto
  then show ?thesis by cases (simp_all add: Cons flush_def split: list.split)
qed (simp add: flush_def)

lemma sh_tokens_word:
  "ps \<noteq> [] \<Longrightarrow> list_all piece_ok ps \<Longrightarrow> delimited rest \<Longrightarrow>
    sh_tokens (spelling ps @ rest) = Word (word_value ps) # sh_tokens rest"
  by (simp add: sh_tokens_def sh_lex_pieces sh_lex_delimited) (simp add: word_so_far_def)

lemma sh_tokens_delimiters:
  "sh_tokens [] = []" "sh_tokens (CHR '' '' # s) = sh_tokens s" "sh_tokens (CHR '';'' # s) = Semicolon # sh_tokens s"
  "sh_tokens (CHR ''&'' # CHR ''&'' # s) = AndIf # sh_tokens s"
  by (simp_all add: sh_tokens_def flush_def)

interpretation sh: posix_shell sh_tokens
  by (rule posix_shell.intro) (rule sh_tokens_delimiters sh_tokens_word; assumption?)+

theorem wrapped_scripts_are_safe_witness:
  "posix_shell sh_tokens \<and>
    sh_tokens (wrapOpenRCScript default_openrc ''/etc/a b;c'' ''$(x)'' ''start'' ! 2)
      = source_tokens default_openrc ''$(x)'' @ [Word ''.'', Word ''/etc/a b;c'', AndIf, Word ''start'']"
  using wrapped_scripts_are_safe [OF sh.posix_shell_axioms] sh.posix_shell_axioms by simp

section \<open>The descriptions of scripts\<close>

lemma mapped_names_simps [simp]:
  "set (mapped_names ns) = {mapFacility n |n. n \<in> set ns \<and> mapFacility n \<noteq> []}"
  by (auto simp: mapped_names_def)

lemma mapFacility_empty: "mapFacility n = [] \<longleftrightarrow> n = ''$all'' \<or> n = []"
  by (auto simp: mapFacility_def LSBFacilityMap_def split: option.splits if_splits)

text \<open>
  Whatever a script contains, its service is scripted, is not restarted, and runs one of the two kinds
  of commands.
\<close>

lemma script_update_commands:
  "d_commands (lsb_description lsb d) = d_commands d" "Type (lsb_description lsb d) = Type d"
  "d_commands (applyOpenRCDepend dep d) = d_commands d" "Type (applyOpenRCDepend dep d) = Type d"
  by (simp_all add: lsb_description_def applyOpenRCDepend_def Let_def)

lemma InitD_resources:
  "InitDToServiceDescription h p = Some d \<Longrightarrow> d_resources d = d_resources (NewServiceDescription (Base p))"
  by (auto simp: InitDToServiceDescription_def openrc_description_def lsb_description_def applyOpenRCDepend_def
      script_commands_def put_def Let_def split: option.splits prod.splits bool.splits if_splits)

lemma InitD_description:
  assumes "InitDToServiceDescription h p = Some d"
  shows "Type d = TypeScripted" "AutoRestart (d_behavior d) = RestartNever"
    "\<exists>wrap\<in>{wrapInitdWithConfD (sh_paths h), wrapOpenRCScript (sh_paths h)}.
       Command (d_commands d) = wrap p (Base p) ''start'' \<and> StopCommand (d_commands d) = wrap p (Base p) ''stop''"
proof -
  from assms obtain lsb where "ParseLSBHeaders (sh_open h p) = Some lsb"
    and d: "d = d_behavior_update (put AutoRestart_update RestartNever)
      (let d1 = lsb_description lsb (script_commands (wrapInitdWithConfD (sh_paths h) p (Base p) ''start'')
           (wrapInitdWithConfD (sh_paths h) p (Base p) ''stop'') ((NewServiceDescription (Base p))\<lparr>Type := TypeScripted\<rparr>))
       in if lsbHasDeps lsb then d1 else openrc_description h p (Base p) d1)"
    by (auto simp: InitDToServiceDescription_def Let_def split: option.splits prod.splits bool.splits)
  then show "Type d = TypeScripted" "AutoRestart (d_behavior d) = RestartNever"
    by (simp_all add: openrc_description_def script_update_commands script_commands_def put_def Let_def
        split: option.splits)
  from d show "\<exists>wrap\<in>{wrapInitdWithConfD (sh_paths h), wrapOpenRCScript (sh_paths h)}.
       Command (d_commands d) = wrap p (Base p) ''start'' \<and> StopCommand (d_commands d) = wrap p (Base p) ''stop''"
    by (auto simp: openrc_description_def script_update_commands script_commands_def put_def Let_def
        split: option.splits)
qed

end
