(* ===== verification/Platform.thy ===== *)
theory Platform
  imports ConfigText
begin

text \<open>
  Detection of the platform the daemon runs on (\<open>pkg/platform/detect.go\<close>) and the keywords that keep a
  service from being loaded there. The files and the environment that the detection reads are the record
  \<open>host\<close>. A platform is its name, and the empty name is bare metal.
\<close>

section \<open>Platforms\<close>

type_synonym platform = string

definition None_platform :: platform where "None_platform = []"
definition Docker :: platform where "Docker = ''docker''"
definition Podman :: platform where "Podman = ''podman''"
definition LXC :: platform where "LXC = ''lxc''"
definition SystemdNspawn :: platform where "SystemdNspawn = ''systemd-nspawn''"
definition OpenVZ :: platform where "OpenVZ = ''openvz''"
definition Vserver :: platform where "Vserver = ''vserver''"
definition RKT :: platform where "RKT = ''rkt''"
definition UML :: platform where "UML = ''uml''"
definition WSL :: platform where "WSL = ''wsl''"
definition Xen0 :: platform where "Xen0 = ''xen0''"
definition XenU :: platform where "XenU = ''xenu''"
definition KVM :: platform where "KVM = ''kvm''"
definition QEMU :: platform where "QEMU = ''qemu''"
definition VMware :: platform where "VMware = ''vmware''"
definition HyperV :: platform where "HyperV = ''microsoft''"
definition VirtualBox :: platform where "VirtualBox = ''oracle''"
definition Bochs :: platform where "Bochs = ''bochs''"

lemmas platform_names =
  None_platform_def Docker_def Podman_def LXC_def SystemdNspawn_def OpenVZ_def Vserver_def RKT_def UML_def
  WSL_def Xen0_def XenU_def KVM_def QEMU_def VMware_def HyperV_def VirtualBox_def Bochs_def

definition AllTypes :: "platform list" where
  "AllTypes = [Docker, Podman, LXC, SystemdNspawn, OpenVZ, Vserver, RKT, UML, WSL, Xen0, XenU, KVM, QEMU,
     VMware, HyperV, VirtualBox, Bochs]"

definition IsValid :: "string \<Rightarrow> bool" where
  "IsValid s \<longleftrightarrow> (\<exists>t\<in>set AllTypes. EqualFold s t) \<or> s = [] \<or> EqualFold s ''none''"

section \<open>Detection\<close>

text \<open>What reading a file gives, whether a path exists (\<open>Some\<close>, with the answer of \<open>IsDir\<close>), and the environment.\<close>

record host =
  readFileFunc :: "string \<Rightarrow> string option"
  statFunc :: "string \<Rightarrow> bool option"
  host_env :: environ

definition file_contains :: "host \<Rightarrow> string \<Rightarrow> string \<Rightarrow> bool" where
  "file_contains h path text = (case readFileFunc h path of Some s \<Rightarrow> Contains s text | None \<Rightarrow> False)"

definition path_exists :: "host \<Rightarrow> string \<Rightarrow> bool" where
  "path_exists h path \<longleftrightarrow> statFunc h path \<noteq> None"

definition vserver_line :: "string \<Rightarrow> bool" where
  "vserver_line line \<longleftrightarrow>
    (HasPrefix line ''VxID:'' \<or> HasPrefix line ''s_context:'') \<and>
    2 \<le> length (Fields line) \<and> Fields line ! 1 \<noteq> ''0''"

text \<open>The first entry of the environment of process 1 that names a container manager decides.\<close>

definition container_marks :: "(string \<times> platform) list" where
  "container_marks = [(''container=lxc'', LXC), (''container=rkt'', RKT),
     (''container=systemd-nspawn'', SystemdNspawn), (''container=docker'', Docker),
     (''container=podman'', Podman)]"

fun marked_container :: "string list \<Rightarrow> platform option" where
  "marked_container [] = None"
| "marked_container (entry # rest) =
    (case map_of container_marks entry of Some t \<Rightarrow> Some t | None \<Rightarrow> marked_container rest)"

definition detectContainer :: "host \<Rightarrow> platform" where
  "detectContainer h =
    (if file_contains h ''/proc/cpuinfo'' ''UML'' then UML
     else if (case readFileFunc h ''/proc/self/status'' of
         Some s \<Rightarrow> \<exists>line\<in>set (Split s (CHR 0x0A)). vserver_line line | None \<Rightarrow> False) then Vserver
     else if path_exists h ''/proc/vz/veinfo'' \<and> \<not> path_exists h ''/proc/vz/version'' then OpenVZ
     else case (case readFileFunc h ''/proc/1/environ'' of
         Some s \<Rightarrow> marked_container (Split s (CHR 0x00)) | None \<Rightarrow> None) of
       Some t \<Rightarrow> t
     | None \<Rightarrow>
        if path_exists h ''/run/.containerenv'' then Podman
        else if path_exists h ''/.dockerenv'' then Docker
        else if (case readFileFunc h ''/proc/sys/kernel/osrelease'' of
            Some s \<Rightarrow> Contains (ToLower s) ''microsoft'' | None \<Rightarrow> False) then WSL
        else if Getenv (host_env h) ''WSL_DISTRO_NAME'' \<noteq> [] then WSL
        else if path_exists h ''/proc/sys/fs/binfmt_misc/WSLInterop'' then WSL
        else None_platform)"

definition hasKVMClock :: "host \<Rightarrow> bool" where
  "hasKVMClock h =
    file_contains h ''/sys/devices/system/clocksource/clocksource0/available_clocksource'' ''kvm-clock''"

text \<open>The probes of the DMI strings; \<open>None\<close> goes on with the next probe.\<close>

definition dmi_product :: "host \<Rightarrow> platform option" where
  "dmi_product h =
    (case readFileFunc h ''/sys/class/dmi/id/product_name'' of
       None \<Rightarrow> None
     | Some s \<Rightarrow>
        let pn = ToLower (TrimSpace s) in
        if Contains pn ''kvm'' then Some KVM
        else if Contains pn ''virtualbox'' then Some VirtualBox
        else if Contains pn ''vmware'' then Some VMware
        else if Contains pn ''bochs'' then Some Bochs
        else if Contains pn ''virtual machine'' then
          (case readFileFunc h ''/sys/class/dmi/id/sys_vendor'' of
             Some sv \<Rightarrow> if Contains (ToLower sv) ''microsoft'' then Some HyperV else None
           | None \<Rightarrow> None)
        else None)"

definition dmi_vendor :: "host \<Rightarrow> platform option" where
  "dmi_vendor h =
    (case readFileFunc h ''/sys/class/dmi/id/sys_vendor'' of
       None \<Rightarrow> None
     | Some s \<Rightarrow>
        let sv = ToLower (TrimSpace s) in
        if Contains sv ''qemu'' then Some (if hasKVMClock h then KVM else QEMU)
        else if Contains sv ''vmware'' then Some VMware
        else if Contains sv ''microsoft'' then Some HyperV
        else if Contains sv ''innotek'' \<or> Contains sv ''oracle'' then Some VirtualBox
        else if Contains sv ''bochs'' then Some Bochs
        else None)"

definition hypervisor_type :: "host \<Rightarrow> platform option" where
  "hypervisor_type h =
    (case readFileFunc h ''/sys/hypervisor/type'' of
       None \<Rightarrow> None
     | Some s \<Rightarrow>
        let t = ToLower (TrimSpace s) in
        if t = ''xen'' then Some XenU else if t = ''kvm'' then Some KVM else None)"

definition detectVM :: "host \<Rightarrow> platform" where
  "detectVM h =
    (if statFunc h ''/proc/xen'' = Some True then
       (if file_contains h ''/proc/xen/capabilities'' ''control_d'' then Xen0 else XenU)
     else case hypervisor_type h of Some t \<Rightarrow> t
     | None \<Rightarrow> (case dmi_product h of Some t \<Rightarrow> t
     | None \<Rightarrow> (case dmi_vendor h of Some t \<Rightarrow> t
     | None \<Rightarrow> if hasKVMClock h then KVM else None_platform)))"

definition Detect :: "host \<Rightarrow> platform" where
  "Detect h = (let t = detectContainer h in if t \<noteq> None_platform then t else detectVM h)"

section \<open>Keywords\<close>

definition MatchesKeyword :: "string \<Rightarrow> platform \<Rightarrow> bool" where
  "MatchesKeyword keyword detected \<longleftrightarrow>
    detected \<noteq> None_platform \<and> EqualFold (TrimPrefix (TrimPrefix keyword ''-'') ''no'') detected"

definition ShouldSkip :: "string list \<Rightarrow> platform \<Rightarrow> bool" where
  "ShouldSkip keywords detected \<longleftrightarrow>
    detected \<noteq> None_platform \<and> (\<exists>kw\<in>set keywords. MatchesKeyword kw detected)"

section \<open>What is detected\<close>

lemma EqualFold_refl [simp]: "EqualFold s s"
  by (simp add: EqualFold_def)

lemma marked_container_known: "marked_container es = Some t \<Longrightarrow> t \<in> set AllTypes"
proof (induction es)
  case (Cons e es)
  then show ?case
    by (auto simp: AllTypes_def container_marks_def split: option.splits if_splits dest: map_of_SomeD)
qed simp

lemma detectContainer_known: "detectContainer h = None_platform \<or> detectContainer h \<in> set AllTypes"
proof (cases "case readFileFunc h ''/proc/1/environ'' of
    Some s \<Rightarrow> marked_container (Split s (CHR 0x00)) | None \<Rightarrow> None")
  case None
  then show ?thesis unfolding detectContainer_def by (simp add: AllTypes_def)
next
  case (Some t)
  then have "t \<in> set AllTypes" by (auto split: option.splits intro: marked_container_known)
  then show ?thesis unfolding detectContainer_def by (simp add: Some) (simp add: AllTypes_def)
qed

lemma dmi_known:
  "dmi_product h = Some t \<Longrightarrow> t \<in> set AllTypes"
  "dmi_vendor h = Some t \<Longrightarrow> t \<in> set AllTypes"
  "hypervisor_type h = Some t \<Longrightarrow> t \<in> set AllTypes"
  by (auto simp: dmi_product_def dmi_vendor_def hypervisor_type_def Let_def AllTypes_def
      split: option.splits if_splits)

lemma detectVM_known: "detectVM h = None_platform \<or> detectVM h \<in> set AllTypes"
  using dmi_known [of h]
  by (auto simp: detectVM_def AllTypes_def split: option.splits)

lemma Detect_known: "Detect h = None_platform \<or> Detect h \<in> set AllTypes"
  using detectContainer_known [of h] detectVM_known [of h] by (auto simp: Detect_def Let_def)

text \<open>
  Every platform has its four spellings as a keyword, whatever the case of the letters; no platform's
  name starts with the prefixes that are cut off.
\<close>

lemma platform_no_prefix:
  "t \<in> set AllTypes \<Longrightarrow> \<not> HasPrefix t ''-'' \<and> \<not> HasPrefix t ''no'' \<and> t \<noteq> []"
  by (auto simp: AllTypes_def platform_names)

lemma MatchesKeyword_spellings:
  assumes "t \<in> set AllTypes"
  shows "MatchesKeyword t t" "MatchesKeyword (''-'' @ t) t" "MatchesKeyword (''no'' @ t) t"
    "MatchesKeyword (''-no'' @ t) t"
  using platform_no_prefix [OF assms]
  by (simp_all add: MatchesKeyword_def TrimPrefix_def None_platform_def)

lemma detected_platform_skips:
  "Detect h \<noteq> None_platform \<Longrightarrow>
    IsValid (Detect h) \<and> ShouldSkip (kws @ [''-'' @ Detect h]) (Detect h)"
  using Detect_known [of h] MatchesKeyword_spellings(2) [of "Detect h"]
  by (auto simp: IsValid_def ShouldSkip_def intro: bexI [of _ "Detect h"])

lemma bare_metal_skips_nothing: "\<not> ShouldSkip kws None_platform"
  by (simp add: ShouldSkip_def)

end
