(* ===== verification/LoadDescription.thy ===== *)
theory LoadDescription
  imports InitScripts Platform
begin

text \<open>
  How the loader (\<open>pkg/config/loader.go\<close>) finds and checks the description of a service: \<open>findAndParse\<close>
  with the overlays of the \<open>conf.d\<close> directories and the \<open>.override\<close> file beside the description,
  the fallback to init.d scripts, and the checks between settings that \<open>loadServiceImpl\<close> makes before it
  creates the service. What is found on disk is given by \<open>script_host\<close>, as in \<open>InitScripts\<close>.
\<close>

section \<open>The loader's directories\<close>

record DirLoader =
  dirs :: "string list"
  initDirs :: "string list"
  overlayDirs :: "string list"
  platformSys :: platform

definition defaultOverlayDir :: string where "defaultOverlayDir = ''/etc/slinit.conf.d''"

definition NewDirLoader :: "string list \<Rightarrow> DirLoader" where
  "NewDirLoader ds = \<lparr>dirs = ds, initDirs = [], overlayDirs = [defaultOverlayDir], platformSys = None_platform\<rparr>"

definition path_Join :: "string \<Rightarrow> string \<Rightarrow> string" where
  "path_Join a b =
    (if a = [] then (if b = [] then [] else Clean b) else if b = [] then Clean a else Clean (a @ ''/'' @ b))"

section \<open>Errors\<close>

text \<open>
  What is wrong with a description whose settings do not fit together, in the order of the checks.
\<close>

datatype description_fault =
    DisabledOnPlatform
  | SelectAndFilters
  | AlertLevelWithoutFile
  | BundleNotInternal
  | ReadyForBGProcess
  | WatchdogWithoutReady
  | WatchdogNotProcess
  | PriorityMissing
  | DeadlineMissing
  | DeadlineOrder
  | DeadlineWithPriority
  | PriorityUseless
  | DeadlineUseless
  | SchedWithoutPolicy
  | NumaNodesMissing
  | NumaNodesRefused
  | NumaWithoutPolicy

text \<open>
  \<open>DependencyFailed\<close> is the error that wraps another with \<open>%w\<close>, so that \<open>errors.Is\<close> looks through it;
  the errors of \<open>ConsumerOf\<close> and \<open>SharedLogger\<close> keep only the text.
\<close>

datatype ServiceLoadError =
    InvalidName string
  | DepthExceeded string
  | CircularLoad string
  | ParseFailed parse_error
  | CannotRead string
  | ScriptFailed string
  | NotFound string
  | Faulty string description_fault
  | DependencyFailed string ServiceLoadError
  | DirectoryUnreadable string
  | ConsumerRefused string
  | LoggerRefused string
  | OutsideModel string

fun is_not_found :: "ServiceLoadError \<Rightarrow> bool" where
  "is_not_found (NotFound n) = True"
| "is_not_found (DependencyFailed n e) = is_not_found e"
| "is_not_found e = False"

section \<open>Finding a description\<close>

definition service_arg :: "string \<Rightarrow> string option" where
  "service_arg name = map_option snd (cut_byte (CHR ''@'') name)"

definition base_name :: "string \<Rightarrow> string" where
  "base_name name = (case cut_byte (CHR ''@'') name of Some (b, _) \<Rightarrow> b | None \<Rightarrow> name)"

definition search_names :: "string \<Rightarrow> string list" where
  "search_names name = (if base_name name \<noteq> name then [name, base_name name] else [name])"

text \<open>The two nested loops run over the directories, and in each over the names.\<close>

definition search_paths :: "string list \<Rightarrow> string list \<Rightarrow> string list" where
  "search_paths ds names = concat (map (\<lambda>d. map (path_Join d) names) ds)"

fun find_file :: "(string \<Rightarrow> open_answer) \<Rightarrow> string list \<Rightarrow> (ServiceLoadError, (string \<times> string \<times> bool) option) result" where
  "find_file fs [] = Inr None"
| "find_file fs (p # ps) =
    (case fs p of
       Opened content rerr \<Rightarrow> Inr (Some (p, content, rerr))
     | NotExist \<Rightarrow> find_file fs ps
     | OpenError \<Rightarrow> Inl (CannotRead p))"

text \<open>
  The loops of \<open>applyOverlays\<close>; a path that was applied already is passed over.
\<close>

fun overlay_loop ::
  "config_sys \<Rightarrow> (string \<Rightarrow> open_answer) \<Rightarrow> string option \<Rightarrow> string list \<Rightarrow> string list \<Rightarrow> ServiceDescription
    \<Rightarrow> (ServiceLoadError, ServiceDescription) result" where
  "overlay_loop y fs arg applied [] d = Inr d"
| "overlay_loop y fs arg applied (p # ps) d =
    (if p \<in> set applied then overlay_loop y fs arg applied ps d
     else case fs p of
       NotExist \<Rightarrow> overlay_loop y fs arg applied ps d
     | OpenError \<Rightarrow> Inl (CannotRead p)
     | Opened content rerr \<Rightarrow>
        (case ParseOverlay y fs (content, rerr) p d arg of
           Inl e \<Rightarrow> Inl (ParseFailed e)
         | Inr d' \<Rightarrow> overlay_loop y fs arg (p # applied) ps d'))"

definition overlay_names :: "string \<Rightarrow> string list" where
  "overlay_names name = (let b = base_name name in if b \<noteq> [] \<and> b \<noteq> name then [name, b] else [name])"

definition applyOverlays ::
  "config_sys \<Rightarrow> (string \<Rightarrow> open_answer) \<Rightarrow> DirLoader \<Rightarrow> string \<Rightarrow> ServiceDescription
    \<Rightarrow> (ServiceLoadError, ServiceDescription) result" where
  "applyOverlays y fs dl name =
    overlay_loop y fs (service_arg name) [] (search_paths (filter (\<lambda>d. d \<noteq> []) (overlayDirs dl)) (overlay_names name))"

definition applySiblingOverride ::
  "config_sys \<Rightarrow> (string \<Rightarrow> open_answer) \<Rightarrow> string \<Rightarrow> string \<Rightarrow> ServiceDescription
    \<Rightarrow> (ServiceLoadError, ServiceDescription) result" where
  "applySiblingOverride y fs name basePath d =
    (let p = basePath @ ''.override'' in
     case fs p of
       NotExist \<Rightarrow> Inr d
     | OpenError \<Rightarrow> Inl (CannotRead p)
     | Opened content rerr \<Rightarrow>
        (case ParseOverlay y fs (content, rerr) p d (service_arg name) of Inl e \<Rightarrow> Inl (ParseFailed e) | Inr d' \<Rightarrow> Inr d'))"

fun find_script :: "script_host \<Rightarrow> string \<Rightarrow> string list \<Rightarrow> (ServiceLoadError, ServiceDescription \<times> string) result" where
  "find_script h name [] = Inl (NotFound name)"
| "find_script h name (d # ds) =
    (let p = path_Join d name in
     if IsInitDScript h p then
       (case InitDToServiceDescription h p of Some desc \<Rightarrow> Inr (desc, p) | None \<Rightarrow> Inl (ScriptFailed p))
     else find_script h name ds)"

definition parse_primary ::
  "config_sys \<Rightarrow> (string \<Rightarrow> open_answer) \<Rightarrow> string \<Rightarrow> string \<Rightarrow> string \<times> bool \<Rightarrow> (ServiceLoadError, ServiceDescription) result" where
  "parse_primary y fs name p r =
    (case (case service_arg name of Some a \<Rightarrow> ParseWithArg y fs r name p a | None \<Rightarrow> Parse y fs r name p) of
       Inl e \<Rightarrow> Inl (ParseFailed e) | Inr d \<Rightarrow> Inr d)"

definition findAndParse ::
  "config_sys \<Rightarrow> script_host \<Rightarrow> DirLoader \<Rightarrow> string \<Rightarrow> (ServiceLoadError, ServiceDescription \<times> string) result" where
  "findAndParse y h dl name =
    (let fs = sh_open h in
     case find_file fs (search_paths (dirs dl) (search_names name)) of
       Inl e \<Rightarrow> Inl e
     | Inr None \<Rightarrow> find_script h name (initDirs dl)
     | Inr (Some (p, r)) \<Rightarrow>
        rbind (parse_primary y fs name p r) (\<lambda>d0.
        rbind (applyOverlays y fs dl name d0) (\<lambda>d1.
        rbind (applySiblingOverride y fs name p d1) (\<lambda>d2. Inr (d2, p)))))"

section \<open>Checks between settings\<close>

definition SCHED_FIFO :: nat where "SCHED_FIFO = 1"
definition SCHED_RR :: nat where "SCHED_RR = 2"
definition SCHED_DEADLINE :: nat where "SCHED_DEADLINE = 6"

definition sched_fault :: "desc_resources \<Rightarrow> description_fault option" where
  "sched_fault r =
    (if SchedPolicySet r then
       (if SchedPolicy r = SCHED_FIFO \<or> SchedPolicy r = SCHED_RR then
          (if SchedPriority r = 0 then Some PriorityMissing else None)
        else if SchedPolicy r = SCHED_DEADLINE then
          (if SchedRuntime r = 0 \<or> SchedDeadline r = 0 \<or> SchedPeriod r = 0 then Some DeadlineMissing
           else if SchedDeadline r < SchedRuntime r \<or> SchedPeriod r < SchedDeadline r then Some DeadlineOrder
           else if SchedPriority r \<noteq> 0 then Some DeadlineWithPriority else None)
        else if SchedPriority r \<noteq> 0 then Some PriorityUseless
        else if SchedRuntime r \<noteq> 0 \<or> SchedDeadline r \<noteq> 0 \<or> SchedPeriod r \<noteq> 0 then Some DeadlineUseless
        else None)
     else if SchedPriority r \<noteq> 0 \<or> SchedRuntime r \<noteq> 0 \<or> SchedDeadline r \<noteq> 0 \<or> SchedPeriod r \<noteq> 0
       then Some SchedWithoutPolicy
     else None)"

definition MPOL_DEFAULT :: nat where "MPOL_DEFAULT = 0"
definition MPOL_PREFERRED :: nat where "MPOL_PREFERRED = 1"
definition MPOL_BIND :: nat where "MPOL_BIND = 2"
definition MPOL_INTERLEAVE :: nat where "MPOL_INTERLEAVE = 3"
definition MPOL_LOCAL :: nat where "MPOL_LOCAL = 4"

definition numa_fault :: "desc_resources \<Rightarrow> description_fault option" where
  "numa_fault r =
    (if NumaMempolicySet r then
       (if NumaMempolicy r = MPOL_BIND \<or> NumaMempolicy r = MPOL_INTERLEAVE \<or> NumaMempolicy r = MPOL_PREFERRED then
          (if NumaNodes r = [] then Some NumaNodesMissing else None)
        else if NumaMempolicy r = MPOL_DEFAULT \<or> NumaMempolicy r = MPOL_LOCAL then
          (if NumaNodes r \<noteq> [] then Some NumaNodesRefused else None)
        else None)
     else if NumaNodes r \<noteq> [] then Some NumaWithoutPolicy else None)"

text \<open>The members of a bundle become dependencies, each once.\<close>

fun add_members :: "string list \<Rightarrow> string list \<Rightarrow> string list" where
  "add_members [] deps = deps"
| "add_members (m # ms) deps = add_members ms (if m \<in> set deps then deps else deps @ [m])"

definition desugar_bundle :: "ServiceDescription \<Rightarrow> ServiceDescription" where
  "desugar_bundle d =
    (if BundleMembers (d_dependencies d) = [] then d
     else d_dependencies_update (\<lambda>g. DependsOn_update (add_members (BundleMembers g)) g) (d\<lparr>Type := TypeInternal\<rparr>))"

definition has_ready :: "desc_management \<Rightarrow> bool" where
  "has_ready m \<longleftrightarrow> 0 \<le> ReadyNotifyFD m \<or> ReadyNotifyVar m \<noteq> []"

definition early_fault :: "platform \<Rightarrow> ServiceDescription \<Rightarrow> description_fault option" where
  "early_fault p d =
    (if p \<noteq> None_platform \<and> ShouldSkip (Keywords (d_conditions d)) p then Some DisabledOnPlatform
     else if LogSelect (d_logging d) \<noteq> [] \<and> (LogInclude (d_logging d) \<noteq> [] \<or> LogExclude (d_logging d) \<noteq> [])
       then Some SelectAndFilters
     else if AlertFile (d_logpolicy d) = [] \<and> 0 \<le> AlertLevel (d_logpolicy d) then Some AlertLevelWithoutFile
     else if BundleMembers (d_dependencies d) \<noteq> [] \<and> TypeExplicit (d_behavior d) \<and> Type d \<noteq> TypeInternal
       then Some BundleNotInternal
     else None)"

definition late_fault :: "ServiceDescription \<Rightarrow> description_fault option" where
  "late_fault d =
    (let m = d_management d; r = d_resources d in
     if Type d = TypeBGProcess \<and> has_ready m then Some ReadyForBGProcess
     else if 0 < WatchdogTimeout m \<and> \<not> has_ready m then Some WatchdogWithoutReady
     else if 0 < WatchdogTimeout m \<and> Type d \<noteq> TypeProcess then Some WatchdogNotProcess
     else case sched_fault r of Some f \<Rightarrow> Some f | None \<Rightarrow> numa_fault r)"

definition check_description :: "platform \<Rightarrow> ServiceDescription \<Rightarrow> (description_fault, ServiceDescription) result" where
  "check_description p d =
    (case early_fault p d of
       Some f \<Rightarrow> Inl f
     | None \<Rightarrow>
        let d' = desugar_bundle d in case late_fault d' of Some f \<Rightarrow> Inl f | None \<Rightarrow> Inr d')"

text \<open>The part of \<open>loadServiceImpl\<close> that gives the description to create the service from, and its path.\<close>

definition read_description ::
  "config_sys \<Rightarrow> script_host \<Rightarrow> DirLoader \<Rightarrow> string \<Rightarrow> (ServiceLoadError, ServiceDescription \<times> string) result" where
  "read_description y h dl name =
    rbind (findAndParse y h dl name) (\<lambda>(d, p).
    case check_description (platformSys dl) d of Inl f \<Rightarrow> Inl (Faulty name f) | Inr d' \<Rightarrow> Inr (d', p))"

section \<open>What a checked description promises\<close>

definition sched_consistent :: "desc_resources \<Rightarrow> bool" where
  "sched_consistent r \<longleftrightarrow>
    (SchedPriority r \<noteq> 0 \<longrightarrow> SchedPolicySet r \<and> SchedPolicy r \<in> {SCHED_FIFO, SCHED_RR}) \<and>
    (SchedPolicySet r \<and> SchedPolicy r \<in> {SCHED_FIFO, SCHED_RR} \<longrightarrow> 1 \<le> SchedPriority r \<and> SchedPriority r \<le> 99) \<and>
    (SchedRuntime r \<noteq> 0 \<or> SchedDeadline r \<noteq> 0 \<or> SchedPeriod r \<noteq> 0 \<longrightarrow>
       SchedPolicySet r \<and> SchedPolicy r \<in> {SCHED_FIFO, SCHED_RR, SCHED_DEADLINE}) \<and>
    (SchedPolicySet r \<and> SchedPolicy r = SCHED_DEADLINE \<longrightarrow>
       0 < SchedRuntime r \<and> SchedRuntime r \<le> SchedDeadline r \<and> SchedDeadline r \<le> SchedPeriod r)"

definition numa_consistent :: "desc_resources \<Rightarrow> bool" where
  "numa_consistent r \<longleftrightarrow>
    (NumaNodes r \<noteq> [] \<longrightarrow> NumaMempolicySet r \<and> NumaMempolicy r \<notin> {MPOL_DEFAULT, MPOL_LOCAL}) \<and>
    (NumaMempolicySet r \<and> NumaMempolicy r \<in> {MPOL_BIND, MPOL_INTERLEAVE, MPOL_PREFERRED} \<longrightarrow> NumaNodes r \<noteq> [])"

definition consistent :: "ServiceDescription \<Rightarrow> bool" where
  "consistent d \<longleftrightarrow>
    (0 < WatchdogTimeout (d_management d) \<longrightarrow> Type d = TypeProcess \<and> has_ready (d_management d)) \<and>
    (Type d = TypeBGProcess \<longrightarrow> \<not> has_ready (d_management d)) \<and>
    (LogSelect (d_logging d) = [] \<or> LogInclude (d_logging d) = [] \<and> LogExclude (d_logging d) = []) \<and>
    (0 \<le> AlertLevel (d_logpolicy d) \<longrightarrow> AlertFile (d_logpolicy d) \<noteq> []) \<and>
    (BundleMembers (d_dependencies d) \<noteq> [] \<longrightarrow>
       Type d = TypeInternal \<and> set (BundleMembers (d_dependencies d)) \<subseteq> set (DependsOn (d_dependencies d))) \<and>
    sched_consistent (d_resources d) \<and> numa_consistent (d_resources d)"

lemma set_add_members: "set (add_members ms deps) = set deps \<union> set ms"
  by (induction ms arbitrary: deps) auto

lemma add_members_all: "list_all P ms \<Longrightarrow> list_all P deps \<Longrightarrow> list_all P (add_members ms deps)"
  by (auto simp: list_all_iff set_add_members)

lemma desugar_bundle_keeps:
  "d_management (desugar_bundle d) = d_management d" "d_resources (desugar_bundle d) = d_resources d"
  "d_logging (desugar_bundle d) = d_logging d" "d_logpolicy (desugar_bundle d) = d_logpolicy d"
  "BundleMembers (d_dependencies (desugar_bundle d)) = BundleMembers (d_dependencies d)"
  by (simp_all add: desugar_bundle_def)

lemma desugar_bundle_members:
  "BundleMembers (d_dependencies d) \<noteq> [] \<Longrightarrow>
    Type (desugar_bundle d) = TypeInternal \<and>
    set (BundleMembers (d_dependencies d)) \<subseteq> set (DependsOn (d_dependencies (desugar_bundle d)))"
  by (simp add: desugar_bundle_def set_add_members)

lemma desc_ok_desugar: "desc_ok y d \<Longrightarrow> desc_ok y (desugar_bundle d)"
  by (auto simp: desc_ok_def desugar_bundle_def dependencies_ok_def intro: add_members_all)

lemma sched_fault_None: "sched_fault r = None \<Longrightarrow> SchedPriority r \<le> 99 \<Longrightarrow> sched_consistent r"
  by (auto simp: sched_fault_def sched_consistent_def SCHED_FIFO_def SCHED_RR_def SCHED_DEADLINE_def
      split: if_splits)

text \<open>
  The parameters of the deadline policy are refused with every other policy but \<open>fifo\<close> and \<open>rr\<close>, with
  which they are accepted and mean nothing.
\<close>

lemma deadline_with_fifo_accepted:
  "SchedPolicySet r \<Longrightarrow> SchedPolicy r \<in> {SCHED_FIFO, SCHED_RR} \<Longrightarrow> SchedPriority r \<noteq> 0 \<Longrightarrow> sched_fault r = None"
  by (auto simp: sched_fault_def)

lemma numa_fault_None: "numa_fault r = None \<Longrightarrow> numa_consistent r"
  by (auto simp: numa_fault_def numa_consistent_def MPOL_BIND_def MPOL_INTERLEAVE_def MPOL_PREFERRED_def
      MPOL_DEFAULT_def MPOL_LOCAL_def split: if_splits)

lemma check_description_consistent:
  assumes "check_description p d = Inr d'" "SchedPriority (d_resources d) \<le> 99"
  shows "consistent d' \<and> (desc_ok y d \<longrightarrow> desc_ok y d')"
proof -
  from assms(1) have e: "early_fault p d = None" and l: "late_fault d' = None" and d': "d' = desugar_bundle d"
    by (auto simp: check_description_def Let_def split: option.splits)
  have "SchedPriority (d_resources d') \<le> 99" using assms(2) by (simp add: d' desugar_bundle_keeps)
  moreover from l have "sched_fault (d_resources d') = None" "numa_fault (d_resources d') = None"
    "\<not> (Type d' = TypeBGProcess \<and> has_ready (d_management d'))"
    "0 < WatchdogTimeout (d_management d') \<Longrightarrow> Type d' = TypeProcess \<and> has_ready (d_management d')"
    by (auto simp: late_fault_def Let_def split: option.splits if_splits)
  moreover from e have "LogSelect (d_logging d') = [] \<or> LogInclude (d_logging d') = [] \<and> LogExclude (d_logging d') = []"
    "0 \<le> AlertLevel (d_logpolicy d') \<Longrightarrow> AlertFile (d_logpolicy d') \<noteq> []"
    by (auto simp: early_fault_def d' desugar_bundle_keeps split: if_splits)
  ultimately show ?thesis
    using desc_ok_desugar [of y d] desugar_bundle_members [of d]
    by (auto simp: consistent_def d' desugar_bundle_keeps intro: sched_fault_None numa_fault_None)
qed

lemma overlay_loop_ok: "desc_ok y d \<Longrightarrow> overlay_loop y fs arg applied ps d = Inr d' \<Longrightarrow> desc_ok y d'"
  by (induction ps arbitrary: applied d)
    (auto simp: ParseOverlay_def split: if_splits open_answer.splits sum.splits intro: ok.parse_file_keeps)

lemma find_script_ok:
  "find_script h name ds = Inr (d, p) \<Longrightarrow> SchedPriority (d_resources d) \<le> 99 \<and> (\<exists>dir\<in>set ds. p = path_Join dir name)"
  by (induction ds)
    (auto simp: InitD_resources NewServiceDescription_def new_defs Let_def split: if_splits option.splits)

lemma findAndParse_ok:
  assumes f: "findAndParse y h dl name = Inr (d, p)"
    and some: "find_file (sh_open h) (search_paths (dirs dl) (search_names name)) \<noteq> Inr None"
  shows "desc_ok y d \<and> p \<in> set (search_paths (dirs dl) (search_names name))"
proof -
  have found: "find_file fs ps = Inr (Some (q, r)) \<Longrightarrow> q \<in> set ps" for fs ps q r
    by (induction ps) (auto split: open_answer.splits)
  from f some obtain r d0 d1 where
    "find_file (sh_open h) (search_paths (dirs dl) (search_names name)) = Inr (Some (p, r))"
    and 0: "parse_primary y (sh_open h) name p r = Inr d0"
    and 1: "applyOverlays y (sh_open h) dl name d0 = Inr d1"
    and 2: "applySiblingOverride y (sh_open h) name p d1 = Inr d"
    by (auto simp: findAndParse_def Let_def rbind_eq_Inr split: sum.splits option.splits)
  then have "p \<in> set (search_paths (dirs dl) (search_names name))" by (auto intro: found)
  moreover have "desc_ok y d0"
    using 0 desc_ok_new by (auto simp: parse_primary_def Parse_def ParseWithArg_def split: sum.splits option.splits
        intro: ok.parse_file_keeps)
  then have "desc_ok y d1" using 1 by (auto simp: applyOverlays_def intro: overlay_loop_ok)
  then have "desc_ok y d"
    using 2 by (auto simp: applySiblingOverride_def ParseOverlay_def Let_def split: open_answer.splits sum.splits
        intro: ok.parse_file_keeps)
  ultimately show ?thesis by simp
qed


text \<open>
  The ordinary case: one directory, a name without an argument, no overlay and no override.
\<close>

lemma findAndParse_plain:
  assumes name: "CHR ''@'' \<notin> set name"
    and files: "sh_open h (path_Join dir name) = Opened content rerr"
      "sh_open h (path_Join defaultOverlayDir name) = NotExist"
      "sh_open h (path_Join dir name @ ''.override'') = NotExist"
    and d: "parse_file y (sh_open h) None (path_Join dir name) (content, rerr) (NewServiceDescription name) = Inr d"
  shows "findAndParse y h (NewDirLoader [dir]) name = Inr (d, path_Join dir name)"
proof -
  from name have "cut_byte (CHR ''@'') name = None" by (simp add: cut_byte_None)
  then have n: "service_arg name = None" "base_name name = name"
    by (simp_all add: service_arg_def base_name_def)
  then have "search_names name = [name]" "overlay_names name = [name]"
    by (simp_all add: search_names_def overlay_names_def)
  then show ?thesis
    using n files d
    by (simp add: findAndParse_def NewDirLoader_def search_paths_def parse_primary_def Parse_def
        applyOverlays_def applySiblingOverride_def defaultOverlayDir_def Let_def)
qed

lemma check_new_description: "check_description None_platform (NewServiceDescription name) = Inr (NewServiceDescription name)"
proof -
  have "early_fault None_platform (NewServiceDescription name) = None"
    by (simp add: early_fault_def NewServiceDescription_def new_defs)
  moreover have "desugar_bundle (NewServiceDescription name) = NewServiceDescription name"
    by (simp add: desugar_bundle_def NewServiceDescription_def new_defs)
  moreover have "late_fault (NewServiceDescription name) = None"
    by (simp add: late_fault_def sched_fault_def numa_fault_def has_ready_def NewServiceDescription_def new_defs)
  ultimately show ?thesis by (simp add: check_description_def)
qed

text \<open>A host with one description, which is empty.\<close>

definition one_file :: "string \<Rightarrow> string \<Rightarrow> script_host" where
  "one_file path content =
    \<lparr>sh_open = (\<lambda>p. if p = path then Opened content False else NotExist), sh_stat = (\<lambda>_. None),
     sh_depend = (\<lambda>_. ([], True)), sh_paths = default_openrc\<rparr>"

lemma sample_paths: "path_Join ''/d'' ''a'' = ''/d/a''" "path_Join defaultOverlayDir ''a'' = ''/etc/slinit.conf.d/a''"
  by code_simp+

lemma parse_empty: "parse_file y fs arg p ([], False) d = Inr d"
  by (simp add: parse_file_def scan_def scan_lines_def)

lemma read_empty_description:
  "read_description plain_sys (one_file ''/d/a'' []) (NewDirLoader [''/d'']) ''a'' = Inr (NewServiceDescription ''a'', ''/d/a'')"
proof -
  have "findAndParse plain_sys (one_file ''/d/a'' []) (NewDirLoader [''/d'']) ''a''
      = Inr (NewServiceDescription ''a'', path_Join ''/d'' ''a'')"
    by (rule findAndParse_plain [where content = "[]" and rerr = False]) (simp_all add: one_file_def sample_paths parse_empty)
  moreover have "platformSys (NewDirLoader ds) = None_platform" for ds by (simp add: NewDirLoader_def)
  ultimately show ?thesis by (simp add: read_description_def check_new_description sample_paths)
qed


end
