(* ===== verification/LoadConfig.thy ===== *)
theory LoadConfig
  imports LoadDescription Construct
begin

unbundle bit_operations_syntax

text \<open>
  From a description to a service: \<open>createService\<close>, \<open>updateTypeSpecificFields\<close>, \<open>applyToService\<close> and their
  helpers in \<open>pkg/config/loader.go\<close>. The configuration that the life cycle reads is \<open>svc_cfg\<close> and
  \<open>proc_cfg\<close> of \<open>World\<close>; \<open>rec_attrs\<close> holds fields of the record that are used when the process is
  started and that the loader computes. The record's fields that are plain copies of a setting and that
  no modelled component reads (texts, log settings, terminal, credentials) are left out. Background
  processes are no service of the model.
\<close>

section \<open>Creating a service\<close>

definition create_impl :: "ServiceType \<Rightarrow> service_impl option" where
  "create_impl t =
    (case t of
       TypeInternal \<Rightarrow> Some Internal
     | TypeProcess \<Rightarrow> Some Process
     | TypeScripted \<Rightarrow> Some Scripted
     | TypeTriggered \<Rightarrow> Some Triggered
     | TypeBGProcess \<Rightarrow> None
     | TypePlaceholder \<Rightarrow> Some Internal)"

definition dbusReadyCheckCommand :: "string \<Rightarrow> string \<Rightarrow> string \<Rightarrow> string list" where
  "dbusReadyCheckCommand dbusSendPath name scope =
    [''/bin/sh'', ''-c'',
     dbusSendPath @ '' '' @ (if scope = ''session'' then ''--session'' else ''--system'') @
     '' --dest=org.freedesktop.DBus --print-reply /org/freedesktop/DBus org.freedesktop.DBus.NameHasOwner string:'' @
     name @ '' 2>/dev/null | grep -q '' @ [CHR 0x27] @ ''boolean true'' @ [CHR 0x27]]"

text \<open>
  The command that polls for readiness and its interval. The first argument is the path of \<open>dbus-send\<close>
  when \<open>dbusSendAvailable\<close> found one.
\<close>

definition ready_check :: "string option \<Rightarrow> ServiceDescription \<Rightarrow> string list \<times> duration" where
  "ready_check dbus d =
    (let rcc = ReadyCheckCommand (d_commands d); rci = ReadyCheckInterval (d_commands d); t = d_terminal d in
     case dbus of
       Some path \<Rightarrow>
        if BusName t \<noteq> [] \<and> rcc = [] then
          (dbusReadyCheckCommand path (BusName t) (BusNameScope t), if rci = 0 then 100000000 else rci)
        else (rcc, rci)
     | None \<Rightarrow> (rcc, rci))"

definition readiness_of :: "bool \<Rightarrow> string list \<Rightarrow> readiness" where
  "readiness_of pipe check = (if pipe then ReadyPipe else if check \<noteq> [] then ReadyCheck else NoReadiness)"

text \<open>\<open>if desc.X > 0 { svc.SetX(desc.X) }\<close>\<close>

definition if_positive :: "int \<Rightarrow> int \<Rightarrow> int" where
  "if_positive new old = (if 0 < new then new else old)"

text \<open>What the cases for processes of \<open>createService\<close> and \<open>updateTypeSpecificFields\<close> have in common.\<close>

definition process_settings :: "ServiceDescription \<Rightarrow> proc_cfg \<Rightarrow> proc_cfg" where
  "process_settings d c =
    (let k = d_commands d; m = d_management d;
         backoff = (0 < RestartDelayStep m \<or> 0 < RestartDelayCap m);
         limits = (0 < RestartInterval m \<or> 0 < RestartLimitCount m) in
     c\<lparr>command := Command k, stopCommand := StopCommand k, preStartCommand := PreStartCommand k,
       startTimeout := if_positive (StartTimeout m) (startTimeout c),
       stopTimeout := if_positive (StopTimeout m) (stopTimeout c),
       restartDelay := if_positive (RestartDelay m) (restartDelay c),
       restartDelayStep := (if backoff then RestartDelayStep m else restartDelayStep c),
       restartDelayCap := (if backoff then RestartDelayCap m else restartDelayCap c),
       restartInterval := (if limits then RestartInterval m else restartInterval c),
       maxRestartCount := (if limits then RestartLimitCount m else maxRestartCount c),
       watchdogTimeout := if_positive (WatchdogTimeout m) (watchdogTimeout c)\<rparr>)"

definition script_settings :: "ServiceDescription \<Rightarrow> proc_cfg \<Rightarrow> proc_cfg" where
  "script_settings d c =
    (let k = d_commands d; m = d_management d in
     c\<lparr>command := Command k, stopCommand := StopCommand k,
       startTimeout := if_positive (StartTimeout m) (startTimeout c),
       stopTimeout := if_positive (StopTimeout m) (stopTimeout c)\<rparr>)"

definition createService :: "string option \<Rightarrow> ServiceDescription \<Rightarrow> service_impl \<Rightarrow> proc_cfg" where
  "createService dbus d i =
    (case i of
       Process \<Rightarrow>
        (process_settings d NewProcessService)
          \<lparr>ready_via := readiness_of (has_ready (d_management d)) (fst (ready_check dbus d))\<rparr>
     | Scripted \<Rightarrow> script_settings d NewProcessService
     | _ \<Rightarrow> NewProcessService)"

text \<open>\<open>updateTypeSpecificFields\<close>, which a reload applies to the service that exists.\<close>

definition updateTypeSpecificFields :: "string option \<Rightarrow> ServiceDescription \<Rightarrow> service_impl \<Rightarrow> proc_cfg \<Rightarrow> proc_cfg" where
  "updateTypeSpecificFields dbus d i c =
    (let m = d_management d; n = d_inputs d;
         pipe = (has_ready m \<and> \<not> (NotifyAccessSet n \<and> NotifyAccess n = NotifyAccessNone)) in
     case i of
       Process \<Rightarrow>
        (process_settings d c)
          \<lparr>timeoutAbortSec := if_positive (TimeoutAbortSec m) (timeoutAbortSec c),
           timeoutStartFailureMode := TimeoutStartFailureMode m,
           exitType := ExitType m,
           restartRandomizedDelay := if_positive (RestartRandomizedDelay m) (restartRandomizedDelay c),
           restartMaxDelay := if_positive (RestartMaxDelay m) (restartMaxDelay c),
           ready_via := readiness_of pipe (fst (ready_check dbus d))\<rparr>
     | Scripted \<Rightarrow> script_settings d c
     | _ \<Rightarrow> c)"

section \<open>The life cycle's configuration\<close>

definition if_nonempty :: "'a list \<Rightarrow> 'a list \<Rightarrow> 'a list" where
  "if_nonempty new old = (if new \<noteq> [] then new else old)"

definition apply_actions :: "ServiceDescription \<Rightarrow> svc_cfg \<Rightarrow> svc_cfg" where
  "apply_actions d c =
    (let k = d_conditions d in
     c\<lparr>failureAction := FailureAction k, successAction := SuccessAction k, startLimitAction := StartLimitAction k,
       rebootArgument := RebootArgument k, runtimeMax := RuntimeMaxSec k, jobTimeout := JobTimeoutSec k\<rparr>)"

definition apply_record :: "ServiceDescription \<Rightarrow> svc_cfg \<Rightarrow> svc_cfg" where
  "apply_record d c =
    (let b = d_behavior d; i = d_identity d in
     (apply_actions d c)
     \<lparr>dynamicUser := DynamicUser i, fdStoreMax := FileDescriptorStoreMax i,
       autoRestart := AutoRestart b, smoothRecovery := SmoothRecovery b, manualStart := ManualStart b,
       stopWhenUnneeded := StopWhenUnneeded b, normalExitCodes := NormalExitCodes b,
       restartForceExitCodes := RestartForceExitCodes b, restartMode := RestartMode (d_management d),
       normalExitSignals := NormalExitSignals b, svcFlags := Flags b,
       chainTo := if_nonempty (ChainTo i) (chainTo c)\<rparr>)"

definition apply_signals :: "ServiceDescription \<Rightarrow> proc_cfg \<Rightarrow> proc_cfg" where
  "apply_signals d c =
    (let l = d_limits d in
     c\<lparr>termSignal := TermSignal (d_management d), timeoutStopFailureMode := TimeoutStopFailureMode l,
       finalKillSignal := desc_limits.FinalKillSignal l, surviveFinalKillSignal := SurviveFinalKillSignal l,
       restartKillSignal := RestartKillSignal l, killMode := KillMode l\<rparr>)"

section \<open>Attributes of the process\<close>

record ServiceDir =
  sd_Path :: string
  sd_Mode :: nat
  sd_Volatile :: bool

record Rlimit =
  rl_Resource :: nat
  rl_Soft :: u64
  rl_Hard :: u64

record rec_attrs =
  cgroupPath :: string
  cgroupSlice :: string
  cgroupSettings :: "CgroupSetting list"
  steadyAllowedCPUs :: string
  steadyAllowedMemoryNodes :: string
  rlimits :: "Rlimit list"
  ioPrio :: "int \<times> int"
  cloneflags :: u64
  sandbox :: "desc_sandbox option"
  hardening :: "desc_hardening option"
  serviceDirs_of :: "ServiceDir list"
  runtimeDirPreserve :: int
  rec_provides :: string

definition new_attrs :: rec_attrs where
  "new_attrs = \<lparr>cgroupPath = [], cgroupSlice = [], cgroupSettings = [], steadyAllowedCPUs = [],
     steadyAllowedMemoryNodes = [], rlimits = [], ioPrio = (0, 0), cloneflags = 0, sandbox = None, hardening = None,
     serviceDirs_of = [], runtimeDirPreserve = 0, rec_provides = []\<rparr>"

text \<open>
  \<open>resolveServiceDirs\<close>: the five lists of directories below their bases.
\<close>

definition dirs_below :: "string \<Rightarrow> nat option \<Rightarrow> bool \<Rightarrow> string list \<Rightarrow> ServiceDir list" where
  "dirs_below base mode volatile =
    map (\<lambda>n. \<lparr>sd_Path = path_Join base n, sd_Mode = (case mode of Some m \<Rightarrow> m | None \<Rightarrow> 493), sd_Volatile = volatile\<rparr>)"

definition resolveServiceDirs :: "desc_directories \<Rightarrow> ServiceDir list" where
  "resolveServiceDirs g =
    dirs_below ''/run'' (RuntimeDirMode g) True (RuntimeDirs g) @
    dirs_below ''/var/lib'' (StateDirMode g) False (StateDirs g) @
    dirs_below ''/var/cache'' (CacheDirMode g) False (CacheDirs g) @
    dirs_below ''/var/log'' (LogsDirMode g) False (LogsDirs g) @
    dirs_below ''/etc'' (ConfigDirMode g) False (ConfigDirs g)"

definition parseIOPrio :: "string \<Rightarrow> int \<times> int" where
  "parseIOPrio s =
    (let (cl, lv) = (case cut_byte (CHR '':'') s of Some (a, b) \<Rightarrow> (TrimSpace a, Some (TrimSpace b)) | None \<Rightarrow> (TrimSpace s, None));
         t = ToLower cl;
         class = (if t = ''realtime'' \<or> t = ''rt'' then Some 1
                  else if t = ''best-effort'' \<or> t = ''be'' then Some 2
                  else if t = ''idle'' then Some 3
                  else case Atoi cl of Some n \<Rightarrow> if 0 \<le> n \<and> n \<le> 3 then Some n else None | None \<Rightarrow> None) in
     case class of
       None \<Rightarrow> (-1, 0)
     | Some c \<Rightarrow> (c, case Option.bind lv Atoi of Some n \<Rightarrow> if 0 \<le> n \<and> n \<le> 7 then n else 0 | None \<Rightarrow> 0))"

definition rlimit_of :: "nat \<Rightarrow> (u64 \<times> u64) option \<Rightarrow> Rlimit list" where
  "rlimit_of resource v = (case v of Some (s, h) \<Rightarrow> [\<lparr>rl_Resource = resource, rl_Soft = s, rl_Hard = h\<rparr>] | None \<Rightarrow> [])"

definition applyRlimits :: "desc_resources \<Rightarrow> rec_attrs \<Rightarrow> rec_attrs" where
  "applyRlimits r a =
    a\<lparr>rlimits := rlimits a @ rlimit_of 7 (RlimitNofile r) @ rlimit_of 4 (RlimitCore r) @
        rlimit_of 2 (RlimitData r) @ rlimit_of 9 (RlimitAs r)\<rparr>"

definition CLONE_NEWNS :: u64 where "CLONE_NEWNS = 0x20000"
definition CLONE_NEWCGROUP :: u64 where "CLONE_NEWCGROUP = 0x2000000"
definition CLONE_NEWUTS :: u64 where "CLONE_NEWUTS = 0x4000000"
definition CLONE_NEWIPC :: u64 where "CLONE_NEWIPC = 0x8000000"
definition CLONE_NEWUSER :: u64 where "CLONE_NEWUSER = 0x10000000"
definition CLONE_NEWPID :: u64 where "CLONE_NEWPID = 0x20000000"
definition CLONE_NEWNET :: u64 where "CLONE_NEWNET = 0x40000000"

definition flag_if :: "bool \<Rightarrow> u64 \<Rightarrow> u64" where
  "flag_if b f = (if b then f else 0)"

definition sandbox_Active :: "desc_sandbox \<Rightarrow> bool" where
  "sandbox_Active c \<longleftrightarrow>
    PrivateTmp c \<or> ProtectSystem c \<noteq> [] \<or> ReadOnlyPaths c \<noteq> [] \<or> ReadWritePaths c \<noteq> [] \<or>
    ProtectHome c \<noteq> [] \<or> InaccessiblePaths c \<noteq> [] \<or> ProtectProc c \<noteq> [] \<or> ProcSubset c \<noteq> [] \<or>
    BindPaths c \<noteq> [] \<or> BindReadOnlyPaths c \<noteq> [] \<or> TemporaryFileSystem c \<noteq> []"

definition hardening_Active :: "desc_hardening \<Rightarrow> bool" where
  "hardening_Active c \<longleftrightarrow>
    ProtectKernelTunables c \<or> ProtectKernelModules c \<or> ProtectKernelLogs c \<or> ProtectClock c \<or>
    ProtectControlGroups c \<or> ProtectHostname c \<or> LockPersonality c \<or> RestrictRealtime c \<or>
    RestrictNamespaces c \<or> RestrictSUIDSGID c \<or> RestrictFileSystems c \<or> RestrictAFEnabled c \<or>
    MemoryDenyWriteExecute c"

definition description_cloneflags :: "ServiceDescription \<Rightarrow> u64" where
  "description_cloneflags d =
    (let n = d_namespaces d; h = d_hardening d in
     flag_if (NamespacePID n) CLONE_NEWPID OR flag_if (NamespaceMount n) CLONE_NEWNS OR
     flag_if (NamespaceNet n) CLONE_NEWNET OR flag_if (NamespaceUTS n) CLONE_NEWUTS OR
     flag_if (NamespaceIPC n) CLONE_NEWIPC OR flag_if (NamespaceUser n) CLONE_NEWUSER OR
     flag_if (NamespaceCgroup n) CLONE_NEWCGROUP OR
     flag_if (sandbox_Active (d_sandbox d)) CLONE_NEWNS OR
     flag_if (hardening_Active h \<and> (ProtectKernelTunables h \<or> ProtectControlGroups h \<or> ProtectKernelLogs h)) CLONE_NEWNS)"

text \<open>
  The settings written into the cgroup when it is created, and the values that are restored once the
  service is started.
\<close>

definition cgroup_entry :: "string \<Rightarrow> string \<Rightarrow> CgroupSetting list" where
  "cgroup_entry file v = (if v \<noteq> [] then [\<lparr>cg_File = file, cg_Value = v\<rparr>] else [])"

definition creation_settings :: "ServiceDescription \<Rightarrow> CgroupSetting list" where
  "creation_settings d =
    (let l = d_limits d in
     CgroupSettings (d_attributes d) @ cgroup_entry ''cpuset.cpus.partition'' (CpusetPartition l) @
     cgroup_entry ''cpuset.cpus'' (StartupAllowedCPUs l) @ cgroup_entry ''cpuset.mems'' (StartupAllowedMemoryNodes l))"

definition steady_value :: "string \<Rightarrow> CgroupSetting list \<Rightarrow> string \<Rightarrow> string" where
  "steady_value file cs old = foldl (\<lambda>v s. if cg_File s = file then cg_Value s else v) old cs"

definition apply_cgroup :: "ServiceDescription \<Rightarrow> rec_attrs \<Rightarrow> rec_attrs" where
  "apply_cgroup d a =
    (let t = d_attributes d; l = d_limits d; cs = CgroupSettings t in
     a\<lparr>cgroupPath := if_nonempty (CgroupPath t) (cgroupPath a),
       cgroupSlice := (if CgroupPath t \<noteq> [] then Slice t else cgroupSlice a),
       cgroupSettings := if_nonempty (creation_settings d) (cgroupSettings a),
       steadyAllowedCPUs := (if StartupAllowedCPUs l \<noteq> [] then steady_value ''cpuset.cpus'' cs (steadyAllowedCPUs a)
         else steadyAllowedCPUs a),
       steadyAllowedMemoryNodes :=
         (if StartupAllowedMemoryNodes l \<noteq> [] then steady_value ''cpuset.mems'' cs (steadyAllowedMemoryNodes a)
          else steadyAllowedMemoryNodes a)\<rparr>)"

definition apply_isolation :: "ServiceDescription \<Rightarrow> rec_attrs \<Rightarrow> rec_attrs" where
  "apply_isolation d a =
    (let f = description_cloneflags d in
     a\<lparr>sandbox := (if sandbox_Active (d_sandbox d) then Some (d_sandbox d) else sandbox a),
       hardening := (if hardening_Active (d_hardening d) then Some (d_hardening d) else hardening a),
       cloneflags := (if f \<noteq> 0 then f else cloneflags a)\<rparr>)"

definition apply_directories :: "ServiceDescription \<Rightarrow> rec_attrs \<Rightarrow> rec_attrs" where
  "apply_directories d a =
    (let ds = resolveServiceDirs (d_directories d) in
     if ds \<noteq> [] then a\<lparr>serviceDirs_of := ds, runtimeDirPreserve := RuntimeDirPreserve (d_directories d)\<rparr> else a)"

definition apply_ioprio :: "ServiceDescription \<Rightarrow> rec_attrs \<Rightarrow> rec_attrs" where
  "apply_ioprio d a =
    (let s = IOPrio (d_attributes d); p = parseIOPrio s in
     if s \<noteq> [] \<and> 0 \<le> fst p then a\<lparr>ioPrio := p\<rparr> else a)"

definition applyToService :: "ServiceDescription \<Rightarrow> rec_attrs \<Rightarrow> rec_attrs" where
  "applyToService d a =
    apply_isolation d (applyRlimits (d_resources d) (apply_ioprio d (apply_cgroup d (apply_directories d
      (a\<lparr>rec_provides := if_nonempty (Provides (d_identity d)) (rec_provides a)\<rparr>)))))"

text \<open>\<open>EffectiveCgroupPath\<close> of \<open>record.go\<close>; the last argument is the daemon's default.\<close>

definition EffectiveCgroupPath :: "string \<Rightarrow> string \<Rightarrow> rec_attrs \<Rightarrow> string" where
  "EffectiveCgroupPath name fallback a =
    (if cgroupPath a \<noteq> [] then cgroupPath a
     else if cgroupSlice a \<noteq> [] then ''/sys/fs/cgroup/'' @ cgroupSlice a @ ''/'' @ name
     else fallback)"

text \<open>
  \<open>cleanupServiceDirs\<close> of \<open>record.go\<close>, called when the service has stopped: the paths that are removed
  with everything below them.
\<close>

definition cleanupServiceDirs :: "bool \<Rightarrow> rec_attrs \<Rightarrow> string list" where
  "cleanupServiceDirs willRestart a =
    (if runtimeDirPreserve a = 1 \<or> (runtimeDirPreserve a = 2 \<and> willRestart) then []
     else map sd_Path (filter sd_Volatile (serviceDirs_of a)))"

section \<open>Loading against reloading\<close>

lemma if_positive_twice [simp]: "if_positive x (if_positive x y) = if_positive x y"
  by (simp add: if_positive_def)

lemma process_settings_twice [simp]: "process_settings d (process_settings d c) = process_settings d c"
  by (simp add: process_settings_def Let_def)

lemma process_settings_keeps:
  "timeoutAbortSec (process_settings d c) = timeoutAbortSec c"
  "timeoutStartFailureMode (process_settings d c) = timeoutStartFailureMode c"
  "exitType (process_settings d c) = exitType c"
  "restartRandomizedDelay (process_settings d c) = restartRandomizedDelay c"
  "restartMaxDelay (process_settings d c) = restartMaxDelay c"
  "process_settings d (c\<lparr>ready_via := r\<rparr>) = (process_settings d c)\<lparr>ready_via := r\<rparr>"
  by (simp_all add: process_settings_def Let_def)

text \<open>
  A process that is created from a description does not get five of its settings
  (\<open>timeout-abort-sec\<close>, \<open>timeout-start-failure-mode\<close>, \<open>exit-type\<close>, \<open>restart-randomized-delay\<close>,
  \<open>restart-max-delay\<close>), whatever they are: they stay at their defaults. A reload of the same description
  changes exactly these, and readiness where \<open>notify-access\<close> is \<open>none\<close>.
\<close>

lemma first_load_drops_settings:
  "let c = createService dbus d Process; m = d_management d; n = d_inputs d in
    timeoutAbortSec c = 0 \<and> timeoutStartFailureMode c = TimeoutFailureTerminate \<and>
    exitType c = ExitTypeMain \<and> restartRandomizedDelay c = 0 \<and> restartMaxDelay c = 0 \<and>
    updateTypeSpecificFields dbus d Process c = c
      \<lparr>timeoutAbortSec := if_positive (TimeoutAbortSec m) 0, timeoutStartFailureMode := TimeoutStartFailureMode m,
       exitType := ExitType m, restartRandomizedDelay := if_positive (RestartRandomizedDelay m) 0,
       restartMaxDelay := if_positive (RestartMaxDelay m) 0,
       ready_via := readiness_of (has_ready m \<and> \<not> (NotifyAccessSet n \<and> NotifyAccess n = NotifyAccessNone))
         (fst (ready_check dbus d))\<rparr>"
  unfolding createService_def updateTypeSpecificFields_def
  by (simp add: process_settings_keeps Let_def) (simp add: NewProcessService_def)

text \<open>The limits of a description are appended again by every reload.\<close>

lemma rlimits_accumulate:
  "rlimits (applyToService d (applyToService d a)) = rlimits (applyToService d a) @ drop (length (rlimits a)) (rlimits (applyToService d a))"
  by (simp add: applyToService_def apply_isolation_def applyRlimits_def apply_ioprio_def apply_cgroup_def apply_directories_def Let_def)

section \<open>Slices\<close>

lemma apply_cgroup_fields:
  "cgroupPath (applyToService d a) = if_nonempty (CgroupPath (d_attributes d)) (cgroupPath a)"
  "cgroupSlice (applyToService d a) = (if CgroupPath (d_attributes d) \<noteq> [] then Slice (d_attributes d) else cgroupSlice a)"
  by (simp_all add: applyToService_def apply_isolation_def applyRlimits_def apply_ioprio_def apply_cgroup_def apply_directories_def Let_def)

lemma slice_needs_path:
  "(cgroupSlice a = [] \<or> cgroupPath a \<noteq> []) \<Longrightarrow>
   cgroupSlice (fold applyToService ds a) = [] \<or> cgroupPath (fold applyToService ds a) \<noteq> []"
  by (induction ds arbitrary: a) (auto simp: apply_cgroup_fields if_nonempty_def)

text \<open>The slice of a service never decides its cgroup: it is recorded only where a path is, and a path wins.\<close>

lemma slice_has_no_effect:
  "EffectiveCgroupPath name fallback (fold applyToService ds new_attrs) =
    (let p = cgroupPath (fold applyToService ds new_attrs) in if p \<noteq> [] then p else fallback)"
  using slice_needs_path [of new_attrs ds] by (auto simp: EffectiveCgroupPath_def new_attrs_def Let_def)

section \<open>Namespaces\<close>

lemma flag_if_and: "flag_if b f AND g = flag_if b (f AND g)"
  by (simp add: flag_if_def)

lemma flag_if_zero: "flag_if b f = 0 \<longleftrightarrow> \<not> b \<or> f = 0"
  by (simp add: flag_if_def)

lemmas clone_flags =
  CLONE_NEWNS_def CLONE_NEWCGROUP_def CLONE_NEWUTS_def CLONE_NEWIPC_def CLONE_NEWUSER_def CLONE_NEWPID_def CLONE_NEWNET_def

lemma cloneflags_new: "cloneflags (applyToService d new_attrs) = description_cloneflags d"
  by (simp add: applyToService_def apply_isolation_def applyRlimits_def apply_ioprio_def apply_cgroup_def apply_directories_def
      new_attrs_def Let_def)

text \<open>
  The namespaces of a loaded service are exactly those its settings ask for: a mount
  namespace also where the file system sandbox is in use or a hardening setting mounts over the kernel's
  directories, and each of the others where its own setting is on.
\<close>

lemma namespaces_match_settings:
  "let f = cloneflags (applyToService d new_attrs); n = d_namespaces d; h = d_hardening d in
    (f AND CLONE_NEWNS \<noteq> 0 \<longleftrightarrow>
      NamespaceMount n \<or> sandbox_Active (d_sandbox d) \<or> ProtectKernelTunables h \<or> ProtectControlGroups h \<or> ProtectKernelLogs h) \<and>
    (f AND CLONE_NEWPID \<noteq> 0 \<longleftrightarrow> NamespacePID n) \<and> (f AND CLONE_NEWNET \<noteq> 0 \<longleftrightarrow> NamespaceNet n) \<and>
    (f AND CLONE_NEWUTS \<noteq> 0 \<longleftrightarrow> NamespaceUTS n) \<and> (f AND CLONE_NEWIPC \<noteq> 0 \<longleftrightarrow> NamespaceIPC n) \<and>
    (f AND CLONE_NEWUSER \<noteq> 0 \<longleftrightarrow> NamespaceUser n) \<and> (f AND CLONE_NEWCGROUP \<noteq> 0 \<longleftrightarrow> NamespaceCgroup n)"
  unfolding cloneflags_new description_cloneflags_def Let_def
  by (auto simp: bit.conj_disj_distrib2 or_eq_0_iff flag_if_and flag_if_zero clone_flags hardening_Active_def)

section \<open>Directories of a service\<close>

definition dir_bases :: "string list" where
  "dir_bases = [''/run'', ''/var/lib'', ''/var/cache'', ''/var/log'', ''/etc'']"

lemma Split_concat: "Split (a @ sep # b) sep = Split a sep @ Split b sep"
  by (induction a) (auto split: list.splits simp: Split_nonempty)

lemma clean_comps_plain:
  "''.'' \<notin> set cs \<Longrightarrow> ''..'' \<notin> set cs \<Longrightarrow> clean_comps r st cs = rev st @ filter (\<lambda>c. c \<noteq> []) cs"
  by (induction cs arbitrary: st) auto

lemma Join_append: "xs \<noteq> [] \<Longrightarrow> ys \<noteq> [] \<Longrightarrow> Join (xs @ ys) sep = Join xs sep @ sep @ Join ys sep"
  by (induction xs sep rule: Join.induct) (auto simp: neq_Nil_conv)

lemma base_comps:
  "base \<in> set dir_bases \<Longrightarrow> base \<noteq> [] \<and> IsAbs base \<and> ''.'' \<notin> set (Split base (CHR ''/'')) \<and> ''..'' \<notin> set (Split base (CHR ''/'')) \<and>
    filter (\<lambda>c. c \<noteq> []) (Split base (CHR ''/'')) \<noteq> [] \<and>
    CHR ''/'' # Join (filter (\<lambda>c. c \<noteq> []) (Split base (CHR ''/''))) ''/'' = base"
  by (auto simp: dir_bases_def IsAbs_def)

lemma path_Join_below:
  assumes n: "relative_dir n" and b: "base \<in> set dir_bases"
  shows "\<exists>rest. path_Join base n = base @ ''/'' @ rest \<and> rest \<noteq> [] \<and> no_dotdot rest"
proof -
  define cs where "cs = filter (\<lambda>c. c \<noteq> []) (Split n (CHR ''/''))"
  have "n \<noteq> []" "\<not> IsAbs n" using n by (auto simp: relative_dir_def)
  then have "hd (Split n (CHR ''/'')) \<noteq> []" by (cases n) (auto simp: IsAbs_def split: list.splits)
  then have ne: "cs \<noteq> []" using Split_nonempty [of n "CHR ''/''"] by (cases "Split n (CHR ''/'')") (auto simp: cs_def)
  have sep: "\<forall>c\<in>set cs. CHR ''/'' \<notin> set c" using Split_no_sep [of _ n] by (auto simp: cs_def)
  then have "Split (Join cs ''/'') (CHR ''/'') = cs" using Split_Join ne by simp
  then have "no_dotdot (Join cs ''/'')" using n by (auto simp: no_dotdot_def cs_def relative_dir_def)
  moreover have "Join cs ''/'' \<noteq> []"
  proof -
    obtain c r where "cs = c # r" using ne by (cases cs) auto
    moreover from this have "c \<in> set cs" by simp
    then have "c \<noteq> []" by (auto simp: cs_def)
    ultimately show ?thesis by (cases r) auto
  qed
  moreover have "path_Join base n = base @ ''/'' @ Join cs ''/''"
  proof -
    from base_comps [OF b] have bc: "base \<noteq> []" "IsAbs base" "filter (\<lambda>c. c \<noteq> []) (Split base (CHR ''/'')) \<noteq> []"
      "CHR ''/'' # Join (filter (\<lambda>c. c \<noteq> []) (Split base (CHR ''/''))) ''/'' = base" by blast+
    from bc(1,2) have "IsAbs (base @ ''/'' @ n)" by (cases base) (auto simp: IsAbs_def)
    moreover have "clean_comps True [] (Split (base @ ''/'' @ n) (CHR ''/'')) = filter (\<lambda>c. c \<noteq> []) (Split base (CHR ''/'')) @ cs"
      using base_comps [OF b] n by (simp add: Split_concat clean_comps_plain cs_def relative_dir_def no_dotdot_def)
    ultimately show ?thesis
      using bc(1,3) \<open>n \<noteq> []\<close> ne by (subst (2) bc(4) [symmetric]) (simp add: path_Join_def Clean_def Join_append)
  qed
  ultimately show ?thesis by blast
qed

text \<open>A directory of a service lies strictly below its base; the volatile ones are below \<open>/run\<close>.\<close>

lemma dirs_below_in:
  assumes "sd \<in> set (dirs_below base mode v ns)" "list_all relative_dir ns" "base \<in> set dir_bases"
  shows "sd_Volatile sd = v \<and> (\<exists>rest. sd_Path sd = base @ ''/'' @ rest \<and> rest \<noteq> [] \<and> no_dotdot rest)"
  using assms path_Join_below [of _ base] by (auto simp: dirs_below_def list_all_iff)

lemma resolved_dirs_below:
  assumes "directories_ok g" "sd \<in> set (resolveServiceDirs g)" "sd_Volatile sd"
  shows "\<exists>rest. sd_Path sd = ''/run/'' @ rest \<and> rest \<noteq> [] \<and> no_dotdot rest"
proof -
  have "list_all relative_dir (StateDirs g)" "list_all relative_dir (CacheDirs g)" "list_all relative_dir (LogsDirs g)"
    "list_all relative_dir (ConfigDirs g)" and r: "list_all relative_dir (RuntimeDirs g)"
    using assms(1) by (simp_all add: directories_ok_def)
  then have "sd \<notin> set (dirs_below ''/var/lib'' (StateDirMode g) False (StateDirs g))"
    "sd \<notin> set (dirs_below ''/var/cache'' (CacheDirMode g) False (CacheDirs g))"
    "sd \<notin> set (dirs_below ''/var/log'' (LogsDirMode g) False (LogsDirs g))"
    "sd \<notin> set (dirs_below ''/etc'' (ConfigDirMode g) False (ConfigDirs g))"
    using assms(3) by (auto dest!: dirs_below_in simp: dir_bases_def)
  then have "sd \<in> set (dirs_below ''/run'' (RuntimeDirMode g) True (RuntimeDirs g))"
    using assms(2) by (simp add: resolveServiceDirs_def)
  from dirs_below_in [OF this r] show ?thesis by (simp add: dir_bases_def)
qed

lemma applied_dirs:
  "serviceDirs_of (applyToService d a) =
    (if resolveServiceDirs (d_directories d) \<noteq> [] then resolveServiceDirs (d_directories d) else serviceDirs_of a)"
  by (simp add: applyToService_def apply_isolation_def applyRlimits_def apply_ioprio_def apply_cgroup_def apply_directories_def Let_def)

lemma fold_dirs:
  "(\<forall>d\<in>set ds. directories_ok (d_directories d)) \<Longrightarrow> sd \<in> set (serviceDirs_of (fold applyToService ds a)) \<Longrightarrow>
   sd \<in> set (serviceDirs_of a) \<or> (\<exists>g. directories_ok g \<and> sd \<in> set (resolveServiceDirs g))"
proof (induction ds arbitrary: a)
  case (Cons d ds)
  then have "sd \<in> set (serviceDirs_of (applyToService d a)) \<or> (\<exists>g. directories_ok g \<and> sd \<in> set (resolveServiceDirs g))"
    by simp
  then show ?case using Cons.prems(1) by (auto simp: applied_dirs split: if_splits)
qed simp

text \<open>
  Property C26. Whatever valid descriptions a service was loaded and reloaded with, the clean-up of its
  directories when it has stopped removes nothing but paths strictly below \<open>/run\<close> that do not climb: never
  \<open>/run\<close> itself, and nothing outside. (The sockets of an activation and the objects of remove-ipc are
  removed elsewhere.)
\<close>

theorem cleanup_removes_only_runtime_directories:
  assumes "\<forall>d\<in>set ds. desc_ok y d"
  shows "\<forall>p\<in>set (cleanupServiceDirs willRestart (fold applyToService ds new_attrs)).
    \<exists>rest. p = ''/run/'' @ rest \<and> rest \<noteq> [] \<and> no_dotdot rest"
proof
  fix p assume "p \<in> set (cleanupServiceDirs willRestart (fold applyToService ds new_attrs))"
  then obtain sd where sd: "sd \<in> set (serviceDirs_of (fold applyToService ds new_attrs))" "sd_Volatile sd" "p = sd_Path sd"
    by (auto simp: cleanupServiceDirs_def split: if_splits)
  then obtain g where "directories_ok g" "sd \<in> set (resolveServiceDirs g)"
    using fold_dirs [of ds sd new_attrs] assms by (auto simp: new_attrs_def desc_ok_def)
  from resolved_dirs_below [OF this] show "\<exists>rest. p = ''/run/'' @ rest \<and> rest \<noteq> [] \<and> no_dotdot rest" using sd by auto
qed

lemma sample_runtime_dir:
  fixes d :: ServiceDescription
  defines "d \<equiv> d_directories_update (RuntimeDirs_update (\<lambda>_. [''x''])) (NewServiceDescription ''a'')"
  shows "desc_ok plain_sys d" "cleanupServiceDirs False (applyToService d new_attrs) = [''/run/x'']"
proof -
  show "desc_ok plain_sys d"
    using desc_ok_new [of plain_sys "''a''"]
    by (simp add: d_def desc_ok_def directories_ok_def relative_dir_def IsAbs_def no_dotdot_def)
  have "path_Join ''/run'' ''x'' = ''/run/x''" by code_simp
  then show "cleanupServiceDirs False (applyToService d new_attrs) = [''/run/x'']"
    by (simp add: d_def cleanupServiceDirs_def applied_dirs resolveServiceDirs_def dirs_below_def new_attrs_def
        applyToService_def apply_isolation_def applyRlimits_def apply_ioprio_def apply_cgroup_def apply_directories_def
        NewServiceDescription_def new_directories_def Let_def)
qed

theorem cleanup_removes_only_runtime_directories_witness:
  "let d = d_directories_update (RuntimeDirs_update (\<lambda>_. [''x''])) (NewServiceDescription ''a'') in
    desc_ok plain_sys d \<and> cleanupServiceDirs False (applyToService d new_attrs) = [''/run/x''] \<and>
    (\<exists>rest. ''/run/x'' = ''/run/'' @ rest \<and> rest \<noteq> [] \<and> no_dotdot rest)"
  using cleanup_removes_only_runtime_directories
    [of "[d_directories_update (RuntimeDirs_update (\<lambda>_. [''x''])) (NewServiceDescription ''a'')]" plain_sys False]
  by (simp add: sample_runtime_dir Let_def)

end
