(* ===== verification/Loader.thy ===== *)
theory Loader
  imports LoadConfig Handlers Invariants
begin

text \<open>
  The service loader (\<open>DirLoader\<close> of \<open>pkg/config/loader.go\<close>): \<open>LoadService\<close>, \<open>loadServiceImpl\<close>,
  \<open>loadDependencies\<close>, \<open>loadDepsFromDir\<close>, \<open>setupConsumerOf\<close> and \<open>setupSharedLogger\<close>, on the service set of
  \<open>World\<close>. A new service takes the next unused identifier, and so does a new link.

  Loading recurses through the dependencies, bounded by the code's own counter: \<open>loadServiceImpl n\<close> is the
  call at depth \<open>config_MaxDepDepth - n\<close>, so that \<open>n = 0\<close> is the depth that is refused. No fuel is added.
\<close>

section \<open>State\<close>

text \<open>
  \<open>set_of\<close> is the service set. The stores after it are fields of the records that only the loader and
  the start of a process use; \<open>muxes\<close> are the shared loggers that have a multiplexer, and \<open>notified\<close> the
  services for which \<open>OnServiceLoaded\<close> was called.
\<close>

record load_state =
  set_of :: world
  loading :: "string list"
  nextSvc :: svc
  nextDep :: depid
  depDepth :: "svc \<Rightarrow> int"
  attrs :: "svc \<Rightarrow> rec_attrs"
  logType_of :: "svc \<Rightarrow> LogType"
  serviceDir :: "svc \<Rightarrow> string"
  log_consumer :: "svc \<Rightarrow> svc option"
  consumer_for :: "svc \<Rightarrow> svc option"
  sharedLoggerName :: "svc \<Rightarrow> string"
  muxes :: "string list"
  notified :: "svc list"

text \<open>What the loader reads: \<open>os.ReadDir\<close>, \<open>os.Stat\<close> of the marker file, and whether a multiplexer can be made.\<close>

datatype dir_answer = Entries "(string \<times> bool) list" | DirNotExist | DirError

record load_env =
  e_sys :: config_sys
  e_host :: script_host
  e_loader :: DirLoader
  e_dbus :: "string option"
  e_readdir :: "string \<Rightarrow> dir_answer"
  e_exists :: "string \<Rightarrow> bool"
  e_mux_ok :: "string \<Rightarrow> bool"

type_synonym load_out = "(ServiceLoadError, svc) result \<times> load_state"
type_synonym load_step = "load_state \<Rightarrow> ServiceLoadError option \<times> load_state"

definition upd_set :: "(world \<Rightarrow> world) \<Rightarrow> load_state \<Rightarrow> load_state" where
  "upd_set f st = st\<lparr>set_of := f (set_of st)\<rparr>"

section \<open>Dependencies\<close>

definition add_dep :: "svc \<Rightarrow> svc \<Rightarrow> DependencyType \<Rightarrow> load_state \<Rightarrow> load_state" where
  "add_dep s t ty st = (upd_set (AddDep (nextDep st) s t ty) st)\<lparr>nextDep := Suc (nextDep st)\<rparr>"

fun load_names ::
  "(string \<Rightarrow> load_state \<Rightarrow> load_out) \<Rightarrow> svc \<Rightarrow> DependencyType \<Rightarrow> bool \<Rightarrow> string list \<Rightarrow> load_step" where
  "load_names ld s ty optional [] st = (None, st)"
| "load_names ld s ty optional (n # ns) st =
    (case ld n st of
       (Inl e, st') \<Rightarrow>
         if optional \<and> is_not_found e then load_names ld s ty optional ns st'
         else (Some (DependencyFailed n e), st')
     | (Inr t, st') \<Rightarrow> load_names ld s ty optional ns (add_dep s t ty st'))"

definition loadDepsFromDir ::
  "load_env \<Rightarrow> (string \<Rightarrow> load_state \<Rightarrow> load_out) \<Rightarrow> svc \<Rightarrow> DependencyType \<Rightarrow> string \<Rightarrow> load_step" where
  "loadDepsFromDir env ld s ty dir st =
    (case e_readdir env dir of
       Entries es \<Rightarrow> load_names ld s ty False (map fst (filter (\<lambda>(n, isDir). \<not> isDir \<and> take 1 n \<noteq> ''.'') es)) st
     | DirNotExist \<Rightarrow> (None, st)
     | DirError \<Rightarrow> (Some (DirectoryUnreadable dir), st))"

fun load_all :: "load_step list \<Rightarrow> load_step" where
  "load_all [] st = (None, st)"
| "load_all (f # fs) st = (case f st of (Some e, st') \<Rightarrow> (Some e, st') | (None, st') \<Rightarrow> load_all fs st')"

definition dep_specs :: "desc_dependencies \<Rightarrow> (string list \<times> DependencyType \<times> bool) list" where
  "dep_specs g =
    [(DependsOn g, DepRegular, False), (DependsMS g, DepMilestone, False), (WaitsFor g, DepWaitsFor, False),
     (PreparedBy g, DepPreparedBy, False), (Before g, DepBefore, False), (After g, DepAfter, False),
     (BeforeOptional g, DepBefore, True), (AfterOptional g, DepAfter, True)]"

definition dir_specs :: "desc_dependencies \<Rightarrow> (string \<times> DependencyType) list" where
  "dir_specs g =
    map (\<lambda>p. (p, DepRegular)) (DependsOnD g) @ map (\<lambda>p. (p, DepMilestone)) (DependsMSD g) @
    map (\<lambda>p. (p, DepWaitsFor)) (WaitsForD g) @ map (\<lambda>p. (p, DepPreparedBy)) (PreparedByD g)"

definition dep_dir :: "string \<Rightarrow> string \<Rightarrow> string" where
  "dep_dir filePath dir = (if IsAbs dir then dir else path_Join (Dir filePath) dir)"

definition loadDependencies ::
  "load_env \<Rightarrow> (string \<Rightarrow> load_state \<Rightarrow> load_out) \<Rightarrow> svc \<Rightarrow> ServiceDescription \<Rightarrow> string \<Rightarrow> load_step" where
  "loadDependencies env ld s d filePath =
    load_all (map (\<lambda>(names, ty, optional). load_names ld s ty optional names) (dep_specs (d_dependencies d)) @
      map (\<lambda>(dir, ty). loadDepsFromDir env ld s ty (dep_dir filePath dir)) (dir_specs (d_dependencies d)))"

definition calcServiceDepth :: "svc \<Rightarrow> load_state \<Rightarrow> int" where
  "calcServiceDepth s st =
    fold (\<lambda>d m. max m (depDepth st (To (deps (set_of st) d)) + 1)) (dependsOn (recs (set_of st) s)) 0"

section \<open>Creating and configuring\<close>

definition new_log_type :: "ServiceDescription \<Rightarrow> LogType" where
  "new_log_type d =
    (let t = LogType (d_logging d) in if t \<in> {LogToBuffer, LogToPipe, LogToFile, LogToCommand} then t else LogNone)"

definition create_record ::
  "load_env \<Rightarrow> string \<Rightarrow> ServiceDescription \<Rightarrow> string \<Rightarrow> service_impl \<Rightarrow> load_state \<Rightarrow> load_state" where
  "create_record env name d filePath i st =
    (let s = nextSvc st in
     (upd_set (\<lambda>w. w\<lparr>recs := (recs w)(s := NewServiceRecord), procs := (procs w)(s := no_process),
         cfgs := (cfgs w)(s := new_config i name), pcfgs := (pcfgs w)(s := createService (e_dbus env) d i)\<rparr>) st)
       \<lparr>nextSvc := Suc s, depDepth := (depDepth st)(s := 0), attrs := (attrs st)(s := new_attrs),
        logType_of := (logType_of st)(s := new_log_type d), serviceDir := (serviceDir st)(s := Dir filePath),
        log_consumer := (log_consumer st)(s := None), consumer_for := (consumer_for st)(s := None),
        sharedLoggerName := (sharedLoggerName st)(s := [])\<rparr>)"

text \<open>
  What follows the dependencies: the depth, the settings of the record, the \<open>.down\<close> marker file and the
  alias.
\<close>

definition configure :: "load_env \<Rightarrow> string \<Rightarrow> svc \<Rightarrow> ServiceDescription \<Rightarrow> string \<Rightarrow> load_state \<Rightarrow> load_state" where
  "configure env name s d filePath st =
    (let a = applyToService d (attrs st s);
         down = e_exists env (path_Join (Dir filePath) (name @ ''.down'')) in
     (upd_set (\<lambda>w. w\<lparr>cfgs := (cfgs w)(s := apply_record d (cfgs w s)),
         pcfgs := (pcfgs w)(s := apply_signals d (pcfgs w s)),
         recs := (recs w)(s := (recs w s)\<lparr>markedDown := (if down then True else markedDown (recs w s))\<rparr>),
         aliases := (if rec_provides a \<noteq> [] then map_put (rec_provides a) s (aliases w) else aliases w)\<rparr>) st)
       \<lparr>depDepth := (depDepth st)(s := calcServiceDepth s st), attrs := (attrs st)(s := a)\<rparr>)"

definition remove_record :: "svc \<Rightarrow> load_state \<Rightarrow> load_state" where
  "remove_record s st = upd_set (RemoveService s (rec_provides (attrs st s))) st"

section \<open>Consumers and shared loggers\<close>

definition impl_of :: "load_state \<Rightarrow> svc \<Rightarrow> service_impl" where
  "impl_of st s = impl (cfgs (set_of st) s)"

definition setupConsumerOf :: "(string \<Rightarrow> load_state \<Rightarrow> load_out) \<Rightarrow> svc \<Rightarrow> ServiceDescription \<Rightarrow> load_step" where
  "setupConsumerOf ld s d st =
    (let pn = ConsumerOf (d_identity d) in
     if pn = [] then (None, st)
     else case ld pn st of
       (Inl e, st') \<Rightarrow> (Some (ConsumerRefused pn), st')
     | (Inr p, st') \<Rightarrow>
        if impl_of st' p \<notin> {Process, Scripted} then (Some (ConsumerRefused pn), st')
        else if logType_of st' p \<noteq> LogToPipe then (Some (ConsumerRefused pn), st')
        else if log_consumer st' p \<noteq> None then (Some (ConsumerRefused pn), st')
        else if impl_of st' s \<notin> {Process, Scripted} then (Some (ConsumerRefused pn), st')
        else (None, st'\<lparr>log_consumer := (log_consumer st')(p := Some s), consumer_for := (consumer_for st')(s := Some p)\<rparr>))"

definition setupSharedLogger ::
  "load_env \<Rightarrow> (string \<Rightarrow> load_state \<Rightarrow> load_out) \<Rightarrow> svc \<Rightarrow> ServiceDescription \<Rightarrow> load_step" where
  "setupSharedLogger env ld s d st =
    (let ln = SharedLogger (d_identity d) in
     if ln = [] then (None, st)
     else case ld ln st of
       (Inl e, st') \<Rightarrow> (Some (LoggerRefused ln), st')
     | (Inr l, st') \<Rightarrow>
        if impl_of st' l \<noteq> Process then (Some (LoggerRefused ln), st')
        else if impl_of st' s \<notin> {Process, Scripted} then (Some (LoggerRefused ln), st')
        else if ln \<notin> set (muxes st') \<and> \<not> e_mux_ok env ln then (Some (LoggerRefused ln), st')
        else (None, st'\<lparr>muxes := List.insert ln (muxes st'), sharedLoggerName := (sharedLoggerName st')(s := ln)\<rparr>))"

section \<open>Loading a service\<close>

definition config_MaxDepDepth :: nat where "config_MaxDepDepth = 32"

text \<open>\<open>DirLoader.LoadService\<close>, with \<open>f\<close> for \<open>loadServiceImpl\<close> at the current depth.\<close>

definition find_or_load :: "(string \<Rightarrow> load_state \<Rightarrow> load_out) \<Rightarrow> string \<Rightarrow> load_state \<Rightarrow> load_out" where
  "find_or_load f name st = (case FindService name (set_of st) of Some s \<Rightarrow> (Inr s, st) | None \<Rightarrow> f name st)"

definition finish_load ::
  "load_env \<Rightarrow> (string \<Rightarrow> load_state \<Rightarrow> load_out) \<Rightarrow> string \<Rightarrow> svc \<Rightarrow> ServiceDescription \<Rightarrow> string \<Rightarrow> load_state \<Rightarrow> load_out" where
  "finish_load env ld name s d filePath st =
    (case loadDependencies env ld s d filePath st of
       (Some e, st1) \<Rightarrow> (Inl e, remove_record s st1)
     | (None, st1) \<Rightarrow>
        (case load_all [setupConsumerOf ld s d, setupSharedLogger env ld s d] (configure env name s d filePath st1) of
           (Some e, st2) \<Rightarrow> (Inl e, remove_record s st2)
         | (None, st2) \<Rightarrow> (Inr s, st2\<lparr>notified := notified st2 @ [s]\<rparr>)))"

definition load_one ::
  "load_env \<Rightarrow> (string \<Rightarrow> load_state \<Rightarrow> load_out) \<Rightarrow> string \<Rightarrow> load_state \<Rightarrow> load_out" where
  "load_one env ld name st =
    (case read_description (e_sys env) (e_host env) (e_loader env) name of
       Inl e \<Rightarrow> (Inl e, st)
     | Inr (d, filePath) \<Rightarrow>
        (case create_impl (Type d) of
           None \<Rightarrow> (Inl (OutsideModel name), st)
         | Some i \<Rightarrow>
            finish_load env ld name (nextSvc st) d filePath
              (upd_set (AddService (nextSvc st)) (create_record env name d filePath i st))))"

text \<open>The entry for the name is deleted from \<open>loading\<close> when the function returns.\<close>

fun loadServiceImpl :: "nat \<Rightarrow> load_env \<Rightarrow> string \<Rightarrow> load_state \<Rightarrow> load_out" where
  "loadServiceImpl 0 env name st =
    (Inl (if \<not> valid_service_name name then InvalidName name else DepthExceeded name), st)"
| "loadServiceImpl (Suc n) env name st =
    (if \<not> valid_service_name name then (Inl (InvalidName name), st)
     else if name \<in> set (loading st) then (Inl (CircularLoad name), st)
     else case load_one env (find_or_load (loadServiceImpl n env)) name (st\<lparr>loading := name # loading st\<rparr>) of
       (r, st') \<Rightarrow> (r, st'\<lparr>loading := removeAll name (loading st')\<rparr>))"

definition DirLoader_LoadService :: "load_env \<Rightarrow> string \<Rightarrow> load_state \<Rightarrow> load_out" where
  "DirLoader_LoadService env = find_or_load (loadServiceImpl config_MaxDepDepth env)"

section \<open>Invariant and frame\<close>

text \<open>
  The identifiers from \<open>nextSvc\<close> and \<open>nextDep\<close> on are unused, the service set is sound, and the tables of
  names agree with the records.
\<close>

definition unused :: "svc \<Rightarrow> world \<Rightarrow> bool" where
  "unused s w \<longleftrightarrow> rec_view (recs w s) = rec_view NewServiceRecord"

definition tables_agree :: "load_state \<Rightarrow> bool" where
  "tables_agree st \<longleftrightarrow>
    (\<forall>(n, s)\<in>set (records (set_of st)). s < nextSvc st \<and> serviceName (cfgs (set_of st) s) = n) \<and>
    (\<forall>(a, s)\<in>set (aliases (set_of st)). s < nextSvc st \<and> a \<noteq> [] \<and> rec_provides (attrs st s) = a)"

definition load_inv :: "load_state \<Rightarrow> bool" where
  "load_inv st \<longleftrightarrow>
    sound (set_of st) \<and> links_below (nextDep st) (set_of st) \<and> (\<forall>s\<ge>nextSvc st. unused s (set_of st)) \<and> tables_agree st"

text \<open>The services that are known by name; those that are being loaded are among them.\<close>

definition known :: "load_state \<Rightarrow> string set" where
  "known st = dom (map_of (records (set_of st)))"

definition ready :: "load_state \<Rightarrow> bool" where
  "ready st \<longleftrightarrow> load_inv st \<and> set (loading st) \<subseteq> known st"

text \<open>
  What loading leaves alone: of a service below \<open>k\<close> everything but the list of its dependents, which may
  grow, and its log consumer, which one of the services from \<open>k\<close> on may become if there was none; the
  links that exist; the names in \<open>N\<close>; the aliases, but for those that services from \<open>k\<close> on provide; the
  queues, the clock, the trace and all else of the set.
\<close>

definition others where
  "others w = (os w, loader w, propQueue w, stopQueue w, consoleQueue w, activeServices w, restartEnabled w,
     shutdownType w, startLimiter w, uidPool w, bootServiceName w, bootReadyTime w, rwReady w, logReady w,
     restartLog w, now w, trace w, outOfFuel w)"

definition same_service :: "load_state \<Rightarrow> load_state \<Rightarrow> svc \<Rightarrow> bool" where
  "same_service st st' s \<longleftrightarrow>
    (\<exists>ls. recs (set_of st') s = (recs (set_of st) s)\<lparr>dependents := dependents (recs (set_of st) s) @ ls\<rparr>) \<and>
    cfgs (set_of st') s = cfgs (set_of st) s \<and> pcfgs (set_of st') s = pcfgs (set_of st) s \<and>
    procs (set_of st') s = procs (set_of st) s \<and> attrs st' s = attrs st s \<and> depDepth st' s = depDepth st s \<and>
    logType_of st' s = logType_of st s \<and> serviceDir st' s = serviceDir st s \<and> consumer_for st' s = consumer_for st s \<and>
    sharedLoggerName st' s = sharedLoggerName st s"

definition same_consumer :: "svc \<Rightarrow> load_state \<Rightarrow> load_state \<Rightarrow> svc \<Rightarrow> bool" where
  "same_consumer k st st' s \<longleftrightarrow>
    log_consumer st' s = log_consumer st s \<or> log_consumer st s = None \<and> (\<exists>c\<ge>k. log_consumer st' s = Some c)"

definition same_alias :: "svc \<Rightarrow> load_state \<Rightarrow> load_state \<Rightarrow> string \<Rightarrow> bool" where
  "same_alias k st st' a \<longleftrightarrow>
    map_of (aliases (set_of st')) a = map_of (aliases (set_of st)) a \<or> (\<forall>t. map_of (aliases (set_of st')) a = Some t \<longrightarrow> k \<le> t)"

definition frame :: "svc \<Rightarrow> string set \<Rightarrow> load_state \<Rightarrow> load_state \<Rightarrow> bool" where
  "frame k N st st' \<longleftrightarrow>
    nextSvc st \<le> nextSvc st' \<and> nextDep st \<le> nextDep st' \<and> (\<forall>s<k. same_service st st' s \<and> same_consumer k st st' s) \<and>
    (\<forall>a. same_alias k st st' a) \<and> set (muxes st) \<subseteq> set (muxes st') \<and>
    (\<forall>d<nextDep st. deps (set_of st') d = deps (set_of st) d) \<and>
    (\<forall>n\<in>N. map_of (records (set_of st')) n = map_of (records (set_of st)) n) \<and>
    others (set_of st') = others (set_of st)"

lemma same_service_refl [simp]: "same_service st st s"
  unfolding same_service_def by (intro conjI exI [of _ "[]"]) simp_all

lemma same_service_trans: "same_service st st' s \<Longrightarrow> same_service st' st'' s \<Longrightarrow> same_service st st'' s"
  by (auto simp: same_service_def)

lemma same_consumer_refl [simp]: "same_consumer k st st s"
  and same_alias_refl [simp]: "same_alias k st st a"
  by (simp_all add: same_consumer_def same_alias_def)

lemma same_consumerI: "log_consumer st' s = log_consumer st s \<Longrightarrow> same_consumer k st st' s"
  and same_aliasI: "map_of (aliases (set_of st')) a = map_of (aliases (set_of st)) a \<Longrightarrow> same_alias k st st' a"
  by (simp_all add: same_consumer_def same_alias_def)

lemma same_consumer_trans: "same_consumer k st st' s \<Longrightarrow> same_consumer k st' st'' s \<Longrightarrow> same_consumer k st st'' s"
  by (auto simp: same_consumer_def)

lemma same_alias_trans: "same_alias k st st' a \<Longrightarrow> same_alias k st' st'' a \<Longrightarrow> same_alias k st st'' a"
  by (auto simp: same_alias_def)

lemma same_consumer_weaken: "same_consumer k st st' s \<Longrightarrow> k' \<le> k \<Longrightarrow> same_consumer k' st st' s"
  unfolding same_consumer_def by (blast intro: order_trans)

lemma same_alias_weaken: "same_alias k st st' a \<Longrightarrow> k' \<le> k \<Longrightarrow> same_alias k' st st' a"
  unfolding same_alias_def by (blast intro: order_trans)

lemma frame_refl [simp]: "frame k N st st"
  by (simp add: frame_def)

lemma frame_trans: "frame k N st st' \<Longrightarrow> frame k N st' st'' \<Longrightarrow> frame k N st st''"
  unfolding frame_def by (auto intro: same_service_trans same_consumer_trans same_alias_trans)

lemma frame_weaken: "frame k N st st' \<Longrightarrow> k' \<le> k \<Longrightarrow> N' \<subseteq> N \<Longrightarrow> frame k' N' st st'"
  unfolding frame_def by (auto intro: same_consumer_weaken [of k] same_alias_weaken [of k])

lemma frame_known: "frame k N st st' \<Longrightarrow> N \<subseteq> known st \<Longrightarrow> N \<subseteq> known st'"
  by (fastforce simp: frame_def known_def dom_def)

lemma sound_ledger:
  assumes "ledger w' = ledger w" "sound w"
  shows "sound w'"
  using soundI full.same_ledger [OF _ assms(1), of "graph w" "[]"] assms(2) unfolding sound_def by blast

lemma links_below_ledger: "ledger w' = ledger w \<Longrightarrow> links_below n w' = links_below n w"
  by (rule links_graph) (rule ledger_graph)

text \<open>A link from a stopped service acquires nothing.\<close>

lemma AddDep_stopped: "state (recs w s) = StateStopped \<Longrightarrow> AddDep d s t ty w = new_link d s t ty w"
  by (simp add: AddDep_def new_link_def when_do_def modr_def)

lemma new_link_recs:
  "recs (new_link d s t ty w) x =
    (recs w x)\<lparr>dependsOn := dependsOn (recs w x) @ (if x = s then [d] else []),
       dependents := dependents (recs w x) @ (if x = t then [d] else [])\<rparr>"
  by (simp add: new_link_def modr_def)

lemma new_link_other:
  "cfgs (new_link d s t ty w) = cfgs w" "pcfgs (new_link d s t ty w) = pcfgs w" "procs (new_link d s t ty w) = procs w"
  "records (new_link d s t ty w) = records w" "aliases (new_link d s t ty w) = aliases w"
  "others (new_link d s t ty w) = others w"
  by (simp_all add: new_link_def modr_def others_def)

section \<open>Steps for a service under construction\<close>

definition under :: "svc \<Rightarrow> load_state \<Rightarrow> bool" where
  "under s st \<longleftrightarrow>
    ready st \<and> s < nextSvc st \<and> state (recs (set_of st) s) = StateStopped \<and>
    map_of (records (set_of st)) (serviceName (cfgs (set_of st) s)) = Some s"

definition goes_on :: "svc \<Rightarrow> string set \<Rightarrow> svc \<Rightarrow> load_state \<Rightarrow> load_state \<Rightarrow> bool" where
  "goes_on k N s st st' \<longleftrightarrow>
    under s st' \<and> frame k N st st' \<and> loading st' = loading st \<and>
    cfgs (set_of st') s = cfgs (set_of st) s \<and> pcfgs (set_of st') s = pcfgs (set_of st) s \<and> attrs st' s = attrs st s"

lemma goes_on_refl: "under s st \<Longrightarrow> goes_on k N s st st"
  by (simp add: goes_on_def)

lemma goes_on_trans: "goes_on k N s st st' \<Longrightarrow> goes_on k N s st' st'' \<Longrightarrow> goes_on k N s st st''"
  unfolding goes_on_def by (auto intro: frame_trans)

lemma goes_on_known: "goes_on k N s st st' \<Longrightarrow> N \<subseteq> known st \<Longrightarrow> N \<subseteq> known st'"
  unfolding goes_on_def by (blast dest: frame_known)

lemma add_dep_view:
  assumes "state (recs (set_of st) s) = StateStopped"
  shows "set_of (add_dep s t ty st) = new_link (nextDep st) s t ty (set_of st)"
    "nextSvc (add_dep s t ty st) = nextSvc st" "nextDep (add_dep s t ty st) = Suc (nextDep st)"
    "loading (add_dep s t ty st) = loading st" "attrs (add_dep s t ty st) = attrs st"
    "depDepth (add_dep s t ty st) = depDepth st" "logType_of (add_dep s t ty st) = logType_of st"
    "serviceDir (add_dep s t ty st) = serviceDir st" "consumer_for (add_dep s t ty st) = consumer_for st"
    "sharedLoggerName (add_dep s t ty st) = sharedLoggerName st" "log_consumer (add_dep s t ty st) = log_consumer st"
    "muxes (add_dep s t ty st) = muxes st"
  by (simp_all add: add_dep_def upd_set_def AddDep_stopped [OF assms])

lemma load_inv_add_dep:
  assumes "load_inv st" "state (recs (set_of st) s) = StateStopped" "s < nextSvc st" "t < nextSvc st"
  shows "load_inv (add_dep s t ty st)"
proof -
  have "fresh_link (nextDep st) (set_of st)" using assms(1) by (simp add: load_inv_def links_below_def)
  then have "sound (new_link (nextDep st) s t ty (set_of st))"
    using assms(1) by (simp add: load_inv_def sound_new_link)
  moreover have "links_below (Suc (nextDep st)) (new_link (nextDep st) s t ty (set_of st))"
    using assms(1) by (auto simp: load_inv_def links_below_def fresh_link_def new_link_view)
  moreover have "unused x (new_link (nextDep st) s t ty (set_of st))" if "nextSvc st \<le> x" for x
    using assms that by (auto simp: load_inv_def unused_def rec_view_def new_link_recs)
  moreover have "tables_agree (add_dep s t ty st)"
    using assms(1) by (simp add: load_inv_def tables_agree_def add_dep_view [OF assms(2)] new_link_other)
  ultimately show ?thesis by (simp add: load_inv_def add_dep_view [OF assms(2)])
qed

lemma add_dep_goes_on:
  assumes u: "under s st" and t: "t < nextSvc st" and k: "k \<le> s"
  shows "goes_on k N s st (add_dep s t ty st)"
proof -
  have stopped: "state (recs (set_of st) s) = StateStopped" and r: "ready st" "s < nextSvc st"
    using u by (simp_all add: under_def)
  note view = add_dep_view [OF stopped] new_link_other
  have "load_inv (add_dep s t ty st)" using load_inv_add_dep stopped r t by (simp add: ready_def)
  then have "under s (add_dep s t ty st)"
    using u by (simp add: under_def ready_def known_def view new_link_recs)
  moreover have "same_service st (add_dep s t ty st) x" if "x < k" for x
    using that k unfolding same_service_def
    by (intro conjI exI [of _ "if x = t then [nextDep st] else []"]) (simp_all add: view new_link_recs)
  then have "frame k N st (add_dep s t ty st)"
    by (simp add: frame_def view new_link_view same_consumer_def same_alias_def)
  ultimately show ?thesis by (simp add: goes_on_def view)
qed

text \<open>A producer gets a consumer, a producer gets a shared logger, and observers are notified.\<close>

lemma goes_on_links:
  assumes "k \<le> s" "goes_on k N s st st'"
  shows "log_consumer st' p = None \<Longrightarrow>
      goes_on k N s st (st'\<lparr>log_consumer := (log_consumer st')(p \<mapsto> s), consumer_for := (consumer_for st')(s := Some p)\<rparr>)"
    "goes_on k N s st (st'\<lparr>muxes := List.insert n (muxes st'), sharedLoggerName := (sharedLoggerName st')(s := n)\<rparr>)"
    "goes_on k N s st (st'\<lparr>notified := l\<rparr>)"
  using assms
  by (auto simp: goes_on_def under_def ready_def load_inv_def tables_agree_def known_def frame_def same_service_def
      same_consumer_def same_alias_def)

lemma ledger_same_view:
  assumes "\<And>x. rec_view (recs w' x) = rec_view (recs w x)" "deps w' = deps w" "propQueue w' = propQueue w" "stopQueue w' = stopQueue w"
  shows "ledger w' = ledger w"
  using assms by (simp add: ledger_def)

lemma configure_view:
  "records (set_of (configure env name s d p st)) = records (set_of st)"
  "deps (set_of (configure env name s d p st)) = deps (set_of st)"
  "others (set_of (configure env name s d p st)) = others (set_of st)"
  "nextSvc (configure env name s d p st) = nextSvc st" "nextDep (configure env name s d p st) = nextDep st"
  "loading (configure env name s d p st) = loading st"
  "procs (set_of (configure env name s d p st)) = procs (set_of st)"
  "serviceName (cfgs (set_of (configure env name s d p st)) x) = serviceName (cfgs (set_of st) x)"
  "x \<noteq> s \<Longrightarrow> recs (set_of (configure env name s d p st)) x = recs (set_of st) x"
  "x \<noteq> s \<Longrightarrow> cfgs (set_of (configure env name s d p st)) x = cfgs (set_of st) x"
  "x \<noteq> s \<Longrightarrow> pcfgs (set_of (configure env name s d p st)) x = pcfgs (set_of st) x"
  "x \<noteq> s \<Longrightarrow> attrs (configure env name s d p st) x = attrs st x"
  "x \<noteq> s \<Longrightarrow> depDepth (configure env name s d p st) x = depDepth st x"
  "logType_of (configure env name s d p st) = logType_of st" "serviceDir (configure env name s d p st) = serviceDir st"
  "consumer_for (configure env name s d p st) = consumer_for st" "log_consumer (configure env name s d p st) = log_consumer st"
  "sharedLoggerName (configure env name s d p st) = sharedLoggerName st" "muxes (configure env name s d p st) = muxes st"
  "attrs (configure env name s d p st) s = applyToService d (attrs st s)"
  "rec_view (recs (set_of (configure env name s d p st)) x) = rec_view (recs (set_of st) x)"
  "state (recs (set_of (configure env name s d p st)) x) = state (recs (set_of st) x)"
  "aliases (set_of (configure env name s d p st)) =
    (let a = rec_provides (applyToService d (attrs st s)) in if a \<noteq> [] then map_put a s (aliases (set_of st)) else aliases (set_of st))"
  by (auto simp: configure_def upd_set_def Let_def others_def apply_record_def apply_actions_def rec_view_def)

lemma map_of_delete: "map_of (map_delete k xs) x = (if x = k then None else map_of xs x)"
  by (induction xs) (auto simp: map_delete_def)

lemma configure_goes_on:
  fixes env :: load_env and name p :: string and d :: ServiceDescription
  assumes u: "under s st" and a: "rec_provides (attrs st s) = []" and k: "k \<le> s"
  defines "st' \<equiv> configure env name s d p st"
  shows "under s st' \<and> frame k N st st' \<and> loading st' = loading st"
proof -
  have inv: "load_inv st" and s: "s < nextSvc st" using u by (simp_all add: under_def ready_def)
  have l: "ledger (set_of st') = ledger (set_of st)"
    by (rule ledger_same_view) (simp_all add: st'_def configure_view, simp_all add: configure_def upd_set_def Let_def)
  have "sound (set_of st')" "links_below (nextDep st') (set_of st')"
    using inv sound_ledger [OF l] links_below_ledger [OF l] by (simp_all add: load_inv_def st'_def configure_view)
  moreover have "unused x (set_of st')" if "nextSvc st' \<le> x" for x
    using inv that by (simp add: load_inv_def unused_def st'_def configure_view)
  moreover have "tables_agree st'"
  proof -
    have "(b, x) \<in> set (aliases (set_of st)) \<Longrightarrow> x \<noteq> s" for b x
      using inv a by (auto simp: load_inv_def tables_agree_def)
    then show ?thesis
      using inv s by (auto simp: load_inv_def tables_agree_def st'_def configure_view Let_def map_put_def)
  qed
  ultimately have "load_inv st'" by (simp add: load_inv_def)
  then have "under s st'" using u by (simp add: under_def ready_def known_def st'_def configure_view)
  moreover have "same_service st st' x" if "x < k" for x
    using that k unfolding same_service_def
    by (intro conjI exI [of _ "[]"]) (simp_all add: st'_def configure_view)
  moreover have "same_alias k st st' b" for b
    using k by (simp add: same_alias_def st'_def configure_view Let_def map_put_def map_of_delete [unfolded map_delete_def])
  ultimately have "frame k N st st'" by (simp add: frame_def same_consumer_def st'_def configure_view)
  then show ?thesis using \<open>under s st'\<close> by (simp add: st'_def configure_view)
qed

lemma remove_record_frame:
  assumes u: "under s st" and n: "serviceName (cfgs (set_of st) s) \<notin> N"
  defines "st' \<equiv> remove_record s st"
  shows "load_inv st' \<and> frame k N st st' \<and> loading st' = loading st \<and>
    known st' = known st - {serviceName (cfgs (set_of st) s)}"
proof -
  have inv: "load_inv st" using u by (simp add: under_def ready_def)
  have w: "recs (set_of st') = recs (set_of st)" "deps (set_of st') = deps (set_of st)"
    "cfgs (set_of st') = cfgs (set_of st)" "pcfgs (set_of st') = pcfgs (set_of st)" "procs (set_of st') = procs (set_of st)"
    "others (set_of st') = others (set_of st)" "ledger (set_of st') = ledger (set_of st)"
    "nextSvc st' = nextSvc st" "nextDep st' = nextDep st" "attrs st' = attrs st" "loading st' = loading st"
    "records (set_of st') = map_delete (serviceName (cfgs (set_of st) s)) (records (set_of st))"
    "set (aliases (set_of st')) \<subseteq> set (aliases (set_of st))"
    by (auto simp: st'_def remove_record_def upd_set_def RemoveService_def others_def ledger_def map_delete_def)
  have v: "depDepth st' = depDepth st" "logType_of st' = logType_of st" "serviceDir st' = serviceDir st"
    "consumer_for st' = consumer_for st" "sharedLoggerName st' = sharedLoggerName st" "log_consumer st' = log_consumer st"
    "muxes st' = muxes st"
    by (simp_all add: st'_def remove_record_def upd_set_def)
  have al: "same_alias k st st' b" for b
    by (simp add: same_alias_def st'_def remove_record_def upd_set_def RemoveService_def map_of_delete)
  have "tables_agree st'"
    using inv subsetD [OF w(13)] by (fastforce simp: load_inv_def tables_agree_def w(1-12) map_delete_def)
  then have "load_inv st'"
    using inv sound_ledger [OF w(7)] links_below_ledger [OF w(7)] by (simp add: load_inv_def unused_def w(1-12))
  moreover have "frame k N st st'"
    using n
    by (auto simp: frame_def same_service_def same_consumer_def al w v map_of_delete intro: exI [of _ "[]"])
  ultimately show ?thesis by (auto simp: known_def w map_of_delete dom_def)
qed

lemma create_goes_on:
  fixes env :: load_env and p :: string and d :: ServiceDescription and i :: service_impl
  assumes r: "ready st" and n: "name \<notin> known st" and k: "k \<le> nextSvc st"
  defines "s \<equiv> nextSvc st"
    and "st' \<equiv> upd_set (AddService (nextSvc st)) (create_record env name d p i (st\<lparr>loading := name # loading st\<rparr>))"
  shows "under s st' \<and> frame k (known st) st st' \<and> loading st' = name # loading st \<and> attrs st' s = new_attrs \<and>
    cfgs (set_of st') s = new_config i name \<and> dependsOn (recs (set_of st') s) = [] \<and> nextSvc st' = Suc (nextSvc st)"
proof -
  have inv: "load_inv st" using r by (simp add: ready_def)
  have v: "recs (set_of st') = (recs (set_of st))(s := NewServiceRecord)" "deps (set_of st') = deps (set_of st)"
    "cfgs (set_of st') = (cfgs (set_of st))(s := new_config i name)" "aliases (set_of st') = aliases (set_of st)"
    "others (set_of st') = others (set_of st)" "nextSvc st' = Suc s" "nextDep st' = nextDep st"
    "attrs st' = (attrs st)(s := new_attrs)" "loading st' = name # loading st"
    "records (set_of st') = (name, s) # map_delete name (records (set_of st))"
    "x \<noteq> s \<Longrightarrow> pcfgs (set_of st') x = pcfgs (set_of st) x" "x \<noteq> s \<Longrightarrow> procs (set_of st') x = procs (set_of st) x"
    "x \<noteq> s \<Longrightarrow> depDepth st' x = depDepth st x" "x \<noteq> s \<Longrightarrow> logType_of st' x = logType_of st x"
    "x \<noteq> s \<Longrightarrow> serviceDir st' x = serviceDir st x" "x \<noteq> s \<Longrightarrow> consumer_for st' x = consumer_for st x"
    "x \<noteq> s \<Longrightarrow> log_consumer st' x = log_consumer st x" "x \<noteq> s \<Longrightarrow> sharedLoggerName st' x = sharedLoggerName st x"
    "muxes st' = muxes st" for x
    by (simp_all add: s_def st'_def create_record_def upd_set_def AddService_def new_config_def others_def map_delete_def Let_def)
  have "rec_view (recs (set_of st') x) = rec_view (recs (set_of st) x)" for x
    using inv by (simp add: v(1) load_inv_def unused_def s_def)
  moreover have "propQueue (set_of st') = propQueue (set_of st)" "stopQueue (set_of st') = stopQueue (set_of st)"
    using v(5) by (simp_all add: others_def)
  ultimately have l: "ledger (set_of st') = ledger (set_of st)" by (intro ledger_same_view v(2))
  have "tables_agree st'"
    using inv by (fastforce simp: load_inv_def tables_agree_def v new_config_def s_def map_delete_def)
  moreover have "unused x (set_of st')" if "Suc s \<le> x" for x
    using inv that by (simp add: load_inv_def unused_def v s_def)
  ultimately have "load_inv st'"
    using inv sound_ledger [OF l] links_below_ledger [OF l] by (simp add: load_inv_def v)
  moreover have "set (loading st') \<subseteq> known st'"
    using r by (auto simp: ready_def known_def v map_of_delete dom_def)
  ultimately have "under s st'"
    by (simp add: under_def ready_def v new_config_def NewServiceRecord_def)
  moreover have "same_service st st' x" if "x < k" for x
    using that k unfolding same_service_def
    by (intro conjI exI [of _ "[]"]) (simp_all add: v s_def)
  then have "frame k (known st) st st'"
    using n k by (auto simp: frame_def same_consumer_def same_alias_def v map_of_delete s_def)
  ultimately show ?thesis by (simp add: v NewServiceRecord_def s_def)
qed

section \<open>A loader of dependencies\<close>

text \<open>The service that a name stands for.\<close>

definition named :: "load_state \<Rightarrow> string \<Rightarrow> svc \<Rightarrow> bool" where
  "named st n t \<longleftrightarrow>
    t < nextSvc st \<and> (serviceName (cfgs (set_of st) t) = n \<or> n \<noteq> [] \<and> rec_provides (attrs st t) = n)"

fun is_circular :: "ServiceLoadError \<Rightarrow> bool" where
  "is_circular (CircularLoad n) = True"
| "is_circular (DependencyFailed n e) = is_circular e"
| "is_circular e = False"

definition step_ok :: "svc \<Rightarrow> svc \<Rightarrow> load_step \<Rightarrow> bool" where
  "step_ok k s f \<longleftrightarrow>
    (\<forall>N st r st'. under s st \<longrightarrow> N \<subseteq> known st \<longrightarrow> f st = (r, st') \<longrightarrow>
      goes_on k N s st st' \<and> (\<forall>e. r = Some e \<longrightarrow> \<not> is_circular e))"

lemma step_okI:
  "(\<And>N st r st'. under s st \<Longrightarrow> N \<subseteq> known st \<Longrightarrow> f st = (r, st') \<Longrightarrow>
      goes_on k N s st st' \<and> (\<forall>e. r = Some e \<longrightarrow> \<not> is_circular e)) \<Longrightarrow> step_ok k s f"
  by (simp add: step_ok_def)

lemma step_okD:
  assumes "step_ok k s f" "f st = (r, st')" "under s st" "N \<subseteq> known st"
  shows "goes_on k N s st st'" "r = Some e \<Longrightarrow> \<not> is_circular e"
  using assms unfolding step_ok_def by blast+

lemma load_all_ok: "(\<forall>f\<in>set fs. step_ok k s f) \<Longrightarrow> step_ok k s (load_all fs)"
proof (induction fs)
  case Nil
  show ?case by (rule step_okI) (auto simp: goes_on_refl)
next
  case (Cons f fs)
  then have f: "step_ok k s f" and fs: "step_ok k s (load_all fs)" by simp_all
  show ?case
  proof (rule step_okI)
    fix N st r st' assume u: "under s st" and N: "N \<subseteq> known st" and l: "load_all (f # fs) st = (r, st')"
    obtain r1 st1 where 1: "f st = (r1, st1)" by fastforce
    have g: "goes_on k N s st st1" by (rule step_okD(1) [OF f 1 u N])
    show "goes_on k N s st st' \<and> (\<forall>e. r = Some e \<longrightarrow> \<not> is_circular e)"
    proof (cases r1)
      case (Some e)
      then show ?thesis using l 1 g step_okD(2) [OF f 1 u N] by auto
    next
      case None
      then have 2: "load_all fs st1 = (r, st')" using l 1 by simp
      have u1: "under s st1" "N \<subseteq> known st1" using g goes_on_known [OF g N] by (simp_all add: goes_on_def)
      show ?thesis
        using goes_on_trans [OF g step_okD(1) [OF fs 2 u1]] step_okD(2) [OF fs 2 u1] by blast
    qed
  qed
qed

text \<open>
  The contract of the function that loads a dependency, and what the loader's operations promise when
  they are given such a function.
\<close>

locale dependency_loader =
  fixes ld :: "string \<Rightarrow> load_state \<Rightarrow> load_out"
  assumes loads: "ready st \<Longrightarrow> ld n st = (r, st') \<Longrightarrow>
      ready st' \<and> frame (nextSvc st) (known st) st st' \<and> loading st' = loading st"
    and finds: "ready st \<Longrightarrow> ld n st = (Inr t, st') \<Longrightarrow> named st' n t"
    and no_circle: "ready st \<Longrightarrow> ld n st = (Inl e, st') \<Longrightarrow> \<not> is_circular e"
begin

lemma ld_goes_on:
  assumes u: "under s st" and N: "N \<subseteq> known st" and k: "k \<le> nextSvc st" and l: "ld n st = (r, st')"
  shows "goes_on k N s st st'"
proof -
  have r: "ready st" and s: "s < nextSvc st" using u by (simp_all add: under_def)
  note L = loads [OF r l]
  have "same_service st st' s" using L s by (simp add: frame_def)
  moreover have "serviceName (cfgs (set_of st) s) \<in> known st" using u by (auto simp: under_def known_def)
  ultimately have "under s st'"
    using u L s by (auto simp: under_def same_service_def frame_def)
  then show ?thesis
    using L k N \<open>same_service st st' s\<close> by (auto simp: goes_on_def same_service_def intro: frame_weaken)
qed

lemma load_names_ok: "k \<le> s \<Longrightarrow> step_ok k s (load_names ld s ty opt ns)"
proof (rule step_okI, goal_cases)
  case (1 N st r st')
  then show ?case
  proof (induction ns arbitrary: st)
    case Nil
    then show ?case by (auto simp: goes_on_refl)
  next
    case (Cons n ns)
    obtain r1 st1 where l: "ld n st = (r1, st1)" by fastforce
    have s: "s < nextSvc st" and ready: "ready st" using Cons.prems(2) by (simp_all add: under_def)
    have g: "goes_on k N s st st1" using ld_goes_on [OF Cons.prems(2,3) _ l] Cons.prems(1) s by simp
    then have u1: "under s st1" and N1: "N \<subseteq> known st1"
      using goes_on_known [OF g Cons.prems(3)] by (simp_all add: goes_on_def)
    show ?case
    proof (cases r1)
      case (Inl e)
      then show ?thesis
        using Cons.IH [OF Cons.prems(1) u1 N1] Cons.prems(4) l g no_circle [OF ready] goes_on_trans [OF g]
        by (auto split: if_splits)
    next
      case (Inr t)
      have t: "t < nextSvc st1" using finds [OF ready l [unfolded Inr]] by (simp add: named_def)
      have a: "goes_on k N s st1 (add_dep s t ty st1)" by (rule add_dep_goes_on [OF u1 t Cons.prems(1)])
      then have "under s (add_dep s t ty st1)" "N \<subseteq> known (add_dep s t ty st1)"
        using goes_on_known [OF a N1] by (simp_all add: goes_on_def)
      then show ?thesis
        using Cons.IH [OF Cons.prems(1)] Cons.prems(4) l Inr goes_on_trans [OF goes_on_trans [OF g a]] by auto
    qed
  qed
qed

lemma loadDependencies_ok: "k \<le> s \<Longrightarrow> step_ok k s (loadDependencies env ld s d p)"
  unfolding loadDependencies_def
proof (intro load_all_ok ballI)
  fix f assume k: "k \<le> s"
    and f: "f \<in> set (map (\<lambda>(names, ty, optional). load_names ld s ty optional names) (dep_specs (d_dependencies d)) @
      map (\<lambda>(dir, ty). loadDepsFromDir env ld s ty (dep_dir p dir)) (dir_specs (d_dependencies d)))"
  have "step_ok k s (loadDepsFromDir env ld s ty dir)" for ty dir
    using load_names_ok [OF k, unfolded step_ok_def]
    by (intro step_okI) (auto simp: loadDepsFromDir_def goes_on_refl split: dir_answer.splits)
  then show "step_ok k s f" using f load_names_ok [OF k] by auto
qed

lemma setupConsumerOf_ok: "k \<le> s \<Longrightarrow> step_ok k s (setupConsumerOf ld s d)"
proof (rule step_okI)
  fix N st r st' assume k: "k \<le> s" and u: "under s st" and N: "N \<subseteq> known st" and f: "setupConsumerOf ld s d st = (r, st')"
  obtain q st1 where l: "ld (ConsumerOf (d_identity d)) st = (q, st1)" by fastforce
  have g: "goes_on k N s st st1" by (rule ld_goes_on [OF u N _ l]) (use k u in \<open>simp add: under_def\<close>)
  show "goes_on k N s st st' \<and> (\<forall>e. r = Some e \<longrightarrow> \<not> is_circular e)"
  proof (cases "ConsumerOf (d_identity d) = []")
    case True
    then show ?thesis using f goes_on_refl [OF u] by (simp add: setupConsumerOf_def)
  next
    case False
    then show ?thesis
      using f l g goes_on_links(1) [OF k g]
      by (cases q) (auto simp: setupConsumerOf_def Let_def simp del: fun_upd_apply split: if_splits)
  qed
qed

lemma setupSharedLogger_ok: "k \<le> s \<Longrightarrow> step_ok k s (setupSharedLogger env ld s d)"
proof (rule step_okI)
  fix N st r st' assume k: "k \<le> s" and u: "under s st" and N: "N \<subseteq> known st" and f: "setupSharedLogger env ld s d st = (r, st')"
  define n where "n = SharedLogger (d_identity d)"
  obtain q st1 where l: "ld n st = (q, st1)" by fastforce
  have g: "goes_on k N s st st1" by (rule ld_goes_on [OF u N _ l]) (use k u in \<open>simp add: under_def\<close>)
  note g' = goes_on_links(2) [OF k g, of n]
  show "goes_on k N s st st' \<and> (\<forall>e. r = Some e \<longrightarrow> \<not> is_circular e)"
  proof (cases "n = []")
    case True
    then show ?thesis using f goes_on_refl [OF u] by (simp add: setupSharedLogger_def n_def)
  next
    case False
    then have "st' = st1 \<or> st' = st1\<lparr>muxes := List.insert n (muxes st1), sharedLoggerName := (sharedLoggerName st1)(s := n)\<rparr>"
      using f l by (cases q) (auto simp: setupSharedLogger_def n_def [symmetric] Let_def simp del: fun_upd_apply split: if_splits)
    moreover have "r = Some e \<Longrightarrow> \<not> is_circular e" for e
      using f l False by (cases q) (auto simp: setupSharedLogger_def n_def [symmetric] Let_def split: if_splits)
    ultimately show ?thesis using g g' by blast
  qed
qed

lemma setup_ok: "k \<le> s \<Longrightarrow> step_ok k s (load_all [setupConsumerOf ld s d, setupSharedLogger env ld s d])"
  by (intro load_all_ok) (simp add: setupConsumerOf_ok setupSharedLogger_ok)

end

lemma read_description_not_circular: "read_description y h dl name = Inl e \<Longrightarrow> \<not> is_circular e"
proof -
  have f: "find_file fs ps = Inl e \<Longrightarrow> \<not> is_circular e" for fs ps e
    by (induction ps) (auto split: open_answer.splits)
  have s: "find_script h name ds = Inl e \<Longrightarrow> \<not> is_circular e" for ds e
    by (induction ds) (auto simp: Let_def split: if_splits option.splits)
  have o: "overlay_loop y fs arg ap ps d = Inl e \<Longrightarrow> \<not> is_circular e" for fs arg ap ps d e
    by (induction ps arbitrary: ap d) (auto split: if_splits open_answer.splits sum.splits)
  have p: "parse_primary y fs name q r = Inl e \<Longrightarrow> \<not> is_circular e" for fs q r e
    by (auto simp: parse_primary_def split: sum.splits option.splits)
  have v: "applySiblingOverride y fs name q d = Inl e \<Longrightarrow> \<not> is_circular e" for fs q d e
    by (auto simp: applySiblingOverride_def Let_def split: open_answer.splits sum.splits)
  have "findAndParse y h dl name = Inl e \<Longrightarrow> \<not> is_circular e" for e
    using f s o p v
    by (auto simp: findAndParse_def applyOverlays_def rbind_def Let_def split: sum.splits option.splits)
  then show "read_description y h dl name = Inl e \<Longrightarrow> \<not> is_circular e"
    by (auto simp: read_description_def rbind_def split: sum.splits prod.splits)
qed

lemma remove_after:
  assumes "under s st1" "frame k N st st1" "loading st1 = loading st" "serviceName (cfgs (set_of st1) s) = name" "name \<notin> N"
  shows "load_inv (remove_record s st1) \<and> frame k N st (remove_record s st1) \<and>
    loading (remove_record s st1) = loading st \<and> name \<notin> known (remove_record s st1)"
proof -
  have r: "load_inv (remove_record s st1) \<and> frame k N st1 (remove_record s st1) \<and>
      loading (remove_record s st1) = loading st1 \<and> known (remove_record s st1) = known st1 - {name}"
    using remove_record_frame [OF assms(1)] assms(4,5) by blast
  then have "frame k N st (remove_record s st1)" using frame_trans [OF assms(2)] by blast
  with r assms(3) show ?thesis by simp
qed

context dependency_loader
begin

lemma finish_load_ok:
  assumes u: "under s st" and N: "N \<subseteq> known st" and k: "k \<le> s" and name: "serviceName (cfgs (set_of st) s) = name" "name \<notin> N"
    and a: "attrs st s = new_attrs" and l: "finish_load env ld name s d p st = (r, st')"
  shows "load_inv st' \<and> frame k N st st' \<and> loading st' = loading st \<and>
    (case r of Inr t \<Rightarrow> t = s \<and> under s st' \<and> serviceName (cfgs (set_of st') s) = name
             | Inl e \<Rightarrow> \<not> is_circular e \<and> name \<notin> known st')"
proof -
  obtain r1 st1 where 1: "loadDependencies env ld s d p st = (r1, st1)" by fastforce
  note ok1 = step_okD [OF loadDependencies_ok [OF k] 1 u N]
  then have u1: "under s st1" "frame k N st st1" "loading st1 = loading st" "serviceName (cfgs (set_of st1) s) = name"
    "attrs st1 s = new_attrs" using name a by (simp_all add: goes_on_def)
  show ?thesis
  proof (cases r1)
    case (Some e)
    then have "r = Inl e" "st' = remove_record s st1" using 1 l by (simp_all add: finish_load_def)
    then show ?thesis using ok1(2) Some remove_after [OF u1(1-4) name(2)] by simp
  next
    case None
    define st2 where "st2 = configure env name s d p st1"
    have c: "under s st2 \<and> frame k N st1 st2 \<and> loading st2 = loading st1"
      unfolding st2_def by (rule configure_goes_on [OF u1(1) _ k]) (simp add: u1 new_attrs_def)
    have N2: "N \<subseteq> known st2" using frame_known N u1(2) c frame_trans by blast
    have n2: "serviceName (cfgs (set_of st2) s) = name" using u1 by (simp add: st2_def configure_view)
    obtain r3 st3 where 3: "load_all [setupConsumerOf ld s d, setupSharedLogger env ld s d] st2 = (r3, st3)" by fastforce
    have ok3: "goes_on k N s st2 st3" "r3 = Some e \<Longrightarrow> \<not> is_circular e" for e
      using step_okD [OF setup_ok [OF k] 3 _ N2] c by blast+
    have "frame k N st st3"
      using frame_trans [OF frame_trans [OF u1(2)]] c ok3(1) unfolding goes_on_def by blast
    then have u3: "under s st3" "frame k N st st3" "loading st3 = loading st" "serviceName (cfgs (set_of st3) s) = name"
      using n2 c u1 ok3(1) by (simp_all add: goes_on_def)
    show ?thesis
    proof (cases r3)
      case (Some e)
      then have "r = Inl e" "st' = remove_record s st3" using 1 None 3 l by (simp_all add: finish_load_def st2_def)
      then show ?thesis using ok3(2) Some remove_after [OF u3 name(2)] by simp
    next
      case None
      then have "r = Inr s" "st' = st3\<lparr>notified := notified st3 @ [s]\<rparr>"
        using \<open>r1 = None\<close> 1 3 l by (simp_all add: finish_load_def st2_def)
      moreover from this have g: "goes_on k N s st3 st'" using goes_on_links(3) [OF k goes_on_refl [OF u3(1)]] by simp
      then have "frame k N st st'" using frame_trans [OF u3(2)] unfolding goes_on_def by blast
      ultimately show ?thesis
        using u3 g by (simp add: goes_on_def under_def ready_def)
    qed
  qed
qed

lemma load_one_ok:
  assumes r: "ready st" and n: "name \<notin> known st"
    and l: "load_one env ld name (st\<lparr>loading := name # loading st\<rparr>) = (res, st')"
  shows "load_inv st' \<and> frame (nextSvc st) (known st) st st' \<and> loading st' = name # loading st \<and>
    (case res of Inr t \<Rightarrow> t = nextSvc st \<and> under t st' \<and> serviceName (cfgs (set_of st') t) = name
               | Inl e \<Rightarrow> \<not> is_circular e \<and> name \<notin> known st')"
proof -
  have st: "load_inv (st\<lparr>loading := x\<rparr>) = load_inv st" "frame k N st (st\<lparr>loading := x\<rparr>)" "known (st\<lparr>loading := x\<rparr>) = known st"
    "nextSvc (st\<lparr>loading := x\<rparr>) = nextSvc st" for x k N
    by (auto simp: load_inv_def tables_agree_def known_def frame_def same_service_def same_consumer_def same_alias_def
        intro: exI [of _ "[]"])
  show ?thesis
  proof (cases "\<exists>d p i. read_description (e_sys env) (e_host env) (e_loader env) name = Inr (d, p) \<and> create_impl (Type d) = Some i")
    case False
    then have "st' = st\<lparr>loading := name # loading st\<rparr> \<and> (\<exists>e. res = Inl e \<and> \<not> is_circular e)"
      using l read_description_not_circular
      by (auto simp: load_one_def split: sum.splits option.splits prod.splits)
    then show ?thesis using r n by (auto simp: st ready_def)
  next
    case True
    then obtain d p i where d: "read_description (e_sys env) (e_host env) (e_loader env) name = Inr (d, p)"
      and i: "create_impl (Type d) = Some i" by blast
    define st1 where "st1 = upd_set (AddService (nextSvc st)) (create_record env name d p i (st\<lparr>loading := name # loading st\<rparr>))"
    have c: "under (nextSvc st) st1 \<and> frame (nextSvc st) (known st) st st1 \<and> loading st1 = name # loading st \<and>
        attrs st1 (nextSvc st) = new_attrs \<and> cfgs (set_of st1) (nextSvc st) = new_config i name"
      unfolding st1_def using create_goes_on [OF r n order_refl] by blast
    have f: "finish_load env ld name (nextSvc st) d p st1 = (res, st')"
      using l d i by (simp add: load_one_def st1_def)
    have "known st \<subseteq> known st1" using c frame_known by blast
    then have "load_inv st' \<and> frame (nextSvc st) (known st) st1 st' \<and> loading st' = loading st1 \<and>
      (case res of Inr t \<Rightarrow> t = nextSvc st \<and> under (nextSvc st) st' \<and> serviceName (cfgs (set_of st') (nextSvc st)) = name
                 | Inl e \<Rightarrow> \<not> is_circular e \<and> name \<notin> known st')"
      using c n by (intro finish_load_ok [OF _ _ order_refl _ _ _ f]) (auto simp: new_config_def)
    moreover from this have "frame (nextSvc st) (known st) st st'" using frame_trans c by blast
    ultimately show ?thesis using c by (cases res) auto
  qed
qed

end

section \<open>The loader keeps its contract\<close>

definition loads_one :: "(string \<Rightarrow> load_state \<Rightarrow> load_out) \<Rightarrow> bool" where
  "loads_one f \<longleftrightarrow>
    (\<forall>st name r st'. ready st \<longrightarrow> name \<notin> known st \<longrightarrow> f name st = (r, st') \<longrightarrow>
      ready st' \<and> frame (nextSvc st) (known st) st st' \<and> loading st' = loading st \<and>
      (case r of Inr t \<Rightarrow> t = nextSvc st \<and> under t st' \<and> serviceName (cfgs (set_of st') t) = name
               | Inl e \<Rightarrow> \<not> is_circular e \<and> name \<notin> known st'))"

lemma loads_oneD:
  assumes "loads_one f" "ready st" "name \<notin> known st" "f name st = (r, st')"
  shows "ready st' \<and> frame (nextSvc st) (known st) st st' \<and> loading st' = loading st"
    "r = Inr t \<Longrightarrow> t = nextSvc st \<and> under t st' \<and> serviceName (cfgs (set_of st') t) = name"
    "r = Inl e \<Longrightarrow> \<not> is_circular e \<and> name \<notin> known st'"
  using assms(1) [unfolded loads_one_def, rule_format, OF assms(2-4)] by auto

lemma FindService_named: "load_inv st \<Longrightarrow> FindService name (set_of st) = Some s \<Longrightarrow> named st name s"
  by (auto simp: load_inv_def tables_agree_def FindService_def named_def dest!: map_of_SomeD split: option.splits)

lemma FindService_unknown: "FindService name (set_of st) = None \<Longrightarrow> name \<notin> known st"
  by (auto simp: FindService_def known_def split: option.splits)

lemma find_or_load_contract:
  assumes f: "loads_one f"
  shows "dependency_loader (find_or_load f)"
proof
  fix st n r st' assume r: "ready st" and l: "find_or_load f n st = (r, st')"
  show "ready st' \<and> frame (nextSvc st) (known st) st st' \<and> loading st' = loading st"
    using loads_oneD(1) [OF f r FindService_unknown] l r
    by (cases "FindService n (set_of st)") (simp_all add: find_or_load_def)
next
  fix st n t st' assume r: "ready st" and l: "find_or_load f n st = (Inr t, st')"
  show "named st' n t"
    using loads_oneD(2) [OF f r FindService_unknown, of n "Inr t"] l r FindService_named [of st n t]
    by (cases "FindService n (set_of st)") (auto simp: find_or_load_def ready_def named_def under_def)
next
  fix st n e st' assume r: "ready st" and l: "find_or_load f n st = (Inl e, st')"
  show "\<not> is_circular e"
    using loads_oneD(3) [OF f r FindService_unknown, of n "Inl e"] l
    by (cases "FindService n (set_of st)") (auto simp: find_or_load_def)
qed

lemma ready_loading:
  assumes "load_inv st'" "loading st' = name # loading st" "set (loading st) \<subseteq> known st'" "name \<notin> set (loading st)"
  shows "ready (st'\<lparr>loading := removeAll name (loading st')\<rparr>)" "loading (st'\<lparr>loading := removeAll name (loading st')\<rparr>) = loading st"
    "frame k N st (st'\<lparr>loading := removeAll name (loading st')\<rparr>) = frame k N st st'"
    "under t (st'\<lparr>loading := removeAll name (loading st')\<rparr>) \<longleftrightarrow> ready (st'\<lparr>loading := removeAll name (loading st')\<rparr>) \<and>
       t < nextSvc st' \<and> state (recs (set_of st') t) = StateStopped \<and>
       map_of (records (set_of st')) (serviceName (cfgs (set_of st') t)) = Some t"
  using assms
  by (auto simp: ready_def load_inv_def tables_agree_def known_def frame_def same_service_def same_consumer_def
      same_alias_def under_def)

lemma loadServiceImpl_loads: "loads_one (loadServiceImpl n env)"
proof (induction n)
  case 0
  show ?case by (auto simp: loads_one_def)
next
  case (Suc n)
  have ld: "dependency_loader (find_or_load (loadServiceImpl n env))" by (rule find_or_load_contract [OF Suc])
  show ?case unfolding loads_one_def
  proof (intro allI impI)
    fix st name r st'
    assume r: "ready st" and n: "name \<notin> known st" and l: "loadServiceImpl (Suc n) env name st = (r, st')"
    have nl: "name \<notin> set (loading st)" using r n by (auto simp: ready_def)
    show "ready st' \<and> frame (nextSvc st) (known st) st st' \<and> loading st' = loading st \<and>
      (case r of Inr t \<Rightarrow> t = nextSvc st \<and> under t st' \<and> serviceName (cfgs (set_of st') t) = name
               | Inl e \<Rightarrow> \<not> is_circular e \<and> name \<notin> known st')"
    proof (cases "valid_service_name name")
      case False
      then show ?thesis using l r n by auto
    next
      case True
      then obtain st1 where 1: "load_one env (find_or_load (loadServiceImpl n env)) name (st\<lparr>loading := name # loading st\<rparr>) = (r, st1)"
        and st': "st' = st1\<lparr>loading := removeAll name (loading st1)\<rparr>"
        using l nl by (auto split: prod.splits)
      note ok = dependency_loader.load_one_ok [OF ld r n 1]
      have "set (loading st) \<subseteq> known st1" using r ok frame_known unfolding ready_def by blast
      then have rl: "ready st'" "loading st' = loading st" "frame (nextSvc st) (known st) st st'"
          "under t st1 \<Longrightarrow> under t st'" "known st' = known st1" "set_of st' = set_of st1" for t
        using ready_loading [of st1 name st] ok nl unfolding st' by (auto simp: under_def known_def)
      show ?thesis using rl ok by (cases r) auto
    qed
  qed
qed

interpretation loads: dependency_loader "find_or_load (loadServiceImpl n env)"
  by (rule find_or_load_contract) (rule loadServiceImpl_loads)

section \<open>The links of a loaded service\<close>

definition dep_list :: "svc \<Rightarrow> load_state \<Rightarrow> (svc \<times> DependencyType) list" where
  "dep_list s st = map (\<lambda>d. (To (deps (set_of st) d), DepType (deps (set_of st) d))) (dependsOn (recs (set_of st) s))"

definition declared :: "(string list \<times> DependencyType \<times> bool) list \<Rightarrow> (string \<times> DependencyType) list" where
  "declared specs = concat (map (\<lambda>(names, ty, _). map (\<lambda>n. (n, ty)) names) specs)"

text \<open>Each link goes to the service its name stands for and has the declared type.\<close>

definition realises :: "load_state \<Rightarrow> (string \<times> DependencyType) list \<Rightarrow> (svc \<times> DependencyType) list \<Rightarrow> bool" where
  "realises st = list_all2 (\<lambda>(n, ty) (t, ty'). ty' = ty \<and> named st n t)"

definition keeps_config :: "load_state \<Rightarrow> load_state \<Rightarrow> bool" where
  "keeps_config st st' \<longleftrightarrow>
    nextSvc st \<le> nextSvc st' \<and> (\<forall>t<nextSvc st. cfgs (set_of st') t = cfgs (set_of st) t \<and> attrs st' t = attrs st t)"

lemma keeps_config_trans: "keeps_config st st' \<Longrightarrow> keeps_config st' st'' \<Longrightarrow> keeps_config st st''"
  by (auto simp: keeps_config_def)

lemma frame_config: "frame (nextSvc st) N st st' \<Longrightarrow> keeps_config st st'"
  by (auto simp: frame_def keeps_config_def same_service_def)

lemma realises_config: "realises st xs ys \<Longrightarrow> keeps_config st st' \<Longrightarrow> realises st' xs ys"
  unfolding realises_def by (erule list_all2_mono) (auto simp: named_def keeps_config_def)

lemma link_old: "load_inv st \<Longrightarrow> d \<in> set (dependsOn (recs (set_of st) s)) \<Longrightarrow> d < nextDep st"
  by (rule ccontr) (auto simp: load_inv_def links_below_def fresh_link_def not_less)

lemma frame_dep_list:
  assumes "frame k N st st'" "s < k" "load_inv st"
  shows "dep_list s st' = dep_list s st"
proof -
  have "same_service st st' s" using assms by (simp add: frame_def)
  then have "dependsOn (recs (set_of st') s) = dependsOn (recs (set_of st) s)" by (auto simp: same_service_def)
  then show ?thesis using assms(1) link_old [OF assms(3)] by (auto simp: dep_list_def frame_def)
qed

lemma add_dep_list:
  assumes "under s st"
  shows "dep_list s (add_dep s t ty st) = dep_list s st @ [(t, ty)]" "keeps_config st (add_dep s t ty st)"
proof -
  have st: "state (recs (set_of st) s) = StateStopped" and inv: "load_inv st"
    using assms by (simp_all add: under_def ready_def)
  show "keeps_config st (add_dep s t ty st)" by (simp add: keeps_config_def add_dep_view [OF st] new_link_other)
  show "dep_list s (add_dep s t ty st) = dep_list s st @ [(t, ty)]"
    using link_old [OF inv, of _ s]
    by (auto simp: dep_list_def add_dep_view [OF st] new_link_recs new_link_view NewServiceDep_def)
qed

lemma step_ok_under:
  assumes "step_ok s s f" "under s st" "f st = (r, st')"
  shows "under s st'" "cfgs (set_of st') s = cfgs (set_of st) s" "pcfgs (set_of st') s = pcfgs (set_of st) s"
    "attrs st' s = attrs st s"
  using step_okD(1) [OF assms(1,3,2), of "{}"] by (simp_all add: goes_on_def)

context dependency_loader
begin

lemma ld_links:
  assumes u: "under s st" and l: "ld n st = (r, st')"
  shows "dep_list s st' = dep_list s st" "keeps_config st st'"
proof -
  have "ready st" "s < nextSvc st" using u by (simp_all add: under_def)
  with loads [OF _ l] show "dep_list s st' = dep_list s st" "keeps_config st st'"
    by (auto intro: frame_dep_list frame_config simp: ready_def)
qed

lemma load_names_links:
  assumes "under s st" "load_names ld s ty False ns st = (None, st')"
  shows "keeps_config st st' \<and> (\<exists>new. dep_list s st' = dep_list s st @ new \<and> realises st' (map (\<lambda>n. (n, ty)) ns) new)"
  using assms
proof (induction ns arbitrary: st)
  case Nil
  then show ?case by (simp add: keeps_config_def realises_def)
next
  case (Cons n ns)
  then obtain t st1 where l: "ld n st = (Inr t, st1)" and rest: "load_names ld s ty False ns (add_dep s t ty st1) = (None, st')"
    by (auto split: prod.splits sum.splits)
  have "ready st" using Cons.prems(1) by (simp add: under_def)
  from finds [OF this l] have t: "named st1 n t" .
  have u1: "under s st1" using ld_goes_on [OF Cons.prems(1) empty_subsetI _ l, of 0] by (simp add: goes_on_def)
  have u2: "under s (add_dep s t ty st1)"
    using add_dep_goes_on [OF u1, of t 0 "{}" ty] t by (simp add: goes_on_def named_def)
  obtain new where new: "dep_list s st' = dep_list s (add_dep s t ty st1) @ new" "realises st' (map (\<lambda>n. (n, ty)) ns) new"
    and kc: "keeps_config (add_dep s t ty st1) st'"
    using Cons.IH [OF u2 rest] by blast
  have k1: "keeps_config st1 st'" by (rule keeps_config_trans [OF add_dep_list(2) [OF u1] kc])
  then have "named st' n t" using t by (auto simp: named_def keeps_config_def)
  moreover have "keeps_config st st'" by (rule keeps_config_trans [OF ld_links(2) [OF Cons.prems(1) l] k1])
  ultimately show ?case
    using new ld_links(1) [OF Cons.prems(1) l] add_dep_list(1) [OF u1]
    by (intro conjI exI [of _ "(t, ty) # new"]) (simp_all add: realises_def)
qed

lemma load_specs_links:
  assumes "under s st" "\<forall>(names, ty, opt)\<in>set specs. opt \<longrightarrow> names = []"
    "load_all (map (\<lambda>(names, ty, opt). load_names ld s ty opt names) specs) st = (None, st')"
  shows "keeps_config st st' \<and> (\<exists>new. dep_list s st' = dep_list s st @ new \<and> realises st' (declared specs) new)"
  using assms
proof (induction specs arbitrary: st)
  case Nil
  then show ?case by (simp add: keeps_config_def realises_def declared_def)
next
  case (Cons sp specs)
  obtain names ty opt where sp: "sp = (names, ty, opt)" by (cases sp)
  obtain st1 where 1: "load_names ld s ty opt names st = (None, st1)"
    and rest: "load_all (map (\<lambda>(names, ty, opt). load_names ld s ty opt names) specs) st1 = (None, st')"
    using Cons.prems(3) by (auto simp: sp split: prod.splits option.splits)
  have o: "load_names ld s ty False names st = (None, st1)" using 1 Cons.prems(2) by (cases opt) (auto simp: sp)
  have u1: "under s st1" by (rule step_ok_under(1) [OF load_names_ok [OF order_refl] Cons.prems(1) 1])
  obtain n1 where n1: "dep_list s st1 = dep_list s st @ n1" "realises st1 (map (\<lambda>n. (n, ty)) names) n1" "keeps_config st st1"
    using load_names_links [OF Cons.prems(1) o] by blast
  obtain n2 where n2: "dep_list s st' = dep_list s st1 @ n2" "realises st' (declared specs) n2" "keeps_config st1 st'"
    using Cons.IH [OF u1 _ rest] Cons.prems(2) by auto
  have "realises st' (declared (sp # specs)) (n1 @ n2)"
    using realises_config [OF n1(2) n2(3)] n2(2) by (simp add: realises_def declared_def sp list_all2_appendI)
  then show ?case
    using n1 n2 keeps_config_trans [OF n1(3) n2(3)] by (intro conjI exI [of _ "n1 @ n2"]) simp_all
qed

lemma setup_links:
  assumes "under s st" "load_all [setupConsumerOf ld s d, setupSharedLogger env ld s d] st = (None, st')"
  shows "dep_list s st' = dep_list s st \<and> keeps_config st st'"
proof -
  obtain st1 where 1: "setupConsumerOf ld s d st = (None, st1)" and 2: "setupSharedLogger env ld s d st1 = (None, st')"
    using assms(2) by (auto split: prod.splits option.splits)
  have "dep_list s st1 = dep_list s st \<and> keeps_config st st1"
    using 1 ld_links [OF assms(1)]
    by (auto simp: setupConsumerOf_def Let_def dep_list_def keeps_config_def split: if_splits prod.splits sum.splits)
  moreover have "under s st1"
    by (rule step_ok_under(1) [OF setupConsumerOf_ok [OF order_refl] assms(1) 1])
  then have "dep_list s st' = dep_list s st1 \<and> keeps_config st1 st'"
    using 2 ld_links [of s st1]
    by (auto simp: setupSharedLogger_def Let_def dep_list_def keeps_config_def split: if_splits prod.splits sum.splits)
  ultimately show ?thesis using keeps_config_trans by fastforce
qed

end

text \<open>What a service is after it was loaded from the description \<open>d\<close>.\<close>

definition loaded_as :: "load_env \<Rightarrow> string \<Rightarrow> ServiceDescription \<Rightarrow> svc \<Rightarrow> load_state \<Rightarrow> bool" where
  "loaded_as env name d s st \<longleftrightarrow>
    (\<exists>i. create_impl (Type d) = Some i \<and> cfgs (set_of st) s = apply_record d (new_config i name) \<and>
      pcfgs (set_of st) s = apply_signals d (createService (e_dbus env) d i)) \<and>
    attrs st s = applyToService d new_attrs \<and>
    state (recs (set_of st) s) = StateStopped \<and> map_of (records (set_of st)) name = Some s \<and>
    (dir_specs (d_dependencies d) = [] \<and> BeforeOptional (d_dependencies d) = [] \<and> AfterOptional (d_dependencies d) = [] \<longrightarrow>
      realises st (declared (dep_specs (d_dependencies d))) (dep_list s st))"

lemma configure_links:
  assumes "rec_provides (attrs st s) = []"
  shows "dep_list s (configure env name s d p st) = dep_list s st"
    "realises st xs ys \<Longrightarrow> realises (configure env name s d p st) xs ys"
proof -
  show "dep_list s (configure env name s d p st) = dep_list s st"
    by (simp add: dep_list_def configure_view) (simp add: configure_def upd_set_def Let_def)
  have "named st n t \<Longrightarrow> named (configure env name s d p st) n t" for n t
    using assms by (cases "t = s") (auto simp: named_def configure_view)
  then show "realises st xs ys \<Longrightarrow> realises (configure env name s d p st) xs ys"
    by (auto simp: realises_def elim!: list_all2_mono)
qed

context dependency_loader
begin

lemma finish_load_loaded:
  assumes u: "under s st" and a: "attrs st s = new_attrs" and n: "dep_list s st = []"
    and c: "create_impl (Type d) = Some i" "cfgs (set_of st) s = new_config i name" "pcfgs (set_of st) s = createService (e_dbus env) d i"
    and l: "finish_load env ld name s d p st = (Inr t, st')"
  shows "loaded_as env name d s st'"
proof -
  obtain st1 st3 where 1: "loadDependencies env ld s d p st = (None, st1)"
    and 3: "load_all [setupConsumerOf ld s d, setupSharedLogger env ld s d] (configure env name s d p st1) = (None, st3)"
    and st': "st' = st3\<lparr>notified := notified st3 @ [s]\<rparr>"
    using l by (auto simp: finish_load_def split: prod.splits option.splits)
  define st2 where "st2 = configure env name s d p st1"
  note s1 = step_ok_under [OF loadDependencies_ok [OF order_refl] u 1]
  have p1: "rec_provides (attrs st1 s) = []" using s1(4) a by (simp add: new_attrs_def)
  have u2: "under s st2"
    unfolding st2_def using configure_goes_on [OF s1(1) p1 order_refl] by blast
  note s3 = step_ok_under [OF setup_ok [OF order_refl] u2 3 [folded st2_def]]
  have set2: "cfgs (set_of st2) s = apply_record d (cfgs (set_of st1) s)" "pcfgs (set_of st2) s = apply_signals d (pcfgs (set_of st1) s)"
    "attrs st2 s = applyToService d (attrs st1 s)"
    by (simp_all add: st2_def configure_def upd_set_def Let_def)
  have k3: "dep_list s st3 = dep_list s st2" "keeps_config st2 st3"
    using setup_links [OF u2 3 [folded st2_def]] by blast+
  have "realises st3 (declared (dep_specs (d_dependencies d))) (dep_list s st3)"
    if g: "dir_specs (d_dependencies d) = []" "BeforeOptional (d_dependencies d) = []" "AfterOptional (d_dependencies d) = []"
  proof -
    have opt: "\<forall>(names, ty, opt)\<in>set (dep_specs (d_dependencies d)). opt \<longrightarrow> names = []" using g by (simp add: dep_specs_def)
    have "realises st1 (declared (dep_specs (d_dependencies d))) (dep_list s st1)"
      using load_specs_links [OF u opt] 1 g(1) n by (auto simp: loadDependencies_def)
    from configure_links(2) [OF p1 this] have "realises st2 (declared (dep_specs (d_dependencies d))) (dep_list s st2)"
      by (simp add: st2_def configure_links(1) [OF p1])
    from realises_config [OF this k3(2)] show ?thesis by (simp add: k3(1))
  qed
  moreover have "serviceName (cfgs (set_of st3) s) = name"
    using s3(2) set2(1) s1(2) c by (simp add: apply_record_def apply_actions_def new_config_def Let_def)
  ultimately show ?thesis
    using s3 s1 set2 c a
    by (auto simp: loaded_as_def st' under_def realises_def named_def dep_list_def)
qed

lemma load_one_loaded:
  assumes r: "ready st" and n: "name \<notin> known st"
    and l: "load_one env ld name (st\<lparr>loading := name # loading st\<rparr>) = (Inr s, st')"
  shows "\<exists>d p. read_description (e_sys env) (e_host env) (e_loader env) name = Inr (d, p) \<and> loaded_as env name d s st'"
proof -
  from l obtain d p i where d: "read_description (e_sys env) (e_host env) (e_loader env) name = Inr (d, p)"
    and i: "create_impl (Type d) = Some i"
    by (auto simp: load_one_def split: sum.splits prod.splits option.splits)
  define st1 where "st1 = upd_set (AddService (nextSvc st)) (create_record env name d p i (st\<lparr>loading := name # loading st\<rparr>))"
  have c: "under (nextSvc st) st1 \<and> attrs st1 (nextSvc st) = new_attrs \<and> cfgs (set_of st1) (nextSvc st) = new_config i name \<and>
      dependsOn (recs (set_of st1) (nextSvc st)) = []"
    unfolding st1_def using create_goes_on [OF r n order_refl] by blast
  have f: "finish_load env ld name (nextSvc st) d p st1 = (Inr s, st')"
    using l d i by (simp add: load_one_def st1_def)
  then have "s = nextSvc st" by (auto simp: finish_load_def split: prod.splits option.splits)
  moreover have "loaded_as env name d (nextSvc st) st'"
    by (rule finish_load_loaded [OF _ _ _ i _ _ f]) (use c in \<open>auto simp: dep_list_def st1_def create_record_def upd_set_def AddService_def Let_def\<close>)
  ultimately show ?thesis using d by blast
qed

end

lemma loadServiceImpl_loaded:
  assumes "ready st" "name \<notin> known st" "loadServiceImpl n env name st = (Inr s, st')"
  shows "\<exists>d p. read_description (e_sys env) (e_host env) (e_loader env) name = Inr (d, p) \<and> loaded_as env name d s st'"
proof (cases n)
  case (Suc m)
  then obtain st1 where 1: "load_one env (find_or_load (loadServiceImpl m env)) name (st\<lparr>loading := name # loading st\<rparr>) = (Inr s, st1)"
    and st': "st' = st1\<lparr>loading := removeAll name (loading st1)\<rparr>"
    using assms(3) by (auto split: if_splits prod.splits)
  have "loaded_as env name d s st' = loaded_as env name d s st1" for d
    by (simp add: st' loaded_as_def realises_def named_def dep_list_def)
  then show ?thesis using loads.load_one_loaded [OF assms(1,2) 1] by simp
qed (use assms in simp)

end
