(* ===== verification/LoaderGuarantees.thy ===== *)
theory LoaderGuarantees
  imports Loader ConfigGuarantees
begin

text \<open>
  What the loader guarantees: it keeps the service set sound and leaves services that exist alone but for
  their dependents, their log consumers and the aliases, a loaded service has the settings and dependencies
  of its description, a failed load leaves no record under its name, and chains of dependencies are cut
  off. The lemmas at the end show what it does not do: circular dependencies are loaded, a failed load
  leaves links and a log consumer behind, an alias is taken over, and a name may lead out of the
  directories.
\<close>

section \<open>Every load\<close>

lemma LoadService_contract:
  assumes "load_inv st" "loading st = []" "DirLoader_LoadService env name st = (r, st')"
  shows "load_inv st' \<and> loading st' = [] \<and> frame (nextSvc st) (known st) st st'"
  using loads.loads [of st config_MaxDepDepth env name r st'] assms by (simp add: DirLoader_LoadService_def ready_def)

text \<open>
  Property C13. Loading a service, with all of its dependencies and whatever the outcome, keeps the
  invariant of the service set: the links are consistent in both directions, every reference is counted,
  the queues and their flags agree, the tables of names agree with the records, and what lies beyond the
  counters is unused.
\<close>

theorem loading_keeps_invariant:
  assumes "load_inv st" "loading st = []" "DirLoader_LoadService env name st = (r, st')"
  shows "load_inv st' \<and> loading st' = []"
  using LoadService_contract [OF assms] by blast

text \<open>
  Property C14. What loading a service may change of what exists, also when it fails half-way. Of every
  service that was there before, the state, the counts, the flags, the dependencies, the depth, the
  configuration, the producer it consumes and its shared logger are as before; its list of dependents may
  have grown, and it may have got a log consumer that is new, if it had none. Existing links, names and
  multiplexers are as before. An alias leads to where it led before, or to a service that is new, or, when
  a new service that took it was removed again, nowhere. No queue, timer, counter or output of the service
  set has changed.
\<close>

theorem loading_disturbs_nothing:
  assumes "load_inv st" "loading st = []" "DirLoader_LoadService env name st = (r, st')"
  shows "(\<forall>s<nextSvc st. same_service st st' s) \<and>
    (\<forall>s<nextSvc st. log_consumer st' s = log_consumer st s \<or>
      log_consumer st s = None \<and> (\<exists>c\<ge>nextSvc st. log_consumer st' s = Some c)) \<and>
    (\<forall>a. map_of (aliases (set_of st')) a = map_of (aliases (set_of st)) a \<or>
      (\<forall>t. map_of (aliases (set_of st')) a = Some t \<longrightarrow> nextSvc st \<le> t)) \<and>
    set (muxes st) \<subseteq> set (muxes st') \<and>
    (\<forall>d<nextDep st. deps (set_of st') d = deps (set_of st) d) \<and>
    (\<forall>n\<in>known st. map_of (records (set_of st')) n = map_of (records (set_of st)) n) \<and>
    others (set_of st') = others (set_of st)"
  using LoadService_contract [OF assms] by (simp add: frame_def same_consumer_def same_alias_def)

text \<open>
  The settings of the life cycle, field by field, and the commands, timeouts and restart limits of a
  process; a duration that is not positive leaves the default.
\<close>

definition behaves_as :: "ServiceDescription \<Rightarrow> svc_cfg \<Rightarrow> bool" where
  "behaves_as d c \<longleftrightarrow>
    (let b = d_behavior d; i = d_identity d; k = d_conditions d in
     autoRestart c = AutoRestart b \<and> smoothRecovery c = SmoothRecovery b \<and> manualStart c = ManualStart b \<and>
     stopWhenUnneeded c = StopWhenUnneeded b \<and> normalExitCodes c = NormalExitCodes b \<and>
     normalExitSignals c = NormalExitSignals b \<and> restartForceExitCodes c = RestartForceExitCodes b \<and>
     svcFlags c = desc_behavior.Flags b \<and> restartMode c = RestartMode (d_management d) \<and> chainTo c = ChainTo i \<and>
     dynamicUser c = DynamicUser i \<and> fdStoreMax c = FileDescriptorStoreMax i \<and>
     failureAction c = FailureAction k \<and> successAction c = SuccessAction k \<and> startLimitAction c = StartLimitAction k \<and>
     rebootArgument c = RebootArgument k \<and> runtimeMax c = RuntimeMaxSec k \<and> jobTimeout c = JobTimeoutSec k)"

definition stops_as :: "ServiceDescription \<Rightarrow> proc_cfg \<Rightarrow> bool" where
  "stops_as d c \<longleftrightarrow>
    (let l = d_limits d in
     termSignal c = TermSignal (d_management d) \<and> timeoutStopFailureMode c = TimeoutStopFailureMode l \<and>
     finalKillSignal c = desc_limits.FinalKillSignal l \<and> surviveFinalKillSignal c = SurviveFinalKillSignal l \<and>
     restartKillSignal c = RestartKillSignal l \<and> killMode c = KillMode l)"

definition runs_as :: "ServiceDescription \<Rightarrow> proc_cfg \<Rightarrow> bool" where
  "runs_as d c \<longleftrightarrow>
    (let k = d_commands d; m = d_management d in
     (Type d \<in> {TypeProcess, TypeScripted} \<longrightarrow>
       command c = Command k \<and> stopCommand c = StopCommand k \<and>
       startTimeout c = (if 0 < StartTimeout m then StartTimeout m else 60 * second) \<and>
       stopTimeout c = (if 0 < StopTimeout m then StopTimeout m else 10 * second)) \<and>
     (Type d = TypeProcess \<longrightarrow>
       preStartCommand c = PreStartCommand k \<and>
       restartDelay c = (if 0 < RestartDelay m then RestartDelay m else 200000000) \<and>
       watchdogTimeout c = max 0 (WatchdogTimeout m) \<and>
       (0 < RestartDelayStep m \<or> 0 < RestartDelayCap m \<longrightarrow>
         restartDelayStep c = RestartDelayStep m \<and> restartDelayCap c = RestartDelayCap m) \<and>
       (0 < RestartInterval m \<or> 0 < RestartLimitCount m \<longrightarrow>
         restartInterval c = RestartInterval m \<and> maxRestartCount c = RestartLimitCount m)))"

lemma created_as_described:
  assumes "create_impl (Type d) = Some i"
  shows "behaves_as d (apply_record d (new_config i name)) \<and> stops_as d (apply_signals d (createService dbus d i)) \<and>
    runs_as d (apply_signals d (createService dbus d i)) \<and> serviceName (apply_record d (new_config i name)) = name \<and>
    impl (apply_record d (new_config i name)) = i"
  using assms
  by (auto simp: behaves_as_def stops_as_def runs_as_def apply_record_def apply_actions_def apply_signals_def createService_def
      process_settings_def script_settings_def if_positive_def if_nonempty_def new_config_def NewProcessService_def
      create_impl_def Let_def split: ServiceType.splits)


text \<open>
  A failed load leaves no service under the name. The error is never the one for a circular dependency,
  neither directly nor wrapped in the errors of dependent services: the check of the loader's \<open>loading\<close> set
  can not succeed, because a service that is being loaded is found in the service set before its
  dependencies are looked at.
\<close>

lemma failed_load_unknown:
  assumes "load_inv st" "loading st = []" "DirLoader_LoadService env name st = (Inl e, st')"
  shows "name \<notin> known st' \<and> \<not> is_circular e"
proof -
  have r: "ready st" using assms(1,2) by (simp add: ready_def)
  have n: "name \<notin> known st" and l: "loadServiceImpl config_MaxDepDepth env name st = (Inl e, st')"
    using assms(3) FindService_unknown [of name st]
    by (auto simp: DirLoader_LoadService_def find_or_load_def split: option.splits)
  show ?thesis using loads_oneD(3) [OF loadServiceImpl_loads r n l] by blast
qed

text \<open>
  Property C16. A load that fails leaves no record under the name, and the services that were known by
  their names are still known by them. If the name is found at all afterwards, it is the alias of a service
  that provides it.
\<close>

theorem failed_loads:
  assumes "load_inv st" "loading st = []" "DirLoader_LoadService env name st = (Inl e, st')"
  shows "name \<notin> known st' \<and> known st \<subseteq> known st' \<and>
    (\<forall>t. FindService name (set_of st') = Some t \<longrightarrow> rec_provides (attrs st' t) = name)"
proof (intro conjI allI impI)
  show n: "name \<notin> known st'" using failed_load_unknown [OF assms] by blast
  note c = LoadService_contract [OF assms]
  show "known st \<subseteq> known st'" using c by (auto simp: known_def frame_def dom_def)
  fix t assume "FindService name (set_of st') = Some t"
  then have "(name, t) \<in> set (aliases (set_of st'))"
    using n by (auto simp: FindService_def known_def dom_def dest: map_of_SomeD split: option.splits)
  then show "rec_provides (attrs st' t) = name" using c by (auto simp: load_inv_def tables_agree_def)
qed

section \<open>Chains of dependencies\<close>

text \<open>A description that has only regular dependencies.\<close>

definition needs :: "ServiceDescription \<Rightarrow> string list \<Rightarrow> bool" where
  "needs d ns \<longleftrightarrow>
    d_dependencies d = new_dependencies\<lparr>DependsOn := ns\<rparr> \<and> Type d = TypeProcess \<and>
    ConsumerOf (d_identity d) = [] \<and> SharedLogger (d_identity d) = []"

definition registered :: "load_env \<Rightarrow> string \<Rightarrow> ServiceDescription \<Rightarrow> string \<Rightarrow> load_state \<Rightarrow> load_state" where
  "registered env name d p st =
    upd_set (AddService (nextSvc st)) (create_record env name d p Process (st\<lparr>loading := name # loading st\<rparr>))"

definition unload_name :: "string \<Rightarrow> load_state \<Rightarrow> load_state" where
  "unload_name name st = st\<lparr>loading := removeAll name (loading st)\<rparr>"

lemma registered_view:
  "loading (registered env name d p st) = name # loading st" "nextSvc (registered env name d p st) = Suc (nextSvc st)"
  "nextDep (registered env name d p st) = nextDep st"
  "state (recs (set_of (registered env name d p st)) (nextSvc st)) = StateStopped"
  by (simp_all add: registered_def upd_set_def create_record_def AddService_def NewServiceRecord_def Let_def)

lemma load_needs:
  assumes "valid_service_name name" "name \<notin> set (loading st)" "needs d ns"
    and "read_description (e_sys env) (e_host env) (e_loader env) name = Inr (d, p)"
  shows "loadServiceImpl (Suc n) env name st =
    (let s = nextSvc st in
     case load_names (find_or_load (loadServiceImpl n env)) s DepRegular False ns (registered env name d p st) of
       (Some e, st2) \<Rightarrow> (Inl e, unload_name name (remove_record s st2))
     | (None, st2) \<Rightarrow>
        (Inr s, unload_name name ((configure env name s d p st2)\<lparr>notified := notified (configure env name s d p st2) @ [s]\<rparr>)))"
  using assms
  by (simp add: load_one_def create_impl_def finish_load_def loadDependencies_def dep_specs_def dir_specs_def needs_def
      new_dependencies_def setupConsumerOf_def setupSharedLogger_def registered_def unload_name_def Let_def
      split: prod.splits option.splits)

fun depth_exceeded :: "ServiceLoadError \<Rightarrow> bool" where
  "depth_exceeded (DepthExceeded n) = True"
| "depth_exceeded (DependencyFailed n e) = depth_exceeded e"
| "depth_exceeded e = False"

lemma FindService_registered:
  "FindService m (set_of (registered env name d p st)) =
    (if m = name then Some (nextSvc st) else FindService m (set_of st))"
  by (auto simp: registered_def upd_set_def create_record_def AddService_def FindService_def new_config_def Let_def
      map_of_delete [unfolded map_delete_def] split: option.splits)

lemma chain_refused:
  assumes inj: "inj_on c {..N}" and valid: "\<forall>k\<le>N. valid_service_name (c k)"
    and files: "\<forall>k<N. \<exists>d p. read_description (e_sys env) (e_host env) (e_loader env) (c k) = Inr (d, p) \<and> needs d [c (Suc k)]"
  shows "j + n = N \<Longrightarrow> (\<forall>k. j \<le> k \<and> k \<le> N \<longrightarrow> FindService (c k) (set_of st) = None \<and> c k \<notin> set (loading st)) \<Longrightarrow>
    \<exists>e. fst (loadServiceImpl n env (c j) st) = Inl e \<and> depth_exceeded e"
proof (induction n arbitrary: j st)
  case 0
  then show ?case using valid by simp
next
  case (Suc n)
  then have "j < N" by simp
  with files obtain d p where d: "read_description (e_sys env) (e_host env) (e_loader env) (c j) = Inr (d, p)" "needs d [c (Suc j)]"
    by blast
  define st1 where "st1 = registered env (c j) d p st"
  have new: "FindService (c k) (set_of st1) = None \<and> c k \<notin> set (loading st1)" if "Suc j \<le> k" "k \<le> N" for k
  proof -
    have "c k \<noteq> c j" using inj_onD [OF inj, of k j] that by auto
    then show ?thesis
      using Suc.prems(2) that
      by (simp add: st1_def FindService_registered) (simp add: registered_def upd_set_def create_record_def Let_def)
  qed
  then obtain e where e: "fst (loadServiceImpl n env (c (Suc j)) st1) = Inl e" "depth_exceeded e"
    using Suc.IH [of "Suc j" st1] Suc.prems(1) by auto
  have "FindService (c (Suc j)) (set_of st1) = None" using new Suc.prems(1) by simp
  then have "fst (load_names (find_or_load (loadServiceImpl n env)) (nextSvc st) DepRegular False [c (Suc j)] st1)
      = Some (DependencyFailed (c (Suc j)) e)"
    using e(1) by (auto simp: find_or_load_def split: prod.splits)
  then show ?case
    using load_needs [OF _ _ d(2,1), of st n] valid Suc.prems e(2)
    by (auto simp: st1_def [symmetric] Let_def split: prod.splits option.splits)
qed

text \<open>
  Property C17. A chain of services each of which depends on the next, which goes on longer than
  \<open>config_MaxDepDepth\<close>, is refused because of its depth, and nothing is left under the name: loading ends, even
  if every file names another service that exists (as instances of a template can, without end).
\<close>

theorem endless_dependencies_refused:
  assumes "load_inv st" "loading st = []" "inj_on c {..config_MaxDepDepth}" "\<forall>k\<le>config_MaxDepDepth. valid_service_name (c k)"
    and "\<forall>k<config_MaxDepDepth. \<exists>d p. read_description (e_sys env) (e_host env) (e_loader env) (c k) = Inr (d, p) \<and> needs d [c (Suc k)]"
    and "\<forall>k\<le>config_MaxDepDepth. FindService (c k) (set_of st) = None"
  shows "\<exists>e st'. DirLoader_LoadService env (c 0) st = (Inl e, st') \<and> depth_exceeded e \<and> c 0 \<notin> known st'"
proof -
  obtain r st' where l: "DirLoader_LoadService env (c 0) st = (r, st')" by fastforce
  obtain e where "r = Inl e" "depth_exceeded e"
    using chain_refused [OF assms(3-5), of 0 config_MaxDepDepth st] assms(2,6) l
    by (auto simp: DirLoader_LoadService_def find_or_load_def)
  moreover from this have "c 0 \<notin> known st'" using failed_load_unknown [OF assms(1,2)] l by blast
  ultimately show ?thesis using l by blast
qed

section \<open>What loading does not do\<close>

text \<open>
  Two services that depend on each other are loaded, both of them and with both links: the second finds the
  first in the service set.
\<close>

lemma circular_dependencies_loaded:
  assumes "valid_service_name a" "valid_service_name b" "a \<noteq> b" "loading st = []"
    and "FindService b (set_of st) = None"
    and "read_description (e_sys env) (e_host env) (e_loader env) a = Inr (d, p)" "needs d [b]"
    and "read_description (e_sys env) (e_host env) (e_loader env) b = Inr (e, q)" "needs e [a]"
  shows "\<exists>st'. loadServiceImpl (Suc (Suc n)) env a st = (Inr (nextSvc st), st')"
proof -
  let ?st = "registered env a d p st"
  have "load_names (find_or_load (loadServiceImpl n env)) (nextSvc ?st) DepRegular False [a] (registered env b e q ?st)
      = (None, add_dep (nextSvc ?st) (nextSvc st) DepRegular (registered env b e q ?st))"
    using assms(3) by (simp add: find_or_load_def FindService_registered registered_view del: loadServiceImpl.simps)
  then have "\<exists>st'. loadServiceImpl (Suc n) env b ?st = (Inr (nextSvc ?st), st')"
    using load_needs [OF assms(2) _ assms(9,8), of ?st n] assms(3,4)
    by (simp add: registered_view Let_def del: loadServiceImpl.simps load_names.simps)
  then show ?thesis
    using load_needs [OF assms(1) _ assms(7,6), of st "Suc n"] assms(3-5)
    by (auto simp: find_or_load_def FindService_registered Let_def simp del: loadServiceImpl.simps)
qed

text \<open>
  When the second of two dependencies can not be loaded, the service is taken out of the tables, but the
  link to the first dependency stays in the list of its dependents.
\<close>

lemma failed_load_leaves_link:
  assumes "valid_service_name a" "loading st = []" "c \<noteq> a" "b \<noteq> a" "valid_service_name c"
    and "FindService b (set_of st) = Some t" "FindService c (set_of st) = None"
    and "read_description (e_sys env) (e_host env) (e_loader env) a = Inr (d, p)" "needs d [b, c]"
    and "read_description (e_sys env) (e_host env) (e_loader env) c = Inl e"
  shows "fst (loadServiceImpl (Suc (Suc n)) env a st) = Inl (DependencyFailed c e) \<and>
    nextDep st \<in> set (dependents (recs (set_of (snd (loadServiceImpl (Suc (Suc n)) env a st))) t))"
proof -
  let ?st = "add_dep (nextSvc st) t DepRegular (registered env a d p st)"
  note view = add_dep_view [where st = "registered env a d p st", OF registered_view(4)] registered_view new_link_other
  have f: "FindService m (set_of ?st) = FindService m (set_of (registered env a d p st))" for m
    by (simp add: view FindService_def split: option.split)
  have "loadServiceImpl (Suc n) env c ?st = (Inl e, ?st)"
    using assms(2,3,5,10) by (simp add: load_one_def view)
  then have "load_names (find_or_load (loadServiceImpl (Suc n) env)) (nextSvc st) DepRegular False [b, c] (registered env a d p st)
      = (Some (DependencyFailed c e), ?st)"
    using assms(3,4,6,7) by (simp add: find_or_load_def f FindService_registered del: loadServiceImpl.simps)
  moreover have "dependents (recs (set_of (unload_name a (remove_record (nextSvc st) ?st))) t)
      = dependents (recs (set_of (registered env a d p st)) t) @ [nextDep st]"
    by (simp add: unload_name_def remove_record_def upd_set_def RemoveService_def view new_link_recs)
  ultimately show ?thesis
    using load_needs [OF assms(1) _ assms(9,8), of st "Suc n"] assms(2)
    by (simp add: Let_def del: loadServiceImpl.simps load_names.simps)
qed

text \<open>
  A service takes over the alias it provides, whoever had it, and a service that is removed after a failed
  load takes the alias with it.
\<close>

lemma loads_take_over_aliases:
  assumes "rec_provides (applyToService d (attrs st s)) = a" "a \<noteq> []"
  shows "map_of (aliases (set_of (configure env name s d p st))) a = Some s"
    "rec_provides (attrs st' s) = a \<Longrightarrow> map_of (aliases (set_of (remove_record s st'))) a = None"
proof -
  show "map_of (aliases (set_of (configure env name s d p st))) a = Some s"
    using assms by (simp add: configure_view Let_def map_put_def)
  show "rec_provides (attrs st' s) = a \<Longrightarrow> map_of (aliases (set_of (remove_record s st'))) a = None"
    using assms(2) by (simp add: remove_record_def upd_set_def RemoveService_def map_of_delete)
qed

text \<open>
  When the shared logger is refused, the service is removed, but it stays the log consumer of the producer,
  which then refuses every other consumer.
\<close>

lemma failed_load_leaves_consumer:
  assumes "loadDependencies env ld s d p st = (None, st1)"
    and "setupConsumerOf ld s d (configure env name s d p st1) = (None, st2)"
    and "setupSharedLogger env ld s d st2 = (Some e, st3)" "log_consumer st3 q = Some s"
  shows "\<exists>st'. finish_load env ld name s d p st = (Inl e, st') \<and> log_consumer st' q = Some s \<and>
    map_of (records (set_of st')) (serviceName (cfgs (set_of st3) s)) = None"
  using assms by (simp add: finish_load_def remove_record_def upd_set_def RemoveService_def map_of_delete)

text \<open>A name that is accepted leads out of the directories of the loader.\<close>

lemma name_leaves_directory:
  "valid_service_name ''a/../../x'' \<and> path_Join ''/etc/slinit.d'' ''a/../../x'' = ''/etc/x''"
  by (simp add: valid_service_name_def ValidateServiceName_def name_byte_ok_def MaxServiceNameLen_def
      path_Join_def Clean_def IsAbs_def)

section \<open>Examples\<close>

text \<open>A service set without services.\<close>

definition start_state :: load_state where
  "start_state =
    \<lparr>set_of = internals, loading = [], nextSvc = 0, nextDep = 0, depDepth = (\<lambda>_. 0), attrs = (\<lambda>_. new_attrs),
     logType_of = (\<lambda>_. LogNone), serviceDir = (\<lambda>_. []), log_consumer = (\<lambda>_. None), consumer_for = (\<lambda>_. None),
     sharedLoggerName = (\<lambda>_. []), muxes = [], notified = []\<rparr>"

lemma start_state_inv: "load_inv start_state" "loading start_state = []" "FindService n (set_of start_state) = None"
proof -
  have "sound internals" using sound_initial [OF internals_initial] by blast
  then show "load_inv start_state"
    by (simp add: start_state_def load_inv_def links_below_def fresh_link_def unused_def tables_agree_def)
      (simp add: internals_def NewServiceSet_def NewServiceRecord_def)
  show "loading start_state = []" "FindService n (set_of start_state) = None"
    by (simp_all add: start_state_def FindService_def internals_def NewServiceSet_def)
qed

text \<open>
  A host with a directory of descriptions whose names are \<open>a\<close>, \<open>aa\<close>, \<open>aaa\<close> and so on; \<open>texts k\<close> is the
  text of the description with \<open>k\<close> more letters than one.
\<close>

definition as :: "nat \<Rightarrow> string" where "as k = replicate (Suc k) (CHR ''a'')"

lemma set_as: "set (as k) = {CHR ''a''}" unfolding as_def by (rule set_replicate) simp

lemma as_inj: "as k = as j \<longleftrightarrow> k = j" using arg_cong [of "as k" "as j" length] by (auto simp: as_def)

definition sample_files :: "(nat \<Rightarrow> string option) \<Rightarrow> string \<Rightarrow> open_answer" where
  "sample_files texts p =
    (let k = length p - 4 in
     if p = ''/d/'' @ as k then (case texts k of Some t \<Rightarrow> Opened t False | None \<Rightarrow> NotExist) else NotExist)"

definition sample_load_env :: "(nat \<Rightarrow> string option) \<Rightarrow> load_env" where
  "sample_load_env texts =
    \<lparr>e_sys = plain_sys,
     e_host = \<lparr>sh_open = sample_files texts, sh_stat = (\<lambda>_. None), sh_depend = (\<lambda>_. ([], True)), sh_paths = default_openrc\<rparr>,
     e_loader = NewDirLoader [''/d''], e_dbus = None, e_readdir = (\<lambda>_. DirNotExist), e_exists = (\<lambda>_. False),
     e_mux_ok = (\<lambda>_. True)\<rparr>"

lemma as_valid: "k < 100 \<Longrightarrow> valid_service_name (as k)"
  by (simp add: valid_service_name_def ValidateServiceName_def name_byte_ok_def MaxServiceNameLen_def as_def list_all_iff)

lemma as_path: "path_Join ''/d'' (as k) = ''/d/'' @ as k" "path_Join defaultOverlayDir (as k) = ''/etc/slinit.conf.d/'' @ as k"
proof -
  have "Split (as k) (CHR ''/'') = [as k]" by (simp add: Split_single set_as)
  moreover have "as k \<noteq> []" "as k \<noteq> ''.''" "as k \<noteq> ''..''" by (simp_all add: as_def)
  ultimately show "path_Join ''/d'' (as k) = ''/d/'' @ as k" "path_Join defaultOverlayDir (as k) = ''/etc/slinit.conf.d/'' @ as k"
    by (simp_all add: path_Join_def Clean_def IsAbs_def defaultOverlayDir_def)
qed

lemma files_as:
  "sample_files texts (''/d/'' @ as k) = (case texts k of Some t \<Rightarrow> Opened t False | None \<Rightarrow> NotExist)"
  "sample_files texts (''/etc/slinit.conf.d/'' @ as k) = NotExist"
  "sample_files texts ((''/d/'' @ as k) @ ''.override'') = NotExist"
proof -
  have l: "length (as j) = Suc j" for j by (simp add: as_def)
  then show "sample_files texts (''/d/'' @ as k) = (case texts k of Some t \<Rightarrow> Opened t False | None \<Rightarrow> NotExist)"
    "sample_files texts (''/etc/slinit.conf.d/'' @ as k) = NotExist"
    by (simp_all add: sample_files_def)
  have "(''/d/'' @ as k) @ ''.override'' \<noteq> ''/d/'' @ as j" for j
  proof
    assume "(''/d/'' @ as k) @ ''.override'' = ''/d/'' @ as j"
    then have "set (as k @ ''.override'') = set (as j)" by simp
    then show False unfolding set_append set_as by simp
  qed
  then show "sample_files texts ((''/d/'' @ as k) @ ''.override'') = NotExist"
    unfolding sample_files_def Let_def by simp
qed

lemma sample_found:
  assumes "texts k = Some t"
    and "parse_file plain_sys (sample_files texts) None (''/d/'' @ as k) (t, False) (NewServiceDescription (as k)) = Inr d"
  shows "findAndParse (e_sys (sample_load_env texts)) (e_host (sample_load_env texts)) (e_loader (sample_load_env texts)) (as k)
    = Inr (d, ''/d/'' @ as k)"
proof -
  have "findAndParse plain_sys (e_host (sample_load_env texts)) (NewDirLoader [''/d'']) (as k) = Inr (d, path_Join ''/d'' (as k))"
    by (rule findAndParse_plain [where content = t and rerr = False])
      (use assms files_as in \<open>simp_all add: set_as as_path sample_load_env_def\<close>)
  then show ?thesis by (simp add: sample_load_env_def as_path)
qed

lemma sample_description:
  assumes "texts k = Some t"
    and "parse_file plain_sys (sample_files texts) None (''/d/'' @ as k) (t, False) (NewServiceDescription (as k)) = Inr d"
    and "check_description None_platform d = Inr d"
  shows "read_description (e_sys (sample_load_env texts)) (e_host (sample_load_env texts)) (e_loader (sample_load_env texts)) (as k)
    = Inr (d, ''/d/'' @ as k)"
proof -
  have "platformSys (e_loader (sample_load_env texts)) = None_platform" by (simp add: sample_load_env_def NewDirLoader_def)
  then show ?thesis using sample_found [OF assms(1,2)] assms(3) by (simp add: read_description_def)
qed

text \<open>A description that names one dependency.\<close>

definition depends_desc :: "string \<Rightarrow> string list \<Rightarrow> ServiceDescription" where
  "depends_desc name ns = d_dependencies_update (DependsOn_update (\<lambda>_. ns)) (NewServiceDescription name)"

lemma needs_depends: "needs (depends_desc name ns) ns"
  by (simp add: needs_def depends_desc_def NewServiceDescription_def new_identity_def)

lemma check_depends: "check_description None_platform (depends_desc name ns) = Inr (depends_desc name ns)"
proof -
  have "early_fault None_platform (depends_desc name ns) = None"
    by (simp add: early_fault_def depends_desc_def NewServiceDescription_def new_defs)
  moreover have "desugar_bundle (depends_desc name ns) = depends_desc name ns"
    by (simp add: desugar_bundle_def depends_desc_def NewServiceDescription_def new_defs)
  moreover have "late_fault (depends_desc name ns) = None"
    by (simp add: late_fault_def sched_fault_def numa_fault_def has_ready_def depends_desc_def NewServiceDescription_def new_defs)
  ultimately show ?thesis by (simp add: check_description_def)
qed

lemma lookup_depends:
  "map_of (setting_cases y v op arg) ''depends-on'' =
    Some (guarded (valid_service_name (expandEnvVars (sys_env y) v arg))
      (d_dependencies_update (DependsOn_update (appended [expandEnvVars (sys_env y) v arg]))))"
  unfolding cases_defs by (simp only: table_eval)

lemma known_depends: "map_of KnownSettings ''depends-on'' = Some OpColon"
  unfolding known_defs by (simp only: table_eval)

lemma depends_line:
  "setting_line (''depends-on: '' @ as k)"
  "parseLine (''depends-on: '' @ as k) = Some (''depends-on'', as k, OpColon)"
  "k < 100 \<Longrightarrow> scan (''depends-on: '' @ as k) False = ([''depends-on: '' @ as k], False)"
proof -
  show "setting_line (''depends-on: '' @ as k)"
    by (simp add: setting_line_def line_text_def bare_keyword_def)
  have "TrimSpace (as k) = as k" by (rule TrimSpace_plain) (simp add: set_as is_space_def)
  then have "TrimSpace (CHR '' '' # as k) = as k" by (simp add: TrimSpace_def is_space_def)
  moreover have "TrimSpace ''depends-on'' = ''depends-on''" by (simp add: TrimSpace_def is_space_def)
  ultimately show "parseLine (''depends-on: '' @ as k) = Some (''depends-on'', as k, OpColon)"
    using parseLine_colon [of "''depends-on''" "CHR '' '' # as k"] by (simp add: set_as)
  show "k < 100 \<Longrightarrow> scan (''depends-on: '' @ as k) False = ([''depends-on: '' @ as k], False)"
    by (rule scan_single) (simp_all add: set_as MaxScanTokenSize_def, simp_all add: as_def)
qed

lemma parse_depends:
  assumes "k < 100"
  shows "parse_file plain_sys fs None f (''depends-on: '' @ as k, False) (NewServiceDescription name)
    = Inr (depends_desc name [as k])"
proof -
  have "expandEnvVars (sys_env plain_sys) (as k) None = as k"
    by (simp add: expandEnvVars_def expandEnvVarsImpl_loop expand_loop_plain set_as)
  then show ?thesis
    using parse_single [OF depends_line(1,2) known_depends _ depends_line(3) [OF assms], of plain_sys fs None f] as_valid [OF assms]
    by (simp add: applySetting_def lookup_depends guarded_def depends_desc_def appended_def op_defs)
      (simp add: NewServiceDescription_def new_dependencies_def appended_def)
qed

definition chain :: "nat \<Rightarrow> string option" where
  "chain k = Some (''depends-on: '' @ as (Suc k))"

lemma chain_description:
  "k < 99 \<Longrightarrow> read_description (e_sys (sample_load_env chain)) (e_host (sample_load_env chain)) (e_loader (sample_load_env chain)) (as k)
    = Inr (depends_desc (as k) [as (Suc k)], ''/d/'' @ as k)"
  by (rule sample_description [where t = "''depends-on: '' @ as (Suc k)"])
    (simp_all only: chain_def check_depends, rule parse_depends, simp)

theorem endless_dependencies_refused_witness:
  "\<exists>e st'. DirLoader_LoadService (sample_load_env chain) (as 0) start_state = (Inl e, st') \<and> depth_exceeded e \<and> as 0 \<notin> known st'"
proof (rule endless_dependencies_refused)
  show "\<forall>k\<le>config_MaxDepDepth. valid_service_name (as k)" using as_valid by (simp add: config_MaxDepDepth_def)
  show "\<forall>k<config_MaxDepDepth. \<exists>d p. read_description (e_sys (sample_load_env chain)) (e_host (sample_load_env chain))
      (e_loader (sample_load_env chain)) (as k) = Inr (d, p) \<and> needs d [as (Suc k)]"
    using chain_description needs_depends by (fastforce simp: config_MaxDepDepth_def)
qed (simp_all add: start_state_inv inj_on_def as_inj)

text \<open>A directory with one description, which is empty.\<close>

definition single :: "nat \<Rightarrow> string option" where
  "single k = (if k = 0 then Some [] else None)"

lemma single_description:
  "read_description (e_sys (sample_load_env single)) (e_host (sample_load_env single)) (e_loader (sample_load_env single)) (as 0)
    = Inr (NewServiceDescription (as 0), ''/d/'' @ as 0)"
  by (rule sample_description [where t = "[]"]) (simp_all add: single_def parse_empty check_new_description)

lemma load_single: "\<exists>st'. DirLoader_LoadService (sample_load_env single) (as 0) start_state = (Inr 0, st')"
proof -
  have "needs (NewServiceDescription (as 0)) []"
    by (simp add: needs_def NewServiceDescription_def new_identity_def new_dependencies_def)
  then show ?thesis
    using load_needs [OF as_valid _ _ single_description, of start_state "[]" 31] start_state_inv
    by (simp add: DirLoader_LoadService_def find_or_load_def config_MaxDepDepth_def Let_def start_state_def)
qed

theorem loading_keeps_invariant_witness:
  "load_inv (snd (DirLoader_LoadService (sample_load_env single) (as 0) start_state))"
  using loading_keeps_invariant [OF start_state_inv(1,2), of "sample_load_env single" "as 0"] by (metis prod.collapse)

text \<open>A directory with two descriptions, the first of which depends on the second.\<close>

definition pair :: "nat \<Rightarrow> string option" where
  "pair k = (if k = 0 then Some (''depends-on: '' @ as 1) else if k = 1 then Some [] else None)"

lemma pair_description:
  "read_description (e_sys (sample_load_env pair)) (e_host (sample_load_env pair)) (e_loader (sample_load_env pair)) (as 0)
    = Inr (depends_desc (as 0) [as 1], ''/d/'' @ as 0)"
  "read_description (e_sys (sample_load_env pair)) (e_host (sample_load_env pair)) (e_loader (sample_load_env pair)) (as 1)
    = Inr (NewServiceDescription (as 1), ''/d/'' @ as 1)"
proof -
  have p: "pair 0 = Some (''depends-on: '' @ as 1)" "pair 1 = Some []" by (simp_all add: pair_def)
  show "read_description (e_sys (sample_load_env pair)) (e_host (sample_load_env pair)) (e_loader (sample_load_env pair)) (as 0)
      = Inr (depends_desc (as 0) [as 1], ''/d/'' @ as 0)"
    by (rule sample_description [where texts = pair and k = 0 and t = "''depends-on: '' @ as 1"])
      (simp_all only: p check_depends, rule parse_depends, simp)
  show "read_description (e_sys (sample_load_env pair)) (e_host (sample_load_env pair)) (e_loader (sample_load_env pair)) (as 1)
      = Inr (NewServiceDescription (as 1), ''/d/'' @ as 1)"
    by (rule sample_description [where texts = pair and k = 1 and t = "[]"])
      (simp_all only: p parse_empty check_new_description)
qed

lemma load_pair: "\<exists>st'. DirLoader_LoadService (sample_load_env pair) (as 0) start_state = (Inr 0, st')"
proof -
  let ?env = "sample_load_env pair"
  let ?st = "registered ?env (as 0) (depends_desc (as 0) [as 1]) (''/d/'' @ as 0) start_state"
  have n: "needs (NewServiceDescription (as 1)) []"
    by (simp add: needs_def NewServiceDescription_def new_identity_def new_dependencies_def)
  have "\<exists>t st'. loadServiceImpl 31 ?env (as 1) ?st = (Inr t, st')"
    using load_needs [OF as_valid _ n pair_description(2), of ?st 30] start_state_inv(2)
    by (simp add: registered_view as_inj Let_def numeral_eq_Suc del: loadServiceImpl.simps)
  moreover have "FindService (as 1) (set_of ?st) = None"
    using start_state_inv(3) by (simp add: FindService_registered as_inj)
  ultimately show ?thesis
    using load_needs [OF as_valid _ needs_depends pair_description(1), of start_state 31] start_state_inv(2,3)
    by (auto simp: DirLoader_LoadService_def find_or_load_def config_MaxDepDepth_def Let_def start_state_def
        simp del: loadServiceImpl.simps)
qed

lemma load_second:
  "\<exists>st'. DirLoader_LoadService (sample_load_env pair) (as 1) start_state = (Inr 0, st') \<and> load_inv st' \<and> loading st' = [] \<and> 0 < nextSvc st'"
proof -
  have "needs (NewServiceDescription (as 1)) []"
    by (simp add: needs_def NewServiceDescription_def new_identity_def new_dependencies_def)
  then obtain st' where l: "loadServiceImpl config_MaxDepDepth (sample_load_env pair) (as 1) start_state = (Inr 0, st')"
    using load_needs [OF as_valid _ _ pair_description(2), of start_state "[]" 31] start_state_inv
    by (simp add: config_MaxDepDepth_def Let_def start_state_def)
  have r: "ready start_state" "as 1 \<notin> known start_state"
    using start_state_inv FindService_unknown by (simp_all add: ready_def)
  show ?thesis
    using l loads_oneD(1,2) [OF loadServiceImpl_loads r l] start_state_inv(2,3)
    by (auto simp: DirLoader_LoadService_def find_or_load_def under_def ready_def)
qed

text \<open>The second service is loaded first and not disturbed when the first one, which depends on it, is loaded.\<close>

theorem loading_disturbs_nothing_witness:
  "\<exists>st1 r st2. DirLoader_LoadService (sample_load_env pair) (as 1) start_state = (Inr 0, st1) \<and>
    DirLoader_LoadService (sample_load_env pair) (as 0) st1 = (r, st2) \<and> same_service st1 st2 0"
proof -
  obtain st1 where 1: "DirLoader_LoadService (sample_load_env pair) (as 1) start_state = (Inr 0, st1)"
    "load_inv st1" "loading st1 = []" "0 < nextSvc st1" using load_second by blast
  obtain r st2 where 2: "DirLoader_LoadService (sample_load_env pair) (as 0) st1 = (r, st2)" by fastforce
  from loading_disturbs_nothing [OF 1(2,3) 2] 1 2 show ?thesis by blast
qed


theorem failed_loads_witness:
  "\<exists>e st'. DirLoader_LoadService (sample_load_env chain) (as 0) start_state = (Inl e, st') \<and> as 0 \<notin> known st'"
proof -
  have "\<exists>e. fst (loadServiceImpl config_MaxDepDepth (sample_load_env chain) (as 0) start_state) = Inl e \<and> depth_exceeded e"
    by (rule chain_refused [where N = config_MaxDepDepth])
      (use start_state_inv chain_description needs_depends as_valid in
        \<open>fastforce simp: inj_on_def as_inj config_MaxDepDepth_def\<close>)+
  then obtain e st' where "DirLoader_LoadService (sample_load_env chain) (as 0) start_state = (Inl e, st')"
    by (metis DirLoader_LoadService_def find_or_load_def option.simps(4) prod.collapse start_state_inv(3))
  then show ?thesis using failed_loads [OF start_state_inv(1,2)] by blast
qed

end
