(* ===== verification/Reload.thy ===== *)
theory Reload
  imports LoaderGuarantees Depth
begin

text \<open>
  Reloading a service (\<open>ReloadService\<close> and what it calls in \<open>pkg/config/loader.go\<close>): the search for cycles in
  the new description, the restrictions for running services, the replacement of dependencies with its two
  rollbacks, and the replacement of a stopped service by one of another type. A reload is no part of a
  load, so that it loads new dependencies from depth zero. The recalculation of depths is the one of \<open>Depth\<close>;
  \<open>None\<close> is a run of it that does not end. The pipes of a log consumer are not part of the state.
\<close>

section \<open>Errors\<close>

datatype ReloadError =
    NotParsed ServiceLoadError
  | BadState ServiceState
  | TypeFixed
  | ConsoleFixed
  | LogTypeFixed
  | NotStarted string
  | CyclicReload
  | DependenciesFailed ServiceLoadError
  | DepthOverflow
  | SetupFailed ServiceLoadError
  | NoSuchType

type_synonym reload_out = "((ReloadError, svc) result \<times> load_state) option"

section \<open>Checks\<close>

definition impl_type :: "service_impl \<Rightarrow> ServiceType" where
  "impl_type i =
    (case i of Internal \<Rightarrow> TypeInternal | Triggered \<Rightarrow> TypeTriggered | Scripted \<Rightarrow> TypeScripted | Process \<Rightarrow> TypeProcess)"

text \<open>The search goes over names: of a service that is loaded to the names of its dependencies.\<close>

definition name_nexts :: "world \<Rightarrow> string \<Rightarrow> string list" where
  "name_nexts w n =
    (case FindService n w of
       None \<Rightarrow> []
     | Some s \<Rightarrow> map (\<lambda>d. serviceName (cfgs w (To (deps w d)))) (dependsOn (recs w s)))"

partial_function (option) cycle_loop ::
  "(string \<Rightarrow> string list) \<Rightarrow> string \<Rightarrow> string list \<Rightarrow> string list \<Rightarrow> bool option" where
  "cycle_loop nx name visited queue =
    (if queue = [] then Some False
     else let depName = hd queue; q = tl queue in
       if depName = name then Some True
       else if depName \<in> set visited then cycle_loop nx name visited q
       else cycle_loop nx name (depName # visited) (q @ nx depName))"

declare cycle_loop.simps [code]

definition cycle_names :: "desc_dependencies \<Rightarrow> string list" where
  "cycle_names g = DependsOn g @ DependsMS g @ WaitsFor g @ PreparedBy g @ After g"

definition checkCycle :: "svc \<Rightarrow> ServiceDescription \<Rightarrow> world \<Rightarrow> bool option" where
  "checkCycle s d w = cycle_loop (name_nexts w) (serviceName (cfgs w s)) [] (cycle_names (d_dependencies d))"

definition validateLogTypeUnchanged :: "svc \<Rightarrow> ServiceDescription \<Rightarrow> load_state \<Rightarrow> bool" where
  "validateLogTypeUnchanged s d st \<longleftrightarrow> (impl_of st s \<in> {Process, Scripted} \<longrightarrow> logType_of st s = LogType (d_logging d))"

definition hard_names :: "svc \<Rightarrow> world \<Rightarrow> string list" where
  "hard_names s w = map (\<lambda>d. serviceName (cfgs w (To (deps w d))))
     (filter (\<lambda>d. DepType (deps w d) \<in> {DepRegular, DepPreparedBy}) (dependsOn (recs w s)))"

definition dep_started :: "string \<Rightarrow> world \<Rightarrow> bool" where
  "dep_started n w = (case FindService n w of Some t \<Rightarrow> state (recs w t) = StateStarted | None \<Rightarrow> False)"

text \<open>\<open>validateNewRegularDeps\<close>: the first new hard dependency that is not started.\<close>

definition validateNewRegularDeps :: "svc \<Rightarrow> ServiceDescription \<Rightarrow> world \<Rightarrow> string option" where
  "validateNewRegularDeps s d w =
    find (\<lambda>n. n \<notin> set (hard_names s w) \<and> \<not> dep_started n w) (DependsOn (d_dependencies d) @ PreparedBy (d_dependencies d))"

section \<open>Dependencies\<close>

definition current_keys :: "svc \<Rightarrow> world \<Rightarrow> (string \<times> DependencyType) list" where
  "current_keys s w = remdups (map (\<lambda>d. (serviceName (cfgs w (To (deps w d))), DepType (deps w d)))
     (filter (\<lambda>d. DepType (deps w d) \<noteq> DepBefore) (dependsOn (recs w s))))"

definition wanted_keys :: "desc_dependencies \<Rightarrow> (string \<times> DependencyType) list" where
  "wanted_keys g = remdups (concat (map (\<lambda>(ns, ty). map (\<lambda>n. (n, ty)) ns)
     [(DependsOn g, DepRegular), (DependsMS g, DepMilestone), (WaitsFor g, DepWaitsFor), (PreparedBy g, DepPreparedBy),
      (After g, DepAfter), (AfterOptional g, DepAfter)]))"

definition descDepsMatchCurrent :: "svc \<Rightarrow> ServiceDescription \<Rightarrow> world \<Rightarrow> bool" where
  "descDepsMatchCurrent s d w \<longleftrightarrow>
    (let g = d_dependencies d in
     length (DependsOnD g) + length (DependsMSD g) + length (WaitsForD g) + length (PreparedByD g) = 0 \<and>
     length (current_keys s w) = length (wanted_keys g) \<and> list_all (\<lambda>k. k \<in> set (wanted_keys g)) (current_keys s w))"

text \<open>
  The loop that takes the dependencies out goes over the indices from the last to the first; every round
  removes at most one, so that the index is always in range.
\<close>

definition rm_at :: "svc \<Rightarrow> nat \<Rightarrow> load_state \<Rightarrow> load_state" where
  "rm_at s i st =
    (let w = set_of st; ds = dependsOn (recs w s) in
     if i < length ds \<and> DepType (deps w (ds ! i)) \<noteq> DepBefore
     then upd_set (\<lambda>w. snd (RmDep s (To (deps w (ds ! i))) (DepType (deps w (ds ! i))) w)) st else st)"

definition remove_deps :: "svc \<Rightarrow> load_state \<Rightarrow> load_state" where
  "remove_deps s st = fold (rm_at s) (rev [0..<length (dependsOn (recs (set_of st) s))]) st"

definition restore_deps :: "svc \<Rightarrow> depid list \<Rightarrow> load_state \<Rightarrow> load_state" where
  "restore_deps s ds st =
    fold (\<lambda>d st. let x = deps (set_of st) d in if DepType x \<noteq> DepBefore then add_dep s (To x) (DepType x) st else st) ds st"

definition updateDependencies ::
  "load_env \<Rightarrow> svc \<Rightarrow> ServiceDescription \<Rightarrow> string \<Rightarrow> load_state \<Rightarrow> (ReloadError option \<times> load_state) option" where
  "updateDependencies env s d filePath st =
    (if descDepsMatchCurrent s d (set_of st) then Some (None, st)
     else let oldDeps = dependsOn (recs (set_of st) s) in
       case loadDependencies env (DirLoader_LoadService env) s d filePath (remove_deps s st) of
         (Some e, st2) \<Rightarrow> Some (Some (DependenciesFailed e), restore_deps s oldDeps st2)
       | (None, st2) \<Rightarrow>
          (case ProcessUpdates (set_of st2) (depDepth st2) (AddPotentialUpdate s (depDepth st2) new_updater) of
             None \<Rightarrow> None
           | Some (ok, dp, u) \<Rightarrow>
              if ok then Some (None, st2\<lparr>depDepth := dp\<rparr>)
              else Some (Some DepthOverflow, (restore_deps s oldDeps (remove_deps s st2))\<lparr>depDepth := fst (Rollback dp u)\<rparr>)))"

section \<open>In place\<close>

definition apply_settings :: "svc \<Rightarrow> ServiceDescription \<Rightarrow> load_state \<Rightarrow> load_state" where
  "apply_settings s d st =
    (upd_set (\<lambda>w. w\<lparr>cfgs := (cfgs w)(s := apply_record d (cfgs w s)), pcfgs := (pcfgs w)(s := apply_signals d (pcfgs w s))\<rparr>) st)
      \<lparr>attrs := (attrs st)(s := applyToService d (attrs st s))\<rparr>"

definition apply_type_settings :: "load_env \<Rightarrow> svc \<Rightarrow> ServiceDescription \<Rightarrow> load_state \<Rightarrow> load_state" where
  "apply_type_settings env s d st =
    (let i = impl_of st s; t = LogType (d_logging d) in
     (upd_set (\<lambda>w. w\<lparr>pcfgs := (pcfgs w)(s := updateTypeSpecificFields (e_dbus env) d i (pcfgs w s))\<rparr>) st)
       \<lparr>logType_of := (if i \<in> {Process, Scripted} \<and> t \<in> {LogToBuffer, LogToPipe, LogToFile, LogToCommand}
          then (logType_of st)(s := t) else logType_of st)\<rparr>)"

definition update_links :: "load_env \<Rightarrow> svc \<Rightarrow> ServiceDescription \<Rightarrow> load_step" where
  "update_links env s d = load_all
     [\<lambda>st. if consumer_for st s = None then setupConsumerOf (DirLoader_LoadService env) s d st else (None, st),
      \<lambda>st. if sharedLoggerName st s = [] then setupSharedLogger env (DirLoader_LoadService env) s d st else (None, st)]"

definition updateInPlace :: "load_env \<Rightarrow> svc \<Rightarrow> ServiceDescription \<Rightarrow> string \<Rightarrow> load_state \<Rightarrow> reload_out" where
  "updateInPlace env s d filePath st =
    (case checkCycle s d (set_of st) of
       None \<Rightarrow> None
     | Some True \<Rightarrow> Some (Inl CyclicReload, st)
     | Some False \<Rightarrow>
        (case updateDependencies env s d filePath st of
           None \<Rightarrow> None
         | Some (Some e, st1) \<Rightarrow> Some (Inl e, st1)
         | Some (None, st1) \<Rightarrow>
            (case update_links env s d (apply_settings s d (apply_type_settings env s d st1)) of
               (Some e, st2) \<Rightarrow> Some (Inl (SetupFailed e), st2)
             | (None, st2) \<Rightarrow> Some (Inr s, st2))))"

section \<open>Replacing a stopped service\<close>

definition transferConsumerOf :: "svc \<Rightarrow> svc \<Rightarrow> load_state \<Rightarrow> load_state" where
  "transferConsumerOf old new st =
    (let st1 = (case log_consumer st old of
         None \<Rightarrow> st
       | Some c \<Rightarrow> st\<lparr>log_consumer := (log_consumer st)(old := None, new := Some c), consumer_for := (consumer_for st)(c := Some new)\<rparr>) in
     case consumer_for st1 old of
       None \<Rightarrow> st1
     | Some p \<Rightarrow> st1\<lparr>consumer_for := (consumer_for st1)(old := None, new := Some p), log_consumer := (log_consumer st1)(p := Some new)\<rparr>)"

definition transferDependents :: "svc \<Rightarrow> svc \<Rightarrow> world \<Rightarrow> world" where
  "transferDependents old new w =
    (let ds = dependents (recs w old) in
     run [\<lambda>w. w\<lparr>deps := (\<lambda>d. if d \<in> set ds then (deps w d)\<lparr>To := new\<rparr> else deps w d)\<rparr>,
          modr new (\<lambda>r. r\<lparr>dependents := ds\<rparr>), modr old (\<lambda>r. r\<lparr>dependents := []\<rparr>)] w)"

text \<open>Every round of the loop removes the first dependency.\<close>

definition rm_first :: "svc \<Rightarrow> world \<Rightarrow> world" where
  "rm_first s w =
    (case dependsOn (recs w s) of [] \<Rightarrow> w | d # _ \<Rightarrow> snd (RmDep s (To (deps w d)) (DepType (deps w d)) w))"

definition removeDependencies :: "svc \<Rightarrow> world \<Rightarrow> world" where
  "removeDependencies s w = fold (\<lambda>_. rm_first s) (dependsOn (recs w s)) w"

definition ReplaceService :: "svc \<Rightarrow> svc \<Rightarrow> load_state \<Rightarrow> load_state" where
  "ReplaceService old new st =
    upd_set (\<lambda>w.
      let a0 = rec_provides (attrs st old); a1 = rec_provides (attrs st new);
          al = (if a0 \<noteq> [] then map_delete a0 (aliases w) else aliases w) in
      w\<lparr>records := map_put (serviceName (cfgs w old)) new (records w), aliases := (if a1 \<noteq> [] then map_put a1 new al else al)\<rparr>) st"

definition reloadStopped :: "load_env \<Rightarrow> svc \<Rightarrow> ServiceDescription \<Rightarrow> string \<Rightarrow> load_state \<Rightarrow> reload_out" where
  "reloadStopped env s d filePath st =
    (if Type d \<noteq> impl_type (impl_of st s) then
       let name = serviceName (cfgs (set_of st) s); new = nextSvc st in
       case create_impl (Type d) of
         None \<Rightarrow> Some (Inl NoSuchType, st)
       | Some i \<Rightarrow>
          let st1 = (create_record env name d filePath i st)\<lparr>serviceDir := (serviceDir st)(new := []), loading := name # loading st\<rparr>;
              unload = (\<lambda>st'. st'\<lparr>loading := removeAll name (loading st')\<rparr>) in
          (case loadDependencies env (DirLoader_LoadService env) new d filePath st1 of
             (Some e, st2) \<Rightarrow> Some (Inl (DependenciesFailed e), unload st2)
           | (None, st2) \<Rightarrow>
              let st3 = transferConsumerOf s new (apply_settings new d st2);
                  st4 = upd_set (removeDependencies s) (upd_set (transferDependents s new) st3) in
              (case setupConsumerOf (DirLoader_LoadService env) new d st4 of
                 (Some e, st5) \<Rightarrow> Some (Inl (SetupFailed e), unload st5)
               | (None, st5) \<Rightarrow> Some (Inr new, unload (ReplaceService s new st5))))
     else updateInPlace env s d filePath st)"

section \<open>Reloading\<close>

definition console_changed :: "ServiceFlags \<Rightarrow> ServiceFlags \<Rightarrow> bool" where
  "console_changed f g \<longleftrightarrow> StartsOnConsole f \<noteq> StartsOnConsole g \<or> SharesConsole f \<noteq> SharesConsole g"

definition reloadStarted :: "load_env \<Rightarrow> svc \<Rightarrow> ServiceDescription \<Rightarrow> string \<Rightarrow> load_state \<Rightarrow> reload_out" where
  "reloadStarted env s d filePath st =
    (if Type d \<noteq> impl_type (impl_of st s) then Some (Inl TypeFixed, st)
     else if console_changed (svcFlags (cfgs (set_of st) s)) (desc_behavior.Flags (d_behavior d)) then Some (Inl ConsoleFixed, st)
     else if \<not> validateLogTypeUnchanged s d st then Some (Inl LogTypeFixed, st)
     else case validateNewRegularDeps s d (set_of st) of
       Some n \<Rightarrow> Some (Inl (NotStarted n), st)
     | None \<Rightarrow> updateInPlace env s d filePath st)"

definition DirLoader_ReloadService :: "load_env \<Rightarrow> svc \<Rightarrow> load_state \<Rightarrow> reload_out" where
  "DirLoader_ReloadService env s st =
    (case findAndParse (e_sys env) (e_host env) (e_loader env) (serviceName (cfgs (set_of st) s)) of
       Inl e \<Rightarrow> Some (Inl (NotParsed e), st)
     | Inr (d, filePath) \<Rightarrow>
        if state (recs (set_of st) s) = StateStopped then reloadStopped env s d filePath st
        else if state (recs (set_of st) s) = StateStarted then reloadStarted env s d filePath st
        else Some (Inl (BadState (state (recs (set_of st) s))), st))"

section \<open>The search for cycles\<close>

lemma cycle_loop_correct:
  assumes "finite R" "set queue \<subseteq> R" "set visited \<subseteq> R" "\<forall>n\<in>R. set (nx n) \<subseteq> R"
    and "name \<notin> set visited" "\<forall>v\<in>set visited. set (nx v) \<subseteq> set visited \<union> set queue"
  shows "cycle_loop nx name visited queue = Some (name \<in> (edges nx)\<^sup>* `` (set visited \<union> set queue))"
  using assms
proof (induction "(visited, queue)" arbitrary: visited queue
    rule: wf_induct_rule [OF wf_measures [of "[\<lambda>p. card (R - set (fst p)), \<lambda>p. length (snd p)]"]])
  case (1 visited queue)
  note loop = cycle_loop.simps [of nx name visited queue]
  show ?case
  proof (cases queue)
    case Nil
    then have "(edges nx)\<^sup>* `` set visited = set visited" using reach_closed "1.prems"(6) by auto
    with "1.prems"(5) Nil show ?thesis by (subst loop) simp
  next
    case (Cons n q)
    consider "n = name" | "n \<noteq> name" "n \<in> set visited" | "n \<noteq> name" "n \<notin> set visited" by blast
    then show ?thesis
    proof cases
      case 1
      then show ?thesis using Cons by (subst loop) auto
    next
      case 2
      have "\<forall>v\<in>set visited. set (nx v) \<subseteq> set visited \<union> set q" using "1.prems"(6) Cons 2(2) by auto
      from "1.hyps" [OF _ "1.prems"(1) _ "1.prems"(3-5) this] "1.prems"(2) Cons 2 show ?thesis
        by (subst loop) (simp add: insert_absorb)
    next
      case 3
      have "card (R - set (n # visited)) < card (R - set visited)"
        using "1.prems"(1,2) Cons 3(2) by (intro psubset_card_mono) auto
      moreover have cl: "\<forall>v\<in>set (n # visited). set (nx v) \<subseteq> set (n # visited) \<union> set (q @ nx n)"
        using "1.prems"(6) Cons by auto
      moreover have "set (q @ nx n) \<subseteq> R" using "1.prems"(2,4) Cons by auto
      ultimately have "cycle_loop nx name (n # visited) (q @ nx n) =
          Some (name \<in> (edges nx)\<^sup>* `` (set (n # visited) \<union> set (q @ nx n)))"
        using "1.hyps" [OF _ "1.prems"(1) _ _ "1.prems"(4) _ cl] "1.prems"(2,3,5) Cons 3 by simp
      moreover have "(edges nx)\<^sup>* `` (set (n # visited) \<union> set (q @ nx n)) = (edges nx)\<^sup>* `` (set visited \<union> set queue)"
        using reach_expand [of "set (nx n)" nx n "set visited" "set q"] Cons by (auto simp: Un_ac)
      ultimately show ?thesis using Cons 3 by (subst loop) simp
    qed
  qed
qed

lemma name_nexts_finite: "finite (\<Union>n. set (name_nexts w n))"
proof -
  define S where "S = snd ` set (records w) \<union> snd ` set (aliases w)"
  define names where "names s = set (map (\<lambda>d. serviceName (cfgs w (To (deps w d)))) (dependsOn (recs w s)))" for s
  have found: "s \<in> S" if "FindService n w = Some s" for n s
  proof (cases "map_of (records w) n")
    case None
    then have "(n, s) \<in> set (aliases w)" using that by (simp add: FindService_def map_of_SomeD)
    then show ?thesis by (force simp: S_def)
  next
    case (Some t)
    then have "(n, s) \<in> set (records w)" using that by (simp add: FindService_def map_of_SomeD)
    then show ?thesis by (force simp: S_def)
  qed
  have "set (name_nexts w n) \<subseteq> (\<Union>s\<in>S. names s)" for n
    using found [of n] by (cases "FindService n w") (auto simp: name_nexts_def names_def)
  then have "(\<Union>n. set (name_nexts w n)) \<subseteq> (\<Union>s\<in>S. names s)" by blast
  moreover have "finite (\<Union>s\<in>S. names s)" by (simp add: S_def names_def)
  ultimately show ?thesis by (rule finite_subset)
qed

lemma checkCycle_exact:
  "checkCycle s d w =
    Some (serviceName (cfgs w s) \<in> (edges (name_nexts w))\<^sup>* `` set (cycle_names (d_dependencies d)))"
proof -
  let ?R = "set (cycle_names (d_dependencies d)) \<union> (\<Union>n. set (name_nexts w n))"
  have "finite ?R" using name_nexts_finite by simp
  from cycle_loop_correct [OF this, where queue = "cycle_names (d_dependencies d)" and visited = "[]" and nx = "name_nexts w"]
  show ?thesis by (simp add: checkCycle_def) blast
qed

text \<open>
  Property C20. The search for cycles that precedes every reload in place ends, whatever services are
  loaded, and it answers yes exactly when one of the names in the new description leads back to the
  service, over any number of loaded services.
\<close>

theorem checkCycle_correct:
  "checkCycle s d w =
    Some (serviceName (cfgs w s) \<in> (edges (name_nexts w))\<^sup>* `` set (cycle_names (d_dependencies d)))"
  by (rule checkCycle_exact)

section \<open>Refused reloads\<close>

lemma updateInPlace_refused:
  "updateInPlace env s d p st = Some (Inl e, st') \<Longrightarrow>
    st' = st \<or> e = DepthOverflow \<or> (\<exists>x. e = DependenciesFailed x) \<or> (\<exists>x. e = SetupFailed x)"
  by (auto simp: updateInPlace_def updateDependencies_def Let_def split: option.splits bool.splits prod.splits if_splits)

text \<open>
  Property C19. A reload that is refused at one of its checks changes nothing: not when the description can
  not be read, nor when the service is starting or stopping, nor for a change that a running service does
  not allow (of the type, of the console, of the log type, a new hard dependency that is not started), nor
  for a cycle. Only three errors may come after changes: a dependency that can not be loaded, a depth that
  is exceeded, and a consumer or shared logger that can not be set up.
\<close>

theorem refused_reload_changes_nothing:
  assumes "DirLoader_ReloadService env s st = Some (Inl e, st')"
  shows "st' = st \<or> e = DepthOverflow \<or> (\<exists>x. e = DependenciesFailed x) \<or> (\<exists>x. e = SetupFailed x)"
  using assms
  by (auto simp: DirLoader_ReloadService_def reloadStopped_def reloadStarted_def Let_def
      split: sum.splits prod.splits if_splits option.splits dest: updateInPlace_refused)

section \<open>Reloads that change no dependency\<close>

lemma keys_agree: "descDepsMatchCurrent s d w \<Longrightarrow> set (current_keys s w) = set (wanted_keys (d_dependencies d))"
proof -
  assume m: "descDepsMatchCurrent s d w"
  let ?c = "current_keys s w" and ?k = "wanted_keys (d_dependencies d)"
  have "distinct ?c" "distinct ?k" by (simp_all add: current_keys_def wanted_keys_def)
  with m have "card (set ?k) \<le> card (set ?c)" "set ?c \<subseteq> set ?k"
    by (auto simp: descDepsMatchCurrent_def distinct_card list_all_iff Let_def)
  then show "set ?c = set ?k" by (meson List.finite_set card_seteq)
qed

text \<open>
  Names are compared with the names of the services, so the shortcut needs every dependency to be declared
  under the name of its service, and not under an alias.
\<close>

lemma matched_names:
  assumes "descDepsMatchCurrent s d w" "n \<in> set (DependsOn (d_dependencies d)) \<union> set (PreparedBy (d_dependencies d))"
  shows "n \<in> set (hard_names s w)"
proof -
  have "(n, DepRegular) \<in> set (wanted_keys (d_dependencies d)) \<or> (n, DepPreparedBy) \<in> set (wanted_keys (d_dependencies d))"
    using assms(2) by (auto simp: wanted_keys_def)
  then obtain ty where ty: "(n, ty) \<in> set (current_keys s w)" "ty \<in> {DepRegular, DepPreparedBy}"
    using keys_agree [OF assms(1)] by auto
  then show ?thesis unfolding current_keys_def hard_names_def by force
qed

lemma matched_deps_valid: "descDepsMatchCurrent s d w \<Longrightarrow> validateNewRegularDeps s d w = None"
  using matched_names [of s d w] by (auto simp: validateNewRegularDeps_def find_None_iff)

definition settings_only :: "svc \<Rightarrow> load_state \<Rightarrow> load_state \<Rightarrow> bool" where
  "settings_only s st st' \<longleftrightarrow>
    (\<exists>c pc. set_of st' = (set_of st)\<lparr>cfgs := (cfgs (set_of st))(s := c), pcfgs := (pcfgs (set_of st))(s := pc)\<rparr>) \<and>
    (\<forall>x. x \<noteq> s \<longrightarrow> attrs st' x = attrs st x \<and> logType_of st' x = logType_of st x) \<and>
    depDepth st' = depDepth st \<and> loading st' = loading st \<and> nextSvc st' = nextSvc st \<and> nextDep st' = nextDep st \<and>
    log_consumer st' = log_consumer st \<and> consumer_for st' = consumer_for st \<and>
    sharedLoggerName st' = sharedLoggerName st \<and> muxes st' = muxes st \<and> notified st' = notified st"

lemma settings_applied: "settings_only s st (apply_settings s d (apply_type_settings env s d st))"
  unfolding settings_only_def
  by (intro conjI exI [of _ "apply_record d (cfgs (set_of st) s)"]
      exI [of _ "apply_signals d (updateTypeSpecificFields (e_dbus env) d (impl_of st s) (pcfgs (set_of st) s))"])
    (auto simp: apply_settings_def apply_type_settings_def upd_set_def impl_of_def Let_def)

definition in_place :: "load_env \<Rightarrow> svc \<Rightarrow> ServiceDescription \<Rightarrow> load_state \<Rightarrow> bool" where
  "in_place env s d st \<longleftrightarrow>
    Type d = impl_type (impl_of st s) \<and>
    (state (recs (set_of st) s) = StateStopped \<or>
     state (recs (set_of st) s) = StateStarted \<and> validateLogTypeUnchanged s d st \<and>
       \<not> console_changed (svcFlags (cfgs (set_of st) s)) (desc_behavior.Flags (d_behavior d))) \<and>
    serviceName (cfgs (set_of st) s) \<notin> (edges (name_nexts (set_of st)))\<^sup>* `` set (cycle_names (d_dependencies d)) \<and>
    (ConsumerOf (d_identity d) = [] \<or> consumer_for st s \<noteq> None) \<and>
    (SharedLogger (d_identity d) = [] \<or> sharedLoggerName st s \<noteq> [])"


section \<open>What reloading does not do\<close>

text \<open>
  The bundle is turned into an internal service only when it is loaded. When it is reloaded the type is
  still the default, so that a running bundle can not be reloaded.
\<close>

lemma bundle_cannot_be_reloaded:
  assumes "findAndParse (e_sys env) (e_host env) (e_loader env) (serviceName (cfgs (set_of st) s)) = Inr (d, p)"
    and "BundleMembers (d_dependencies d) \<noteq> []" "Type d \<noteq> TypeInternal" "check_description q d = Inr d'"
    and "impl_of st s = Internal" "state (recs (set_of st) s) = StateStarted"
  shows "create_impl (Type d') = Some Internal \<and> DirLoader_ReloadService env s st = Some (Inl TypeFixed, st)"
  using assms
  by (auto simp: DirLoader_ReloadService_def reloadStarted_def impl_type_def check_description_def desugar_bundle_def
      create_impl_def Let_def split: option.splits)

text \<open>The loop leaves the links of type \<open>before\<close> in place, and the new description adds its own once more.\<close>

lemma before_links_stay:
  assumes "\<forall>d\<in>set (dependsOn (recs (set_of st) s)). DepType (deps (set_of st) d) = DepBefore"
  shows "remove_deps s st = st"
proof -
  have "rm_at s i st = st" for i using assms by (auto simp: rm_at_def Let_def)
  then have "fold (rm_at s) is st = st" for "is" by (induction "is") simp_all
  then show ?thesis by (simp add: remove_deps_def)
qed

section \<open>Examples\<close>

text \<open>The service of \<open>single\<close>, after it was loaded.\<close>

definition loaded_state :: load_state where
  "loaded_state = snd (DirLoader_LoadService (sample_load_env single) (as 0) start_state)"

lemma loaded_single:
  "DirLoader_LoadService (sample_load_env single) (as 0) start_state = (Inr 0, loaded_state)"
  using load_single by (auto simp: loaded_state_def)

lemma single_loaded_as: "loaded_as (sample_load_env single) (as 0) (NewServiceDescription (as 0)) 0 loaded_state"
proof -
  have "\<exists>d p. read_description (e_sys (sample_load_env single)) (e_host (sample_load_env single))
      (e_loader (sample_load_env single)) (as 0) = Inr (d, p) \<and> loaded_as (sample_load_env single) (as 0) d 0 loaded_state"
    using loadServiceImpl_loaded [of start_state "as 0" config_MaxDepDepth "sample_load_env single" 0 loaded_state]
      loaded_single start_state_inv FindService_unknown
    by (simp add: DirLoader_LoadService_def find_or_load_def ready_def)
  then show ?thesis using single_description by auto
qed

lemma single_found:
  "findAndParse (e_sys (sample_load_env single)) (e_host (sample_load_env single)) (e_loader (sample_load_env single)) (as 0)
    = Inr (NewServiceDescription (as 0), ''/d/'' @ as 0)"
  by (rule sample_found [where t = "[]"]) (simp_all add: single_def parse_empty)

lemma loaded_single_state:
  "impl_of loaded_state 0 = Process" "serviceName (cfgs (set_of loaded_state) 0) = as 0"
  "state (recs (set_of loaded_state) 0) = StateStopped" "dependsOn (recs (set_of loaded_state) 0) = []"
proof -
  note l = single_loaded_as [unfolded loaded_as_def]
  show "impl_of loaded_state 0 = Process" "serviceName (cfgs (set_of loaded_state) 0) = as 0"
    "state (recs (set_of loaded_state) 0) = StateStopped"
    using l by (auto simp: impl_of_def apply_record_def apply_actions_def new_config_def create_impl_def NewServiceDescription_def Let_def)
  show "dependsOn (recs (set_of loaded_state) 0) = []"
    using l by (simp add: realises_def declared_def dep_specs_def dir_specs_def dep_list_def NewServiceDescription_def
        new_dependencies_def)
qed


theorem refused_reload_changes_nothing_witness:
  "\<exists>st'. DirLoader_ReloadService (sample_load_env chain) 0 start_state = Some (Inl (NotParsed (NotFound [])), st') \<and> st' = start_state"
proof -
  have "serviceName (cfgs (set_of start_state) 0) = []" by (simp add: start_state_def internals_eval internal_cfg_def new_config_def)
  moreover have "findAndParse (e_sys (sample_load_env chain)) (e_host (sample_load_env chain)) (e_loader (sample_load_env chain)) []
      = Inl (NotFound [])"
    by (simp add: findAndParse_def sample_load_env_def NewDirLoader_def search_paths_def search_names_def base_name_def
        path_Join_def Clean_def IsAbs_def sample_files_def as_def)
  ultimately have r: "DirLoader_ReloadService (sample_load_env chain) 0 start_state = Some (Inl (NotParsed (NotFound [])), start_state)"
    by (simp add: DirLoader_ReloadService_def)
  then show ?thesis using refused_reload_changes_nothing [OF r] by simp
qed

end
