(* ===== verification/Spec2Isabelle.thy ===== *)
theory Spec2Isabelle
  imports Roundtrip Environment LogBuffer Guarantees Termination Behaviour Depth Profile Control
    Hardening Periodic RingBuffer ConfigGuarantees LoaderGuarantees Reload
begin

text \<open>
  Verification of slinit, a service manager and init system written in Go.

  \<^bold>\<open>The program.\<close>  A daemon keeps a set of services (\<open>pkg/service/set.go\<close>).  A service is a record
  (\<open>record.go\<close>) embedded in one of several types: a supervised process (\<open>process.go\<close>), a pair of start
  and stop commands (\<open>scripted.go\<close>), an internal or a triggered service.  Services are linked by
  dependencies of seven kinds (\<open>dependency.go\<close>).  A request (start, stop, wake, release, pin, a trigger, a
  new or removed link, shutdown), the end of a process, a timer or a notification changes one record and
  queues work for its neighbours; the set then runs its two queues, propagation first, until both are
  empty.  Start slots are handed out by a limiter (\<open>startlimit.go\<close>), dynamic users by a pool
  (\<open>uidpool.go\<close>).  Clients talk to the daemon over a Unix socket (\<open>pkg/control\<close>): packets are decoded
  (\<open>protocol.go\<close>) and dispatched to handlers (\<open>connection.go\<close>) that act on the set, on the dependency
  depths (\<open>depth.go\<close>), on the profiles (\<open>profile.go\<close>), on the environment and on the scheduled shutdown
  (\<open>server.go\<close>).  A service can have a periodic task (\<open>cron.go\<close>, with calendar expressions of
  \<open>calendar.go\<close>) and a health check (\<open>healthcheck.go\<close>).  Its process is started through a runner
  (\<open>cmd/slinit-runner\<close>) that installs system call filters compiled by \<open>pkg/seccomp\<close> before it executes the
  program.  The daemon's own log goes through a rolling buffer (\<open>pkg/logging/ringbuffer.go\<close>).

  Services come from descriptions (\<open>pkg/config\<close>): a parser (\<open>parser.go\<close>, with the table of \<open>settings.go\<close>)
  reads lines, expands variables, follows includes and puts some three hundred settings into a
  \<open>ServiceDescription\<close>; the loader (\<open>loader.go\<close>) finds the file or an init.d script (\<open>initd.go\<close>,
  \<open>openrc_confd.go\<close>, \<open>openrc_depend.go\<close>), applies overlays, checks settings against each other and against
  the detected platform (\<open>pkg/platform/detect.go\<close>), creates the service, loads its dependencies in turn and
  configures the record.

  \<^bold>\<open>The theories.\<close>
  \<^item> \<open>Prelude\<close>: words, results, pipelines of state changes (\<open>run\<close>, \<open>when_do\<close>), preservation (\<open>keeps\<close>),
    decimal printing.
  \<^item> \<open>Types\<close>: the enumerations of \<open>types.go\<close> with numbering, printing and parsing; wait statuses.
  \<^item> \<open>UIDPool\<close>, \<open>StartLimit\<close>, \<open>LogBuffer\<close>: one component each, with its invariant.
  \<^item> \<open>Environment\<close>: the daemon-wide environment of \<open>set.go\<close>, an entry list with an index and a cached
    snapshot, refining a map; the environment a process gets.
  \<^item> \<open>Wire\<close>, \<open>Protocol\<close>, \<open>Roundtrip\<close>: byte codecs, every packet format, the round trips, and which
    decoders can panic.
  \<^item> \<open>World\<close>: the state, with pointers as identifiers into stores so that the sharing of a link between
    the two services is kept; \<open>Cascade\<close> (references, stopping, the recursion through dependents),
    \<open>Lifecycle\<close> (starting, started, stopped, failing, bringing up and down), \<open>Scheduler\<close> (propagation,
    transitions, the queue loop, the requests, links), \<open>ProcessService\<close> (exits, timers, recovery).
  \<^item> \<open>Ledger\<close>: every operation is a sequence of primitive entries; locales for what they keep, up to the
    console and the queue loop.  \<open>Machine\<close>: events, one step, reachable worlds.  \<open>Construct\<close>: new sets
    and services.  \<open>Evaluate\<close>: running the machine on concrete worlds by rewriting.
  \<^item> \<open>Invariants\<close>: interpretations of the locales for the reference counts, the queues and the console;
    \<open>Guarantees\<close>, \<open>Termination\<close>, \<open>Behaviour\<close>: the properties of the machine.
  \<^item> \<open>Depth\<close>, \<open>Profile\<close>: recalculation of depths, search for cycles, swapping of profiles.
  \<^item> \<open>Connection\<close>, \<open>Handlers\<close>, \<open>Control\<close>: the connection, all command handlers, \<open>dispatch\<close> and \<open>serve\<close>;
    locales for what handlers keep, interpreted for the handle tables and for the state machine.
  \<^item> \<open>GoLib\<close>, \<open>GoTime\<close>: the functions of Go's \<open>strings\<close>, \<open>strconv\<close> and \<open>time\<close> the parsers and the calendar
    call, among them the Gregorian calendar.
  \<^item> \<open>SeccompTables\<close>, \<open>Seccomp\<close>, \<open>Hardening\<close>: the tables of system calls, groups and architectures; the
    validation and the compiler of filters; the argument-checking programs and the steps of the runner.
    The machine that runs the programs is the parameter of the locale \<open>cbpf\<close>.
  \<^item> \<open>Calendar\<close>, \<open>Periodic\<close>: parsing and searching of calendar expressions; the cron runner and the health
    checker, with the locale \<open>periodic\<close> for what their starting and stopping share.
  \<^item> \<open>RingBuffer\<close>: the rolling buffer, refining the list of bytes written since the last reset.
  \<^item> \<open>ServiceName\<close>, \<open>ConfigText\<close>, \<open>ConfigValues\<close>: names, lines, variables and command lines; the parsers of
    the values.  \<open>ConfigDesc\<close>: the description, in groups of fields as the source lays them out, and its
    defaults.  \<open>ConfigApply\<close>, \<open>ConfigSettings\<close>: \<open>applySetting\<close>, one table per part of its switch, and
    \<open>KnownSettings\<close>.  \<open>ConfigParse\<close>: the loop over the lines, scripts and includes.  \<open>ConfigValid\<close>: the
    invariant of a description and that every setting keeps it.  \<open>ConfigGuarantees\<close>: its properties.
  \<^item> \<open>Platform\<close>, \<open>InitScripts\<close>: detection of the platform; descriptions from init.d scripts, with a model of
    how the shell reads the commands that are built.
  \<^item> \<open>LoadDescription\<close>, \<open>LoadConfig\<close>: finding and checking a description; the configuration made from it, as
    far as the life cycle and the start of the process use it.  \<open>Loader\<close>: the recursive loading on the
    service set of \<open>World\<close>, with the locale \<open>dependency_loader\<close> for what a load keeps, interpreted for each
    depth from the one below.  \<open>LoaderGuarantees\<close>: its properties.  \<open>Reload\<close>: reloading and its properties.

  \<^bold>\<open>What is shown.\<close>  In every reachable world a service is required at least as often as links hold it
  and operators asked for it; the queue flags are exact; requests that return have drained the queues;
  \<open>doStop\<close> returns.  Whatever a client sends, these facts hold afterwards for the services that are loaded,
  the handle tables stay inverse, a peer without authority changes nothing, and the start commands are
  refused during shutdown.  The limiter, the pool, the environment, the buffer and
  the codecs meet their contracts.  Restarts are limited and delayed as configured, a process that does
  not stop is killed.  The search for cycles is exact, a recalculation of depths ends and can be rolled
  back.  A compiled filter returns and decides what the filter says; the hardening programs kill exactly
  the calls they are meant for, and when the runner succeeded the calls of every setting but
  lock-personality are killed; the mounts it makes for a loaded service are in a namespace of its own.  The
  calendar search returns the first match, the calendar parser well-formed specifications for words of at
  most 18 bytes, and the health checker reports exactly after the configured failures in a row.  A
  description that the parser accepts satisfies its invariant, and one that the loader accepts is consistent;
  commands are read back as printed; endless includes and endless chains of dependencies are refused.
  Loading keeps the service set sound and changes of existing services only the list of dependents, a
  missing log consumer and aliases; a loaded service has the settings and dependencies of its description; a
  failed load leaves no record behind; a reload that keeps the dependencies touches nothing but the
  settings, and one that is refused at a check nothing at all.  The clean-up of directories removes nothing
  outside \<open>/run\<close>, and the commands made for scripts are read as intended by every shell with the laws of
  \<open>posix_shell\<close>.
  Further lemmas are executions in which the program does something it does not mean to: the console is never granted, a soft dependency
  is acquired twice, a recovery timer has no listener, a stopped service is started by its start slot, a
  depth stays stale, a profile swap does the opposite of its report, a reload loses events, a deny filter
  is open on other targets, an allow list kills the runner's own call, locking the personality has no
  effect, a stopped cron task never runs again, and one with an accuracy runs repeatedly; circular
  dependencies are loaded, a failed load leaves links, five settings take effect only with a reload, the
  slice never does, a valid name leads out of the directories, and a bundle can not be reloaded; lists are
  appended to also by the operator that should replace them, an alias changes hands silently, a removed
  service stays the consumer of its producer, a step overflows, and after a reload the runner mounts in the
  namespace of the host.

  \<^bold>\<open>Loops and fuel.\<close>  The queue loop, the search for cycles and the recalculation of depths are partial
  functions: \<open>None\<close> is a run that does not end, and the last two are shown to end on finite graphs.  The
  queue loop itself may run for ever (a service that restarts at once, without a restart limit), so
  properties of requests speak of those that return.  \<open>doStop\<close> recurses through dependents, chains and
  broken soft links; it has fuel \<open>stop_fuel\<close>, one more than the number of explicitly activated services,
  each of which it can deactivate once, and \<open>doStop_terminates\<close> shows that this is enough and that more
  fuel changes nothing.  The console queue is pulled at most once per queued service.  The calendar search
  is a total function, as every candidate is later than the one before; the loop of a calendar step is
  partial, because its variable can overflow, and is shown to return for words of at most 18 bytes.
  Includes and dependencies recurse with the code's own limits: \<open>parseImpl n\<close> is the call at depth
  \<open>maxIncludeDepth + 1 - n\<close> and \<open>loadServiceImpl n\<close> the one at depth \<open>MaxDepDepth - n\<close>, and \<open>n = 0\<close> is the
  refusal that the code has there, so no fuel is added.

  \<^bold>\<open>Simplifications.\<close>  Calls run to their end under the queue lock, one after the other, as in the code;
  races on what is not under the lock are not modelled.  Go maps are association lists or functions, and
  where the order of iteration matters it is an argument.  What the kernel answers (spawning, conditions,
  files, signals) are fields of the state that the clock event changes.  Log lines that are not part of
  the life cycle are left out.  A handler's notifications to its own connection are modelled as a function
  of their own and not interleaved with its replies, environment changes excepted.

  The calendar has a fixed offset from UTC: changes of the offset are not modelled.  Strings are bytes, and
  white space and letters are those of ASCII.

  The parser and the loader have as parameters the environment, the answers of opening, reading and listing
  files, the parsers of floating-point numbers and of Go durations, the architecture, the path of
  \<open>dbus-send\<close>, and what the shell prints for the \<open>depend\<close> function of a script.  The tokens that the shell
  reads from a command are a parameter with the laws of the locale \<open>posix_shell\<close>, and the kernel's filter
  machine one with those of \<open>cbpf\<close>; both have an instance.  The state machine takes
  loading as a parameter of its own (\<open>loader\<close> in \<open>World\<close>); \<open>Loader\<close> is the code behind it.  Of the record the
  loader's model has the fields that a modelled component reads or that the loader computes; plain copies of
  texts, log and terminal settings are left out.

  \<^bold>\<open>Not modelled.\<close>  Background process services, the lookup of users and groups, the evaluation of the
  host conditions, log rotation, the watchers of kernel interfaces, process execution, the event loop, the
  final shutdown steps and the command-line tools.  The first is a state machine like those modelled; the
  rest is input and output.
\<close>

section \<open>Hardening and namespaces\<close>

unbundle bit_operations_syntax

text \<open>The steps of the runner that change mounts.\<close>

fun mounts :: "kcall \<Rightarrow> bool" where
  "mounts MountPrivate = True"
| "mounts (BindRec p) = True"
| "mounts (RemountRO p) = True"
| "mounts BindNullOverKmsg = True"
| "mounts c = False"

lemma installs_mount_nothing: "Do c \<in> set (installArg b) \<Longrightarrow> \<not> mounts c"
  by (auto simp: installArg_def install_steps_def split: sum.splits if_splits)

lemma mounts_needed:
  assumes "Do c \<in> set (applyHardening nums goarch stat h)" "mounts c"
  shows "needsMountNS h"
proof (rule ccontr)
  assume n: "\<not> needsMountNS h"
  have w: "x \<in> set (when_steps b ss) \<longleftrightarrow> b \<and> x \<in> set ss" for x b ss by (simp add: when_steps_def)
  have "c = SetMDWE \<or> c = kcall.NoNewPrivs \<or> (\<exists>b. Do c \<in> set (installArg b))"
    using assms(1) n unfolding applyHardening_def needsMountNS_def
    by (simp only: set_append Un_iff w split: if_splits) auto
  then show False using assms(2) installs_mount_nothing by auto
qed

text \<open>
  Property C32.  The mounts that the runner makes for the hardening of a service that was loaded are made in
  a mount namespace of the service's own: whenever applying the hardening on the record has a step that
  mounts, the flag for a new mount namespace is among the clone flags of the record.  (After a reload this
  need not hold, see \<open>reload_loses_namespace\<close>.)
\<close>

theorem hardening_mounts_are_private:
  assumes "hardening (applyToService d new_attrs) = Some g"
    and "protectKernelTunables h = ProtectKernelTunables g" "protectControlGroups h = ProtectControlGroups g"
      "protectKernelLogs h = ProtectKernelLogs g"
    and "Do c \<in> set (applyHardening nums goarch stat h)" "mounts c"
  shows "cloneflags (applyToService d new_attrs) AND CLONE_NEWNS \<noteq> 0"
proof -
  have "g = d_hardening d"
    using assms(1) by (auto simp: applyToService_def apply_isolation_def applyRlimits_def apply_ioprio_def apply_cgroup_def
        apply_directories_def new_attrs_def Let_def split: if_splits)
  then show ?thesis
    using mounts_needed [OF assms(5,6)] assms(2-4) namespaces_match_settings [of d] by (auto simp: needsMountNS_def Let_def)
qed

definition guarded_desc :: ServiceDescription where
  "guarded_desc = d_hardening_update (ProtectKernelLogs_update (\<lambda>_. True)) (NewServiceDescription ''a'')"

lemma guarded_attrs: "hardening (applyToService guarded_desc a) = Some (d_hardening guarded_desc)"
  by (simp add: guarded_desc_def applyToService_def apply_isolation_def applyRlimits_def apply_ioprio_def apply_cgroup_def
      apply_directories_def hardening_Active_def Let_def)

theorem hardening_mounts_are_private_witness:
  "Do MountPrivate \<in> set (applyHardening (\<lambda>_. None) ''amd64'' (\<lambda>_. Exists) (no_hardening\<lparr>protectKernelLogs := True\<rparr>)) \<and>
    cloneflags (applyToService guarded_desc new_attrs) AND CLONE_NEWNS \<noteq> 0"
proof -
  let ?h = "no_hardening\<lparr>protectKernelLogs := True\<rparr>"
  have m: "Do MountPrivate \<in> set (applyHardening (\<lambda>_. None) ''amd64'' (\<lambda>_. Exists) ?h)"
    by (simp add: applyHardening_def hardening_active_def needsMountNS_def when_steps_def)
  have "protectKernelTunables ?h = ProtectKernelTunables (d_hardening guarded_desc)"
    "protectControlGroups ?h = ProtectControlGroups (d_hardening guarded_desc)"
    "protectKernelLogs ?h = ProtectKernelLogs (d_hardening guarded_desc)"
    by (simp_all add: guarded_desc_def no_hardening_def NewServiceDescription_def new_hardening_def)
  from hardening_mounts_are_private [OF guarded_attrs this m] m show ?thesis by simp
qed

text \<open>
  A reload with a description that has no hardening keeps the hardening of the record, but replaces the
  clone flags when the description asks for another namespace: the runner then mounts in the namespace of
  the host.
\<close>

lemma reload_loses_namespace:
  fixes d :: ServiceDescription
  defines "d \<equiv> d_namespaces_update (NamespaceNet_update (\<lambda>_. True)) (NewServiceDescription ''a'')"
  shows "hardening (applyToService d (applyToService guarded_desc new_attrs)) = Some (d_hardening guarded_desc)"
    "cloneflags (applyToService d (applyToService guarded_desc new_attrs)) = CLONE_NEWNET"
proof -
  have h: "\<not> hardening_Active (d_hardening d)"
    by (simp add: d_def hardening_Active_def NewServiceDescription_def new_hardening_def)
  have f: "description_cloneflags d = CLONE_NEWNET"
    by (simp add: d_def description_cloneflags_def flag_if_def sandbox_Active_def NewServiceDescription_def new_namespaces_def
        new_sandbox_def new_hardening_def Let_def)
  have iso: "hardening (applyToService d a) = (if hardening_Active (d_hardening d) then Some (d_hardening d) else hardening a)"
    "cloneflags (applyToService d a) = (if description_cloneflags d \<noteq> 0 then description_cloneflags d else cloneflags a)" for a
    by (simp_all add: applyToService_def apply_isolation_def applyRlimits_def apply_ioprio_def apply_cgroup_def
        apply_directories_def Let_def)
  show "hardening (applyToService d (applyToService guarded_desc new_attrs)) = Some (d_hardening guarded_desc)"
    by (simp add: iso(1) h guarded_attrs)
  show "cloneflags (applyToService d (applyToService guarded_desc new_attrs)) = CLONE_NEWNET"
    by (simp add: iso(2) f CLONE_NEWNET_def)
qed

end
